(* ===== verification/Prelude.thy ===== *)
theory Prelude imports Main "HOL-Library.Word" begin

text \<open>
  What every component of the model shares: the integer types of the Rust code as machine
  words with the saturating operations the code uses, the string functions of the Rust
  standard library on byte strings, decimal formatting, and the sequencing of fallible,
  state-changing steps (\<open>andthen\<close>, Rust's early \<open>return\<close>).

  A Rust \<open>&str\<close> or \<open>String\<close> is a HOL \<open>string\<close>, its list of UTF-8
  bytes: \<open>len()\<close> is \<open>length\<close>, and \<open>chars()\<close> is \<open>utf8_chars\<close>, the list of
  code points.  A Rust \<open>Vec<u8>\<close> or \<open>[u8; n]\<close> is a list of 8-bit words.
\<close>

unbundle bit_operations_syntax

subsection \<open>Integers\<close>

type_synonym u8 = "8 word"
type_synonym u16 = "16 word"
type_synonym u32 = "32 word"
type_synonym u64 = "64 word"
type_synonym bytes = "u8 list"

text \<open>\<open>saturating_add\<close> and \<open>saturating_sub\<close> of the unsigned integer types.\<close>

definition sat_add :: "'a::len word \<Rightarrow> 'a word \<Rightarrow> 'a word" where
  "sat_add a b = (if unat a + unat b < 2 ^ LENGTH('a) then a + b else - 1)"

definition sat_sub :: "'a::len word \<Rightarrow> 'a word \<Rightarrow> 'a word" where
  "sat_sub a b = (if a < b then 0 else a - b)"

definition sat_mul :: "'a::len word \<Rightarrow> 'a word \<Rightarrow> 'a word" where
  "sat_mul a b = (if unat a * unat b < 2 ^ LENGTH('a) then a * b else - 1)"

lemma unat_sat_add: "unat (sat_add a b) = min (unat a + unat b) (2 ^ LENGTH('a) - 1)"
  for a b :: "'a::len word"
proof (cases "unat a + unat b < 2 ^ LENGTH('a)")
  case True
  then show ?thesis by (simp add: sat_add_def unat_word_ariths)
next
  case False
  moreover have "unat (- 1 :: 'a word) = 2 ^ LENGTH('a) - 1"
    by (simp add: unsigned_minus_1_eq_mask mask_eq_exp_minus_1)
  ultimately show ?thesis by (simp add: sat_add_def)
qed

lemma unat_sat_sub: "unat (sat_sub a b) = unat a - unat b"
  by (auto simp: sat_sub_def word_less_nat_alt unat_sub_if')

lemma sat_add_ge: "a \<le> sat_add a b"
proof -
  have "unat a < 2 ^ LENGTH('a)" by (rule unsigned_less)
  then have "unat a \<le> 2 ^ LENGTH('a) - 1" by linarith
  then have "unat a \<le> unat (sat_add a b)" by (simp add: unat_sat_add)
  then show ?thesis by (simp add: word_le_nat_alt)
qed

lemma sat_add_mono: "a \<le> c \<Longrightarrow> sat_add a b \<le> sat_add c b"
  by (auto simp: word_le_nat_alt unat_sat_add)

lemma sat_add_mono2: "a \<le> c \<Longrightarrow> b \<le> d \<Longrightarrow> sat_add a b \<le> sat_add c d"
  by (auto simp: word_le_nat_alt unat_sat_add)

text \<open>
  Milliseconds since the epoch to seconds: \<open>Date::now().as_millis() / 1000\<close>.
\<close>

definition secs_of_millis :: "u64 \<Rightarrow> u64" where
  "secs_of_millis ms = ms div 1000"

lemma unat_secs_of_millis: "unat (secs_of_millis ms) = unat ms div 1000"
  by (simp add: secs_of_millis_def unat_div)

lemma secs_of_millis_mono: "a \<le> b \<Longrightarrow> secs_of_millis a \<le> secs_of_millis b"
  by (simp add: word_le_nat_alt unat_secs_of_millis div_le_mono)

text \<open>An integer as \<open>n\<close> little-endian bytes, and back.\<close>

fun le_bytes :: "nat \<Rightarrow> nat \<Rightarrow> bytes" where
  "le_bytes 0 x = []"
| "le_bytes (Suc n) x = of_nat (x mod 256) # le_bytes n (x div 256)"

fun le_value :: "bytes \<Rightarrow> nat" where
  "le_value [] = 0"
| "le_value (b # bs) = unat b + 256 * le_value bs"

lemma length_le_bytes [simp]: "length (le_bytes n x) = n"
  by (induction n arbitrary: x) auto

lemma le_value_le_bytes: "x < 256 ^ n \<Longrightarrow> le_value (le_bytes n x) = x"
proof (induction n arbitrary: x)
  case (Suc n)
  then have "x div 256 < 256 ^ n" by (simp add: less_mult_imp_div_less mult.commute)
  with Suc.IH[of "x div 256"] show ?case by (simp add: unat_of_nat)
qed simp

subsection \<open>Characters and strings\<close>

text \<open>
  \<open>str::chars\<close>: the code points of a well-formed UTF-8 byte string, by the length of
  each leading byte.  A truncated or overlong sequence cannot occur in a Rust
  \<open>str\<close>; it is decoded to the replacement character.
\<close>

definition cont_bits :: "char \<Rightarrow> nat" where
  "cont_bits c = of_char c mod 64"

definition decoded :: "nat \<Rightarrow> nat" where
  "decoded v = (if v < 128 then 65533 else v)"

fun utf8_chars :: "string \<Rightarrow> nat list" where
  "utf8_chars [] = []"
| "utf8_chars (c # cs) =
     (let b = (of_char c :: nat) in
      if b < 128 then b # utf8_chars cs
      else if b < 224 then
        (case cs of
           c1 # r \<Rightarrow> decoded ((b mod 32) * 64 + cont_bits c1) # utf8_chars r
         | _ \<Rightarrow> [65533])
      else if b < 240 then
        (case cs of
           c1 # c2 # r \<Rightarrow>
             decoded ((b mod 16) * 4096 + cont_bits c1 * 64 + cont_bits c2) # utf8_chars r
         | _ \<Rightarrow> [65533])
      else
        (case cs of
           c1 # c2 # c3 # r \<Rightarrow>
             decoded ((b mod 8) * 262144 + cont_bits c1 * 4096 + cont_bits c2 * 64 + cont_bits c3)
               # utf8_chars r
         | _ \<Rightarrow> [65533]))"

definition ascii_only :: "string \<Rightarrow> bool" where
  "ascii_only s = list_all (\<lambda>c. (of_char c :: nat) < 128) s"

lemma utf8_chars_ascii: "ascii_only s \<Longrightarrow> utf8_chars s = map of_char s"
  by (induction s) (simp_all add: ascii_only_def)

lemma utf8_chars_nonascii:
  "128 \<le> (of_char c :: nat) \<Longrightarrow> \<exists>x xs. utf8_chars (c # cs) = x # xs \<and> 128 \<le> x"
  by (auto simp: Let_def decoded_def split: list.split)

text \<open>The ASCII classes of \<open>char\<close>, as code points.\<close>

definition is_ascii_digit :: "nat \<Rightarrow> bool" where
  "is_ascii_digit c = (48 \<le> c \<and> c \<le> 57)"

definition is_ascii_hexdigit :: "nat \<Rightarrow> bool" where
  "is_ascii_hexdigit c =
     (is_ascii_digit c \<or> (65 \<le> c \<and> c \<le> 70) \<or> (97 \<le> c \<and> c \<le> 102))"

definition is_ascii_alphanumeric :: "nat \<Rightarrow> bool" where
  "is_ascii_alphanumeric c =
     (is_ascii_digit c \<or> (65 \<le> c \<and> c \<le> 90) \<or> (97 \<le> c \<and> c \<le> 122))"

text \<open>\<open>char::is_whitespace\<close>: the Unicode property \<open>White_Space\<close>.\<close>

definition is_whitespace :: "nat \<Rightarrow> bool" where
  "is_whitespace c =
     ((9 \<le> c \<and> c \<le> 13) \<or> c = 32 \<or> c = 133 \<or> c = 160 \<or> c = 5760 \<or>
      (8192 \<le> c \<and> c \<le> 8202) \<or> c = 8232 \<or> c = 8233 \<or> c = 8239 \<or> c = 8287 \<or> c = 12288)"

text \<open>\<open>char::is_control\<close>: the Unicode category \<open>Cc\<close>.\<close>

definition is_control :: "nat \<Rightarrow> bool" where
  "is_control c = (c < 32 \<or> (127 \<le> c \<and> c < 160))"

text \<open>\<open>to_ascii_lowercase\<close>, byte by byte.\<close>

definition char_lower :: "char \<Rightarrow> char" where
  "char_lower c = (let b = (of_char c :: nat) in
     if 65 \<le> b \<and> b \<le> 90 then char_of (b + 32) else c)"

definition to_ascii_lowercase :: "string \<Rightarrow> string" where
  "to_ascii_lowercase s = map char_lower s"

lemma length_to_ascii_lowercase [simp]: "length (to_ascii_lowercase s) = length s"
  by (simp add: to_ascii_lowercase_def)

lemma char_lower_idem [simp]: "char_lower (char_lower c) = char_lower c"
  by (auto simp: char_lower_def Let_def)

lemma to_ascii_lowercase_idem [simp]:
  "to_ascii_lowercase (to_ascii_lowercase s) = to_ascii_lowercase s"
  by (simp add: to_ascii_lowercase_def)

text \<open>\<open>starts_with\<close>, \<open>strip_prefix\<close>, \<open>ends_with\<close>, \<open>contains\<close>.\<close>

fun starts_with :: "string \<Rightarrow> string \<Rightarrow> bool" where
  "starts_with s [] = True"
| "starts_with [] (p # ps) = False"
| "starts_with (c # cs) (p # ps) = (c = p \<and> starts_with cs ps)"

definition strip_prefix :: "string \<Rightarrow> string \<Rightarrow> string option" where
  "strip_prefix s p = (if starts_with s p then Some (drop (length p) s) else None)"

definition ends_with :: "string \<Rightarrow> string \<Rightarrow> bool" where
  "ends_with s p = starts_with (rev s) (rev p)"

fun contains_str :: "string \<Rightarrow> string \<Rightarrow> bool" where
  "contains_str [] p = (p = [])"
| "contains_str (c # cs) p = (starts_with (c # cs) p \<or> contains_str cs p)"

lemma starts_with_iff: "starts_with s p \<longleftrightarrow> (\<exists>r. s = p @ r)"
proof (induction s p rule: starts_with.induct)
  case (3 c cs p ps)
  then show ?case by auto
qed auto

lemma starts_with_append [simp]: "starts_with (p @ r) p"
  by (auto simp: starts_with_iff)

lemma strip_prefix_append [simp]: "strip_prefix (p @ r) p = Some r"
  by (simp add: strip_prefix_def)

lemma strip_prefix_Some_iff: "strip_prefix s p = Some r \<longleftrightarrow> s = p @ r"
  by (auto simp: strip_prefix_def starts_with_iff)

lemma ends_with_iff: "ends_with s p \<longleftrightarrow> (\<exists>r. s = r @ p)"
proof -
  have "ends_with s p \<longleftrightarrow> (\<exists>r. rev s = rev p @ r)"
    by (simp add: ends_with_def starts_with_iff)
  also have "\<dots> \<longleftrightarrow> (\<exists>r. s = rev r @ p)"
    by (metis rev_append rev_rev_ident)
  also have "\<dots> \<longleftrightarrow> (\<exists>r. s = r @ p)"
    by (metis rev_rev_ident)
  finally show ?thesis .
qed

lemma contains_char: "contains_str s [c] \<longleftrightarrow> c \<in> set s"
  by (induction s) auto

text \<open>\<open>split(sep)\<close> on a single character, and \<open>split_once\<close> on a string.\<close>

fun split_on :: "char \<Rightarrow> string \<Rightarrow> string list" where
  "split_on d [] = [[]]"
| "split_on d (c # cs) =
     (if c = d then [] # split_on d cs
      else case split_on d cs of
             [] \<Rightarrow> [[c]]
           | w # ws \<Rightarrow> (c # w) # ws)"

lemma split_on_nonempty [simp]: "split_on d s \<noteq> []"
  by (induction s) (auto split: list.splits)

lemma split_on_no_sep: "d \<notin> set s \<Longrightarrow> split_on d s = [s]"
  by (induction s) auto

lemma split_on_append: "d \<notin> set s \<Longrightarrow> split_on d (s @ d # t) = s # split_on d t"
  by (induction s) auto

fun split_once :: "string \<Rightarrow> string \<Rightarrow> (string \<times> string) option" where
  "split_once [] sep = (if sep = [] then Some ([], []) else None)"
| "split_once (c # cs) sep =
     (case strip_prefix (c # cs) sep of
        Some r \<Rightarrow> Some ([], r)
      | None \<Rightarrow> map_option (\<lambda>(a, b). (c # a, b)) (split_once cs sep))"

lemma split_once_Some: "split_once s sep = Some (a, b) \<Longrightarrow> s = a @ sep @ b"
proof (induction s arbitrary: a)
  case Nil
  then show ?case by (auto split: if_splits)
next
  case (Cons c cs)
  then show ?case
    by (auto simp: strip_prefix_Some_iff split: option.splits)
qed

text \<open>
  \<open>trim\<close>: it removes the \<open>White_Space\<close> characters of both ends.  Each is one to three
  bytes long; \<open>space_bytes\<close> is the length of the encoding of a code point.
\<close>

definition space_bytes :: "nat \<Rightarrow> nat" where
  "space_bytes c = (if \<not> is_whitespace c then 0 else if c < 128 then 1 else if c < 2048 then 2 else 3)"

function trim_start :: "string \<Rightarrow> string" where
  "trim_start s =
     (let n = (case utf8_chars s of [] \<Rightarrow> 0 | c # _ \<Rightarrow> space_bytes c)
      in if s = [] \<or> n = 0 then s else trim_start (drop n s))"
  by auto
termination by (relation "measure length") (auto simp: Let_def)

function trim_end :: "string \<Rightarrow> string" where
  "trim_end s =
     (let n = (if utf8_chars s = [] then 0 else space_bytes (last (utf8_chars s)))
      in if s = [] \<or> n = 0 then s else trim_end (take (length s - n) s))"
  by auto
termination by (relation "measure length") (auto simp: Let_def)

declare trim_start.simps [simp del] trim_end.simps [simp del]

definition trim :: "string \<Rightarrow> string" where
  "trim s = trim_end (trim_start s)"

lemma split_once_char: "c \<notin> set a \<Longrightarrow> split_once (a @ c # b) [c] = Some (a, b)"
  by (induction a) (auto simp: strip_prefix_def)

lemma split_on_append_any: "split_on d (a @ d # b) = split_on d a @ split_on d b"
proof (induction a)
  case (Cons x xs)
  then show ?case by (cases "split_on d xs") auto
qed simp

lemma trim_start_kept: "(of_char c :: nat) < 128 \<Longrightarrow> \<not> is_whitespace (of_char c) \<Longrightarrow> trim_start (c # s) = c # s"
  by (subst trim_start.simps) (simp add: space_bytes_def Let_def)

lemma trim_start_space: "trim_start (CHR '' '' # s) = trim_start s"
  by (subst trim_start.simps) (simp add: space_bytes_def is_whitespace_def Let_def)

lemma trim_end_kept:
  assumes "ascii_only s" "s \<noteq> []" "\<not> is_whitespace (of_char (last s))"
  shows "trim_end s = s"
  using assms by (subst trim_end.simps) (simp add: utf8_chars_ascii last_map space_bytes_def)

text \<open>
  \<open>to_lowercase\<close> before a comparison with ASCII text: besides the ASCII letters only the Kelvin
  sign (bytes E2 84 AA) lowers to an ASCII character, and no other character lowers to ASCII
  text, so the others may be kept.
\<close>

fun to_lowercase :: "string \<Rightarrow> string" where
  "to_lowercase (a # b # c # s) =
     (if [a, b, c] = [CHR 0xE2, CHR 0x84, CHR 0xAA] then CHR ''k'' # to_lowercase s
      else char_lower a # to_lowercase (b # c # s))"
| "to_lowercase s = map char_lower s"

text \<open>\<open>eq_ignore_ascii_case\<close>.\<close>

definition eq_ignore_ascii_case :: "string \<Rightarrow> string \<Rightarrow> bool" where
  "eq_ignore_ascii_case a b = (to_ascii_lowercase a = to_ascii_lowercase b)"

text \<open>\<open>as_bytes\<close>.\<close>

definition string_bytes :: "string \<Rightarrow> bytes" where "string_bytes s = map (\<lambda>c. of_nat (of_char c)) s"

lemma string_bytes_inj: "string_bytes s = string_bytes t \<longleftrightarrow> s = t"
proof -
  have "(of_nat (of_char c) :: u8) = of_nat (of_char d) \<longleftrightarrow> c = d" for c d :: char
  proof -
    have "unat (of_nat (of_char x) :: u8) = of_char x" for x :: char
      by (simp add: unat_of_nat)
    then show ?thesis by (metis of_char_eq_iff)
  qed
  then show ?thesis
    unfolding string_bytes_def by (simp add: inj_map_eq_map inj_def)
qed

lemma le_bytes_inj: "x < 256 ^ n \<Longrightarrow> y < 256 ^ n \<Longrightarrow> le_bytes n x = le_bytes n y \<Longrightarrow> x = y"
  by (metis le_value_le_bytes)

text \<open>The outcome of \<open>headers.get(..)\<close>.\<close>

datatype header_read = HeaderError | HeaderMissing | HeaderValue string

subsection \<open>Decimal formatting\<close>

text \<open>\<open>format!("{}", n)\<close> on an unsigned integer, and \<open>{:0w}\<close> with zero padding.\<close>

definition digit_char :: "nat \<Rightarrow> char" where
  "digit_char d = char_of (48 + d)"

fun show_nat :: "nat \<Rightarrow> string" where
  "show_nat n = (if n < 10 then [digit_char n] else show_nat (n div 10) @ [digit_char (n mod 10)])"

declare show_nat.simps [simp del]

abbreviation show_u64 :: "u64 \<Rightarrow> string" where "show_u64 n \<equiv> show_nat (unat n)"

definition show_padded :: "nat \<Rightarrow> nat \<Rightarrow> string" where
  "show_padded w n = (let s = show_nat n in replicate (w - length s) (CHR ''0'') @ s)"

lemma of_char_digit_char: "d < 10 \<Longrightarrow> (of_char (digit_char d) :: nat) = 48 + d"
  by (simp add: digit_char_def)

lemma is_ascii_digit_digit_char: "d < 10 \<Longrightarrow> is_ascii_digit (of_char (digit_char d))"
  by (simp add: of_char_digit_char is_ascii_digit_def)

text \<open>\<open>hex::encode\<close>.\<close>

definition hex_digit :: "nat \<Rightarrow> char" where
  "hex_digit d = (if d < 10 then digit_char d else char_of (87 + d))"

definition hex_encode :: "bytes \<Rightarrow> string" where
  "hex_encode bs = concat (map (\<lambda>b. [hex_digit (unat b div 16), hex_digit (unat b mod 16)]) bs)"

definition hex_nibble :: "char \<Rightarrow> nat" where
  "hex_nibble c = (if of_char c < (97 :: nat) then of_char c - 48 else of_char c - 87)"

fun unhex :: "string \<Rightarrow> bytes" where
  "unhex (a # b # r) = of_nat (16 * hex_nibble a + hex_nibble b) # unhex r"
| "unhex _ = []"

lemma hex_nibble_digit: "d < 16 \<Longrightarrow> hex_nibble (hex_digit d) = d"
  by (auto simp: hex_nibble_def hex_digit_def digit_char_def)

lemma unhex_encode: "unhex (hex_encode b) = b"
proof (induction b)
  case (Cons x b)
  have "unat x div 16 < 16" "unat x mod 16 < 16" using unsigned_less[of x, where 'a = nat] by simp_all
  then show ?case using Cons by (simp add: hex_encode_def hex_nibble_digit)
qed (simp add: hex_encode_def)

lemma hex_encode_inj: "hex_encode x = hex_encode y \<Longrightarrow> x = y"
  by (metis unhex_encode)

lemma show_nat_digits: "list_all (\<lambda>c. is_ascii_digit (of_char c)) (show_nat n)"
proof (induction n rule: show_nat.induct)
  case (1 n)
  show ?case
    by (subst show_nat.simps) (use 1 in \<open>simp add: is_ascii_digit_digit_char\<close>)
qed

definition digits_value :: "string \<Rightarrow> nat" where
  "digits_value s = foldl (\<lambda>v c. 10 * v + (of_char c - 48)) 0 s"

lemma digits_value_show [simp]: "digits_value (show_nat n) = n"
  unfolding digits_value_def
proof (induction n rule: show_nat.induct)
  case (1 n)
  then show ?case
    by (subst show_nat.simps) (auto simp: of_char_digit_char)
qed

lemma show_nat_inj [simp]: "show_nat m = show_nat n \<longleftrightarrow> m = n"
  by (metis digits_value_show)

lemma show_nat_nonempty [simp]: "show_nat n \<noteq> []"
  by (subst show_nat.simps) simp

text \<open>\<open>str::parse\<close> of an unsigned integer: an optional plus sign, then at least one digit, in range.\<close>

definition parse_unsigned :: "nat \<Rightarrow> string \<Rightarrow> nat option" where
  "parse_unsigned bound s =
     (let t = (case s of [] \<Rightarrow> [] | c # cs \<Rightarrow> if c = CHR ''+'' then cs else s) in
      if t = [] \<or> \<not> list_all (\<lambda>c. is_ascii_digit (of_char c)) t then None
      else let v = digits_value t in if v < bound then Some v else None)"

lemma parse_unsigned_show: "n < b \<Longrightarrow> parse_unsigned b (show_nat n) = Some n"
proof -
  assume n: "n < b"
  obtain c r where s: "show_nat n = c # r" by (cases "show_nat n") simp_all
  have d: "list_all (\<lambda>c. is_ascii_digit (of_char c)) (show_nat n)" by (rule show_nat_digits)
  with s have "c \<noteq> CHR ''+''" by (auto simp: is_ascii_digit_def)
  with s have "(case show_nat n of [] \<Rightarrow> [] | c # r \<Rightarrow> if c = CHR ''+'' then r else show_nat n) = show_nat n"
    by simp
  then show ?thesis
    using d n unfolding parse_unsigned_def by (simp add: Let_def)
qed

lemma length_show_nat_le: "0 < w \<Longrightarrow> n < 10 ^ w \<Longrightarrow> length (show_nat n) \<le> w"
proof (induction n arbitrary: w rule: show_nat.induct)
  case (1 n)
  show ?case
  proof (cases "n < 10")
    case True
    with 1 show ?thesis by (subst show_nat.simps) simp
  next
    case False
    with 1(3) have "w \<noteq> 1" by (cases "w = 1") simp_all
    with 1(2) obtain v where w: "w = Suc v" "0 < v" by (cases w) auto
    with 1(3) have "n div 10 < 10 ^ v" by (simp add: less_mult_imp_div_less mult.commute)
    with False w 1(1)[of v] have "length (show_nat (n div 10)) \<le> v" by simp
    with False w show ?thesis by (subst show_nat.simps) simp
  qed
qed

lemma length_show_padded: "0 < w \<Longrightarrow> n < 10 ^ w \<Longrightarrow> length (show_padded w n) = w"
  using length_show_nat_le[of w n] by (simp add: show_padded_def Let_def)

lemma show_padded_digits: "list_all (\<lambda>c. is_ascii_digit (of_char c)) (show_padded w n)"
proof -
  have "list_all (\<lambda>c. is_ascii_digit (of_char c)) (replicate k (CHR ''0''))" for k
    by (induction k) (simp_all add: is_ascii_digit_def)
  then show ?thesis by (simp add: show_padded_def Let_def show_nat_digits)
qed

subsection \<open>Sequencing with early return\<close>

text \<open>
  A handler of the code is a sequence of steps over a shared state, each of which may
  return early with the handler's final answer.  A step is a function from the state to
  \<open>Inl\<close> of the final answer or \<open>Inr\<close> of the value the next step works on, with the
  new state.
\<close>

type_synonym ('w, 'r, 'a) step = "'w \<Rightarrow> ('r + 'a) \<times> 'w"

definition andthen :: "('w, 'r, 'a) step \<Rightarrow> ('a \<Rightarrow> ('w, 'r, 'b) step) \<Rightarrow> ('w, 'r, 'b) step" where
  "andthen m f = (\<lambda>w. case m w of (Inl r, w') \<Rightarrow> (Inl r, w') | (Inr a, w') \<Rightarrow> f a w')"

definition ret :: "'a \<Rightarrow> ('w, 'r, 'a) step" where
  "ret a = (\<lambda>w. (Inr a, w))"

definition stop :: "'r \<Rightarrow> ('w, 'r, 'a) step" where
  "stop r = (\<lambda>w. (Inl r, w))"

text \<open>The answer of a step sequence that ends by returning one.\<close>

definition finish :: "('w, 'r, 'r) step \<Rightarrow> 'w \<Rightarrow> 'r \<times> 'w" where
  "finish m w = (case m w of (Inl r, w') \<Rightarrow> (r, w') | (Inr r, w') \<Rightarrow> (r, w'))"

lemma andthen_ret [simp]: "andthen (ret a) f = f a"
  by (simp add: andthen_def ret_def fun_eq_iff)

lemma andthen_stop [simp]: "andthen (stop r) f = stop r"
  by (simp add: andthen_def stop_def fun_eq_iff)

lemma andthen_Inr_iff:
  "andthen m f w = (Inr b, w'') \<longleftrightarrow> (\<exists>a w'. m w = (Inr a, w') \<and> f a w' = (Inr b, w''))"
  by (auto simp: andthen_def split: prod.splits sum.splits)

lemma andthen_Inl_iff:
  "andthen m f w = (Inl r, w'') \<longleftrightarrow>
     m w = (Inl r, w'') \<or> (\<exists>a w'. m w = (Inr a, w') \<and> f a w' = (Inl r, w''))"
  by (auto simp: andthen_def split: prod.splits sum.splits)

lemma andthen_assoc: "andthen (andthen m f) g = andthen m (\<lambda>a. andthen (f a) g)"
  by (auto simp: andthen_def fun_eq_iff split: prod.splits sum.splits)

lemma ret_eq_iff [simp]: "ret a w = (x, w') \<longleftrightarrow> x = Inr a \<and> w' = w"
  by (auto simp: ret_def)

lemma stop_eq_iff [simp]: "stop r w = (x, w') \<longleftrightarrow> x = Inl r \<and> w' = w"
  by (auto simp: stop_def)

text \<open>A property of the state that every step keeps is kept by the sequence.\<close>

definition keeps :: "('w \<Rightarrow> 'w \<Rightarrow> bool) \<Rightarrow> ('w, 'r, 'a) step \<Rightarrow> bool" where
  "keeps R m \<longleftrightarrow> (\<forall>w x w'. m w = (x, w') \<longrightarrow> R w w')"

lemma keepsD: "keeps R m \<Longrightarrow> m w = (x, w') \<Longrightarrow> R w w'"
  by (auto simp: keeps_def)

lemma keeps_ret: "reflp R \<Longrightarrow> keeps R (ret a)"
  by (auto simp: keeps_def ret_def reflp_def)

lemma keeps_stop: "reflp R \<Longrightarrow> keeps R (stop r)"
  by (auto simp: keeps_def stop_def reflp_def)

lemma keeps_andthen:
  assumes "transp R" and "keeps R m" and "\<And>a. keeps R (f a)"
  shows "keeps R (andthen m f)"
  unfolding keeps_def
proof (intro allI impI)
  fix w x w'' assume eq: "andthen m f w = (x, w'')"
  obtain y w' where m: "m w = (y, w')" by (cases "m w")
  with assms(2) have 1: "R w w'" by (rule keepsD)
  show "R w w''"
  proof (cases y)
    case (Inl r)
    with eq m 1 show ?thesis by (simp add: andthen_def)
  next
    case (Inr a)
    with eq m have "f a w' = (x, w'')" by (simp add: andthen_def)
    with assms(3) have "R w' w''" by (rule keepsD)
    with 1 assms(1) show ?thesis by (auto dest: transpD)
  qed
qed

text \<open>Every early answer of a step satisfies a predicate.\<close>

definition ends_in :: "('r \<Rightarrow> bool) \<Rightarrow> ('w, 'r, 'a) step \<Rightarrow> bool" where
  "ends_in Q m \<longleftrightarrow> (\<forall>w r w'. m w = (Inl r, w') \<longrightarrow> Q r)"

lemma ends_inD: "ends_in Q m \<Longrightarrow> m w = (Inl r, w') \<Longrightarrow> Q r"
  by (auto simp: ends_in_def)

lemma ends_in_ret: "ends_in Q (ret a)"
  by (auto simp: ends_in_def)

lemma ends_in_andthen: "ends_in Q m \<Longrightarrow> (\<And>a. ends_in Q (f a)) \<Longrightarrow> ends_in Q (andthen m f)"
  unfolding ends_in_def andthen_Inl_iff by metis

end
