(* ===== verification/Handler.thy ===== *)
theory Handler imports Prelude begin

text \<open>
  What the request handlers share: the state of a handler is a record of the states of the
  components it calls, and a call of a component is a step on its part of the record.
\<close>

named_theorems run_steps \<open>running the calls of components\<close>

definition on_part ::
    "('w \<Rightarrow> 'p) \<Rightarrow> (('p \<Rightarrow> 'p) \<Rightarrow> 'w \<Rightarrow> 'w) \<Rightarrow> ('p \<Rightarrow> 'a \<times> 'p) \<Rightarrow> ('w, 'r, 'a) step" where
  "on_part part part_update f w = (let (x, p) = f (part w) in (Inr x, part_update (\<lambda>_. p) w))"

text \<open>A log that only grows.\<close>

definition append_to :: "(('l list \<Rightarrow> 'l list) \<Rightarrow> 'w \<Rightarrow> 'w) \<Rightarrow> 'l list \<Rightarrow> ('w, 'r, unit) step" where
  "append_to log_update calls w = (Inr (), log_update (\<lambda>l. l @ calls) w)"

lemma andthen_on_part [run_steps]:
  "andthen (on_part g u f) k w = (case f (g w) of (x, p) \<Rightarrow> k x (u (\<lambda>_. p) w))"
  by (simp add: andthen_def on_part_def split_beta)

lemma andthen_append_to [run_steps]: "andthen (append_to u c) k w = k () (u (\<lambda>l. l @ c) w)"
  by (simp add: andthen_def append_to_def)

lemma run_ends [run_steps]: "ret x w = (Inr x, w)" "stop r w = (Inl r, w)"
  by simp_all

text \<open>How a sequence of steps that ends well, or that ends in an answer no early step gives, ran.\<close>

lemma finish_iff: "finish m w = (x, w') \<longleftrightarrow> m w = (Inl x, w') \<or> m w = (Inr x, w')"
  by (auto simp: finish_def split: prod.splits sum.splits)

lemma andthen_past:
  assumes "andthen m k w = (y, w'')" "y = Inl x \<or> y = Inr x" "ends_in Q m" "\<not> Q x"
  shows "\<exists>a w'. m w = (Inr a, w') \<and> k a w' = (y, w'')"
proof -
  from assms(1) have "(\<exists>r. m w = (Inl r, w'') \<and> y = Inl r) \<or> (\<exists>a w'. m w = (Inr a, w') \<and> k a w' = (y, w''))"
    by (auto simp: andthen_def split: prod.splits sum.splits)
  with assms(2-4) show ?thesis by (auto dest: ends_inD)
qed

lemma andthen_kept:
  assumes "andthen m k w = (y, w'')" "keeps R m"
  shows "R w w'' \<or> (\<exists>a w'. m w = (Inr a, w') \<and> R w w' \<and> k a w' = (y, w''))"
proof (cases "m w")
  case (Pair x w')
  with assms(2) have "R w w'" by (auto simp: keeps_def)
  with assms(1) Pair show ?thesis by (cases x) (auto simp: andthen_def)
qed

end
