(* ===== verification/Lifecycle.thy ===== *)
theory Lifecycle imports Prelude begin

text \<open>
  The contract of a lifecycle: a step relation between states whose terminal states have no
  way out and along which a rank grows whenever the state changes.  The challenge states and
  the hosted session states are interpretations.
\<close>

text \<open>A list of states, each reached from the one before by a step, and its number of changes
  of state.\<close>

fun path :: "('s \<Rightarrow> 's \<Rightarrow> bool) \<Rightarrow> 's \<Rightarrow> 's list \<Rightarrow> bool" where
  "path r s [] = True"
| "path r s (t # ts) = (r s t \<and> path r t ts)"

fun changes :: "'s \<Rightarrow> 's list \<Rightarrow> nat" where
  "changes s [] = 0"
| "changes s (t # ts) = (if s = t then 0 else 1) + changes t ts"

locale state_machine =
  fixes step :: "'s \<Rightarrow> 's \<Rightarrow> bool"
    and terminal :: "'s \<Rightarrow> bool"
  assumes absorbing: "terminal s \<Longrightarrow> step s t \<Longrightarrow> t = s"
begin

text \<open>A state that is only written through legal steps, or left as it is.\<close>

definition moves :: "'s \<Rightarrow> 's \<Rightarrow> bool" where
  "moves s t \<longleftrightarrow> s = t \<or> step s t"

lemma moves_terminal: "terminal s \<Longrightarrow> moves\<^sup>*\<^sup>* s t \<Longrightarrow> t = s"
proof (rotate_tac, induction rule: rtranclp_induct)
  case (step t u)
  then show ?case by (auto simp: moves_def dest: absorbing)
qed simp

lemma moves_eq: "moves\<^sup>*\<^sup>* = step\<^sup>*\<^sup>*"
proof (intro ext iffI)
  fix s t assume "moves\<^sup>*\<^sup>* s t"
  then show "step\<^sup>*\<^sup>* s t"
    by (induction rule: rtranclp_induct)
      (auto simp: moves_def intro: rtranclp.rtrancl_into_rtrancl)
next
  fix s t assume "step\<^sup>*\<^sup>* s t"
  then show "moves\<^sup>*\<^sup>* s t"
    by (induction rule: rtranclp_induct)
      (auto simp: moves_def intro: rtranclp.rtrancl_into_rtrancl)
qed

lemma terminal_reach: "terminal s \<Longrightarrow> step\<^sup>*\<^sup>* s t \<Longrightarrow> t = s"
  using moves_terminal[of s t] by (simp add: moves_eq)

lemma path_terminal: "terminal s \<Longrightarrow> path step s ts \<Longrightarrow> set ts \<subseteq> {s}"
proof (induction ts arbitrary: s)
  case (Cons t ts)
  then have "t = s" by (auto dest: absorbing)
  with Cons show ?case by auto
qed simp

lemma path_reach: "path step s ts \<Longrightarrow> t \<in> set ts \<Longrightarrow> step\<^sup>*\<^sup>* s t"
  by (induction ts arbitrary: s) (auto intro: converse_rtranclp_into_rtranclp)

end

locale ranked_machine = state_machine step terminal
  for step :: "'s \<Rightarrow> 's \<Rightarrow> bool" and terminal :: "'s \<Rightarrow> bool" +
  fixes rank :: "'s \<Rightarrow> nat" and top :: nat
  assumes progress: "step s t \<Longrightarrow> s \<noteq> t \<Longrightarrow> rank s < rank t"
    and bounded: "rank s \<le> top"
begin

lemma reach_rank: "step\<^sup>*\<^sup>* s t \<Longrightarrow> s = t \<or> rank s < rank t"
proof (induction rule: rtranclp_induct)
  case (step t u)
  then show ?case by (cases "t = u") (auto dest: progress)
qed simp

lemma no_return: "step\<^sup>*\<^sup>* s t \<Longrightarrow> step\<^sup>*\<^sup>* t s \<Longrightarrow> s = t"
  using reach_rank[of s t] reach_rank[of t s] by auto

lemma changes_rank: "path step s ts \<Longrightarrow> rank s + changes s ts \<le> top"
proof (induction ts arbitrary: s)
  case Nil
  then show ?case by (simp add: bounded)
next
  case (Cons t ts)
  then have "rank t + changes t ts \<le> top" "s = t \<or> rank s < rank t"
    by (auto dest: progress)
  then show ?case by auto
qed

lemma changes_bounded: "path step s ts \<Longrightarrow> changes s ts \<le> top - rank s"
  using changes_rank[of s ts] by linarith

end

end
