(* ===== verification/Api_Error.thy ===== *)
theory Api_Error imports Prelude begin

text \<open>
  \<open>src/error.rs\<close>: the API errors, the structured detail some of them carry inside their
  \<open>Option<String>\<close> payload, their HTTP responses, and the two conversions through
  \<open>worker::Error\<close>.  The request id, a fresh UUID, is an argument; logging is left out.
\<close>

subsection \<open>The error type\<close>

record error_detail =
  ed_code :: "string option"
  ed_field :: "string option"
  ed_detail :: "string option"

definition error_detail_new :: error_detail where
  "error_detail_new = \<lparr>ed_code = None, ed_field = None, ed_detail = None\<rparr>"

definition error_detail_from :: "string \<Rightarrow> error_detail" where
  "error_detail_from s = error_detail_new\<lparr>ed_detail := Some s\<rparr>"

datatype api_error =
    BadRequest "string option"
  | NotFound
  | Conflict "string option"
  | Gone "string option"
  | VerificationFailed
  | InvalidProof
  | Unauthorized
  | Forbidden "string option"
  | PayloadTooLarge "string option"
  | UnsupportedMediaType
  | TooManyRequests "string option"
  | PaymentRequired "string option"
  | ServiceUnavailable "string option"
  | Internal string

type_synonym 'a api_result = "api_error + 'a"

text \<open>Rust's \<open>?\<close> between checks that return nothing.\<close>

definition then_check :: "'e + unit \<Rightarrow> 'e + unit \<Rightarrow> 'e + unit" where
  "then_check a b = (case a of Inl e \<Rightarrow> Inl e | Inr _ \<Rightarrow> b)"

lemma then_check_ok [simp]: "then_check a b = Inr () \<longleftrightarrow> a = Inr () \<and> b = Inr ()"
  by (auto simp: then_check_def split: sum.splits)

text \<open>The payload of the variants that carry one.\<close>

fun payload_of :: "api_error \<Rightarrow> string option" where
  "payload_of (BadRequest d) = d"
| "payload_of (Conflict d) = d"
| "payload_of (Gone d) = d"
| "payload_of (Forbidden d) = d"
| "payload_of (PayloadTooLarge d) = d"
| "payload_of (TooManyRequests d) = d"
| "payload_of (PaymentRequired d) = d"
| "payload_of (ServiceUnavailable d) = d"
| "payload_of _ = None"

text \<open>The \<open>Display\<close> token of each variant.\<close>

fun display :: "api_error \<Rightarrow> string" where
  "display (BadRequest _) = ''bad-request''"
| "display NotFound = ''not-found''"
| "display (Conflict _) = ''conflict''"
| "display (Gone _) = ''gone''"
| "display VerificationFailed = ''verification-failed''"
| "display InvalidProof = ''invalid-proof''"
| "display Unauthorized = ''unauthorized''"
| "display (Forbidden _) = ''forbidden''"
| "display (PayloadTooLarge _) = ''payload-too-large''"
| "display UnsupportedMediaType = ''unsupported-media-type''"
| "display (TooManyRequests _) = ''too-many-requests''"
| "display (PaymentRequired _) = ''payment-required''"
| "display (ServiceUnavailable _) = ''service-unavailable''"
| "display (Internal _) = ''internal-server-error''"

subsection \<open>Structured details\<close>

definition sentinel :: string where
  "sentinel = ''__SD__''"

definition bar_to_slash :: "string \<Rightarrow> string" where
  "bar_to_slash s = map (\<lambda>c. if c = CHR ''|'' then CHR ''/'' else c) s"

definition unwrap_str :: "string option \<Rightarrow> string" where
  "unwrap_str x = (case x of None \<Rightarrow> [] | Some s \<Rightarrow> s)"

definition encode_structured_detail :: "error_detail \<Rightarrow> string" where
  "encode_structured_detail d =
     sentinel @ ''|'' @ unwrap_str (ed_code d) @ ''|'' @ bar_to_slash (unwrap_str (ed_field d)) @
     ''|'' @ bar_to_slash (unwrap_str (ed_detail d))"

text \<open>\<open>splitn(n, sep)\<close>: at most \<open>n\<close> pieces, the last one unsplit.\<close>

fun splitn :: "nat \<Rightarrow> char \<Rightarrow> string \<Rightarrow> string list" where
  "splitn 0 d s = []"
| "splitn (Suc 0) d s = [s]"
| "splitn (Suc (Suc n)) d [] = [[]]"
| "splitn (Suc (Suc n)) d (c # cs) =
     (if c = d then [] # splitn (Suc n) d cs
      else case splitn (Suc (Suc n)) d cs of
             [] \<Rightarrow> [[c]]
           | w # ws \<Rightarrow> (c # w) # ws)"

definition non_empty :: "string \<Rightarrow> string option" where
  "non_empty s = (if s = [] then None else Some s)"

definition nth_or_empty :: "string list \<Rightarrow> nat \<Rightarrow> string" where
  "nth_or_empty xs i = (if i < length xs then xs ! i else [])"

definition decode_structured_detail :: "string \<Rightarrow> error_detail option" where
  "decode_structured_detail s =
     (let parts = splitn 4 (CHR ''|'') s in
      if nth_or_empty parts 0 \<noteq> sentinel then None
      else Some \<lparr>ed_code = non_empty (nth_or_empty parts 1),
                 ed_field = non_empty (nth_or_empty parts 2),
                 ed_detail = non_empty (nth_or_empty parts 3)\<rparr>)"

text \<open>\<open>ErrorDetail::new().code(c).detail(d)\<close>, with the field when there is one.\<close>

definition structured :: "string \<Rightarrow> string option \<Rightarrow> string \<Rightarrow> string" where
  "structured c f d = encode_structured_detail \<lparr>ed_code = Some c, ed_field = f, ed_detail = Some d\<rparr>"

definition bad_request :: "string \<Rightarrow> string option \<Rightarrow> string \<Rightarrow> api_error" where
  "bad_request c f d = BadRequest (Some (structured c f d))"

definition forbidden :: "string \<Rightarrow> string \<Rightarrow> api_error" where
  "forbidden c d = Forbidden (Some (structured c None d))"

definition forbidden_with_field :: "string \<Rightarrow> string \<Rightarrow> string \<Rightarrow> api_error" where
  "forbidden_with_field c f d = Forbidden (Some (structured c (Some f) d))"

definition unauthorized :: "string \<Rightarrow> string \<Rightarrow> api_error" where
  "unauthorized c d = BadRequest (Some (''__STATUS:401__'' @ structured c None d))"

definition gone :: "string \<Rightarrow> string \<Rightarrow> api_error" where
  "gone c d = Gone (Some (structured c None d))"

definition conflict :: "string \<Rightarrow> string \<Rightarrow> api_error" where
  "conflict c d = Conflict (Some (structured c None d))"

definition service_unavailable :: "string \<Rightarrow> string \<Rightarrow> api_error" where
  "service_unavailable c d = ServiceUnavailable (Some (structured c None d))"

definition extract_payload :: "string option \<Rightarrow> nat option \<times> error_detail option" where
  "extract_payload p =
     (case p of
        None \<Rightarrow> (None, None)
      | Some raw \<Rightarrow>
          let (st, rest) =
            (case strip_prefix raw ''__STATUS:'' of
               Some stripped \<Rightarrow>
                 (case split_once stripped ''__'' of
                    Some (n, after) \<Rightarrow>
                      (case parse_unsigned 65536 n of
                         Some s \<Rightarrow> (Some s, after)
                       | None \<Rightarrow> (None, raw))
                  | None \<Rightarrow> (None, raw))
             | None \<Rightarrow> (None, raw))
          in (case decode_structured_detail rest of
                Some d \<Rightarrow> (st, Some d)
              | None \<Rightarrow> (st, Some (error_detail_from rest))))"

subsection \<open>Responses\<close>

record error_body =
  eb_error :: string
  eb_code :: string
  eb_field :: "string option"
  eb_detail :: "string option"
  eb_request_id :: string

record error_response =
  er_status :: nat
  er_body :: error_body
  er_headers :: "(string \<times> string) list"

text \<open>Status, default code and message of each variant, as \<open>to_response\<close> lists them.\<close>

fun variant_info :: "api_error \<Rightarrow> nat \<times> string \<times> string" where
  "variant_info (BadRequest _) = (400, ''BAD_REQUEST'', ''Invalid request'')"
| "variant_info NotFound = (404, ''NOT_FOUND'', ''Not found'')"
| "variant_info (Conflict _) = (409, ''CONFLICT'', ''Request conflict'')"
| "variant_info UnsupportedMediaType =
     (415, ''UNSUPPORTED_MEDIA_TYPE'', ''Content-Type must be application/json'')"
| "variant_info (Gone _) = (410, ''GONE'', ''Resource no longer available'')"
| "variant_info VerificationFailed = (400, ''VERIFICATION_FAILED'', ''Verification failed'')"
| "variant_info InvalidProof = (400, ''INVALID_PROOF'', ''Invalid proof'')"
| "variant_info Unauthorized = (401, ''UNAUTHORIZED'', ''Authentication required'')"
| "variant_info (Forbidden _) = (403, ''FORBIDDEN'', ''Access denied'')"
| "variant_info (PayloadTooLarge _) = (413, ''PAYLOAD_TOO_LARGE'', ''Request too large'')"
| "variant_info (TooManyRequests _) = (429, ''TOO_MANY_REQUESTS'', ''Rate limit exceeded'')"
| "variant_info (PaymentRequired _) = (402, ''PAYMENT_REQUIRED'', ''Insufficient credits'')"
| "variant_info (ServiceUnavailable _) =
     (503, ''SERVICE_UNAVAILABLE'', ''Service temporarily unavailable'')"
| "variant_info (Internal _) = (500, ''INTERNAL_ERROR'', ''Internal server error'')"

definition base_headers :: "(string \<times> string) list" where
  "base_headers =
     [(''Content-Type'', ''application/json; charset=utf-8''),
      (''Cache-Control'', ''no-store, no-cache, must-revalidate, private''),
      (''Pragma'', ''no-cache''),
      (''Expires'', ''0'')]"

definition clear_site_data :: "string \<times> string" where
  "clear_site_data = (''Clear-Site-Data'', [CHR 0x22, CHR ''*'', CHR 0x22])"

text \<open>The code, field and detail of the body, from the default code and the decoded detail.\<close>

definition body_fields ::
    "string \<Rightarrow> error_detail option \<Rightarrow> string \<times> string option \<times> string option" where
  "body_fields default_code detail =
     (case detail of
        Some d \<Rightarrow> ((case ed_code d of None \<Rightarrow> default_code | Some c \<Rightarrow> c), ed_field d, ed_detail d)
      | None \<Rightarrow> (default_code, None, None))"

definition to_response :: "string \<Rightarrow> api_error \<Rightarrow> error_response" where
  "to_response rid e =
     (let (status0, default_code, message) = variant_info e;
          (status_override, detail) = extract_payload (payload_of e);
          status = (case status_override of None \<Rightarrow> status0 | Some s \<Rightarrow> s);
          (code, field, det) = body_fields default_code detail
      in \<lparr>er_status = status,
          er_body = \<lparr>eb_error = message, eb_code = code, eb_field = field, eb_detail = det,
                     eb_request_id = rid\<rparr>,
          er_headers = base_headers @
            (if (case e of Unauthorized \<Rightarrow> True | Forbidden _ \<Rightarrow> True | _ \<Rightarrow> status = 401)
             then [clear_site_data] else [])\<rparr>)"

fun is_security_relevant :: "api_error \<Rightarrow> bool" where
  "is_security_relevant Unauthorized = True"
| "is_security_relevant (Forbidden _) = True"
| "is_security_relevant VerificationFailed = True"
| "is_security_relevant InvalidProof = True"
| "is_security_relevant _ = False"

subsection \<open>Propagation through the runtime's error type\<close>

text \<open>The table of \<open>status_for_display_str\<close>, in its order.\<close>

definition display_table :: "(string \<times> nat \<times> string) list" where
  "display_table =
     [(''bad-request'', 400, ''BAD_REQUEST''),
      (''not-found'', 404, ''NOT_FOUND''),
      (''conflict'', 409, ''CONFLICT''),
      (''gone'', 410, ''GONE''),
      (''verification-failed'', 400, ''VERIFICATION_FAILED''),
      (''invalid-proof'', 400, ''INVALID_PROOF''),
      (''unauthorized'', 401, ''UNAUTHORIZED''),
      (''forbidden'', 403, ''FORBIDDEN''),
      (''payload-too-large'', 413, ''PAYLOAD_TOO_LARGE''),
      (''unsupported-media-type'', 415, ''UNSUPPORTED_MEDIA_TYPE''),
      (''too-many-requests'', 429, ''TOO_MANY_REQUESTS''),
      (''payment-required'', 402, ''PAYMENT_REQUIRED''),
      (''service-unavailable'', 503, ''SERVICE_UNAVAILABLE''),
      (''internal-server-error'', 500, ''INTERNAL_ERROR'')]"

definition status_for_display_str :: "string \<Rightarrow> (nat \<times> string) option" where
  "status_for_display_str s =
     (let base = (case split_once s ''!!'' of Some (b, _) \<Rightarrow> b | None \<Rightarrow> s)
      in map_of display_table base)"

definition parse_display_envelope :: "string \<Rightarrow> string \<times> string option" where
  "parse_display_envelope s =
     (case split_once s ''!!'' of Some (base, p) \<Rightarrow> (base, Some p) | None \<Rightarrow> (s, None))"

text \<open>\<open>From<ApiError> for worker::Error\<close>: the string of the \<open>RustError\<close>.\<close>

definition to_worker_error :: "api_error \<Rightarrow> string" where
  "to_worker_error e =
     (case payload_of e of
        Some p \<Rightarrow> if p \<noteq> [] then display e @ ''!!'' @ p else display e
      | None \<Rightarrow> display e)"

text \<open>\<open>From<worker::Error> for ApiError\<close>, on the displayed error.\<close>

definition from_worker_error :: "string \<Rightarrow> api_error" where
  "from_worker_error s = Internal s"

definition message_table :: "(string \<times> string) list" where
  "message_table =
     [(''bad-request'', ''Invalid request''),
      (''not-found'', ''Not found''),
      (''conflict'', ''Request conflict''),
      (''gone'', ''Resource no longer available''),
      (''verification-failed'', ''Verification failed''),
      (''invalid-proof'', ''Invalid proof''),
      (''unauthorized'', ''Authentication required''),
      (''forbidden'', ''Access denied''),
      (''payload-too-large'', ''Request too large''),
      (''unsupported-media-type'', ''Content-Type must be application/json''),
      (''too-many-requests'', ''Rate limit exceeded''),
      (''payment-required'', ''Insufficient credits''),
      (''service-unavailable'', ''Service temporarily unavailable'')]"

definition build_error_response_full ::
    "string \<Rightarrow> nat \<Rightarrow> string \<Rightarrow> string \<Rightarrow> string option \<Rightarrow> string option \<Rightarrow> error_response" where
  "build_error_response_full rid status code display_message field detail =
     (let message = (case map_of message_table display_message of
                       Some m \<Rightarrow> m | None \<Rightarrow> ''Internal server error'')
      in \<lparr>er_status = status,
          er_body = \<lparr>eb_error = message, eb_code = code, eb_field = field, eb_detail = detail,
                     eb_request_id = rid\<rparr>,
          er_headers = base_headers @
            (if status = 401 \<or> status = 403 then [clear_site_data] else [])\<rparr>)"

definition build_error_response :: "string \<Rightarrow> nat \<Rightarrow> string \<Rightarrow> string \<Rightarrow> error_response" where
  "build_error_response rid status code display_message =
     build_error_response_full rid status code display_message None None"

definition response_from_worker_error :: "string \<Rightarrow> string \<Rightarrow> error_response" where
  "response_from_worker_error rid s =
     (let (base, payload) = parse_display_envelope s in
      case status_for_display_str base of
        Some (status0, default_code) \<Rightarrow>
          let (status_override, detail) = extract_payload payload;
              status = (case status_override of None \<Rightarrow> status0 | Some s \<Rightarrow> s);
              (code, field, det) = body_fields default_code detail
          in build_error_response_full rid status code base field det
      | None \<Rightarrow> build_error_response rid 500 ''INTERNAL_ERROR'' ''Internal server error'')"

subsection \<open>Lemmas\<close>

lemma splitn_sep: "d \<notin> set s \<Longrightarrow> splitn (Suc (Suc n)) d (s @ d # t) = s # splitn (Suc n) d t"
  by (induction s) auto

lemma bar_notin_bar_to_slash: "CHR ''|'' \<notin> set (bar_to_slash s)"
  by (auto simp: bar_to_slash_def split: if_splits)

lemma bar_notin_sentinel: "CHR ''|'' \<notin> set sentinel"
  by (simp add: sentinel_def)

lemma bar_to_slash_id: "CHR ''|'' \<notin> set s \<Longrightarrow> bar_to_slash s = s"
  by (auto simp: bar_to_slash_def intro: map_idI)

lemma splitn_encode:
  assumes "CHR ''|'' \<notin> set (unwrap_str (ed_code d))"
  shows "splitn 4 (CHR ''|'') (encode_structured_detail d) =
    [sentinel, unwrap_str (ed_code d), bar_to_slash (unwrap_str (ed_field d)),
     bar_to_slash (unwrap_str (ed_detail d))]"
  using assms splitn_sep[OF bar_notin_sentinel] splitn_sep[OF bar_notin_bar_to_slash]
  by (simp add: encode_structured_detail_def eval_nat_numeral splitn_sep)

text \<open>What a detail becomes on its way through the payload.\<close>

definition wire_detail :: "error_detail \<Rightarrow> error_detail" where
  "wire_detail d = \<lparr>ed_code = non_empty (unwrap_str (ed_code d)),
     ed_field = non_empty (bar_to_slash (unwrap_str (ed_field d))),
     ed_detail = non_empty (bar_to_slash (unwrap_str (ed_detail d)))\<rparr>"

lemma decode_encode:
  "CHR ''|'' \<notin> set (unwrap_str (ed_code d)) \<Longrightarrow>
   decode_structured_detail (encode_structured_detail d) = Some (wire_detail d)"
  by (simp add: decode_structured_detail_def splitn_encode nth_or_empty_def wire_detail_def)

lemma strip_prefix_status_encode: "strip_prefix (encode_structured_detail d) ''__STATUS:'' = None"
  by (simp add: encode_structured_detail_def strip_prefix_def sentinel_def)

lemma extract_payload_encode:
  "CHR ''|'' \<notin> set (unwrap_str (ed_code d)) \<Longrightarrow>
   extract_payload (Some (encode_structured_detail d)) = (None, Some (wire_detail d))"
  by (simp add: extract_payload_def strip_prefix_status_encode decode_encode)

lemma parse_401: "parse_unsigned 65536 ''401'' = Some 401"
  by (simp add: parse_unsigned_def digits_value_def is_ascii_digit_def)

lemma extract_payload_401:
  assumes "CHR ''|'' \<notin> set (unwrap_str (ed_code d))"
  shows "extract_payload (Some (''__STATUS:401__'' @ encode_structured_detail d)) =
         (Some 401, Some (wire_detail d))"
proof -
  have 1: "strip_prefix (''__STATUS:401__'' @ t) ''__STATUS:'' = Some (''401__'' @ t)" for t
    by (simp add: strip_prefix_def)
  have 2: "split_once (''401__'' @ t) ''__'' = Some (''401'', t)" for t
    by (simp add: strip_prefix_def)
  show ?thesis
    unfolding extract_payload_def 1 2 option.case prod.case Let_def
    by (simp only: parse_401 option.case prod.case decode_encode[OF assms])
qed

lemma split_once_notin:
  "c \<notin> set s \<Longrightarrow> split_once (s @ c # r @ t) (c # r) = Some (s, t)"
  by (induction s) (auto simp: strip_prefix_def)

lemma split_once_none: "c \<notin> set s \<Longrightarrow> split_once s (c # r) = None"
  by (induction s) (auto simp: strip_prefix_def)

lemma bang_notin_display: "CHR ''!'' \<notin> set (display e)"
  by (cases e) simp_all

lemma envelope_to_worker_error:
  assumes "payload_of e \<noteq> Some []"
  shows "parse_display_envelope (to_worker_error e) = (display e, payload_of e)"
proof (cases "payload_of e")
  case None
  then show ?thesis
    using split_once_none[OF bang_notin_display]
    by (simp add: parse_display_envelope_def to_worker_error_def)
next
  case (Some p)
  with assms show ?thesis
    using split_once_notin[OF bang_notin_display, of e "''!''" p]
    by (simp add: parse_display_envelope_def to_worker_error_def)
qed

lemma status_for_display:
  "status_for_display_str (display e) = Some (fst (variant_info e), fst (snd (variant_info e)))"
proof -
  have "split_once (display e) ''!!'' = None"
    by (rule split_once_none[OF bang_notin_display])
  then show ?thesis
    by (cases e) (simp_all add: status_for_display_str_def display_table_def)
qed

lemma message_for_display:
  "(case map_of message_table (display e) of Some m \<Rightarrow> m | None \<Rightarrow> ''Internal server error'')
     = snd (snd (variant_info e))"
  by (cases e) (simp_all add: message_table_def)

text \<open>
  The headers of both paths agree when the status override, if any, is the one
  \<open>unauthorized\<close> writes.
\<close>

lemma clear_site_data_iff:
  assumes "st = None \<or> st = Some (401::nat)"
  shows "(case e of Unauthorized \<Rightarrow> True | Forbidden _ \<Rightarrow> True
          | _ \<Rightarrow> (case st of None \<Rightarrow> fst (variant_info e) | Some s \<Rightarrow> s) = 401) \<longleftrightarrow>
         (let s = (case st of None \<Rightarrow> fst (variant_info e) | Some s \<Rightarrow> s) in s = 401 \<or> s = 403)"
  using assms by (cases e) auto

subsection \<open>Properties\<close>

text \<open>C39 An error that a handler propagates with \<open>?\<close>, and so turns into the runtime's error
  string, is answered exactly as if the handler had called \<open>to_response\<close> itself: same
  status, code, field, detail, message and headers.  It needs a payload that is not the empty
  string and carries no status override but the 401 of \<open>unauthorized\<close>.\<close>

theorem propagated_error_response:
  assumes "payload_of e \<noteq> Some []"
    and "fst (extract_payload (payload_of e)) \<in> {None, Some 401}"
  shows "response_from_worker_error rid (to_worker_error e) = to_response rid e"
proof -
  obtain st det where ep: "extract_payload (payload_of e) = (st, det)" by fastforce
  with assms(2) have st: "st = None \<or> st = Some 401" by simp
  obtain code field msg where bf: "body_fields (fst (snd (variant_info e))) det = (code, field, msg)"
    by (metis prod.exhaust)
  obtain s0 dc m where vi: "variant_info e = (s0, dc, m)" by (metis prod.exhaust)
  show ?thesis
    using clear_site_data_iff[OF st, of e] message_for_display[of e]
    unfolding response_from_worker_error_def to_response_def envelope_to_worker_error[OF assms(1)]
      prod.case Let_def status_for_display option.case ep vi fst_conv snd_conv
      build_error_response_full_def
    using bf vi by (auto split: option.splits if_splits simp: Let_def)
qed

lemma propagated_error_response_witness:
  "response_from_worker_error ''r'' (to_worker_error (unauthorized ''INVALID_HMAC'' ''bad tag''))
     = to_response ''r'' (unauthorized ''INVALID_HMAC'' ''bad tag'')"
proof (rule propagated_error_response)
  have "extract_payload (payload_of (unauthorized ''INVALID_HMAC'' ''bad tag'')) =
    (Some 401, Some (wire_detail \<lparr>ed_code = Some ''INVALID_HMAC'', ed_field = None,
                                  ed_detail = Some ''bad tag''\<rparr>))"
    unfolding unauthorized_def payload_of.simps structured_def
    by (rule extract_payload_401) (simp add: unwrap_str_def)
  then show "fst (extract_payload (payload_of (unauthorized ''INVALID_HMAC'' ''bad tag''))) \<in> {None, Some 401}"
    by simp
qed (simp add: unauthorized_def)

lemma body_fields_wire:
  "c \<noteq> [] \<Longrightarrow> d \<noteq> [] \<Longrightarrow>
   body_fields dc (Some (wire_detail \<lparr>ed_code = Some c, ed_field = None, ed_detail = Some d\<rparr>)) =
     (c, None, Some (bar_to_slash d))"
  by (simp add: body_fields_def wire_detail_def non_empty_def unwrap_str_def bar_to_slash_def)

lemma extract_payload_unauthorized:
  "CHR ''|'' \<notin> set c \<Longrightarrow> extract_payload (payload_of (unauthorized c d)) =
    (Some 401, Some (wire_detail \<lparr>ed_code = Some c, ed_field = None, ed_detail = Some d\<rparr>))"
  unfolding unauthorized_def payload_of.simps structured_def
  by (rule extract_payload_401) (simp add: unwrap_str_def)

text \<open>\<open>unauthorized(code, detail)\<close>, whatever path it takes to the dispatcher, is a 401 with
  that machine-readable code, the detail with its bars replaced by slashes, no field, and
  the \<open>Clear-Site-Data\<close> header, although the variant that carries it is a 400; and it is
  not an error \<open>is_security_relevant\<close> reports.\<close>

theorem unauthorized_response:
  assumes "CHR ''|'' \<notin> set c" "c \<noteq> []" "d \<noteq> []"
  shows "let r = to_response rid (unauthorized c d) in
           er_status r = 401 \<and> eb_code (er_body r) = c \<and> eb_field (er_body r) = None \<and>
           eb_detail (er_body r) = Some (bar_to_slash d) \<and> clear_site_data \<in> set (er_headers r) \<and>
           response_from_worker_error rid (to_worker_error (unauthorized c d)) = r \<and>
           \<not> is_security_relevant (unauthorized c d)"
proof -
  note ep = extract_payload_unauthorized[OF assms(1), of d]
  have ne: "payload_of (unauthorized c d) \<noteq> Some []" by (simp add: unauthorized_def)
  have info: "variant_info (unauthorized c d) = (400, ''BAD_REQUEST'', ''Invalid request'')"
    by (simp add: unauthorized_def)
  obtain st det where x: "extract_payload (payload_of (unauthorized c d)) = (st, det)" by fastforce
  have env: "response_from_worker_error rid (to_worker_error (unauthorized c d)) =
             to_response rid (unauthorized c d)"
    using ep ne
    unfolding response_from_worker_error_def to_response_def envelope_to_worker_error[OF ne]
      prod.case Let_def status_for_display option.case ep info fst_conv snd_conv
      build_error_response_full_def body_fields_wire[OF assms(2,3)]
    by (simp add: unauthorized_def message_table_def)
  show ?thesis
    unfolding Let_def env
    unfolding to_response_def ep info prod.case Let_def option.case body_fields_wire[OF assms(2,3)]
    by (simp add: unauthorized_def)
qed

lemma unauthorized_response_witness:
  "er_status (to_response ''r'' (unauthorized ''INVALID_HMAC'' ''bad|tag'')) = 401 \<and>
   eb_detail (er_body (to_response ''r'' (unauthorized ''INVALID_HMAC'' ''bad|tag''))) = Some ''bad/tag''"
  using unauthorized_response[of "''INVALID_HMAC''" "''bad|tag''" "''r''"]
  by (simp add: Let_def bar_to_slash_def)

end
