(* ===== verification/Validation.thy ===== *)
theory Validation imports Api_Error begin

text \<open>
  \<open>src/utils/validation.rs\<close> and \<open>src/types/strict.rs\<close>: the checks on nonce tags, UUIDs and
  short codes that guard every storage key, and the strictly validated request types; with
  \<open>generate_short_code_from_uuid\<close> of \<open>src/routes/challenge.rs\<close>.  The Unicode table of
  letters and digits outside ASCII (\<open>char::is_alphanumeric\<close>) and the base64 decoder are
  arguments.
\<close>

subsection \<open>Encoding of code points\<close>

definition utf8_char_bytes :: "nat \<Rightarrow> string" where
  "utf8_char_bytes c =
     (if c < 128 then [char_of c]
      else if c < 2048 then [char_of (192 + c div 64), char_of (128 + c mod 64)]
      else if c < 65536 then
        [char_of (224 + c div 4096), char_of (128 + (c div 64) mod 64), char_of (128 + c mod 64)]
      else [char_of (240 + c div 262144), char_of (128 + (c div 4096) mod 64),
            char_of (128 + (c div 64) mod 64), char_of (128 + c mod 64)])"

definition from_chars :: "nat list \<Rightarrow> string" where
  "from_chars cs = concat (map utf8_char_bytes cs)"

lemma lead_byte_arith:
  fixes q m :: nat
  shows "q < 32 \<Longrightarrow> (192 + q) mod 32 = q" "q < 16 \<Longrightarrow> (224 + q) mod 16 = q"
    "q < 8 \<Longrightarrow> (240 + q) mod 8 = q" "m < 64 \<Longrightarrow> (128 + m) mod 64 = m"
  using mod_mult_self3[of 6 32 q] mod_mult_self3[of 14 16 q] mod_mult_self3[of 30 8 q]
    mod_mult_self3[of 2 64 m] by simp_all

lemma cont_bits_byte: "m < 64 \<Longrightarrow> cont_bits (char_of (128 + m)) = m"
  by (simp add: cont_bits_def lead_byte_arith)

lemma code_point_split:
  fixes c :: nat
  shows "c div 64 * 64 + c mod 64 = c"
    "c div 4096 * 4096 + (c div 64) mod 64 * 64 + c mod 64 = c"
    "c div 262144 * 262144 + (c div 4096) mod 64 * 4096 + (c div 64) mod 64 * 64 + c mod 64 = c"
proof -
  have d: "c div 4096 = c div 64 div 64" "c div 262144 = c div 64 div 64 div 64"
    by (simp_all add: div_mult2_eq[symmetric])
  have "c div 64 div 64 * 64 + (c div 64) mod 64 = c div 64"
    "c div 64 div 64 div 64 * 64 + (c div 64 div 64) mod 64 = c div 64 div 64"
    "c div 64 * 64 + c mod 64 = c" by (rule div_mult_mod_eq)+
  then show "c div 64 * 64 + c mod 64 = c"
    "c div 4096 * 4096 + (c div 64) mod 64 * 64 + c mod 64 = c"
    "c div 262144 * 262144 + (c div 4096) mod 64 * 4096 + (c div 64) mod 64 * 64 + c mod 64 = c"
    unfolding d by linarith+
qed

lemma utf8_chars_char_bytes:
  assumes "c < 2097152"
  shows "utf8_chars (utf8_char_bytes c @ r) = c # utf8_chars r"
proof -
  consider (a) "c < 128" | (b) "128 \<le> c" "c < 2048" | (c) "2048 \<le> c" "c < 65536" | (d) "65536 \<le> c"
    by linarith
  then show ?thesis
  proof cases
    case a
    then show ?thesis by (simp add: utf8_char_bytes_def)
  next
    case b
    have q: "c div 64 < 32" using b by (simp add: less_mult_imp_div_less)
    then have "(of_char (char_of (192 + c div 64) :: char) :: nat) = 192 + c div 64" by simp
    with b q show ?thesis
      by (simp add: utf8_char_bytes_def cont_bits_byte lead_byte_arith code_point_split decoded_def Let_def)
  next
    case c
    have q: "c div 4096 < 16" using c by (simp add: less_mult_imp_div_less)
    then have "(of_char (char_of (224 + c div 4096) :: char) :: nat) = 224 + c div 4096" by simp
    with c q show ?thesis
      by (simp add: utf8_char_bytes_def cont_bits_byte lead_byte_arith code_point_split decoded_def Let_def)
  next
    case d
    have q: "c div 262144 < 8" using assms by (simp add: less_mult_imp_div_less)
    then have "(of_char (char_of (240 + c div 262144) :: char) :: nat) = 240 + c div 262144" by simp
    with d q show ?thesis
      by (simp add: utf8_char_bytes_def cont_bits_byte lead_byte_arith code_point_split decoded_def Let_def)
  qed
qed

lemma utf8_chars_bounds: "list_all (\<lambda>c. c < 2097152) (utf8_chars s)"
proof (induction s rule: utf8_chars.induct)
  case (2 x cs)
  have cb: "cont_bits y \<le> 63" for y by (simp add: cont_bits_def less_Suc_eq_le[symmetric])
  have m: "of_char x mod 8 \<le> (7::nat)" "of_char x mod 16 \<le> (15::nat)" "of_char x mod 32 \<le> (31::nat)"
    by (simp_all add: less_Suc_eq_le[symmetric])
  have b2: "of_char x mod 32 * 64 + cont_bits y < 2097152" for y
    using m(3) cb[of y] by linarith
  have b3: "of_char x mod 16 * 4096 + cont_bits y * 64 + cont_bits z < 2097152" for y z
    using m(2) cb[of y] cb[of z] by linarith
  have b4: "of_char x mod 8 * 262144 + cont_bits y * 4096 + cont_bits z * 64 + cont_bits v < 2097152"
    for y z v using m(1) cb[of y] cb[of z] cb[of v] by linarith
  show ?case
    using 2 by (simp add: Let_def decoded_def b2 b3 b4 split: list.split)
qed simp

lemma utf8_chars_bound: "c \<in> set (utf8_chars s) \<Longrightarrow> c < 2097152"
  using utf8_chars_bounds[of s] by (simp add: list_all_iff)

lemma utf8_chars_from_chars: "\<forall>c\<in>set cs. c < 2097152 \<Longrightarrow> utf8_chars (from_chars cs) = cs"
  by (induction cs) (simp_all add: from_chars_def utf8_chars_char_bytes)

lemma from_chars_ascii: "\<forall>c\<in>set cs. c < 128 \<Longrightarrow> from_chars cs = map char_of cs"
  by (induction cs) (simp_all add: from_chars_def utf8_char_bytes_def)

subsection \<open>Key validation\<close>

definition MAX_NONCE_TAG_LENGTH :: nat where "MAX_NONCE_TAG_LENGTH = 256"
definition SHORT_CODE_LENGTH :: nat where "SHORT_CODE_LENGTH = 12"


abbreviation bad :: "string \<Rightarrow> 'a api_result" where
  "bad m \<equiv> Inl (BadRequest (Some m))"

text \<open>\<open>char::is_alphanumeric\<close>, given the non-ASCII part of the Unicode table.\<close>

definition is_alphanumeric :: "(nat \<Rightarrow> bool) \<Rightarrow> nat \<Rightarrow> bool" where
  "is_alphanumeric uni c = (if c < 128 then is_ascii_alphanumeric c else uni c)"

definition nonce_tag_char :: "(nat \<Rightarrow> bool) \<Rightarrow> nat \<Rightarrow> bool" where
  "nonce_tag_char uni c = (is_alphanumeric uni c \<or> c = 45 \<or> c = 95 \<or> c = 58)"

definition validate_nonce_tag :: "(nat \<Rightarrow> bool) \<Rightarrow> string \<Rightarrow> unit api_result" where
  "validate_nonce_tag uni tag =
     (if tag = [] then bad ''Nonce tag cannot be empty''
      else if length tag > MAX_NONCE_TAG_LENGTH then
        bad (''Nonce tag too long (max '' @ show_nat MAX_NONCE_TAG_LENGTH @ '' characters)'')
      else if CHR 0x00 \<in> set tag then bad ''Nonce tag contains invalid null byte''
      else if contains_str tag ''../'' \<or> contains_str tag [CHR ''.'', CHR ''.'', CHR 0x5C] then
        bad ''Nonce tag contains path traversal sequence''
      else if \<not> list_all (nonce_tag_char uni) (utf8_chars tag) then
        bad ''Nonce tag contains invalid characters (allowed: alphanumeric, -, _, :)''
      else Inr ())"

definition expected_hyphens :: "nat list" where
  "expected_hyphens = [8, 13, 18, 23]"

text \<open>\<open>as_bytes().get(pos).copied().unwrap_or(0)\<close>\<close>

definition byte_at :: "string \<Rightarrow> nat \<Rightarrow> char" where
  "byte_at s i = (if i < length s then s ! i else CHR 0x00)"

fun check_hyphens :: "string \<Rightarrow> nat list \<Rightarrow> unit api_result" where
  "check_hyphens s [] = Inr ()"
| "check_hyphens s (p # ps) =
     (if byte_at s p \<noteq> CHR ''-'' then
        bad (''Invalid UUID format: expected hyphen at position '' @ show_nat p)
      else check_hyphens s ps)"

fun check_hex :: "nat \<Rightarrow> nat list \<Rightarrow> unit api_result" where
  "check_hex i [] = Inr ()"
| "check_hex i (c # cs) =
     (if i \<in> set expected_hyphens then check_hex (Suc i) cs
      else if \<not> is_ascii_hexdigit c then
        bad (''Invalid UUID format: non-hexadecimal character '' @ [CHR 0x27] @ utf8_char_bytes c @
             [CHR 0x27] @ '' at position '' @ show_nat i)
      else check_hex (Suc i) cs)"

definition validate_uuid_format :: "string \<Rightarrow> unit api_result" where
  "validate_uuid_format s =
     (if length s \<noteq> 36 then
        bad (''Invalid UUID length: expected 36 characters, got '' @ show_nat (length s))
      else case check_hyphens s expected_hyphens of
             Inl e \<Rightarrow> Inl e
           | Inr _ \<Rightarrow> check_hex 0 (utf8_chars s))"

definition validate_challenge_id :: "string \<Rightarrow> unit api_result" where
  "validate_challenge_id s = validate_uuid_format s"

text \<open>\<open>chars().filter(|c| !c.is_whitespace()).collect::<String>()\<close>\<close>

definition strip_whitespace :: "string \<Rightarrow> string" where
  "strip_whitespace s = from_chars (filter (\<lambda>c. \<not> is_whitespace c) (utf8_chars s))"

definition validate_short_code :: "string \<Rightarrow> unit api_result" where
  "validate_short_code s =
     (let digits_only = strip_whitespace s in
      if length digits_only \<noteq> SHORT_CODE_LENGTH then
        bad (''Invalid short code length: expected '' @ show_nat SHORT_CODE_LENGTH @
             '' digits, got '' @ show_nat (length digits_only))
      else if \<not> list_all is_ascii_digit (utf8_chars digits_only) then
        bad ''Short code must contain only digits''
      else Inr ())"

subsection \<open>Strict request types\<close>

definition b64url_char :: "char \<Rightarrow> bool" where
  "b64url_char c = (is_ascii_alphanumeric (of_char c) \<or> c = CHR ''-'' \<or> c = CHR ''_'')"

text \<open>The two base64url wrappers differ in the lengths of the string and of the decoded bytes.\<close>

definition b64url_deserialize ::
    "(string \<Rightarrow> bytes option) \<Rightarrow> nat \<Rightarrow> nat \<Rightarrow> string \<Rightarrow> string + bytes" where
  "b64url_deserialize decode chars n s =
     (if length s \<noteq> chars \<or> \<not> list_all b64url_char s then
        Inl (''base64url string of exactly '' @ show_nat chars @ '' characters'')
      else case decode s of
             None \<Rightarrow> Inl ''valid base64url''
           | Some bs \<Rightarrow> if length bs \<noteq> n then Inl (show_nat n @ '' bytes'') else Inr bs)"

definition b64url32_deserialize :: "(string \<Rightarrow> bytes option) \<Rightarrow> string \<Rightarrow> string + bytes" where
  "b64url32_deserialize decode s = b64url_deserialize decode 43 32 s"

definition b64url192_deserialize :: "(string \<Rightarrow> bytes option) \<Rightarrow> string \<Rightarrow> string + bytes" where
  "b64url192_deserialize decode s = b64url_deserialize decode 256 192 s"

text \<open>A UUID is its 16 bytes; the version number is the high half of byte 6.\<close>

type_synonym uuid = bytes

definition uuid_version :: "uuid \<Rightarrow> nat" where
  "uuid_version u = unat (u ! 6) div 16"

definition uuid_v4_deserialize :: "(string \<Rightarrow> uuid option) \<Rightarrow> string \<Rightarrow> string + uuid" where
  "uuid_v4_deserialize parse s =
     (case parse s of
        None \<Rightarrow> Inl ''valid uuid''
      | Some u \<Rightarrow> if uuid_version u \<noteq> 4 then Inl ''uuid version 4'' else Inr u)"

definition short_code_new :: "string \<Rightarrow> string + string" where
  "short_code_new s =
     (let normalized = strip_whitespace s in
      if length normalized \<noteq> 12 then
        Inl (''short code must be exactly 12 digits, got '' @ show_nat (length normalized))
      else if \<not> list_all is_ascii_digit (utf8_chars normalized) then
        Inl ''short code must contain only numeric digits (0-9)''
      else Inr normalized)"

definition short_code_deserialize :: "string \<Rightarrow> string + string" where
  "short_code_deserialize s =
     (let normalized = strip_whitespace s in
      if length normalized \<noteq> 12 then Inl ''12-digit numeric code (with or without spaces)''
      else if \<not> list_all is_ascii_digit (utf8_chars normalized) then
        Inl ''numeric characters only (0-9)''
      else Inr normalized)"

text \<open>\<open>get(a..b).unwrap_or("")\<close>\<close>

definition slice_or_empty :: "string \<Rightarrow> nat \<Rightarrow> nat \<Rightarrow> string" where
  "slice_or_empty s a b = (if b \<le> length s then take (b - a) (drop a s) else [])"

definition display_formatted :: "string \<Rightarrow> string" where
  "display_formatted s =
     slice_or_empty s 0 4 @ '' '' @ slice_or_empty s 4 8 @ '' '' @ slice_or_empty s 8 12"

definition pkce_verifier_char :: "char \<Rightarrow> bool" where
  "pkce_verifier_char c =
     (is_ascii_alphanumeric (of_char c) \<or> c = CHR ''-'' \<or> c = CHR ''.'' \<or> c = CHR ''_'' \<or> c = CHR ''~'')"

definition pkce_code_verifier_deserialize :: "string \<Rightarrow> string + string" where
  "pkce_code_verifier_deserialize s =
     (if \<not> (43 \<le> length s \<and> length s \<le> 128) \<or> \<not> list_all pkce_verifier_char s then
        Inl ''RFC7636 code_verifier (43..128 chars, unreserved)''
      else Inr s)"

text \<open>\<open>CutoffDays\<close> on \<open>i32\<close> values, as integers.\<close>

definition CUTOFF_MIN :: int where "CUTOFF_MIN = - 25000"
definition CUTOFF_MAX :: int where "CUTOFF_MAX = 54750"

definition show_int :: "int \<Rightarrow> string" where
  "show_int i = (if i < 0 then ''-'' @ show_nat (nat (- i)) else show_nat (nat i))"

definition cutoff_days_new :: "int \<Rightarrow> string + int" where
  "cutoff_days_new v =
     (if \<not> (CUTOFF_MIN \<le> v \<and> v \<le> CUTOFF_MAX) then
        Inl (''cutoff_days '' @ show_int v @ '' out of range ['' @ show_int CUTOFF_MIN @ '', '' @
             show_int CUTOFF_MAX @ '']'')
      else Inr v)"

definition vk_id_new :: "u32 \<Rightarrow> u32 option" where
  "vk_id_new v = (if v > 0 then Some v else None)"

definition vk_id_deserialize :: "u32 \<Rightarrow> string + u32" where
  "vk_id_deserialize v = (if v = 0 then Inl ''non-zero verifying_key_id'' else Inr v)"

definition EXPIRES_MIN :: u64 where "EXPIRES_MIN = 60"
definition EXPIRES_MAX :: u64 where "EXPIRES_MAX = 300"

definition expires_in_new :: "u64 \<Rightarrow> u64" where
  "expires_in_new v = (if v < EXPIRES_MIN then EXPIRES_MIN else if v > EXPIRES_MAX then EXPIRES_MAX else v)"

subsection \<open>Short codes derived from a UUID\<close>

definition from_be_bytes :: "bytes \<Rightarrow> nat" where
  "from_be_bytes bs = foldl (\<lambda>v b. 256 * v + unat b) 0 bs"

definition generate_short_code_from_uuid :: "uuid \<Rightarrow> string" where
  "generate_short_code_from_uuid u =
     (let folded = [u ! 0 XOR u ! 8, u ! 1 XOR u ! 9, u ! 2 XOR u ! 10, u ! 3 XOR u ! 11,
                    u ! 4 XOR u ! 12, u ! 5 XOR u ! 13, u ! 6 XOR u ! 14, u ! 7 XOR u ! 15];
          num = from_be_bytes folded
      in show_padded 12 (num mod 1000000000000))"

subsection \<open>Lemmas\<close>

definition digits_string :: "string \<Rightarrow> bool" where
  "digits_string s = list_all (\<lambda>c. is_ascii_digit (of_char c)) s"

lemma digits_ascii: "digits_string s \<Longrightarrow> ascii_only s"
  by (auto simp: digits_string_def ascii_only_def is_ascii_digit_def list_all_iff)

lemma digit_not_whitespace: "is_ascii_digit c \<Longrightarrow> \<not> is_whitespace c"
  by (auto simp: is_ascii_digit_def is_whitespace_def)

lemma from_chars_of_char: "ascii_only s \<Longrightarrow> from_chars (map of_char s) = s"
  by (induction s) (simp_all add: ascii_only_def from_chars_def utf8_char_bytes_def)

lemma strip_whitespace_ascii:
  "ascii_only s \<Longrightarrow> strip_whitespace s = filter (\<lambda>c. \<not> is_whitespace (of_char c)) s"
proof -
  assume a: "ascii_only s"
  then have "ascii_only (filter (\<lambda>c. \<not> is_whitespace (of_char c)) s)"
    by (auto simp: ascii_only_def list_all_iff)
  then show ?thesis
    by (simp add: strip_whitespace_def utf8_chars_ascii[OF a] filter_map o_def from_chars_of_char)
qed

lemma filter_digits: "digits_string s \<Longrightarrow> filter (\<lambda>c. \<not> is_whitespace (of_char c)) s = s"
  by (auto simp: digits_string_def list_all_iff digit_not_whitespace intro: filter_True)

lemma strip_whitespace_digits: "digits_string s \<Longrightarrow> strip_whitespace s = s"
  by (simp add: strip_whitespace_ascii digits_ascii filter_digits)

lemma utf8_chars_strip:
  "utf8_chars (strip_whitespace s) = filter (\<lambda>c. \<not> is_whitespace c) (utf8_chars s)"
  by (auto simp: strip_whitespace_def intro!: utf8_chars_from_chars utf8_chars_bound)

lemma stripped_digits:
  assumes "list_all is_ascii_digit (utf8_chars (strip_whitespace s))"
  shows "digits_string (strip_whitespace s)"
proof -
  let ?cs = "filter (\<lambda>c. \<not> is_whitespace c) (utf8_chars s)"
  have d: "list_all is_ascii_digit ?cs" using assms by (simp add: utf8_chars_strip)
  then have "\<forall>c\<in>set ?cs. c < 128" by (auto simp: list_all_iff is_ascii_digit_def)
  then have "strip_whitespace s = map char_of ?cs"
    unfolding strip_whitespace_def by (rule from_chars_ascii)
  with d show ?thesis
    by (auto simp: digits_string_def list_all_iff is_ascii_digit_def)
qed

lemma digits_chars: "digits_string s \<Longrightarrow> list_all is_ascii_digit (utf8_chars s)"
  by (simp add: utf8_chars_ascii digits_ascii) (simp add: digits_string_def list_all_iff)

lemma short_code_new_Inr_iff:
  "short_code_new s = Inr n \<longleftrightarrow> n = strip_whitespace s \<and> length n = 12 \<and> digits_string n"
  by (auto simp: short_code_new_def Let_def digits_chars stripped_digits split: if_splits)

lemma validate_short_code_iff:
  "validate_short_code s = Inr () \<longleftrightarrow> length (strip_whitespace s) = 12 \<and> digits_string (strip_whitespace s)"
  by (auto simp: validate_short_code_def SHORT_CODE_LENGTH_def Let_def digits_chars stripped_digits
           split: if_splits)

lemma validate_short_code_digits:
  "digits_string s \<Longrightarrow> length s = 12 \<Longrightarrow> validate_short_code s = Inr ()"
  by (simp add: validate_short_code_iff strip_whitespace_digits)

lemma check_hyphens_iff: "check_hyphens s ps = Inr () \<longleftrightarrow> (\<forall>p\<in>set ps. byte_at s p = CHR ''-'')"
  by (induction ps) auto

lemma check_hex_cons:
  "check_hex i (c # cs) = Inr () \<longleftrightarrow>
     (i \<in> set expected_hyphens \<or> is_ascii_hexdigit c) \<and> check_hex (Suc i) cs = Inr ()"
  by auto

lemma hexdigit_ascii: "is_ascii_hexdigit c \<Longrightarrow> c < 128"
  by (auto simp: is_ascii_hexdigit_def is_ascii_digit_def)

lemma check_hex_bytes:
  assumes "\<forall>k<length s. i + k \<in> set expected_hyphens \<longrightarrow> s ! k = CHR ''-''"
  shows "check_hex i (utf8_chars s) = Inr () \<longleftrightarrow>
    (\<forall>k<length s. i + k \<notin> set expected_hyphens \<longrightarrow> is_ascii_hexdigit (of_char (s ! k)))"
  using assms
proof (induction s arbitrary: i)
  case (Cons c cs)
  have hyp: "i \<in> set expected_hyphens \<Longrightarrow> c = CHR ''-''" using Cons.prems by force
  have pre: "\<forall>k<length cs. Suc i + k \<in> set expected_hyphens \<longrightarrow> cs ! k = CHR ''-''"
    using Cons.prems by force
  have split: "(\<forall>k<length (c # cs). i + k \<notin> set expected_hyphens \<longrightarrow>
                  is_ascii_hexdigit (of_char ((c # cs) ! k))) \<longleftrightarrow>
      (i \<in> set expected_hyphens \<or> is_ascii_hexdigit (of_char c)) \<and>
      (\<forall>k<length cs. Suc i + k \<notin> set expected_hyphens \<longrightarrow> is_ascii_hexdigit (of_char (cs ! k)))"
    by (auto simp: less_Suc_eq_0_disj)
  show ?case
  proof (cases "(of_char c :: nat) < 128")
    case True
    then have "utf8_chars (c # cs) = of_char c # utf8_chars cs" by (simp add: Let_def)
    then show ?thesis
      by (simp only: check_hex_cons split Cons.IH[OF pre])
  next
    case False
    then obtain x xs where x: "utf8_chars (c # cs) = x # xs" "128 \<le> x"
      using utf8_chars_nonascii[of c cs] by auto
    have "i \<notin> set expected_hyphens" using hyp False by auto
    moreover have "\<not> is_ascii_hexdigit x" "\<not> is_ascii_hexdigit (of_char c)"
      using x(2) False hexdigit_ascii by fastforce+
    ultimately show ?thesis unfolding x(1) check_hex_cons split by blast
  qed
qed simp

lemma validate_uuid_format_iff:
  "validate_uuid_format s = Inr () \<longleftrightarrow>
     length s = 36 \<and>
     (\<forall>k<36. if k \<in> set expected_hyphens then s ! k = CHR ''-''
             else is_ascii_hexdigit (of_char (s ! k)))"
proof (cases "length s = 36")
  case len: True
  have h: "check_hyphens s expected_hyphens = Inr () \<longleftrightarrow>
      (\<forall>k<36. k \<in> set expected_hyphens \<longrightarrow> s ! k = CHR ''-'')"
  proof -
    have "\<forall>p\<in>set expected_hyphens. p < 36" by (simp add: expected_hyphens_def)
    then show ?thesis unfolding check_hyphens_iff byte_at_def len by auto
  qed
  show ?thesis
  proof (cases "check_hyphens s expected_hyphens = Inr ()")
    case True
    with h have "\<forall>k<length s. 0 + k \<in> set expected_hyphens \<longrightarrow> s ! k = CHR ''-''"
      by (simp add: len)
    from check_hex_bytes[OF this] True h len show ?thesis
      by (simp add: validate_uuid_format_def) (metis (mono_tags))
  next
    case False
    then obtain e where "check_hyphens s expected_hyphens = Inl e"
      by (cases "check_hyphens s expected_hyphens") auto
    with False h len show ?thesis by (auto simp: validate_uuid_format_def)
  qed
qed (simp add: validate_uuid_format_def)

lemma challenge_id_chars:
  assumes "validate_challenge_id s = Inr ()" "c \<in> set s"
  shows "is_ascii_hexdigit (of_char c) \<or> c = CHR ''-''"
proof -
  have v: "length s = 36"
    "\<forall>k<36. if k \<in> set expected_hyphens then s ! k = CHR ''-'' else is_ascii_hexdigit (of_char (s ! k))"
    using assms(1) by (auto simp: validate_challenge_id_def validate_uuid_format_iff)
  from assms(2) v(1) obtain k where "k < 36" "s ! k = c" by (auto simp: in_set_conv_nth)
  with v(2) show ?thesis by (metis (full_types))
qed

lemma challenge_id_ascii: "validate_challenge_id s = Inr () \<Longrightarrow> ascii_only s"
  unfolding ascii_only_def list_all_iff
  by (auto dest!: challenge_id_chars hexdigit_ascii)

lemma length_generate_short_code: "length (generate_short_code_from_uuid u) = 12"
  by (simp add: generate_short_code_from_uuid_def Let_def length_show_padded)

lemma digits_generate_short_code: "digits_string (generate_short_code_from_uuid u)"
  by (simp add: generate_short_code_from_uuid_def digits_string_def show_padded_digits Let_def)

lemma generated_code_valid: "validate_short_code (generate_short_code_from_uuid u) = Inr ()"
  by (simp add: validate_short_code_digits length_generate_short_code digits_generate_short_code)

subsection \<open>Properties\<close>

text \<open>The short code derived from a challenge UUID is always twelve decimal digits, so the
  validator of lookups accepts it and normalising it, as a user types it with any grouping
  that \<open>display_formatted\<close> prints, gives it back.\<close>

theorem short_code_roundtrip:
  "validate_short_code (generate_short_code_from_uuid u) = Inr () \<and>
   short_code_new (generate_short_code_from_uuid u) = Inr (generate_short_code_from_uuid u) \<and>
   short_code_new (display_formatted (generate_short_code_from_uuid u)) =
     Inr (generate_short_code_from_uuid u)"
proof -
  let ?g = "generate_short_code_from_uuid u"
  have d: "digits_string ?g" "length ?g = 12"
    by (rule digits_generate_short_code, rule length_generate_short_code)
  have parts: "digits_string (take 4 ?g)" "digits_string (take 4 (drop 4 ?g))" "digits_string (drop 8 ?g)"
    using d(1) by (auto simp: digits_string_def list_all_iff dest: in_set_takeD in_set_dropD)
  have f: "display_formatted ?g = take 4 ?g @ '' '' @ take 4 (drop 4 ?g) @ '' '' @ drop 8 ?g"
    by (simp add: display_formatted_def slice_or_empty_def d(2))
  have asc: "ascii_only (display_formatted ?g)"
    using parts[THEN digits_ascii] unfolding f ascii_only_def by simp
  have "strip_whitespace (display_formatted ?g) =
        filter (\<lambda>c. \<not> is_whitespace (of_char c)) (display_formatted ?g)"
    by (rule strip_whitespace_ascii[OF asc])
  also have "\<dots> = take 4 ?g @ take 4 (drop 4 ?g) @ drop 8 ?g"
    unfolding f using parts by (simp add: filter_digits) (simp add: is_whitespace_def)
  also have "\<dots> = ?g"
    using append_take_drop_id[of 4 ?g] append_take_drop_id[of 4 "drop 4 ?g"] by simp
  finally show ?thesis
    by (simp add: generated_code_valid short_code_new_Inr_iff d strip_whitespace_digits)
qed

text \<open>A short code is accepted for a lookup exactly when the strict request type accepts it,
  the two ways of building the strict type accept the same strings, and what they store is
  the input without its white space, twelve decimal digits.\<close>

theorem short_code_validators_agree:
  "(validate_short_code s = Inr () \<longleftrightarrow> (\<exists>n. short_code_new s = Inr n)) \<and>
   (short_code_new s = Inr n \<longleftrightarrow> short_code_deserialize s = Inr n) \<and>
   (short_code_new s = Inr n \<longleftrightarrow> n = strip_whitespace s \<and> length n = 12 \<and> digits_string n)"
  by (auto simp: validate_short_code_iff short_code_new_Inr_iff strip_whitespace_digits
      short_code_deserialize_def digits_chars stripped_digits Let_def split: if_splits)

end
