(* ===== verification/Challenge_State.thy ===== *)
theory Challenge_State imports Lifecycle Validation begin

text \<open>
  \<open>src/cache.rs\<close> and the state machine of \<open>src/durable_objects/challenge_do.rs\<close>: the
  challenge record, its lifecycle states and the transitions the Durable Object admits.
\<close>

datatype proof_direction = OverAge | UnderAge

definition proof_direction_default :: proof_direction where
  "proof_direction_default = OverAge"

fun proof_direction_as_str :: "proof_direction \<Rightarrow> string" where
  "proof_direction_as_str OverAge = ''over_age''"
| "proof_direction_as_str UnderAge = ''under_age''"

datatype challenge_state = Pending | ProofOkWaitingForRedeem | Verified | Failed | Expired

fun state_as_str :: "challenge_state \<Rightarrow> string" where
  "state_as_str Pending = ''pending''"
| "state_as_str ProofOkWaitingForRedeem = ''proof_ok_waiting_for_redeem''"
| "state_as_str Verified = ''verified''"
| "state_as_str Failed = ''failed''"
| "state_as_str Expired = ''expired''"

text \<open>The derived \<open>Debug\<close> form, which the audit messages print.\<close>

fun state_debug :: "challenge_state \<Rightarrow> string" where
  "state_debug Pending = ''Pending''"
| "state_debug ProofOkWaitingForRedeem = ''ProofOkWaitingForRedeem''"
| "state_debug Verified = ''Verified''"
| "state_debug Failed = ''Failed''"
| "state_debug Expired = ''Expired''"

text \<open>States in the order of the lifecycle.\<close>

fun state_rank :: "challenge_state \<Rightarrow> nat" where
  "state_rank Pending = 0"
| "state_rank ProofOkWaitingForRedeem = 1"
| "state_rank Verified = 2"
| "state_rank Failed = 3"
| "state_rank Expired = 4"

lemma state_rank_inj: "state_rank s = state_rank t \<Longrightarrow> s = t"
  by (cases s; cases t) simp_all

instantiation challenge_state :: linorder
begin

definition less_eq_challenge_state :: "challenge_state \<Rightarrow> challenge_state \<Rightarrow> bool" where
  "less_eq_challenge_state s t \<longleftrightarrow> state_rank s \<le> state_rank t"

definition less_challenge_state :: "challenge_state \<Rightarrow> challenge_state \<Rightarrow> bool" where
  "less_challenge_state s t \<longleftrightarrow> state_rank s < state_rank t"

instance
  by standard (auto simp: less_eq_challenge_state_def less_challenge_state_def intro: state_rank_inj)

end

definition is_terminal_state :: "challenge_state \<Rightarrow> bool" where
  "is_terminal_state s \<longleftrightarrow> s = Verified \<or> s = Failed \<or> s = Expired"

definition is_valid_transition :: "challenge_state \<Rightarrow> challenge_state \<Rightarrow> bool" where
  "is_valid_transition s t =
     (if s = t then True
      else case s of
             Pending \<Rightarrow> t = ProofOkWaitingForRedeem \<or> t = Failed \<or> t = Expired
           | ProofOkWaitingForRedeem \<Rightarrow> t = Verified \<or> t = Failed \<or> t = Expired
           | Verified \<Rightarrow> False
           | Failed \<Rightarrow> False
           | Expired \<Rightarrow> False)"

interpretation challenge: ranked_machine is_valid_transition is_terminal_state state_rank 4
proof unfold_locales
  show "is_terminal_state s \<Longrightarrow> is_valid_transition s t \<Longrightarrow> t = s" for s t
    by (auto simp: is_terminal_state_def is_valid_transition_def split: if_splits)
  show "is_valid_transition s t \<Longrightarrow> s \<noteq> t \<Longrightarrow> state_rank s < state_rank t" for s t
    by (cases s; cases t) (simp_all add: is_valid_transition_def)
  show "state_rank s \<le> 4" for s by (cases s) simp_all
qed

lemma valid_transition_le: "is_valid_transition s t \<Longrightarrow> s \<le> t"
  using challenge.progress[of s t] by (cases "s = t") (auto simp: less_eq_challenge_state_def)

lemma valid_transition_from_pending:
  "is_valid_transition s t \<Longrightarrow> t = Pending \<Longrightarrow> s = Pending"
  by (cases s) (auto simp: is_valid_transition_def)

lemma valid_transition_to_verified:
  "is_valid_transition s Verified \<longleftrightarrow> s = Verified \<or> s = ProofOkWaitingForRedeem"
  by (cases s) (auto simp: is_valid_transition_def)

subsection \<open>The stored challenge\<close>

record cached_challenge =
  cc_id :: uuid
  cc_short_code :: string
  cc_rp_challenge :: bytes
  cc_cutoff_days :: int
  cc_verifying_key_id :: u32
  cc_code_challenge :: string
  cc_code_challenge_bytes :: bytes
  cc_submit_secret :: bytes
  cc_origin :: string
  cc_expires_at :: u64
  cc_created_at :: u64
  cc_state :: challenge_state
  cc_proof_submitted :: bool
  cc_verified_at :: "u64 option"
  cc_proof_verified_at :: "u64 option"
  cc_issuer_kid :: "string option"
  cc_issuer_vk_bytes :: "bytes option"
  cc_client_id :: "string option"
  cc_tenant_id :: "string option"
  cc_proof_direction :: proof_direction

definition CHALLENGE_FIELD_LEN :: nat where "CHALLENGE_FIELD_LEN = 32"

definition field_len_error :: "string \<Rightarrow> nat \<Rightarrow> string" where
  "field_len_error name n =
     name @ '' length '' @ show_nat n @ '' != '' @ show_nat CHALLENGE_FIELD_LEN"

text \<open>\<open>CachedChallenge::validate\<close>\<close>

definition challenge_validate :: "cached_challenge \<Rightarrow> string + unit" where
  "challenge_validate c =
     (if length (cc_rp_challenge c) \<noteq> CHALLENGE_FIELD_LEN then
        Inl (field_len_error ''rp_challenge'' (length (cc_rp_challenge c)))
      else if cc_submit_secret c \<noteq> [] \<and> length (cc_submit_secret c) \<noteq> CHALLENGE_FIELD_LEN then
        Inl (field_len_error ''submit_secret'' (length (cc_submit_secret c)))
      else if length (cc_code_challenge_bytes c) \<noteq> CHALLENGE_FIELD_LEN then
        Inl (field_len_error ''code_challenge_bytes'' (length (cc_code_challenge_bytes c)))
      else Inr ())"

lemma challenge_validate_iff:
  "challenge_validate c = Inr () \<longleftrightarrow>
     length (cc_rp_challenge c) = 32 \<and>
     (cc_submit_secret c = [] \<or> length (cc_submit_secret c) = 32) \<and>
     length (cc_code_challenge_bytes c) = 32"
  by (auto simp: challenge_validate_def CHALLENGE_FIELD_LEN_def)

text \<open>The immutable part of a challenge: everything but what \<open>ChallengeUpdate\<close> may set and
  the submit secret.\<close>

definition immutable_part :: "cached_challenge \<Rightarrow> cached_challenge" where
  "immutable_part c = c\<lparr>cc_submit_secret := [], cc_state := Pending, cc_proof_submitted := False,
     cc_verified_at := None, cc_proof_verified_at := None, cc_issuer_kid := None,
     cc_issuer_vk_bytes := None\<rparr>"

subsection \<open>Properties\<close>

text \<open>The transitions of the challenge state machine only lead forward in the lifecycle:
  whatever sequence of legal transitions a challenge goes through, it never comes back to a
  state it has left, it changes state at most as often as states remain ahead of it, and once
  Verified, Failed or Expired it stays so; Verified is entered from the waiting state only.\<close>

theorem challenge_lifecycle:
  "path is_valid_transition s ts \<longrightarrow>
     changes s ts \<le> 4 - state_rank s \<and>
     (\<forall>t\<in>set ts. s \<le> t \<and> (is_terminal_state s \<longrightarrow> t = s) \<and>
        (is_valid_transition\<^sup>*\<^sup>* t s \<longrightarrow> t = s))"
proof
  assume p: "path is_valid_transition s ts"
  have "s \<le> t \<and> (is_terminal_state s \<longrightarrow> t = s) \<and> (is_valid_transition\<^sup>*\<^sup>* t s \<longrightarrow> t = s)"
    if "t \<in> set ts" for t
  proof -
    from p that have r: "is_valid_transition\<^sup>*\<^sup>* s t" by (rule challenge.path_reach)
    then have "s \<le> t"
      using challenge.reach_rank[OF r] by (auto simp: less_eq_challenge_state_def)
    with r show ?thesis
      using challenge.terminal_reach[OF _ r] challenge.no_return[OF r] by auto
  qed
  with challenge.changes_bounded[OF p]
  show "changes s ts \<le> 4 - state_rank s \<and>
     (\<forall>t\<in>set ts. s \<le> t \<and> (is_terminal_state s \<longrightarrow> t = s) \<and>
        (is_valid_transition\<^sup>*\<^sup>* t s \<longrightarrow> t = s))" by blast
qed

lemma challenge_lifecycle_witness:
  "changes Pending [ProofOkWaitingForRedeem, ProofOkWaitingForRedeem, Verified] \<le> 4 \<and>
   Pending \<le> Verified"
proof -
  have "path is_valid_transition Pending [ProofOkWaitingForRedeem, ProofOkWaitingForRedeem, Verified]"
    by (simp add: is_valid_transition_def)
  then show ?thesis
    using challenge_lifecycle[of Pending "[ProofOkWaitingForRedeem, ProofOkWaitingForRedeem, Verified]"]
    by simp
qed

end
