(* ===== verification/Do_Runtime.thy ===== *)
theory Do_Runtime imports Prelude begin

text \<open>
  The platform the Durable Objects run on, as far as the code uses it: the transactional
  key/value storage of one object with its alarm, HTTP methods and requests, and worker
  errors.  A storage operation can fail; which ones do is the storage's \<open>faults\<close>
  schedule, one entry consumed per operation and no failure when it is exhausted, so a
  theorem for every storage is a theorem for every pattern of failures.
\<close>

datatype worker_error = StorageError | RustError string

datatype http_method = GET | POST | PUT | DELETE | PATCH | OPTIONS | HEAD

text \<open>A request: its URL path, method and body, \<open>None\<close> when reading the body fails.\<close>

record do_request =
  rq_path :: string
  rq_method :: http_method
  rq_body :: "bytes option"

record 'v storage =
  kv :: "string \<Rightarrow> 'v option"
  alarm_at :: "u64 option"
  faults :: "bool list"

definition empty_storage :: "'v storage" where
  "empty_storage = \<lparr>kv = (\<lambda>_. None), alarm_at = None, faults = []\<rparr>"

text \<open>The outcome of the next operation, and the storage with its entry consumed.\<close>

definition next_fails :: "'v storage \<Rightarrow> bool" where
  "next_fails st = (case faults st of [] \<Rightarrow> False | b # _ \<Rightarrow> b)"

definition tick_fault :: "'v storage \<Rightarrow> 'v storage" where
  "tick_fault st = st\<lparr>faults := tl (faults st)\<rparr>"

lemma tick_fault_simps [simp]:
  "kv (tick_fault st) = kv st" "alarm_at (tick_fault st) = alarm_at st"
  "faults (tick_fault st) = tl (faults st)"
  by (simp_all add: tick_fault_def)

lemma next_fails_Nil [simp]: "faults st = [] \<Longrightarrow> \<not> next_fails st"
  by (simp add: next_fails_def)

abbreviation reads_ok :: "'v storage \<Rightarrow> bool" where "reads_ok st \<equiv> \<not> next_fails st"

definition st_get :: "string \<Rightarrow> ('v storage, worker_error, 'v option) step" where
  "st_get k = (\<lambda>st. (if next_fails st then Inl StorageError else Inr (kv st k), tick_fault st))"

definition st_put :: "string \<Rightarrow> 'v \<Rightarrow> ('v storage, worker_error, unit) step" where
  "st_put k v = (\<lambda>st.
     if next_fails st then (Inl StorageError, tick_fault st)
     else (Inr (), (tick_fault st)\<lparr>kv := (kv st)(k := Some v)\<rparr>))"

text \<open>\<open>delete\<close> answers whether the key existed.\<close>

definition st_delete :: "string \<Rightarrow> ('v storage, worker_error, bool) step" where
  "st_delete k = (\<lambda>st.
     if next_fails st then (Inl StorageError, tick_fault st)
     else (Inr (kv st k \<noteq> None), (tick_fault st)\<lparr>kv := (kv st)(k := None)\<rparr>))"

definition st_delete_multiple :: "string set \<Rightarrow> ('v storage, worker_error, unit) step" where
  "st_delete_multiple ks = (\<lambda>st.
     if next_fails st then (Inl StorageError, tick_fault st)
     else (Inr (), (tick_fault st)\<lparr>kv := (\<lambda>k. if k \<in> ks then None else kv st k)\<rparr>))"

definition st_get_alarm :: "('v storage, worker_error, u64 option) step" where
  "st_get_alarm = (\<lambda>st. (if next_fails st then Inl StorageError else Inr (alarm_at st), tick_fault st))"

text \<open>\<open>set_alarm(offset_ms)\<close> at time \<open>now_ms\<close>.\<close>

definition st_set_alarm :: "u64 \<Rightarrow> u64 \<Rightarrow> ('v storage, worker_error, unit) step" where
  "st_set_alarm now_ms offset = (\<lambda>st.
     if next_fails st then (Inl StorageError, tick_fault st)
     else (Inr (), (tick_fault st)\<lparr>alarm_at := Some (now_ms + offset)\<rparr>))"

text \<open>\<open>listing\<close> is what \<open>list\<close> or \<open>list_with_options\<close> answers; listing can fail like any operation.\<close>

definition st_list :: "(string \<times> 'v) list \<Rightarrow> ('v storage, worker_error, (string \<times> 'v) list) step" where
  "st_list listing = (\<lambda>st. (if next_fails st then Inl StorageError else Inr listing, tick_fault st))"

text \<open>What the platform documents of \<open>list_with_options\<close> with a prefix.\<close>

definition lists_prefix :: "(string \<Rightarrow> 'v option) \<Rightarrow> string \<Rightarrow> (string \<times> 'v) list \<Rightarrow> bool" where
  "lists_prefix m p listing \<longleftrightarrow> (\<forall>k v. (k, v) \<in> set listing \<longleftrightarrow> m k = Some v \<and> starts_with k p)"

text \<open>\<open>storage().get(key).await.unwrap_or(None)\<close>: a failed read is an absent value.\<close>

definition st_get_or_none :: "string \<Rightarrow> ('v storage, 'r, 'v option) step" where
  "st_get_or_none k = (\<lambda>st. case st_get k st of
     (Inl _, st') \<Rightarrow> (Inr None, st') | (Inr v, st') \<Rightarrow> (Inr v, st'))"

lemma st_get_or_none_eq:
  "st_get_or_none k st = (Inr (if next_fails st then None else kv st k), tick_fault st)"
  by (simp add: st_get_or_none_def st_get_def)

lemma st_get_cases:
  "st_get k st = (x, st') \<Longrightarrow>
     kv st' = kv st \<and> (x = Inl StorageError \<or> x = Inr (kv st k))"
  by (auto simp: st_get_def split: if_splits)

lemma st_put_cases:
  "st_put k v st = (x, st') \<Longrightarrow>
     (x = Inl StorageError \<and> kv st' = kv st) \<or> (x = Inr () \<and> kv st' = (kv st)(k := Some v))"
  by (auto simp: st_put_def split: if_splits)

lemma st_delete_cases:
  "st_delete k st = (x, st') \<Longrightarrow>
     (x = Inl StorageError \<and> kv st' = kv st) \<or>
     (x = Inr (kv st k \<noteq> None) \<and> kv st' = (kv st)(k := None))"
  by (auto simp: st_delete_def split: if_splits)

lemma st_delete_multiple_cases:
  "st_delete_multiple ks st = (x, st') \<Longrightarrow>
     (x = Inl StorageError \<and> kv st' = kv st) \<or>
     (x = Inr () \<and> kv st' = (\<lambda>k. if k \<in> ks then None else kv st k))"
  by (auto simp: st_delete_multiple_def split: if_splits)

lemma st_alarm_kv:
  "st_get_alarm st = (x, st') \<Longrightarrow> kv st' = kv st"
  "st_set_alarm n d st = (y, st') \<Longrightarrow> kv st' = kv st"
  by (auto simp: st_get_alarm_def st_set_alarm_def split: if_splits)

lemmas st_defs = st_get_def st_put_def st_delete_def st_delete_multiple_def st_get_alarm_def
  st_set_alarm_def st_get_or_none_def

text \<open>\<open>Date::now().as_millis() / 1000\<close>, and reading the body of a request.\<close>

definition now_secs :: "u64 \<Rightarrow> u64" where "now_secs now_ms = secs_of_millis now_ms"

definition read_body :: "do_request \<Rightarrow> ('w, worker_error, bytes) step" where
  "read_body req = (case rq_body req of
     None \<Rightarrow> stop (RustError ''body read failed'') | Some b \<Rightarrow> ret b)"

definition invalid_json :: "string \<Rightarrow> worker_error" where
  "invalid_json e = RustError (''Invalid JSON: '' @ e)"

subsection \<open>Calls of one object from the Worker\<close>

text \<open>
  A fetch of a Durable Object under \<open>with_timeout\<close>: it runs and is answered in time, it never
  reaches the object, or it runs and its answer is lost or too late.  The schedule of outcomes
  is part of the world, like the faults of a storage.
\<close>

datatype delivery = Delivered | NotDelivered | ReplyLost

definition next_delivery :: "delivery list \<Rightarrow> delivery" where
  "next_delivery ds = (case ds of [] \<Rightarrow> Delivered | d # _ \<Rightarrow> d)"

text \<open>The object's storage after the call, and the answer, \<open>None\<close> when the caller gets none.\<close>

definition do_call ::
    "delivery \<Rightarrow> ('s, worker_error, 'a) step \<Rightarrow> 's \<Rightarrow> (worker_error + 'a) option \<times> 's" where
  "do_call d handler st =
     (case d of
        Delivered \<Rightarrow> (case handler st of (r, st') \<Rightarrow> (Some r, st'))
      | NotDelivered \<Rightarrow> (None, st)
      | ReplyLost \<Rightarrow> (None, snd (handler st)))"

lemma do_call_cases:
  "do_call d h st = (r, st') \<Longrightarrow>
     (r = None \<and> st' = st) \<or> (st' = snd (h st) \<and> (r = None \<or> r = Some (fst (h st))))"
  by (auto simp: do_call_def split: delivery.splits prod.splits)

end
