(* ===== verification/Audit_Event.thy ===== *)
theory Audit_Event imports Prelude begin

text \<open>
  \<open>AuditEventData\<close> of \<open>src/security/audit.rs\<close>: the audit events a Durable Object embeds in
  its answers for the Worker to dispatch.  The \<open>details\<close> JSON object is kept as its list of
  members.
\<close>

datatype json = JNull | JBool bool | JNum int | JStr string

abbreviation jnum :: "u64 \<Rightarrow> json" where "jnum n \<equiv> JNum (uint n)"

record audit_event =
  ae_event_type :: string
  ae_severity :: string
  ae_message :: string
  ae_actor_ip :: string
  ae_origin :: string
  ae_actor_id :: string
  ae_resource_id :: string
  ae_details :: "(string \<times> json) list"
  ae_request_id :: string
  ae_environment :: string
  ae_component :: string
  ae_worker_version :: string

definition audit_event_default :: audit_event where
  "audit_event_default = \<lparr>ae_event_type = [], ae_severity = [], ae_message = [], ae_actor_ip = [],
     ae_origin = [], ae_actor_id = [], ae_resource_id = [], ae_details = [], ae_request_id = [],
     ae_environment = [], ae_component = [], ae_worker_version = []\<rparr>"

definition do_event ::
    "string \<Rightarrow> string \<Rightarrow> string \<Rightarrow> string \<Rightarrow> string \<Rightarrow> string \<Rightarrow> (string \<times> json) list \<Rightarrow> audit_event" where
  "do_event cpt ty sev msg rid orig details = audit_event_default\<lparr>ae_event_type := ty,
     ae_severity := sev, ae_message := msg, ae_resource_id := rid, ae_origin := orig,
     ae_component := cpt, ae_details := details\<rparr>"

lemma do_event_simps [simp]:
  "ae_event_type (do_event cpt ty sev msg rid orig details) = ty"
  "ae_severity (do_event cpt ty sev msg rid orig details) = sev"
  "ae_resource_id (do_event cpt ty sev msg rid orig details) = rid"
  "ae_origin (do_event cpt ty sev msg rid orig details) = orig"
  "ae_details (do_event cpt ty sev msg rid orig details) = details"
  by (simp_all add: do_event_def)

end
