(* ===== verification/Challenge_DO.thy ===== *)
theory Challenge_DO imports Challenge_State Do_Runtime Audit_Event begin

text \<open>
  \<open>src/durable_objects/challenge_do.rs\<close>: the Durable Object that owns the challenge records.
  Its storage maps \<open>ch:{uuid}\<close> to a challenge and \<open>code:{short_code}\<close> to a UUID string; a
  handler is a step over that storage which ends in a response, or in the worker error of a
  propagated \<open>?\<close>.  The parsers of the request bodies and of UUIDs are arguments, gathered in
  \<open>do_env\<close>.  The timing wrapper \<open>timed\<close> and the log lines do not affect the result.
\<close>

datatype challenge_slot = SChallenge cached_challenge | SText string

type_synonym challenge_storage = "challenge_slot storage"

record challenge_update =
  cu_state :: challenge_state
  cu_proof_submitted :: "bool option"
  cu_proof_verified_at :: "u64 option"
  cu_verified_at :: "u64 option"
  cu_issuer_kid :: "string option"
  cu_issuer_vk_bytes :: "bytes option"

text \<open>\<open>serde_json::from_slice\<close> for the two body types, and \<open>uuid::Uuid::parse_str\<close>.\<close>

record do_env =
  de_parse_challenge :: "bytes \<Rightarrow> string + cached_challenge"
  de_parse_update :: "bytes \<Rightarrow> string + challenge_update"
  de_parse_uuid :: "string \<Rightarrow> uuid option"

text \<open>Plain text, the challenge as JSON, or an object of one string member and the audit events.\<close>

datatype do_body =
    Txt string
  | ChallengeBody cached_challenge
  | Envelope string string "audit_event list"

record do_response =
  dr_status :: nat
  dr_body :: do_body

definition resp_error :: "string \<Rightarrow> nat \<Rightarrow> do_response" where
  "resp_error msg st = \<lparr>dr_status = st, dr_body = Txt msg\<rparr>"

definition resp_ok :: "string \<Rightarrow> do_response" where
  "resp_ok msg = \<lparr>dr_status = 200, dr_body = Txt msg\<rparr>"

definition resp_json :: "nat \<Rightarrow> do_body \<Rightarrow> do_response" where
  "resp_json st b = \<lparr>dr_status = st, dr_body = b\<rparr>"

definition MAX_DO_BODY_SIZE :: nat where "MAX_DO_BODY_SIZE = 65536"
definition PUT_MAX_ATTEMPTS :: nat where "PUT_MAX_ATTEMPTS = 3"
definition PUT_INITIAL_BACKOFF_MS :: u64 where "PUT_INITIAL_BACKOFF_MS = 10"

subsection \<open>Writes with retry\<close>

text \<open>
  The loop of \<open>put_with_retry\<close> over the attempts that remain.  It also collects the delays
  it sleeps for.
\<close>

fun put_loop ::
    "nat list \<Rightarrow> u64 \<Rightarrow> worker_error option \<Rightarrow> u64 list \<Rightarrow> string \<Rightarrow> 'v \<Rightarrow> string \<Rightarrow>
     'v storage \<Rightarrow> ((worker_error + unit) \<times> u64 list) \<times> 'v storage" where
  "put_loop [] backoff last_err slept key v operation st =
     ((Inl (case last_err of
              Some e \<Rightarrow> e
            | None \<Rightarrow> RustError (''challenge_do put for '' @ operation @ '' exhausted '' @
                show_nat PUT_MAX_ATTEMPTS @ '' attempts with no recorded error'')), slept), st)"
| "put_loop (attempt # rest) backoff last_err slept key v operation st =
     (case st_put key v st of
        (Inr _, st') \<Rightarrow> ((Inr (), slept), st')
      | (Inl e, st') \<Rightarrow>
          if attempt < PUT_MAX_ATTEMPTS
          then put_loop rest (sat_mul backoff 2) (Some e) (slept @ [backoff]) key v operation st'
          else put_loop rest backoff (Some e) slept key v operation st')"

definition put_with_retry ::
    "string \<Rightarrow> 'v \<Rightarrow> string \<Rightarrow> ('v storage, worker_error, unit) step" where
  "put_with_retry key v operation st =
     (let ((r, slept), st') =
        put_loop [1 ..< Suc PUT_MAX_ATTEMPTS] PUT_INITIAL_BACKOFF_MS None [] key v operation st
      in (r, st'))"

text \<open>\<open>if self.put_with_retry(..).await.is_err() { return 503 }\<close>, then go on.\<close>

definition put_or_503 ::
    "string \<Rightarrow> 'v \<Rightarrow> string \<Rightarrow> ('v storage, worker_error, do_response) step \<Rightarrow>
     ('v storage, worker_error, do_response) step" where
  "put_or_503 key v operation k = (\<lambda>st.
     case put_with_retry key v operation st of
       (Inl _, st') \<Rightarrow> ret (resp_error ''Service Unavailable'' 503) st'
     | (Inr _, st') \<Rightarrow> k st')"

subsection \<open>Reads\<close>

definition ch_key :: "string \<Rightarrow> string" where "ch_key uuid = ''ch:'' @ uuid"
definition code_key :: "string \<Rightarrow> string" where "code_key code = ''code:'' @ code"

text \<open>A typed read: a value of the other type does not deserialise and is an error, so \<open>None\<close>.\<close>

fun slot_challenge :: "challenge_slot option \<Rightarrow> cached_challenge option" where
  "slot_challenge (Some (SChallenge c)) = Some c"
| "slot_challenge _ = None"

fun slot_text :: "challenge_slot option \<Rightarrow> string option" where
  "slot_text (Some (SText t)) = Some t"
| "slot_text _ = None"

definition read_challenge :: "string \<Rightarrow> (challenge_storage, 'r, cached_challenge option) step" where
  "read_challenge key = andthen (st_get_or_none key) (\<lambda>v. ret (slot_challenge v))"

definition read_text :: "string \<Rightarrow> (challenge_storage, 'r, string option) step" where
  "read_text key = andthen (st_get_or_none key) (\<lambda>v. ret (slot_text v))"

definition expired_event :: "string \<Rightarrow> cached_challenge \<Rightarrow> u64 \<Rightarrow> audit_event" where
  "expired_event uuid c now = do_event ''challenge_do'' ''challenge_expired_auto_deleted'' ''info''
     (''Challenge '' @ uuid @ '' auto-deleted on read (expired at '' @ show_u64 (cc_expires_at c) @
      '', now '' @ show_u64 now @ '')'')
     uuid (cc_origin c)
     [(''expires_at'', jnum (cc_expires_at c)), (''now'', jnum now),
      (''state_at_expiry'', JStr (state_as_str (cc_state c)))]"

definition get_challenge ::
    "u64 \<Rightarrow> string \<Rightarrow> (challenge_storage, worker_error, do_response) step" where
  "get_challenge now_ms uuid =
     (case validate_challenge_id uuid of
        Inl _ \<Rightarrow> ret (resp_error ''Invalid challenge ID'' 400)
      | Inr _ \<Rightarrow>
          let key = ch_key uuid; now = now_secs now_ms in
          andthen (read_challenge key) (\<lambda>stored.
            case stored of
              Some c \<Rightarrow>
                if cc_expires_at c > now then ret (resp_json 200 (ChallengeBody c))
                else
                  andthen (st_delete key) (\<lambda>_.
                  andthen (st_delete (code_key (cc_short_code c))) (\<lambda>_.
                  ret (resp_json 410 (Envelope ''error'' ''Challenge expired''
                         [expired_event uuid c now]))))
            | None \<Rightarrow> ret (resp_error ''Not found'' 404)))"

definition get_challenge_by_code ::
    "u64 \<Rightarrow> string \<Rightarrow> (challenge_storage, worker_error, do_response) step" where
  "get_challenge_by_code now_ms short_code =
     (case validate_short_code short_code of
        Inl _ \<Rightarrow> ret (resp_error ''Invalid short code'' 400)
      | Inr _ \<Rightarrow>
          andthen (read_text (code_key short_code)) (\<lambda>uuid.
            case uuid of
              Some u \<Rightarrow> get_challenge now_ms u
            | None \<Rightarrow> ret (resp_error ''Not found'' 404)))"

subsection \<open>Creation\<close>

definition store_new_challenge ::
    "string \<Rightarrow> cached_challenge \<Rightarrow> (challenge_storage, worker_error, do_response) step" where
  "store_new_challenge uuid c =
     andthen (read_challenge (ch_key uuid)) (\<lambda>existing.
       if existing \<noteq> None then ret (resp_ok ''created'')
       else
         put_or_503 (ch_key uuid) (SChallenge c) ''create_challenge_record''
           (put_or_503 (code_key (cc_short_code c)) (SText uuid) ''create_short_code_mapping''
              (ret (resp_ok ''created''))))"

definition create_challenge ::
    "do_env \<Rightarrow> string \<Rightarrow> do_request \<Rightarrow> (challenge_storage, worker_error, do_response) step" where
  "create_challenge env uuid req =
     (case validate_challenge_id uuid of
        Inl _ \<Rightarrow> ret (resp_error ''Invalid challenge ID'' 400)
      | Inr _ \<Rightarrow>
          andthen (read_body req) (\<lambda>body.
          if length body > MAX_DO_BODY_SIZE then ret (resp_error ''Request entity too large'' 413)
          else case de_parse_challenge env body of
            Inl e \<Rightarrow> stop (invalid_json e)
          | Inr c \<Rightarrow>
              (case validate_short_code (cc_short_code c) of
                 Inl _ \<Rightarrow> ret (resp_error ''Invalid short code'' 400)
               | Inr _ \<Rightarrow>
                   (case de_parse_uuid env uuid of
                      Some u \<Rightarrow>
                        if cc_short_code c \<noteq> generate_short_code_from_uuid u
                        then ret (resp_error ''Short code does not match challenge ID'' 400)
                        else store_new_challenge uuid c
                    | None \<Rightarrow> store_new_challenge uuid c))))"

subsection \<open>Updates\<close>

definition transition_message :: "string \<Rightarrow> challenge_state \<Rightarrow> challenge_state \<Rightarrow> string" where
  "transition_message uuid s t = uuid @ '': '' @ state_debug s @ '' -> '' @ state_debug t"

definition rejected_event :: "string \<Rightarrow> cached_challenge \<Rightarrow> challenge_state \<Rightarrow> audit_event" where
  "rejected_event uuid c t =
     do_event ''challenge_do'' ''invalid_state_transition_rejected'' ''warning''
       (''Invalid state transition rejected for '' @ transition_message uuid (cc_state c) t)
       uuid (cc_origin c)
       [(''from_state'', JStr (state_as_str (cc_state c))), (''to_state'', JStr (state_as_str t))]"

definition transition_event :: "string \<Rightarrow> cached_challenge \<Rightarrow> challenge_state \<Rightarrow> audit_event" where
  "transition_event uuid c t =
     do_event ''challenge_do'' ''challenge_state_transition'' ''info''
       (''Challenge '' @ uuid @ '' state transition: '' @ state_debug (cc_state c) @ '' -> '' @
        state_debug t)
       uuid (cc_origin c)
       [(''from_state'', JStr (state_as_str (cc_state c))), (''to_state'', JStr (state_as_str t))]"

text \<open>The merge of the mutable fields, with the submit secret wiped on leaving Pending.\<close>

definition apply_update :: "cached_challenge \<Rightarrow> challenge_update \<Rightarrow> cached_challenge" where
  "apply_update c u =
     (let c1 = (if cc_state c = Pending \<and> cu_state u \<noteq> Pending
                then c\<lparr>cc_submit_secret := []\<rparr> else c);
          c2 = c1\<lparr>cc_state := cu_state u\<rparr>;
          c3 = (case cu_proof_submitted u of Some ps \<Rightarrow> c2\<lparr>cc_proof_submitted := ps\<rparr> | None \<Rightarrow> c2);
          c4 = (case cu_proof_verified_at u of
                  Some t \<Rightarrow> c3\<lparr>cc_proof_verified_at := Some t\<rparr> | None \<Rightarrow> c3);
          c5 = (case cu_verified_at u of Some t \<Rightarrow> c4\<lparr>cc_verified_at := Some t\<rparr> | None \<Rightarrow> c4);
          c6 = (case cu_issuer_kid u of Some k \<Rightarrow> c5\<lparr>cc_issuer_kid := Some k\<rparr> | None \<Rightarrow> c5)
      in (if cu_issuer_vk_bytes u \<noteq> None
          then c6\<lparr>cc_issuer_vk_bytes := cu_issuer_vk_bytes u\<rparr> else c6))"

definition update_existing ::
    "u64 \<Rightarrow> string \<Rightarrow> cached_challenge \<Rightarrow> challenge_update \<Rightarrow>
     (challenge_storage, worker_error, do_response) step" where
  "update_existing now_ms uuid c u =
     (if now_secs now_ms \<ge> cc_expires_at c \<and> \<not> is_terminal_state (cu_state u)
      then ret (resp_error ''Challenge expired'' 410)
      else if cc_state c \<noteq> cu_state u \<and> \<not> is_valid_transition (cc_state c) (cu_state u)
      then ret (resp_json 409 (Envelope ''error'' ''Invalid state transition''
                  [rejected_event uuid c (cu_state u)]))
      else
        let audit_events =
              (if cc_state c \<noteq> cu_state u then [transition_event uuid c (cu_state u)] else [])
        in put_or_503 (ch_key uuid) (SChallenge (apply_update c u)) ''update_challenge_record''
             (ret (resp_json 200 (Envelope ''result'' ''updated'' audit_events))))"

definition update_challenge ::
    "do_env \<Rightarrow> u64 \<Rightarrow> string \<Rightarrow> do_request \<Rightarrow>
     (challenge_storage, worker_error, do_response) step" where
  "update_challenge env now_ms uuid req =
     (case validate_challenge_id uuid of
        Inl _ \<Rightarrow> ret (resp_error ''Invalid challenge ID'' 400)
      | Inr _ \<Rightarrow>
          andthen (read_body req) (\<lambda>body.
          if length body > MAX_DO_BODY_SIZE then ret (resp_error ''Request entity too large'' 413)
          else
            andthen (read_challenge (ch_key uuid)) (\<lambda>existing.
              case existing of
                None \<Rightarrow> ret (resp_error ''Not found'' 404)
              | Some c \<Rightarrow>
                  (case de_parse_update env body of
                     Inl e \<Rightarrow> stop (invalid_json e)
                   | Inr u \<Rightarrow> update_existing now_ms uuid c u))))"

subsection \<open>Deletion\<close>

definition evidence_bearing :: "challenge_state \<Rightarrow> bool" where
  "evidence_bearing s \<longleftrightarrow> s = Verified \<or> s = ProofOkWaitingForRedeem"

definition delete_blocked_event :: "string \<Rightarrow> cached_challenge \<Rightarrow> audit_event" where
  "delete_blocked_event uuid c = do_event ''challenge_do'' ''challenge_delete_blocked'' ''warning''
     (''Delete of challenge '' @ uuid @ '' blocked: state '' @ state_debug (cc_state c) @
      '' is evidence-bearing'')
     uuid (cc_origin c)
     [(''state_at_deletion_attempt'', JStr (state_as_str (cc_state c))), (''blocked'', JBool True)]"

definition deleted_event :: "string \<Rightarrow> cached_challenge \<Rightarrow> audit_event" where
  "deleted_event uuid c = do_event ''challenge_do'' ''challenge_deleted'' ''info''
     (''Challenge '' @ uuid @ '' deleted (state: '' @ state_debug (cc_state c) @ '')'')
     uuid (cc_origin c)
     [(''state_at_deletion'', JStr (state_as_str (cc_state c))),
      (''expires_at'', jnum (cc_expires_at c))]"

definition delete_challenge ::
    "string \<Rightarrow> (challenge_storage, worker_error, do_response) step" where
  "delete_challenge uuid =
     (case validate_challenge_id uuid of
        Inl _ \<Rightarrow> ret (resp_error ''Invalid challenge ID'' 400)
      | Inr _ \<Rightarrow>
          let key = ch_key uuid in
          andthen (read_challenge key) (\<lambda>existing.
            case existing of
              Some c \<Rightarrow>
                if evidence_bearing (cc_state c)
                then ret (resp_json 409 (Envelope ''error''
                       (''Cannot delete challenge in '' @ state_as_str (cc_state c) @ '' state'')
                       [delete_blocked_event uuid c]))
                else
                  andthen (st_delete key) (\<lambda>_.
                  andthen (st_delete (code_key (cc_short_code c))) (\<lambda>_.
                  ret (resp_json 200 (Envelope ''result'' ''deleted'' [deleted_event uuid c]))))
            | None \<Rightarrow> ret (resp_json 200 (Envelope ''result'' ''deleted'' []))))"

subsection \<open>Dispatch\<close>

definition challenge_fetch ::
    "do_env \<Rightarrow> u64 \<Rightarrow> do_request \<Rightarrow> (challenge_storage, worker_error, do_response) step" where
  "challenge_fetch env now_ms req =
     (let path_segments = split_on (CHR ''/'') (rq_path req) in
      if length path_segments < 3 then ret (resp_error ''Invalid path'' 400)
      else
        let resource_type = path_segments ! 1; identifier = path_segments ! 2 in
        if resource_type = ''code'' \<and> rq_method req = GET then get_challenge_by_code now_ms identifier
        else
          let action = (if length path_segments > 3 then path_segments ! 3 else ''get'') in
          (case rq_method req of
             GET \<Rightarrow> get_challenge now_ms identifier
           | POST \<Rightarrow>
               if action = ''create'' then create_challenge env identifier req
               else if action = ''update'' then update_challenge env now_ms identifier req
               else ret (resp_error ''Invalid action'' 400)
           | DELETE \<Rightarrow> delete_challenge identifier
           | _ \<Rightarrow> ret (resp_error ''Method not allowed'' 405)))"

subsection \<open>Lemmas on storage keys and writes\<close>

lemma key_simps [simp]:
  "ch_key a = ch_key b \<longleftrightarrow> a = b" "code_key a = code_key b \<longleftrightarrow> a = b"
  "ch_key a \<noteq> code_key b" "code_key b \<noteq> ch_key a"
  by (auto simp: ch_key_def code_key_def)

lemma put_loop_cases:
  "put_loop as b le sl k v op st = ((x, sl'), st') \<Longrightarrow>
     (x = Inr () \<and> kv st' = (kv st)(k := Some v)) \<or> ((\<exists>e. x = Inl e) \<and> kv st' = kv st)"
proof (induction as arbitrary: b le sl st)
  case (Cons a as)
  obtain y st1 where p: "st_put k v st = (y, st1)" by fastforce
  show ?case
  proof (cases y)
    case (Inl e)
    then have kv1: "kv st1 = kv st" using st_put_cases[OF p] by auto
    from Inl p Cons.prems have
      "put_loop as (if a < PUT_MAX_ATTEMPTS then sat_mul b 2 else b) (Some e)
         (if a < PUT_MAX_ATTEMPTS then sl @ [b] else sl) k v op st1 = ((x, sl'), st')"
      by (auto split: if_splits)
    from Cons.IH[OF this] show ?thesis unfolding kv1 .
  next
    case (Inr z)
    with p Cons.prems st_put_cases[OF p] show ?thesis by auto
  qed
qed auto

lemma put_with_retry_cases:
  "put_with_retry k v op st = (x, st') \<Longrightarrow>
     (x = Inr () \<and> kv st' = (kv st)(k := Some v)) \<or> ((\<exists>e. x = Inl e) \<and> kv st' = kv st)"
  by (auto simp: put_with_retry_def split: prod.splits dest!: put_loop_cases)

lemma attempts_eq: "[1 ..< Suc PUT_MAX_ATTEMPTS] = [1, 2, 3]"
  by (simp add: PUT_MAX_ATTEMPTS_def upt_rec)

lemma put_with_retry_nofault:
  "\<not> next_fails st \<Longrightarrow> put_with_retry k v op st = (Inr (), (tick_fault st)\<lparr>kv := (kv st)(k := Some v)\<rparr>)"
  unfolding put_with_retry_def attempts_eq by (simp add: st_put_def)

lemma read_challenge_eq:
  "read_challenge k st =
     (Inr (slot_challenge (if next_fails st then None else kv st k)), tick_fault st)"
  by (simp add: read_challenge_def andthen_def st_get_or_none_eq ret_def)

lemma read_text_eq:
  "read_text k st = (Inr (slot_text (if next_fails st then None else kv st k)), tick_fault st)"
  by (simp add: read_text_def andthen_def st_get_or_none_eq ret_def)

lemma slot_challenge_Some_iff: "slot_challenge v = Some c \<longleftrightarrow> v = Some (SChallenge c)"
  by (cases v rule: slot_challenge.cases) auto

lemma slot_text_Some_iff: "slot_text v = Some c \<longleftrightarrow> v = Some (SText c)"
  by (cases v rule: slot_text.cases) auto

text \<open>Reading through a step whose result is known.\<close>

lemma andthen_read:
  "andthen (read_challenge k) f st =
     f (slot_challenge (if next_fails st then None else kv st k)) (tick_fault st)"
  "andthen (read_text k) g st =
     g (slot_text (if next_fails st then None else kv st k)) (tick_fault st)"
  by (simp_all add: andthen_def read_challenge_eq read_text_eq)

lemma put_or_503_cases:
  assumes "put_or_503 k v op f st = (x, st')"
  shows "(kv st' = kv st \<and> x = Inr (resp_error ''Service Unavailable'' 503)) \<or>
         (\<exists>st1. kv st1 = (kv st)(k := Some v) \<and> f st1 = (x, st'))"
proof -
  obtain y st1 where p: "put_with_retry k v op st = (y, st1)" by fastforce
  from put_with_retry_cases[OF p] assms p show ?thesis
    by (auto simp: put_or_503_def)
qed

lemma delete_two_cases:
  assumes "andthen (st_delete k1) (\<lambda>_. andthen (st_delete k2) (\<lambda>_. ret r)) st = (x, st')"
  shows "kv st' = kv st \<or> kv st' = (kv st)(k1 := None) \<or>
         (kv st' = (kv st)(k1 := None, k2 := None) \<and> x = Inr r)"
  using assms
  by (auto simp: andthen_def st_delete_def split: prod.splits sum.splits if_splits)

subsection \<open>What one request does to the storage\<close>

lemma get_challenge_kv:
  assumes "get_challenge now_ms uuid st = (x, st')"
  shows "kv st' = kv st \<or>
    (\<exists>c. kv st (ch_key uuid) = Some (SChallenge c) \<and> cc_expires_at c \<le> now_secs now_ms \<and>
       (kv st' = (kv st)(ch_key uuid := None) \<or>
        kv st' = (kv st)(ch_key uuid := None, code_key (cc_short_code c) := None)))"
  using assms
  by (auto simp: get_challenge_def andthen_read Let_def slot_challenge_Some_iff
      split: sum.splits option.splits if_splits dest!: delete_two_cases)

lemma get_challenge_by_code_kv:
  assumes "get_challenge_by_code now_ms code st = (x, st')"
  shows "kv st' = kv st \<or>
    (\<exists>uuid c. kv st (code_key code) = Some (SText uuid) \<and>
       kv st (ch_key uuid) = Some (SChallenge c) \<and> cc_expires_at c \<le> now_secs now_ms \<and>
       (kv st' = (kv st)(ch_key uuid := None) \<or>
        kv st' = (kv st)(ch_key uuid := None, code_key (cc_short_code c) := None)))"
  using assms
  by (fastforce simp: get_challenge_by_code_def andthen_read slot_text_Some_iff
      split: sum.splits option.splits if_splits dest!: get_challenge_kv)

definition create_checks :: "do_env \<Rightarrow> string \<Rightarrow> cached_challenge \<Rightarrow> bool" where
  "create_checks env uuid c \<longleftrightarrow>
     validate_challenge_id uuid = Inr () \<and> validate_short_code (cc_short_code c) = Inr () \<and>
     (\<forall>u. de_parse_uuid env uuid = Some u \<longrightarrow> cc_short_code c = generate_short_code_from_uuid u)"

lemma store_new_challenge_kv:
  assumes "store_new_challenge uuid c st = (x, st')"
  shows "kv st' = kv st \<or>
    ((next_fails st \<or> slot_challenge (kv st (ch_key uuid)) = None) \<and>
     (kv st' = (kv st)(ch_key uuid := Some (SChallenge c)) \<or>
      kv st' = (kv st)(ch_key uuid := Some (SChallenge c),
                       code_key (cc_short_code c) := Some (SText uuid))))"
  using assms
  by (auto simp: store_new_challenge_def andthen_read split: if_splits dest!: put_or_503_cases)

lemma create_challenge_kv:
  assumes "create_challenge env uuid req st = (x, st')"
  shows "kv st' = kv st \<or>
    (\<exists>c. create_checks env uuid c \<and>
       (next_fails st \<or> slot_challenge (kv st (ch_key uuid)) = None) \<and>
       (kv st' = (kv st)(ch_key uuid := Some (SChallenge c)) \<or>
        kv st' = (kv st)(ch_key uuid := Some (SChallenge c),
                         code_key (cc_short_code c) := Some (SText uuid))))"
proof -
  from assms have "kv st' = kv st \<or>
    (\<exists>c. create_checks env uuid c \<and> store_new_challenge uuid c st = (x, st'))"
    unfolding create_challenge_def read_body_def
    by (cases "de_parse_uuid env uuid")
      (auto simp: create_checks_def split: sum.splits option.splits if_splits)
  then show ?thesis by (auto dest!: store_new_challenge_kv)
qed

definition admits :: "u64 \<Rightarrow> cached_challenge \<Rightarrow> challenge_update \<Rightarrow> bool" where
  "admits now_ms c u \<longleftrightarrow>
     (now_secs now_ms < cc_expires_at c \<or> is_terminal_state (cu_state u)) \<and>
     is_valid_transition (cc_state c) (cu_state u)"

lemma update_existing_kv:
  assumes "update_existing now_ms uuid c u st = (x, st')"
  shows "kv st' = kv st \<or>
    (admits now_ms c u \<and> kv st' = (kv st)(ch_key uuid := Some (SChallenge (apply_update c u))))"
  using assms
  by (auto simp: update_existing_def admits_def Let_def is_valid_transition_def not_le
      split: if_splits dest!: put_or_503_cases)

lemma update_challenge_kv:
  assumes "update_challenge env now_ms uuid req st = (x, st')"
  shows "kv st' = kv st \<or>
    (\<exists>c u. kv st (ch_key uuid) = Some (SChallenge c) \<and> admits now_ms c u \<and>
       kv st' = (kv st)(ch_key uuid := Some (SChallenge (apply_update c u))))"
proof -
  consider "kv st' = kv st"
    | c u where "kv st (ch_key uuid) = Some (SChallenge c)"
        "update_existing now_ms uuid c u (tick_fault st) = (x, st')"
    using assms
    by (auto simp: update_challenge_def read_body_def andthen_read slot_challenge_Some_iff
        split: sum.splits option.splits if_splits)
  then show ?thesis
  proof cases
    case 2
    from update_existing_kv[OF 2(2)] 2(1) show ?thesis by auto
  qed simp
qed

lemma delete_challenge_kv:
  assumes "delete_challenge uuid st = (x, st')"
  shows "kv st' = kv st \<or>
    (\<exists>c. kv st (ch_key uuid) = Some (SChallenge c) \<and> \<not> evidence_bearing (cc_state c) \<and>
       (kv st' = (kv st)(ch_key uuid := None) \<or>
        kv st' = (kv st)(ch_key uuid := None, code_key (cc_short_code c) := None)))"
  using assms
  by (auto simp: delete_challenge_def andthen_read Let_def slot_challenge_Some_iff
      split: sum.splits option.splits if_splits dest!: delete_two_cases)

end
