(* ===== verification/Challenge_DO_Correct.thy ===== *)
theory Challenge_DO_Correct imports Challenge_DO begin

text \<open>
  What the challenge Durable Object guarantees: the outcome of a retried write, what one
  request may do to a record, what survives any sequence of requests under any pattern of
  storage failures, and the integrity of the short-code index.
\<close>

subsection \<open>Retried writes\<close>

lemma put_loop_outcome:
  "put_loop [1 ..< Suc PUT_MAX_ATTEMPTS] PUT_INITIAL_BACKOFF_MS None [] k v op st =
     (let n = length (takeWhile id (take 3 (faults st))) in
      if n = 3 then ((Inl StorageError, [10, 20]), st\<lparr>faults := drop 3 (faults st)\<rparr>)
      else ((Inr (), take n [10, 20]),
            st\<lparr>faults := drop (n + 1) (faults st), kv := (kv st)(k := Some v)\<rparr>))"
proof -
  have two: "sat_mul 10 (2::u64) = 20" "sat_mul 20 (2::u64) = 40" by (simp_all add: sat_mul_def)
  note defs = st_put_def next_fails_def tick_fault_def PUT_MAX_ATTEMPTS_def
    PUT_INITIAL_BACKOFF_MS_def two
  consider "faults st = []" | r where "faults st = False # r"
    | "faults st = [True]" | r where "faults st = True # False # r"
    | "faults st = [True, True]" | r where "faults st = True # True # False # r"
    | r where "faults st = True # True # True # r"
    by (metis (full_types) list.exhaust)
  then show ?thesis
    unfolding attempts_eq by cases (simp_all add: defs)
qed

text \<open>A retried write makes three attempts, sleeping 10 ms and then 20 ms between them: it
  succeeds, and stores the value, exactly when one of the three does not fail, otherwise it
  reports the storage error and the store is as before.\<close>

theorem put_with_retry_outcome:
  "put_with_retry k v op st =
     (let n = length (takeWhile id (take 3 (faults st))) in
      if n = 3 then (Inl StorageError, st\<lparr>faults := drop 3 (faults st)\<rparr>)
      else (Inr (), st\<lparr>faults := drop (n + 1) (faults st), kv := (kv st)(k := Some v)\<rparr>)) \<and>
   snd (fst (put_loop [1 ..< Suc PUT_MAX_ATTEMPTS] PUT_INITIAL_BACKOFF_MS None [] k v op st)) =
     take (length (takeWhile id (take 3 (faults st)))) [10, 20]"
proof -
  have "length (takeWhile id (take 3 (faults st))) \<le> 3"
    using length_takeWhile_le[of id "take 3 (faults st)"] by simp
  then show ?thesis
    unfolding put_with_retry_def put_loop_outcome by (simp add: Let_def)
qed

subsection \<open>One request\<close>

definition segment :: "nat \<Rightarrow> do_request \<Rightarrow> string" where
  "segment i req = split_on (CHR ''/'') (rq_path req) ! i"

definition create_request :: "do_request \<Rightarrow> bool" where
  "create_request req \<longleftrightarrow> rq_method req = POST \<and>
     3 < length (split_on (CHR ''/'') (rq_path req)) \<and> segment 3 req = ''create''"

text \<open>What may happen to the storage of the object in one request at \<open>now_ms\<close>.\<close>

inductive storage_change ::
    "do_env \<Rightarrow> u64 \<Rightarrow> do_request \<Rightarrow> (string \<Rightarrow> challenge_slot option) \<Rightarrow>
     (string \<Rightarrow> challenge_slot option) \<Rightarrow> bool" for env now_ms req where
  nothing: "storage_change env now_ms req m m"
| expire: "m (ch_key uuid) = Some (SChallenge c) \<Longrightarrow> cc_expires_at c \<le> now_secs now_ms \<Longrightarrow>
     m' = m(ch_key uuid := None) \<or> m' = m(ch_key uuid := None, code_key (cc_short_code c) := None) \<Longrightarrow>
     storage_change env now_ms req m m'"
| create: "create_request req \<Longrightarrow> create_checks env uuid c \<Longrightarrow>
     m' = m(ch_key uuid := Some (SChallenge c)) \<or>
     m' = m(ch_key uuid := Some (SChallenge c), code_key (cc_short_code c) := Some (SText uuid)) \<Longrightarrow>
     storage_change env now_ms req m m'"
| update: "m (ch_key uuid) = Some (SChallenge c) \<Longrightarrow> admits now_ms c u \<Longrightarrow>
     m' = m(ch_key uuid := Some (SChallenge (apply_update c u))) \<Longrightarrow>
     storage_change env now_ms req m m'"
| remove: "m (ch_key uuid) = Some (SChallenge c) \<Longrightarrow> \<not> evidence_bearing (cc_state c) \<Longrightarrow>
     m' = m(ch_key uuid := None) \<or> m' = m(ch_key uuid := None, code_key (cc_short_code c) := None) \<Longrightarrow>
     storage_change env now_ms req m m'"

inductive_cases storage_changeE: "storage_change env now_ms req m m'"

lemma fetch_change:
  assumes "challenge_fetch env now_ms req st = (x, st')"
  shows "storage_change env now_ms req (kv st) (kv st')"
proof -
  let ?i = "segment 2 req"
  from assms consider "kv st' = kv st"
    | "get_challenge_by_code now_ms ?i st = (x, st')"
    | "get_challenge now_ms ?i st = (x, st')"
    | "create_request req" "create_challenge env ?i req st = (x, st')"
    | "update_challenge env now_ms ?i req st = (x, st')"
    | "delete_challenge ?i st = (x, st')"
    by (auto simp: challenge_fetch_def segment_def create_request_def Let_def
        split: if_splits http_method.splits)
  then show ?thesis
  proof cases
    case 1
    then show ?thesis by (simp add: storage_change.nothing)
  next
    case 2
    from get_challenge_by_code_kv[OF this] show ?thesis
      by (metis storage_change.nothing storage_change.expire)
  next
    case 3
    from get_challenge_kv[OF this] show ?thesis
      by (metis storage_change.nothing storage_change.expire)
  next
    case 4
    from create_challenge_kv[OF 4(2)] 4(1) show ?thesis
      by (metis storage_change.nothing storage_change.create)
  next
    case 5
    from update_challenge_kv[OF this] show ?thesis
      by (metis storage_change.nothing storage_change.update)
  next
    case 6
    from delete_challenge_kv[OF this] show ?thesis
      by (metis storage_change.nothing storage_change.remove)
  qed
qed

text \<open>A create cannot touch a record that exists, as long as the read of it does not fail.\<close>

lemma fetch_create_absent:
  assumes "challenge_fetch env now_ms req st = (x, st')" "\<not> next_fails st" "create_request req"
    and "kv st (ch_key uuid) = Some (SChallenge c)"
  shows "kv st' (ch_key uuid) = Some (SChallenge c)"
proof -
  have f: "create_challenge env (segment 2 req) req st = (x, st') \<or> kv st' = kv st"
    using assms(1,3)
    by (auto simp: challenge_fetch_def create_request_def segment_def Let_def split: if_splits)
  then show ?thesis
    using assms(2,4) by (auto dest!: create_challenge_kv)
qed

subsection \<open>The lineage of a record\<close>

text \<open>A later version of a record: same immutable fields, a state reached by legal
  transitions, and a submit secret that is untouched or wiped, and wiped once the record has
  left Pending.\<close>

definition lineage :: "cached_challenge \<Rightarrow> cached_challenge \<Rightarrow> bool" where
  "lineage c c' \<longleftrightarrow> immutable_part c' = immutable_part c \<and>
     is_valid_transition\<^sup>*\<^sup>* (cc_state c) (cc_state c') \<and>
     (cc_submit_secret c' = cc_submit_secret c \<or> cc_submit_secret c' = []) \<and>
     (cc_state c = Pending \<and> cc_state c' \<noteq> Pending \<longrightarrow> cc_submit_secret c' = [])"

lemma lineage_refl: "lineage c c"
  by (simp add: lineage_def)

lemma lineage_trans: "lineage a b \<Longrightarrow> lineage b c \<Longrightarrow> lineage a c"
  by (auto simp: lineage_def dest: rtranclp_trans)

lemma immutable_part_simps:
  "immutable_part c = immutable_part d \<Longrightarrow>
     cc_short_code c = cc_short_code d \<and> cc_origin c = cc_origin d \<and>
     cc_expires_at c = cc_expires_at d \<and> cc_code_challenge_bytes c = cc_code_challenge_bytes d \<and>
     cc_client_id c = cc_client_id d \<and> cc_tenant_id c = cc_tenant_id d"
  by (cases c; cases d) (simp add: immutable_part_def)

lemma apply_update_state [simp]: "cc_state (apply_update c u) = cu_state u"
  by (auto simp: apply_update_def Let_def split: option.split)

lemma apply_update_immutable [simp]: "immutable_part (apply_update c u) = immutable_part c"
  by (auto simp: apply_update_def immutable_part_def Let_def split: option.split)

lemma apply_update_secret:
  "cc_submit_secret (apply_update c u) =
     (if cc_state c = Pending \<and> cu_state u \<noteq> Pending then [] else cc_submit_secret c)"
  by (auto simp: apply_update_def Let_def split: option.split)

lemma apply_update_short_code [simp]: "cc_short_code (apply_update c u) = cc_short_code c"
  using immutable_part_simps[OF apply_update_immutable] by simp

lemma apply_update_lineage: "admits now_ms c u \<Longrightarrow> lineage c (apply_update c u)"
  by (auto simp: lineage_def apply_update_secret admits_def)

text \<open>What a slot holds when the record \<open>c\<close> was once there.\<close>

definition follows :: "cached_challenge \<Rightarrow> challenge_slot option \<Rightarrow> bool" where
  "follows c v = (case v of None \<Rightarrow> True | Some (SChallenge c') \<Rightarrow> lineage c c' | Some (SText _) \<Rightarrow> False)"

lemma follows_simps [simp]:
  "follows c None" "follows c (Some (SChallenge c')) \<longleftrightarrow> lineage c c'" "\<not> follows c (Some (SText t))"
  by (simp_all add: follows_def)

lemma follows_cases:
  "follows c v \<longleftrightarrow> v = None \<or> (\<exists>c'. v = Some (SChallenge c') \<and> lineage c c')"
  by (auto simp: follows_def split: option.split challenge_slot.split)

lemma follows_update:
  "lineage c d \<Longrightarrow> admits n d u \<Longrightarrow> lineage c (apply_update d u)"
  by (auto dest: apply_update_lineage lineage_trans)

lemma change_follows:
  assumes "storage_change env now_ms req m m'" "\<not> create_request req" "follows c (m (ch_key uuid))"
  shows "follows c (m' (ch_key uuid))"
  using assms
  by (cases rule: storage_changeE) (auto simp: follows_update[where n = now_ms])

lemma lineage_verified:
  "lineage c c' \<Longrightarrow> cc_state c = Verified \<Longrightarrow> cc_state c' = Verified \<and> cc_expires_at c' = cc_expires_at c"
  by (auto simp: lineage_def is_terminal_state_def dest!: challenge.terminal_reach[rotated] immutable_part_simps)

lemma change_verified:
  assumes "storage_change env now_ms req m m'" "\<not> create_request req"
    and "m (ch_key uuid) = Some (SChallenge c)" "cc_state c = Verified"
    and "now_secs now_ms < cc_expires_at c"
  shows "m' (ch_key uuid) \<noteq> None"
  using assms
  by (cases rule: storage_changeE) (auto simp: evidence_bearing_def)

subsection \<open>Runs\<close>

fun do_run :: "do_env \<Rightarrow> (u64 \<times> do_request) list \<Rightarrow> challenge_storage \<Rightarrow> challenge_storage" where
  "do_run env [] st = st"
| "do_run env ((now_ms, req) # reqs) st = do_run env reqs (snd (challenge_fetch env now_ms req st))"

lemma run_follows:
  assumes "kv st (ch_key uuid) = Some (SChallenge c)"
    and "list_all (\<lambda>(now_ms, req). \<not> create_request req) reqs"
  shows "follows c (kv (do_run env reqs st) (ch_key uuid))"
proof -
  have "follows c (kv (do_run env reqs st) (ch_key uuid))"
    if "follows c (kv st (ch_key uuid))" for st :: challenge_storage
    using assms(2) that
  proof (induction reqs arbitrary: st)
    case (Cons a reqs)
    obtain now_ms req where a: "a = (now_ms, req)" by fastforce
    obtain x st1 where f: "challenge_fetch env now_ms req st = (x, st1)" by fastforce
    have "follows c (kv st1 (ch_key uuid))"
      using change_follows[OF fetch_change[OF f]] Cons.prems a by simp
    with Cons.IH[of st1] Cons.prems(1) show ?case by (simp add: a f)
  qed simp
  then show ?thesis by (simp add: assms(1) lineage_refl)
qed

text \<open>C25 Whatever requests other than creations reach the object, at whatever times and however
  its storage fails, a challenge is either gone or still the same challenge: its identifiers,
  origin, PKCE challenge, expiry, policy and billing fields are what they were, its state has
  only moved along legal transitions, and its submit secret is untouched or wiped, and wiped
  for good once the challenge has left Pending.\<close>

theorem challenge_lineage_preserved:
  assumes "kv st (ch_key uuid) = Some (SChallenge c)"
    and "list_all (\<lambda>(now_ms, req). \<not> create_request req) reqs"
  shows "follows c (kv (do_run env reqs st) (ch_key uuid))"
  by (rule run_follows[OF assms])

text \<open>Storage without failures stays so.\<close>

definition quiet :: "'v storage \<Rightarrow> 'v storage \<Rightarrow> bool" where
  "quiet st st' \<longleftrightarrow> (faults st = [] \<longrightarrow> faults st' = [])"

lemma quiet_rel: "reflp quiet" "transp quiet"
  by (auto simp: reflp_def transp_def quiet_def)

lemma quiet_ops: "keeps quiet (st_delete k)" "keeps quiet (read_challenge k)" "keeps quiet (read_text k)"
  "keeps quiet (read_body req)"
  by (auto simp: keeps_def quiet_def st_delete_def read_challenge_eq read_text_eq read_body_def
      split: if_splits option.splits)

lemma quiet_put: "keeps quiet f \<Longrightarrow> keeps quiet (put_or_503 k v op f)"
  unfolding keeps_def quiet_def
  by (auto simp: put_or_503_def put_with_retry_nofault)

lemmas quiet_intros = quiet_ops quiet_put keeps_andthen[OF quiet_rel(2)]
  keeps_ret[OF quiet_rel(1)] keeps_stop[OF quiet_rel(1)]

lemma quiet_get: "keeps quiet (get_challenge n uuid)" "keeps quiet (get_challenge_by_code n code)"
proof -
  show *: "keeps quiet (get_challenge n uuid)" for uuid
    unfolding get_challenge_def Let_def
    by (auto intro!: quiet_intros split: sum.split option.split)
  show "keeps quiet (get_challenge_by_code n code)"
    unfolding get_challenge_by_code_def Let_def
    by (auto intro!: quiet_intros * split: sum.split option.split)
qed

lemma quiet_create: "keeps quiet (create_challenge env uuid req)"
  unfolding create_challenge_def store_new_challenge_def
  by (auto intro!: quiet_intros split: sum.split option.split)

lemma quiet_update: "keeps quiet (update_challenge env n uuid req)"
  unfolding update_challenge_def update_existing_def Let_def
  by (auto intro!: quiet_intros split: sum.split option.split)

lemma quiet_delete: "keeps quiet (delete_challenge uuid)"
  unfolding delete_challenge_def Let_def
  by (auto intro!: quiet_intros split: sum.split option.split)

lemmas quiet_handlers = quiet_get quiet_create quiet_update quiet_delete

lemma fetch_quiet: "challenge_fetch env n req st = (x, st') \<Longrightarrow> faults st = [] \<Longrightarrow> faults st' = []"
proof -
  have "keeps quiet (challenge_fetch env n req)"
    unfolding challenge_fetch_def Let_def
    by (auto intro!: quiet_handlers keeps_ret[OF quiet_rel(1)] split: http_method.split)
  then show "challenge_fetch env n req st = (x, st') \<Longrightarrow> faults st = [] \<Longrightarrow> faults st' = []"
    by (auto simp: quiet_def dest: keepsD)
qed

text \<open>A challenge, an environment whose parsers always answer it, and requests, for the
  instances below.\<close>

definition sample_id :: string where "sample_id = ''550e8400-e29b-41d4-a716-446655440000''"

definition sample_challenge :: cached_challenge where
  "sample_challenge = \<lparr>cc_id = replicate 16 0, cc_short_code = ''000000000000'',
     cc_rp_challenge = replicate 32 1, cc_cutoff_days = 13514, cc_verifying_key_id = 1,
     cc_code_challenge = ''c'', cc_code_challenge_bytes = replicate 32 2,
     cc_submit_secret = replicate 32 3, cc_origin = ''https://rp.example'', cc_expires_at = 1300,
     cc_created_at = 1000, cc_state = Pending, cc_proof_submitted = False, cc_verified_at = None,
     cc_proof_verified_at = None, cc_issuer_kid = None, cc_issuer_vk_bytes = None,
     cc_client_id = None, cc_tenant_id = None, cc_proof_direction = OverAge\<rparr>"

definition sample_update :: "challenge_state \<Rightarrow> challenge_update" where
  "sample_update s = \<lparr>cu_state = s, cu_proof_submitted = Some True, cu_proof_verified_at = Some 1100,
     cu_verified_at = None, cu_issuer_kid = Some ''kid'', cu_issuer_vk_bytes = None\<rparr>"

definition sample_env :: "challenge_state \<Rightarrow> do_env" where
  "sample_env s = \<lparr>de_parse_challenge = (\<lambda>_. Inr sample_challenge),
     de_parse_update = (\<lambda>_. Inr (sample_update s)), de_parse_uuid = (\<lambda>_. Some (replicate 16 0))\<rparr>"

definition sample_request :: "http_method \<Rightarrow> string \<Rightarrow> do_request" where
  "sample_request m action =
     \<lparr>rq_path = ''/challenge/'' @ sample_id @ action, rq_method = m, rq_body = Some []\<rparr>"

definition sample_store :: "challenge_state \<Rightarrow> bool list \<Rightarrow> challenge_storage" where
  "sample_store s fs = \<lparr>kv = [ch_key sample_id \<mapsto> SChallenge (sample_challenge\<lparr>cc_state := s\<rparr>)],
     alarm_at = None, faults = fs\<rparr>"

lemma sample_simps [simp]:
  "kv (sample_store s fs) (ch_key sample_id) = Some (SChallenge (sample_challenge\<lparr>cc_state := s\<rparr>))"
  "faults (sample_store s fs) = fs" "cc_expires_at sample_challenge = 1300"
  "\<not> create_request (sample_request DELETE a)" "\<not> create_request (sample_request GET a)"
  by (simp_all add: sample_store_def sample_challenge_def sample_request_def create_request_def)

lemma sample_create: "create_request (sample_request POST ''/create'')"
  "\<not> create_request (sample_request POST ''/update'')"
  by (simp_all add: sample_request_def create_request_def segment_def sample_id_def)

lemma challenge_lineage_preserved_witness:
  "follows sample_challenge (kv (do_run (sample_env Verified)
     [(1050000, sample_request POST ''/update''), (1400000, sample_request GET [])]
     (sample_store Pending [True, False, True])) (ch_key sample_id))"
proof (rule challenge_lineage_preserved)
  show "kv (sample_store Pending [True, False, True]) (ch_key sample_id) = Some (SChallenge sample_challenge)"
    by (simp add: sample_challenge_def)
qed (simp add: sample_create)

lemma run_verified:
  assumes "kv st (ch_key uuid) = Some (SChallenge c)" "cc_state c = Verified"
    and "faults st = [] \<or> list_all (\<lambda>(now_ms, req). \<not> create_request req) reqs"
    and "list_all (\<lambda>(now_ms, req). now_secs now_ms < cc_expires_at c) reqs"
  shows "\<exists>c'. kv (do_run env reqs st) (ch_key uuid) = Some (SChallenge c') \<and>
              cc_state c' = Verified \<and> immutable_part c' = immutable_part c"
proof -
  have "\<exists>c'. kv (do_run env reqs st) (ch_key uuid) = Some (SChallenge c') \<and> lineage c c'"
    if "kv st (ch_key uuid) = Some (SChallenge d)" "lineage c d"
       "faults st = [] \<or> list_all (\<lambda>(now_ms, req). \<not> create_request req) reqs"
    for st :: challenge_storage and d
    using assms(4) that
  proof (induction reqs arbitrary: st d)
    case (Cons a reqs)
    obtain now_ms req where a: "a = (now_ms, req)" by fastforce
    obtain x st1 where f: "challenge_fetch env now_ms req st = (x, st1)" by fastforce
    note ch = fetch_change[OF f]
    have v: "cc_state d = Verified" "now_secs now_ms < cc_expires_at d"
      using lineage_verified[OF Cons.prems(3) assms(2)] Cons.prems(1) a by simp_all
    have "\<exists>c'. kv st1 (ch_key uuid) = Some (SChallenge c') \<and> lineage c c'"
    proof (cases "create_request req")
      case True
      then have "\<not> next_fails st" using Cons.prems(4) a by auto
      from fetch_create_absent[OF f this True Cons.prems(2)] Cons.prems(3) show ?thesis by blast
    next
      case False
      from change_verified[OF ch False Cons.prems(2) v]
        change_follows[OF ch False, of c uuid] Cons.prems(2,3)
      show ?thesis by (auto simp: follows_cases)
    qed
    moreover have "faults st1 = [] \<or> list_all (\<lambda>(now_ms, req). \<not> create_request req) reqs"
      using Cons.prems(4) fetch_quiet[OF f] by auto
    ultimately show ?case using Cons.IH Cons.prems(1) by (auto simp: a f)
  qed simp
  from this[OF assms(1) lineage_refl assms(3)] obtain c' where
    c': "kv (do_run env reqs st) (ch_key uuid) = Some (SChallenge c')" "lineage c c'" by blast
  with lineage_verified[OF c'(2) assms(2)] show ?thesis by (simp add: lineage_def)
qed

text \<open>C24 A redeemed challenge is evidence: until it expires, no sequence of requests to its object
  removes its record, changes its state from Verified or changes the fields that are fixed at its creation
  (all but the submit secret, the times and the issuer of the verification), so the same challenge cannot be
  redeemed or started over.  That is proved for requests of every kind, creations and deletions included,
  while the object's storage does not fail, and for requests of every kind but creations under any storage
  failures.  A creation whose read fails does overwrite the record (\<open>create_overwrites_on_failed_read\<close>).\<close>

theorem verified_survives:
  assumes "kv st (ch_key uuid) = Some (SChallenge c)" "cc_state c = Verified"
    and "faults st = [] \<or> list_all (\<lambda>(now_ms, req). \<not> create_request req) reqs"
    and "list_all (\<lambda>(now_ms, req). now_secs now_ms < cc_expires_at c) reqs"
  shows "\<exists>c'. kv (do_run env reqs st) (ch_key uuid) = Some (SChallenge c') \<and>
              cc_state c' = Verified \<and> immutable_part c' = immutable_part c"
  by (rule run_verified[OF assms])

lemma verified_survives_witness:
  "\<exists>c'. kv (do_run (sample_env Failed)
     [(1050000, sample_request POST ''/create''), (1200000, sample_request DELETE []),
      (1299999, sample_request POST ''/update'')] (sample_store Verified [])) (ch_key sample_id) =
       Some (SChallenge c') \<and> cc_state c' = Verified"
proof -
  have t: "now_secs 1050000 = 1050" "now_secs 1200000 = 1200" "now_secs 1299999 = 1299"
    by (simp_all add: now_secs_def secs_of_millis_def)
  have 1: "kv (sample_store Verified []) (ch_key sample_id) =
      Some (SChallenge (sample_challenge\<lparr>cc_state := Verified\<rparr>))" by simp
  show ?thesis
    using verified_survives[OF 1, of "[(1050000, sample_request POST ''/create''),
      (1200000, sample_request DELETE []), (1299999, sample_request POST ''/update'')]" "sample_env Failed"]
    by (auto simp: t)
qed

subsection \<open>Updates, deletions and expiry\<close>

definition write_fails :: "'v storage \<Rightarrow> bool" where
  "write_fails st \<longleftrightarrow> take 3 (faults st) = [True, True, True]"

lemma take3_cases: "length (takeWhile id (take 3 xs)) = 3 \<longleftrightarrow> take 3 xs = [True, True, True]"
  for xs :: "bool list"
proof -
  consider "xs = []" | a where "xs = [a]" | a b where "xs = [a, b]" | a b c r where "xs = a # b # c # r"
    by (metis list.exhaust)
  then show ?thesis by cases auto
qed

lemma put_with_retry_result:
  "put_with_retry k v op st = (if write_fails st
     then (Inl StorageError, st\<lparr>faults := drop 3 (faults st)\<rparr>)
     else (Inr (), st\<lparr>faults := drop (length (takeWhile id (take 3 (faults st))) + 1) (faults st),
                     kv := (kv st)(k := Some v)\<rparr>))"
  unfolding put_with_retry_def put_loop_outcome by (simp add: write_fails_def take3_cases Let_def)

lemma put_or_503_result:
  "\<exists>st'. put_or_503 k v op (ret r) st =
     (Inr (if write_fails st then resp_error ''Service Unavailable'' 503 else r), st') \<and>
     kv st' = (if write_fails st then kv st else (kv st)(k := Some v))"
  by (simp add: put_or_503_def put_with_retry_result)

text \<open>What an update of a stored challenge answers and does: 410 and nothing when the
  challenge has expired and the new state is not terminal, 409 and nothing when the transition
  is illegal, 503 and nothing when the three write attempts fail, and otherwise 200 with the
  merged record stored and one transition event exactly when the state changes.\<close>

theorem update_challenge_outcome:
  assumes "validate_challenge_id uuid = Inr ()" "rq_body req = Some b" "length b \<le> MAX_DO_BODY_SIZE"
    and "\<not> next_fails st" "kv st (ch_key uuid) = Some (SChallenge c)" "de_parse_update env b = Inr u"
  shows "\<exists>r st'. update_challenge env now_ms uuid req st = (Inr r, st') \<and>
    dr_status r =
      (if cc_expires_at c \<le> now_secs now_ms \<and> \<not> is_terminal_state (cu_state u) then 410
       else if \<not> is_valid_transition (cc_state c) (cu_state u) then 409
       else if write_fails (tick_fault st) then 503 else 200) \<and>
    kv st' = (if dr_status r = 200 then (kv st)(ch_key uuid := Some (SChallenge (apply_update c u)))
              else kv st) \<and>
    (dr_status r = 200 \<longrightarrow> dr_body r = Envelope ''result'' ''updated''
       (if cc_state c = cu_state u then [] else [transition_event uuid c (cu_state u)]))"
proof -
  have eq: "update_challenge env now_ms uuid req st = update_existing now_ms uuid c u (tick_fault st)"
    using assms by (simp add: update_challenge_def read_body_def andthen_read not_less)
  let ?ev = "if cc_state c \<noteq> cu_state u then [transition_event uuid c (cu_state u)] else []"
  obtain st' where p: "put_or_503 (ch_key uuid) (SChallenge (apply_update c u)) ''update_challenge_record''
      (ret (resp_json 200 (Envelope ''result'' ''updated'' ?ev))) (tick_fault st) =
     (Inr (if write_fails (tick_fault st) then resp_error ''Service Unavailable'' 503
           else resp_json 200 (Envelope ''result'' ''updated'' ?ev)), st')"
    and kv: "kv st' = (if write_fails (tick_fault st) then kv st
              else (kv st)(ch_key uuid := Some (SChallenge (apply_update c u))))"
    using put_or_503_result[of "ch_key uuid" "SChallenge (apply_update c u)"
        "''update_challenge_record''" "resp_json 200 (Envelope ''result'' ''updated'' ?ev)" "tick_fault st"]
    by auto
  have ne: "cc_state c \<noteq> cu_state u" if "\<not> is_valid_transition (cc_state c) (cu_state u)"
    using that by (auto simp: is_valid_transition_def)
  consider (exp) "cc_expires_at c \<le> now_secs now_ms" "\<not> is_terminal_state (cu_state u)"
    | (bad) "\<not> (cc_expires_at c \<le> now_secs now_ms \<and> \<not> is_terminal_state (cu_state u))"
        "\<not> is_valid_transition (cc_state c) (cu_state u)"
    | (ok) "\<not> (cc_expires_at c \<le> now_secs now_ms \<and> \<not> is_terminal_state (cu_state u))"
        "is_valid_transition (cc_state c) (cu_state u)" by blast
  then show ?thesis
  proof cases
    case exp
    then show ?thesis by (simp add: eq update_existing_def resp_error_def)
  next
    case bad
    then show ?thesis using ne by (simp add: eq update_existing_def resp_json_def resp_error_def)
  next
    case ok
    then have "update_existing now_ms uuid c u (tick_fault st) =
       (Inr (if write_fails (tick_fault st) then resp_error ''Service Unavailable'' 503
           else resp_json 200 (Envelope ''result'' ''updated'' ?ev)), st')"
      unfolding update_existing_def Let_def using p by auto
    with ok kv show ?thesis by (simp add: eq resp_error_def resp_json_def)
  qed
qed

lemma sample_id_valid: "validate_challenge_id sample_id = Inr ()"
  by (simp add: validate_challenge_id_def validate_uuid_format_def sample_id_def expected_hyphens_def
      byte_at_def is_ascii_hexdigit_def is_ascii_digit_def Let_def)

lemma update_challenge_outcome_witness:
  "\<exists>r st'. update_challenge (sample_env Verified) 1100000 sample_id
      (sample_request POST ''/update'') (sample_store Pending []) = (Inr r, st') \<and> dr_status r = 409"
  using update_challenge_outcome[OF sample_id_valid, of "sample_request POST ''/update''" "[]"
      "sample_store Pending []" "sample_challenge\<lparr>cc_state := Pending\<rparr>" "sample_env Verified"
      "sample_update Verified" 1100000]
  by (auto simp: sample_request_def MAX_DO_BODY_SIZE_def sample_env_def sample_update_def
      is_terminal_state_def is_valid_transition_def)

text \<open>A read by UUID serves a challenge only while it is unexpired; the first read at or after
  its expiry answers 410 with the audit event and deletes both the record and its short-code
  entry, so that a second read finds nothing.\<close>

theorem expired_challenge_purged:
  assumes "validate_challenge_id uuid = Inr ()" "faults st = []"
    and "kv st (ch_key uuid) = Some (SChallenge c)"
  shows "if now_secs now_ms < cc_expires_at c
    then get_challenge now_ms uuid st = (Inr (resp_json 200 (ChallengeBody c)), st)
    else \<exists>st'. get_challenge now_ms uuid st =
           (Inr (resp_json 410 (Envelope ''error'' ''Challenge expired''
                   [expired_event uuid c (now_secs now_ms)])), st') \<and>
         kv st' = (kv st)(ch_key uuid := None, code_key (cc_short_code c) := None) \<and>
         fst (get_challenge now_ms uuid st') = Inr (resp_error ''Not found'' 404)"
proof -
  have t: "tick_fault st = st" using assms(2) by (simp add: tick_fault_def)
  show ?thesis
    using assms
    by (simp add: get_challenge_def andthen_read Let_def t st_delete_def andthen_def ret_def
        tick_fault_def next_fails_def read_challenge_eq)
qed

lemma expired_challenge_purged_witness:
  "\<exists>st'. get_challenge 1300000 sample_id (sample_store Verified []) =
     (Inr (resp_json 410 (Envelope ''error'' ''Challenge expired''
       [expired_event sample_id (sample_challenge\<lparr>cc_state := Verified\<rparr>) 1300])), st') \<and>
     fst (get_challenge 1300000 sample_id st') = Inr (resp_error ''Not found'' 404)"
proof -
  have n: "now_secs 1300000 = 1300" by (simp add: now_secs_def secs_of_millis_def)
  show ?thesis
    using expired_challenge_purged[OF sample_id_valid, of "sample_store Verified []"
        "sample_challenge\<lparr>cc_state := Verified\<rparr>" 1300000]
    by (auto simp: n)
qed

subsection \<open>The short-code index\<close>

definition derived_code :: "do_env \<Rightarrow> string \<Rightarrow> string option" where
  "derived_code env uuid = map_option generate_short_code_from_uuid (de_parse_uuid env uuid)"

text \<open>What \<open>uuid::Uuid::parse_str\<close> documents: it parses the hyphenated form.\<close>

definition uuid_law :: "do_env \<Rightarrow> bool" where
  "uuid_law env \<longleftrightarrow> (\<forall>s. validate_challenge_id s = Inr () \<longrightarrow> de_parse_uuid env s \<noteq> None)"

definition index_ok :: "do_env \<Rightarrow> (string \<Rightarrow> challenge_slot option) \<Rightarrow> bool" where
  "index_ok env m \<longleftrightarrow>
     (\<forall>uuid c. m (ch_key uuid) = Some (SChallenge c) \<longrightarrow> derived_code env uuid = Some (cc_short_code c)) \<and>
     (\<forall>code u. m (code_key code) = Some (SText u) \<longrightarrow> derived_code env u = Some code)"

lemma create_checks_derived:
  "uuid_law env \<Longrightarrow> create_checks env uuid c \<Longrightarrow> derived_code env uuid = Some (cc_short_code c)"
  by (auto simp: uuid_law_def create_checks_def derived_code_def)

lemma change_index:
  assumes "storage_change env now_ms req m m'" "uuid_law env" "index_ok env m"
  shows "index_ok env m'"
  using assms(1)
proof (cases rule: storage_change.cases)
  case (create uuid c)
  from create_checks_derived[OF assms(2) create(2)] create(3) assms(3) show ?thesis
    by (auto simp: index_ok_def split: if_splits)
next
  case (update uuid c u)
  then show ?thesis using assms(3) by (auto simp: index_ok_def split: if_splits)
qed (use assms(3) in \<open>auto simp: index_ok_def split: if_splits\<close>)

lemma run_index:
  "uuid_law env \<Longrightarrow> index_ok env (kv st) \<Longrightarrow> index_ok env (kv (do_run env reqs st))"
proof (induction reqs arbitrary: st)
  case (Cons a reqs)
  obtain now_ms req where a: "a = (now_ms, req)" by fastforce
  obtain x st1 where f: "challenge_fetch env now_ms req st = (x, st1)" by fastforce
  from change_index[OF fetch_change[OF f]] Cons show ?case by (simp add: a f)
qed simp

lemma get_serves:
  assumes "get_challenge now_ms uuid st = (Inr r, st')" "dr_body r = ChallengeBody c"
  shows "kv st (ch_key uuid) = Some (SChallenge c) \<and> now_secs now_ms < cc_expires_at c \<and> dr_status r = 200"
proof (cases "validate_challenge_id uuid")
  case (Inl e)
  with assms show ?thesis by (auto simp: get_challenge_def resp_error_def)
next
  case (Inr u)
  show ?thesis
  proof (cases "slot_challenge (if next_fails st then None else kv st (ch_key uuid))")
    case None
    with Inr assms show ?thesis
      by (auto simp: get_challenge_def andthen_read Let_def resp_error_def)
  next
    case (Some d)
    then have d: "kv st (ch_key uuid) = Some (SChallenge d)"
      by (auto simp: slot_challenge_Some_iff split: if_splits)
    with Inr Some assms show ?thesis
      by (cases "now_secs now_ms < cc_expires_at d")
        (auto simp: get_challenge_def andthen_read Let_def resp_json_def andthen_Inr_iff)
  qed
qed

lemma get_by_code_serves:
  assumes "get_challenge_by_code now_ms code st = (Inr r, st')" "dr_body r = ChallengeBody c"
  shows "\<exists>u st1. kv st (code_key code) = Some (SText u) \<and> kv st1 = kv st \<and>
           get_challenge now_ms u st1 = (Inr r, st')"
proof (cases "validate_short_code code")
  case (Inl e)
  with assms show ?thesis by (auto simp: get_challenge_by_code_def resp_error_def)
next
  case (Inr x)
  show ?thesis
  proof (cases "slot_text (if next_fails st then None else kv st (code_key code))")
    case None
    with Inr assms show ?thesis
      by (auto simp: get_challenge_by_code_def andthen_read resp_error_def)
  next
    case (Some u)
    then have "kv st (code_key code) = Some (SText u)"
      by (auto simp: slot_text_Some_iff split: if_splits)
    moreover have "get_challenge now_ms u (tick_fault st) = (Inr r, st')"
      using Inr Some assms by (simp add: get_challenge_by_code_def andthen_read)
    ultimately show ?thesis by (intro exI[of _ u] exI[of _ "tick_fault st"]) simp
  qed
qed

text \<open>Starting from empty storage, and whatever requests and storage failures came before, a
  lookup by short code that serves a challenge serves one whose own short code is the one
  asked for and which has not expired: the reverse index never aliases two challenges.\<close>

theorem code_lookup_correct:
  assumes "uuid_law env" "kv st = (\<lambda>_. None)"
    and "get_challenge_by_code now_ms code (do_run env reqs st) = (Inr r, st')"
    and "dr_body r = ChallengeBody c"
  shows "cc_short_code c = code \<and> now_secs now_ms < cc_expires_at c \<and> dr_status r = 200"
proof -
  let ?st = "do_run env reqs st"
  have "index_ok env (kv st)" unfolding assms(2) by (simp add: index_ok_def)
  then have ix: "index_ok env (kv ?st)" by (rule run_index[OF assms(1)])
  from get_by_code_serves[OF assms(3,4)] obtain u st1 where u: "kv ?st (code_key code) = Some (SText u)"
      "kv st1 = kv ?st" "get_challenge now_ms u st1 = (Inr r, st')" by blast
  note c = get_serves[OF u(3) assms(4), unfolded u(2)]
  with ix u(1) show ?thesis unfolding index_ok_def by (metis option.inject)
qed

text \<open>A challenge that was just created is found: after a creation answered \<open>created\<close> over a
  free UUID, a read by UUID and a read by short code both serve exactly the challenge that was
  sent, until it expires.\<close>

theorem create_then_lookup:
  assumes "faults st = []" "slot_challenge (kv st (ch_key uuid)) = None"
    and "validate_challenge_id uuid = Inr ()" "rq_body req = Some b" "length b \<le> MAX_DO_BODY_SIZE"
    and "de_parse_challenge env b = Inr c" "de_parse_uuid env uuid = Some u"
    and "cc_short_code c = generate_short_code_from_uuid u" "now_secs now_ms < cc_expires_at c"
  shows "\<exists>st'. create_challenge env uuid req st = (Inr (resp_ok ''created''), st') \<and>
    fst (get_challenge now_ms uuid st') = Inr (resp_json 200 (ChallengeBody c)) \<and>
    fst (get_challenge_by_code now_ms (cc_short_code c) st') = Inr (resp_json 200 (ChallengeBody c))"
proof -
  have t: "tick_fault st = st" using assms(1) by (simp add: tick_fault_def)
  have nf: "\<not> next_fails st" using assms(1) by simp
  let ?m = "(kv st)(ch_key uuid := Some (SChallenge c), code_key (cc_short_code c) := Some (SText uuid))"
  have "store_new_challenge uuid c st = (Inr (resp_ok ''created''), st\<lparr>kv := ?m\<rparr>)"
    using assms(1,2) nf
    by (simp add: store_new_challenge_def andthen_read t put_or_503_def put_with_retry_nofault
        next_fails_def tick_fault_def ret_def)
  then have c: "create_challenge env uuid req st = (Inr (resp_ok ''created''), st\<lparr>kv := ?m\<rparr>)"
    using assms by (simp add: create_challenge_def read_body_def not_less generated_code_valid)
  have nf': "\<not> next_fails (st\<lparr>kv := ?m\<rparr>)" using nf by (simp add: next_fails_def)
  have g: "fst (get_challenge now_ms uuid st2) = Inr (resp_json 200 (ChallengeBody c))"
    if "kv st2 = ?m" "\<not> next_fails st2" for st2
    using that assms(3,9) by (simp add: get_challenge_def andthen_read ret_def Let_def)
  have "\<not> next_fails (tick_fault (st\<lparr>kv := ?m\<rparr>))" using assms(1) by (simp add: next_fails_def)
  then have "fst (get_challenge_by_code now_ms (cc_short_code c) (st\<lparr>kv := ?m\<rparr>)) =
      Inr (resp_json 200 (ChallengeBody c))"
    using nf' g[of "tick_fault (st\<lparr>kv := ?m\<rparr>)"]
    by (simp add: get_challenge_by_code_def andthen_read assms(8) generated_code_valid)
  with c g[OF _ nf'] show ?thesis by simp
qed

lemma sample_code: "generate_short_code_from_uuid (replicate 16 0) = ''000000000000''"
proof -
  have "from_be_bytes [0, 0, 0, 0, 0, 0, 0, 0] = 0" by (simp add: from_be_bytes_def)
  moreover have "show_padded 12 0 = ''000000000000''"
    by code_simp
  ultimately show ?thesis
    by (simp add: generate_short_code_from_uuid_def Let_def)
qed

lemma sample_env_simps [simp]:
  "de_parse_challenge (sample_env s) b = Inr sample_challenge"
  "de_parse_update (sample_env s) b = Inr (sample_update s)"
  "de_parse_uuid (sample_env s) t = Some (replicate 16 0)"
  "rq_body (sample_request m a) = Some []" "rq_method (sample_request m a) = m"
  by (simp_all add: sample_env_def sample_request_def)

lemma empty_storage_simps [simp]:
  "kv empty_storage k = None" "faults empty_storage = []" "tick_fault empty_storage = empty_storage"
  by (simp_all add: empty_storage_def tick_fault_def)

lemma sample_challenge_code: "cc_short_code sample_challenge = generate_short_code_from_uuid (replicate 16 0)"
  by (simp add: sample_code sample_challenge_def)

lemma create_then_lookup_witness:
  "\<exists>st'. create_challenge (sample_env Verified) sample_id (sample_request POST ''/create'') empty_storage =
      (Inr (resp_ok ''created''), st') \<and>
    fst (get_challenge_by_code 1299999 ''000000000000'' st') = Inr (resp_json 200 (ChallengeBody sample_challenge))"
proof -
  have n: "now_secs 1299999 < 1300"
    by (simp add: now_secs_def secs_of_millis_def)
  show ?thesis
    using create_then_lookup[of empty_storage sample_id "sample_request POST ''/create''" "[]"
        "sample_env Verified" sample_challenge "replicate 16 0" 1299999]
    by (auto simp: sample_id_valid sample_challenge_code n) (simp add: sample_code)
qed

text \<open>The storage after one creation, for the next instance.\<close>

lemma sample_path: "split_on (CHR ''/'') (rq_path (sample_request m ''/create'')) =
    [[], ''challenge'', sample_id, ''create'']"
  by (simp add: sample_request_def sample_id_def)

lemma sample_created:
  "do_run (sample_env s) [(1000000, sample_request POST ''/create'')] empty_storage =
   empty_storage\<lparr>kv := [ch_key sample_id \<mapsto> SChallenge sample_challenge,
                    code_key ''000000000000'' \<mapsto> SText sample_id]\<rparr>"
proof -
  have "validate_short_code ''000000000000'' = Inr ()"
    using generated_code_valid[of "replicate 16 0"] by (simp add: sample_code)
  moreover have "cc_short_code sample_challenge = ''000000000000''" by (simp add: sample_challenge_def)
  moreover have "challenge_fetch (sample_env s) 1000000 (sample_request POST ''/create'') =
      create_challenge (sample_env s) sample_id (sample_request POST ''/create'')"
    unfolding challenge_fetch_def Let_def sample_path by (simp add: sample_request_def)
  moreover have "store_new_challenge sample_id sample_challenge empty_storage =
     (Inr (resp_ok ''created''),
      empty_storage\<lparr>kv := [ch_key sample_id \<mapsto> SChallenge sample_challenge,
        code_key (cc_short_code sample_challenge) \<mapsto> SText sample_id]\<rparr>)"
    by (simp add: store_new_challenge_def andthen_read put_or_503_def put_with_retry_nofault ret_def
        next_fails_def) (simp add: empty_storage_def tick_fault_def)
  ultimately show ?thesis
    by (simp add: create_challenge_def sample_id_valid read_body_def sample_code)
qed

lemma code_lookup_correct_witness:
  "\<exists>r st' c. get_challenge_by_code 1100000 ''000000000000''
      (do_run (sample_env Verified) [(1000000, sample_request POST ''/create'')] empty_storage) = (Inr r, st') \<and>
    dr_body r = ChallengeBody c \<and> cc_short_code c = ''000000000000''"
proof -
  let ?st = "do_run (sample_env Verified) [(1000000, sample_request POST ''/create'')] empty_storage"
  have v: "validate_short_code ''000000000000'' = Inr ()"
    using generated_code_valid[of "replicate 16 0"] by (simp add: sample_code)
  have nf: "\<not> next_fails ?st" "\<not> next_fails (tick_fault ?st)"
    unfolding sample_created by (simp_all add: empty_storage_def tick_fault_def next_fails_def)
  have n: "now_secs 1100000 < cc_expires_at sample_challenge"
    by (simp add: now_secs_def secs_of_millis_def)
  have kv: "kv ?st (code_key ''000000000000'') = Some (SText sample_id)"
    "kv ?st (ch_key sample_id) = Some (SChallenge sample_challenge)"
    unfolding sample_created by simp_all
  obtain st' where r: "get_challenge_by_code 1100000 ''000000000000'' ?st =
      (Inr (resp_json 200 (ChallengeBody sample_challenge)), st')"
    using v nf n kv
    by (simp add: get_challenge_by_code_def get_challenge_def andthen_read sample_id_valid ret_def Let_def)
  have law: "uuid_law (sample_env Verified)" by (simp add: uuid_law_def sample_env_def)
  have e: "kv empty_storage = (\<lambda>_. None)" by (simp add: empty_storage_def)
  from code_lookup_correct[OF law e r] r show ?thesis by (auto simp: resp_json_def)
qed

subsection \<open>Evidence and the failing read\<close>

text \<open>A deletion never touches a challenge that bears evidence, one that waits for redemption
  or has been redeemed, however old it is: it answers 409 with an audit event and leaves the
  storage as it was, even when every storage operation fails.\<close>

theorem evidence_not_deleted:
  assumes "kv st (ch_key uuid) = Some (SChallenge c)" "evidence_bearing (cc_state c)"
    and "delete_challenge uuid st = (x, st')"
  shows "kv st' = kv st \<and>
    (validate_challenge_id uuid = Inr () \<longrightarrow> \<not> next_fails st \<longrightarrow>
       (\<exists>msg. x = Inr (resp_json 409 (Envelope ''error'' msg [delete_blocked_event uuid c]))))"
  using assms
  by (cases "next_fails st")
    (auto simp: delete_challenge_def andthen_read Let_def split: sum.splits)

lemma evidence_not_deleted_witness:
  "\<exists>st' msg. delete_challenge sample_id (sample_store ProofOkWaitingForRedeem []) =
     (Inr (resp_json 409 (Envelope ''error'' msg
        [delete_blocked_event sample_id (sample_challenge\<lparr>cc_state := ProofOkWaitingForRedeem\<rparr>)])), st') \<and>
     kv st' = kv (sample_store ProofOkWaitingForRedeem [])"
proof -
  obtain x st' where d: "delete_challenge sample_id (sample_store ProofOkWaitingForRedeem []) = (x, st')"
    by fastforce
  have 1: "kv (sample_store ProofOkWaitingForRedeem []) (ch_key sample_id) =
      Some (SChallenge (sample_challenge\<lparr>cc_state := ProofOkWaitingForRedeem\<rparr>))" by simp
  from evidence_not_deleted[OF 1 _ d] d show ?thesis
    by (auto simp: evidence_bearing_def sample_id_valid)
qed

text \<open>The creation is not idempotent under a failing read: the existence check treats a failed
  read as an absent record, so a creation whose read fails and whose writes succeed replaces
  the stored challenge, even a redeemed one, by the one it was sent.\<close>

theorem create_overwrites_on_failed_read:
  assumes "next_fails st" "\<not> write_fails (tick_fault st)"
    and "create_checks env uuid c" "rq_body req = Some b" "length b \<le> MAX_DO_BODY_SIZE"
    and "de_parse_challenge env b = Inr c"
  shows "kv (snd (create_challenge env uuid req st)) (ch_key uuid) = Some (SChallenge c)"
proof -
  have "create_challenge env uuid req st = store_new_challenge uuid c st"
    using assms(3-) by (auto simp: create_challenge_def create_checks_def read_body_def not_less
        generated_code_valid split: option.splits)
  moreover have "kv (snd (store_new_challenge uuid c st)) (ch_key uuid) = Some (SChallenge c)"
    using assms(1,2)
    by (simp add: store_new_challenge_def andthen_read put_or_503_def put_with_retry_result ret_def)
  ultimately show ?thesis by simp
qed

lemma create_overwrites_on_failed_read_witness:
  "kv (snd (create_challenge (sample_env Verified) sample_id (sample_request POST ''/create'')
      (sample_store Verified [True]))) (ch_key sample_id) = Some (SChallenge sample_challenge) \<and>
   kv (sample_store Verified [True]) (ch_key sample_id) =
      Some (SChallenge (sample_challenge\<lparr>cc_state := Verified\<rparr>)) \<and>
   cc_state sample_challenge = Pending"
proof -
  have "create_checks (sample_env Verified) sample_id sample_challenge"
    by (auto simp: create_checks_def sample_id_valid sample_env_def sample_challenge_code generated_code_valid)
  then show ?thesis
    using create_overwrites_on_failed_read[of "sample_store Verified [True]" "sample_env Verified"
        sample_id sample_challenge "sample_request POST ''/create''" "[]"]
    by (simp add: sample_store_def next_fails_def write_fails_def sample_request_def sample_env_def
        sample_challenge_def)
qed

end
