(* ===== verification/Challenge_Store.thy ===== *)
theory Challenge_Store imports Challenge_DO_Correct begin

text \<open>
  \<open>src/storage/do_challenge_store.rs\<close>: the challenge store of the Worker.  Every challenge has
  its own Durable Object, called with up to three attempts under a timeout and a total budget;
  the answers are turned into results and their audit events passed on.  JSON and the text form
  of a UUID are arguments with the laws their crates document.
\<close>

record challenge_store_env = do_env +
  cse_serialise :: "cached_challenge \<Rightarrow> bytes"
  cse_uuid_text :: "uuid \<Rightarrow> string"

text \<open>
  The world of the store: the storage of each challenge's object, the outcomes of the calls to
  come, whether the time budget is exhausted before each attempt to come, and the audit events
  dispatched so far.
\<close>

record challenge_world =
  cw_objects :: "uuid \<Rightarrow> challenge_storage"
  cw_net :: "delivery list"
  cw_budget :: "bool list"
  cw_audit :: "audit_event list"

definition MAX_RETRIES :: nat where "MAX_RETRIES = 3"
definition MAX_CHALLENGE_BODY_SIZE :: nat where "MAX_CHALLENGE_BODY_SIZE = 65536"

definition budget_exhausted :: "challenge_world \<Rightarrow> bool" where
  "budget_exhausted w = (case cw_budget w of [] \<Rightarrow> False | b # _ \<Rightarrow> b)"

subsection \<open>One call with retries\<close>

text \<open>
  One attempt: the operation with its own timeout.  An operation that fails, because the fetch
  fails or the object throws, is retried; an answer with any status is a success.
\<close>

definition attempt_fetch ::
    "do_env \<Rightarrow> u64 \<Rightarrow> uuid \<Rightarrow> do_request \<Rightarrow> challenge_world \<Rightarrow>
     do_response api_result \<times> challenge_world" where
  "attempt_fetch env now_ms cid req w =
     (let (r, st') = do_call (next_delivery (cw_net w)) (challenge_fetch env now_ms req) (cw_objects w cid)
      in (case r of
            None \<Rightarrow> Inl (Internal ''DO fetch timed out after 2000ms'')
          | Some (Inl e) \<Rightarrow> Inl (Internal ''DO fetch failed'')
          | Some (Inr resp) \<Rightarrow> Inr resp,
          w\<lparr>cw_objects := (cw_objects w)(cid := st'), cw_net := tl (cw_net w)\<rparr>))"

fun retry_loop ::
    "nat list \<Rightarrow> api_error option \<Rightarrow> (nat \<Rightarrow> challenge_world \<Rightarrow> 'a api_result \<times> challenge_world) \<Rightarrow>
     challenge_world \<Rightarrow> 'a api_result \<times> challenge_world" where
  "retry_loop [] last_error op w =
     (Inl (case last_error of Some e \<Rightarrow> e | None \<Rightarrow> Internal ''No retry attempts made''), w)"
| "retry_loop (attempt # rest) last_error op w =
     (if budget_exhausted w then
        (Inl (case last_error of Some e \<Rightarrow> e | None \<Rightarrow> Internal ''No retry attempts made''),
         w\<lparr>cw_budget := tl (cw_budget w)\<rparr>)
      else case op attempt (w\<lparr>cw_budget := tl (cw_budget w)\<rparr>) of
             (Inr result, w') \<Rightarrow> (Inr result, w')
           | (Inl e, w') \<Rightarrow> retry_loop rest (Some e) op w')"

text \<open>\<open>clk\<close> gives the object's clock at each attempt.\<close>

definition send_request ::
    "do_env \<Rightarrow> (nat \<Rightarrow> u64) \<Rightarrow> uuid \<Rightarrow> http_method \<Rightarrow> string \<Rightarrow> bytes option \<Rightarrow> challenge_world \<Rightarrow>
     do_response api_result \<times> challenge_world" where
  "send_request env clk cid m upath body =
     retry_loop [1 ..< Suc MAX_RETRIES] None (\<lambda>attempt.
       attempt_fetch env (clk attempt) cid
         \<lparr>rq_path = upath, rq_method = m, rq_body = Some (case body of None \<Rightarrow> [] | Some b \<Rightarrow> b)\<rparr>)"

text \<open>The audit events of an answer that is a JSON object with an \<open>audit_events\<close> array.\<close>

fun envelope_events :: "do_body \<Rightarrow> audit_event list" where
  "envelope_events (Envelope _ _ evs) = evs"
| "envelope_events _ = []"

definition dispatch_events :: "do_response \<Rightarrow> challenge_world \<Rightarrow> challenge_world" where
  "dispatch_events resp w = w\<lparr>cw_audit := cw_audit w @ envelope_events (dr_body resp)\<rparr>"

definition challenge_path :: "challenge_store_env \<Rightarrow> uuid \<Rightarrow> string \<Rightarrow> string" where
  "challenge_path env cid suffix = ''/challenge/'' @ cse_uuid_text env cid @ suffix"

definition is_nil :: "uuid \<Rightarrow> bool" where "is_nil u \<longleftrightarrow> u = replicate 16 0"

definition status_error :: "string \<Rightarrow> nat \<Rightarrow> api_error" where
  "status_error op st = Internal (''DO '' @ op @ '' returned HTTP '' @ show_nat st)"

definition nil_id_error :: api_error where
  "nil_id_error = BadRequest (Some ''Challenge ID must not be nil UUID'')"

definition size_error :: api_error where
  "size_error = BadRequest (Some (''Serialised challenge exceeds maximum size of '' @
     show_nat MAX_CHALLENGE_BODY_SIZE @ '' bytes''))"

subsection \<open>The operations of the store\<close>

definition store_insert ::
    "challenge_store_env \<Rightarrow> (nat \<Rightarrow> u64) \<Rightarrow> uuid \<Rightarrow> cached_challenge \<Rightarrow> challenge_world \<Rightarrow>
     unit api_result \<times> challenge_world" where
  "store_insert env clk cid c w =
     (if is_nil cid then (Inl nil_id_error, w)
      else let json = cse_serialise env c in
        if length json > MAX_CHALLENGE_BODY_SIZE then (Inl size_error, w)
        else case send_request (do_env.truncate env) clk cid POST (challenge_path env cid ''/create'') (Some json) w of
               (Inl e, w') \<Rightarrow> (Inl e, w')
             | (Inr resp, w') \<Rightarrow>
                 (if 200 \<le> dr_status resp \<and> dr_status resp < 300 then Inr ()
                  else Inl (status_error ''create'' (dr_status resp)), w'))"

text \<open>The text of a challenge answer is its JSON, which the store parses and validates.\<close>

definition accept_challenge :: "challenge_store_env \<Rightarrow> do_response \<Rightarrow> cached_challenge option api_result" where
  "accept_challenge env resp =
     (case dr_body resp of
        ChallengeBody c \<Rightarrow>
          (case de_parse_challenge env (cse_serialise env c) of
             Inl e \<Rightarrow> Inl (Internal ''Failed to deserialise challenge from DO'')
           | Inr c' \<Rightarrow>
               (case challenge_validate c' of
                  Inl e \<Rightarrow> Inl (Internal (''Cached challenge validation failed: '' @ e))
                | Inr _ \<Rightarrow> Inr (Some c')))
      | _ \<Rightarrow> Inl (Internal ''Failed to deserialise challenge from DO''))"

definition store_get ::
    "challenge_store_env \<Rightarrow> (nat \<Rightarrow> u64) \<Rightarrow> uuid \<Rightarrow> challenge_world \<Rightarrow>
     cached_challenge option api_result \<times> challenge_world" where
  "store_get env clk cid w =
     (case send_request (do_env.truncate env) clk cid GET (challenge_path env cid ''/get'') None w of
        (Inl e, w') \<Rightarrow> (Inl e, w')
      | (Inr resp, w') \<Rightarrow>
          if dr_status resp = 200 then (accept_challenge env resp, w')
          else if dr_status resp = 404 then (Inr None, w')
          else if dr_status resp = 410 then (Inr None, dispatch_events resp w')
          else (Inl (status_error ''get'' (dr_status resp)), w'))"

definition store_remove ::
    "challenge_store_env \<Rightarrow> (nat \<Rightarrow> u64) \<Rightarrow> (nat \<Rightarrow> u64) \<Rightarrow> uuid \<Rightarrow> challenge_world \<Rightarrow>
     cached_challenge option api_result \<times> challenge_world" where
  "store_remove env clk clk' cid w =
     (case store_get env clk cid w of
        (Inl e, w') \<Rightarrow> (Inl e, w')
      | (Inr existing, w') \<Rightarrow>
          (case send_request (do_env.truncate env) clk' cid DELETE (challenge_path env cid '''') None w' of
             (Inl e, w'') \<Rightarrow> (Inl e, w'')
           | (Inr resp, w'') \<Rightarrow>
               if (200 \<le> dr_status resp \<and> dr_status resp < 300) \<or> dr_status resp = 409
               then (if dr_status resp = 409
                     then Inl (Conflict (Some (''DO delete returned HTTP '' @ show_nat (dr_status resp))))
                     else Inr existing, dispatch_events resp w'')
               else (Inl (status_error ''delete'' (dr_status resp)), w'')))"

text \<open>The text of a body in the conflict message.\<close>

fun body_text :: "do_body \<Rightarrow> string" where
  "body_text (Txt t) = t"
| "body_text (Envelope _ v _) = v"
| "body_text (ChallengeBody _) = []"

definition store_update ::
    "challenge_store_env \<Rightarrow> (nat \<Rightarrow> u64) \<Rightarrow> uuid \<Rightarrow> cached_challenge \<Rightarrow> challenge_world \<Rightarrow>
     unit api_result \<times> challenge_world" where
  "store_update env clk cid c w =
     (if is_nil cid then (Inl nil_id_error, w)
      else let json = cse_serialise env c in
        if length json > MAX_CHALLENGE_BODY_SIZE then (Inl size_error, w)
        else case send_request (do_env.truncate env) clk cid POST (challenge_path env cid ''/update'') (Some json) w of
               (Inl e, w') \<Rightarrow> (Inl e, w')
             | (Inr resp, w') \<Rightarrow>
                 if dr_status resp = 200 then (Inr (), dispatch_events resp w')
                 else if dr_status resp = 409 then
                   (Inl (Conflict (Some (''State transition rejected by DO: '' @ body_text (dr_body resp)))),
                    dispatch_events resp w')
                 else if dr_status resp = 404 then (Inl NotFound, w')
                 else if dr_status resp = 410 then (Inl (Gone (Some ''Challenge expired'')), w')
                 else (Inl (status_error ''update'' (dr_status resp)), w'))"

definition store_put ::
    "challenge_store_env \<Rightarrow> (nat \<Rightarrow> u64) \<Rightarrow> (nat \<Rightarrow> u64) \<Rightarrow> uuid \<Rightarrow> cached_challenge \<Rightarrow> challenge_world \<Rightarrow>
     unit api_result \<times> challenge_world" where
  "store_put env clk clk' cid c w =
     (case store_update env clk cid c w of
        (Inr _, w') \<Rightarrow> (Inr (), w')
      | (Inl NotFound, w') \<Rightarrow> store_insert env clk' cid c w'
      | (Inl e, w') \<Rightarrow> (Inl e, w'))"

subsection \<open>What a call does to the object\<close>

lemma do_run_append: "do_run env (xs @ ys) st = do_run env ys (do_run env xs st)"
  by (induction xs arbitrary: st) auto

lemma do_run_single: "do_run env [(t, req)] st = snd (challenge_fetch env t req st)"
  by simp

text \<open>One attempt runs the handler at most once, and answers what the handler answered.\<close>

lemma attempt_fetch_cases:
  assumes "attempt_fetch env t cid req w = (r, w')"
  shows "(\<exists>e. r = Inl e) \<and> cw_objects w' = cw_objects w \<or>
    cw_objects w' = (cw_objects w)(cid := do_run env [(t, req)] (cw_objects w cid)) \<and>
      (\<forall>resp. r = Inr resp \<longrightarrow> fst (challenge_fetch env t req (cw_objects w cid)) = Inr resp)"
proof -
  obtain x st' where c: "do_call (next_delivery (cw_net w)) (challenge_fetch env t req) (cw_objects w cid) = (x, st')"
    by fastforce
  have w': "cw_objects w' = (cw_objects w)(cid := st')" and
    r: "r = (case x of None \<Rightarrow> Inl (Internal ''DO fetch timed out after 2000ms'')
          | Some (Inl e) \<Rightarrow> Inl (Internal ''DO fetch failed'') | Some (Inr resp) \<Rightarrow> Inr resp)"
    using assms c by (auto simp: attempt_fetch_def)
  from do_call_cases[OF c] show ?thesis
    by (auto simp: w' r split: option.splits sum.splits)
qed

lemma retry_loop_runs:
  assumes "retry_loop as le (\<lambda>a. attempt_fetch env (clk a) cid req) w = (r, w')"
  shows "\<exists>ts. set ts \<subseteq> clk ` set as \<and>
    cw_objects w' = (cw_objects w)(cid := do_run env (map (\<lambda>t. (t, req)) ts) (cw_objects w cid)) \<and>
    (\<forall>resp. r = Inr resp \<longrightarrow> (\<exists>ts0 t. ts = ts0 @ [t] \<and>
       fst (challenge_fetch env t req (do_run env (map (\<lambda>t. (t, req)) ts0) (cw_objects w cid))) = Inr resp))"
  using assms
proof (induction as arbitrary: le w)
  case Nil
  then show ?case by (intro exI[of _ "[]"]) auto
next
  case (Cons a as)
  show ?case
  proof (cases "budget_exhausted w")
    case True
    with Cons.prems show ?thesis by (intro exI[of _ "[]"]) auto
  next
    case False
    let ?w = "w\<lparr>cw_budget := tl (cw_budget w)\<rparr>"
    obtain r1 w1 where f: "attempt_fetch env (clk a) cid req ?w = (r1, w1)" by fastforce
    note fc = attempt_fetch_cases[OF f]
    show ?thesis
    proof (cases r1)
      case (Inr resp)
      with Cons.prems False f have "r = Inr resp" "w' = w1" by auto
      with fc Inr show ?thesis by (intro exI[of _ "[clk a]"]) auto
    next
      case (Inl e)
      with Cons.prems False f
      have l: "retry_loop as (Some e) (\<lambda>a. attempt_fetch env (clk a) cid req) w1 = (r, w')" by simp
      from Cons.IH[OF l] obtain ts where ts: "set ts \<subseteq> clk ` set as"
        "cw_objects w' = (cw_objects w1)(cid := do_run env (map (\<lambda>t. (t, req)) ts) (cw_objects w1 cid))"
        "\<forall>resp. r = Inr resp \<longrightarrow> (\<exists>ts0 t. ts = ts0 @ [t] \<and>
           fst (challenge_fetch env t req (do_run env (map (\<lambda>t. (t, req)) ts0) (cw_objects w1 cid))) = Inr resp)"
        by (elim exE conjE) (rule that)
      from fc Inl consider (same) "cw_objects w1 = cw_objects w"
        | (ran) "cw_objects w1 = (cw_objects w)(cid := do_run env [(clk a, req)] (cw_objects w cid))" by auto
      then show ?thesis
      proof cases
        case same
        with ts show ?thesis by (intro exI[of _ ts]) auto
      next
        case ran
        have "cw_objects w' = (cw_objects w)(cid := do_run env (map (\<lambda>t. (t, req)) (clk a # ts)) (cw_objects w cid))"
          using ts(2) ran by simp
        moreover have "\<exists>ts0 t. clk a # ts = ts0 @ [t] \<and>
           fst (challenge_fetch env t req (do_run env (map (\<lambda>t. (t, req)) ts0) (cw_objects w cid))) = Inr resp"
          if "r = Inr resp" for resp
        proof -
          from ts(3) that obtain ts0 t where "ts = ts0 @ [t]"
            "fst (challenge_fetch env t req (do_run env (map (\<lambda>t. (t, req)) ts0) (cw_objects w1 cid))) = Inr resp"
            by blast
          with ran show ?thesis by (intro exI[of _ "clk a # ts0"] exI[of _ t]) simp
        qed
        ultimately show ?thesis using ts(1) by (intro exI[of _ "clk a # ts"]) auto
      qed
    qed
  qed
qed

subsection \<open>Acknowledged writes\<close>

text \<open>
  What serde makes of a serialised challenge when it reads an update from it, and the laws of
  serde_json and of the uuid crate, for the challenge that is written and its identifier.
\<close>

definition update_of :: "cached_challenge \<Rightarrow> challenge_update" where
  "update_of c = \<lparr>cu_state = cc_state c, cu_proof_submitted = Some (cc_proof_submitted c),
     cu_proof_verified_at = cc_proof_verified_at c, cu_verified_at = cc_verified_at c,
     cu_issuer_kid = cc_issuer_kid c, cu_issuer_vk_bytes = cc_issuer_vk_bytes c\<rparr>"

definition cs_laws :: "challenge_store_env \<Rightarrow> uuid \<Rightarrow> cached_challenge \<Rightarrow> bool" where
  "cs_laws env cid c \<longleftrightarrow>
     de_parse_challenge env (cse_serialise env c) = Inr c \<and>
     de_parse_update env (cse_serialise env c) = Inr (update_of c) \<and>
     validate_challenge_id (cse_uuid_text env cid) = Inr () \<and>
     de_parse_uuid env (cse_uuid_text env cid) = Some cid"

lemma cs_truncate_simps [simp]:
  "de_parse_challenge (do_env.truncate env) = de_parse_challenge env"
  "de_parse_update (do_env.truncate env) = de_parse_update env"
  "de_parse_uuid (do_env.truncate env) = de_parse_uuid env"
  by (simp_all add: do_env.truncate_def)

lemma no_slash_id: "validate_challenge_id u = Inr () \<Longrightarrow> CHR ''/'' \<notin> set u"
  by (auto dest!: challenge_id_chars simp: is_ascii_hexdigit_def is_ascii_digit_def)

lemma split_challenge_path:
  assumes "CHR ''/'' \<notin> set u"
  shows "split_on (CHR ''/'') (''/challenge/'' @ u @ ''/create'') = [[], ''challenge'', u, ''create'']"
    "split_on (CHR ''/'') (''/challenge/'' @ u @ ''/update'') = [[], ''challenge'', u, ''update'']"
    "split_on (CHR ''/'') (''/challenge/'' @ u @ ''/get'') = [[], ''challenge'', u, ''get'']"
    "split_on (CHR ''/'') (''/challenge/'' @ u) = [[], ''challenge'', u]"
  using split_on_append[OF assms] split_on_no_sep[OF assms] by simp_all

lemma fetch_update:
  assumes "cs_laws env cid c"
  shows "challenge_fetch (do_env.truncate env) t
      \<lparr>rq_path = challenge_path env cid ''/update'', rq_method = POST, rq_body = Some b\<rparr> =
    update_challenge (do_env.truncate env) t (cse_uuid_text env cid)
      \<lparr>rq_path = challenge_path env cid ''/update'', rq_method = POST, rq_body = Some b\<rparr>"
proof -
  have "CHR ''/'' \<notin> set (cse_uuid_text env cid)"
    using assms by (intro no_slash_id) (simp add: cs_laws_def)
  from split_challenge_path(2)[OF this] show ?thesis
    by (simp add: challenge_fetch_def challenge_path_def)
qed

lemma update_challenge_200:
  assumes "update_challenge env t uuid req st = (Inr resp, st')" "dr_status resp = 200"
  shows "\<exists>b c u. rq_body req = Some b \<and> de_parse_update env b = Inr u \<and>
    kv st (ch_key uuid) = Some (SChallenge c) \<and> admits t c u \<and>
    kv st' = (kv st)(ch_key uuid := Some (SChallenge (apply_update c u)))"
proof -
  from assms obtain b c u where b: "rq_body req = Some b" "de_parse_update env b = Inr u"
      "kv st (ch_key uuid) = Some (SChallenge c)"
      "update_existing t uuid c u (tick_fault st) = (Inr resp, st')"
    by (auto simp: update_challenge_def read_body_def andthen_read slot_challenge_Some_iff resp_error_def
        split: sum.splits option.splits if_splits)
  from b(4) assms(2) have n: "now_secs t < cc_expires_at c \<or> is_terminal_state (cu_state u)"
    "is_valid_transition (cc_state c) (cu_state u)"
    by (auto simp: update_existing_def resp_error_def resp_json_def is_valid_transition_def not_le
        split: if_splits)
  then have eq: "update_existing t uuid c u =
    put_or_503 (ch_key uuid) (SChallenge (apply_update c u)) ''update_challenge_record''
       (ret (resp_json 200 (Envelope ''result'' ''updated''
          (if cc_state c \<noteq> cu_state u then [transition_event uuid c (cu_state u)] else []))))"
    by (auto simp: update_existing_def Let_def not_le)
  from put_or_503_cases[OF b(4)[unfolded eq]] assms(2)
  have "kv st' = (kv st)(ch_key uuid := Some (SChallenge (apply_update c u)))"
    by (auto simp: resp_error_def)
  with b(1-3) n show ?thesis by (auto simp: admits_def)
qed

lemma update_ok_stored:
  assumes "cs_laws env cid c" "store_update env clk cid c w = (Inr (), w')"
  shows "\<exists>st0 d. kv st0 (ch_key (cse_uuid_text env cid)) = Some (SChallenge d) \<and>
    kv (cw_objects w' cid) (ch_key (cse_uuid_text env cid)) = Some (SChallenge (apply_update d (update_of c))) \<and>
    is_valid_transition (cc_state d) (cc_state c) \<and>
    (\<exists>reqs. list_all (\<lambda>(t, req). \<not> create_request req) reqs \<and>
       st0 = do_run (do_env.truncate env) reqs (cw_objects w cid)) \<and>
    (\<forall>x. x \<noteq> cid \<longrightarrow> cw_objects w' x = cw_objects w x)"
proof -
  let ?req = "\<lparr>rq_path = challenge_path env cid ''/update'', rq_method = POST,
                rq_body = Some (cse_serialise env c)\<rparr>"
  let ?e = "do_env.truncate env"
  obtain resp w1 where s: "send_request ?e clk cid POST (challenge_path env cid ''/update'')
      (Some (cse_serialise env c)) w = (Inr resp, w1)" "dr_status resp = 200"
      "cw_objects w' = cw_objects w1"
    using assms(2) unfolding store_update_def Let_def
    by (auto simp: dispatch_events_def split: if_splits prod.splits sum.splits)
  have "retry_loop [1 ..< Suc MAX_RETRIES] None (\<lambda>a. attempt_fetch ?e (clk a) cid ?req) w = (Inr resp, w1)"
    using s(1) by (simp add: send_request_def)
  from retry_loop_runs[OF this] obtain ts0 t where r:
      "cw_objects w1 = (cw_objects w)(cid := do_run ?e (map (\<lambda>t. (t, ?req)) (ts0 @ [t])) (cw_objects w cid))"
      "fst (challenge_fetch ?e t ?req (do_run ?e (map (\<lambda>t. (t, ?req)) ts0) (cw_objects w cid))) = Inr resp"
    by auto
  let ?st0 = "do_run ?e (map (\<lambda>t. (t, ?req)) ts0) (cw_objects w cid)"
  obtain st1 where f: "update_challenge ?e t (cse_uuid_text env cid) ?req ?st0 = (Inr resp, st1)"
    using r(2) fetch_update[OF assms(1), of t "cse_serialise env c"] by (metis prod.collapse)
  have o1: "cw_objects w1 cid = st1"
    using r(1) f fetch_update[OF assms(1), of t "cse_serialise env c"] by (simp add: do_run_append)
  have up: "de_parse_update ?e (cse_serialise env c) = Inr (update_of c)"
    using assms(1) by (simp add: cs_laws_def)
  from update_challenge_200[OF f s(2)] up obtain d where d: "kv ?st0 (ch_key (cse_uuid_text env cid)) = Some (SChallenge d)"
      "admits t d (update_of c)"
      "kv st1 = (kv ?st0)(ch_key (cse_uuid_text env cid) := Some (SChallenge (apply_update d (update_of c))))"
    by auto
  have "CHR ''/'' \<notin> set (cse_uuid_text env cid)"
    using assms by (intro no_slash_id) (simp add: cs_laws_def)
  from split_challenge_path(2)[OF this] have nc: "\<not> create_request ?req"
    by (simp add: create_request_def segment_def challenge_path_def)
  then have "list_all (\<lambda>(t, req). \<not> create_request req) (map (\<lambda>t. (t, ?req)) ts0)"
    by (induction ts0) simp_all
  with d o1 s(3) r(1) show ?thesis
    by (intro exI[of _ ?st0] exI[of _ d]) (auto simp: admits_def update_of_def)
qed


definition submitted_challenge :: cached_challenge where
  "submitted_challenge = sample_challenge\<lparr>cc_state := ProofOkWaitingForRedeem,
     cc_proof_submitted := True, cc_proof_verified_at := Some 1100\<rparr>"

definition sample_cs_env :: challenge_store_env where
  "sample_cs_env = \<lparr>de_parse_challenge = (\<lambda>_. Inr submitted_challenge),
     de_parse_update = (\<lambda>_. Inr (update_of submitted_challenge)),
     de_parse_uuid = (\<lambda>_. Some (replicate 16 1)),
     cse_serialise = (\<lambda>_. [1]), cse_uuid_text = (\<lambda>_. sample_id)\<rparr>"

definition sample_cs_world :: "delivery list \<Rightarrow> challenge_world" where
  "sample_cs_world ds = \<lparr>cw_objects = (\<lambda>_. sample_store Pending []), cw_net = ds,
     cw_budget = [], cw_audit = []\<rparr>"

lemma sample_cs_laws: "cs_laws sample_cs_env (replicate 16 1) submitted_challenge"
  by (simp add: cs_laws_def sample_cs_env_def sample_id_valid)

lemma sample_update_answer:
  "\<exists>st'. update_challenge (do_env.truncate sample_cs_env) 1100000 (cse_uuid_text sample_cs_env cid)
     \<lparr>rq_path = p, rq_method = POST, rq_body = Some [1]\<rparr> (sample_store Pending []) =
     (Inr (resp_json 200 (Envelope ''result'' ''updated''
        [transition_event sample_id (sample_challenge\<lparr>cc_state := Pending\<rparr>) ProofOkWaitingForRedeem])), st')"
proof -
  have n: "now_secs 1100000 = 1100" by (simp add: now_secs_def secs_of_millis_def)
  have i: "cse_uuid_text sample_cs_env cid = sample_id" by (simp add: sample_cs_env_def)
  have u: "cu_state (update_of submitted_challenge) = ProofOkWaitingForRedeem"
    by (simp add: update_of_def submitted_challenge_def)
  have w: "\<not> write_fails (sample_store Pending [])" by (simp add: write_fails_def)
  have t: "tick_fault (sample_store Pending []) = sample_store Pending []" "\<not> next_fails (sample_store Pending [])"
    by (simp_all add: sample_store_def tick_fault_def next_fails_def)
  show ?thesis
    using put_or_503_result[of "ch_key sample_id" _ _ _ "sample_store Pending []"] w
    by (simp add: update_challenge_def i sample_id_valid read_body_def andthen_read t u n MAX_DO_BODY_SIZE_def
        sample_cs_env_def update_existing_def is_valid_transition_def) blast
qed


subsection \<open>Writes on undisturbed storage\<close>

lemma run_quiet: "faults st = [] \<Longrightarrow> faults (do_run env reqs st) = []"
proof (induction reqs arbitrary: st)
  case (Cons r reqs)
  obtain t req where r: "r = (t, req)" by (cases r)
  have "faults (snd (challenge_fetch env t req st)) = []"
    using fetch_quiet[of env t req st] Cons.prems by (metis prod.collapse)
  with Cons.IH show ?case by (simp add: r)
qed simp

lemma send_request_quiet_faults:
  assumes "send_request env clk cid m p b w = (r, w')" "faults (cw_objects w cid) = []"
  shows "faults (cw_objects w' cid) = []"
  using retry_loop_runs[OF assms(1)[unfolded send_request_def]] run_quiet[OF assms(2)] by auto

lemma dispatch_objects [simp]: "cw_objects (dispatch_events resp w) = cw_objects w"
  by (simp add: dispatch_events_def)

lemma store_get_quiet:
  assumes "store_get env clk cid w = (r, w')" "faults (cw_objects w cid) = []"
  shows "faults (cw_objects w' cid) = []"
  using assms by (auto simp: store_get_def dest: send_request_quiet_faults split: prod.splits sum.splits if_splits)

lemma fetch_get:
  assumes "validate_challenge_id (cse_uuid_text env cid) = Inr ()"
  shows "challenge_fetch e t \<lparr>rq_path = challenge_path env cid ''/get'', rq_method = GET, rq_body = b\<rparr> =
    get_challenge t (cse_uuid_text env cid)"
  using split_challenge_path(3)[OF no_slash_id[OF assms]]
  by (simp add: challenge_fetch_def challenge_path_def fun_eq_iff)

text \<open>A challenge that was read is in its object then.\<close>

lemma store_get_present:
  assumes "validate_challenge_id (cse_uuid_text env cid) = Inr ()" "store_get env clk cid w = (Inr (Some c), w')"
  shows "\<exists>d. kv (cw_objects w' cid) (ch_key (cse_uuid_text env cid)) = Some (SChallenge d)"
proof -
  let ?e = "do_env.truncate env"
  let ?req = "\<lparr>rq_path = challenge_path env cid ''/get'', rq_method = GET, rq_body = Some []\<rparr>"
  obtain resp where s: "send_request ?e clk cid GET (challenge_path env cid ''/get'') None w = (Inr resp, w')"
    "accept_challenge env resp = Inr (Some c)"
    using assms(2) by (auto simp: store_get_def split: prod.splits sum.splits if_splits)
  then obtain d where d: "dr_body resp = ChallengeBody d"
    by (auto simp: accept_challenge_def split: do_body.splits)
  have "retry_loop [1 ..< Suc MAX_RETRIES] None (\<lambda>a. attempt_fetch ?e (clk a) cid ?req) w = (Inr resp, w')"
    using s(1) by (simp add: send_request_def)
  from retry_loop_runs[OF this] obtain ts0 t where r:
    "cw_objects w' cid = do_run ?e (map (\<lambda>t. (t, ?req)) (ts0 @ [t])) (cw_objects w cid)"
    "fst (challenge_fetch ?e t ?req (do_run ?e (map (\<lambda>t. (t, ?req)) ts0) (cw_objects w cid))) = Inr resp"
    by auto
  let ?st0 = "do_run ?e (map (\<lambda>t. (t, ?req)) ts0) (cw_objects w cid)"
  obtain st1 where g: "get_challenge t (cse_uuid_text env cid) ?st0 = (Inr resp, st1)"
    using r(2) unfolding fetch_get[OF assms(1)] by (metis prod.collapse)
  have "cw_objects w' cid = st1" using r(1) g by (simp add: do_run_append fetch_get[OF assms(1)])
  with get_serves[OF g d] get_challenge_kv[OF g] show ?thesis by auto
qed

lemma update_run_present:
  assumes "cs_laws env cid c" "kv st (ch_key (cse_uuid_text env cid)) = Some (SChallenge d)"
  shows "\<exists>d'. kv (do_run (do_env.truncate env) (map (\<lambda>t. (t, \<lparr>rq_path = challenge_path env cid ''/update'',
      rq_method = POST, rq_body = Some b\<rparr>)) ts) st) (ch_key (cse_uuid_text env cid)) = Some (SChallenge d')"
  using assms(2)
proof (induction ts arbitrary: st d)
  case (Cons t ts)
  obtain x st' where u: "update_challenge (do_env.truncate env) t (cse_uuid_text env cid)
      \<lparr>rq_path = challenge_path env cid ''/update'', rq_method = POST, rq_body = Some b\<rparr> st = (x, st')" by fastforce
  with update_challenge_kv[OF u] Cons.prems
  have "\<exists>d'. kv st' (ch_key (cse_uuid_text env cid)) = Some (SChallenge d')" by auto
  with Cons.IH u show ?case by (auto simp: fetch_update[OF assms(1)])
qed simp

text \<open>The errors of the retry loop are internal ones.\<close>

lemma retry_loop_error:
  "retry_loop as le (\<lambda>a. attempt_fetch env (clk a) cid req) w = (Inl e, w') \<Longrightarrow>
     (\<And>e. le = Some e \<Longrightarrow> \<exists>m. e = Internal m) \<Longrightarrow> \<exists>m. e = Internal m"
proof (induction as arbitrary: le w)
  case (Cons a as)
  show ?case
  proof (cases "budget_exhausted w")
    case True
    with Cons.prems show ?thesis by (auto split: option.splits)
  next
    case False
    obtain r1 w1 where f: "attempt_fetch env (clk a) cid req (w\<lparr>cw_budget := tl (cw_budget w)\<rparr>) = (r1, w1)" by fastforce
    with False Cons.prems obtain e1 where e1: "r1 = Inl e1"
      "retry_loop as (Some e1) (\<lambda>a. attempt_fetch env (clk a) cid req) w1 = (Inl e, w')"
      by (auto split: sum.splits)
    have "\<exists>m. e1 = Internal m" using f e1(1) by (auto simp: attempt_fetch_def split: prod.splits option.splits sum.splits)
    with Cons.IH[OF e1(2)] show ?thesis by auto
  qed
qed (auto split: option.splits)

text \<open>An update of a stored challenge is not answered 404 when no read fails.\<close>

lemma update_challenge_not_404:
  assumes "update_challenge env t uuid req st = (Inr resp, st')" "faults st = []"
    and "kv st (ch_key uuid) = Some (SChallenge d)"
  shows "dr_status resp \<noteq> 404"
proof -
  have n: "\<not> next_fails st" "tick_fault st = st" "\<not> write_fails st"
    using assms(2) by (simp_all add: next_fails_def tick_fault_def write_fails_def)
  show ?thesis
    using assms(1,3) n
    by (auto simp: update_challenge_def read_body_def andthen_read resp_error_def update_existing_def resp_json_def
        split: sum.splits option.splits if_splits dest!: put_or_503_cases)
qed

lemma store_put_quiet:
  assumes "cs_laws env cid c" "faults (cw_objects w cid) = []"
    and "kv (cw_objects w cid) (ch_key (cse_uuid_text env cid)) = Some (SChallenge d)"
    and "store_put env clk clk' cid c w = (Inr (), w')"
  shows "store_update env clk cid c w = (Inr (), w')"
proof -
  let ?e = "do_env.truncate env"
  let ?req = "\<lparr>rq_path = challenge_path env cid ''/update'', rq_method = POST, rq_body = Some (cse_serialise env c)\<rparr>"
  have "fst (store_update env clk cid c w) \<noteq> Inl NotFound"
  proof
    assume "fst (store_update env clk cid c w) = Inl NotFound"
    then obtain resp w1 where s: "send_request ?e clk cid POST (challenge_path env cid ''/update'')
        (Some (cse_serialise env c)) w = (Inr resp, w1)" "dr_status resp = 404"
      unfolding store_update_def Let_def
      by (auto simp: nil_id_error_def size_error_def status_error_def send_request_def split: if_splits prod.splits sum.splits
          dest!: retry_loop_error[where le = None])
    have "retry_loop [1 ..< Suc MAX_RETRIES] None (\<lambda>a. attempt_fetch ?e (clk a) cid ?req) w = (Inr resp, w1)"
      using s(1) by (simp add: send_request_def)
    from retry_loop_runs[OF this] obtain ts0 t where r:
      "fst (challenge_fetch ?e t ?req (do_run ?e (map (\<lambda>t. (t, ?req)) ts0) (cw_objects w cid))) = Inr resp"
      by auto
    let ?st0 = "do_run ?e (map (\<lambda>t. (t, ?req)) ts0) (cw_objects w cid)"
    obtain st1 where u: "update_challenge ?e t (cse_uuid_text env cid) ?req ?st0 = (Inr resp, st1)"
      using r fetch_update[OF assms(1)] by (metis prod.collapse)
    from update_run_present[OF assms(1,3)] obtain d' where
      "kv ?st0 (ch_key (cse_uuid_text env cid)) = Some (SChallenge d')" by blast
    with update_challenge_not_404[OF u run_quiet[OF assms(2)]] s(2) show False by blast
  qed
  then show ?thesis
    using assms(4) by (auto simp: store_put_def split: prod.splits sum.splits api_error.splits)
qed

subsection \<open>Lost writes\<close>

text \<open>With an undisturbed network and budget a request runs the handler once.\<close>

lemma send_request_quiet:
  assumes "cw_net w = []" "cw_budget w = []"
    and "challenge_fetch env (clk 1) \<lparr>rq_path = p, rq_method = m, rq_body = Some (case b of None \<Rightarrow> [] | Some b \<Rightarrow> b)\<rparr>
      (cw_objects w cid) = (Inr resp, st')"
  shows "send_request env clk cid m p b w = (Inr resp, w\<lparr>cw_objects := (cw_objects w)(cid := st')\<rparr>)"
proof -
  have u: "[1 ..< Suc MAX_RETRIES] = [1, 2, 3]" by (simp add: MAX_RETRIES_def upt_rec)
  show ?thesis
    unfolding send_request_def u
    using assms by (cases w) (simp add: attempt_fetch_def budget_exhausted_def do_call_def next_delivery_def)
qed

lemma fetch_create:
  assumes "cs_laws env cid c"
  shows "challenge_fetch (do_env.truncate env) t
      \<lparr>rq_path = challenge_path env cid ''/create'', rq_method = POST, rq_body = Some b\<rparr> =
    create_challenge (do_env.truncate env) (cse_uuid_text env cid)
      \<lparr>rq_path = challenge_path env cid ''/create'', rq_method = POST, rq_body = Some b\<rparr>"
proof -
  have "CHR ''/'' \<notin> set (cse_uuid_text env cid)"
    using assms by (intro no_slash_id) (simp add: cs_laws_def)
  from split_challenge_path(1)[OF this] show ?thesis
    by (simp add: challenge_fetch_def challenge_path_def)
qed

text \<open>A write can be acknowledged without happening: the object answers an update whose first
  read fails with 404, the store then tries to create the challenge, and the object answers
  ''created'' because the challenge exists, without writing it.\<close>

theorem put_acknowledged_but_lost:
  assumes "cs_laws env cid c" "\<not> is_nil cid" "length (cse_serialise env c) \<le> MAX_CHALLENGE_BODY_SIZE"
    and "cw_net w = []" "cw_budget w = []" "faults (cw_objects w cid) = [True]"
    and "kv (cw_objects w cid) (ch_key (cse_uuid_text env cid)) = Some (SChallenge c0)"
    and "validate_short_code (cc_short_code c) = Inr ()" "cc_short_code c = generate_short_code_from_uuid cid"
  shows "\<exists>w'. store_put env clk clk' cid c w = (Inr (), w') \<and> kv (cw_objects w' cid) = kv (cw_objects w cid)"
proof -
  let ?st = "cw_objects w cid" and ?e = "do_env.truncate env" and ?id = "cse_uuid_text env cid"
  have id: "validate_challenge_id ?id = Inr ()" "de_parse_uuid env ?id = Some cid"
    "de_parse_challenge env (cse_serialise env c) = Inr c"
    using assms(1) by (auto simp: cs_laws_def)
  have size: "length (cse_serialise env c) \<le> MAX_DO_BODY_SIZE"
    using assms(3) by (simp add: MAX_CHALLENGE_BODY_SIZE_def MAX_DO_BODY_SIZE_def)
  have u: "update_challenge ?e t ?id \<lparr>rq_path = p, rq_method = POST, rq_body = Some (cse_serialise env c)\<rparr> ?st =
      (Inr (resp_error ''Not found'' 404), tick_fault ?st)" for t p
    using id size assms(6)
    by (simp add: update_challenge_def read_body_def andthen_read next_fails_def not_less)
  let ?w = "w\<lparr>cw_objects := (cw_objects w)(cid := tick_fault ?st)\<rparr>"
  have 1: "store_update env clk cid c w = (Inl NotFound, ?w)"
    using send_request_quiet[OF assms(4,5), of ?e clk "challenge_path env cid ''/update''" POST "Some (cse_serialise env c)" cid
        "resp_error ''Not found'' 404" "tick_fault ?st"] assms(2,3)
    by (simp add: store_update_def Let_def fetch_update[OF assms(1)] u resp_error_def not_less)
  have q: "\<not> next_fails (tick_fault ?st)" "kv (tick_fault ?st) = kv ?st"
    using assms(6) by (simp_all add: next_fails_def tick_fault_def)
  have c: "create_challenge ?e ?id \<lparr>rq_path = p, rq_method = POST, rq_body = Some (cse_serialise env c)\<rparr> (tick_fault ?st) =
      (Inr (resp_ok ''created''), tick_fault (tick_fault ?st))" for p
    using id size q assms(7-9)
    by (simp add: create_challenge_def read_body_def not_less store_new_challenge_def andthen_read)
  have 2: "store_insert env clk' cid c ?w =
      (Inr (), ?w\<lparr>cw_objects := (cw_objects ?w)(cid := tick_fault (tick_fault ?st))\<rparr>)"
    using send_request_quiet[of ?w ?e clk' "challenge_path env cid ''/create''" POST "Some (cse_serialise env c)" cid
        "resp_ok ''created''" "tick_fault (tick_fault ?st)"] assms(2-5)
    by (simp add: store_insert_def Let_def fetch_create[OF assms(1)] c resp_ok_def not_less)
  show ?thesis
    using 1 2 by (simp add: store_put_def tick_fault_def)
qed

text \<open>A challenge that waits for its proof, the same one with an accepted proof, and redeemed; and an
  environment whose parsers know a challenge by its state.\<close>

definition ready_challenge :: cached_challenge where
  "ready_challenge = submitted_challenge\<lparr>cc_short_code := generate_short_code_from_uuid (replicate 16 1),
     cc_submit_secret := [], cc_issuer_kid := Some ''kid1'', cc_issuer_vk_bytes := Some (replicate 32 7),
     cc_client_id := Some ''rp_a'', cc_tenant_id := Some ''org1''\<rparr>"

definition done_challenge :: cached_challenge where
  "done_challenge = ready_challenge\<lparr>cc_state := Verified, cc_verified_at := Some 1100\<rparr>"

definition pending_challenge :: cached_challenge where
  "pending_challenge = sample_challenge\<lparr>cc_short_code := generate_short_code_from_uuid (replicate 16 1),
     cc_client_id := Some ''rp_a'', cc_tenant_id := Some ''org1''\<rparr>"

fun stage_code :: "challenge_state \<Rightarrow> bytes" where
  "stage_code Pending = [0]"
| "stage_code ProofOkWaitingForRedeem = [1]"
| "stage_code Verified = [2]"
| "stage_code Failed = [3]"
| "stage_code Expired = [4]"

definition stage :: "bytes \<Rightarrow> cached_challenge" where
  "stage b = (if b = [2] then done_challenge else if b = [1] then ready_challenge
     else pending_challenge\<lparr>cc_state := (if b = [3] then Failed else if b = [4] then Expired else Pending)\<rparr>)"

definition ready_env :: challenge_store_env where
  "ready_env = \<lparr>de_parse_challenge = (\<lambda>b. Inr (stage b)), de_parse_update = (\<lambda>b. Inr (update_of (stage b))),
     de_parse_uuid = (\<lambda>_. Some (replicate 16 1)),
     cse_serialise = (\<lambda>c. stage_code (cc_state c)), cse_uuid_text = (\<lambda>_. sample_id)\<rparr>"

definition ready_world :: "bool list \<Rightarrow> challenge_world" where
  "ready_world fs = \<lparr>cw_objects = (\<lambda>_. \<lparr>kv = [ch_key sample_id \<mapsto> SChallenge ready_challenge], alarm_at = None, faults = fs\<rparr>),
     cw_net = [], cw_budget = [], cw_audit = []\<rparr>"

lemma ready_simps [simp]:
  "cc_state done_challenge = Verified" "cc_state ready_challenge = ProofOkWaitingForRedeem"
  "cc_short_code done_challenge = generate_short_code_from_uuid (replicate 16 1)"
  "cse_uuid_text ready_env u = sample_id" "cse_serialise ready_env done_challenge = [2]"
  "de_parse_challenge ready_env b = Inr (stage b)" "cse_serialise ready_env c = stage_code (cc_state c)"
  "stage [2] = done_challenge" "stage [1] = ready_challenge" "stage [0] = pending_challenge"
  "cc_state pending_challenge = Pending"
  by (simp_all add: stage_def pending_challenge_def sample_challenge_def done_challenge_def ready_challenge_def submitted_challenge_def ready_env_def)

lemma ready_laws: "cs_laws ready_env (replicate 16 1) done_challenge"
  by (simp add: cs_laws_def sample_id_valid) (simp add: ready_env_def)

lemma put_acknowledged_but_lost_witness:
  "\<exists>w'. store_put ready_env (\<lambda>_. 1100000) (\<lambda>_. 1100000) (replicate 16 1) done_challenge (ready_world [True]) = (Inr (), w') \<and>
     kv (cw_objects w' (replicate 16 1)) (ch_key sample_id) = Some (SChallenge ready_challenge)"
proof -
  have "\<not> is_nil (replicate 16 1)" by (simp add: is_nil_def)
  with put_acknowledged_but_lost[OF ready_laws, of "ready_world [True]" ready_challenge "\<lambda>_. 1100000" "\<lambda>_. 1100000"]
  show ?thesis
    by (auto simp: ready_world_def MAX_CHALLENGE_BODY_SIZE_def generated_code_valid)
qed

end
