(* ===== verification/Store_Calls.thy ===== *)
theory Store_Calls imports Challenge_Store begin

text \<open>
  Calls of the challenge store (\<open>src/storage/do_challenge_store.rs\<close>) that nothing disturbs, and
  what any sequence of calls can make of the record in a challenge's object.
\<close>

subsection \<open>Undisturbed calls\<close>

text \<open>The object holds the challenge, its storage does not fail and every call is delivered.\<close>

definition undisturbed :: "challenge_store_env \<Rightarrow> uuid \<Rightarrow> cached_challenge \<Rightarrow> challenge_world \<Rightarrow> bool" where
  "undisturbed env cid c w \<longleftrightarrow>
     cw_net w = [] \<and> cw_budget w = [] \<and> faults (cw_objects w cid) = [] \<and>
     kv (cw_objects w cid) (ch_key (cse_uuid_text env cid)) = Some (SChallenge c) \<and>
     validate_challenge_id (cse_uuid_text env cid) = Inr ()"

lemma undisturbed_read:
  assumes "undisturbed env cid c w"
  shows "\<not> next_fails (cw_objects w cid)" "tick_fault (cw_objects w cid) = cw_objects w cid" "\<not> write_fails (cw_objects w cid)"
  using assms by (simp_all add: undisturbed_def next_fails_def tick_fault_def write_fails_def)

lemma undisturbed_get:
  assumes u: "undisturbed env cid c w" and "now_secs (clk 1) < cc_expires_at c"
    and "de_parse_challenge env (cse_serialise env c) = Inr c'" "challenge_validate c' = Inr ()"
  shows "store_get env clk cid w = (Inr (Some c'), w)"
proof -
  let ?st = "cw_objects w cid"
  have "get_challenge (clk 1) (cse_uuid_text env cid) ?st = (Inr (resp_json 200 (ChallengeBody c)), ?st)"
    using u assms(2) by (simp add: get_challenge_def undisturbed_def andthen_read undisturbed_read[OF u] Let_def)
  then have "send_request (do_env.truncate env) clk cid GET (challenge_path env cid ''/get'') None w =
      (Inr (resp_json 200 (ChallengeBody c)), w)"
    using send_request_quiet[of w "do_env.truncate env" clk "challenge_path env cid ''/get''" GET None cid
        "resp_json 200 (ChallengeBody c)" ?st] fetch_get[of env cid] u
    by (simp add: undisturbed_def)
  with assms(3,4) show ?thesis by (simp add: store_get_def resp_json_def accept_challenge_def)
qed

lemma undisturbed_put:
  assumes u: "undisturbed env cid c w" and "cs_laws env cid d" "\<not> is_nil cid"
    and "length (cse_serialise env d) \<le> MAX_CHALLENGE_BODY_SIZE"
    and "now_secs (clk 1) < cc_expires_at c \<or> is_terminal_state (cc_state d)" "is_valid_transition (cc_state c) (cc_state d)"
  shows "\<exists>w'. store_put env clk clk' cid d w = (Inr (), w') \<and> undisturbed env cid (apply_update c (update_of d)) w'"
proof -
  let ?st = "cw_objects w cid" and ?b = "cse_serialise env d" and ?id = "cse_uuid_text env cid"
  let ?new = "SChallenge (apply_update c (update_of d))"
  let ?req = "\<lparr>rq_path = challenge_path env cid ''/update'', rq_method = POST, rq_body = Some ?b\<rparr>"
  have l: "validate_challenge_id ?id = Inr ()" "kv ?st (ch_key ?id) = Some (SChallenge c)"
    "de_parse_update env ?b = Inr (update_of d)"
    using u assms(2) by (simp_all add: undisturbed_def cs_laws_def)
  have st: "cu_state (update_of d) = cc_state d" by (simp add: update_of_def)
  let ?evs = "if cc_state c \<noteq> cc_state d then [transition_event ?id c (cc_state d)] else []"
  let ?ok = "resp_json 200 (Envelope ''result'' ''updated'' ?evs)"
  have e: "update_existing (clk 1) ?id c (update_of d) =
      put_or_503 (ch_key ?id) ?new ''update_challenge_record'' (ret ?ok)"
    unfolding update_existing_def st Let_def using assms(5,6) by auto
  obtain st' where st': "update_existing (clk 1) ?id c (update_of d) ?st = (Inr ?ok, st')"
    "kv st' = (kv ?st)(ch_key ?id := Some ?new)"
    unfolding e using put_or_503_result[of "ch_key ?id" ?new "''update_challenge_record''" ?ok ?st]
      undisturbed_read(3)[OF u] by auto
  then have "update_challenge (do_env.truncate env) (clk 1) ?id ?req ?st = (Inr ?ok, st')"
    using l assms(4) undisturbed_read[OF u]
    by (simp del: if_split add: update_challenge_def read_body_def MAX_DO_BODY_SIZE_def MAX_CHALLENGE_BODY_SIZE_def andthen_read)
  then have f: "challenge_fetch (do_env.truncate env) (clk 1) ?req ?st = (Inr ?ok, st')"
    by (simp add: fetch_update[OF assms(2)])
  have "faults st' = []" using fetch_quiet[OF f] u by (simp add: undisturbed_def)
  moreover have "send_request (do_env.truncate env) clk cid POST (challenge_path env cid ''/update'') (Some ?b) w =
      (Inr ?ok, w\<lparr>cw_objects := (cw_objects w)(cid := st')\<rparr>)"
    using send_request_quiet[of w "do_env.truncate env" clk "challenge_path env cid ''/update''" POST "Some ?b" cid ?ok st'] f u
    by (simp add: undisturbed_def)
  then have "store_update env clk cid d w = (Inr (), dispatch_events ?ok (w\<lparr>cw_objects := (cw_objects w)(cid := st')\<rparr>))"
    using assms(3,4) by (simp add: store_update_def) (simp add: resp_json_def)
  ultimately show ?thesis
    using u st'(2) l(1)
    by (intro exI[of _ "dispatch_events ?ok (w\<lparr>cw_objects := (cw_objects w)(cid := st')\<rparr>)"])
      (simp add: store_put_def undisturbed_def dispatch_events_def)
qed

lemma put_quiet: "faults st = [] \<Longrightarrow> put_or_503 k v op f st = f (st\<lparr>kv := (kv st)(k := Some v)\<rparr>)"
  by (cases st) (simp add: put_or_503_def put_with_retry_result write_fails_def)

lemma undisturbed_insert:
  assumes "cw_net w = []" "cw_budget w = []" "faults (cw_objects w cid) = []"
    and "kv (cw_objects w cid) (ch_key (cse_uuid_text env cid)) = None"
    and "cs_laws env cid c" "\<not> is_nil cid" "length (cse_serialise env c) \<le> MAX_CHALLENGE_BODY_SIZE"
    and "cc_short_code c = generate_short_code_from_uuid cid"
  shows "\<exists>w'. store_insert env clk cid c w = (Inr (), w') \<and> undisturbed env cid c w'"
proof -
  let ?st = "cw_objects w cid" and ?b = "cse_serialise env c" and ?id = "cse_uuid_text env cid"
  let ?req = "\<lparr>rq_path = challenge_path env cid ''/create'', rq_method = POST, rq_body = Some ?b\<rparr>"
  let ?new = "?st\<lparr>kv := (kv ?st)(ch_key ?id := Some (SChallenge c), code_key (cc_short_code c) := Some (SText ?id))\<rparr>"
  have l: "validate_challenge_id ?id = Inr ()" "de_parse_challenge env ?b = Inr c" "de_parse_uuid env ?id = Some cid"
    using assms(5) by (simp_all add: cs_laws_def)
  have st: "\<not> next_fails ?st" "tick_fault ?st = ?st" using assms(3) by (simp_all add: next_fails_def tick_fault_def)
  have "store_new_challenge ?id c ?st = (Inr (resp_ok ''created''), ?new)"
    using assms(3,4) by (simp add: store_new_challenge_def andthen_read st put_quiet)
  then have "create_challenge (do_env.truncate env) ?id ?req ?st = (Inr (resp_ok ''created''), ?new)"
    using l assms(7) by (simp add: create_challenge_def read_body_def MAX_DO_BODY_SIZE_def MAX_CHALLENGE_BODY_SIZE_def
        assms(8) generated_code_valid)
  then have "challenge_fetch (do_env.truncate env) (clk 1) ?req ?st = (Inr (resp_ok ''created''), ?new)"
    by (simp add: fetch_create[OF assms(5)])
  then have "send_request (do_env.truncate env) clk cid POST (challenge_path env cid ''/create'') (Some ?b) w =
      (Inr (resp_ok ''created''), w\<lparr>cw_objects := (cw_objects w)(cid := ?new)\<rparr>)"
    by (intro send_request_quiet[OF assms(1,2)]) simp
  then have "store_insert env clk cid c w = (Inr (), w\<lparr>cw_objects := (cw_objects w)(cid := ?new)\<rparr>)"
    using assms(6,7) by (simp add: store_insert_def resp_ok_def)
  then show ?thesis
    using assms(1-3) l(1) by (intro exI conjI) (assumption, simp add: undisturbed_def)
qed

subsection \<open>Where a state comes from\<close>

text \<open>serde_json keeps the state of a challenge, in the record and in the update read from it.\<close>

definition state_laws :: "challenge_store_env \<Rightarrow> uuid \<Rightarrow> bool" where
  "state_laws env cid \<longleftrightarrow>
     validate_challenge_id (cse_uuid_text env cid) = Inr () \<and>
     (\<forall>c u. de_parse_update env (cse_serialise env c) = Inr u \<longrightarrow> cu_state u = cc_state c) \<and>
     (\<forall>c d. de_parse_challenge env (cse_serialise env c) = Inr d \<longrightarrow> cc_state d = cc_state c)"

text \<open>The state of the record in the storage of a challenge's object.\<close>

definition stored_state :: "string \<Rightarrow> challenge_storage \<Rightarrow> challenge_state option" where
  "stored_state uuid st = map_option cc_state (slot_challenge (kv st (ch_key uuid)))"

lemma get_state:
  "get_challenge t uuid st = (x, st') \<Longrightarrow> stored_state uuid st' \<in> {None, stored_state uuid st}"
  by (auto simp: stored_state_def dest!: get_challenge_kv)

lemma update_state:
  assumes "update_challenge env t uuid req st = (x, st')" "rq_body req = Some b"
    and "\<And>u. de_parse_update env b = Inr u \<Longrightarrow> cu_state u = s"
  shows "stored_state uuid st' \<in> {stored_state uuid st, Some s}"
proof -
  consider "kv st' = kv st"
    | c u where "de_parse_update env b = Inr u" "update_existing t uuid c u (tick_fault st) = (x, st')"
    using assms(1,2)
    by (auto simp: update_challenge_def read_body_def andthen_read slot_challenge_Some_iff
        split: sum.splits option.splits if_splits)
  then show ?thesis
  proof cases
    case 1
    then show ?thesis by (simp add: stored_state_def)
  next
    case 2
    with update_existing_kv[OF 2(2)] assms(3) show ?thesis by (auto simp: stored_state_def)
  qed
qed

lemma create_state:
  assumes "create_challenge env uuid req st = (x, st')" "rq_body req = Some b"
    and "\<And>c. de_parse_challenge env b = Inr c \<Longrightarrow> cc_state c = s"
  shows "stored_state uuid st' \<in> {stored_state uuid st, Some s}"
proof -
  consider "kv st' = kv st" | c where "de_parse_challenge env b = Inr c" "store_new_challenge uuid c st = (x, st')"
    using assms(1,2)
    by (auto simp: create_challenge_def read_body_def split: sum.splits option.splits if_splits)
  then show ?thesis
  proof cases
    case 1
    then show ?thesis by (simp add: stored_state_def)
  next
    case 2
    with store_new_challenge_kv[OF 2(2)] assms(3) show ?thesis by (auto simp: stored_state_def)
  qed
qed

abbreviation state_at :: "challenge_store_env \<Rightarrow> uuid \<Rightarrow> challenge_world \<Rightarrow> challenge_state option" where
  "state_at env cid w \<equiv> stored_state (cse_uuid_text env cid) (cw_objects w cid)"

lemma send_request_keeps:
  assumes "send_request e clk sid m p b w = (r, w')" "Q (cw_objects w cid)"
    and "\<And>t x st st'. sid = cid \<Longrightarrow> challenge_fetch e t \<lparr>rq_path = p, rq_method = m,
      rq_body = Some (case b of None \<Rightarrow> [] | Some b \<Rightarrow> b)\<rparr> st = (x, st') \<Longrightarrow> Q st \<Longrightarrow> Q st'"
  shows "Q (cw_objects w' cid)"
proof -
  let ?req = "\<lparr>rq_path = p, rq_method = m, rq_body = Some (case b of None \<Rightarrow> [] | Some b \<Rightarrow> b)\<rparr>"
  have run: "Q (do_run e (map (\<lambda>t. (t, ?req)) ts) st)" if "Q st" "sid = cid" for ts st
    using that
  proof (induction ts arbitrary: st)
    case (Cons t ts)
    then show ?case using assms(3)[of t st] by (simp add: split_beta) (metis prod.collapse)
  qed simp
  from retry_loop_runs[OF assms(1)[unfolded send_request_def]] obtain ts where
    "cw_objects w' = (cw_objects w)(sid := do_run e (map (\<lambda>t. (t, ?req)) ts) (cw_objects w sid))"
    by (elim exE conjE) (rule that)
  with run assms(2) show ?thesis by auto
qed

lemma state_lawsD:
  assumes "state_laws env sid"
  shows "validate_challenge_id (cse_uuid_text env sid) = Inr ()"
    "de_parse_update (do_env.truncate env) (cse_serialise env c) = Inr u \<Longrightarrow> cu_state u = cc_state c"
    "de_parse_challenge (do_env.truncate env) (cse_serialise env c) = Inr d \<Longrightarrow> cc_state d = cc_state c"
  using assms unfolding state_laws_def cs_truncate_simps by blast+

lemma store_get_state:
  assumes "state_laws env sid" "store_get env clk sid w = (r, w')"
  shows "state_at env cid w' = None \<or> state_at env cid w' = state_at env cid w"
proof -
  obtain r1 w1 where s: "send_request (do_env.truncate env) clk sid GET (challenge_path env sid ''/get'') None w = (r1, w1)"
    "cw_objects w' = cw_objects w1"
    using assms(2) by (auto simp: store_get_def split: prod.splits sum.splits if_splits)
  let ?Q = "\<lambda>st. stored_state (cse_uuid_text env cid) st = None \<or> stored_state (cse_uuid_text env cid) st = state_at env cid w"
  have v: "validate_challenge_id (cse_uuid_text env sid) = Inr ()" by (rule state_lawsD(1)[OF assms(1)])
  have "?Q (cw_objects w1 cid)"
    by (rule send_request_keeps[OF s(1), where Q = ?Q])
      (use fetch_get[OF v] get_state in \<open>force+\<close>)
  then show ?thesis by (simp add: s(2))
qed

lemma store_get_reads_state:
  assumes "state_laws env cid" "store_get env clk cid w = (Inr (Some c), w')"
  shows "state_at env cid w = Some (cc_state c)"
proof -
  let ?e = "do_env.truncate env" and ?id = "cse_uuid_text env cid"
  let ?req = "\<lparr>rq_path = challenge_path env cid ''/get'', rq_method = GET, rq_body = Some []\<rparr>"
  have v: "validate_challenge_id ?id = Inr ()" by (rule state_lawsD(1)[OF assms(1)])
  obtain resp where s: "send_request ?e clk cid GET (challenge_path env cid ''/get'') None w = (Inr resp, w')"
    "accept_challenge env resp = Inr (Some c)"
    using assms(2) by (auto simp: store_get_def split: prod.splits sum.splits if_splits)
  then obtain d where d: "dr_body resp = ChallengeBody d" "de_parse_challenge ?e (cse_serialise env d) = Inr c"
    by (auto simp: accept_challenge_def split: do_body.splits sum.splits)
  note same = state_lawsD(3)[OF assms(1) d(2)]
  have "retry_loop [1 ..< Suc MAX_RETRIES] None (\<lambda>a. attempt_fetch ?e (clk a) cid ?req) w = (Inr resp, w')"
    using s(1) by (simp add: send_request_def)
  from retry_loop_runs[OF this] obtain ts0 t where r:
    "fst (challenge_fetch ?e t ?req (do_run ?e (map (\<lambda>t. (t, ?req)) ts0) (cw_objects w cid))) = Inr resp" by auto
  let ?st0 = "do_run ?e (map (\<lambda>t. (t, ?req)) ts0) (cw_objects w cid)"
  obtain st1 where g: "get_challenge t ?id ?st0 = (Inr resp, st1)"
    using r unfolding fetch_get[OF v] by (metis prod.collapse)
  have "stored_state ?id (do_run ?e (map (\<lambda>t. (t, ?req)) ts) st) \<in> {None, stored_state ?id st}" for ts st
  proof (induction ts arbitrary: st)
    case (Cons t ts)
    obtain x st1 where g1: "get_challenge t ?id st = (x, st1)" by fastforce
    with Cons.IH[of st1] get_state[OF g1] show ?case by (auto simp: fetch_get[OF v])
  qed simp
  moreover have "stored_state ?id ?st0 = Some (cc_state d)"
    using get_serves[OF g d(1)] by (simp add: stored_state_def)
  ultimately show ?thesis using same by (metis insertE option.distinct(1) singletonD)
qed

lemma fetch_create_path:
  assumes "validate_challenge_id (cse_uuid_text env cid) = Inr ()"
  shows "challenge_fetch e t \<lparr>rq_path = challenge_path env cid ''/create'', rq_method = POST, rq_body = b\<rparr> =
    create_challenge e (cse_uuid_text env cid) \<lparr>rq_path = challenge_path env cid ''/create'', rq_method = POST, rq_body = b\<rparr>"
    "challenge_fetch e t \<lparr>rq_path = challenge_path env cid ''/update'', rq_method = POST, rq_body = b\<rparr> =
    update_challenge e t (cse_uuid_text env cid) \<lparr>rq_path = challenge_path env cid ''/update'', rq_method = POST, rq_body = b\<rparr>"
  using split_challenge_path(1,2)[OF no_slash_id[OF assms]]
  by (simp_all add: challenge_fetch_def challenge_path_def)

lemma store_insert_state:
  assumes "state_laws env sid" "store_insert env clk sid c w = (r, w')"
  shows "state_at env cid w' = state_at env cid w \<or> sid = cid \<and> state_at env cid w' = Some (cc_state c)"
proof -
  have v: "validate_challenge_id (cse_uuid_text env sid) = Inr ()" by (rule state_lawsD(1)[OF assms(1)])
  let ?Q = "\<lambda>st. stored_state (cse_uuid_text env cid) st = state_at env cid w \<or>
     sid = cid \<and> stored_state (cse_uuid_text env cid) st = Some (cc_state c)"
  consider "w' = w" | r1 where "send_request (do_env.truncate env) clk sid POST (challenge_path env sid ''/create'')
      (Some (cse_serialise env c)) w = (r1, w')"
    using assms(2) by (auto simp: store_insert_def Let_def split: if_splits prod.splits sum.splits)
  then show ?thesis
  proof cases
    case 2
    have "?Q (cw_objects w' cid)"
    proof (rule send_request_keeps[OF 2, where Q = ?Q])
      fix t x st st'
      assume a: "sid = cid" "challenge_fetch (do_env.truncate env) t \<lparr>rq_path = challenge_path env sid ''/create'', rq_method = POST,
          rq_body = Some (case Some (cse_serialise env c) of None \<Rightarrow> [] | Some b \<Rightarrow> b)\<rparr> st = (x, st')" "?Q st"
      from a(2) have "create_challenge (do_env.truncate env) (cse_uuid_text env sid) \<lparr>rq_path = challenge_path env sid ''/create'',
          rq_method = POST, rq_body = Some (cse_serialise env c)\<rparr> st = (x, st')" by (simp add: fetch_create_path[OF v])
      from create_state[OF this _ state_lawsD(3)[OF assms(1)], of "cse_serialise env c" c] a(1,3) show "?Q st'" by auto
    qed simp
    then show ?thesis by blast
  qed simp
qed

lemma store_put_state:
  assumes "state_laws env sid" "store_put env clk clk' sid c w = (r, w')"
  shows "state_at env cid w' = state_at env cid w \<or> sid = cid \<and> state_at env cid w' = Some (cc_state c)"
proof -
  have v: "validate_challenge_id (cse_uuid_text env sid) = Inr ()" by (rule state_lawsD(1)[OF assms(1)])
  let ?Q = "\<lambda>st. stored_state (cse_uuid_text env cid) st = state_at env cid w \<or>
     sid = cid \<and> stored_state (cse_uuid_text env cid) st = Some (cc_state c)"
  obtain r1 w1 where u: "store_update env clk sid c w = (r1, w1)" by fastforce
  consider "cw_objects w1 = cw_objects w" | r2 w2 where "send_request (do_env.truncate env) clk sid POST
      (challenge_path env sid ''/update'') (Some (cse_serialise env c)) w = (r2, w2)" "cw_objects w1 = cw_objects w2"
    using u by (auto simp: store_update_def Let_def split: if_splits prod.splits sum.splits)
  then have "?Q (cw_objects w1 cid)"
  proof cases
    case 2
    have "?Q (cw_objects w2 cid)"
    proof (rule send_request_keeps[OF 2(1), where Q = ?Q])
      fix t x st st'
      assume a: "sid = cid" "challenge_fetch (do_env.truncate env) t \<lparr>rq_path = challenge_path env sid ''/update'', rq_method = POST,
          rq_body = Some (case Some (cse_serialise env c) of None \<Rightarrow> [] | Some b \<Rightarrow> b)\<rparr> st = (x, st')" "?Q st"
      from a(2) have "update_challenge (do_env.truncate env) t (cse_uuid_text env sid) \<lparr>rq_path = challenge_path env sid ''/update'',
          rq_method = POST, rq_body = Some (cse_serialise env c)\<rparr> st = (x, st')" by (simp add: fetch_create_path[OF v])
      from update_state[OF this _ state_lawsD(2)[OF assms(1)], of "cse_serialise env c" c] a(1,3) show "?Q st'" by auto
    qed simp
    then show ?thesis by (simp add: 2(2))
  qed simp
  consider "w' = w1" | "store_insert env clk' sid c w1 = (r, w')"
    using assms(2) u by (auto simp: store_put_def split: sum.splits api_error.splits)
  then show ?thesis
  proof cases
    case 2
    with \<open>?Q (cw_objects w1 cid)\<close> store_insert_state[OF assms(1) 2, of cid] show ?thesis by metis
  qed (use \<open>?Q (cw_objects w1 cid)\<close> in simp)
qed

end
