(* ===== verification/Single_Use.thy ===== *)
theory Single_Use imports Prelude begin

text \<open>
  The contract of a single-use store: a tag that was claimed is held for its time to live, a
  claim of a held tag is refused, and no operation of the store releases a tag early.  The
  consequence every client relies on is proved here once: within the lifetime of a successful
  claim no other claim of the same tag succeeds, whatever happens in between.  Times are what the callers'
  clock reads (milliseconds); \<open>clock\<close> turns them into the seconds lifetimes are counted in.  The nonce
  Durable Object and the sharded nonce store in front of it are interpretations.
\<close>

text \<open>
  A trace of a store: claims, each made in a state that satisfies \<open>ok\<close> and with its outcome,
  and other operations such as the cleanup alarm, all with their times.
\<close>

inductive claim_trace ::
    "('k \<Rightarrow> u64 \<Rightarrow> u64 \<Rightarrow> 'w \<Rightarrow> ('e + bool) \<times> 'w) \<Rightarrow> ('w \<Rightarrow> bool) \<Rightarrow> (u64 \<Rightarrow> 'w \<Rightarrow> 'w \<Rightarrow> bool) \<Rightarrow>
     'w \<Rightarrow> (u64 \<times> ('k \<times> ('e + bool)) option) list \<Rightarrow> 'w \<Rightarrow> bool"
  for claim ok other where
  finished: "claim_trace claim ok other w [] w"
| claim: "ok w \<Longrightarrow> claim k now ttl w = (r, w1) \<Longrightarrow> claim_trace claim ok other w1 es w2 \<Longrightarrow>
     claim_trace claim ok other w ((now, Some (k, r)) # es) w2"
| other: "other now w w1 \<Longrightarrow> claim_trace claim ok other w1 es w2 \<Longrightarrow>
     claim_trace claim ok other w ((now, None) # es) w2"

inductive_cases claim_trace_NilE: "claim_trace claim ok other w [] w'"
inductive_cases claim_trace_ConsE: "claim_trace claim ok other w (e # es) w'"

locale single_use =
  fixes claim :: "'k \<Rightarrow> u64 \<Rightarrow> u64 \<Rightarrow> 'w \<Rightarrow> ('e + bool) \<times> 'w"
    and ok :: "'w \<Rightarrow> bool"
    and other :: "u64 \<Rightarrow> 'w \<Rightarrow> 'w \<Rightarrow> bool"
    and held :: "'w \<Rightarrow> 'k \<Rightarrow> u64 \<Rightarrow> bool"
    and clock :: "u64 \<Rightarrow> u64"
  assumes held_down: "held w k t \<Longrightarrow> now \<le> t \<Longrightarrow> held w k now"
    and refused: "ok w \<Longrightarrow> held w k (clock now) \<Longrightarrow> claim k now ttl w = (Inr b, w') \<Longrightarrow> \<not> b"
    and claimed: "claim k now ttl w = (Inr True, w') \<Longrightarrow> held w' k (sat_add (clock now) ttl)"
    and claim_keeps: "ok w \<Longrightarrow> claim k now ttl w = (r, w') \<Longrightarrow> held w k' t \<Longrightarrow> clock now \<le> t \<Longrightarrow> held w' k' t"
    and other_keeps: "other now w w' \<Longrightarrow> held w k t \<Longrightarrow> clock now \<le> t \<Longrightarrow> held w' k t"
begin

lemma held_blocks:
  assumes "claim_trace claim ok other w es w'" "held w k t"
    and "\<forall>e\<in>set es. clock (fst e) \<le> t"
  shows "\<forall>e\<in>set es. snd e \<noteq> Some (k, Inr True)"
  using assms
proof (induction rule: claim_trace.induct)
  case (claim w k' now ttl r w1 es w2)
  then have "held w1 k t" by (auto dest: claim_keeps)
  moreover have "k' = k \<longrightarrow> r \<noteq> Inr True"
    using claim.hyps(1,2) claim.prems held_down refused by fastforce
  ultimately show ?case using claim by auto
next
  case (other now w w1 es w2)
  then have "held w1 k t" by (auto dest: other_keeps)
  with other show ?case by auto
qed simp

lemma single_use:
  assumes "claim k now ttl w = (Inr True, w1)" "claim_trace claim ok other w1 es w2"
    and "\<forall>e\<in>set es. clock (fst e) \<le> sat_add (clock now) ttl"
  shows "\<forall>e\<in>set es. snd e \<noteq> Some (k, Inr True)"
  using held_blocks[OF assms(2) claimed[OF assms(1)] assms(3)] .

lemma held_persists:
  assumes "claim_trace claim ok other w es w'" "held w k t" "\<forall>e\<in>set es. clock (fst e) \<le> t"
  shows "held w' k t"
  using assms
  by (induction rule: claim_trace.induct) (auto dest: claim_keeps other_keeps)

lemma claimed_once:
  assumes "claim k now ttl w = (Inr True, w1)" "claim_trace claim ok other w1 es w2"
    and "\<forall>e\<in>set es. clock (fst e) \<le> sat_add (clock now) ttl"
    and "ok w2" "clock now' \<le> sat_add (clock now) ttl"
  shows "claim k now' ttl' w2 \<noteq> (Inr True, w3)"
  using held_down[OF held_persists[OF assms(2) claimed[OF assms(1)] assms(3)] assms(5)] assms(4) refused by blast

end

end
