(* ===== verification/Nonce_DO.thy ===== *)
theory Nonce_DO imports Single_Use Do_Runtime Audit_Event Validation begin

text \<open>
  \<open>src/durable_objects/nonce_do.rs\<close>, the Durable Object that consumes nonces, and
  \<open>src/storage/durable_object_store.rs\<close>, the sharded store in front of it.  Percent coding,
  JSON parsing, the shard hash and the Unicode table are arguments; the listing an alarm works
  on is the platform's answer to \<open>list_with_options\<close>.
\<close>

record nonce_entry =
  nn_created_at :: u64
  nn_expires_at :: u64

text \<open>A stored value: an entry, or something that does not deserialise as one.\<close>

datatype nonce_slot = NEntry nonce_entry | NCorrupt

type_synonym nonce_storage = "nonce_slot storage"

record nonce_env =
  ne_decode :: "string \<Rightarrow> string option"
  ne_parse_ttl :: "bytes \<Rightarrow> string + u64"
  ne_uni :: "nat \<Rightarrow> bool"

datatype nonce_body = NText string | NResult bool "audit_event list"

record nonce_response =
  nr_status :: nat
  nr_body :: nonce_body

definition MAX_NONCE_BODY_SIZE :: nat where "MAX_NONCE_BODY_SIZE = 4096"
definition ALARM_INTERVAL_MS :: u64 where "ALARM_INTERVAL_MS = 60000"
definition NONCE_KEY_PREFIX :: string where "NONCE_KEY_PREFIX = ''nonce:''"

definition nonce_key :: "string \<Rightarrow> string" where
  "nonce_key tag = NONCE_KEY_PREFIX @ tag"

definition nonce_text :: "string \<Rightarrow> nat \<Rightarrow> nonce_response" where
  "nonce_text msg st = \<lparr>nr_status = st, nr_body = NText msg\<rparr>"

definition nonce_json :: "bool \<Rightarrow> audit_event list \<Rightarrow> nonce_response" where
  "nonce_json ok evs = \<lparr>nr_status = 200, nr_body = NResult ok evs\<rparr>"

fun slot_entry :: "nonce_slot option \<Rightarrow> nonce_entry option" where
  "slot_entry (Some (NEntry e)) = Some e"
| "slot_entry _ = None"

definition replay_event :: "string \<Rightarrow> nonce_entry \<Rightarrow> audit_event" where
  "replay_event tag e = audit_event_default\<lparr>ae_event_type := ''nonce_replay_detected'',
     ae_severity := ''critical'',
     ae_message := ''Replay attack: nonce_tag='' @ tag @ '' already used'',
     ae_resource_id := tag, ae_component := ''nonce_do'',
     ae_details := [(''nonce_tag'', JStr tag), (''created_at'', jnum (nn_created_at e)),
                    (''expires_at'', jnum (nn_expires_at e))]\<rparr>"

definition ensure_alarm_scheduled :: "u64 \<Rightarrow> (nonce_storage, worker_error, unit) step" where
  "ensure_alarm_scheduled now_ms =
     andthen st_get_alarm (\<lambda>existing.
       if existing = None then st_set_alarm now_ms ALARM_INTERVAL_MS else ret ())"

text \<open>The check and set proper: from the read of the entry on.\<close>

definition consume_nonce ::
    "u64 \<Rightarrow> string \<Rightarrow> u64 \<Rightarrow> (nonce_storage, worker_error, nonce_response) step" where
  "consume_nonce now_ms tag ttl =
     (let now = now_secs now_ms; key = nonce_key tag in
      andthen (st_get_or_none key) (\<lambda>v.
        (let fresh =
           andthen (st_put key (NEntry \<lparr>nn_created_at = now, nn_expires_at = sat_add now ttl\<rparr>)) (\<lambda>_.
           andthen (ensure_alarm_scheduled now_ms) (\<lambda>_.
           ret (nonce_json True [])))
         in case slot_entry v of
              Some e \<Rightarrow> if nn_expires_at e \<ge> now then ret (nonce_json False [replay_event tag e]) else fresh
            | None \<Rightarrow> fresh)))"

definition set_nonce ::
    "nonce_env \<Rightarrow> u64 \<Rightarrow> string \<Rightarrow> do_request \<Rightarrow> (nonce_storage, worker_error, nonce_response) step" where
  "set_nonce env now_ms tag req =
     (case validate_nonce_tag (ne_uni env) tag of
        Inl _ \<Rightarrow> ret (nonce_text ''Invalid nonce tag'' 400)
      | Inr _ \<Rightarrow>
          andthen (read_body req) (\<lambda>body.
          if length body > MAX_NONCE_BODY_SIZE then ret (nonce_text ''Request entity too large'' 413)
          else case ne_parse_ttl env body of
                 Inl e \<Rightarrow> stop (invalid_json e)
               | Inr ttl \<Rightarrow> consume_nonce now_ms tag ttl))"

definition nonce_fetch ::
    "nonce_env \<Rightarrow> u64 \<Rightarrow> do_request \<Rightarrow> (nonce_storage, worker_error, nonce_response) step" where
  "nonce_fetch env now_ms req =
     (case strip_prefix (rq_path req) ''/nonce/'' of
        None \<Rightarrow> ret (nonce_text ''Invalid path'' 400)
      | Some encoded \<Rightarrow>
          (case ne_decode env encoded of
             None \<Rightarrow> stop (RustError ''Invalid UTF-8 in nonce tag: '')
           | Some tag \<Rightarrow>
               (case rq_method req of
                  POST \<Rightarrow> set_nonce env now_ms tag req
                | _ \<Rightarrow> ret (nonce_text ''Method not allowed'' 405))))"

subsection \<open>Cleanup\<close>

text \<open>The loop over the listed entries: the keys to delete, and the number that remain.\<close>

fun cleanup_scan :: "u64 \<Rightarrow> (string \<times> nonce_slot) list \<Rightarrow> string list \<times> nat" where
  "cleanup_scan now [] = ([], 0)"
| "cleanup_scan now ((key, v) # es) =
     (let (dels, remaining) = cleanup_scan now es in
      if key = [] then (dels, remaining)
      else case v of
             NEntry e \<Rightarrow> if nn_expires_at e < now then (key # dels, remaining) else (dels, remaining + 1)
           | NCorrupt \<Rightarrow> (key # dels, remaining))"

definition cleanup_expired_nonces ::
    "u64 \<Rightarrow> (string \<times> nonce_slot) list \<Rightarrow> (nonce_storage, worker_error, unit) step" where
  "cleanup_expired_nonces now_ms listing =
     andthen (st_list listing) (\<lambda>entries.
       (let (dels, remaining) = cleanup_scan (now_secs now_ms) entries in
        andthen (if dels \<noteq> [] then st_delete_multiple (set dels) else ret ()) (\<lambda>_.
        if remaining > 0 then st_set_alarm now_ms ALARM_INTERVAL_MS else ret ())))"

text \<open>The alarm: the runtime has cleared it when the handler starts.\<close>

definition nonce_alarm ::
    "u64 \<Rightarrow> (string \<times> nonce_slot) list \<Rightarrow> (nonce_storage, worker_error, nonce_response) step" where
  "nonce_alarm now_ms listing = (\<lambda>st.
     andthen (cleanup_expired_nonces now_ms listing) (\<lambda>_. ret (nonce_text ''alarm_handled'' 200))
       (st\<lparr>alarm_at := None\<rparr>))"

subsection \<open>Lemmas\<close>

lemma nonce_key_simps [simp]: "nonce_key a = nonce_key b \<longleftrightarrow> a = b" "nonce_key a \<noteq> []"
  "starts_with (nonce_key a) NONCE_KEY_PREFIX"
  by (simp_all add: nonce_key_def NONCE_KEY_PREFIX_def)

lemma slot_entry_Some_iff: "slot_entry v = Some e \<longleftrightarrow> v = Some (NEntry e)"
  by (cases v rule: slot_entry.cases) auto

lemma cleanup_scan_dels:
  "k \<in> set (fst (cleanup_scan now es)) \<longleftrightarrow>
     k \<noteq> [] \<and> (\<exists>v. (k, v) \<in> set es \<and> (v = NCorrupt \<or> (\<exists>e. v = NEntry e \<and> nn_expires_at e < now)))"
proof (induction es)
  case (Cons a es)
  obtain key v where a: "a = (key, v)" by fastforce
  show ?case
    using Cons by (cases v) (auto simp: a Let_def split: prod.split)
qed simp

lemma cleanup_scan_remaining:
  "0 < snd (cleanup_scan now es) \<longleftrightarrow>
     (\<exists>k e. (k, NEntry e) \<in> set es \<and> k \<noteq> [] \<and> now \<le> nn_expires_at e)"
proof (induction es)
  case (Cons a es)
  obtain key v where a: "a = (key, v)" by fastforce
  show ?case
  proof (cases v)
    case (NEntry e)
    with Cons show ?thesis
      by (cases "key = []"; cases "nn_expires_at e < now")
        (auto simp: a Let_def not_less split: prod.split)
  next
    case NCorrupt
    with Cons show ?thesis
      by (auto simp: a Let_def split: prod.split)
  qed
qed simp

text \<open>A tag is held until \<open>t\<close> when its entry expires at \<open>t\<close> or later.\<close>

definition nonce_held :: "nonce_storage \<Rightarrow> string \<Rightarrow> u64 \<Rightarrow> bool" where
  "nonce_held st tag t \<longleftrightarrow> (\<exists>e. kv st (nonce_key tag) = Some (NEntry e) \<and> t \<le> nn_expires_at e)"

lemma ensure_alarm_kv: "ensure_alarm_scheduled n st = (x, st') \<Longrightarrow> kv st' = kv st"
  by (auto simp: ensure_alarm_scheduled_def andthen_def st_get_alarm_def st_set_alarm_def
      split: prod.splits sum.splits if_splits)

lemma consume_nonce_kv:
  assumes "consume_nonce now_ms tag ttl st = (x, st')"
  shows "(kv st' = kv st \<and> (\<forall>r. x = Inr r \<longrightarrow> (\<exists>evs. r = nonce_json False evs))) \<or>
    ((next_fails st \<or> \<not> nonce_held st tag (now_secs now_ms)) \<and>
     kv st' = (kv st)(nonce_key tag := Some (NEntry \<lparr>nn_created_at = now_secs now_ms,
                nn_expires_at = sat_add (now_secs now_ms) ttl\<rparr>)) \<and>
     (\<forall>r. x = Inr r \<longrightarrow> r = nonce_json True []))"
  using assms
  by (auto simp: consume_nonce_def Let_def andthen_def st_get_or_none_eq st_put_def nonce_held_def
      slot_entry_Some_iff split: prod.splits sum.splits option.splits if_splits dest!: ensure_alarm_kv)

subsection \<open>Single use\<close>

text \<open>The claim of a tag at the object: the flag of its answer.\<close>

definition do_claim :: "string \<Rightarrow> u64 \<Rightarrow> u64 \<Rightarrow> nonce_storage \<Rightarrow> (worker_error + bool) \<times> nonce_storage" where
  "do_claim tag now_ms ttl st =
     (case consume_nonce now_ms tag ttl st of
        (Inl e, st') \<Rightarrow> (Inl e, st')
      | (Inr r, st') \<Rightarrow>
          (case nr_body r of NResult b _ \<Rightarrow> (Inr b, st') | NText m \<Rightarrow> (Inl (RustError m), st')))"

definition alarm_fires :: "u64 \<Rightarrow> nonce_storage \<Rightarrow> nonce_storage \<Rightarrow> bool" where
  "alarm_fires now_ms st st' \<longleftrightarrow>
     (\<exists>listing. lists_prefix (kv st) NONCE_KEY_PREFIX listing \<and> st' = snd (nonce_alarm now_ms listing st))"

lemma do_claim_kv:
  assumes "do_claim tag now_ms ttl st = (r, st')"
  shows "(kv st' = kv st \<and> r \<noteq> Inr True) \<or>
    ((next_fails st \<or> \<not> nonce_held st tag (now_secs now_ms)) \<and> r \<noteq> Inr False \<and>
     kv st' = (kv st)(nonce_key tag := Some (NEntry \<lparr>nn_created_at = now_secs now_ms,
                nn_expires_at = sat_add (now_secs now_ms) ttl\<rparr>)))"
proof -
  obtain x st1 where c: "consume_nonce now_ms tag ttl st = (x, st1)" by fastforce
  from consume_nonce_kv[OF c] assms c show ?thesis
    by (auto simp: do_claim_def nonce_json_def split: sum.splits)
qed

lemma cleanup_kv:
  assumes "cleanup_expired_nonces now_ms listing st = (x, st')"
  shows "kv st' = kv st \<or>
    kv st' = (\<lambda>k. if k \<in> set (fst (cleanup_scan (now_secs now_ms) listing)) then None else kv st k)"
proof (cases "next_fails st")
  case True
  with assms show ?thesis
    by (auto simp: cleanup_expired_nonces_def andthen_def st_list_def)
next
  case False
  let ?s = "cleanup_scan (now_secs now_ms) listing"
  let ?del = "if fst ?s \<noteq> [] then st_delete_multiple (set (fst ?s)) else ret ()"
  have "andthen ?del (\<lambda>_. if snd ?s > 0 then st_set_alarm now_ms ALARM_INTERVAL_MS else ret ())
          (tick_fault st) = (x, st')"
    using assms False
    by (simp add: cleanup_expired_nonces_def andthen_def st_list_def Let_def split_beta)
  moreover obtain y st1 where d: "?del (tick_fault st) = (y, st1)" by fastforce
  ultimately have "kv st' = kv st1"
    by (auto simp: andthen_def split: sum.splits if_splits dest: st_alarm_kv(2))
  moreover have "kv st1 = kv st \<or> kv st1 = (\<lambda>k. if k \<in> set (fst ?s) then None else kv st k)"
    using d by (auto split: if_splits dest!: st_delete_multiple_cases)
  ultimately show ?thesis by auto
qed

lemma alarm_keeps_held:
  assumes "alarm_fires now_ms st st'" "nonce_held st tag t" "now_secs now_ms \<le> t"
  shows "nonce_held st' tag t"
proof -
  obtain listing where l: "lists_prefix (kv st) NONCE_KEY_PREFIX listing"
      "st' = snd (nonce_alarm now_ms listing st)" using assms(1) by (auto simp: alarm_fires_def)
  obtain x st1 where c: "cleanup_expired_nonces now_ms listing (st\<lparr>alarm_at := None\<rparr>) = (x, st1)"
    by fastforce
  then have st': "st' = st1"
    using l(2) by (auto simp: nonce_alarm_def andthen_def ret_def split: sum.splits)
  obtain e where e: "kv st (nonce_key tag) = Some (NEntry e)" "t \<le> nn_expires_at e"
    using assms(2) by (auto simp: nonce_held_def)
  have "nonce_key tag \<notin> set (fst (cleanup_scan (now_secs now_ms) listing))"
    using l(1) e assms(3) by (auto simp: cleanup_scan_dels lists_prefix_def)
  with cleanup_kv[OF c] e show ?thesis by (auto simp: st' nonce_held_def)
qed

lemma do_claim_keeps_held:
  assumes "do_claim tag now_ms ttl st = (r, st')" "reads_ok st" "nonce_held st tag' t" "now_secs now_ms \<le> t"
  shows "nonce_held st' tag' t"
  using do_claim_kv[OF assms(1)] assms(2-)
  by (cases "tag' = tag") (auto simp: nonce_held_def)

interpretation nonce_do: single_use do_claim reads_ok alarm_fires nonce_held now_secs
proof unfold_locales
  show "nonce_held w k t \<Longrightarrow> now \<le> t \<Longrightarrow> nonce_held w k now" for w k t now
    by (auto simp: nonce_held_def)
  show "\<not> next_fails w \<Longrightarrow> nonce_held w k (now_secs now) \<Longrightarrow> do_claim k now ttl w = (Inr b, w') \<Longrightarrow> \<not> b"
    for w k now ttl b w' by (auto dest!: do_claim_kv)
  show "do_claim k now ttl w = (Inr True, w') \<Longrightarrow> nonce_held w' k (sat_add (now_secs now) ttl)"
    for k now ttl w w' by (auto simp: nonce_held_def dest!: do_claim_kv)
  show "\<not> next_fails w \<Longrightarrow> do_claim k now ttl w = (r, w') \<Longrightarrow> nonce_held w k' t \<Longrightarrow>
      now_secs now \<le> t \<Longrightarrow> nonce_held w' k' t" for w k now ttl r w' k' t
    by (rule do_claim_keeps_held)
  show "alarm_fires now w w' \<Longrightarrow> nonce_held w k t \<Longrightarrow> now_secs now \<le> t \<Longrightarrow> nonce_held w' k t"
    for now w w' k t by (rule alarm_keeps_held)
qed

lemma do_claim_quiet:
  assumes "faults st = []"
  shows "do_claim tag now_ms ttl st =
    (Inr (\<not> nonce_held st tag (now_secs now_ms)),
     if nonce_held st tag (now_secs now_ms) then st
     else st\<lparr>kv := (kv st)(nonce_key tag := Some (NEntry \<lparr>nn_created_at = now_secs now_ms,
                nn_expires_at = sat_add (now_secs now_ms) ttl\<rparr>)),
             alarm_at := (if alarm_at st = None then Some (now_ms + ALARM_INTERVAL_MS) else alarm_at st)\<rparr>)"
proof -
  have t: "tick_fault s = s" "\<not> next_fails s" if "faults s = []" for s :: nonce_storage
    using that by (simp_all add: tick_fault_def)
  show ?thesis
  proof (cases "slot_entry (kv st (nonce_key tag))")
    case None
    then show ?thesis
      using assms
      by (auto simp: do_claim_def consume_nonce_def Let_def andthen_def st_get_or_none_eq t st_put_def
          ensure_alarm_scheduled_def st_get_alarm_def st_set_alarm_def nonce_held_def nonce_json_def ret_def)
  next
    case (Some e)
    then have "kv st (nonce_key tag) = Some (NEntry e)" by (simp add: slot_entry_Some_iff)
    then show ?thesis
      using assms
      by (auto simp: do_claim_def consume_nonce_def Let_def andthen_def st_get_or_none_eq t st_put_def
          ensure_alarm_scheduled_def st_get_alarm_def st_set_alarm_def nonce_held_def nonce_json_def ret_def)
  qed
qed

subsection \<open>Properties\<close>

text \<open>C23 A nonce is consumed once, as long as the storage read that each later claim starts with does not
  fail: after a claim of a tag succeeded, no other claim of that tag succeeds at any time up to the expiry of
  its entry, whatever other claims, failed writes and cleanup alarms happen in between.  A claim whose read
  fails takes the tag for a fresh one.\<close>

theorem nonce_single_use:
  assumes "do_claim tag now_ms ttl st = (Inr True, st1)"
    and "claim_trace do_claim reads_ok alarm_fires st1 es st2"
    and "\<forall>e\<in>set es. now_secs (fst e) \<le> sat_add (now_secs now_ms) ttl"
  shows "\<forall>e\<in>set es. snd e \<noteq> Some (tag, Inr True)"
  by (rule nonce_do.single_use[OF assms])

lemma nonce_single_use_witness:
  "\<exists>r st2 st1. do_claim ''redeem:x'' 5000000 300 empty_storage = (Inr True, st1) \<and>
     do_claim ''redeem:x'' 5300999 300 st1 = (r, st2) \<and> r \<noteq> Inr True"
proof -
  obtain r1 st1 where 1: "do_claim ''redeem:x'' 5000000 300 empty_storage = (r1, st1)" by fastforce
  obtain r2 st2 where 2: "do_claim ''redeem:x'' 5300999 300 st1 = (r2, st2)" by fastforce
  have f: "faults (empty_storage :: nonce_storage) = []" by (simp add: empty_storage_def)
  have T: "r1 = Inr True" using 1 do_claim_quiet[OF f, of "''redeem:x''" 5000000 300]
    by (simp add: nonce_held_def empty_storage_def)
  have "reads_ok st1" using 1 do_claim_quiet[OF f, of "''redeem:x''" 5000000 300]
    by (auto simp: empty_storage_def next_fails_def)
  then have tr: "claim_trace do_claim reads_ok alarm_fires st1 [(5300999, Some (''redeem:x'', r2))] st2"
    using 2 by (auto intro: claim_trace.intros)
  have "now_secs 5300999 \<le> sat_add (now_secs 5000000) 300"
    by (simp add: now_secs_def secs_of_millis_def sat_add_def)
  with nonce_single_use[OF 1[unfolded T] tr] 1 2 T show ?thesis by auto
qed

text \<open>Over storage that does not fail, a claim succeeds exactly when no entry of the tag is
  live, it then stores an entry that lives for its time to live and leaves a cleanup alarm
  pending, and a refused claim changes nothing; so a tag is free again once its entry has
  expired.\<close>

theorem nonce_claim_outcome:
  assumes "faults st = []"
  shows "\<exists>st'. do_claim tag now_ms ttl st = (Inr (\<not> nonce_held st tag (now_secs now_ms)), st') \<and>
     (if nonce_held st tag (now_secs now_ms) then st' = st
      else alarm_at st' \<noteq> None \<and>
           (\<forall>t. nonce_held st' tag t = (t \<le> sat_add (now_secs now_ms) ttl)) \<and>
           (\<forall>tag' t. (tag' \<noteq> tag \<and> nonce_held st' tag' t) = (tag' \<noteq> tag \<and> nonce_held st tag' t)))"
  using assms
  by (auto simp: do_claim_quiet) (auto simp: nonce_held_def)

lemma nonce_claim_outcome_witness:
  "\<exists>st'. do_claim ''verify:a'' 7000 60 empty_storage = (Inr True, st') \<and> alarm_at st' \<noteq> None"
  using nonce_claim_outcome[of empty_storage "''verify:a''" 7000 60]
  by (auto simp: empty_storage_def nonce_held_def)

text \<open>The cleanup alarm deletes exactly the expired and the corrupt entries among those listed:
  every live nonce survives, and the alarm is set again exactly when a live nonce remains.\<close>

theorem nonce_cleanup_exact:
  assumes "faults st = []" "lists_prefix (kv st) NONCE_KEY_PREFIX listing"
  shows "\<exists>st'. nonce_alarm now_ms listing st = (Inr (nonce_text ''alarm_handled'' 200), st') \<and>
    kv st' = (\<lambda>k. case kv st k of
        Some (NEntry e) \<Rightarrow>
          if starts_with k NONCE_KEY_PREFIX \<and> nn_expires_at e < now_secs now_ms then None else kv st k
      | Some NCorrupt \<Rightarrow> if starts_with k NONCE_KEY_PREFIX then None else kv st k
      | None \<Rightarrow> None) \<and>
    (alarm_at st' \<noteq> None \<longleftrightarrow>
       (\<exists>k e. kv st k = Some (NEntry e) \<and> starts_with k NONCE_KEY_PREFIX \<and> now_secs now_ms \<le> nn_expires_at e))"
proof -
  have ne: "starts_with k NONCE_KEY_PREFIX \<Longrightarrow> k \<noteq> []" for k
    by (auto simp: NONCE_KEY_PREFIX_def)
  let ?s = "cleanup_scan (now_secs now_ms) listing"
  let ?m = "\<lambda>k. if k \<in> set (fst ?s) then None else kv st k"
  have m: "?m = (\<lambda>k. case kv st k of
        Some (NEntry e) \<Rightarrow>
          if starts_with k NONCE_KEY_PREFIX \<and> nn_expires_at e < now_secs now_ms then None else kv st k
      | Some NCorrupt \<Rightarrow> if starts_with k NONCE_KEY_PREFIX then None else kv st k
      | None \<Rightarrow> None)"
    using assms(2) ne unfolding lists_prefix_def cleanup_scan_dels
    by (auto simp: fun_eq_iff split: option.splits nonce_slot.splits)
  have r: "0 < snd ?s \<longleftrightarrow>
       (\<exists>k e. kv st k = Some (NEntry e) \<and> starts_with k NONCE_KEY_PREFIX \<and> now_secs now_ms \<le> nn_expires_at e)"
    using assms(2) ne unfolding lists_prefix_def cleanup_scan_remaining by blast
  have e: "kv st = ?m" if "fst ?s = []" using that by simp
  have "\<exists>st'. nonce_alarm now_ms listing st = (Inr (nonce_text ''alarm_handled'' 200), st') \<and>
    kv st' = ?m \<and> (alarm_at st' \<noteq> None \<longleftrightarrow> 0 < snd ?s)"
    using assms(1) e
    by (simp add: nonce_alarm_def cleanup_expired_nonces_def andthen_def st_list_def Let_def split_beta
        st_delete_multiple_def st_set_alarm_def ret_def next_fails_def tick_fault_def cong: if_cong)
  then show ?thesis unfolding m r .
qed

lemma nonce_cleanup_exact_witness:
  "\<exists>st'. nonce_alarm 9000 [(''nonce:a'', NEntry \<lparr>nn_created_at = 1, nn_expires_at = 8\<rparr>)]
      \<lparr>kv = [''nonce:a'' \<mapsto> NEntry \<lparr>nn_created_at = 1, nn_expires_at = 8\<rparr>], alarm_at = Some 9000, faults = []\<rparr> =
      (Inr (nonce_text ''alarm_handled'' 200), st') \<and> kv st' ''nonce:a'' = None"
proof -
  let ?e = "NEntry \<lparr>nn_created_at = 1, nn_expires_at = 8\<rparr>"
  have l: "lists_prefix [''nonce:a'' \<mapsto> ?e] NONCE_KEY_PREFIX [(''nonce:a'', ?e)]"
    by (auto simp: lists_prefix_def NONCE_KEY_PREFIX_def split: if_splits)
  have n: "(8::u64) < now_secs 9000" by (simp add: now_secs_def secs_of_millis_def)
  show ?thesis
    using nonce_cleanup_exact[of "\<lparr>kv = [''nonce:a'' \<mapsto> ?e], alarm_at = Some 9000, faults = []\<rparr>"
        "[(''nonce:a'', ?e)]" 9000] l n
    by (auto simp: NONCE_KEY_PREFIX_def)
qed

text \<open>The object fails open on a failing read: when the read of the entry fails and the
  writes that follow do not, a claim of a tag that is still held succeeds, and its entry is
  overwritten.\<close>

theorem nonce_replay_on_failed_read:
  assumes "faults st = [True]" "nonce_held st tag (now_secs now_ms)"
  shows "fst (do_claim tag now_ms ttl st) = Inr True"
  using assms
  by (auto simp: do_claim_def consume_nonce_def Let_def andthen_def st_get_or_none_eq st_put_def
      ensure_alarm_scheduled_def st_get_alarm_def st_set_alarm_def nonce_json_def ret_def
      next_fails_def tick_fault_def)

lemma nonce_replay_on_failed_read_witness:
  "fst (do_claim ''redeem:x'' 5000000 300
     \<lparr>kv = [nonce_key ''redeem:x'' \<mapsto> NEntry \<lparr>nn_created_at = 4990, nn_expires_at = 5290\<rparr>],
      alarm_at = None, faults = [True]\<rparr>) = Inr True"
  by (rule nonce_replay_on_failed_read)
    (simp_all add: nonce_held_def now_secs_def secs_of_millis_def)

end
