(* ===== verification/Nonce_Store.thy ===== *)
theory Nonce_Store imports Nonce_DO begin

text \<open>
  \<open>src/storage/durable_object_store.rs\<close>: the nonce store the Worker uses.  It routes a tag to
  one of a fixed number of nonce objects by a hash of the tag, calls it under a timeout, and
  passes the audit events of the answer on.  The hash, the JSON body and percent coding are
  arguments with the laws their crates document.
\<close>

record nonce_store_env = nonce_env +
  se_encode :: "string \<Rightarrow> string"
  se_ttl_body :: "u64 \<Rightarrow> bytes"
  se_hash :: "string \<Rightarrow> u64"
  se_shard_count :: nat

record nonce_world =
  nw_shards :: "string \<Rightarrow> nonce_storage"
  nw_net :: "delivery list"
  nw_audit :: "audit_event list"

definition STORE_MAX_NONCE_TAG_LENGTH :: nat where "STORE_MAX_NONCE_TAG_LENGTH = 512"

definition calculate_nonce_shard_id :: "nonce_store_env \<Rightarrow> string \<Rightarrow> string" where
  "calculate_nonce_shard_id env tag =
     ''nonce-shard-'' @ show_nat (unat (se_hash env tag) mod se_shard_count env)"

text \<open>The input checks of \<open>check_and_set\<close>.\<close>

definition check_nonce_input :: "string \<Rightarrow> u64 \<Rightarrow> unit api_result" where
  "check_nonce_input tag ttl =
     (if tag = [] then bad ''Nonce tag must not be empty''
      else if length tag > STORE_MAX_NONCE_TAG_LENGTH then
        bad (''Nonce tag exceeds maximum length of '' @ show_nat STORE_MAX_NONCE_TAG_LENGTH @ '' bytes'')
      else if CHR 0x00 \<in> set tag then bad ''Nonce tag must not contain null bytes''
      else if ttl = 0 then bad ''Nonce TTL must be greater than zero''
      else Inr ())"

definition nonce_request :: "nonce_store_env \<Rightarrow> string \<Rightarrow> u64 \<Rightarrow> do_request" where
  "nonce_request env tag ttl =
     \<lparr>rq_path = ''/nonce/'' @ se_encode env tag, rq_method = POST, rq_body = Some (se_ttl_body env ttl)\<rparr>"

fun body_events :: "nonce_body \<Rightarrow> audit_event list" where
  "body_events (NText _) = []"
| "body_events (NResult _ evs) = evs"

text \<open>What the store makes of the answer: an \<open>Internal\<close> error unless it is the JSON object.\<close>

definition nonce_answer :: "(worker_error + nonce_response) option \<Rightarrow> bool api_result" where
  "nonce_answer r =
     (case r of
        None \<Rightarrow> Inl (Internal ''NonceDO fetch timed out after 2000ms'')
      | Some (Inl e) \<Rightarrow> Inl (Internal ''NonceDO fetch failed: '')
      | Some (Inr resp) \<Rightarrow>
          (case nr_body resp of
             NText _ \<Rightarrow> Inl (Internal ''NonceDO response parse failed: '')
           | NResult b _ \<Rightarrow> Inr b))"

definition answer_events :: "(worker_error + nonce_response) option \<Rightarrow> audit_event list" where
  "answer_events r = (case r of Some (Inr resp) \<Rightarrow> body_events (nr_body resp) | _ \<Rightarrow> [])"

definition check_and_set ::
    "nonce_store_env \<Rightarrow> string \<Rightarrow> u64 \<Rightarrow> u64 \<Rightarrow> nonce_world \<Rightarrow> bool api_result \<times> nonce_world" where
  "check_and_set env tag now_ms ttl w =
     (case check_nonce_input tag ttl of
        Inl e \<Rightarrow> (Inl e, w)
      | Inr _ \<Rightarrow>
          let shard = calculate_nonce_shard_id env tag;
              (r, st') = do_call (next_delivery (nw_net w))
                (nonce_fetch (nonce_env.truncate env) now_ms (nonce_request env tag ttl))
                (nw_shards w shard)
          in (nonce_answer r,
              w\<lparr>nw_shards := (nw_shards w)(shard := st'), nw_net := tl (nw_net w),
                nw_audit := nw_audit w @ answer_events r\<rparr>))"

subsection \<open>Single use across the shards\<close>

definition store_laws :: "nonce_store_env \<Rightarrow> bool" where
  "store_laws env \<longleftrightarrow> (\<forall>s. ne_decode env (se_encode env s) = Some s) \<and>
     (\<forall>t. ne_parse_ttl env (se_ttl_body env t) = Inr t) \<and>
     (\<forall>t. length (se_ttl_body env t) \<le> MAX_NONCE_BODY_SIZE)"

definition store_held :: "nonce_store_env \<Rightarrow> nonce_world \<Rightarrow> string \<Rightarrow> u64 \<Rightarrow> bool" where
  "store_held env w tag t \<longleftrightarrow> nonce_held (nw_shards w (calculate_nonce_shard_id env tag)) tag t"

definition store_ok :: "nonce_world \<Rightarrow> bool" where
  "store_ok w \<longleftrightarrow> (\<forall>s. reads_ok (nw_shards w s))"

definition store_alarm :: "u64 \<Rightarrow> nonce_world \<Rightarrow> nonce_world \<Rightarrow> bool" where
  "store_alarm now_ms w w' \<longleftrightarrow>
     (\<exists>s st'. alarm_fires now_ms (nw_shards w s) st' \<and> w' = w\<lparr>nw_shards := (nw_shards w)(s := st')\<rparr>)"

lemma truncate_simps [simp]:
  "ne_decode (nonce_env.truncate env) = ne_decode env"
  "ne_parse_ttl (nonce_env.truncate env) = ne_parse_ttl env"
  "ne_uni (nonce_env.truncate env) = ne_uni env"
  by (simp_all add: nonce_env.truncate_def)

lemma nonce_fetch_request:
  assumes "store_laws env"
  shows "nonce_fetch (nonce_env.truncate env) now_ms (nonce_request env tag ttl) =
    (case validate_nonce_tag (ne_uni env) tag of
       Inl _ \<Rightarrow> ret (nonce_text ''Invalid nonce tag'' 400)
     | Inr _ \<Rightarrow> consume_nonce now_ms tag ttl)"
proof -
  have p: "strip_prefix (rq_path (nonce_request env tag ttl)) ''/nonce/'' = Some (se_encode env tag)"
    unfolding nonce_request_def do_request.simps by (rule strip_prefix_append)
  have q: "rq_method (nonce_request env tag ttl) = POST" "rq_body (nonce_request env tag ttl) = Some (se_ttl_body env ttl)"
    by (simp_all add: nonce_request_def)
  have l: "ne_decode env (se_encode env tag) = Some tag" "ne_parse_ttl env (se_ttl_body env ttl) = Inr ttl"
    "\<not> MAX_NONCE_BODY_SIZE < length (se_ttl_body env ttl)"
    using assms by (simp_all add: store_laws_def not_less)
  show ?thesis
    by (simp add: nonce_fetch_def p q l set_nonce_def read_body_def split: sum.split)
qed

text \<open>The answer of a consumption, and the claim the object makes of it.\<close>

lemma consume_claim:
  "consume_nonce now_ms tag ttl st = (x, st') \<Longrightarrow>
   do_claim tag now_ms ttl st = (case x of Inl e \<Rightarrow> Inl e | Inr r \<Rightarrow>
     (case nr_body r of NResult b _ \<Rightarrow> Inr b | NText m \<Rightarrow> Inl (RustError m)), st')"
  by (auto simp: do_claim_def split: sum.split nonce_body.split)

lemma check_and_set_cases:
  assumes "store_laws env" "check_and_set env tag now_ms ttl w = (r, w')"
  defines "s \<equiv> calculate_nonce_shard_id env tag"
  shows "(nw_shards w' = nw_shards w \<and> r \<noteq> Inr True \<and> r \<noteq> Inr False) \<or>
    (\<exists>x st'. do_claim tag now_ms ttl (nw_shards w s) = (x, st') \<and>
       nw_shards w' = (nw_shards w)(s := st') \<and> (\<forall>b. r = Inr b \<longrightarrow> x = Inr b))"
proof (cases "check_nonce_input tag ttl")
  case (Inl e)
  with assms(2) show ?thesis by (auto simp: check_and_set_def)
next
  case (Inr u)
  let ?h = "nonce_fetch (nonce_env.truncate env) now_ms (nonce_request env tag ttl)"
  obtain a st' where c: "do_call (next_delivery (nw_net w)) ?h (nw_shards w s) = (a, st')" by fastforce
  have r: "r = nonce_answer a" and w': "nw_shards w' = (nw_shards w)(s := st')"
    using assms(2) Inr c by (auto simp: check_and_set_def s_def Let_def)
  consider (none) "a = None" "st' = nw_shards w s"
    | (run) "st' = snd (?h (nw_shards w s))" "a = None \<or> a = Some (fst (?h (nw_shards w s)))"
    using do_call_cases[OF c] by blast
  then show ?thesis
  proof cases
    case none
    then show ?thesis by (simp add: r w' nonce_answer_def)
  next
    case run
    show ?thesis
    proof (cases "validate_nonce_tag (ne_uni env) tag")
      case (Inl e)
      with run show ?thesis
        by (auto simp: nonce_fetch_request[OF assms(1)] r w' nonce_answer_def ret_def nonce_text_def)
    next
      case (Inr u)
      obtain x st2 where k: "consume_nonce now_ms tag ttl (nw_shards w s) = (x, st2)" by fastforce
      have "?h (nw_shards w s) = (x, st2)" using Inr k by (simp add: nonce_fetch_request[OF assms(1)])
      with run have st2: "st' = st2" "a = None \<or> a = Some x" by simp_all
      show ?thesis
        using st2(2) consume_claim[OF k]
        by (auto simp: r w' st2(1) nonce_answer_def split: sum.splits nonce_body.splits)
    qed
  qed
qed

lemma check_and_set_claim:
  assumes "store_laws env" "check_and_set env k now ttl w = (Inr b, w')"
  shows "\<exists>st'. do_claim k now ttl (nw_shards w (calculate_nonce_shard_id env k)) = (Inr b, st') \<and>
    nw_shards w' = (nw_shards w)(calculate_nonce_shard_id env k := st')"
  using check_and_set_cases[OF assms] by (cases b) auto

lemma store_claim_keeps:
  assumes "store_laws env" "store_ok w" "check_and_set env k now ttl w = (r, w')"
    and "store_held env w k' t" "now_secs now \<le> t"
  shows "store_held env w' k' t"
  using check_and_set_cases[OF assms(1,3)]
proof
  assume "nw_shards w' = nw_shards w \<and> r \<noteq> Inr True \<and> r \<noteq> Inr False"
  then show ?thesis using assms(4) by (simp add: store_held_def)
next
  let ?s = "calculate_nonce_shard_id env k"
  assume "\<exists>x st'. do_claim k now ttl (nw_shards w ?s) = (x, st') \<and>
       nw_shards w' = (nw_shards w)(?s := st') \<and> (\<forall>b. r = Inr b \<longrightarrow> x = Inr b)"
  then obtain x st' where c: "do_claim k now ttl (nw_shards w ?s) = (x, st')"
      "nw_shards w' = (nw_shards w)(?s := st')" by blast
  have ok: "reads_ok (nw_shards w ?s)" using assms(2) by (simp add: store_ok_def)
  show ?thesis
    using assms(4) nonce_do.claim_keeps[OF ok c(1) _ assms(5), of k']
    by (cases "calculate_nonce_shard_id env k' = ?s") (simp_all add: store_held_def c(2))
qed

lemma nonce_store_single_use:
  assumes "store_laws env"
  shows "single_use (check_and_set env) store_ok store_alarm (store_held env) now_secs"
proof unfold_locales
  show "store_held env w k t \<Longrightarrow> now \<le> t \<Longrightarrow> store_held env w k now" for w k t now
    by (auto simp: store_held_def dest: nonce_do.held_down)
  show "store_ok w \<Longrightarrow> store_held env w k (now_secs now) \<Longrightarrow>
      check_and_set env k now ttl w = (Inr b, w') \<Longrightarrow> \<not> b" for w k now ttl b w'
    using check_and_set_claim[OF assms, of k now ttl w b w']
    unfolding store_held_def store_ok_def by (metis nonce_do.refused)
  show "check_and_set env k now ttl w = (Inr True, w') \<Longrightarrow>
      store_held env w' k (sat_add (now_secs now) ttl)" for k now ttl w w'
    using check_and_set_claim[OF assms, of k now ttl w True w'] nonce_do.claimed
    by (auto simp: store_held_def)
  show "store_ok w \<Longrightarrow> check_and_set env k now ttl w = (r, w') \<Longrightarrow> store_held env w k' t \<Longrightarrow>
      now_secs now \<le> t \<Longrightarrow> store_held env w' k' t" for w k now ttl r w' k' t
    by (rule store_claim_keeps[OF assms])
  show "store_alarm now w w' \<Longrightarrow> store_held env w k t \<Longrightarrow> now_secs now \<le> t \<Longrightarrow> store_held env w' k t"
    for now w w' k t
    by (auto simp: store_held_def store_alarm_def intro: nonce_do.other_keeps)
qed

lemma quiet_claim:
  assumes "store_laws env" "validate_nonce_tag (ne_uni env) tag = Inr ()" "check_nonce_input tag ttl = Inr ()"
    and "\<And>s. faults (nw_shards w s) = []" "next_delivery (nw_net w) = Delivered"
    and "\<not> store_held env w tag (now_secs now_ms)"
  shows "\<exists>w1. check_and_set env tag now_ms ttl w = (Inr True, w1) \<and> (\<forall>s. faults (nw_shards w1 s) = []) \<and>
    nw_net w1 = tl (nw_net w) \<and> (\<forall>t. store_held env w1 tag t \<longleftrightarrow> t \<le> sat_add (now_secs now_ms) ttl)"
proof -
  let ?s = "calculate_nonce_shard_id env tag"
  obtain x st' where c: "consume_nonce now_ms tag ttl (nw_shards w ?s) = (x, st')" by fastforce
  have nh: "\<not> nonce_held (nw_shards w ?s) tag (now_secs now_ms)" using assms(6) by (simp add: store_held_def)
  have x: "x = Inr (nonce_json True [])" "faults st' = []"
    "kv st' (nonce_key tag) = Some (NEntry \<lparr>nn_created_at = now_secs now_ms, nn_expires_at = sat_add (now_secs now_ms) ttl\<rparr>)"
    using consume_claim[OF c] do_claim_quiet[OF assms(4), of tag now_ms ttl ?s] nh consume_nonce_kv[OF c] assms(4)[of ?s]
    by (auto simp: nonce_json_def split: sum.splits nonce_body.splits)
  have h: "nonce_fetch (nonce_env.truncate env) now_ms (nonce_request env tag ttl) (nw_shards w ?s) = (x, st')"
    using assms(2) c by (simp add: nonce_fetch_request[OF assms(1)])
  show ?thesis
    using assms(3-5) x h
    by (auto simp: check_and_set_def do_call_def nonce_answer_def nonce_json_def store_held_def nonce_held_def Let_def)
qed

subsection \<open>Properties\<close>

text \<open>C16 The nonce store detects replays as long as no storage read inside its objects fails: once
  \<open>check_and_set\<close> has answered that a tag is fresh, it never does so again for that tag while the time of
  each call is within the tag's time to live, for any assignment of tags to shards, any order of other claims
  and cleanup alarms, lost requests and lost answers, and failing writes.  With a failing read the object
  takes the tag for a fresh one, as \<open>nonce_replay_on_failed_read\<close> shows.\<close>

theorem nonce_store_detects_replay:
  assumes "store_laws env" "check_and_set env tag now_ms ttl w = (Inr True, w1)"
    and "claim_trace (check_and_set env) store_ok store_alarm w1 es w2"
    and "\<forall>e\<in>set es. now_secs (fst e) \<le> sat_add (now_secs now_ms) ttl"
  shows "\<forall>e\<in>set es. snd e \<noteq> Some (tag, Inr True)"
  by (rule single_use.single_use[OF nonce_store_single_use[OF assms(1)] assms(2-4)])

text \<open>An environment with identity percent coding and eight-byte bodies.\<close>

definition sample_store_env :: nonce_store_env where
  "sample_store_env = \<lparr>ne_decode = Some, ne_parse_ttl = (\<lambda>b. Inr (of_nat (le_value b))),
     ne_uni = (\<lambda>_. False), se_encode = (\<lambda>s. s), se_ttl_body = (\<lambda>t. le_bytes 8 (unat t)),
     se_hash = (\<lambda>s. of_nat (length s)), se_shard_count = 25\<rparr>"

definition sample_nonce_world :: "delivery list \<Rightarrow> nonce_world" where
  "sample_nonce_world ds = \<lparr>nw_shards = (\<lambda>_. empty_storage), nw_net = ds, nw_audit = []\<rparr>"

lemma sample_store_laws: "store_laws sample_store_env"
proof -
  have "unat t < 256 ^ 8" for t :: u64
    using unsigned_less[of t] by simp
  then show ?thesis
    by (simp add: store_laws_def sample_store_env_def le_value_le_bytes MAX_NONCE_BODY_SIZE_def)
qed

text \<open>A delivered claim of a valid tag in an empty store is fresh.\<close>

lemma sample_fresh_claim:
  assumes "validate_nonce_tag (ne_uni sample_store_env) tag = Inr ()" "check_nonce_input tag 300 = Inr ()"
    and "next_delivery ds = Delivered"
  shows "\<exists>w1. check_and_set sample_store_env tag now_ms 300 (sample_nonce_world ds) = (Inr True, w1) \<and> store_ok w1"
proof -
  let ?w = "sample_nonce_world ds"
  have "\<not> store_held sample_store_env ?w tag (now_secs now_ms)"
    by (simp add: sample_nonce_world_def empty_storage_def nonce_held_def store_held_def)
  from quiet_claim[OF sample_store_laws assms(1,2) _ _ this] assms(3) show ?thesis
    by (auto simp: sample_nonce_world_def empty_storage_def store_ok_def)
qed

lemma nonce_store_detects_replay_witness:
  "\<exists>r w1 w2. check_and_set sample_store_env ''redeem:x'' 5000000 300 (sample_nonce_world [Delivered, ReplyLost]) =
      (Inr True, w1) \<and>
    check_and_set sample_store_env ''redeem:x'' 5200000 300 w1 = (r, w2) \<and> r \<noteq> Inr True"
proof -
  have v: "validate_nonce_tag (ne_uni sample_store_env) ''redeem:x'' = Inr ()"
    by (simp add: validate_nonce_tag_def MAX_NONCE_TAG_LENGTH_def nonce_tag_char_def is_alphanumeric_def
        is_ascii_alphanumeric_def is_ascii_digit_def Let_def)
  have i: "check_nonce_input ''redeem:x'' 300 = Inr ()"
    by (simp add: check_nonce_input_def STORE_MAX_NONCE_TAG_LENGTH_def)
  from sample_fresh_claim[OF v i, of "[Delivered, ReplyLost]" 5000000] obtain w1 where
    1: "check_and_set sample_store_env ''redeem:x'' 5000000 300 (sample_nonce_world [Delivered, ReplyLost]) = (Inr True, w1)"
    "store_ok w1" by (auto simp: next_delivery_def)
  obtain r2 w2 where 2: "check_and_set sample_store_env ''redeem:x'' 5200000 300 w1 = (r2, w2)" by fastforce
  have tr: "claim_trace (check_and_set sample_store_env) store_ok store_alarm w1
      [(5200000, Some (''redeem:x'', r2))] w2"
    using 1(2) 2 by (auto intro: claim_trace.intros)
  have "now_secs 5200000 \<le> sat_add (now_secs 5000000) 300"
    by (simp add: now_secs_def secs_of_millis_def sat_add_def)
  with nonce_store_detects_replay[OF sample_store_laws 1(1) tr] 1 2 show ?thesis by auto
qed

end
