(* ===== verification/Idempotency_DO.thy ===== *)
theory Idempotency_DO imports Do_Runtime Validation Audit_Event begin

text \<open>
  \<open>src/durable_objects/idempotency_do.rs\<close>: the Durable Object that caches one response per
  idempotency key, first writer wins, with lazy, opportunistic and alarm-driven cleanup.
\<close>

record idem_entry =
  id_response_body :: string
  id_status_code :: u16
  id_created_at :: u64
  id_expires_at :: u64
  id_endpoint :: string
  id_fingerprint :: string

datatype idem_slot = IEntry idem_entry | ICorrupt

type_synonym idem_storage = "idem_slot storage"

record set_request =
  sr_response_body :: string
  sr_status_code :: u16
  sr_ttl_secs :: "u64 option"
  sr_endpoint :: string
  sr_fingerprint :: string

text \<open>\<open>CheckIdempotencyResponse\<close>\<close>

record idem_check =
  ck_exists :: bool
  ck_response_body :: "string option"
  ck_status_code :: "u16 option"
  ck_expired :: bool
  ck_fingerprint :: "string option"

datatype idem_body =
    IText string
  | ICheck idem_check
  | IDuplicate string u16
  | IStored nat nat u64
  | IDeleted bool

record idem_response =
  ir_status :: nat
  ir_body :: idem_body

definition DEFAULT_IDEMPOTENCY_TTL_SECS :: u64 where "DEFAULT_IDEMPOTENCY_TTL_SECS = 86400"
definition IDEM_ALARM_INTERVAL_MS :: u64 where "IDEM_ALARM_INTERVAL_MS = 300000"
definition MAX_IDEMPOTENCY_BODY_SIZE :: nat where "MAX_IDEMPOTENCY_BODY_SIZE = 131072"
definition IDEM_PREFIX :: string where "IDEM_PREFIX = ''idem:''"

definition idem_key :: "string \<Rightarrow> string" where "idem_key k = IDEM_PREFIX @ k"

definition is_expired :: "idem_entry \<Rightarrow> u64 \<Rightarrow> bool" where
  "is_expired e now \<longleftrightarrow> now > id_expires_at e"

definition idem_text :: "string \<Rightarrow> nat \<Rightarrow> idem_response" where
  "idem_text msg st = \<lparr>ir_status = st, ir_body = IText msg\<rparr>"

definition idem_json :: "idem_body \<Rightarrow> idem_response" where
  "idem_json b = \<lparr>ir_status = 200, ir_body = b\<rparr>"

subsection \<open>Key formats\<close>

text \<open>
  \<open>is_valid_uuid_v4\<close>, here and in \<open>src/security/idempotency.rs\<close>.  The variant character is
  hexadecimal at that point, so its lower case is the ASCII one.
\<close>

definition is_valid_uuid_v4 :: "string \<Rightarrow> bool" where
  "is_valid_uuid_v4 key =
     (if length key \<noteq> 36 then False
      else case split_on (CHR ''-'') key of
             [p0, p1, p2, p3, p4] \<Rightarrow>
               if length p0 \<noteq> 8 \<or> length p1 \<noteq> 4 \<or> length p2 \<noteq> 4 \<or> length p3 \<noteq> 4 \<or> length p4 \<noteq> 12
               then False
               else if \<not> list_all (\<lambda>p. list_all is_ascii_hexdigit (utf8_chars p)) [p0, p1, p2, p3, p4]
               then False
               else if \<not> starts_with p2 ''4'' then False
               else (case p3 of [] \<Rightarrow> False | c # _ \<Rightarrow> char_lower c \<in> set ''89ab'')
           | _ \<Rightarrow> False)"

text \<open>\<open>rfind(':')\<close> with the two halves around it.\<close>

definition rsplit_colon :: "string \<Rightarrow> (string \<times> string) option" where
  "rsplit_colon s =
     (if CHR '':'' \<in> set s then
        let after = takeWhile (\<lambda>c. c \<noteq> CHR '':'') (rev s)
        in Some (take (length s - length after - 1) s, rev after)
      else None)"

definition key_prefix_char :: "nat \<Rightarrow> bool" where
  "key_prefix_char c = (is_ascii_alphanumeric c \<or> c = 95 \<or> c = 45)"

definition is_valid_idempotency_key :: "string \<Rightarrow> bool" where
  "is_valid_idempotency_key key =
     (case rsplit_colon key of
        Some (prefix, uuid_part) \<Rightarrow>
          if prefix = [] \<or> \<not> list_all key_prefix_char (utf8_chars prefix) then False
          else is_valid_uuid_v4 uuid_part
      | None \<Rightarrow> is_valid_uuid_v4 key)"

subsection \<open>Handlers\<close>

fun slot_idem :: "idem_slot option \<Rightarrow> idem_entry option" where
  "slot_idem (Some (IEntry e)) = Some e"
| "slot_idem _ = None"

definition not_found_check :: idem_check where
  "not_found_check = \<lparr>ck_exists = False, ck_response_body = None, ck_status_code = None,
     ck_expired = False, ck_fingerprint = None\<rparr>"

definition found_check :: "idem_entry \<Rightarrow> bool \<Rightarrow> idem_check" where
  "found_check e expired = \<lparr>ck_exists = True,
     ck_response_body = (if expired then None else Some (id_response_body e)),
     ck_status_code = (if expired then None else Some (id_status_code e)),
     ck_expired = expired,
     ck_fingerprint = (if expired then None else Some (id_fingerprint e))\<rparr>"

text \<open>\<open>let _ = operation.await\<close>: the outcome is dropped.\<close>

definition ignoring :: "('w, worker_error, 'a) step \<Rightarrow> ('w, 'r, unit) step" where
  "ignoring m = (\<lambda>st. (Inr (), snd (m st)))"

definition check_idempotency_key ::
    "u64 \<Rightarrow> string \<Rightarrow> (idem_storage, worker_error, idem_response) step" where
  "check_idempotency_key now_ms key =
     (let skey = idem_key key; now = now_secs now_ms in
      andthen (st_get_or_none skey) (\<lambda>v.
        case slot_idem v of
          Some e \<Rightarrow>
            let expired = is_expired e now in
            andthen (if expired then ignoring (st_delete skey) else ret ()) (\<lambda>_.
            ret (idem_json (ICheck (found_check e expired))))
        | None \<Rightarrow> ret (idem_json (ICheck not_found_check))))"

definition idem_ensure_alarm :: "u64 \<Rightarrow> (idem_storage, worker_error, unit) step" where
  "idem_ensure_alarm now_ms =
     andthen st_get_alarm (\<lambda>existing.
       if existing = None then st_set_alarm now_ms IDEM_ALARM_INTERVAL_MS else ret ())"

text \<open>
  The opportunistic pruning after a write: it lists the storage, a JavaScript \<open>Map\<close>, and
  walks \<open>Object.entries\<close> of it.  The own enumerable string-keyed properties of a \<open>Map\<close>
  do not include its entries, so the walk sees none.
\<close>

definition object_entries :: "(string \<times> idem_slot) list \<Rightarrow> (string \<times> idem_slot) list" where
  "object_entries js_map = []"

definition prune_candidates :: "u64 \<Rightarrow> (string \<times> idem_slot) list \<Rightarrow> string list" where
  "prune_candidates now entries =
     map fst (filter (\<lambda>(k, v). starts_with k IDEM_PREFIX \<and>
       (case v of IEntry e \<Rightarrow> is_expired e now | ICorrupt \<Rightarrow> False)) entries)"

function chunks :: "nat \<Rightarrow> 'a list \<Rightarrow> 'a list list" where
  "chunks n xs = (if n = 0 \<or> xs = [] then [] else take n xs # chunks n (drop n xs))"
  by pat_completeness auto
termination by (relation "measure (\<lambda>(n, xs). length xs)") (auto simp: less_Suc_eq_le)

declare chunks.simps [simp del]

fun delete_batches :: "string list list \<Rightarrow> (idem_storage, 'r, unit) step" where
  "delete_batches [] = ret ()"
| "delete_batches (b # bs) = andthen (ignoring (st_delete_multiple (set b))) (\<lambda>_. delete_batches bs)"

definition prune_after_write ::
    "u64 \<Rightarrow> (string \<times> idem_slot) list \<Rightarrow> (idem_storage, worker_error, nat \<times> nat) step" where
  "prune_after_write now listing =
     andthen (st_list listing) (\<lambda>js_map.
       (let entries = object_entries js_map; dels = prune_candidates now entries in
        andthen (delete_batches (chunks 128 dels)) (\<lambda>_.
        ret (length dels, length entries - length dels))))"

definition store_entry ::
    "u64 \<Rightarrow> string \<Rightarrow> set_request \<Rightarrow> (string \<times> idem_slot) list \<Rightarrow>
     (idem_storage, worker_error, idem_response) step" where
  "store_entry now_ms key body listing =
     (let now = now_secs now_ms;
          ttl = (case sr_ttl_secs body of Some t \<Rightarrow> t | None \<Rightarrow> DEFAULT_IDEMPOTENCY_TTL_SECS);
          entry = \<lparr>id_response_body = sr_response_body body, id_status_code = sr_status_code body,
                   id_created_at = now, id_expires_at = sat_add now ttl,
                   id_endpoint = sr_endpoint body, id_fingerprint = sr_fingerprint body\<rparr>
      in andthen (st_put (idem_key key) (IEntry entry)) (\<lambda>_.
         andthen (idem_ensure_alarm now_ms) (\<lambda>_.
         andthen (prune_after_write now listing) (\<lambda>(pruned, active).
         ret (idem_json (IStored active pruned ttl))))))"

text \<open>From the read on, with the request body parsed.\<close>

definition set_parsed ::
    "u64 \<Rightarrow> string \<Rightarrow> set_request \<Rightarrow> (string \<times> idem_slot) list \<Rightarrow>
     (idem_storage, worker_error, idem_response) step" where
  "set_parsed now_ms key body listing =
     andthen (st_get_or_none (idem_key key)) (\<lambda>v.
       case slot_idem v of
         Some e \<Rightarrow>
           if is_expired e (now_secs now_ms) then store_entry now_ms key body listing
           else ret (idem_json (IDuplicate (id_response_body e) (id_status_code e)))
       | None \<Rightarrow> store_entry now_ms key body listing)"

definition set_idempotency_key ::
    "(bytes \<Rightarrow> string + set_request) \<Rightarrow> u64 \<Rightarrow> string \<Rightarrow> do_request \<Rightarrow> (string \<times> idem_slot) list \<Rightarrow>
     (idem_storage, worker_error, idem_response) step" where
  "set_idempotency_key parse now_ms key req listing =
     andthen (read_body req) (\<lambda>body.
       if length body > MAX_IDEMPOTENCY_BODY_SIZE then ret (idem_text ''Request entity too large'' 413)
       else case parse body of
              Inl e \<Rightarrow> stop (invalid_json e)
            | Inr r \<Rightarrow> set_parsed now_ms key r listing)"

definition delete_idempotency_key ::
    "string \<Rightarrow> (idem_storage, worker_error, idem_response) step" where
  "delete_idempotency_key key = (\<lambda>st.
     case st_delete (idem_key key) st of
       (Inl _, st') \<Rightarrow> (Inr (idem_json (IDeleted False)), st')
     | (Inr removed, st') \<Rightarrow> (Inr (idem_json (IDeleted removed)), st'))"

definition idem_fetch ::
    "(bytes \<Rightarrow> string + set_request) \<Rightarrow> u64 \<Rightarrow> do_request \<Rightarrow> (string \<times> idem_slot) list \<Rightarrow>
     (idem_storage, worker_error, idem_response) step" where
  "idem_fetch parse now_ms req listing =
     (case strip_prefix (rq_path req) ''/idempotency/'' of
        None \<Rightarrow> ret (idem_text ''Invalid path'' 400)
      | Some key \<Rightarrow>
          if \<not> is_valid_idempotency_key key
          then ret (idem_text ''Invalid idempotency key format (must be UUID v4)'' 400)
          else (case rq_method req of
                  GET \<Rightarrow> check_idempotency_key now_ms key
                | POST \<Rightarrow> set_idempotency_key parse now_ms key req listing
                | DELETE \<Rightarrow> delete_idempotency_key key
                | _ \<Rightarrow> ret (idem_text ''Method not allowed'' 405)))"

subsection \<open>The cleanup alarm\<close>

fun idem_scan :: "u64 \<Rightarrow> (string \<times> idem_slot) list \<Rightarrow> string list \<times> nat" where
  "idem_scan now [] = ([], 0)"
| "idem_scan now ((key, v) # es) =
     (let (dels, remaining) = idem_scan now es in
      if key = [] then (dels, remaining)
      else case v of
             IEntry e \<Rightarrow> if is_expired e now then (key # dels, remaining) else (dels, remaining + 1)
           | ICorrupt \<Rightarrow> (key # dels, remaining))"

definition cleanup_expired_entries ::
    "u64 \<Rightarrow> (string \<times> idem_slot) list \<Rightarrow> (idem_storage, worker_error, unit) step" where
  "cleanup_expired_entries now_ms listing =
     andthen (st_list listing) (\<lambda>entries.
       (let (dels, remaining) = idem_scan (now_secs now_ms) entries in
        andthen (delete_batches (chunks 128 dels)) (\<lambda>_.
        if remaining > 0 then st_set_alarm now_ms IDEM_ALARM_INTERVAL_MS else ret ())))"

definition idem_alarm ::
    "u64 \<Rightarrow> (string \<times> idem_slot) list \<Rightarrow> (idem_storage, worker_error, idem_response) step" where
  "idem_alarm now_ms listing = (\<lambda>st.
     andthen (cleanup_expired_entries now_ms listing) (\<lambda>_. ret (idem_text ''alarm_handled'' 200))
       (st\<lparr>alarm_at := None\<rparr>))"

subsection \<open>What the operations keep\<close>

lemma idem_key_simps [simp]: "idem_key a = idem_key b \<longleftrightarrow> a = b" "idem_key a \<noteq> []"
  "starts_with (idem_key a) IDEM_PREFIX"
  by (simp_all add: idem_key_def IDEM_PREFIX_def)

lemma slot_idem_Some_iff: "slot_idem v = Some e \<longleftrightarrow> v = Some (IEntry e)"
  by (cases v rule: slot_idem.cases) auto

lemma set_chunks: "0 < n \<Longrightarrow> \<Union> (set ` set (chunks n xs)) = set xs"
proof (induction n xs rule: chunks.induct)
  case (1 n xs)
  show ?case
  proof (cases "xs = []")
    case True
    then show ?thesis by (simp add: chunks.simps)
  next
    case False
    with 1 have "\<Union> (set ` set (chunks n (drop n xs))) = set (drop n xs)" by simp
    moreover have "chunks n xs = take n xs # chunks n (drop n xs)"
      using 1(2) False by (subst chunks.simps) simp
    moreover have "set (take n xs) \<union> set (drop n xs) = set xs"
      by (metis append_take_drop_id set_append)
    ultimately show ?thesis by simp
  qed
qed

lemma delete_batches_kv:
  "delete_batches bs st = (x, st') \<Longrightarrow> k \<notin> \<Union> (set ` set bs) \<Longrightarrow> kv st' k = kv st k"
proof (induction bs arbitrary: st)
  case (Cons b bs)
  obtain y st1 where d: "st_delete_multiple (set b) st = (y, st1)" by fastforce
  have "kv st1 k = kv st k" using st_delete_multiple_cases[OF d] Cons.prems(2) by auto
  moreover have "delete_batches bs st1 = (x, st')"
    using Cons.prems(1) d by (simp add: andthen_def ignoring_def)
  ultimately show ?case using Cons.IH Cons.prems(2) by simp
qed simp

lemma idem_scan_dels:
  "k \<in> set (fst (idem_scan now es)) \<longleftrightarrow>
     k \<noteq> [] \<and> (\<exists>v. (k, v) \<in> set es \<and> (v = ICorrupt \<or> (\<exists>e. v = IEntry e \<and> is_expired e now)))"
proof (induction es)
  case (Cons a es)
  obtain key v where a: "a = (key, v)" by fastforce
  show ?case
    using Cons by (cases v) (auto simp: a Let_def split: prod.split)
qed simp

lemma idem_alarm_step_kv: "idem_ensure_alarm n st = (x, st') \<Longrightarrow> kv st' = kv st"
  by (auto simp: idem_ensure_alarm_def andthen_def st_get_alarm_def st_set_alarm_def
      split: prod.splits sum.splits if_splits)

lemma prune_kv: "prune_after_write now listing st = (x, st') \<Longrightarrow> kv st' = kv st"
  by (auto simp: prune_after_write_def object_entries_def prune_candidates_def chunks.simps andthen_def
      st_list_def ret_def Let_def split: if_splits)

definition new_entry :: "u64 \<Rightarrow> set_request \<Rightarrow> idem_entry" where
  "new_entry now_ms body = \<lparr>id_response_body = sr_response_body body,
     id_status_code = sr_status_code body, id_created_at = now_secs now_ms,
     id_expires_at = sat_add (now_secs now_ms)
       (case sr_ttl_secs body of Some t \<Rightarrow> t | None \<Rightarrow> DEFAULT_IDEMPOTENCY_TTL_SECS),
     id_endpoint = sr_endpoint body, id_fingerprint = sr_fingerprint body\<rparr>"

lemma store_entry_kv:
  assumes "store_entry now_ms key body listing st = (x, st')"
  shows "(kv st' = kv st \<and> (\<exists>e. x = Inl e)) \<or>
         kv st' = (kv st)(idem_key key := Some (IEntry (new_entry now_ms body)))"
proof -
  obtain y st1 where p: "st_put (idem_key key) (IEntry (new_entry now_ms body)) st = (y, st1)" by fastforce
  show ?thesis
  proof (cases y)
    case (Inl e)
    with assms p st_put_cases[OF p] show ?thesis
      by (auto simp: store_entry_def andthen_def new_entry_def Let_def)
  next
    case (Inr u)
    obtain z st2 where e: "idem_ensure_alarm now_ms st1 = (z, st2)" by fastforce
    obtain q st3 where q: "prune_after_write (now_secs now_ms) listing st2 = (q, st3)" by fastforce
    have "kv st' = kv st1"
      using assms p Inr e q idem_alarm_step_kv[OF e] prune_kv[OF q]
      by (auto simp: store_entry_def andthen_def new_entry_def Let_def ret_def split: sum.splits prod.splits)
    with st_put_cases[OF p] Inr show ?thesis by auto
  qed
qed

lemma set_parsed_kv:
  assumes "set_parsed now_ms key body listing st = (x, st')"
  shows "kv st' = kv st \<or>
    ((next_fails st \<or> (\<forall>e. kv st (idem_key key) = Some (IEntry e) \<longrightarrow> is_expired e (now_secs now_ms))) \<and>
     kv st' = (kv st)(idem_key key := Some (IEntry (new_entry now_ms body))))"
proof -
  let ?v = "slot_idem (if next_fails st then None else kv st (idem_key key))"
  have eq: "set_parsed now_ms key body listing st =
     (case ?v of
        Some e \<Rightarrow>
          if is_expired e (now_secs now_ms) then store_entry now_ms key body listing
          else ret (idem_json (IDuplicate (id_response_body e) (id_status_code e)))
      | None \<Rightarrow> store_entry now_ms key body listing) (tick_fault st)"
    by (simp add: set_parsed_def andthen_def st_get_or_none_eq)
  show ?thesis
  proof (cases "\<exists>e. ?v = Some e \<and> \<not> is_expired e (now_secs now_ms)")
    case True
    then show ?thesis using assms unfolding eq by auto
  next
    case False
    then have "store_entry now_ms key body listing (tick_fault st) = (x, st')"
      using assms unfolding eq by (auto split: option.splits)
    from store_entry_kv[OF this] False show ?thesis
      by (auto simp: slot_idem_Some_iff split: if_splits)
  qed
qed

lemma check_kv:
  assumes "check_idempotency_key now_ms key st = (x, st')"
    and "kv st k = Some (IEntry e)" "\<not> is_expired e (now_secs now_ms)"
  shows "kv st' k = Some (IEntry e)"
  using assms
  by (auto simp: check_idempotency_key_def andthen_def st_get_or_none_eq ignoring_def st_delete_def
      slot_idem_Some_iff Let_def ret_def split: option.splits if_splits)

lemma idem_cleanup_kv:
  assumes "cleanup_expired_entries now_ms listing st = (x, st')"
    and "k \<notin> set (fst (idem_scan (now_secs now_ms) listing))"
  shows "kv st' k = kv st k"
proof (cases "next_fails st")
  case True
  with assms show ?thesis
    by (auto simp: cleanup_expired_entries_def andthen_def st_list_def)
next
  case False
  let ?s = "idem_scan (now_secs now_ms) listing"
  obtain y :: "worker_error + unit" and st1
    where d: "delete_batches (chunks 128 (fst ?s)) (tick_fault st) = (y, st1)" by fastforce
  have "k \<notin> \<Union> (set ` set (chunks 128 (fst ?s)))" using assms(2) by (simp add: set_chunks)
  then have "kv st1 k = kv st k" using delete_batches_kv[OF d] by simp
  moreover have "andthen (delete_batches (chunks 128 (fst ?s)))
      (\<lambda>_. if snd ?s > 0 then st_set_alarm now_ms IDEM_ALARM_INTERVAL_MS else ret ()) (tick_fault st) = (x, st')"
    using assms(1) False
    by (simp add: cleanup_expired_entries_def andthen_def st_list_def Let_def split_beta)
  with d have "kv st' = kv st1"
    by (auto simp: andthen_def split: sum.splits if_splits dest: st_alarm_kv(2))
  ultimately show ?thesis by simp
qed

subsection \<open>First writer wins\<close>

text \<open>
  One operation of the object at a time: a check, a store whose read does not fail, or the
  alarm over a true listing; and the traces of such operations, with their times.
\<close>

inductive idem_step :: "u64 \<Rightarrow> idem_storage \<Rightarrow> idem_storage \<Rightarrow> bool" where
  check: "st' = snd (check_idempotency_key now_ms key st) \<Longrightarrow> idem_step now_ms st st'"
| set: "reads_ok st \<Longrightarrow> st' = snd (set_parsed now_ms key body listing st) \<Longrightarrow> idem_step now_ms st st'"
| alarm: "lists_prefix (kv st) IDEM_PREFIX listing \<Longrightarrow> st' = snd (idem_alarm now_ms listing st) \<Longrightarrow>
     idem_step now_ms st st'"

inductive_cases idem_stepE: "idem_step now_ms st st'"

inductive idem_trace :: "idem_storage \<Rightarrow> u64 list \<Rightarrow> idem_storage \<Rightarrow> bool" where
  finished: "idem_trace st [] st"
| step: "idem_step now_ms st st1 \<Longrightarrow> idem_trace st1 ts st2 \<Longrightarrow> idem_trace st (now_ms # ts) st2"

inductive_simps idem_trace_Nil [simp]: "idem_trace st [] st'"
inductive_simps idem_trace_Cons: "idem_trace st (t # ts) st'"

lemma step_keeps_entry:
  assumes "idem_step now_ms st st'" "kv st (idem_key key) = Some (IEntry e)" "\<not> is_expired e (now_secs now_ms)"
  shows "kv st' (idem_key key) = Some (IEntry e)"
proof -
  from assms(1) consider
      (c) key' where "st' = snd (check_idempotency_key now_ms key' st)"
    | (s) key' body listing where "reads_ok st" "st' = snd (set_parsed now_ms key' body listing st)"
    | (a) listing where "lists_prefix (kv st) IDEM_PREFIX listing" "st' = snd (idem_alarm now_ms listing st)"
    by (blast elim: idem_stepE)
  then show ?thesis
  proof cases
    case c
    obtain x st1 where e: "check_idempotency_key now_ms key' st = (x, st1)" by fastforce
    with check_kv[OF e assms(2,3)] c show ?thesis by simp
  next
    case s
    obtain x st1 where e: "set_parsed now_ms key' body listing st = (x, st1)" by fastforce
    with set_parsed_kv[OF e] s assms(2,3) show ?thesis by (cases "key' = key") auto
  next
    case a
    obtain x st1 where e: "cleanup_expired_entries now_ms listing (st\<lparr>alarm_at := None\<rparr>) = (x, st1)"
      by fastforce
    have "idem_key key \<notin> set (fst (idem_scan (now_secs now_ms) listing))"
      using a(1) assms(2,3) by (auto simp: idem_scan_dels lists_prefix_def)
    moreover have "kv st' = kv st1"
      using a(2) e by (auto simp: idem_alarm_def andthen_def ret_def split: sum.splits)
    ultimately show ?thesis using idem_cleanup_kv[OF e] assms(2) by simp
  qed
qed

lemma trace_keeps_entry:
  assumes "idem_trace st ts st'" "kv st (idem_key key) = Some (IEntry e)"
    and "\<forall>t\<in>set ts. \<not> is_expired e (now_secs t)"
  shows "kv st' (idem_key key) = Some (IEntry e)"
  using assms
  by (induction rule: idem_trace.induct) (auto dest: step_keeps_entry)

lemma set_parsed_stored:
  assumes "set_parsed now_ms key body listing st = (Inr r, st')" "ir_body r = IStored a p ttl"
  shows "kv st' (idem_key key) = Some (IEntry (new_entry now_ms body)) \<and>
    sat_add (now_secs now_ms) ttl = id_expires_at (new_entry now_ms body)"
proof -
  let ?v = "slot_idem (if next_fails st then None else kv st (idem_key key))"
  have "store_entry now_ms key body listing (tick_fault st) = (Inr r, st')"
    using assms
    by (auto simp: set_parsed_def andthen_def st_get_or_none_eq idem_json_def split: option.splits if_splits)
  from store_entry_kv[OF this] this assms(2) show ?thesis
    by (auto simp: store_entry_def andthen_Inr_iff idem_json_def new_entry_def Let_def)
qed

text \<open>The first writer wins: once a response has been stored under a key, every check of that
  key up to its expiry answers exactly that response, status and request fingerprint, whatever
  later stores under the same or other keys, checks and cleanup alarms the object handles, as
  long as the reads the stores start with do not fail.\<close>

theorem idem_first_writer_wins:
  assumes "set_parsed now_ms key body listing st = (Inr r, st1)" "ir_body r = IStored a p ttl"
    and "idem_trace st1 ts st2"
    and "\<forall>t\<in>set (later_ms # ts). now_secs t \<le> sat_add (now_secs now_ms) ttl" "reads_ok st2"
  shows "fst (check_idempotency_key later_ms key st2) = Inr (idem_json (ICheck
    \<lparr>ck_exists = True, ck_response_body = Some (sr_response_body body),
     ck_status_code = Some (sr_status_code body), ck_expired = False,
     ck_fingerprint = Some (sr_fingerprint body)\<rparr>))"
proof -
  note s = set_parsed_stored[OF assms(1,2)]
  have live: "\<not> is_expired (new_entry now_ms body) (now_secs t)" if "t \<in> set (later_ms # ts)" for t
    using assms(4) that s by (auto simp: is_expired_def not_less)
  have "kv st2 (idem_key key) = Some (IEntry (new_entry now_ms body))"
    using trace_keeps_entry[OF assms(3)] s live by auto
  with live assms(5) show ?thesis
    by (auto simp: check_idempotency_key_def andthen_def st_get_or_none_eq ret_def found_check_def
        new_entry_def Let_def)
qed

lemma idem_first_writer_wins_witness:
  "\<exists>st1 st2. set_parsed 5000 ''k''
      \<lparr>sr_response_body = ''A'', sr_status_code = 200, sr_ttl_secs = Some 60, sr_endpoint = ''redeem'',
       sr_fingerprint = ''f''\<rparr> [] empty_storage = (Inr (idem_json (IStored 0 0 60)), st1) \<and>
    set_parsed 9000 ''k''
      \<lparr>sr_response_body = ''B'', sr_status_code = 200, sr_ttl_secs = Some 60, sr_endpoint = ''redeem'',
       sr_fingerprint = ''f''\<rparr> [] st1 = (Inr (idem_json (IDuplicate ''A'' 200)), st2) \<and>
    fst (check_idempotency_key 65999 ''k'' st2) = Inr (idem_json (ICheck
     \<lparr>ck_exists = True, ck_response_body = Some ''A'', ck_status_code = Some 200, ck_expired = False,
      ck_fingerprint = Some ''f''\<rparr>))"
proof -
  let ?b = "\<lparr>sr_response_body = ''A'', sr_status_code = 200, sr_ttl_secs = Some 60, sr_endpoint = ''redeem'',
       sr_fingerprint = ''f''\<rparr>"
  have n: "now_secs 5000 = 5" "now_secs 9000 = 9" "now_secs 65999 = 65" "sat_add 5 (60::u64) = 65"
    by (simp_all add: now_secs_def secs_of_millis_def sat_add_def)
  have c: "chunks 128 [] = []" by (simp add: chunks.simps)
  obtain st1 where 1: "set_parsed 5000 ''k'' ?b [] empty_storage = (Inr (idem_json (IStored 0 0 60)), st1)"
      "kv st1 (idem_key ''k'') = Some (IEntry (new_entry 5000 ?b))" "faults st1 = []"
    by (simp add: set_parsed_def store_entry_def andthen_def st_get_or_none_eq st_put_def idem_ensure_alarm_def
        st_get_alarm_def st_set_alarm_def prune_after_write_def st_list_def object_entries_def
        prune_candidates_def c ret_def empty_storage_def tick_fault_def next_fails_def Let_def new_entry_def)
  let ?r = "set_parsed 9000 ''k'' (?b\<lparr>sr_response_body := ''B''\<rparr>) [] st1"
  have 2: "?r = (Inr (idem_json (IDuplicate ''A'' 200)), st1)"
    using 1(2,3)
    by (simp add: set_parsed_def andthen_def st_get_or_none_eq next_fails_def tick_fault_def is_expired_def
        new_entry_def n ret_def)
  have "idem_step 9000 st1 st1"
    using idem_step.set[of st1 st1 9000 "''k''" "?b\<lparr>sr_response_body := ''B''\<rparr>" "[]"] 1(3) 2
    by (simp add: next_fails_def)
  then have tr: "idem_trace st1 [9000] st1" by (simp add: idem_trace_Cons)
  have rd: "reads_ok st1" using 1(3) by simp
  have b: "ir_body (idem_json (IStored 0 0 60)) = IStored 0 0 60" by (simp add: idem_json_def)
  from idem_first_writer_wins[OF 1(1) b tr, of 65999] rd 1(1) 2 show ?thesis
    by (auto simp: n)
qed

end
