(* ===== verification/Idempotency.thy ===== *)
theory Idempotency imports Idempotency_DO begin

text \<open>
  \<open>src/storage/idempotency_store.rs\<close>, the sharded store in front of the idempotency objects,
  and \<open>src/security/idempotency.rs\<close>, the middleware of the verify and redeem handlers.  The
  shard hash, percent coding, JSON coding of the store request and SHA-256 are arguments.
\<close>

record idem_env =
  ie_encode :: "string \<Rightarrow> string"
  ie_serialise :: "set_request \<Rightarrow> bytes"
  ie_parse :: "bytes \<Rightarrow> string + set_request"
  ie_hash :: "string \<Rightarrow> u64"
  ie_shard_count :: nat
  ie_sha256 :: "bytes \<Rightarrow> bytes"
  ie_listing :: "string \<Rightarrow> (string \<times> idem_slot) list"

record idem_world =
  iw_shards :: "string \<Rightarrow> idem_storage"
  iw_net :: "delivery list"
  iw_fail_events :: "(string \<times> string) list"

record cached_response =
  cr_body :: string
  cr_status :: u16
  cr_expired :: bool
  cr_fingerprint :: string

definition MAX_RESPONSE_BODY_LENGTH :: nat where "MAX_RESPONSE_BODY_LENGTH = 65536"
definition MAX_IDEMPOTENCY_KEY_LENGTH :: nat where "MAX_IDEMPOTENCY_KEY_LENGTH = 512"
definition MAX_ENDPOINT_LENGTH :: nat where "MAX_ENDPOINT_LENGTH = 256"

definition calculate_idempotency_shard_id :: "idem_env \<Rightarrow> string \<Rightarrow> string" where
  "calculate_idempotency_shard_id env key =
     ''idempotency-shard-'' @ show_nat (unat (ie_hash env key) mod ie_shard_count env)"

definition validate_key :: "string \<Rightarrow> unit api_result" where
  "validate_key key =
     (if key = [] then bad ''Idempotency key must not be empty''
      else if length key > MAX_IDEMPOTENCY_KEY_LENGTH then
        bad (''Idempotency key exceeds maximum length of '' @ show_nat MAX_IDEMPOTENCY_KEY_LENGTH @ '' bytes'')
      else if CHR 0x00 \<in> set key then bad ''Idempotency key must not contain null bytes''
      else Inr ())"

definition idem_request :: "idem_env \<Rightarrow> string \<Rightarrow> http_method \<Rightarrow> bytes option \<Rightarrow> do_request" where
  "idem_request env key m body =
     \<lparr>rq_path = ''/idempotency/'' @ ie_encode env key, rq_method = m,
      rq_body = Some (case body of None \<Rightarrow> [] | Some b \<Rightarrow> b)\<rparr>"

definition send_to_do ::
    "idem_env \<Rightarrow> u64 \<Rightarrow> string \<Rightarrow> http_method \<Rightarrow> bytes option \<Rightarrow> idem_world \<Rightarrow>
     idem_response api_result \<times> idem_world" where
  "send_to_do env now_ms key m body w =
     (let shard = calculate_idempotency_shard_id env key;
          (r, st') = do_call (next_delivery (iw_net w))
            (idem_fetch (ie_parse env) now_ms (idem_request env key m body) (ie_listing env shard))
            (iw_shards w shard)
      in (case r of
            None \<Rightarrow> Inl (Internal ''IdempotencyDO fetch timed out after 2000ms'')
          | Some (Inl e) \<Rightarrow> Inl (Internal ''IdempotencyDO fetch failed'')
          | Some (Inr resp) \<Rightarrow> Inr resp,
          w\<lparr>iw_shards := (iw_shards w)(shard := st'), iw_net := tl (iw_net w)\<rparr>))"

text \<open>\<open>resp.json::<CheckResponse>()\<close>: only the check answer has its fields.\<close>

definition store_check ::
    "idem_env \<Rightarrow> u64 \<Rightarrow> string \<Rightarrow> idem_world \<Rightarrow> cached_response option api_result \<times> idem_world" where
  "store_check env now_ms key w =
     (case validate_key key of
        Inl e \<Rightarrow> (Inl e, w)
      | Inr _ \<Rightarrow>
          (case send_to_do env now_ms key GET None w of
             (Inl e, w') \<Rightarrow> (Inl e, w')
           | (Inr resp, w') \<Rightarrow>
               (case ir_body resp of
                  ICheck c \<Rightarrow>
                    (if ck_exists c \<and> \<not> ck_expired c then
                       (case (ck_response_body c, ck_status_code c) of
                          (Some b, Some s) \<Rightarrow>
                            Inr (Some \<lparr>cr_body = b, cr_status = s, cr_expired = False,
                              cr_fingerprint = (case ck_fingerprint c of None \<Rightarrow> [] | Some f \<Rightarrow> f)\<rparr>)
                        | _ \<Rightarrow> Inr None)
                     else Inr None, w')
                | _ \<Rightarrow> (Inl (Internal ''invalid JSON''), w'))))"

definition store_checks :: "string \<Rightarrow> string \<Rightarrow> string \<Rightarrow> unit api_result" where
  "store_checks key endpoint body =
     (case validate_key key of
        Inl e \<Rightarrow> Inl e
      | Inr _ \<Rightarrow>
          if endpoint = [] then bad ''Endpoint must not be empty''
          else if length endpoint > MAX_ENDPOINT_LENGTH then
            bad (''Endpoint exceeds maximum length of '' @ show_nat MAX_ENDPOINT_LENGTH @ '' bytes'')
          else if CHR 0x00 \<in> set endpoint then bad ''Endpoint must not contain null bytes''
          else if length body > MAX_RESPONSE_BODY_LENGTH then
            bad (''Response body exceeds maximum length of '' @ show_nat MAX_RESPONSE_BODY_LENGTH @ '' bytes'')
          else Inr ())"

definition store_store ::
    "idem_env \<Rightarrow> u64 \<Rightarrow> string \<Rightarrow> string \<Rightarrow> u16 \<Rightarrow> string \<Rightarrow> u64 option \<Rightarrow> string \<Rightarrow> idem_world \<Rightarrow>
     bool api_result \<times> idem_world" where
  "store_store env now_ms key body status endpoint ttl fp w =
     (case store_checks key endpoint body of
        Inl e \<Rightarrow> (Inl e, w)
      | Inr _ \<Rightarrow>
          (let req = \<lparr>sr_response_body = body, sr_status_code = status, sr_ttl_secs = ttl,
                      sr_endpoint = endpoint, sr_fingerprint = fp\<rparr>
           in case send_to_do env now_ms key POST (Some (ie_serialise env req)) w of
                (Inl e, w') \<Rightarrow> (Inl e, w')
              | (Inr resp, w') \<Rightarrow>
                  (case ir_body resp of
                     IStored _ _ _ \<Rightarrow> (Inr True, w')
                   | IDuplicate _ _ \<Rightarrow> (Inr False, w')
                   | IDeleted b \<Rightarrow> (Inr b, w')
                   | _ \<Rightarrow> (Inl (Internal ''invalid JSON''), w'))))"

subsection \<open>The middleware\<close>

definition extract_idempotency_key ::
    "header_read \<Rightarrow> string \<Rightarrow> string \<Rightarrow> string option api_result" where
  "extract_idempotency_key header meth endpoint =
     (case header of
        HeaderValue key \<Rightarrow>
          let normalized = to_ascii_lowercase key in
          if \<not> is_valid_uuid_v4 normalized then bad ''Invalid Idempotency-Key format (must be UUID v4)''
          else Inr (Some (meth @ '':'' @ endpoint @ '':'' @ normalized))
      | HeaderMissing \<Rightarrow> Inr None
      | HeaderError \<Rightarrow> bad ''Error reading Idempotency-Key header'')"

record replayed_response =
  rr_status :: u16
  rr_body :: string
  rr_headers :: "(string \<times> string) list"

definition scoped_key :: "string \<Rightarrow> string \<Rightarrow> string" where
  "scoped_key endpoint key = endpoint @ '':'' @ key"

definition check_idempotency ::
    "idem_env \<Rightarrow> u64 \<Rightarrow> string \<Rightarrow> string \<Rightarrow> string \<Rightarrow> idem_world \<Rightarrow>
     replayed_response option api_result \<times> idem_world" where
  "check_idempotency env now_ms key endpoint fp w =
     (case store_check env now_ms (scoped_key endpoint key) w of
        (Inr (Some c), w') \<Rightarrow>
          if \<not> cr_expired c then
            if cr_fingerprint c = [] then
              (Inl (Conflict (Some ''Idempotency key has empty fingerprint (storage corruption)'')), w')
            else if cr_fingerprint c \<noteq> fp then
              (Inl (Conflict (Some ''Idempotency key reused for different request'')), w')
            else
              (Inr (Some \<lparr>rr_status = cr_status c, rr_body = cr_body c,
                 rr_headers = [(''Content-Type'', ''application/json; charset=utf-8''),
                               (''X-Idempotency-Replayed'', ''true'')]\<rparr>), w')
          else (Inr None, w')
      | (Inr None, w') \<Rightarrow> (Inr None, w')
      | (Inl e, w') \<Rightarrow>
          (Inl (ServiceUnavailable (Some ''Idempotency check unavailable, please retry'')),
           w'\<lparr>iw_fail_events := iw_fail_events w' @ [(take 8 key, display e)]\<rparr>))"

text \<open>\<open>usize::to_le_bytes\<close> on the 32-bit target, and the bytes hashed for a fingerprint.\<close>

definition usize_bytes :: "nat \<Rightarrow> bytes" where "usize_bytes n = le_bytes 4 n"

definition fingerprint_preimage :: "string \<Rightarrow> string \<Rightarrow> bytes" where
  "fingerprint_preimage endpoint identity =
     usize_bytes (length endpoint) @ string_bytes endpoint @
     usize_bytes (length identity) @ string_bytes identity"

definition compute_request_fingerprint :: "idem_env \<Rightarrow> string \<Rightarrow> string \<Rightarrow> string" where
  "compute_request_fingerprint env endpoint identity =
     hex_encode (ie_sha256 env (fingerprint_preimage endpoint identity))"

definition store_idempotency_response ::
    "idem_env \<Rightarrow> u64 \<Rightarrow> string \<Rightarrow> string \<Rightarrow> u16 \<Rightarrow> string \<Rightarrow> u64 option \<Rightarrow> string \<Rightarrow> idem_world \<Rightarrow>
     unit api_result \<times> idem_world" where
  "store_idempotency_response env now_ms key body status endpoint ttl fp w =
     (case store_store env now_ms (scoped_key endpoint key) body status endpoint ttl fp w of
        (Inr True, w') \<Rightarrow> (Inr (), w')
      | (Inr False, w') \<Rightarrow> (Inr (), w')
      | (Inl e, w') \<Rightarrow> (Inr (), w'))"

subsection \<open>Lemmas\<close>

text \<open>What \<open>utf8_percent_encode(_, NON_ALPHANUMERIC)\<close> documents of its output.\<close>

definition encode_law :: "(string \<Rightarrow> string) \<Rightarrow> bool" where
  "encode_law enc \<longleftrightarrow> (\<forall>s. \<forall>c\<in>set (enc s). is_ascii_alphanumeric (of_char c) \<or> c = CHR ''%'')"

lemma encoded_key_invalid:
  assumes "encode_law enc"
  shows "\<not> is_valid_idempotency_key (enc key)"
proof -
  have c: "CHR '':'' \<notin> set (enc key)" and d: "CHR ''-'' \<notin> set (enc key)"
    using assms unfolding encode_law_def
    by (auto simp: is_ascii_alphanumeric_def is_ascii_digit_def dest!: spec[of _ key])
  from split_on_no_sep[OF d] c show ?thesis
    by (simp add: is_valid_idempotency_key_def rsplit_colon_def is_valid_uuid_v4_def)
qed

lemma idem_fetch_encoded:
  assumes "encode_law (ie_encode env)"
  shows "idem_fetch p now_ms (idem_request env key m body) l =
    ret (idem_text ''Invalid idempotency key format (must be UUID v4)'' 400)"
proof -
  have "strip_prefix (rq_path (idem_request env key m body)) ''/idempotency/'' = Some (ie_encode env key)"
    unfolding idem_request_def do_request.simps by (rule strip_prefix_append)
  then show ?thesis by (simp add: idem_fetch_def encoded_key_invalid[OF assms])
qed

lemma send_to_do_encoded:
  assumes "encode_law (ie_encode env)" "send_to_do env now_ms key m body w = (r, w')"
  shows "iw_shards w' = iw_shards w \<and> iw_fail_events w' = iw_fail_events w \<and>
    (\<forall>resp. r = Inr resp \<longrightarrow> (\<exists>t. ir_body resp = IText t))"
proof -
  have h: "do_call d (idem_fetch p now_ms (idem_request env key m body) l) st = (x, st') \<Longrightarrow>
     st' = st \<and> (x = None \<or> x = Some (Inr (idem_text ''Invalid idempotency key format (must be UUID v4)'' 400)))"
    for d p l st x st'
    by (auto simp: idem_fetch_encoded[OF assms(1)] do_call_def ret_def split: delivery.splits)
  show ?thesis
    using assms(2)
    by (auto simp: send_to_do_def Let_def idem_text_def split: prod.splits option.splits sum.splits dest!: h)
qed

subsection \<open>Properties\<close>

text \<open>C40 Idempotency never takes effect, and a request that carries a key is never served: the
  store percent-encodes the key into the URL, the object validates the path segment without
  decoding it and refuses every one, the refusal is not the JSON the store expects, and the
  check fails closed; whatever the key, the world and the network do, the answer is
  503 and no object stores or loses anything, also when a response is to be stored.\<close>

theorem idempotency_always_unavailable:
  assumes "encode_law (ie_encode env)"
  shows "fst (check_idempotency env now_ms key endpoint fp w) =
      Inl (ServiceUnavailable (Some ''Idempotency check unavailable, please retry'')) \<and>
    iw_shards (snd (check_idempotency env now_ms key endpoint fp w)) = iw_shards w \<and>
    iw_shards (snd (store_idempotency_response env now_ms key body status endpoint ttl fp w)) = iw_shards w"
proof -
  note s = send_to_do_encoded[OF assms]
  have c: "\<exists>e. store_check env now_ms (scoped_key endpoint key) w = (Inl e, w')"
    if "store_check env now_ms (scoped_key endpoint key) w = (r, w')" for r w'
    using that by (auto simp: store_check_def split: sum.splits prod.splits idem_body.splits dest!: s)
  have cw: "iw_shards w' = iw_shards w"
    if "store_check env now_ms (scoped_key endpoint key) w = (r, w')" for r w'
    using that by (auto simp: store_check_def split: sum.splits prod.splits idem_body.splits dest!: s)
  have sw: "iw_shards w' = iw_shards w"
    if "store_store env now_ms (scoped_key endpoint key) body status endpoint ttl fp w = (r, w')" for r w'
    using that
    by (auto simp: store_store_def Let_def split: sum.splits prod.splits idem_body.splits dest!: s)
  obtain r w' where k: "store_check env now_ms (scoped_key endpoint key) w = (r, w')" by fastforce
  obtain r2 w2 where st: "store_store env now_ms (scoped_key endpoint key) body status endpoint ttl fp w = (r2, w2)"
    by fastforce
  from c[OF k] k obtain e where e: "r = Inl e" by auto
  have "iw_shards (snd (store_idempotency_response env now_ms key body status endpoint ttl fp w)) = iw_shards w2"
    using st by (auto simp: store_idempotency_response_def split: sum.split bool.split)
  with e k cw[OF k] sw[OF st] show ?thesis by (simp add: check_idempotency_def)
qed

text \<open>An environment with the documented percent coding.\<close>

definition percent_encode :: "string \<Rightarrow> string" where
  "percent_encode s = concat (map (\<lambda>c.
     if is_ascii_alphanumeric (of_char c) then [c]
     else [CHR ''%'', (if of_char c div 16 < (10::nat) then digit_char (of_char c div 16) else char_of (55 + (of_char c div 16 :: nat))),
                      (if of_char c mod 16 < (10::nat) then digit_char (of_char c mod 16) else char_of (55 + (of_char c mod 16 :: nat)))]) s)"

lemma percent_encode_law: "encode_law percent_encode"
proof -
  have h: "is_ascii_alphanumeric (of_char (if n < 10 then digit_char n else char_of (55 + n)))" if "n < 16" for n
    using that by (auto simp: is_ascii_alphanumeric_def is_ascii_digit_def of_char_digit_char)
  have "(of_char c :: nat) div 16 < 16" "(of_char c :: nat) mod 16 < 16" for c :: char
    by (simp_all add: less_mult_imp_div_less)
  from this[THEN h] show ?thesis
    unfolding encode_law_def percent_encode_def by (auto simp del: of_char_eq_iff)
qed

definition sample_idem_env :: idem_env where
  "sample_idem_env = \<lparr>ie_encode = percent_encode, ie_serialise = (\<lambda>_. []),
     ie_parse = (\<lambda>_. Inl ''''), ie_hash = (\<lambda>s. of_nat (length s)), ie_shard_count = 25,
     ie_sha256 = (\<lambda>b. b), ie_listing = (\<lambda>_. [])\<rparr>"

lemma idempotency_always_unavailable_witness:
  "extract_idempotency_key (HeaderValue ''550E8400-e29b-41d4-a716-446655440000'') ''POST'' ''/v1/redeem'' =
     Inr (Some ''POST:/v1/redeem:550e8400-e29b-41d4-a716-446655440000'') \<and>
   fst (check_idempotency sample_idem_env 5000 ''POST:/v1/redeem:550e8400-e29b-41d4-a716-446655440000''
      ''redeem'' ''f'' \<lparr>iw_shards = (\<lambda>_. empty_storage), iw_net = [], iw_fail_events = []\<rparr>) =
     Inl (ServiceUnavailable (Some ''Idempotency check unavailable, please retry''))"
proof -
  have l: "encode_law (ie_encode sample_idem_env)"
    by (simp add: sample_idem_env_def percent_encode_law)
  have "to_ascii_lowercase ''550E8400-e29b-41d4-a716-446655440000'' = ''550e8400-e29b-41d4-a716-446655440000''"
    by code_simp
  moreover have "is_valid_uuid_v4 ''550e8400-e29b-41d4-a716-446655440000''"
    by code_simp
  ultimately show ?thesis
    using idempotency_always_unavailable[OF l, of 5000 "''POST:/v1/redeem:550e8400-e29b-41d4-a716-446655440000''"
        "''redeem''" "''f''" "\<lparr>iw_shards = (\<lambda>_. empty_storage), iw_net = [], iw_fail_events = []\<rparr>"]
    by (simp add: extract_idempotency_key_def)
qed

text \<open>Request fingerprints separate their fields: two requests whose endpoint and identity
  are hashed from the same bytes have the same endpoint and the same identity.\<close>

theorem fingerprint_preimage_injective:
  assumes "length endpoint < 2 ^ 32" "length endpoint' < 2 ^ 32"
    and "fingerprint_preimage endpoint identity = fingerprint_preimage endpoint' identity'"
  shows "endpoint = endpoint' \<and> identity = identity'"
proof -
  have lens: "length (usize_bytes n) = 4" for n by (simp add: usize_bytes_def)
  have 1: "usize_bytes (length endpoint) = usize_bytes (length endpoint')"
    and r: "string_bytes endpoint @ usize_bytes (length identity) @ string_bytes identity =
      string_bytes endpoint' @ usize_bytes (length identity') @ string_bytes identity'"
    using assms(3) by (simp_all add: fingerprint_preimage_def append_eq_append_conv lens)
  have le: "length endpoint = length endpoint'"
    using le_bytes_inj[of "length endpoint" 4 "length endpoint'"] 1 assms(1,2) by (simp add: usize_bytes_def)
  then have "string_bytes endpoint = string_bytes endpoint'"
    "usize_bytes (length identity) @ string_bytes identity = usize_bytes (length identity') @ string_bytes identity'"
    using r by (simp_all add: append_eq_append_conv string_bytes_def)
  then show ?thesis
    by (simp add: append_eq_append_conv lens string_bytes_inj)
qed

lemma fingerprint_preimage_injective_witness:
  "fingerprint_preimage ''ab'' ''c'' \<noteq> fingerprint_preimage ''a'' ''bc''"
  using fingerprint_preimage_injective[of "''ab''" "''a''" "''c''" "''bc''"] by auto

end
