(* ===== verification/Origin_Policy.thy ===== *)
theory Origin_Policy imports Challenge_State "HOL-Library.AList" begin

text \<open>
  \<open>src/storage/origin_policy.rs\<close> and \<open>src/security/hash.rs\<close>: the policies of the relying
  parties' origins, read from KV and kept for one minute in an in-memory cache with an index
  from API-key prefixes to clients.  Argon2 and the JSON of a policy are arguments.
\<close>

record client_auth_config =
  ca_client_id :: string
  ca_api_key_hash :: string
  ca_api_key_prefix :: "string option"
  ca_encrypted_hmac_secret :: string
  ca_dek_encrypted :: string
  ca_encryption_version :: u8
  ca_active :: bool

record billing_config =
  bi_plan :: string
  bi_metering_enabled :: bool

record origin_policy =
  op_tenant_id :: string
  op_min_age_years :: u32
  op_max_age_years :: "u32 option"
  op_proof_direction :: "proof_direction option"
  op_allowed_vk_ids :: "u32 list"
  op_allowed_issuers :: "string list"
  op_max_ttl_sec :: u64
  op_billing :: billing_config
  op_enabled :: bool
  op_created_at :: u64
  op_updated_at :: u64
  op_clients :: "client_auth_config list"
  op_provisioned_by :: "string option"
  op_failure_mode :: "string option"
  op_failure_mode_locked :: bool

definition origin_policy_default :: "u64 \<Rightarrow> origin_policy" where
  "origin_policy_default now = \<lparr>op_tenant_id = [], op_min_age_years = 18, op_max_age_years = None,
     op_proof_direction = None, op_allowed_vk_ids = [1, 2, 3], op_allowed_issuers = [],
     op_max_ttl_sec = 300, op_billing = \<lparr>bi_plan = ''free'', bi_metering_enabled = False\<rparr>,
     op_enabled = False, op_created_at = now, op_updated_at = now, op_clients = [],
     op_provisioned_by = None, op_failure_mode = None, op_failure_mode_locked = False\<rparr>"

definition effective_proof_direction :: "origin_policy \<Rightarrow> proof_direction" where
  "effective_proof_direction p =
     (case op_proof_direction p of
        Some dir \<Rightarrow> dir
      | None \<Rightarrow> if op_max_age_years p \<noteq> None then UnderAge else OverAge)"

definition age_threshold :: "origin_policy \<Rightarrow> string + u32" where
  "age_threshold p =
     (case effective_proof_direction p of
        OverAge \<Rightarrow>
          if op_min_age_years p > 150 then Inl ''min_age_years exceeds maximum of 150''
          else Inr (op_min_age_years p)
      | UnderAge \<Rightarrow>
          (case op_max_age_years p of
             None \<Rightarrow> Inl ''Origin policy does not allow under-age verification''
           | Some age \<Rightarrow>
               if age > 150 then Inl ''max_age_years exceeds maximum of 150'' else Inr age))"

subsection \<open>The index of API-key prefixes\<close>

text \<open>\<open>str::get(..n)\<close>: the first \<open>n\<close> bytes, if they end at a character boundary.\<close>

definition is_char_boundary :: "string \<Rightarrow> nat \<Rightarrow> bool" where
  "is_char_boundary s n \<longleftrightarrow>
     n = length s \<or> n < length s \<and> \<not> (128 \<le> (of_char (s ! n) :: nat) \<and> (of_char (s ! n) :: nat) < 192)"

definition str_prefix :: "string \<Rightarrow> nat \<Rightarrow> string option" where
  "str_prefix s n = (if is_char_boundary s n then Some (take n s) else None)"

definition api_key_prefix :: "string \<Rightarrow> string" where
  "api_key_prefix s = (case str_prefix s 8 of Some p \<Rightarrow> p | None \<Rightarrow> s)"

definition prefix_key :: "client_auth_config \<Rightarrow> string" where
  "prefix_key c = (case ca_api_key_prefix c of
      Some prefix \<Rightarrow> api_key_prefix prefix | None \<Rightarrow> ''PREFIX_UNKNOWN'')"

type_synonym prefix_index = "string \<rightharpoonup> nat list"

definition add_to_index :: "prefix_index \<Rightarrow> nat \<times> client_auth_config \<Rightarrow> prefix_index" where
  "add_to_index index ic =
     (if ca_active (snd ic)
      then index(prefix_key (snd ic) \<mapsto>
             (case index (prefix_key (snd ic)) of None \<Rightarrow> [] | Some l \<Rightarrow> l) @ [fst ic])
      else index)"

definition build_api_key_index :: "origin_policy \<Rightarrow> prefix_index" where
  "build_api_key_index p = foldl add_to_index (\<lambda>_. None) (List.enumerate 0 (op_clients p))"

subsection \<open>The store\<close>

record cached_policy =
  cp_policy :: origin_policy
  cp_cached_at :: u64
  cp_index :: prefix_index

type_synonym policy_cache = "(string \<times> cached_policy) list"

definition MAX_CACHE_ENTRIES :: nat where "MAX_CACHE_ENTRIES = 1024"
definition cache_ttl_ms :: u64 where "cache_ttl_ms = 60000"
definition KV_READ_TIMEOUT_MS :: nat where "KV_READ_TIMEOUT_MS = 500"

definition policy_key :: "string \<Rightarrow> string" where "policy_key origin = ''origins/'' @ origin"

text \<open>The outcome of a KV read with its timeout.\<close>

datatype kv_read = KvError string | KvTimeout | KvValue "string option"

definition kv_value :: "string \<Rightarrow> kv_read \<Rightarrow> string option api_result" where
  "kv_value operation r =
     (case r of
        KvError e \<Rightarrow> Inl (Internal (''KV get failed: '' @ e))
      | KvTimeout \<Rightarrow> Inl (Internal (operation @ '' timed out after '' @ show_nat KV_READ_TIMEOUT_MS @ ''ms''))
      | KvValue v \<Rightarrow> Inr v)"

definition cache_hit :: "u64 \<Rightarrow> string \<Rightarrow> policy_cache \<Rightarrow> cached_policy option" where
  "cache_hit now origin cache =
     (case map_of cache origin of
        None \<Rightarrow> None
      | Some cached \<Rightarrow> if sat_sub now (cp_cached_at cached) < cache_ttl_ms then Some cached else None)"

definition evict :: "u64 \<Rightarrow> policy_cache \<Rightarrow> policy_cache" where
  "evict now cache =
     (if length cache \<ge> MAX_CACHE_ENTRIES then
        let kept = filter (\<lambda>(_, e). sat_sub now (cp_cached_at e) < cache_ttl_ms div 2) cache
        in if length kept \<ge> MAX_CACHE_ENTRIES then [] else kept
      else cache)"

definition cache_insert :: "u64 \<Rightarrow> string \<Rightarrow> origin_policy \<Rightarrow> policy_cache \<Rightarrow> policy_cache" where
  "cache_insert now origin p cache =
     AList.update origin \<lparr>cp_policy = p, cp_cached_at = now, cp_index = build_api_key_index p\<rparr> (evict now cache)"

definition invalidate_cache :: "string option \<Rightarrow> policy_cache \<Rightarrow> policy_cache" where
  "invalidate_cache origin cache =
     (case origin of Some o' \<Rightarrow> AList.delete o' cache | None \<Rightarrow> [])"

text \<open>
  A lookup that misses reads KV and then updates the cache as it is at that time, which other
  requests may have changed since; \<open>now\<close> is the time at which the lookup began.
\<close>

definition load_policy ::
    "(string \<Rightarrow> string + origin_policy) \<Rightarrow> u64 \<Rightarrow> string \<Rightarrow> kv_read \<Rightarrow> policy_cache \<Rightarrow>
     origin_policy option api_result \<times> policy_cache" where
  "load_policy parse now origin r cache =
     (case kv_value ''origin_policy KV read'' r of
        Inl e \<Rightarrow> (Inl e, cache)
      | Inr None \<Rightarrow> (Inr None, cache)
      | Inr (Some json) \<Rightarrow>
          (case parse json of
             Inl e \<Rightarrow> (Inl (Internal (''Failed to parse policy: '' @ e)), cache)
           | Inr p \<Rightarrow>
               if \<not> op_enabled p then (Inr None, cache)
               else (Inr (Some p), cache_insert now origin p cache)))"

definition get_policy ::
    "(string \<Rightarrow> string + origin_policy) \<Rightarrow> u64 \<Rightarrow> string \<Rightarrow> kv_read \<Rightarrow> policy_cache \<Rightarrow>
     origin_policy option api_result \<times> policy_cache" where
  "get_policy parse now origin r cache =
     (case cache_hit now origin cache of
        Some cached \<Rightarrow> (Inr (Some (cp_policy cached)), cache)
      | None \<Rightarrow> load_policy parse now origin r cache)"

datatype policy_lookup_result = Found origin_policy | Disabled | Policy_NotFound

definition load_policy_detail ::
    "(string \<Rightarrow> string + origin_policy) \<Rightarrow> u64 \<Rightarrow> string \<Rightarrow> kv_read \<Rightarrow> policy_cache \<Rightarrow>
     policy_lookup_result api_result \<times> policy_cache" where
  "load_policy_detail parse now origin r cache =
     (case kv_value ''origin_policy_detail KV read'' r of
        Inl e \<Rightarrow> (Inl e, cache)
      | Inr None \<Rightarrow> (Inr Policy_NotFound, cache)
      | Inr (Some json) \<Rightarrow>
          (case parse json of
             Inl e \<Rightarrow> (Inl (Internal (''Failed to parse policy: '' @ e)), cache)
           | Inr p \<Rightarrow>
               if op_enabled p then (Inr (Found p), cache_insert now origin p cache)
               else (Inr Disabled, invalidate_cache (Some origin) cache)))"

definition get_policy_detail ::
    "(string \<Rightarrow> string + origin_policy) \<Rightarrow> u64 \<Rightarrow> string \<Rightarrow> kv_read \<Rightarrow> policy_cache \<Rightarrow>
     policy_lookup_result api_result \<times> policy_cache" where
  "get_policy_detail parse now origin r cache =
     (case cache_hit now origin cache of
        Some cached \<Rightarrow>
          (Inr (if op_enabled (cp_policy cached) then Found (cp_policy cached) else Disabled), cache)
      | None \<Rightarrow> load_policy_detail parse now origin r cache)"

text \<open>\<open>now'\<close> is the time that the inner lookup reads from the clock.\<close>

definition get_cached_policy ::
    "(string \<Rightarrow> string + origin_policy) \<Rightarrow> u64 \<Rightarrow> u64 \<Rightarrow> string \<Rightarrow> kv_read \<Rightarrow> policy_cache \<Rightarrow>
     cached_policy option api_result \<times> policy_cache" where
  "get_cached_policy parse now now' origin r cache =
     (case cache_hit now origin cache of
        Some cached \<Rightarrow> (Inr (Some cached), cache)
      | None \<Rightarrow>
          (case get_policy parse now' origin r cache of
             (Inl e, cache') \<Rightarrow> (Inl e, cache')
           | (Inr None, cache') \<Rightarrow> (Inr None, cache')
           | (Inr (Some _), cache') \<Rightarrow> (Inr (map_of cache' origin), cache')))"

subsection \<open>API keys\<close>

definition is_valid_argon2id_hash :: "string \<Rightarrow> bool" where
  "is_valid_argon2id_hash h = starts_with h ''$argon2id$''"

text \<open>\<open>argon2\<close> answers \<open>None\<close> when the hash does not parse.\<close>

definition verify_api_key :: "(string \<Rightarrow> string \<Rightarrow> bool option) \<Rightarrow> string \<Rightarrow> string \<Rightarrow> bool" where
  "verify_api_key argon2 api_key stored_hash =
     (if \<not> is_valid_argon2id_hash stored_hash then False
      else case argon2 api_key stored_hash of None \<Rightarrow> False | Some verified \<Rightarrow> verified)"

subsection \<open>The index: lemmas\<close>

definition candidates :: "origin_policy \<Rightarrow> string \<Rightarrow> nat list" where
  "candidates p k = map fst (filter (\<lambda>(i, c). ca_active c \<and> prefix_key c = k) (List.enumerate 0 (op_clients p)))"

lemma foldl_add_to_index:
  "foldl add_to_index m xs k =
     (let l = map fst (filter (\<lambda>(i, c). ca_active c \<and> prefix_key c = k) xs) in
      if l = [] then m k else Some ((case m k of None \<Rightarrow> [] | Some l0 \<Rightarrow> l0) @ l))"
proof (induction xs arbitrary: m)
  case Nil
  then show ?case by simp
next
  case (Cons x xs)
  show ?case
    unfolding foldl.simps Cons.IH
    by (cases x) (auto simp: add_to_index_def Let_def split: option.splits)
qed

lemma build_index_eq:
  "build_api_key_index p k = (if candidates p k = [] then None else Some (candidates p k))"
  by (simp add: build_api_key_index_def foldl_add_to_index candidates_def Let_def)

lemma set_candidates:
  "set (candidates p k) = {i. i < length (op_clients p) \<and> ca_active (op_clients p ! i) \<and> prefix_key (op_clients p ! i) = k}"
  by (force simp: candidates_def in_set_enumerate_eq)

subsection \<open>The cache: lemmas\<close>

text \<open>
  The lookups whose read of KV has completed so far, latest first, each with the time it began,
  in any interleaving with cache hits and invalidations.
\<close>

type_synonym lookup = "u64 \<times> string \<times> kv_read"

inductive cache_run :: "(string \<Rightarrow> string + origin_policy) \<Rightarrow> lookup list \<Rightarrow> policy_cache \<Rightarrow> bool"
  for parse where
  start: "cache_run parse [] []"
| load: "cache_run parse h c \<Longrightarrow> cache_run parse ((t, o', r) # h) (snd (load_policy parse t o' r c))"
| load_detail: "cache_run parse h c \<Longrightarrow>
    cache_run parse ((t, o', r) # h) (snd (load_policy_detail parse t o' r c))"
| invalidate: "cache_run parse h c \<Longrightarrow> cache_run parse h (invalidate_cache x c)"

text \<open>The read found a policy that parses as \<open>p\<close> and is enabled.\<close>

definition reads_policy :: "(string \<Rightarrow> string + origin_policy) \<Rightarrow> kv_read \<Rightarrow> origin_policy \<Rightarrow> bool" where
  "reads_policy parse r p \<longleftrightarrow> (\<exists>json. r = KvValue (Some json) \<and> parse json = Inr p) \<and> op_enabled p"

definition cache_inv ::
    "(string \<Rightarrow> string + origin_policy) \<Rightarrow> lookup list \<Rightarrow> policy_cache \<Rightarrow> bool" where
  "cache_inv parse h c \<longleftrightarrow> length c \<le> MAX_CACHE_ENTRIES \<and>
     (\<forall>(o', e)\<in>set c. cp_index e = build_api_key_index (cp_policy e) \<and>
        (\<exists>r. (cp_cached_at e, o', r) \<in> set h \<and> reads_policy parse r (cp_policy e)))"

lemma length_update_le: "length (AList.update k v c) \<le> Suc (length c)"
  by (induction c) auto

lemma set_update_subset: "set (AList.update k v c) \<subseteq> insert (k, v) (set c)"
  by (induction c) auto

lemma set_delete_subset: "set (AList.delete k c) \<subseteq> set c"
  by (auto simp: AList.delete_eq)

lemma length_delete: "length (AList.delete k c) \<le> length c"
  by (simp add: AList.delete_eq)

lemma evict_small: "length (evict t c) < MAX_CACHE_ENTRIES" and evict_subset: "set (evict t c) \<subseteq> set c"
  by (auto simp: evict_def Let_def not_le MAX_CACHE_ENTRIES_def)

lemma cache_inv_insert:
  assumes "cache_inv parse h c" "reads_policy parse r p"
  shows "cache_inv parse ((t, o', r) # h) (cache_insert t o' p c)"
proof -
  let ?e = "\<lparr>cp_policy = p, cp_cached_at = t, cp_index = build_api_key_index p\<rparr>"
  have "length (cache_insert t o' p c) \<le> MAX_CACHE_ENTRIES"
    using length_update_le[of o' ?e "evict t c"] evict_small[of t c] by (simp add: cache_insert_def)
  moreover have "set (cache_insert t o' p c) \<subseteq> insert (o', ?e) (set c)"
    using set_update_subset[of o' ?e "evict t c"] evict_subset[of t c] by (auto simp: cache_insert_def)
  ultimately show ?thesis
    using assms by (fastforce simp: cache_inv_def)
qed

lemma cache_inv_more: "cache_inv parse h c \<Longrightarrow> cache_inv parse (x # h) c"
  by (fastforce simp: cache_inv_def)

lemma cache_inv_invalidate: "cache_inv parse h c \<Longrightarrow> cache_inv parse h (invalidate_cache x c)"
  using set_delete_subset[of _ c] le_trans[OF length_delete]
  by (fastforce simp: cache_inv_def invalidate_cache_def split: option.split)

lemma load_policy_inv:
  assumes "cache_inv parse h c"
  shows "cache_inv parse ((t, o', r) # h) (snd (load_policy parse t o' r c))"
proof -
  note m = cache_inv_more[OF assms]
  show ?thesis
    using cache_inv_insert[OF assms, of r _ t o'] m
    by (auto simp: load_policy_def kv_value_def reads_policy_def split: sum.splits option.splits kv_read.splits)
qed

lemma load_detail_inv:
  assumes "cache_inv parse h c"
  shows "cache_inv parse ((t, o', r) # h) (snd (load_policy_detail parse t o' r c))"
proof -
  note m = cache_inv_more[OF assms]
  show ?thesis
    using cache_inv_insert[OF assms, of r _ t o'] m cache_inv_invalidate[OF m]
    by (auto simp: load_policy_detail_def kv_value_def reads_policy_def split: sum.splits option.splits kv_read.splits)
qed

lemma cache_run_inv: "cache_run parse h c \<Longrightarrow> cache_inv parse h c"
  by (induction rule: cache_run.induct)
    (auto simp: load_policy_inv load_detail_inv cache_inv_invalidate cache_inv_def[of parse "[]"])

lemma cache_hit_fresh:
  assumes "cache_inv parse h c" "cache_hit now o' c = Some e"
  shows "cp_index e = build_api_key_index (cp_policy e) \<and> sat_sub now (cp_cached_at e) < 60000 \<and>
     (\<exists>r. (cp_cached_at e, o', r) \<in> set h \<and> reads_policy parse r (cp_policy e))"
  using assms
  by (auto simp: cache_hit_def cache_inv_def cache_ttl_ms_def split: option.splits if_splits dest!: map_of_SomeD)

lemma load_policy_Some:
  assumes "load_policy parse t o' r c = (Inr (Some p), c')"
  shows "reads_policy parse r p \<and>
    map_of c' o' = Some \<lparr>cp_policy = p, cp_cached_at = t, cp_index = build_api_key_index p\<rparr>"
  using assms
  by (auto simp: load_policy_def kv_value_def reads_policy_def cache_insert_def update_conv'
      split: sum.splits option.splits kv_read.splits if_splits)

lemma cache_inv_entry:
  assumes "cache_inv parse h c" "map_of c o' = Some e"
  shows "cp_index e = build_api_key_index (cp_policy e) \<and> op_enabled (cp_policy e)"
  using assms by (auto simp: cache_inv_def reads_policy_def dest!: map_of_SomeD)

lemma get_cached_policy_inv:
  assumes "cache_inv parse h c" "get_cached_policy parse now now' o' r c = (x, c')"
  shows "cache_inv parse ((now', o', r) # h) c' \<and>
    (\<forall>e. x = Inr (Some e) \<longrightarrow> cp_index e = build_api_key_index (cp_policy e) \<and> op_enabled (cp_policy e))"
proof (cases "cache_hit now o' c")
  case (Some d)
  then have "map_of c o' = Some d" by (auto simp: cache_hit_def split: option.splits if_splits)
  from cache_inv_entry[OF assms(1) this] Some assms(2) cache_inv_more[OF assms(1)] show ?thesis
    by (auto simp: get_cached_policy_def)
next
  case None
  obtain y c1 where g: "get_policy parse now' o' r c = (y, c1)" by fastforce
  have i: "cache_inv parse ((now', o', r) # h) c1"
    using g cache_inv_more[OF assms(1)] load_policy_inv[OF assms(1), of now' o' r]
    by (auto simp: get_policy_def split: option.splits)
  from None g assms(2) i show ?thesis
    by (auto simp: get_cached_policy_def dest: cache_inv_entry split: sum.splits option.splits)
qed

text \<open>A policy is never served stale: whatever lookups, invalidations and evictions came
  before, in any interleaving, the policy that authenticates a request for an origin is enabled,
  carries the index of its own clients, and was read from KV for that origin less than 60
  seconds before (by the clock at the start of the read), and the cache holds at most 1024
  policies.\<close>

theorem policy_served_fresh:
  assumes "cache_run parse h c" "now \<le> now'"
    and "get_cached_policy parse now now' origin r c = (Inr (Some e), c')"
  shows "op_enabled (cp_policy e) \<and> cp_index e = build_api_key_index (cp_policy e) \<and>
    (\<exists>t r'. (t, origin, r') \<in> set ((now', origin, r) # h) \<and> reads_policy parse r' (cp_policy e) \<and>
       unat now < unat t + 60000) \<and>
    length c' \<le> MAX_CACHE_ENTRIES"
proof -
  note inv = cache_run_inv[OF assms(1)]
  have fresh: "unat now < unat t + 60000" if "sat_sub now t < 60000" for t
    using that unat_sat_sub[of now t] by (simp add: word_less_nat_alt)
  show ?thesis
  proof (cases "cache_hit now origin c")
    case (Some d)
    with assms(3) have "d = e" "c' = c" by (auto simp: get_cached_policy_def)
    with cache_hit_fresh[OF inv Some] inv fresh show ?thesis
      by (auto simp: reads_policy_def cache_inv_def)
  next
    case None
    show ?thesis
    proof (cases "cache_hit now' origin c")
      case (Some d)
      then have d: "map_of c origin = Some d" by (auto simp: cache_hit_def split: option.splits if_splits)
      from None Some assms(3) d have "d = e" "c' = c"
        by (auto simp: get_cached_policy_def get_policy_def)
      moreover have "sat_sub now (cp_cached_at d) \<le> sat_sub now' (cp_cached_at d)"
        using assms(2) by (auto simp: word_le_nat_alt unat_sat_sub)
      moreover have "unat now < unat (cp_cached_at d) + 60000"
        using le_less_trans[OF calculation(3), of 60000] cache_hit_fresh[OF inv Some] fresh by simp
      ultimately show ?thesis
        using cache_hit_fresh[OF inv Some] inv by (auto simp: reads_policy_def cache_inv_def)
    next
      case None': None
      with None assms(3) obtain p where l: "load_policy parse now' origin r c = (Inr (Some p), c')"
          and e: "map_of c' origin = Some e"
        by (auto simp: get_cached_policy_def get_policy_def split: prod.splits sum.splits option.splits)
      have "length c' \<le> MAX_CACHE_ENTRIES"
        using load_policy_inv[OF inv, of now' origin r] l by (simp add: cache_inv_def)
      with load_policy_Some[OF l] e assms(2) show ?thesis
        by (intro conjI exI[of _ now'] exI[of _ r]) (auto simp: reads_policy_def word_le_nat_alt)
    qed
  qed
qed

definition sample_policy :: origin_policy where
  "sample_policy = (origin_policy_default 0)\<lparr>op_enabled := True, op_clients :=
     [\<lparr>ca_client_id = ''rp_a'', ca_api_key_hash = ''$argon2id$a'', ca_api_key_prefix = Some ''pk_live_'',
       ca_encrypted_hmac_secret = [], ca_dek_encrypted = [], ca_encryption_version = 1, ca_active = True\<rparr>,
      \<lparr>ca_client_id = ''rp_b'', ca_api_key_hash = ''$argon2id$b'', ca_api_key_prefix = None,
       ca_encrypted_hmac_secret = [], ca_dek_encrypted = [], ca_encryption_version = 1, ca_active = True\<rparr>]\<rparr>"

lemma policy_served_fresh_witness:
  "\<exists>e. fst (get_cached_policy (\<lambda>_. Inr sample_policy) 65999 66000 ''https://rp.example'' KvTimeout
      (snd (load_policy (\<lambda>_. Inr sample_policy) 6000 ''https://rp.example'' (KvValue (Some ''{}'')) []))) =
        Inr (Some e) \<and> op_enabled (cp_policy e)"
proof -
  let ?p = "\<lambda>_. Inr sample_policy"
  let ?o = "''https://rp.example''"
  let ?c = "snd (load_policy ?p 6000 ?o (KvValue (Some ''{}'')) [])"
  let ?e = "\<lparr>cp_policy = sample_policy, cp_cached_at = 6000, cp_index = build_api_key_index sample_policy\<rparr>"
  have r: "cache_run ?p [(6000, ?o, KvValue (Some ''{}''))] ?c"
    by (intro cache_run.load cache_run.start)
  have m: "map_of ?c ?o = Some ?e"
    by (simp add: load_policy_def kv_value_def cache_insert_def evict_def MAX_CACHE_ENTRIES_def sample_policy_def)
  have "get_cached_policy ?p 65999 66000 ?o KvTimeout ?c = (Inr (Some ?e), ?c)"
    by (simp add: get_cached_policy_def cache_hit_def m cache_ttl_ms_def sat_sub_def)
  with policy_served_fresh[OF r _ this] show ?thesis by auto
qed

end
