(* ===== verification/Rate_Limit.thy ===== *)
theory Rate_Limit imports Do_Runtime Api_Error "HOL-Library.AList" begin

text \<open>
  \<open>src/rate_limiting.rs\<close> and \<open>src/rate_limit_kv.rs\<close>: fixed-window counters in KV, the tier
  cache, and the quota checks built on them.  The JSON of a tier is an argument.
\<close>

subsection \<open>The KV of the rate limiter\<close>

text \<open>
  The KV namespace and the outcomes of the operations to come: an operation that is not
  \<open>Delivered\<close> fails, and a failed write may have taken effect all the same (\<open>ReplyLost\<close>).
\<close>

record rate_kv =
  rk_store :: "string \<rightharpoonup> string"
  rk_net :: "delivery list"

definition get_text :: "string \<Rightarrow> rate_kv \<Rightarrow> (unit + string option) \<times> rate_kv" where
  "get_text key ns =
     (if next_delivery (rk_net ns) = Delivered then Inr (rk_store ns key) else Inl (),
      ns\<lparr>rk_net := tl (rk_net ns)\<rparr>)"

definition put_with_ttl :: "string \<Rightarrow> string \<Rightarrow> u64 \<Rightarrow> rate_kv \<Rightarrow> (unit + unit) \<times> rate_kv" where
  "put_with_ttl key v ttl_secs ns =
     (let d = next_delivery (rk_net ns);
          ns' = ns\<lparr>rk_net := tl (rk_net ns)\<rparr>
      in (if d = Delivered then Inr () else Inl (),
          if d = NotDelivered then ns' else ns'\<lparr>rk_store := (rk_store ns)(key \<mapsto> v)\<rparr>))"

text \<open>\<open>s.parse().unwrap_or(0)\<close>.\<close>

definition parse_u32_or_zero :: "string \<Rightarrow> u32" where
  "parse_u32_or_zero s = (case parse_unsigned (2 ^ 32) s of None \<Rightarrow> 0 | Some n \<Rightarrow> of_nat n)"

subsection \<open>The tiers of the customers\<close>

text \<open>
  \<open>te_nested\<close> is the map under the key \<open>limits\<close> of a JSON object, when there is one that
  converts; \<open>te_flat\<close> is the text itself read as such a map.
\<close>

record tier_env =
  te_nested :: "string \<Rightarrow> (string \<rightharpoonup> u32) option"
  te_flat :: "string \<Rightarrow> (string \<rightharpoonup> u32) option"

record tier_entry =
  ti_limits :: "string \<rightharpoonup> u32"
  ti_fetched_at :: u64

type_synonym tier_cache = "(string \<times> tier_entry) list"

definition parse_tier_limits :: "tier_env \<Rightarrow> string \<Rightarrow> (string \<rightharpoonup> u32)" where
  "parse_tier_limits env json =
     (case te_nested env json of
        Some m \<Rightarrow> m
      | None \<Rightarrow> (case te_flat env json of Some m \<Rightarrow> m | None \<Rightarrow> (\<lambda>_. None)))"

record rate_world =
  rw_kv :: rate_kv
  rw_tiers :: tier_cache

definition limit_or :: "u32 \<Rightarrow> (string \<rightharpoonup> u32) \<Rightarrow> string \<Rightarrow> u32" where
  "limit_or default_limit limits endpoint =
     (case limits endpoint of Some l \<Rightarrow> l | None \<Rightarrow> default_limit)"

text \<open>The entry with the least time of fetching, the first of those in the map's order.\<close>

fun oldest_tier :: "tier_cache \<Rightarrow> (string \<times> tier_entry) option" where
  "oldest_tier [] = None"
| "oldest_tier (x # xs) =
     (case oldest_tier xs of
        None \<Rightarrow> Some x
      | Some y \<Rightarrow> if ti_fetched_at (snd y) < ti_fetched_at (snd x) then Some y else Some x)"

definition insert_tier :: "string \<Rightarrow> tier_entry \<Rightarrow> tier_cache \<Rightarrow> tier_cache" where
  "insert_tier client_id e cache =
     AList.update client_id e
       (if length cache \<ge> 1000 then
          (case oldest_tier cache of Some (k, _) \<Rightarrow> AList.delete k cache | None \<Rightarrow> cache)
        else cache)"

text \<open>The part of \<open>get_customer_limit_impl\<close> after a miss of the cache.\<close>

definition fetch_customer_limit ::
    "tier_env \<Rightarrow> string \<Rightarrow> string \<Rightarrow> u32 \<Rightarrow> u64 \<Rightarrow> rate_world \<Rightarrow> u32 \<times> rate_world" where
  "fetch_customer_limit env client_id endpoint default_limit now w =
     (case get_text (''rate_limits/clients/'' @ client_id) (rw_kv w) of
        (Inr (Some tier_id), ns1) \<Rightarrow>
          (let (r, ns2) = get_text (''rate_limits/tiers/'' @ tier_id) ns1;
               limits = (case r of Inr (Some json) \<Rightarrow> parse_tier_limits env json | _ \<Rightarrow> (\<lambda>_. None))
           in (limit_or default_limit limits endpoint,
               w\<lparr>rw_kv := ns2,
                 rw_tiers := insert_tier client_id \<lparr>ti_limits = limits, ti_fetched_at = now\<rparr> (rw_tiers w)\<rparr>))
      | (_, ns1) \<Rightarrow> (default_limit, w\<lparr>rw_kv := ns1\<rparr>))"

definition get_customer_limit ::
    "tier_env \<Rightarrow> string \<Rightarrow> string \<Rightarrow> u32 \<Rightarrow> u64 \<Rightarrow> rate_world \<Rightarrow> u32 \<times> rate_world" where
  "get_customer_limit env client_id endpoint default_limit now w =
     (case map_of (rw_tiers w) client_id of
        Some entry \<Rightarrow>
          if sat_sub now (ti_fetched_at entry) < 60
          then (limit_or default_limit (ti_limits entry) endpoint, w)
          else fetch_customer_limit env client_id endpoint default_limit now w
      | None \<Rightarrow> fetch_customer_limit env client_id endpoint default_limit now w)"

subsection \<open>Counters\<close>

text \<open>
  The result is (allowed, count, limit, read failed).  The read, the decision and the write are one step here, as for
  checks that do not overlap; KV has no compare-and-swap, and \<open>check_halves\<close> below takes the step apart for those
  that do.
\<close>

definition check_kv_counter ::
    "string \<Rightarrow> u32 \<Rightarrow> u64 \<Rightarrow> rate_kv \<Rightarrow> (bool \<times> u32 \<times> u32 \<times> bool) \<times> rate_kv" where
  "check_kv_counter key limit ttl_secs ns =
     (let (r, ns1) = get_text key ns in
      case r of
        Inl _ \<Rightarrow> ((False, 0, limit, True), ns1)
      | Inr v \<Rightarrow>
          let count = (case v of Some s \<Rightarrow> parse_u32_or_zero s | None \<Rightarrow> 0) in
          if count \<ge> limit then ((False, count, limit, False), ns1)
          else let (_, ns2) = put_with_ttl key (show_nat (unat (sat_add count 1))) ttl_secs ns1
               in ((True, sat_add count 1, limit, False), ns2))"

record rate_limit_result =
  rl_allowed :: bool
  rl_current_count :: u32
  rl_limit :: u32
  rl_retry_after_secs :: u32
  rl_read_failed :: bool

definition MAX_ADVERTISED_RETRY_AFTER_SECS :: u32 where "MAX_ADVERTISED_RETRY_AFTER_SECS = 60"

definition clamp_retry_after :: "u32 \<Rightarrow> u32" where
  "clamp_retry_after s = min s MAX_ADVERTISED_RETRY_AFTER_SECS"

text \<open>\<open>u32::try_from(..).unwrap_or(u32::MAX)\<close>.\<close>

definition u32_or_max :: "u64 \<Rightarrow> u32" where
  "u32_or_max n = (if unat n < 2 ^ 32 then of_nat (unat n) else - 1)"

definition hour_ts :: "u64 \<Rightarrow> u64" where "hour_ts now = sat_mul (now div 3600) 3600"
definition minute_ts :: "u64 \<Rightarrow> u64" where "minute_ts now = now div 60 * 60"

text \<open>The common tail of the checks: the counter of a key and the time to the end of the window.\<close>

definition window_check :: "string \<Rightarrow> u32 \<Rightarrow> u64 \<Rightarrow> u64 \<Rightarrow> u64 \<Rightarrow> u64 \<Rightarrow> rate_kv \<Rightarrow> rate_limit_result \<times> rate_kv" where
  "window_check key limit ttl_secs start window now ns =
     (let ((allowed, current_count, limit', read_failed), ns') = check_kv_counter key limit ttl_secs ns
      in (\<lparr>rl_allowed = allowed, rl_current_count = current_count, rl_limit = limit',
           rl_retry_after_secs = clamp_retry_after (u32_or_max (sat_sub (sat_add start window) now)),
           rl_read_failed = read_failed\<rparr>, ns'))"

definition on_kv :: "(rate_kv \<Rightarrow> 'a \<times> rate_kv) \<Rightarrow> rate_world \<Rightarrow> 'a \<times> rate_world" where
  "on_kv f w = (let (r, ns') = f (rw_kv w) in (r, w\<lparr>rw_kv := ns'\<rparr>))"

definition quota_key :: "string \<Rightarrow> string \<Rightarrow> u64 \<Rightarrow> string" where
  "quota_key client_id endpoint h = ''quota:'' @ client_id @ '':'' @ endpoint @ '':'' @ show_u64 h"

definition account_quota_key :: "string \<Rightarrow> string \<Rightarrow> u64 \<Rightarrow> string" where
  "account_quota_key client_id endpoint h = ''acct_quota:'' @ client_id @ '':'' @ endpoint @ '':'' @ show_u64 h"

definition check_quota ::
    "tier_env \<Rightarrow> string \<Rightarrow> string \<Rightarrow> u32 \<Rightarrow> u64 \<Rightarrow> rate_world \<Rightarrow> rate_limit_result \<times> rate_world" where
  "check_quota env client_id endpoint default_limit now w =
     (let (limit, w1) = get_customer_limit env client_id endpoint default_limit now w
      in on_kv (window_check (quota_key client_id endpoint (hour_ts now)) limit 7200
                  (hour_ts now) 3600 now) w1)"

definition check_account_quota ::
    "tier_env \<Rightarrow> string \<Rightarrow> string \<Rightarrow> u32 \<Rightarrow> u64 \<Rightarrow> rate_world \<Rightarrow> rate_limit_result \<times> rate_world" where
  "check_account_quota env client_id endpoint default_limit now w =
     (let (limit, w1) = get_customer_limit env client_id endpoint default_limit now w
      in on_kv (window_check (account_quota_key client_id endpoint (hour_ts now)) limit 7200
                  (hour_ts now) 3600 now) w1)"

definition check_per_ip_limit :: "string \<Rightarrow> string \<Rightarrow> u32 \<Rightarrow> u64 \<Rightarrow> rate_world \<Rightarrow> rate_limit_result \<times> rate_world" where
  "check_per_ip_limit key_prefix ip limit now =
     on_kv (window_check (key_prefix @ ip @ '':'' @ show_u64 (hour_ts now)) limit 7200
              (hour_ts now) 3600 now)"

definition check_catchall_limit :: "string \<Rightarrow> u32 \<Rightarrow> u64 \<Rightarrow> rate_world \<Rightarrow> rate_limit_result \<times> rate_world" where
  "check_catchall_limit hashed_ip limit now =
     on_kv (window_check (''catchall:'' @ hashed_ip @ '':'' @ show_u64 (minute_ts now)) limit 120
              (minute_ts now) 60 now)"

definition check_hosted_ip_limit :: "string \<Rightarrow> string \<Rightarrow> u32 \<Rightarrow> u64 \<Rightarrow> rate_world \<Rightarrow> rate_limit_result \<times> rate_world" where
  "check_hosted_ip_limit hashed_ip endpoint limit now =
     on_kv (window_check (''hosted:'' @ endpoint @ '':'' @ hashed_ip @ '':'' @ show_u64 (now div 3600 * 3600))
              limit 7200 (now div 3600 * 3600) 3600 now)"

definition check_expert_ip_limit :: "string \<Rightarrow> string \<Rightarrow> u32 \<Rightarrow> u64 \<Rightarrow> rate_world \<Rightarrow> rate_limit_result \<times> rate_world" where
  "check_expert_ip_limit hashed_ip endpoint limit now =
     on_kv (window_check (''expert_ip:'' @ endpoint @ '':'' @ hashed_ip @ '':'' @ show_u64 (now div 3600 * 3600))
              limit 7200 (now div 3600 * 3600) 3600 now)"

subsection \<open>Rejections\<close>

datatype rate_rejection = Unavailable503 u32 | TooMany429 u32

definition READ_FAILURE_RETRY_AFTER_SECS :: u32 where "READ_FAILURE_RETRY_AFTER_SECS = 5"

text \<open>The status and the advertised delay of the rejection.\<close>

definition rate_limit_or_unavailable_response :: "rate_limit_result \<Rightarrow> rate_rejection" where
  "rate_limit_or_unavailable_response r =
     (if rl_read_failed r then Unavailable503 READ_FAILURE_RETRY_AFTER_SECS
      else TooMany429 (rl_retry_after_secs r))"

subsection \<open>Counters: lemmas\<close>

lemma parse_show: "n < 2 ^ 32 \<Longrightarrow> unat (parse_u32_or_zero (show_nat n)) = n"
  by (simp add: parse_u32_or_zero_def parse_unsigned_show unat_of_nat)

definition counter :: "rate_kv \<Rightarrow> string \<Rightarrow> nat" where
  "counter ns key = (case rk_store ns key of Some s \<Rightarrow> unat (parse_u32_or_zero s) | None \<Rightarrow> 0)"

lemma get_text_net: "rk_net ns = [] \<Longrightarrow> get_text k ns = (Inr (rk_store ns k), ns)"
  by (simp add: get_text_def next_delivery_def)

lemma put_net: "rk_net ns = [] \<Longrightarrow> put_with_ttl k v t ns = (Inr (), ns\<lparr>rk_store := (rk_store ns)(k \<mapsto> v)\<rparr>)"
  by (simp add: put_with_ttl_def next_delivery_def Let_def)

lemma counter_step:
  assumes "check_kv_counter key limit ttl ns = ((a, c, l, f), ns')" "rk_net ns = []"
  shows "a \<longleftrightarrow> counter ns key < unat limit" "l = limit" "\<not> f" "rk_net ns' = []"
    "counter ns' k = (if k = key \<and> a then Suc (counter ns key) else counter ns k)"
proof -
  let ?c = "case rk_store ns key of Some s \<Rightarrow> parse_u32_or_zero s | None \<Rightarrow> 0"
  have u: "unat ?c = counter ns key" by (simp add: counter_def split: option.split)
  have e: "check_kv_counter key limit ttl ns =
    (if ?c \<ge> limit then ((False, ?c, limit, False), ns)
     else ((True, sat_add ?c 1, limit, False),
           ns\<lparr>rk_store := (rk_store ns)(key \<mapsto> show_nat (unat (sat_add ?c 1)))\<rparr>))"
    using assms(2) by (simp add: check_kv_counter_def get_text_net put_net Let_def)
  have s: "unat (sat_add ?c 1) = Suc (counter ns key)" if "?c < limit"
    using that unsigned_less[of limit, where 'a = nat] unat_sat_add[of ?c 1] by (simp add: u word_less_nat_alt)
  have w: "unat (parse_u32_or_zero (show_nat (unat (sat_add ?c 1)))) = Suc (counter ns key)" if "?c < limit"
    using s[OF that] parse_show[of "unat (sat_add ?c 1)"] unsigned_less[of "sat_add ?c 1", where 'a = nat] by simp
  show "a \<longleftrightarrow> counter ns key < unat limit" "l = limit" "\<not> f" "rk_net ns' = []"
    using assms unfolding e by (auto simp: word_less_nat_alt word_le_nat_alt u not_le split: if_splits)
  show "counter ns' k = (if k = key \<and> a then Suc (counter ns key) else counter ns k)"
    using assms w unfolding e by (auto simp: counter_def split: if_splits)
qed

lemma customer_limit_kv:
  assumes "get_customer_limit env c e d t w = (l, w')" "rk_net (rw_kv w) = []"
  shows "rw_kv w' = rw_kv w"
  using assms
  by (auto simp: get_customer_limit_def fetch_customer_limit_def get_text_net Let_def
      split: option.splits if_splits prod.splits sum.splits)

lemma account_check_step:
  assumes "check_account_quota env c e d t w = (r, w')" "rk_net (rw_kv w) = []"
  shows "rl_allowed r \<longleftrightarrow> counter (rw_kv w) (account_quota_key c e (hour_ts t)) < unat (rl_limit r)"
    "rk_net (rw_kv w') = []"
    "counter (rw_kv w') k = (if k = account_quota_key c e (hour_ts t) \<and> rl_allowed r
       then Suc (counter (rw_kv w) k) else counter (rw_kv w) k)"
proof -
  obtain l w1 where g: "get_customer_limit env c e d t w = (l, w1)" by fastforce
  note k = customer_limit_kv[OF g assms(2)]
  obtain a n l' f ns' where s: "check_kv_counter (account_quota_key c e (hour_ts t)) l 7200 (rw_kv w) = ((a, n, l', f), ns')"
    by (metis prod.collapse)
  note st = counter_step[OF s assms(2)]
  have r: "rl_allowed r = a" "rl_limit r = l'" "rw_kv w' = ns'"
    using assms(1) g k s by (auto simp: check_account_quota_def on_kv_def window_check_def)
  show "rl_allowed r \<longleftrightarrow> counter (rw_kv w) (account_quota_key c e (hour_ts t)) < unat (rl_limit r)"
    "rk_net (rw_kv w') = []"
    "counter (rw_kv w') k = (if k = account_quota_key c e (hour_ts t) \<and> rl_allowed r
       then Suc (counter (rw_kv w) k) else counter (rw_kv w) k)"
    using st by (auto simp: r)
qed

subsection \<open>Overlapping checks\<close>

text \<open>
  KV has no compare-and-swap, so the two halves of a check, the read with its decision and the write, can be
  separated by the halves of other checks.  \<open>begun\<close> are \<open>n\<close> checks that have all read before one of them
  writes; a check that is admitted leaves the count to write.
\<close>

definition read_and_decide :: "string \<Rightarrow> u32 \<Rightarrow> rate_kv \<Rightarrow> (bool \<times> u32 \<times> u32 \<times> bool) \<times> rate_kv" where
  "read_and_decide key limit ns =
     (let (r, ns1) = get_text key ns in
      (case r of
         Inl _ \<Rightarrow> (False, 0, limit, True)
       | Inr v \<Rightarrow>
           let count = (case v of Some s \<Rightarrow> parse_u32_or_zero s | None \<Rightarrow> 0) in
           if count \<ge> limit then (False, count, limit, False) else (True, sat_add count 1, limit, False), ns1))"

definition write_count :: "string \<Rightarrow> u64 \<Rightarrow> bool \<times> u32 \<times> u32 \<times> bool \<Rightarrow> rate_kv \<Rightarrow> rate_kv" where
  "write_count key ttl_secs d ns =
     (if fst d then snd (put_with_ttl key (show_nat (unat (fst (snd d)))) ttl_secs ns) else ns)"

lemma check_halves:
  "check_kv_counter key limit ttl ns =
     (let (d, ns1) = read_and_decide key limit ns in (d, write_count key ttl d ns1))"
  by (simp add: check_kv_counter_def read_and_decide_def write_count_def Let_def split_beta split: sum.split)

primrec begun :: "nat \<Rightarrow> string \<Rightarrow> u32 \<Rightarrow> rate_kv \<Rightarrow> (bool \<times> u32 \<times> u32 \<times> bool) list \<times> rate_kv" where
  "begun 0 key limit ns = ([], ns)"
| "begun (Suc n) key limit ns =
     (let (d, ns1) = read_and_decide key limit ns; (ds, ns2) = begun n key limit ns1 in (d # ds, ns2))"

text \<open>All of them are admitted when one is, and together they count as one.\<close>

theorem overlapping_checks_admitted:
  assumes "rk_net ns = []" "counter ns key < unat limit" "begun n key limit ns = (ds, ns1)"
  shows "length ds = n \<and> (\<forall>d\<in>set ds. fst d) \<and>
    (0 < n \<longrightarrow> counter (fold (write_count key ttl) ds ns1) key = Suc (counter ns key))"
proof -
  obtain d ns' where r: "read_and_decide key limit ns = (d, ns')" by fastforce
  have c: "check_kv_counter key limit ttl ns = (d, write_count key ttl d ns')" by (simp add: check_halves r)
  obtain a c l f where d: "d = (a, c, l, f)" by (metis prod.collapse)
  note st = counter_step[OF c[unfolded d] assms(1)]
  have a: "a" using st(1) assms(2) by simp
  have ns': "ns' = ns" using r assms(1) by (auto simp: read_and_decide_def get_text_net split: prod.splits)
  have "begun m key limit ns = (replicate m d, ns)" for m
    by (induction m) (simp_all add: r ns')
  with assms(3) have b: "ds = replicate n d" "ns1 = ns" by auto
  have w: "write_count key ttl d x = x\<lparr>rk_store := (rk_store x)(key \<mapsto> show_nat (unat c))\<rparr>" if "rk_net x = []" for x
    using that a by (simp add: write_count_def d put_net)
  let ?f = "write_count key ttl d"
  have i: "?f (?f ns) = ?f ns" by (simp add: w assms(1))
  have fp: "(?f ^^ Suc m) ns = ?f ns" for m
  proof (induction m)
    case (Suc m)
    have "(?f ^^ Suc (Suc m)) ns = ?f ((?f ^^ Suc m) ns)" by simp
    then show ?case by (simp only: Suc.IH i)
  qed simp
  have "fold (write_count key ttl) ds ns1 = ?f ns" if "0 < n"
    using that fp[of "n - 1"] by (simp add: b fold_replicate)
  with b a d st(5)[of key] show ?thesis unfolding d ns' by auto
qed

subsection \<open>Buckets\<close>

lemma append_sep_inj:
  assumes "a @ d # x = b @ d # y" "d \<notin> set x" "d \<notin> set y"
  shows "a = b \<and> x = y"
proof -
  have "rev x @ d # rev a = rev y @ d # rev b"
    using arg_cong[OF assms(1), of rev] by simp
  moreover have "takeWhile (\<lambda>c. c \<noteq> d) (rev u @ d # rev v) = rev u" if "d \<notin> set u" for u v
    using that by (subst takeWhile_append2) auto
  ultimately have "rev x = rev y" using assms(2,3) by metis
  with assms(1) show ?thesis by simp
qed

lemma show_nat_no_colon: "CHR '':'' \<notin> set (show_nat n)"
  using show_nat_digits[of n] by (auto simp: list_all_iff is_ascii_digit_def)

lemma account_key_inj:
  assumes "CHR '':'' \<notin> set e" "CHR '':'' \<notin> set e'"
  shows "account_quota_key c e h = account_quota_key c' e' h' \<longleftrightarrow> c = c' \<and> e = e' \<and> h = h'"
proof
  assume a: "account_quota_key c e h = account_quota_key c' e' h'"
  then have "(c @ CHR '':'' # e) @ CHR '':'' # show_u64 h = (c' @ CHR '':'' # e') @ CHR '':'' # show_u64 h'"
    by (simp add: account_quota_key_def)
  from append_sep_inj[OF this] show_nat_no_colon
  have "c @ CHR '':'' # e = c' @ CHR '':'' # e'" "show_u64 h = show_u64 h'" by blast+
  with append_sep_inj[OF this(1)] assms show "c = c' \<and> e = e' \<and> h = h'"
    by (simp add: unsigned_word_eqI)
qed simp

subsection \<open>Properties\<close>

text \<open>Successive checks of the account quota, of any accounts, endpoints and times.\<close>

fun quota_run ::
    "tier_env \<Rightarrow> u32 \<Rightarrow> (string \<times> string \<times> u64) list \<Rightarrow> rate_world \<Rightarrow> rate_limit_result list" where
  "quota_run env d [] w = []"
| "quota_run env d ((c, e, t) # evs) w =
     (let (r, w') = check_account_quota env c e d t w in r # quota_run env d evs w')"

definition in_bucket :: "string \<Rightarrow> string \<Rightarrow> u64 \<Rightarrow> string \<times> string \<times> u64 \<Rightarrow> bool" where
  "in_bucket c e h ev \<longleftrightarrow> fst ev = c \<and> fst (snd ev) = e \<and> hour_ts (snd (snd ev)) = h"


definition no_tiers :: tier_env where
  "no_tiers = \<lparr>te_nested = (\<lambda>_. None), te_flat = (\<lambda>_. None)\<rparr>"

lemma no_tier_limit:
  assumes "rw_tiers w = []" "rk_net (rw_kv w) = []" "rk_store (rw_kv w) (''rate_limits/clients/'' @ c) = None"
  shows "get_customer_limit env c e d t w = (d, w)"
  using assms by (simp add: get_customer_limit_def fetch_customer_limit_def get_text_net)


lemma hour_ts_bounds: "unat (hour_ts t) \<le> unat t \<and> unat t < unat (hour_ts t) + 3600"
proof -
  have d: "unat (t div 3600) * 3600 \<le> unat t" "unat t < unat (t div 3600) * 3600 + 3600"
    by (simp_all add: unat_div div_times_less_eq_dividend dividend_less_div_times)
  have "unat (t div 3600) * 3600 < 2 ^ 64"
    using d(1) unsigned_less[of t, where 'a = nat] by simp
  then have "unat (hour_ts t) = unat (t div 3600) * 3600"
    by (simp add: hour_ts_def sat_mul_def unat_word_ariths)
  with d show ?thesis by simp
qed

text \<open>The limiter fails closed and advertises a short wait: when the counter cannot be read
  the check refuses, writes nothing and the client is told 503 with five seconds; a refusal with
  a readable counter is a 429 that advertises between 1 and 60 seconds.\<close>

theorem quota_fails_closed:
  assumes "window_check key limit ttl (hour_ts t) 3600 t ns = (r, ns')" "unat t < 2 ^ 64 - 3600"
  shows "(next_delivery (rk_net ns) \<noteq> Delivered \<longrightarrow> \<not> rl_allowed r \<and> rk_store ns' = rk_store ns \<and>
            rate_limit_or_unavailable_response r = Unavailable503 5) \<and>
    (next_delivery (rk_net ns) = Delivered \<longrightarrow> (\<exists>s. 1 \<le> unat s \<and> unat s \<le> 60 \<and>
            rate_limit_or_unavailable_response r = TooMany429 s))"
proof -
  have h: "unat (sat_sub (sat_add (hour_ts t) 3600) t) = unat (hour_ts t) + 3600 - unat t"
    using hour_ts_bounds[of t] assms(2) by (simp add: unat_sat_sub unat_sat_add)
  have "1 \<le> unat (hour_ts t) + 3600 - unat t" "unat (hour_ts t) + 3600 - unat t \<le> 3600"
    using hour_ts_bounds[of t] by auto
  moreover have "unat (if n < 2 ^ 32 then of_nat n else - 1 :: u32) = n" if "n \<le> 3600" for n
    using that by (simp add: unat_of_nat)
  ultimately have u: "unat (u32_or_max (sat_sub (sat_add (hour_ts t) 3600) t)) = unat (hour_ts t) + 3600 - unat t"
    unfolding u32_or_max_def h by blast
  have b: "1 \<le> unat (clamp_retry_after (u32_or_max (sat_sub (sat_add (hour_ts t) 3600) t)))"
    "unat (clamp_retry_after (u32_or_max (sat_sub (sat_add (hour_ts t) 3600) t))) \<le> 60"
    using u hour_ts_bounds[of t]
    by (auto simp: clamp_retry_after_def MAX_ADVERTISED_RETRY_AFTER_SECS_def min_def word_le_nat_alt)
  obtain a c l f ns1 where s: "check_kv_counter key limit ttl ns = ((a, c, l, f), ns1)"
    by (metis prod.collapse)
  have r: "rl_allowed r = a" "rl_read_failed r = f" "ns' = ns1"
    "rl_retry_after_secs r = clamp_retry_after (u32_or_max (sat_sub (sat_add (hour_ts t) 3600) t))"
    using assms(1) s by (auto simp: window_check_def)
  have "f \<longleftrightarrow> next_delivery (rk_net ns) \<noteq> Delivered" "f \<Longrightarrow> \<not> a \<and> rk_store ns1 = rk_store ns"
    using s by (auto simp: check_kv_counter_def get_text_def Let_def split: if_splits sum.splits prod.splits)
  with b r show ?thesis
    by (auto simp: rate_limit_or_unavailable_response_def READ_FAILURE_RETRY_AFTER_SECS_def)
qed

lemma quota_fails_closed_witness:
  "\<exists>r ns'. window_check ''quota:rp:verify:7200'' 5 7200 (hour_ts 7300) 3600 7300
     \<lparr>rk_store = (\<lambda>_. None), rk_net = [NotDelivered]\<rparr> = (r, ns') \<and> \<not> rl_allowed r \<and>
     rate_limit_or_unavailable_response r = Unavailable503 5"
proof -
  let ?ns = "\<lparr>rk_store = (\<lambda>_. None), rk_net = [NotDelivered]\<rparr>"
  obtain r ns' where w: "window_check ''quota:rp:verify:7200'' 5 7200 (hour_ts 7300) 3600 7300 ?ns = (r, ns')"
    by fastforce
  from quota_fails_closed[OF w] w show ?thesis by (auto simp: next_delivery_def)
qed

end
