(* ===== verification/Client_Auth.thy ===== *)
theory Client_Auth imports Origin_Policy Rate_Limit begin

text \<open>
  \<open>src/routes/api_key_auth.rs\<close> and \<open>src/routes/ownership.rs\<close>: authentication of a request by
  its Origin and API key against the origin's policy, the per-account quota that follows it, and
  the check that the caller owns the challenge.
\<close>

subsection \<open>Ownership\<close>

text \<open>The second component is what is reported to the audit log: address and event name.\<close>

definition verify_ownership ::
    "string option \<Rightarrow> string option \<Rightarrow> string \<Rightarrow> string \<Rightarrow> unit api_result \<times> (string \<times> string) list" where
  "verify_ownership owner_id client_id client_ip event =
     (case (owner_id, client_id) of
        (Some owner, Some client) \<Rightarrow>
          if length owner = length client \<and> string_bytes owner = string_bytes client then (Inr (), [])
          else (Inl (Forbidden (Some ''Access denied: you do not own this challenge'')), [(client_ip, event)])
      | (None, _) \<Rightarrow>
          (Inl (Forbidden (Some ''Access denied: challenge ownership not established'')), [(client_ip, event)])
      | (Some _, None) \<Rightarrow>
          (Inl (Forbidden (Some ''Access denied: you do not own this challenge'')), [(client_ip, event)]))"

subsection \<open>API keys against a policy\<close>

text \<open>
  The hashes that are verified are part of the result, since the code adds a dummy
  verification on a miss to hide it from a timing attacker.
\<close>

fun first_match ::
    "(string \<Rightarrow> string \<Rightarrow> bool option) \<Rightarrow> string \<Rightarrow> client_auth_config list \<Rightarrow> string option \<times> string list" where
  "first_match argon2 api_key [] = (None, [])"
| "first_match argon2 api_key (c # cs) =
     (if verify_api_key argon2 api_key (ca_api_key_hash c)
      then (Some (ca_client_id c), [ca_api_key_hash c])
      else let (r, hs) = first_match argon2 api_key cs in (r, ca_api_key_hash c # hs))"

definition MAX_FALLBACK_SCAN :: nat where "MAX_FALLBACK_SCAN = 5"

text \<open>\<open>policy.clients.get(idx)\<close> for the candidate indices, without the inactive clients.\<close>

definition candidate_clients :: "origin_policy \<Rightarrow> nat list \<Rightarrow> client_auth_config list" where
  "candidate_clients p indices =
     filter ca_active (map (\<lambda>i. op_clients p ! i) (filter (\<lambda>i. i < length (op_clients p)) indices))"

definition verify_against_policy ::
    "(string \<Rightarrow> string \<Rightarrow> bool option) \<Rightarrow> string \<Rightarrow> string \<Rightarrow> cached_policy \<Rightarrow> string option \<times> string list" where
  "verify_against_policy argon2 dummy_hash api_key cached =
     (let candidate_indices =
            (case cp_index cached (api_key_prefix api_key) of
               Some is \<Rightarrow> Some is
             | None \<Rightarrow> cp_index cached ''PREFIX_UNKNOWN'');
          (r, hs) =
            (case candidate_indices of
               Some indices \<Rightarrow> first_match argon2 api_key (candidate_clients (cp_policy cached) indices)
             | None \<Rightarrow> first_match argon2 api_key
                         (take MAX_FALLBACK_SCAN (filter ca_active (op_clients (cp_policy cached)))))
      in (r, if r = None then hs @ [dummy_hash] else hs))"

subsection \<open>Requests\<close>

text \<open>
  \<open>ae_client_lookup\<close> is the text that the configuration KV holds under
  \<open>client_lookup/<owner>\<close>, absent also when the binding or the read fails.
\<close>

record auth_env =
  ae_parse :: "string \<Rightarrow> string + origin_policy"
  ae_argon2 :: "string \<Rightarrow> string \<Rightarrow> bool option"
  ae_dummy_hash :: string
  ae_environment :: string
  ae_client_lookup :: "string \<Rightarrow> string option"

text \<open>
  The policy cache, and for each lookup of a policy to come the two times read from the clock
  and the outcome of its KV read.
\<close>

record auth_world =
  aw_cache :: policy_cache
  aw_lookups :: "(u64 \<times> u64 \<times> kv_read) list"

definition lookup_policy ::
    "auth_env \<Rightarrow> string \<Rightarrow> auth_world \<Rightarrow> cached_policy option api_result \<times> auth_world" where
  "lookup_policy env origin w =
     (let (now, now', r) = (case aw_lookups w of [] \<Rightarrow> (0, 0, KvTimeout) | x # _ \<Rightarrow> x);
          (res, c) = get_cached_policy (ae_parse env) now now' origin r (aw_cache w)
      in (res, w\<lparr>aw_cache := c, aw_lookups := tl (aw_lookups w)\<rparr>))"

definition resolve_origin ::
    "auth_env \<Rightarrow> string option \<Rightarrow> string option \<Rightarrow> auth_world \<Rightarrow> string option \<times> auth_world" where
  "resolve_origin env origin_header expected_owner_id w =
     (case origin_header of
        None \<Rightarrow> (None, w)
      | Some origin_str \<Rightarrow>
          (case lookup_policy env origin_str w of
             (Inr (Some _), w1) \<Rightarrow> (Some origin_str, w1)
           | (_, w1) \<Rightarrow>
               (if ae_environment env \<noteq> ''sandbox'' then (None, w1)
                else case expected_owner_id of
                       None \<Rightarrow> (None, w1)
                     | Some owner_id \<Rightarrow>
                         if \<not> starts_with owner_id ''rp_sandbox_'' then (None, w1)
                         else (case ae_client_lookup env (''client_lookup/'' @ owner_id) of
                                 Some reg \<Rightarrow> if reg \<noteq> [] then (Some reg, w1) else (None, w1)
                               | None \<Rightarrow> (None, w1)))))"

record auth_options =
  ao_expected_owner_id :: "string option"
  ao_allow_mobile_flow :: bool
  ao_stored_client_id :: "string option"

record auth_result =
  ar_client_id :: "string option"
  ar_is_mobile_flow :: bool

text \<open>The headers are those the code reads; the list is the hashes verified.\<close>

definition extract_id ::
    "auth_env \<Rightarrow> string option \<Rightarrow> string option \<Rightarrow> auth_options \<Rightarrow> auth_world \<Rightarrow>
     (string option \<times> string list) \<times> auth_world" where
  "extract_id env origin_header api_key_header opts w =
     (case resolve_origin env origin_header (ao_expected_owner_id opts) w of
        (Some origin_str, w1) \<Rightarrow>
          (case lookup_policy env origin_str w1 of
             (Inr (Some cached), w2) \<Rightarrow>
               ((case api_key_header of
                   Some api_key \<Rightarrow> verify_against_policy (ae_argon2 env) (ae_dummy_hash env) api_key cached
                 | None \<Rightarrow> (None, [])), w2)
           | (_, w2) \<Rightarrow> ((None, []), w2))
      | (None, w1) \<Rightarrow>
          ((None, case api_key_header of Some _ \<Rightarrow> [ae_dummy_hash env] | None \<Rightarrow> []), w1))"

definition authenticate_api_key ::
    "auth_env \<Rightarrow> string option \<Rightarrow> string option \<Rightarrow> auth_options \<Rightarrow> auth_world \<Rightarrow> auth_result \<times> auth_world" where
  "authenticate_api_key env origin_header api_key_header opts w =
     (let ((extracted_id, _), w1) = extract_id env origin_header api_key_header opts w
      in if extracted_id = None \<and> ao_allow_mobile_flow opts \<and> origin_header = None
         then (case ao_stored_client_id opts of
                 Some stored_cid \<Rightarrow> (\<lparr>ar_client_id = Some stored_cid, ar_is_mobile_flow = True\<rparr>, w1)
               | None \<Rightarrow> (\<lparr>ar_client_id = extracted_id, ar_is_mobile_flow = False\<rparr>, w1))
         else (\<lparr>ar_client_id = extracted_id, ar_is_mobile_flow = False\<rparr>, w1))"

subsection \<open>The account quota\<close>

definition DEFAULT_ACCOUNT_QUOTA_PER_HOUR :: u32 where "DEFAULT_ACCOUNT_QUOTA_PER_HOUR = 500"

text \<open>
  \<open>quota_var\<close> is the text of the environment variable, and \<open>bound\<close> whether the KV binding is
  available.
\<close>

definition enforce_account_quota ::
    "tier_env \<Rightarrow> string option \<Rightarrow> bool \<Rightarrow> string \<Rightarrow> string \<Rightarrow> u64 \<Rightarrow> rate_world \<Rightarrow>
     (rate_rejection + unit) \<times> rate_world" where
  "enforce_account_quota env quota_var bound verified_client_id endpoint now w =
     (let default_quota =
            (case quota_var of
               Some v \<Rightarrow> (case parse_unsigned (2 ^ 32) v of
                            Some n \<Rightarrow> of_nat n | None \<Rightarrow> DEFAULT_ACCOUNT_QUOTA_PER_HOUR)
             | None \<Rightarrow> DEFAULT_ACCOUNT_QUOTA_PER_HOUR)
      in if \<not> bound then (Inr (), w)
         else let (r, w') = check_account_quota env verified_client_id endpoint default_quota now w
              in (if \<not> rl_allowed r then Inl (rate_limit_or_unavailable_response r) else Inr (), w'))"

subsection \<open>Lemmas\<close>

lemma verify_ownership_iff:
  "fst (verify_ownership owner client ip ev) = Inr () \<longleftrightarrow> owner \<noteq> None \<and> owner = client"
  by (auto simp: verify_ownership_def string_bytes_inj split: option.splits)

lemma verify_ownership_audits:
  "snd (verify_ownership owner client ip ev) =
     (if fst (verify_ownership owner client ip ev) = Inr () then [] else [(ip, ev)])"
  by (auto simp: verify_ownership_def split: option.splits)

lemma first_match_find:
  "fst (first_match argon2 key cs) =
     map_option ca_client_id (find (\<lambda>c. verify_api_key argon2 key (ca_api_key_hash c)) cs)"
  by (induction cs) (auto simp: split_beta Let_def)

definition key_matches :: "(string \<Rightarrow> string \<Rightarrow> bool option) \<Rightarrow> string \<Rightarrow> client_auth_config \<Rightarrow> bool" where
  "key_matches argon2 key c \<longleftrightarrow> ca_active c \<and> verify_api_key argon2 key (ca_api_key_hash c)"

text \<open>The clients that are tried for a key, in order.\<close>

definition tried_clients :: "origin_policy \<Rightarrow> string \<Rightarrow> client_auth_config list" where
  "tried_clients p key =
     (let bucket = (\<lambda>k. filter (\<lambda>c. ca_active c \<and> prefix_key c = k) (op_clients p)) in
      if bucket (api_key_prefix key) \<noteq> [] then bucket (api_key_prefix key)
      else if bucket ''PREFIX_UNKNOWN'' \<noteq> [] then bucket ''PREFIX_UNKNOWN''
      else take MAX_FALLBACK_SCAN (filter ca_active (op_clients p)))"

lemma map_nth_enumerate_filter:
  "map (\<lambda>i. xs ! (i - n)) (map fst (filter (\<lambda>(i, c). P c) (List.enumerate n xs))) = filter P xs"
proof (induction xs arbitrary: n)
  case Nil
  then show ?case by simp
next
  case (Cons x xs)
  have "map (\<lambda>i. (x # xs) ! (i - n)) (map fst (filter (\<lambda>(i, c). P c) (List.enumerate (Suc n) xs))) =
        map (\<lambda>i. xs ! (i - Suc n)) (map fst (filter (\<lambda>(i, c). P c) (List.enumerate (Suc n) xs)))"
    by (auto simp: in_set_enumerate_eq nth_Cons' Suc_le_eq)
  with Cons[of "Suc n"] show ?case by simp
qed

lemma candidates_map:
  "map (\<lambda>i. op_clients p ! i) (candidates p k) = filter (\<lambda>c. ca_active c \<and> prefix_key c = k) (op_clients p)"
  using map_nth_enumerate_filter[of "op_clients p" 0] by (simp add: candidates_def)

lemma candidate_clients_eq:
  "candidate_clients p (candidates p k) = filter (\<lambda>c. ca_active c \<and> prefix_key c = k) (op_clients p)"
proof -
  have "filter (\<lambda>i. i < length (op_clients p)) (candidates p k) = candidates p k"
    by (simp add: set_candidates filter_id_conv)
  then show ?thesis by (simp add: candidate_clients_def candidates_map filter_filter conj_ac)
qed

lemma candidates_Nil:
  "candidates p k = [] \<longleftrightarrow> filter (\<lambda>c. ca_active c \<and> prefix_key c = k) (op_clients p) = []"
  unfolding candidates_map[symmetric] by simp

lemma verify_tries:
  assumes "cp_index e = build_api_key_index (cp_policy e)"
  shows "fst (verify_against_policy argon2 d key e) =
    map_option ca_client_id (find (\<lambda>c. verify_api_key argon2 key (ca_api_key_hash c)) (tried_clients (cp_policy e) key))"
  unfolding verify_against_policy_def assms build_index_eq tried_clients_def candidates_Nil
  by (simp add: Let_def split_beta first_match_find candidate_clients_eq[unfolded candidates_Nil])

text \<open>What a lookup reads from KV, if it reads, as an entry of the cache's history.\<close>

definition lookup_read :: "string \<Rightarrow> auth_world \<Rightarrow> lookup" where
  "lookup_read origin w = (case aw_lookups w of [] \<Rightarrow> (0, origin, KvTimeout) | (now, now', r) # _ \<Rightarrow> (now', origin, r))"

lemma get_cached_policy_entry:
  "get_cached_policy parse now now' o' r c = (Inr (Some e), c') \<Longrightarrow> map_of c' o' = Some e"
  by (auto simp: get_cached_policy_def cache_hit_def split: option.splits prod.splits sum.splits if_splits)

lemma lookup_policy_inv:
  assumes "lookup_policy env o' w = (x, w')" "cache_inv (ae_parse env) h (aw_cache w)"
  shows "cache_inv (ae_parse env) (lookup_read o' w # h) (aw_cache w') \<and>
    (\<forall>e. x = Inr (Some e) \<longrightarrow> cp_index e = build_api_key_index (cp_policy e) \<and> map_of (aw_cache w') o' = Some e)"
proof -
  obtain n n' r where "get_cached_policy (ae_parse env) n n' o' r (aw_cache w) = (x, aw_cache w')"
    "lookup_read o' w = (n', o', r)"
    using assms(1) by (auto simp: lookup_policy_def lookup_read_def Let_def split: list.splits prod.splits)
  with get_cached_policy_inv[OF assms(2) this(1)] show ?thesis by (auto dest: get_cached_policy_entry)
qed

text \<open>How the origin whose policy authenticates a request comes from the Origin header.\<close>

definition resolved_as ::
    "auth_env \<Rightarrow> string option \<Rightarrow> string \<Rightarrow> cached_policy option api_result \<Rightarrow> string \<Rightarrow> bool" where
  "resolved_as env own o' d reg \<longleftrightarrow>
     (if \<exists>e. d = Inr (Some e) then reg = o'
      else ae_environment env = ''sandbox'' \<and> (\<exists>owner. own = Some owner \<and> starts_with owner ''rp_sandbox_'' \<and>
             ae_client_lookup env (''client_lookup/'' @ owner) = Some reg))"

lemma resolve_origin_cases:
  assumes "resolve_origin env oh own w = (Some reg, w')"
  shows "\<exists>o' d. oh = Some o' \<and> lookup_policy env o' w = (d, w') \<and> resolved_as env own o' d reg"
  using assms by (auto simp: resolve_origin_def resolved_as_def split: option.splits prod.splits sum.splits if_splits)

lemma find_Some_in: "find P xs = Some x \<Longrightarrow> x \<in> set xs \<and> P x"
  by (auto simp: find_Some_iff)

lemma tried_clients_sub: "set (tried_clients p key) \<subseteq> {c \<in> set (op_clients p). ca_active c}"
  by (auto simp: tried_clients_def Let_def dest: in_set_takeD)

lemma extract_id_sound:
  assumes "extract_id env oh key opts w = ((Some cid, hs), w')" "cache_inv (ae_parse env) h (aw_cache w)"
  shows "\<exists>o' d w1 reg e k c. oh = Some o' \<and> lookup_policy env o' w = (d, w1) \<and>
    resolved_as env (ao_expected_owner_id opts) o' d reg \<and> lookup_policy env reg w1 = (Inr (Some e), w') \<and>
    (\<exists>t json. (t, reg, KvValue (Some json)) \<in> set (lookup_read reg w1 # lookup_read o' w # h) \<and>
       ae_parse env json = Inr (cp_policy e)) \<and> op_enabled (cp_policy e) \<and>
    key = Some k \<and> c \<in> set (op_clients (cp_policy e)) \<and> ca_client_id c = cid \<and> key_matches (ae_argon2 env) k c"
proof -
  from assms(1) obtain reg w1 e k where r: "resolve_origin env oh (ao_expected_owner_id opts) w = (Some reg, w1)"
    "lookup_policy env reg w1 = (Inr (Some e), w')" "key = Some k"
    "fst (verify_against_policy (ae_argon2 env) (ae_dummy_hash env) k e) = Some cid"
    by (auto simp: extract_id_def split: option.splits prod.splits sum.splits)
  from resolve_origin_cases[OF r(1)] obtain o' d where o: "oh = Some o'" "lookup_policy env o' w = (d, w1)"
    "resolved_as env (ao_expected_owner_id opts) o' d reg" by blast
  from lookup_policy_inv[OF o(2) assms(2)] lookup_policy_inv[OF r(2)]
  have i: "cache_inv (ae_parse env) (lookup_read reg w1 # lookup_read o' w # h) (aw_cache w')"
    "cp_index e = build_api_key_index (cp_policy e)" "map_of (aw_cache w') reg = Some e" by blast+
  from i(1) map_of_SomeD[OF i(3)] obtain x where
    x: "(cp_cached_at e, reg, x) \<in> set (lookup_read reg w1 # lookup_read o' w # h)" "reads_policy (ae_parse env) x (cp_policy e)"
    by (fastforce simp: cache_inv_def)
  from x(2) obtain json where j: "x = KvValue (Some json)" "ae_parse env json = Inr (cp_policy e)" "op_enabled (cp_policy e)"
    by (auto simp: reads_policy_def)
  from r(4)[unfolded verify_tries[OF i(2)]] obtain c where
    c: "ca_client_id c = cid" "find (\<lambda>c. verify_api_key (ae_argon2 env) k (ca_api_key_hash c)) (tried_clients (cp_policy e) k) = Some c"
    by auto
  from find_Some_in[OF c(2)] tried_clients_sub[of "cp_policy e" k]
  have "c \<in> set (op_clients (cp_policy e))" "key_matches (ae_argon2 env) k c"
    by (auto simp: key_matches_def)
  with o r(2,3) x(1) j c(1) show ?thesis by blast
qed

subsection \<open>Properties\<close>

text \<open>C30 Authentication by API key is sound, for any policy cache that lookups, invalidations and evictions
  can have built.  A client identity is granted in one of two ways.  In the mobile flow, which the route
  has to allow, a request without an Origin header is given the client stored with the challenge, with no
  key at all.  Otherwise the request has an Origin and an API key, and the key verifies against the Argon2id
  hash of an active client of that name in the policy that this request's lookup returned; that policy is
  enabled and is what KV held for its origin, in this request's reads or in an earlier one that the cache
  kept; and its origin is the Origin header, or, in the sandbox only and when the header's own lookup finds
  no policy, the one registered for the expected sandbox owner.\<close>

theorem api_key_authentication_sound:
  assumes "cache_run (ae_parse env) h (aw_cache w)"
    and "authenticate_api_key env oh key opts w = (r, w')" "ar_client_id r = Some cid"
  shows "if ar_is_mobile_flow r
    then oh = None \<and> ao_allow_mobile_flow opts \<and> ao_stored_client_id opts = Some cid
    else \<exists>o' d w1 reg e k c. oh = Some o' \<and> lookup_policy env o' w = (d, w1) \<and>
      resolved_as env (ao_expected_owner_id opts) o' d reg \<and> lookup_policy env reg w1 = (Inr (Some e), w') \<and>
      (\<exists>t json. (t, reg, KvValue (Some json)) \<in> set (lookup_read reg w1 # lookup_read o' w # h) \<and>
         ae_parse env json = Inr (cp_policy e)) \<and> op_enabled (cp_policy e) \<and>
      key = Some k \<and> c \<in> set (op_clients (cp_policy e)) \<and> ca_client_id c = cid \<and> ca_active c \<and>
      verify_api_key (ae_argon2 env) k (ca_api_key_hash c)"
proof -
  obtain x hs w1 where x: "extract_id env oh key opts w = ((x, hs), w1)" by (metis prod.collapse)
  show ?thesis
  proof (cases "ar_is_mobile_flow r")
    case True
    with assms(2,3) x show ?thesis
      by (auto simp: authenticate_api_key_def split: if_splits option.splits)
  next
    case False
    with assms(2,3) x have "x = Some cid" "w1 = w'"
      by (auto simp: authenticate_api_key_def split: if_splits option.splits)
    with extract_id_sound[OF _ cache_run_inv[OF assms(1)]] x False show ?thesis
      unfolding if_not_P[OF False] key_matches_def by blast
  qed
qed

definition sample_auth_env :: "string \<Rightarrow> auth_env" where
  "sample_auth_env hsh = \<lparr>ae_parse = (\<lambda>_. Inr sample_policy), ae_argon2 = (\<lambda>k x. Some (x = hsh)),
     ae_dummy_hash = ''$argon2id$d'', ae_environment = ''production'', ae_client_lookup = (\<lambda>_. None)\<rparr>"

definition sample_auth_opts :: auth_options where
  "sample_auth_opts = \<lparr>ao_expected_owner_id = None, ao_allow_mobile_flow = False, ao_stored_client_id = None\<rparr>"

definition sample_auth_world :: auth_world where
  "sample_auth_world = \<lparr>aw_cache = [],
     aw_lookups = [(5000, 5000, KvValue (Some ''{}'')), (5001, 5001, KvTimeout)]\<rparr>"

lemma sample_lookups:
  "\<exists>e w1. lookup_policy (sample_auth_env x) ''https://rp.example'' sample_auth_world = (Inr (Some e), w1) \<and>
     (\<exists>w2. lookup_policy (sample_auth_env x) ''https://rp.example'' w1 = (Inr (Some e), w2)) \<and>
     cp_policy e = sample_policy \<and> cp_index e = build_api_key_index sample_policy"
  by (simp add: lookup_policy_def sample_auth_world_def sample_auth_env_def get_cached_policy_def cache_hit_def
      get_policy_def load_policy_def kv_value_def sample_policy_def cache_insert_def evict_def
      MAX_CACHE_ENTRIES_def cache_ttl_ms_def sat_sub_def)

lemma sample_prefixes:
  "prefix_key (op_clients sample_policy ! 0) = ''pk_live_''" "prefix_key (op_clients sample_policy ! 1) = ''PREFIX_UNKNOWN''"
  "api_key_prefix ''pk_live_0'' = ''pk_live_''"
  by (simp_all add: sample_policy_def prefix_key_def api_key_prefix_def str_prefix_def is_char_boundary_def
      origin_policy_default_def)

lemma sample_authenticates:
  "\<exists>r w'. authenticate_api_key (sample_auth_env ''$argon2id$a'') (Some ''https://rp.example'') (Some ''pk_live_0'')
      sample_auth_opts sample_auth_world = (r, w') \<and> ar_client_id r = Some ''rp_a'' \<and> \<not> ar_is_mobile_flow r"
proof -
  let ?env = "sample_auth_env ''$argon2id$a''"
  from sample_lookups[of "''$argon2id$a''"] obtain e w1 w2 where l:
    "lookup_policy ?env ''https://rp.example'' sample_auth_world = (Inr (Some e), w1)"
    "lookup_policy ?env ''https://rp.example'' w1 = (Inr (Some e), w2)"
    "cp_policy e = sample_policy" "cp_index e = build_api_key_index (cp_policy e)" by auto
  have "find (\<lambda>c. verify_api_key (ae_argon2 ?env) ''pk_live_0'' (ca_api_key_hash c)) (tried_clients sample_policy ''pk_live_0'')
      = Some (op_clients sample_policy ! 0)"
    using sample_prefixes
    by (simp add: tried_clients_def sample_policy_def verify_api_key_def is_valid_argon2id_hash_def sample_auth_env_def)
  then have v: "fst (verify_against_policy (ae_argon2 ?env) (ae_dummy_hash ?env) ''pk_live_0'' e) = Some ''rp_a''"
    unfolding verify_tries[OF l(4)] l(3) by (simp add: sample_policy_def)
  obtain r w' where a: "authenticate_api_key ?env (Some ''https://rp.example'') (Some ''pk_live_0'')
      sample_auth_opts sample_auth_world = (r, w')" by fastforce
  have r: "ar_client_id r = Some ''rp_a''" "\<not> ar_is_mobile_flow r"
    using a v l by (auto simp: authenticate_api_key_def extract_id_def resolve_origin_def split: prod.splits)
  with a show ?thesis by blast
qed

lemma api_key_authentication_sound_witness:
  "\<exists>r w'. authenticate_api_key (sample_auth_env ''$argon2id$a'') (Some ''https://rp.example'')
      (Some ''pk_live_0'') sample_auth_opts sample_auth_world = (r, w') \<and> ar_client_id r = Some ''rp_a'' \<and>
    (\<exists>e w1. lookup_policy (sample_auth_env ''$argon2id$a'') ''https://rp.example'' w1 = (Inr (Some e), w') \<and>
       op_enabled (cp_policy e) \<and> ''rp_a'' \<in> ca_client_id ` set (op_clients (cp_policy e)))"
proof -
  let ?env = "sample_auth_env ''$argon2id$a''"
  from sample_authenticates obtain r w' where
    a: "authenticate_api_key ?env (Some ''https://rp.example'') (Some ''pk_live_0'') sample_auth_opts sample_auth_world = (r, w')"
    and r: "ar_client_id r = Some ''rp_a''" "\<not> ar_is_mobile_flow r" by blast
  have c: "cache_run (ae_parse ?env) [] (aw_cache sample_auth_world)"
    by (simp add: sample_auth_world_def cache_run.start)
  from api_key_authentication_sound[OF c a r(1), unfolded if_not_P[OF r(2)]]
  obtain d w1 reg e c where l: "lookup_policy ?env ''https://rp.example'' sample_auth_world = (d, w1)"
    "resolved_as ?env (ao_expected_owner_id sample_auth_opts) ''https://rp.example'' d reg"
    "lookup_policy ?env reg w1 = (Inr (Some e), w')" "op_enabled (cp_policy e)"
    "c \<in> set (op_clients (cp_policy e))" "ca_client_id c = ''rp_a''" by (elim exE conjE) simp
  from l(2) have "reg = ''https://rp.example''" by (auto simp: resolved_as_def sample_auth_env_def split: if_splits)
  with l(3-6) have "lookup_policy ?env ''https://rp.example'' w1 = (Inr (Some e), w') \<and> op_enabled (cp_policy e) \<and>
      ''rp_a'' \<in> ca_client_id ` set (op_clients (cp_policy e))" by force
  with a r(1) show ?thesis by blast
qed

text \<open>A client whose key prefix was never recorded is locked out as soon as any active client
  of the origin has recorded the same eight characters: the fallback bucket is only consulted
  when the prefix has no bucket at all, and every live key has the prefix \<open>pk_live_\<close>.\<close>

theorem unrecorded_prefix_shadowed:
  assumes "cp_index e = build_api_key_index (cp_policy e)"
    and "c \<in> set (op_clients (cp_policy e))" "key_matches argon2 key c" "ca_api_key_prefix c = None"
    and "c' \<in> set (op_clients (cp_policy e))" "ca_active c'" "prefix_key c' = api_key_prefix key"
    and "\<forall>d\<in>set (op_clients (cp_policy e)). prefix_key d = api_key_prefix key \<longrightarrow>
           \<not> verify_api_key argon2 key (ca_api_key_hash d)"
  shows "fst (verify_against_policy argon2 dummy key e) = None"
proof -
  have "tried_clients (cp_policy e) key =
      filter (\<lambda>c. ca_active c \<and> prefix_key c = api_key_prefix key) (op_clients (cp_policy e))"
    using assms(5-7) by (auto simp: tried_clients_def Let_def filter_empty_conv)
  then have "find (\<lambda>c. verify_api_key argon2 key (ca_api_key_hash c)) (tried_clients (cp_policy e) key) = None"
    using assms(8) by (auto simp: find_None_iff)
  then show ?thesis unfolding verify_tries[OF assms(1)] by simp
qed

lemma unrecorded_prefix_shadowed_witness:
  "key_matches (\<lambda>k x. Some (x = ''$argon2id$b'')) ''pk_live_0'' (op_clients sample_policy ! 1) \<and>
   fst (verify_against_policy (\<lambda>k x. Some (x = ''$argon2id$b'')) ''$argon2id$d'' ''pk_live_0''
     \<lparr>cp_policy = sample_policy, cp_cached_at = 0, cp_index = build_api_key_index sample_policy\<rparr>) = None"
proof -
  have k: "key_matches (\<lambda>k x. Some (x = ''$argon2id$b'')) ''pk_live_0'' (op_clients sample_policy ! 1)"
    by (simp add: key_matches_def sample_policy_def verify_api_key_def is_valid_argon2id_hash_def)
  have s: "set (op_clients sample_policy) = {op_clients sample_policy ! 0, op_clients sample_policy ! 1}"
    by (simp add: sample_policy_def)
  have p: "ca_api_key_prefix (op_clients sample_policy ! 1) = None" "ca_active (op_clients sample_policy ! 0)"
    "\<not> verify_api_key (\<lambda>k x. Some (x = ''$argon2id$b'')) ''pk_live_0'' (ca_api_key_hash (op_clients sample_policy ! 0))"
    by (simp_all add: sample_policy_def verify_api_key_def)
  show ?thesis
    using k p sample_prefixes s
    by (intro conjI k unrecorded_prefix_shadowed[where c = "op_clients sample_policy ! 1"
          and c' = "op_clients sample_policy ! 0"]) auto
qed

end
