(* ===== verification/Fetch_Metadata.thy ===== *)
theory Fetch_Metadata imports Api_Error begin

text \<open>
  \<open>src/security/fetch_metadata.rs\<close>: validation of the \<open>Sec-Fetch-*\<close> headers, in the standard
  form, the form for CSP reports and the strict form of the internal routes.
\<close>

record fetch_headers =
  fh_site :: header_read
  fh_mode :: header_read
  fh_dest :: header_read

abbreviation forbid :: "string \<Rightarrow> unit api_result" where
  "forbid m \<equiv> Inl (Forbidden (Some m))"

definition unreadable :: "unit api_result" where
  "unreadable = forbid ''Unable to validate request metadata''"

definition validate_sec_fetch_site :: "fetch_headers \<Rightarrow> unit api_result" where
  "validate_sec_fetch_site h =
     (case fh_site h of
        HeaderValue site \<Rightarrow>
          if to_lowercase site \<in> {''same-origin'', ''same-site'', ''none''} then Inr ()
          else if to_lowercase site = ''cross-site'' then forbid ''Cross-site requests not allowed''
          else forbid ''Invalid Sec-Fetch-Site value''
      | HeaderMissing \<Rightarrow> Inr ()
      | HeaderError \<Rightarrow> unreadable)"

definition validate_sec_fetch_mode :: "fetch_headers \<Rightarrow> unit api_result" where
  "validate_sec_fetch_mode h =
     (case fh_mode h of
        HeaderValue mode \<Rightarrow>
          if to_lowercase mode \<in> {''cors'', ''same-origin''} then Inr ()
          else if to_lowercase mode = ''navigate'' then forbid ''Navigate mode not allowed on API endpoints''
          else if to_lowercase mode = ''no-cors'' then forbid ''no-cors requests not allowed''
          else if to_lowercase mode = ''websocket'' then forbid ''WebSocket requests not allowed''
          else forbid ''Invalid Sec-Fetch-Mode value''
      | HeaderMissing \<Rightarrow> Inr ()
      | HeaderError \<Rightarrow> unreadable)"

definition validate_sec_fetch_dest :: "fetch_headers \<Rightarrow> unit api_result" where
  "validate_sec_fetch_dest h =
     (case fh_dest h of
        HeaderValue dest \<Rightarrow>
          if to_lowercase dest \<in> {''empty'', ''document''} then Inr ()
          else forbid ''Unexpected Sec-Fetch-Dest value''
      | HeaderMissing \<Rightarrow> Inr ()
      | HeaderError \<Rightarrow> unreadable)"

definition validate_fetch_metadata :: "fetch_headers \<Rightarrow> unit api_result" where
  "validate_fetch_metadata h =
     then_check (validate_sec_fetch_site h) (then_check (validate_sec_fetch_mode h) (validate_sec_fetch_dest h))"

definition validate_sec_fetch_mode_csp :: "fetch_headers \<Rightarrow> unit api_result" where
  "validate_sec_fetch_mode_csp h =
     (case fh_mode h of
        HeaderValue mode \<Rightarrow>
          if to_lowercase mode \<in> {''cors'', ''same-origin'', ''no-cors''} then Inr ()
          else if to_lowercase mode = ''navigate'' then forbid ''Navigate mode not allowed on API endpoints''
          else if to_lowercase mode = ''websocket'' then forbid ''WebSocket requests not allowed''
          else forbid ''Invalid Sec-Fetch-Mode value''
      | HeaderMissing \<Rightarrow> Inr ()
      | HeaderError \<Rightarrow> unreadable)"

definition validate_fetch_metadata_csp :: "fetch_headers \<Rightarrow> unit api_result" where
  "validate_fetch_metadata_csp h =
     then_check (validate_sec_fetch_site h) (then_check (validate_sec_fetch_mode_csp h) (validate_sec_fetch_dest h))"

definition hide :: "unit api_result \<Rightarrow> unit api_result" where
  "hide r = (case r of Inl _ \<Rightarrow> Inl NotFound | Inr _ \<Rightarrow> Inr ())"

definition validate_fetch_metadata_strict :: "fetch_headers \<Rightarrow> unit api_result" where
  "validate_fetch_metadata_strict h =
     then_check
       (case fh_site h of
          HeaderValue site \<Rightarrow>
            if to_lowercase site \<in> {''same-origin'', ''same-site'', ''none''} then Inr () else Inl NotFound
        | HeaderMissing \<Rightarrow> Inl NotFound
        | HeaderError \<Rightarrow> Inl NotFound)
       (then_check (hide (validate_sec_fetch_mode h)) (hide (validate_sec_fetch_dest h)))"

subsection \<open>Properties\<close>

lemmas fetch_defs = validate_sec_fetch_site_def validate_sec_fetch_mode_def validate_sec_fetch_dest_def
  validate_sec_fetch_mode_csp_def unreadable_def

text \<open>The three validations of fetch metadata are layered: the strict one accepts exactly what
  the standard one accepts with a readable Site header, and answers nothing but 404 otherwise;
  the one for CSP reports accepts exactly what the standard one accepts or would accept without
  the Mode header when that is \<open>no-cors\<close>; and a header that cannot be read is refused by all.\<close>

theorem fetch_metadata_layers:
  "(validate_fetch_metadata_strict h = Inr () \<longleftrightarrow>
      validate_fetch_metadata h = Inr () \<and> (\<exists>s. fh_site h = HeaderValue s)) \<and>
   (validate_fetch_metadata_strict h = Inr () \<or> validate_fetch_metadata_strict h = Inl NotFound) \<and>
   (validate_fetch_metadata_csp h = Inr () \<longleftrightarrow> validate_fetch_metadata h = Inr () \<or>
      (\<exists>m. fh_mode h = HeaderValue m \<and> to_lowercase m = ''no-cors'') \<and>
      validate_fetch_metadata (h\<lparr>fh_mode := HeaderMissing\<rparr>) = Inr ()) \<and>
   \<not> (validate_fetch_metadata h = Inr () \<and> HeaderError \<in> {fh_site h, fh_mode h, fh_dest h})"
proof (intro conjI)
  show "validate_fetch_metadata_strict h = Inr () \<longleftrightarrow>
      validate_fetch_metadata h = Inr () \<and> (\<exists>s. fh_site h = HeaderValue s)"
    by (auto simp: validate_fetch_metadata_strict_def validate_fetch_metadata_def hide_def fetch_defs
        split: header_read.splits sum.splits if_splits)
  show "validate_fetch_metadata_strict h = Inr () \<or> validate_fetch_metadata_strict h = Inl NotFound"
    by (auto simp: validate_fetch_metadata_strict_def then_check_def hide_def
        split: header_read.splits sum.splits if_splits)
  show "validate_fetch_metadata_csp h = Inr () \<longleftrightarrow> validate_fetch_metadata h = Inr () \<or>
      (\<exists>m. fh_mode h = HeaderValue m \<and> to_lowercase m = ''no-cors'') \<and>
      validate_fetch_metadata (h\<lparr>fh_mode := HeaderMissing\<rparr>) = Inr ()"
    by (auto simp: validate_fetch_metadata_csp_def validate_fetch_metadata_def fetch_defs
        split: header_read.splits if_splits)
  show "\<not> (validate_fetch_metadata h = Inr () \<and> HeaderError \<in> {fh_site h, fh_mode h, fh_dest h})"
    by (auto simp: validate_fetch_metadata_def fetch_defs)
qed

end
