(* ===== verification/Origin_Match.thy ===== *)
theory Origin_Match imports Prelude begin

text \<open>
  \<open>crates/verifier-logic/src/origin.rs\<close> (re-exported by \<open>src/utils/origin.rs\<close>): matching of
  an origin against a pattern.  \<open>Url::parse\<close> of the url crate is an argument.
\<close>

record parsed_url =
  url_scheme :: string
  url_host :: "string option"
  url_port :: "nat option"
  url_path :: string

type_synonym url_parser = "string \<Rightarrow> parsed_url option"

text \<open>\<open>unwrap_or_default().to_ascii_lowercase()\<close> on a host.\<close>

definition host_lower :: "parsed_url \<Rightarrow> string" where
  "host_lower u = to_ascii_lowercase (case url_host u of Some h \<Rightarrow> h | None \<Rightarrow> [])"

text \<open>The branch of a pattern with a wildcard, split at the first \<open>*.\<close>\<close>

definition matches_wildcard :: "url_parser \<Rightarrow> string \<Rightarrow> string \<Rightarrow> string \<Rightarrow> bool" where
  "matches_wildcard parse scheme_prefix wildcard_suffix origin =
     (if scheme_prefix = [] \<or> wildcard_suffix = [] then False
      else if CHR ''*'' \<in> set wildcard_suffix then False
      else case parse (scheme_prefix @ ''placeholder.'' @ wildcard_suffix) of
             None \<Rightarrow> False
           | Some parsed_pattern \<Rightarrow>
               (case url_host parsed_pattern of
                  None \<Rightarrow> False
                | Some h \<Rightarrow>
                    let pattern_host_suffix = to_ascii_lowercase
                          (case strip_prefix h ''placeholder.'' of Some r \<Rightarrow> r | None \<Rightarrow> h)
                    in case parse origin of
                         None \<Rightarrow> False
                       | Some parsed_origin \<Rightarrow>
                           (case url_host parsed_origin of
                              None \<Rightarrow> False
                            | Some oh \<Rightarrow>
                                let origin_host = to_ascii_lowercase oh;
                                    dot_suffix = CHR ''.'' # pattern_host_suffix
                                in if url_scheme parsed_origin \<noteq> url_scheme parsed_pattern then False
                                   else if url_port parsed_origin \<noteq> url_port parsed_pattern then False
                                   else if ends_with origin_host dot_suffix
                                   then length origin_host - length dot_suffix > 0
                                   else False)))"

definition matches_exact :: "url_parser \<Rightarrow> string \<Rightarrow> string \<Rightarrow> bool" where
  "matches_exact parse pattern origin =
     (case parse pattern of
        None \<Rightarrow>
          if contains_str pattern ''://'' \<or> contains_str origin ''://'' then False
          else eq_ignore_ascii_case pattern origin
      | Some parsed_pattern \<Rightarrow>
          (case parse origin of
             None \<Rightarrow> False
           | Some parsed_origin \<Rightarrow>
               if url_scheme parsed_pattern \<noteq> url_scheme parsed_origin then False
               else if host_lower parsed_pattern \<noteq> host_lower parsed_origin then False
               else if url_port parsed_pattern \<noteq> url_port parsed_origin then False
               else url_path parsed_pattern = url_path parsed_origin))"

definition origin_matches_pattern :: "url_parser \<Rightarrow> string \<Rightarrow> string \<Rightarrow> bool" where
  "origin_matches_pattern parse pattern0 origin0 =
     (if pattern0 = ''*'' then True
      else let pattern = trim pattern0; origin = trim origin0 in
        if pattern = [] \<or> origin = [] then False
        else case split_once pattern ''*.'' of
               Some (scheme_prefix, wildcard_suffix) \<Rightarrow>
                 matches_wildcard parse scheme_prefix wildcard_suffix origin
             | None \<Rightarrow> matches_exact parse pattern origin)"

subsection \<open>Lemmas\<close>

lemma trim_start_id:
  "(case utf8_chars s of [] \<Rightarrow> True | c # _ \<Rightarrow> \<not> is_whitespace c) \<Longrightarrow> trim_start s = s"
  by (subst trim_start.simps) (auto simp: space_bytes_def Let_def split: list.splits)

lemma trim_end_id:
  "utf8_chars s = [] \<or> \<not> is_whitespace (last (utf8_chars s)) \<Longrightarrow> trim_end s = s"
  by (subst trim_end.simps) (auto simp: space_bytes_def Let_def)

text \<open>Visible ASCII text is not trimmed.\<close>

definition visible :: "string \<Rightarrow> bool" where
  "visible s \<longleftrightarrow> list_all (\<lambda>c. 32 < (of_char c :: nat) \<and> (of_char c :: nat) < 127) s"

lemma trim_visible: "visible s \<Longrightarrow> trim s = s"
proof -
  assume v: "visible s"
  then have a: "ascii_only s" by (auto simp: visible_def ascii_only_def list_all_iff)
  have u: "utf8_chars s = map of_char s" by (rule utf8_chars_ascii[OF a])
  have w: "\<not> is_whitespace (of_char c)" if "c \<in> set s" for c
    using v that by (auto simp: visible_def list_all_iff is_whitespace_def)
  have "trim_start s = s"
    using w by (intro trim_start_id, unfold u) (auto split: list.split)
  moreover have "trim_end s = s"
    using w[of "last s"] by (intro trim_end_id) (auto simp: u last_map del: utf8_chars.simps)
  ultimately show ?thesis by (simp add: trim_def)
qed

lemma split_once_wildcard:
  "CHR ''*'' \<notin> set a \<Longrightarrow> split_once (a @ ''*.'' @ b) ''*.'' = Some (a, b)"
  by (induction a) (auto simp: strip_prefix_def)

lemma ends_with_dot:
  "(if ends_with h (CHR ''.'' # d) then length h - length (CHR ''.'' # d) > 0 else False) \<longleftrightarrow>
     (\<exists>l. l \<noteq> [] \<and> h = l @ CHR ''.'' # d)"
  by (auto simp: ends_with_iff)

subsection \<open>Properties\<close>

text \<open>What the url crate documents of the parse of a pattern's placeholder URL.\<close>

definition placeholder_law :: "url_parser \<Rightarrow> string \<Rightarrow> string \<Rightarrow> string \<Rightarrow> nat option \<Rightarrow> bool" where
  "placeholder_law parse scheme domain host port \<longleftrightarrow>
     (\<exists>u. parse (scheme @ ''://placeholder.'' @ domain) = Some u \<and> url_scheme u = scheme \<and>
          url_host u = Some (''placeholder.'' @ host) \<and> url_port u = port)"

text \<open>C36 A wildcard pattern enforces the dot boundary: \<open>scheme://*.domain\<close> matches exactly the
  origins of the same scheme and port whose host is a non-empty label, a dot and the domain, up to
  ASCII case; so neither the bare domain nor a host that merely ends in its text matches.\<close>

theorem wildcard_origin_exact:
  assumes "visible (scheme @ ''://*.'' @ domain)" "visible origin" "origin \<noteq> []"
    and "CHR ''*'' \<notin> set scheme" "CHR ''*'' \<notin> set domain" "domain \<noteq> []"
    and "placeholder_law parse scheme domain host port"
  shows "origin_matches_pattern parse (scheme @ ''://*.'' @ domain) origin \<longleftrightarrow>
    (\<exists>u oh l. parse origin = Some u \<and> url_host u = Some oh \<and> url_scheme u = scheme \<and> url_port u = port \<and>
       l \<noteq> [] \<and> to_ascii_lowercase oh = l @ CHR ''.'' # to_ascii_lowercase host)"
proof -
  let ?p = "scheme @ ''://*.'' @ domain"
  have s: "split_once ?p ''*.'' = Some (scheme @ ''://'', domain)"
    using split_once_wildcard[of "scheme @ ''://''" domain] assms(4) by simp
  have ne: "?p \<noteq> ''*''" using assms(4) by (cases scheme) auto
  from assms(7) obtain u where u: "parse ((scheme @ ''://'') @ ''placeholder.'' @ domain) = Some u" "url_scheme u = scheme"
    "url_host u = Some (''placeholder.'' @ host)" "url_port u = port"
    by (auto simp: placeholder_law_def)
  have sp: "strip_prefix (''placeholder.'' @ host) ''placeholder.'' = Some host" by (rule strip_prefix_append)
  have "origin_matches_pattern parse ?p origin = matches_wildcard parse (scheme @ ''://'') domain origin"
    unfolding origin_matches_pattern_def Let_def trim_visible[OF assms(1)] trim_visible[OF assms(2)] s
    using ne assms(3) by simp
  also have "\<dots> \<longleftrightarrow> (\<exists>u oh l. parse origin = Some u \<and> url_host u = Some oh \<and> url_scheme u = scheme \<and> url_port u = port \<and>
       l \<noteq> [] \<and> to_ascii_lowercase oh = l @ CHR ''.'' # to_ascii_lowercase host)"
    unfolding matches_wildcard_def u(1) option.case u(3) sp Let_def ends_with_dot
    using assms(5,6) u(2,4) by (auto split: option.splits)
  finally show ?thesis .
qed

definition sample_parse :: url_parser where
  "sample_parse s =
     (if s = ''https://placeholder.example.com'' then
        Some \<lparr>url_scheme = ''https'', url_host = Some ''placeholder.example.com'', url_port = None, url_path = ''/''\<rparr>
      else if s = ''https://evilexample.com'' then
        Some \<lparr>url_scheme = ''https'', url_host = Some ''evilexample.com'', url_port = None, url_path = ''/''\<rparr>
      else if s = ''https://a.example.com'' then
        Some \<lparr>url_scheme = ''https'', url_host = Some ''a.example.com'', url_port = None, url_path = ''/''\<rparr>
      else None)"

lemma wildcard_origin_exact_witness:
  "origin_matches_pattern sample_parse ''https://*.example.com'' ''https://a.example.com'' \<and>
   \<not> origin_matches_pattern sample_parse ''https://*.example.com'' ''https://evilexample.com''"
proof -
  have l: "placeholder_law sample_parse ''https'' ''example.com'' ''example.com'' None"
    by (simp add: placeholder_law_def sample_parse_def)
  have v: "visible (''https'' @ ''://*.'' @ ''example.com'')" "visible ''https://a.example.com''"
    "visible ''https://evilexample.com''"
    by (simp_all add: visible_def)
  have lc: "to_ascii_lowercase ''example.com'' = ''example.com''" "to_ascii_lowercase ''a.example.com'' = ''a'' @ ''.example.com''"
    "to_ascii_lowercase ''evilexample.com'' = ''evilexample.com''"
    by (simp_all add: to_ascii_lowercase_def char_lower_def)
  have ne: "''evilexample.com'' \<noteq> l @ ''.example.com''" for l
  proof
    assume "''evilexample.com'' = l @ ''.example.com''"
    then have "ends_with ''evilexample.com'' ''.example.com''" by (auto simp: ends_with_iff)
    then show False by (simp add: ends_with_def)
  qed
  note t = wildcard_origin_exact[OF v(1) _ _ _ _ _ l]
  show ?thesis
    using t[OF v(2)] t[OF v(3)] lc ne by (auto simp: sample_parse_def)
qed

end
