(* ===== verification/Ssrf.thy ===== *)
theory Ssrf imports Api_Error Origin_Match "HOL-Library.Monad_Syntax" begin

text \<open>
  \<open>src/utils/ssrf_protection.rs\<close>: the checks of a URL before it is fetched.  An \<open>Ipv4Addr\<close> is
  its 32-bit value, an \<open>Ipv6Addr\<close> the list of its eight segments; the textual parser of
  \<open>std::net::IpAddr\<close> is modelled, \<open>Url::parse\<close> of the url crate is an argument.
\<close>

subsection \<open>IPv4 ranges\<close>

definition PRIVATE_IPV4_RANGES :: "(u32 \<times> u32) list" where
  "PRIVATE_IPV4_RANGES = [(0x0A000000, 0x0AFFFFFF), (0xAC100000, 0xAC1FFFFF), (0xC0A80000, 0xC0A8FFFF)]"

definition LOOPBACK_IPV4_START :: u32 where "LOOPBACK_IPV4_START = 0x7F000000"
definition LOOPBACK_IPV4_END :: u32 where "LOOPBACK_IPV4_END = 0x7FFFFFFF"
definition LINK_LOCAL_IPV4_START :: u32 where "LINK_LOCAL_IPV4_START = 0xA9FE0000"
definition LINK_LOCAL_IPV4_END :: u32 where "LINK_LOCAL_IPV4_END = 0xA9FEFFFF"
definition CLOUD_METADATA_IP :: u32 where "CLOUD_METADATA_IP = 0xA9FEA9FE"
definition CGNAT_IPV4_START :: u32 where "CGNAT_IPV4_START = 0x64400000"
definition CGNAT_IPV4_END :: u32 where "CGNAT_IPV4_END = 0x647FFFFF"
definition THIS_NET_IPV4_START :: u32 where "THIS_NET_IPV4_START = 0x00000000"
definition THIS_NET_IPV4_END :: u32 where "THIS_NET_IPV4_END = 0x00FFFFFF"

definition DOC_IPV4_RANGES :: "(u32 \<times> u32) list" where
  "DOC_IPV4_RANGES = [(0xC0000200, 0xC00002FF), (0xC6336400, 0xC63364FF), (0xCB007100, 0xCB0071FF)]"

definition BENCH_IPV4_START :: u32 where "BENCH_IPV4_START = 0xC6120000"
definition BENCH_IPV4_END :: u32 where "BENCH_IPV4_END = 0xC613FFFF"

definition in_range :: "u32 \<Rightarrow> u32 \<Rightarrow> u32 \<Rightarrow> bool" where
  "in_range a b ip = (a \<le> ip \<and> ip \<le> b)"

definition is_ipv4_loopback :: "u32 \<Rightarrow> bool" where
  "is_ipv4_loopback ip = in_range LOOPBACK_IPV4_START LOOPBACK_IPV4_END ip"

definition is_ipv4_link_local :: "u32 \<Rightarrow> bool" where
  "is_ipv4_link_local ip = in_range LINK_LOCAL_IPV4_START LINK_LOCAL_IPV4_END ip"

definition is_ipv4_private :: "u32 \<Rightarrow> bool" where
  "is_ipv4_private ip = list_ex (\<lambda>(a, b). in_range a b ip) PRIVATE_IPV4_RANGES"

definition is_ipv4_cgnat :: "u32 \<Rightarrow> bool" where
  "is_ipv4_cgnat ip = in_range CGNAT_IPV4_START CGNAT_IPV4_END ip"

definition is_ipv4_this_network :: "u32 \<Rightarrow> bool" where
  "is_ipv4_this_network ip = in_range THIS_NET_IPV4_START THIS_NET_IPV4_END ip"

definition is_ipv4_multicast :: "u32 \<Rightarrow> bool" where
  "is_ipv4_multicast ip =
     (let first_octet = drop_bit 24 ip AND 0xFF in 224 \<le> first_octet \<and> first_octet \<le> 239)"

definition is_ipv4_reserved :: "u32 \<Rightarrow> bool" where
  "is_ipv4_reserved ip = (let first_octet = drop_bit 24 ip AND 0xFF in 240 \<le> first_octet)"

definition is_ipv4_documentation :: "u32 \<Rightarrow> bool" where
  "is_ipv4_documentation ip = list_ex (\<lambda>(a, b). in_range a b ip) DOC_IPV4_RANGES"

definition is_ipv4_benchmarking :: "u32 \<Rightarrow> bool" where
  "is_ipv4_benchmarking ip = in_range BENCH_IPV4_START BENCH_IPV4_END ip"

subsection \<open>Addresses\<close>

type_synonym ipv6 = "u16 list"

datatype ip_addr = V4 u32 | V6 ipv6

record ssrf_config =
  sc_allowed_hosts :: "string list"
  sc_allow_loopback :: bool
  sc_allow_private_ips :: bool

definition ssrf_config_new :: "string list \<Rightarrow> ssrf_config" where
  "ssrf_config_new hosts =
     \<lparr>sc_allowed_hosts = hosts, sc_allow_loopback = False, sc_allow_private_ips = False\<rparr>"

definition ssrf_config_default :: ssrf_config where
  "ssrf_config_default = ssrf_config_new [''cdn.provii.app'']"

definition ssrf_config_from_env :: "string option \<Rightarrow> ssrf_config" where
  "ssrf_config_from_env env_var =
     ssrf_config_new
       (case env_var of
          Some s \<Rightarrow> filter (\<lambda>host. host \<noteq> []) (map trim (split_on CHR '','' s))
        | None \<Rightarrow> [''cdn.provii.app''])"

definition ssrf_refused :: "string \<Rightarrow> unit api_result" where
  "ssrf_refused what = Inl (Forbidden (Some (''SSRF Protection: '' @ what)))"

definition validate_ipv4_address :: "ssrf_config \<Rightarrow> u32 \<Rightarrow> unit api_result" where
  "validate_ipv4_address config ip_u32 =
     (if is_ipv4_loopback ip_u32 then
        (if sc_allow_loopback config then Inr () else ssrf_refused ''loopback addresses are not allowed'')
      else if ip_u32 = CLOUD_METADATA_IP then ssrf_refused ''cloud metadata endpoint is blocked''
      else if is_ipv4_link_local ip_u32 then ssrf_refused ''link-local addresses are not allowed''
      else if is_ipv4_private ip_u32 then
        (if sc_allow_private_ips config then Inr () else ssrf_refused ''private IP addresses are not allowed'')
      else if is_ipv4_cgnat ip_u32 then ssrf_refused ''CGNAT addresses are not allowed''
      else if is_ipv4_this_network ip_u32 then ssrf_refused ''0.0.0.0/8 addresses are not allowed''
      else if is_ipv4_multicast ip_u32 then ssrf_refused ''multicast addresses are not allowed''
      else if is_ipv4_reserved ip_u32 then ssrf_refused ''reserved addresses are not allowed''
      else if is_ipv4_documentation ip_u32 then ssrf_refused ''documentation addresses are not allowed''
      else if is_ipv4_benchmarking ip_u32 then ssrf_refused ''benchmarking addresses are not allowed''
      else Inr ())"

definition is_ipv6_link_local :: "ipv6 \<Rightarrow> bool" where
  "is_ipv6_link_local segments = (segments ! 0 AND 0xffc0 = 0xfe80)"

definition is_ipv6_unique_local :: "ipv6 \<Rightarrow> bool" where
  "is_ipv6_unique_local segments = (segments ! 0 AND 0xfe00 = 0xfc00)"

text \<open>\<open>is_unspecified\<close>, \<open>is_loopback\<close>, \<open>is_multicast\<close> and \<open>to_ipv4_mapped\<close> of \<open>Ipv6Addr\<close>.\<close>

definition ipv6_unspecified :: "ipv6 \<Rightarrow> bool" where "ipv6_unspecified s = (s = [0, 0, 0, 0, 0, 0, 0, 0])"
definition ipv6_loopback :: "ipv6 \<Rightarrow> bool" where "ipv6_loopback s = (s = [0, 0, 0, 0, 0, 0, 0, 1])"
definition ipv6_multicast :: "ipv6 \<Rightarrow> bool" where "ipv6_multicast s = (s ! 0 AND 0xff00 = 0xff00)"

definition to_ipv4_mapped :: "ipv6 \<Rightarrow> u32 option" where
  "to_ipv4_mapped s =
     (if take 6 s = [0, 0, 0, 0, 0, 0xffff]
      then Some (word_of_nat (unat (s ! 6) * 65536 + unat (s ! 7))) else None)"

definition validate_ipv6_address :: "ssrf_config \<Rightarrow> ipv6 \<Rightarrow> unit api_result" where
  "validate_ipv6_address config segments =
     (if ipv6_unspecified segments then ssrf_refused ''IPv6 unspecified address is not allowed''
      else if ipv6_loopback segments then
        (if sc_allow_loopback config then Inr () else ssrf_refused ''IPv6 loopback is not allowed'')
      else if ipv6_multicast segments then ssrf_refused ''IPv6 multicast addresses are not allowed''
      else if is_ipv6_link_local segments then ssrf_refused ''IPv6 link-local addresses are not allowed''
      else if is_ipv6_unique_local segments then
        (if sc_allow_private_ips config then Inr ()
         else ssrf_refused ''IPv6 unique local addresses are not allowed'')
      else if segments ! 0 = 0x2001 \<and> segments ! 1 = 0x0db8 then
        ssrf_refused ''IPv6 documentation addresses are not allowed''
      else if segments ! 0 AND 0xffc0 = 0xfec0 then
        ssrf_refused ''IPv6 site-local addresses are not allowed''
      else if segments ! 0 = 0xfd00 \<and> segments ! 1 = 0x0ec2 \<and>
              take 5 (drop 2 segments) = [0, 0, 0, 0, 0] \<and> segments ! 7 = 0x0254 then
        ssrf_refused ''cloud metadata endpoint is blocked''
      else case to_ipv4_mapped segments of
             Some ipv4 \<Rightarrow> validate_ipv4_address config ipv4
           | None \<Rightarrow> Inr ())"

fun validate_ip_address :: "ssrf_config \<Rightarrow> ip_addr \<Rightarrow> unit api_result" where
  "validate_ip_address config (V4 ipv4) = validate_ipv4_address config ipv4"
| "validate_ip_address config (V6 ipv6) = validate_ipv6_address config ipv6"

subsection \<open>The address parser of the standard library\<close>

text \<open>A parser returns its value and the rest of the input; \<open>None\<close> leaves the input as it was.\<close>

type_synonym 'a parser = "string \<Rightarrow> ('a \<times> string) option"

definition digit_of :: "nat \<Rightarrow> char \<Rightarrow> nat option" where
  "digit_of radix c =
     (let n = (of_char c :: nat);
          d = (if 48 \<le> n \<and> n \<le> 57 then n - 48
               else if 97 \<le> n \<and> n \<le> 122 then n - 87
               else if 65 \<le> n \<and> n \<le> 90 then n - 55 else radix)
      in if d < radix then Some d else None)"

text \<open>\<open>read_number(radix, Some(max_digits), allow_zero_prefix)\<close> for values below \<open>bound\<close>.\<close>

definition read_number :: "nat \<Rightarrow> nat \<Rightarrow> bool \<Rightarrow> nat \<Rightarrow> nat parser" where
  "read_number radix max_digits allow_zero_prefix bound s =
     (let ds = takeWhile (\<lambda>c. digit_of radix c \<noteq> None) s;
          v = foldl (\<lambda>v c. v * radix + the (digit_of radix c)) 0 ds
      in if ds = [] \<or> max_digits < length ds \<or> bound \<le> v then None
         else if \<not> allow_zero_prefix \<and> hd ds = CHR ''0'' \<and> 1 < length ds then None
         else Some (v, drop (length ds) s))"

definition read_separated :: "char \<Rightarrow> nat \<Rightarrow> 'a parser \<Rightarrow> 'a parser" where
  "read_separated sep i p s =
     (if i = 0 then p s
      else case s of c # r \<Rightarrow> if c = sep then p r else None | [] \<Rightarrow> None)"

definition read_octet :: "nat \<Rightarrow> nat parser" where
  "read_octet i = read_separated CHR ''.'' i (read_number 10 3 False 256)"

definition read_ipv4_addr :: "u32 parser" where
  "read_ipv4_addr s =
     do { (a, s) \<leftarrow> read_octet 0 s; (b, s) \<leftarrow> read_octet 1 s;
          (c, s) \<leftarrow> read_octet 2 s; (d, s) \<leftarrow> read_octet 3 s;
          Some (word_of_nat (((a * 256 + b) * 256 + c) * 256 + d), s) }"

text \<open>
  \<open>read_groups\<close>: the groups read, whether they end in an embedded IPv4 address, and the rest.
  \<open>n\<close> counts the free slots down from \<open>limit\<close>; \<open>i\<close> is the index of the next one.
\<close>

fun read_groups :: "nat \<Rightarrow> nat \<Rightarrow> string \<Rightarrow> u16 list \<times> bool \<times> string" where
  "read_groups 0 i s = ([], False, s)"
| "read_groups (Suc n) i s =
     (case (if n = 0 then None else read_separated CHR '':'' i read_ipv4_addr s) of
        Some (v4, r) \<Rightarrow> ([ucast (drop_bit 16 v4), ucast v4], True, r)
      | None \<Rightarrow>
          (case read_separated CHR '':'' i (read_number 16 4 True 65536) s of
             Some (g, r) \<Rightarrow> let (gs, v4, r') = read_groups n (Suc i) r in (word_of_nat g # gs, v4, r')
           | None \<Rightarrow> ([], False, s)))"

definition read_ipv6_addr :: "ipv6 parser" where
  "read_ipv6_addr s =
     (let (head, head_ipv4, r) = read_groups 8 0 s in
      if length head = 8 then Some (head, r)
      else if head_ipv4 then None
      else case strip_prefix r ''::'' of
             None \<Rightarrow> None
           | Some r' \<Rightarrow>
               (let (tail, _, r'') = read_groups (7 - length head) 0 r'
                in Some (head @ replicate (8 - length head - length tail) 0 @ tail, r'')))"

definition parse_ip_addr :: "string \<Rightarrow> ip_addr option" where
  "parse_ip_addr s =
     (case read_ipv4_addr s of
        Some (ip, r) \<Rightarrow> if r = [] then Some (V4 ip) else None
      | None \<Rightarrow>
          (case read_ipv6_addr s of
             Some (ip, r) \<Rightarrow> if r = [] then Some (V6 ip) else None
           | None \<Rightarrow> None))"

subsection \<open>Hostnames\<close>

definition BLOCKED_HOSTNAMES :: "string list" where
  "BLOCKED_HOSTNAMES = [''localhost'', ''localhost.localdomain'']"

definition BLOCKED_HOSTNAME_SUFFIXES :: "string list" where
  "BLOCKED_HOSTNAME_SUFFIXES = [''.local'', ''.internal'', ''.localhost'']"

definition METADATA_HOSTNAMES :: "string list" where
  "METADATA_HOSTNAMES = [''metadata.google.internal'', ''metadata.goog'', ''metadata'']"

definition validate_hostname_not_blocked :: "string \<Rightarrow> unit api_result" where
  "validate_hostname_not_blocked hostname =
     (let lower = to_ascii_lowercase hostname in
      if list_ex (\<lambda>blocked. lower = blocked) BLOCKED_HOSTNAMES then ssrf_refused ''hostname is blocked''
      else if list_ex (\<lambda>suffix. lower = drop 1 suffix \<or> ends_with lower suffix) BLOCKED_HOSTNAME_SUFFIXES
      then ssrf_refused ''hostname suffix is blocked''
      else Inr ())"

definition validate_hostname_not_metadata :: "string \<Rightarrow> unit api_result" where
  "validate_hostname_not_metadata hostname =
     (let lower = to_ascii_lowercase hostname in
      if list_ex (\<lambda>meta. lower = meta \<or> ends_with lower (CHR ''.'' # meta)) METADATA_HOSTNAMES
      then ssrf_refused ''cloud metadata hostname is blocked''
      else Inr ())"

definition validate_hostname_allowlist :: "ssrf_config \<Rightarrow> string \<Rightarrow> unit api_result" where
  "validate_hostname_allowlist config hostname =
     (if hostname \<in> set (sc_allowed_hosts config) then Inr ()
      else if list_ex
                (\<lambda>allowed. case strip_prefix allowed ''*.'' of
                   Some domain \<Rightarrow> hostname = domain \<or> ends_with hostname (CHR ''.'' # domain)
                 | None \<Rightarrow> False) (sc_allowed_hosts config)
      then Inr ()
      else Inl (Forbidden (Some (''Hostname '' @ [CHR 0x27] @ hostname @ [CHR 0x27] @
                                 '' is not in the SSRF allowlist''))))"

text \<open>\<open>trim_start_matches('[').trim_end_matches(']')\<close>.\<close>

definition host_clean :: "string \<Rightarrow> string" where
  "host_clean h = rev (dropWhile (\<lambda>c. c = CHR '']'') (rev (dropWhile (\<lambda>c. c = CHR ''['') h)))"

definition validate_ip_literal :: "ssrf_config \<Rightarrow> string \<Rightarrow> unit api_result" where
  "validate_ip_literal config hostname =
     (case parse_ip_addr (host_clean hostname) of
        Some ip \<Rightarrow> validate_ip_address config ip
      | None \<Rightarrow> Inr ())"

definition validate_url_for_fetch ::
    "(string \<Rightarrow> string + parsed_url) \<Rightarrow> string \<Rightarrow> ssrf_config \<Rightarrow> unit api_result" where
  "validate_url_for_fetch parse url config =
     (case parse url of
        Inl e \<Rightarrow> Inl (BadRequest (Some (''Invalid URL format: '' @ e)))
      | Inr parsed_url \<Rightarrow>
          if url_scheme parsed_url \<noteq> ''https'' then
            Inl (BadRequest (Some ''Only HTTPS URLs are allowed for security''))
          else if url_port parsed_url \<notin> {None, Some 443} then
            Inl (BadRequest (Some ''Only port 443 is allowed''))
          else case url_host parsed_url of
                 None \<Rightarrow> Inl (BadRequest (Some ''URL must have a hostname''))
               | Some hostname \<Rightarrow>
                   then_check (validate_hostname_not_blocked hostname)
                     (then_check (validate_hostname_not_metadata hostname)
                       (then_check (validate_hostname_allowlist config hostname)
                         (validate_ip_literal config hostname))))"

text \<open>The host part of \<open>validate_base_url\<close>, with its strict configuration.\<close>

definition validate_base_host :: "string option \<Rightarrow> unit api_result" where
  "validate_base_host host =
     (case host of
        Some hostname \<Rightarrow>
          then_check (validate_hostname_not_blocked hostname)
            (then_check (validate_hostname_not_metadata hostname)
              (validate_ip_literal (ssrf_config_new []) hostname))
      | None \<Rightarrow> Inr ())"

definition validate_base_url :: "(string \<Rightarrow> string + parsed_url) \<Rightarrow> string \<Rightarrow> unit api_result" where
  "validate_base_url parse url =
     (case parse url of
        Inl e \<Rightarrow> Inl (BadRequest (Some (''Invalid base URL: '' @ e)))
      | Inr parsed \<Rightarrow>
          if url_scheme parsed \<noteq> ''https'' then Inl (BadRequest (Some ''Base URL must use HTTPS''))
          else case url_port parsed of
                 Some port \<Rightarrow>
                   if port \<noteq> 443 then
                     Inl (BadRequest (Some (''Base URL port '' @ show_nat port @ '' is not allowed, only 443'')))
                   else validate_base_host (url_host parsed)
               | None \<Rightarrow> validate_base_host (url_host parsed))"

subsection \<open>Helpers of the clients\<close>

definition validate_path_component :: "string \<Rightarrow> string \<Rightarrow> unit api_result" where
  "validate_path_component value field_name =
     (if contains_str value ''..'' \<or> CHR ''/'' \<in> set value \<or> CHR 0x5C \<in> set value \<or>
         CHR ''?'' \<in> set value \<or> CHR ''#'' \<in> set value \<or> CHR ''%'' \<in> set value
      then Inl (BadRequest (Some (field_name @ '' contains invalid characters'')))
      else if list_ex is_control (utf8_chars value)
      then Inl (BadRequest (Some (field_name @ '' contains control characters'')))
      else Inr ())"

definition MAX_RESPONSE_BODY_BYTES :: nat where "MAX_RESPONSE_BODY_BYTES = 1048576"

definition EXPECTED_CONTENT_TYPE :: string where "EXPECTED_CONTENT_TYPE = ''application/json''"

definition validate_content_type :: "string option \<Rightarrow> unit api_result" where
  "validate_content_type content_type =
     (case content_type of
        Some ct \<Rightarrow>
          if starts_with ct EXPECTED_CONTENT_TYPE then Inr ()
          else Inl (BadRequest (Some (''Unexpected Content-Type: '' @ ct)))
      | None \<Rightarrow> Inl (BadRequest (Some ''Response missing Content-Type header'')))"

subsection \<open>Address blocks\<close>

text \<open>The abstract view: an address of \<open>w\<close> bits lies in the CIDR block \<open>prefix/len\<close>.\<close>

definition in_block :: "nat \<Rightarrow> nat \<times> nat \<Rightarrow> nat \<Rightarrow> bool" where
  "in_block w b addr = (case b of (pre, len) \<Rightarrow> addr div 2 ^ (w - len) = pre div 2 ^ (w - len))"

definition dotted :: "nat \<Rightarrow> nat \<Rightarrow> nat \<Rightarrow> nat \<Rightarrow> nat" where
  "dotted a b c d = ((a * 256 + b) * 256 + c) * 256 + d"

definition loopback_v4 :: "nat \<times> nat" where "loopback_v4 = (dotted 127 0 0 0, 8)"

definition private_v4 :: "(nat \<times> nat) list" where
  "private_v4 = [(dotted 10 0 0 0, 8), (dotted 172 16 0 0, 12), (dotted 192 168 0 0, 16)]"

text \<open>
  Link-local, CGNAT, this network, multicast, reserved, the three documentation networks and
  benchmarking; the metadata address 169.254.169.254 is link-local.
\<close>

definition special_v4 :: "(nat \<times> nat) list" where
  "special_v4 =
     [(dotted 169 254 0 0, 16), (dotted 100 64 0 0, 10), (dotted 0 0 0 0, 8), (dotted 224 0 0 0, 4),
      (dotted 240 0 0 0, 4), (dotted 192 0 2 0, 24), (dotted 198 51 100 0, 24), (dotted 203 0 113 0, 24),
      (dotted 198 18 0 0, 15)]"

definition permitted_v4 :: "ssrf_config \<Rightarrow> nat \<Rightarrow> bool" where
  "permitted_v4 config ip =
     (if in_block 32 loopback_v4 ip then sc_allow_loopback config
      else if list_ex (\<lambda>b. in_block 32 b ip) private_v4 then sc_allow_private_ips config
      else \<not> list_ex (\<lambda>b. in_block 32 b ip) special_v4)"

text \<open>The value of an IPv6 address, and its blocks: multicast, link-local, documentation, site-local.\<close>

definition ipv6_value :: "ipv6 \<Rightarrow> nat" where
  "ipv6_value s = foldl (\<lambda>v x. v * 65536 + unat x) 0 s"

definition unique_local_v6 :: "nat \<times> nat" where "unique_local_v6 = (0xfc00 * 2 ^ 112, 7)"

definition special_v6 :: "(nat \<times> nat) list" where
  "special_v6 = [(0xff00 * 2 ^ 112, 8), (0xfe80 * 2 ^ 112, 10), (0x20010db8 * 2 ^ 96, 32), (0xfec0 * 2 ^ 112, 10)]"

definition permitted_v6 :: "ssrf_config \<Rightarrow> nat \<Rightarrow> bool" where
  "permitted_v6 config ip =
     (if ip = 1 then sc_allow_loopback config
      else if in_block 128 unique_local_v6 ip then sc_allow_private_ips config
      else ip \<noteq> 0 \<and> \<not> list_ex (\<lambda>b. in_block 128 b ip) special_v6 \<and>
           (if in_block 128 (0xffff * 2 ^ 32, 96) ip then permitted_v4 config (ip mod 2 ^ 32) else True))"

lemma range_block:
  assumes "unat a = p * k" "unat b = p * k + (k - 1)" "0 < k"
  shows "in_range a b ip \<longleftrightarrow> unat ip div k = p"
proof -
  have "p * k \<le> unat ip \<and> unat ip \<le> p * k + (k - 1) \<longleftrightarrow> unat ip div k = p" (is "?l = ?r")
  proof
    assume ?l
    then have "unat ip < Suc p * k" using \<open>0 < k\<close> by auto
    with \<open>?l\<close> show ?r by (intro div_nat_eqI) (simp_all add: mult.commute)
  next
    assume ?r
    have "unat ip mod k < k" using \<open>0 < k\<close> by simp
    moreover have "unat ip div k * k + unat ip mod k = unat ip" by (rule div_mult_mod_eq)
    ultimately show ?l unfolding \<open>?r\<close> by linarith
  qed
  with assms show ?thesis by (simp add: in_range_def word_le_nat_alt)
qed

lemmas block_defs = in_block_def dotted_def loopback_v4_def private_v4_def special_v4_def

lemma loopback_block: "is_ipv4_loopback ip \<longleftrightarrow> in_block 32 loopback_v4 (unat ip)"
  unfolding is_ipv4_loopback_def
  by (subst range_block[of _ 127 "2 ^ 24"]) (simp_all add: block_defs LOOPBACK_IPV4_START_def LOOPBACK_IPV4_END_def)

lemma link_local_block: "is_ipv4_link_local ip \<longleftrightarrow> in_block 32 (dotted 169 254 0 0, 16) (unat ip)"
  unfolding is_ipv4_link_local_def
  by (subst range_block[of _ "169 * 256 + 254" "2 ^ 16"])
     (simp_all add: block_defs LINK_LOCAL_IPV4_START_def LINK_LOCAL_IPV4_END_def)

lemma cgnat_block: "is_ipv4_cgnat ip \<longleftrightarrow> in_block 32 (dotted 100 64 0 0, 10) (unat ip)"
  unfolding is_ipv4_cgnat_def
  by (subst range_block[of _ "100 * 4 + 1" "2 ^ 22"]) (simp_all add: block_defs CGNAT_IPV4_START_def CGNAT_IPV4_END_def)

lemma this_network_block: "is_ipv4_this_network ip \<longleftrightarrow> in_block 32 (dotted 0 0 0 0, 8) (unat ip)"
  unfolding is_ipv4_this_network_def
  by (subst range_block[of _ 0 "2 ^ 24"]) (simp_all add: block_defs THIS_NET_IPV4_START_def THIS_NET_IPV4_END_def)

lemma benchmarking_block: "is_ipv4_benchmarking ip \<longleftrightarrow> in_block 32 (dotted 198 18 0 0, 15) (unat ip)"
  unfolding is_ipv4_benchmarking_def
  by (subst range_block[of _ "198 * 128 + 9" "2 ^ 17"]) (simp_all add: block_defs BENCH_IPV4_START_def BENCH_IPV4_END_def)

lemma private_block: "is_ipv4_private ip \<longleftrightarrow> list_ex (\<lambda>b. in_block 32 b (unat ip)) private_v4"
proof -
  have "in_range 0x0A000000 0x0AFFFFFF ip \<longleftrightarrow> unat ip div 2 ^ 24 = 10"
    by (rule range_block) simp_all
  moreover have "in_range 0xAC100000 0xAC1FFFFF ip \<longleftrightarrow> unat ip div 2 ^ 20 = 172 * 16 + 1"
    by (rule range_block) simp_all
  moreover have "in_range 0xC0A80000 0xC0A8FFFF ip \<longleftrightarrow> unat ip div 2 ^ 16 = 192 * 256 + 168"
    by (rule range_block) simp_all
  ultimately show ?thesis by (simp add: is_ipv4_private_def PRIVATE_IPV4_RANGES_def block_defs)
qed

lemma documentation_block:
  "is_ipv4_documentation ip \<longleftrightarrow>
     list_ex (\<lambda>b. in_block 32 b (unat ip)) [(dotted 192 0 2 0, 24), (dotted 198 51 100 0, 24), (dotted 203 0 113 0, 24)]"
proof -
  have "in_range 0xC0000200 0xC00002FF ip \<longleftrightarrow> unat ip div 2 ^ 8 = 0xC00002"
    by (rule range_block) simp_all
  moreover have "in_range 0xC6336400 0xC63364FF ip \<longleftrightarrow> unat ip div 2 ^ 8 = 0xC63364"
    by (rule range_block) simp_all
  moreover have "in_range 0xCB007100 0xCB0071FF ip \<longleftrightarrow> unat ip div 2 ^ 8 = 0xCB0071"
    by (rule range_block) simp_all
  ultimately show ?thesis by (simp add: is_ipv4_documentation_def DOC_IPV4_RANGES_def block_defs)
qed

lemma first_octet: "unat (drop_bit 24 ip AND (0xFF :: u32)) = unat ip div 2 ^ 24"
proof -
  have m: "(0xFF :: u32) = mask 8" by (simp add: mask_eq_exp_minus_1)
  have l: "unat ip < 2 ^ 32" using unsigned_less[of ip] by simp
  have "unat (drop_bit 24 ip AND (0xFF :: u32)) = unat (take_bit 8 (drop_bit 24 ip))"
    unfolding m by (simp only: take_bit_eq_mask)
  also have "\<dots> = take_bit 8 (drop_bit 24 (take_bit 32 (unat ip)))"
    by (simp add: unsigned_take_bit_eq unsigned_drop_bit_eq del: drop_bit_numeral_minus_bit1)
  also have "\<dots> = unat ip div 2 ^ 24 mod 2 ^ 8"
    using l by (simp add: take_bit_eq_mod drop_bit_eq_div)
  also have "\<dots> = unat ip div 2 ^ 24"
    using l by (simp add: less_mult_imp_div_less)
  finally show ?thesis .
qed

lemma multicast_block: "is_ipv4_multicast ip \<longleftrightarrow> in_block 32 (dotted 224 0 0 0, 4) (unat ip)"
proof -
  have "unat ip div 2 ^ 28 = unat ip div 2 ^ 24 div 16" by (simp add: div_mult2_eq[symmetric])
  then show ?thesis
    by (auto simp: is_ipv4_multicast_def Let_def word_le_nat_alt first_octet block_defs)
qed

lemma reserved_block: "is_ipv4_reserved ip \<longleftrightarrow> in_block 32 (dotted 240 0 0 0, 4) (unat ip)"
proof -
  have "unat ip < 2 ^ 32" using unsigned_less[of ip] by simp
  then have "unat ip div 2 ^ 24 < 256" by (simp add: less_mult_imp_div_less)
  moreover have "unat ip div 2 ^ 28 = unat ip div 2 ^ 24 div 16" by (simp add: div_mult2_eq[symmetric])
  ultimately show ?thesis
    by (auto simp: is_ipv4_reserved_def Let_def word_le_nat_alt first_octet block_defs)
qed

lemma metadata_is_link_local: "is_ipv4_link_local CLOUD_METADATA_IP"
  by (simp add: is_ipv4_link_local_def in_range_def CLOUD_METADATA_IP_def LINK_LOCAL_IPV4_START_def LINK_LOCAL_IPV4_END_def)

lemma private_not_link_local: "is_ipv4_private ip \<Longrightarrow> \<not> is_ipv4_link_local ip"
  by (auto simp: is_ipv4_link_local_def is_ipv4_private_def PRIVATE_IPV4_RANGES_def in_range_def
      LINK_LOCAL_IPV4_START_def LINK_LOCAL_IPV4_END_def word_le_nat_alt)

lemma ipv4_allowed: "validate_ipv4_address config ip = Inr () \<longleftrightarrow> permitted_v4 config (unat ip)"
  using private_not_link_local[of ip] metadata_is_link_local
  by (simp add: validate_ipv4_address_def permitted_v4_def loopback_block[symmetric] private_block[symmetric] special_v4_def
      link_local_block[symmetric] cgnat_block[symmetric] this_network_block[symmetric] multicast_block[symmetric]
      reserved_block[symmetric] documentation_block[simplified] benchmarking_block[symmetric] ssrf_refused_def)
     auto

lemma and_high:
  fixes x y :: u16
  assumes "m = NOT (mask n)" "unat y = p * 2 ^ n" "n < 16"
  shows "x AND m = y \<longleftrightarrow> unat x div 2 ^ n = p"
proof -
  have e: "x AND NOT (mask n) = push_bit n (drop_bit n x)"
    by (rule bit_eqI) (auto simp: bit_simps)
  have l: "unat x < 2 ^ 16" using unsigned_less[of x] by simp
  have "unat x div 2 ^ n * 2 ^ n \<le> unat x" by (rule div_times_less_eq_dividend)
  with l have "unat x div 2 ^ n * 2 ^ n < 2 ^ 16" by (rule le_less_trans[rotated])
  then have "unat (x AND NOT (mask n)) = unat x div 2 ^ n * 2 ^ n"
    unfolding e unsigned_push_bit_eq unsigned_drop_bit_eq using l
    by (simp add: push_bit_eq_mult drop_bit_eq_div take_bit_eq_mod)
  then show ?thesis
    unfolding assms(1) word_unat_eq_iff assms(2) by simp
qed

lemma link_local_v6: "(x :: u16) AND 0xffc0 = 0xfe80 \<longleftrightarrow> unat x div 64 = 0x3fa"
  using and_high[of "0xffc0" 6 "0xfe80" "0x3fa" x] by (simp add: mask_eq_exp_minus_1 word_unat_eq_iff)

lemma site_local_v6: "(x :: u16) AND 0xffc0 = 0xfec0 \<longleftrightarrow> unat x div 64 = 0x3fb"
  using and_high[of "0xffc0" 6 "0xfec0" "0x3fb" x] by (simp add: mask_eq_exp_minus_1 word_unat_eq_iff)

lemma unique_local_v6': "(x :: u16) AND 0xfe00 = 0xfc00 \<longleftrightarrow> unat x div 512 = 0x7e"
  using and_high[of "0xfe00" 9 "0xfc00" "0x7e" x] by (simp add: mask_eq_exp_minus_1 word_unat_eq_iff)

lemma multicast_v6: "(x :: u16) AND 0xff00 = 0xff00 \<longleftrightarrow> unat x div 256 = 0xff"
  using and_high[of "0xff00" 8 "0xff00" "0xff" x] by (simp add: mask_eq_exp_minus_1 word_unat_eq_iff)

lemma u16_bound: "unat (x :: u16) < 65536"
  using unsigned_less[of x] by simp

text \<open>The value of an address as its leading segments and the rest.\<close>

lemma value_split:
  "length t = k \<Longrightarrow> ipv6_value (s @ t) = ipv6_value s * 65536 ^ k + ipv6_value t \<and> ipv6_value t < 65536 ^ k"
proof (induction t arbitrary: k rule: rev_induct)
  case (snoc x t)
  then obtain j where k: "k = Suc j" "length t = j" by auto
  have i: "ipv6_value (s @ t) = ipv6_value s * 65536 ^ j + ipv6_value t" "ipv6_value t < 65536 ^ j"
    using snoc.IH[OF k(2)] by auto
  have v: "ipv6_value (u @ [x]) = ipv6_value u * 65536 + unat x" for u by (simp add: ipv6_value_def)
  have "ipv6_value (s @ t @ [x]) = ipv6_value s * 65536 ^ k + ipv6_value (t @ [x])"
    using v[of "s @ t"] v[of t] i(1) by (simp add: k(1) algebra_simps)
  moreover have "ipv6_value (t @ [x]) < 65536 ^ k"
    using i(2) u16_bound[of x] unfolding v k(1) by simp
  ultimately show ?case by simp
qed (simp add: ipv6_value_def)

lemma value_div: "length t = k \<Longrightarrow> ipv6_value (s @ t) div 65536 ^ k = ipv6_value s"
  using value_split[of t k s] by simp

lemma value_mod: "length t = k \<Longrightarrow> ipv6_value (s @ t) mod 65536 ^ k = ipv6_value t"
  using value_split[of t k s] by simp

lemma value_inj: "length s = length t \<Longrightarrow> ipv6_value s = ipv6_value t \<Longrightarrow> s = t"
proof (induction s t rule: rev_induct2)
  case (4 x xs y ys)
  have "ipv6_value xs = ipv6_value ys"
    using 4(3) value_div[of "[x]" 1 xs] value_div[of "[y]" 1 ys] by simp
  moreover have "ipv6_value [x] = ipv6_value [y]"
    using 4(3) value_mod[of "[x]" 1 xs] value_mod[of "[y]" 1 ys] by simp
  ultimately show ?case using 4(1,2) by (simp add: ipv6_value_def word_unat_eq_iff)
qed auto

lemma seg_block:
  assumes "length t = 7" "len \<le> 16" "pre = p * 2 ^ (128 - len)"
  shows "in_block 128 (pre, len) (ipv6_value (a # t)) \<longleftrightarrow> unat a div 2 ^ (16 - len) = p"
proof -
  have "(2 :: nat) ^ (128 - len) = 65536 ^ 7 * 2 ^ (16 - len)"
  proof -
    have "128 - len = 112 + (16 - len)" using assms(2) by simp
    then have "(2 :: nat) ^ (128 - len) = 2 ^ 112 * 2 ^ (16 - len)" by (simp only: power_add)
    then show ?thesis by simp
  qed
  then have "ipv6_value (a # t) div 2 ^ (128 - len) = unat a div 2 ^ (16 - len)"
    using value_div[of t 7 "[a]"] assms(1) by (simp only: div_mult2_eq) (simp add: ipv6_value_def)
  then show ?thesis using assms(3) by (simp add: in_block_def)
qed

lemma mapped_block:
  "in_block 128 (0xffff * 2 ^ 32, 96) (ipv6_value [a, b, c, d, e, f, g, h]) \<longleftrightarrow>
     [a, b, c, d, e, f] = [0, 0, 0, 0, 0, 0xffff]"
proof -
  have "ipv6_value [a, b, c, d, e, f, g, h] div 2 ^ 32 = ipv6_value [a, b, c, d, e, f]"
    using value_div[of "[g, h]" 2 "[a, b, c, d, e, f]"] by simp
  moreover have "ipv6_value [0, 0, 0, 0, 0, 0xffff] = 0xffff" by (simp add: ipv6_value_def)
  ultimately show ?thesis
    using value_inj[of "[a, b, c, d, e, f]" "[0, 0, 0, 0, 0, 0xffff]"] by (auto simp: in_block_def)
qed

lemma mapped_value:
  "unat (word_of_nat (unat g * 65536 + unat h) :: u32) = ipv6_value [a, b, c, d, e, f, g, h] mod 2 ^ 32"
proof -
  have "ipv6_value [a, b, c, d, e, f, g, h] mod 2 ^ 32 = unat g * 65536 + unat h"
    using value_mod[of "[g, h]" 2 "[a, b, c, d, e, f]"] by (simp add: ipv6_value_def)
  moreover have "unat (word_of_nat n :: u32) = n" if "n < 2 ^ 32" for n
    using that by (simp add: unat_of_nat)
  moreover have "unat g * 65536 + unat h < 2 ^ 32"
    using u16_bound[of g] u16_bound[of h] by simp
  ultimately show ?thesis by (simp only:)
qed

lemma documentation_v6:
  "in_block 128 (0x20010db8 * 2 ^ 96, 32) (ipv6_value [a, b, c, d, e, f, g, h]) \<longleftrightarrow> a = 0x2001 \<and> b = 0x0db8"
proof -
  have "ipv6_value [a, b, c, d, e, f, g, h] div 2 ^ 96 = ipv6_value [a, b]"
    using value_div[of "[c, d, e, f, g, h]" 6 "[a, b]"] by simp
  moreover have "ipv6_value [0x2001, 0x0db8] = 0x20010db8" by (simp add: ipv6_value_def)
  ultimately show ?thesis
    using value_inj[of "[a, b]" "[0x2001, 0x0db8]"] by (auto simp: in_block_def)
qed

text \<open>C34 The IPv6 check accepts exactly the addresses that are neither unspecified nor in the multicast,
  link-local, site-local and documentation blocks, with \<open>::1\<close> and the unique local block decided by
  the configuration, and an IPv4-mapped address exactly when the IPv4 address is acceptable.\<close>

theorem ipv6_blocks_exact:
  "validate_ipv6_address config [a, b, c, d, e, f, g, h] = Inr () \<longleftrightarrow>
     permitted_v6 config (ipv6_value [a, b, c, d, e, f, g, h])"
proof -
  let ?s = "[a, b, c, d, e, f, g, h]"
  have z: "ipv6_unspecified ?s \<longleftrightarrow> ipv6_value ?s = 0" "ipv6_loopback ?s \<longleftrightarrow> ipv6_value ?s = 1"
    using value_inj[of ?s "[0, 0, 0, 0, 0, 0, 0, 0]"] value_inj[of ?s "[0, 0, 0, 0, 0, 0, 0, 1]"]
    by (auto simp: ipv6_unspecified_def ipv6_loopback_def ipv6_value_def)
  have blocks:
    "in_block 128 (0xff00 * 2 ^ 112, 8) (ipv6_value ?s) \<longleftrightarrow> unat a div 256 = 0xff"
    "in_block 128 (0xfe80 * 2 ^ 112, 10) (ipv6_value ?s) \<longleftrightarrow> unat a div 64 = 0x3fa"
    "in_block 128 (0xfec0 * 2 ^ 112, 10) (ipv6_value ?s) \<longleftrightarrow> unat a div 64 = 0x3fb"
    "in_block 128 unique_local_v6 (ipv6_value ?s) \<longleftrightarrow> unat a div 512 = 0x7e"
    using seg_block[of "[b, c, d, e, f, g, h]" 8 "0xff00 * 2 ^ 112" "0xff" a]
      seg_block[of "[b, c, d, e, f, g, h]" 10 "0xfe80 * 2 ^ 112" "0x3fa" a]
      seg_block[of "[b, c, d, e, f, g, h]" 10 "0xfec0 * 2 ^ 112" "0x3fb" a]
      seg_block[of "[b, c, d, e, f, g, h]" 7 "0xfc00 * 2 ^ 112" "0x7e" a]
    by (simp_all add: unique_local_v6_def)
  have m: "to_ipv4_mapped ?s =
      (if in_block 128 (0xffff * 2 ^ 32, 96) (ipv6_value ?s) then Some (word_of_nat (unat g * 65536 + unat h)) else None)"
    unfolding mapped_block by (simp add: to_ipv4_mapped_def)
  have "unat a div 512 = unat a div 256 div 2" "unat a div 512 = unat a div 64 div 8"
    by (simp_all flip: div_mult2_eq)
  then have disjoint: "unat a div 256 \<noteq> 0xff" "unat a div 64 \<noteq> 0x3fa" if "unat a div 512 = 0x7e"
    using that by auto
  have zero: "\<not> ipv6_unspecified ?s" "\<not> ipv6_loopback ?s" if "unat a div 512 = 0x7e"
    using that by (auto simp: ipv6_unspecified_def ipv6_loopback_def)
  have imds: "unat a div 512 = 0x7e" if "a = 0xfd00"
    using that by simp
  have mv: "unat (word_of_nat (unat g * 65536 + unat h) :: u32) = ipv6_value ?s mod 2 ^ 32"
    by (rule mapped_value)
  have code: "validate_ipv6_address config ?s = Inr () \<longleftrightarrow>
     (if ipv6_loopback ?s then sc_allow_loopback config
      else if unat a div 512 = 0x7e then sc_allow_private_ips config
      else \<not> ipv6_unspecified ?s \<and> unat a div 256 \<noteq> 0xff \<and> unat a div 64 \<noteq> 0x3fa \<and>
        \<not> (a = 0x2001 \<and> b = 0x0db8) \<and> unat a div 64 \<noteq> 0x3fb \<and>
        (case to_ipv4_mapped ?s of Some ip \<Rightarrow> permitted_v4 config (unat ip) | None \<Rightarrow> True))"
  proof (cases "unat a div 512 = 0x7e")
    case True
    then show ?thesis
      using disjoint[OF True] zero[OF True]
      by (simp add: validate_ipv6_address_def link_local_v6 unique_local_v6' multicast_v6
        is_ipv6_link_local_def is_ipv6_unique_local_def ipv6_multicast_def ssrf_refused_def)
  next
    case False
    then have "a \<noteq> 0xfd00" using imds by blast
    moreover have "\<not> (ipv6_unspecified ?s \<and> ipv6_loopback ?s)"
      by (simp add: ipv6_unspecified_def ipv6_loopback_def)
    ultimately show ?thesis
      using False
      by (simp add: validate_ipv6_address_def link_local_v6 site_local_v6 unique_local_v6' multicast_v6
        is_ipv6_link_local_def is_ipv6_unique_local_def ipv6_multicast_def ssrf_refused_def ipv4_allowed
        split: option.split)
  qed
  show ?thesis
    unfolding code permitted_v6_def blocks(4) m z
    by (cases "in_block 128 (0xffff * 2 ^ 32, 96) (ipv6_value ?s)"; cases "ipv6_value ?s = 0")
       (simp_all add: special_v6_def blocks[simplified] documentation_v6[simplified] mv[simplified])
qed

subsection \<open>Address literals\<close>

definition show_ipv4 :: "u32 \<Rightarrow> string" where
  "show_ipv4 ip =
     show_nat (unat ip div 2 ^ 24) @ ''.'' @ show_nat (unat ip div 2 ^ 16 mod 256) @ ''.'' @
     show_nat (unat ip div 2 ^ 8 mod 256) @ ''.'' @ show_nat (unat ip mod 256)"

lemma digit_of_digit: "is_ascii_digit (of_char c) \<Longrightarrow> digit_of 10 c = Some (of_char c - 48)"
  by (auto simp: digit_of_def is_ascii_digit_def Let_def)

lemma show_nat_no_leading_zero: "hd (show_nat n) = CHR ''0'' \<Longrightarrow> n = 0"
proof (induction n rule: show_nat.induct)
  case (1 n)
  have z: "d = 0" if "digit_char d = CHR ''0''" "d < 10" for d
  proof -
    have "(of_char (digit_char d) :: nat) = of_char (CHR ''0'')" unfolding that(1) ..
    with that(2) show ?thesis by (simp add: of_char_digit_char)
  qed
  show ?case
  proof (cases "n < 10")
    case True
    have "show_nat n = [digit_char n]" using True by (subst show_nat.simps) simp
    with 1(2) True show ?thesis by (simp add: z)
  next
    case False
    have "show_nat n = show_nat (n div 10) @ [digit_char (n mod 10)]"
      using False by (subst show_nat.simps) simp
    with 1 False show ?thesis by simp
  qed
qed

lemma read_number_show:
  assumes "n < 256" "r = [] \<or> hd r = CHR ''.''"
  shows "read_number 10 3 False 256 (show_nat n @ r) = Some (n, r)"
proof -
  let ?P = "\<lambda>c. digit_of 10 c \<noteq> None"
  have d: "list_all (\<lambda>c. is_ascii_digit (of_char c)) (show_nat n)" by (rule show_nat_digits)
  have "\<not> ?P (CHR ''.'')" by (simp add: digit_of_def)
  then have "takeWhile ?P r = []" using assms(2) by (cases r) auto
  then have t: "takeWhile ?P (show_nat n @ r) = show_nat n"
    using d by (subst takeWhile_append2) (auto simp: list_all_iff digit_of_digit)
  have "foldl (\<lambda>v c. v * 10 + the (digit_of 10 c)) 0 (show_nat n) = digits_value (show_nat n)"
    unfolding digits_value_def
    using d by (intro foldl_cong refl) (auto simp: list_all_iff digit_of_digit)
  moreover have "length (show_nat n) \<le> 3"
    by (rule length_show_nat_le) (use assms(1) in auto)
  moreover have "\<not> (hd (show_nat n) = CHR ''0'' \<and> 1 < length (show_nat n))"
    using show_nat_no_leading_zero[of n] by (subst (2) show_nat.simps) auto
  ultimately show ?thesis
    using assms(1) unfolding read_number_def t by (simp add: Let_def)
qed

lemma dotted_parts: "dotted (n div 2 ^ 24) (n div 2 ^ 16 mod 256) (n div 2 ^ 8 mod 256) (n mod 256) = n"
proof -
  have s: "m div 256 * 256 + m mod 256 = m" for m :: nat by simp
  have "n div 2 ^ 24 = n div 2 ^ 16 div 256" "n div 2 ^ 16 = n div 2 ^ 8 div 256"
    by (simp_all flip: div_mult2_eq)
  then have "n div 2 ^ 24 * 256 + n div 2 ^ 16 mod 256 = n div 2 ^ 16"
    "n div 2 ^ 16 * 256 + n div 2 ^ 8 mod 256 = n div 2 ^ 8"
    by (simp_all only: s)
  then show ?thesis unfolding dotted_def by (simp only:) simp
qed

lemma read_show_ipv4: "read_ipv4_addr (show_ipv4 ip) = Some (ip, [])"
proof -
  have "unat ip < 2 ^ 32" using unsigned_less[of ip] by simp
  then have o1: "unat ip div 2 ^ 24 < 256" by (simp add: less_mult_imp_div_less)
  have r0: "read_octet 0 (show_nat n @ ''.'' @ r) = Some (n, ''.'' @ r)" if "n < 256" for n r
    using read_number_show[OF that, of "''.'' @ r"] by (simp add: read_octet_def read_separated_def)
  have ri: "read_octet i (''.'' @ show_nat n @ r) = Some (n, r)"
    if "n < 256" "r = [] \<or> hd r = CHR ''.''" "i \<noteq> 0" for n r i
    using read_number_show[OF that(1,2)] that(3) by (simp add: read_octet_def read_separated_def)
  have r3: "read_octet 3 (''.'' @ show_nat n) = Some (n, [])" if "n < 256" for n
    using ri[OF that, of "[]" 3] by simp
  have "read_ipv4_addr (show_nat a @ ''.'' @ show_nat b @ ''.'' @ show_nat c @ ''.'' @ show_nat d) =
      Some (word_of_nat (dotted a b c d), [])" if "a < 256" "b < 256" "c < 256" "d < 256" for a b c d
  proof -
    have "read_octet 1 (''.'' @ show_nat b @ ''.'' @ show_nat c @ ''.'' @ show_nat d) =
        Some (b, ''.'' @ show_nat c @ ''.'' @ show_nat d)"
      by (rule ri) (use that in auto)
    moreover have "read_octet 2 (''.'' @ show_nat c @ ''.'' @ show_nat d) = Some (c, ''.'' @ show_nat d)"
      by (rule ri) (use that in auto)
    ultimately show ?thesis
      unfolding read_ipv4_addr_def dotted_def r0[OF that(1)]
      by (simp only: r3[OF that(4)] bind.bind_lunit split)
  qed
  from this[of "unat ip div 2 ^ 24" "unat ip div 2 ^ 16 mod 256" "unat ip div 2 ^ 8 mod 256" "unat ip mod 256"]
  show ?thesis unfolding show_ipv4_def dotted_parts using o1 by simp
qed

lemma parse_show_ipv4: "parse_ip_addr (show_ipv4 ip) = Some (V4 ip)"
  by (simp add: parse_ip_addr_def read_show_ipv4)

text \<open>An IPv4 literal carries no brackets, so it reaches the parser as it is.\<close>

lemma host_clean_ipv4: "host_clean (show_ipv4 ip) = show_ipv4 ip"
proof -
  have d: "c \<notin> {CHR ''['', CHR '']''}" if "c \<in> set (show_nat n)" for c n
    using that show_nat_digits[of n] by (auto simp: list_all_iff is_ascii_digit_def)
  have "c \<notin> {CHR ''['', CHR '']''}" if "c \<in> set (show_ipv4 ip)" for c
    using that d unfolding show_ipv4_def by (auto 4 3)
  moreover have drop_none: "dropWhile P xs = xs" if "\<forall>x \<in> set xs. \<not> P x" for P and xs :: string
    using that by (cases xs) auto
  ultimately have "dropWhile (\<lambda>c. c = CHR ''['') (show_ipv4 ip) = show_ipv4 ip"
    "dropWhile (\<lambda>c. c = CHR '']'') (rev (show_ipv4 ip)) = rev (show_ipv4 ip)"
    by (intro drop_none; fastforce)+
  then show ?thesis by (simp add: host_clean_def)
qed

text \<open>C33 A URL that may be fetched is an https URL on port 443 whose host is on the allowlist, as
  an entry or under a wildcard entry at a dot boundary, and is no \<open>.internal\<close>, \<open>.local\<close> or
  \<open>.localhost\<close> name; and an IPv4 literal lies outside every special block even if it is listed.\<close>

theorem fetched_url_safe:
  assumes "validate_url_for_fetch parse url config = Inr ()" "parse url = Inr u"
  shows "url_scheme u = ''https'' \<and> url_port u \<in> {None, Some 443} \<and>
    (\<exists>h. url_host u = Some h \<and>
       (\<exists>allowed \<in> set (sc_allowed_hosts config).
          h = allowed \<or> (\<exists>d. allowed = ''*.'' @ d \<and> (h = d \<or> (\<exists>l. h = l @ ''.'' @ d)))) \<and>
       list_all (\<lambda>s. \<not> ends_with (to_ascii_lowercase h) s) BLOCKED_HOSTNAME_SUFFIXES \<and>
       (\<forall>ip. h = show_ipv4 ip \<longrightarrow> permitted_v4 config (unat ip)))"
proof -
  have ok: "ssrf_refused e \<noteq> Inr ()" for e by (simp add: ssrf_refused_def)
  from assms obtain h where h: "url_scheme u = ''https''" "url_port u \<in> {None, Some 443}" "url_host u = Some h"
    "validate_hostname_not_blocked h = Inr ()" "validate_hostname_allowlist config h = Inr ()"
    "validate_ip_literal config h = Inr ()"
    by (auto simp: validate_url_for_fetch_def then_check_ok split: if_splits option.splits)
  from h(5) obtain a where "a \<in> set (sc_allowed_hosts config)"
    "h = a \<or> (\<exists>d. strip_prefix a ''*.'' = Some d \<and> (h = d \<or> ends_with h (CHR ''.'' # d)))"
    by (auto simp: validate_hostname_allowlist_def list_ex_iff split: if_splits option.splits)
  then have "\<exists>allowed \<in> set (sc_allowed_hosts config).
          h = allowed \<or> (\<exists>d. allowed = ''*.'' @ d \<and> (h = d \<or> (\<exists>l. h = l @ ''.'' @ d)))"
    unfolding strip_prefix_Some_iff ends_with_iff append_Cons append_Nil by blast
  moreover have "list_all (\<lambda>s. \<not> ends_with (to_ascii_lowercase h) s) BLOCKED_HOSTNAME_SUFFIXES"
    using h(4) ok by (auto simp: validate_hostname_not_blocked_def Let_def list_all_iff list_ex_iff split: if_splits)
  moreover have "permitted_v4 config (unat ip)" if "h = show_ipv4 ip" for ip
    using h(6) unfolding that validate_ip_literal_def host_clean_ipv4 parse_show_ipv4 by (simp add: ipv4_allowed)
  ultimately show ?thesis using h(1,2,3) by blast
qed

definition sample_fetch_parse :: "string \<Rightarrow> string + parsed_url" where
  "sample_fetch_parse s =
     Inr \<lparr>url_scheme = ''https'', url_host = Some ''8.8.8.8'', url_port = Some 443, url_path = ''/dns-query''\<rparr>"

lemma fetched_url_safe_witness:
  "validate_url_for_fetch sample_fetch_parse ''https://8.8.8.8/dns-query'' (ssrf_config_new [''8.8.8.8'']) = Inr () \<and>
   permitted_v4 (ssrf_config_new [''8.8.8.8'']) (unat (0x08080808 :: u32))"
proof -
  let ?c = "ssrf_config_new [''8.8.8.8'']"
  have "digit_char 8 = CHR ''8''" by code_simp
  then have s: "show_ipv4 0x08080808 = ''8.8.8.8''" by (simp add: show_ipv4_def show_nat.simps)
  have l: "to_ascii_lowercase ''8.8.8.8'' = ''8.8.8.8''" by (simp add: to_ascii_lowercase_def char_lower_def)
  have "permitted_v4 ?c (unat (0x08080808 :: u32))" by (simp add: permitted_v4_def block_defs)
  then have "validate_ip_literal ?c ''8.8.8.8'' = Inr ()"
    using host_clean_ipv4[of "0x08080808"] parse_show_ipv4[of "0x08080808"]
    by (simp add: validate_ip_literal_def s ipv4_allowed)
  then have v: "validate_url_for_fetch sample_fetch_parse ''https://8.8.8.8/dns-query'' ?c = Inr ()"
    by (simp add: validate_url_for_fetch_def sample_fetch_parse_def then_check_ok validate_hostname_not_blocked_def l
        validate_hostname_not_metadata_def validate_hostname_allowlist_def BLOCKED_HOSTNAMES_def ends_with_def
        BLOCKED_HOSTNAME_SUFFIXES_def METADATA_HOSTNAMES_def ssrf_config_new_def)
  from fetched_url_safe[OF v sample_fetch_parse_def] v show ?thesis by (auto simp: s[symmetric])
qed

end
