(* ===== verification/Credit_Client.thy ===== *)
theory Credit_Client imports Ssrf begin

text \<open>
  \<open>src/clients/credit_management.rs\<close>: the client of the credit service.  One consumption is a
  signed request sent over the service binding, or over HTTP when the binding is absent or
  fails, with up to three attempts.  HMAC, JSON and the decoders of the key are arguments, and what the
  network answers to each attempt is an input.
\<close>

datatype credit_error =
    InsufficientCredits u64 u64
  | CreditUnavailable
  | CreditConflict string
  | InvalidRequest string
  | NetworkError string
  | SerializationError string
  | HmacError string
  | SsrfError string

fun credit_error_display :: "credit_error \<Rightarrow> string" where
  "credit_error_display (InsufficientCredits required available) =
     ''Insufficient credits: '' @ show_u64 required @ '' required, '' @ show_u64 available @ '' available''"
| "credit_error_display CreditUnavailable = ''Credit service unavailable''"
| "credit_error_display (CreditConflict m) = ''Conflict: '' @ m"
| "credit_error_display (InvalidRequest m) = ''Invalid request: '' @ m"
| "credit_error_display (NetworkError m) = ''Network error: '' @ m"
| "credit_error_display (SerializationError m) = ''Serialization error: '' @ m"
| "credit_error_display (HmacError m) = ''HMAC signature error: '' @ m"
| "credit_error_display (SsrfError m) = ''SSRF validation error: '' @ m"

record consume_request =
  cq_customer_id :: string
  cq_verification_id :: string
  cq_origin :: string
  cq_issuer_kid :: "string option"
  cq_environment :: string
  cq_partner_id :: "string option"

record consume_body =
  cb_customer_id :: string
  cb_verification_id :: string
  cb_origin :: string
  cb_issuer_kid :: "string option"
  cb_environment :: "string option"

record consume_response =
  balance_after_units :: "u64 option"
  royalty_units_credited :: "u64 option"

record error_response =
  er_error :: string
  er_code :: "string option"
  er_available :: "u64 option"
  er_required :: "u64 option"

definition CREDIT_MAX_RETRIES :: nat where "CREDIT_MAX_RETRIES = 3"
definition INITIAL_BACKOFF_MS :: u64 where "INITIAL_BACKOFF_MS = 100"

subsection \<open>The client\<close>

record credit_env =
  cre_hmac :: "bytes \<Rightarrow> bytes \<Rightarrow> bytes"
  cre_serialise :: "consume_body \<Rightarrow> string + string"
  cre_parse_ok :: "string \<Rightarrow> string + consume_response"
  cre_parse_error :: "string \<Rightarrow> error_response option"

record credit_client =
  crc_base_url :: string
  crc_hmac_key :: bytes
  crc_key_id :: string

definition decode_hmac_key ::
    "(string \<Rightarrow> string + bytes) \<Rightarrow> (string \<Rightarrow> string + bytes) \<Rightarrow> string \<Rightarrow> credit_error + bytes" where
  "decode_hmac_key base64url hex encoded =
     (if length encoded = 43 then
        (case base64url encoded of
           Inl e \<Rightarrow> Inl (HmacError (''Failed to decode base64url HMAC key: '' @ e))
         | Inr k \<Rightarrow> Inr k)
      else case hex encoded of
             Inl e \<Rightarrow> Inl (HmacError (''Failed to decode HMAC key: '' @ e))
           | Inr k \<Rightarrow> Inr k)"

definition credit_client_new ::
    "(string \<Rightarrow> string + parsed_url) \<Rightarrow> (string \<Rightarrow> string + bytes) \<Rightarrow> (string \<Rightarrow> string + bytes) \<Rightarrow>
     string \<Rightarrow> string \<Rightarrow> string \<Rightarrow> credit_error + credit_client" where
  "credit_client_new parse base64url hex base_url hmac_key_hex key_id =
     (case validate_base_url parse base_url of
        Inl e \<Rightarrow> Inl (SsrfError (''Invalid base URL: '' @ display e))
      | Inr _ \<Rightarrow>
          (case decode_hmac_key base64url hex hmac_key_hex of
             Inl e \<Rightarrow> Inl e
           | Inr k \<Rightarrow> Inr \<lparr>crc_base_url = base_url, crc_hmac_key = k, crc_key_id = key_id\<rparr>))"

definition generate_hmac :: "credit_env \<Rightarrow> bytes \<Rightarrow> string \<Rightarrow> string \<Rightarrow> string \<Rightarrow> string \<Rightarrow> string" where
  "generate_hmac env key timestamp meth upath body =
     hex_encode (cre_hmac env key
       (string_bytes (timestamp @ '':'' @ meth @ '':'' @ upath @ '':'' @ body)))"

subsection \<open>Responses\<close>

text \<open>\<open>cp_text\<close> is absent when reading the body fails.\<close>

record credit_response =
  cp_status :: nat
  cp_content_type :: "string option"
  cp_content_length :: "string option"
  cp_text :: "string + string"

definition error_or_default :: "credit_env \<Rightarrow> string \<Rightarrow> string \<Rightarrow> string \<Rightarrow> error_response" where
  "error_or_default env text e c =
     (case cre_parse_error env text of
        Some r \<Rightarrow> r
      | None \<Rightarrow> \<lparr>er_error = e, er_code = Some c, er_available = None, er_required = None\<rparr>)"

definition body_too_large :: credit_error where
  "body_too_large =
     NetworkError (''Response body exceeds '' @ show_nat MAX_RESPONSE_BODY_BYTES @ '' byte limit'')"

text \<open>The match on the status, once the body is read.\<close>

definition status_result :: "credit_env \<Rightarrow> nat \<Rightarrow> string \<Rightarrow> credit_error + consume_response" where
  "status_result env status text =
     (if status = 200 then
        (case cre_parse_ok env text of
           Inl e \<Rightarrow> Inl (SerializationError (''Failed to parse response: '' @ e))
         | Inr r \<Rightarrow> Inr r)
      else if status = 401 then
        Inl (NetworkError ''Provii-credit-management authentication failure (401)'')
      else if status = 403 then
        Inl (NetworkError ''Provii-credit-management authorisation failure (403)'')
      else if status = 402 then
        (let r = error_or_default env text ''Insufficient credits'' ''INSUFFICIENT_CREDITS''
         in Inl (InsufficientCredits (case er_required r of Some n \<Rightarrow> n | None \<Rightarrow> 1)
                                     (case er_available r of Some n \<Rightarrow> n | None \<Rightarrow> 0)))
      else if status = 409 then
        Inl (CreditConflict (er_error (error_or_default env text ''Conflict'' ''CONFLICT'')))
      else if status = 503 then Inl CreditUnavailable
      else if status = 400 then
        Inl (InvalidRequest (er_error (error_or_default env text ''Invalid request'' ''BAD_REQUEST'')))
      else Inl (NetworkError (''Unexpected status code '' @ show_nat status)))"

text \<open>\<open>usize\<close> has 32 bits on wasm32.\<close>

definition parse_consume_response ::
    "credit_env \<Rightarrow> credit_response \<Rightarrow> credit_error + consume_response" where
  "parse_consume_response env response =
     (case (if cp_status response = 200 then validate_content_type (cp_content_type response) else Inr ()) of
        Inl e \<Rightarrow> Inl (NetworkError (''Content-Type validation failed: '' @ display e))
      | Inr _ \<Rightarrow>
          if (case cp_content_length response of
                Some cl_str \<Rightarrow>
                  (case parse_unsigned (2 ^ 32) cl_str of
                     Some cl \<Rightarrow> cl > MAX_RESPONSE_BODY_BYTES | None \<Rightarrow> False)
              | None \<Rightarrow> False)
          then Inl body_too_large
          else case cp_text response of
                 Inl e \<Rightarrow> Inl (NetworkError (''Failed to read response: '' @ e))
               | Inr text \<Rightarrow>
                   if length text > MAX_RESPONSE_BODY_BYTES then Inl body_too_large
                   else status_result env (cp_status response) text)"

subsection \<open>One attempt\<close>

datatype fetch_outcome = TimedOut string | FetchFailed string | Answered credit_response

text \<open>
  What an attempt reads from outside: the clock in milliseconds, the fresh nonce, the failure of
  setting the headers or building a request if any, the outcome of the service binding if there
  is one, and the outcome over HTTP.
\<close>

record credit_attempt =
  ct_now_ms :: u64
  ct_nonce :: string
  ct_header_error :: "string option"
  ct_binding_request_error :: "string option"
  ct_http_request_error :: "string option"
  ct_binding :: "fetch_outcome option"
  ct_http :: fetch_outcome

record sent_request =
  sq_url :: string
  sq_headers :: "(string \<times> string) list"
  sq_body :: string

definition check_id :: "string \<Rightarrow> string \<Rightarrow> credit_error + unit" where
  "check_id value field =
     (case validate_path_component value field of
        Inl e \<Rightarrow> Inl (InvalidRequest (''Invalid '' @ field @ '': '' @ display e))
      | Inr _ \<Rightarrow> Inr ())"

definition check_ids :: "consume_request \<Rightarrow> credit_error + unit" where
  "check_ids q =
     then_check (check_id (cq_customer_id q) ''customer_id'')
       (then_check (check_id (cq_verification_id q) ''verification_id'')
         (case cq_issuer_kid q of Some kid \<Rightarrow> check_id kid ''issuer_kid'' | None \<Rightarrow> Inr ()))"

definition wire_body :: "consume_request \<Rightarrow> consume_body" where
  "wire_body q =
     \<lparr>cb_customer_id = cq_customer_id q, cb_verification_id = cq_verification_id q, cb_origin = cq_origin q,
      cb_issuer_kid = cq_issuer_kid q,
      cb_environment = (if cq_environment q = ''production'' then None else Some (cq_environment q))\<rparr>"

definition consume_path :: string where "consume_path = ''/v1/credits/consume''"

definition build_headers ::
    "credit_client \<Rightarrow> consume_request \<Rightarrow> string \<Rightarrow> string \<Rightarrow> string \<Rightarrow> (string \<times> string) list" where
  "build_headers client q timestamp hmac nonce =
     [(''Content-Type'', ''application/json''), (''X-Timestamp'', timestamp), (''X-HMAC'', hmac),
      (''X-API-Key-ID'', crc_key_id client), (''X-Nonce'', nonce), (''X-Entity-Type'', ''customer''),
      (''X-Entity-ID'', cq_customer_id q)] @
     (case cq_partner_id q of Some pid \<Rightarrow> [(''X-Partner-ID'', pid)] | None \<Rightarrow> [])"

text \<open>The result and the requests sent.\<close>

definition consume_credits_once ::
    "credit_env \<Rightarrow> credit_client \<Rightarrow> consume_request \<Rightarrow> credit_attempt \<Rightarrow>
     (credit_error + consume_response) \<times> sent_request list" where
  "consume_credits_once env client q a =
     (case check_ids q of
        Inl e \<Rightarrow> (Inl e, [])
      | Inr _ \<Rightarrow>
          (case cre_serialise env (wire_body q) of
             Inl e \<Rightarrow> (Inl (SerializationError e), [])
           | Inr body \<Rightarrow>
               let timestamp = show_u64 (secs_of_millis (ct_now_ms a));
                   hmac = generate_hmac env (crc_hmac_key client) timestamp ''POST'' consume_path body;
                   hs = build_headers client q timestamp hmac (ct_nonce a);
                   request = (\<lambda>url. \<lparr>sq_url = url, sq_headers = hs, sq_body = body\<rparr>);
                   internal = request (''https://credit-mgmt.internal'' @ consume_path);
                   external = request (crc_base_url client @ consume_path);
                   http = (\<lambda>sent.
                     case ct_http_request_error a of
                       Some e \<Rightarrow> (Inl (NetworkError (''Failed to create request: '' @ e)), sent)
                     | None \<Rightarrow>
                         (case ct_http a of
                            TimedOut e \<Rightarrow> (Inl (NetworkError (''Request timed out: '' @ e)), sent @ [external])
                          | FetchFailed e \<Rightarrow> (Inl (NetworkError (''Request failed: '' @ e)), sent @ [external])
                          | Answered r \<Rightarrow> (parse_consume_response env r, sent @ [external])))
               in (case ct_header_error a of
                     Some e \<Rightarrow> (Inl (NetworkError (''Failed to set header: '' @ e)), [])
                   | None \<Rightarrow>
                       (case ct_binding a of
                          Some outcome \<Rightarrow>
                            (case ct_binding_request_error a of
                               Some e \<Rightarrow> (Inl (NetworkError (''Failed to create service binding request: '' @ e)), [])
                             | None \<Rightarrow>
                                 (case outcome of
                                    Answered r \<Rightarrow> (parse_consume_response env r, [internal])
                                  | _ \<Rightarrow> http [internal]))
                        | None \<Rightarrow> http []))))"

subsection \<open>The retry loop\<close>

text \<open>
  The third component is the list of pauses, in milliseconds.  \<open>attempts\<close> is the supply of
  attempts, numbered from one.
\<close>

fun consume_loop ::
    "credit_env \<Rightarrow> credit_client \<Rightarrow> consume_request \<Rightarrow> (nat \<Rightarrow> credit_attempt) \<Rightarrow> nat list \<Rightarrow> u64 \<Rightarrow>
     (credit_error + consume_response) \<times> sent_request list \<times> u64 list" where
  "consume_loop env client q attempts [] backoff_ms = (Inl CreditUnavailable, [], [])"
| "consume_loop env client q attempts (attempt # rest) backoff_ms =
     (case consume_credits_once env client q (attempts attempt) of
        (Inr response, sent) \<Rightarrow> (Inr response, sent, [])
      | (Inl e, sent) \<Rightarrow>
          if e = CreditUnavailable \<and> attempt < CREDIT_MAX_RETRIES
          then let (r, sent', pauses) = consume_loop env client q attempts rest (sat_mul backoff_ms 2)
               in (r, sent @ sent', backoff_ms # pauses)
          else (Inl e, sent, []))"

definition consume_credits ::
    "credit_env \<Rightarrow> credit_client \<Rightarrow> consume_request \<Rightarrow> (nat \<Rightarrow> credit_attempt) \<Rightarrow>
     (credit_error + consume_response) \<times> sent_request list \<times> u64 list" where
  "consume_credits env client q attempts =
     consume_loop env client q attempts [1 ..< Suc CREDIT_MAX_RETRIES] INITIAL_BACKOFF_MS"

subsection \<open>Lemmas\<close>

text \<open>The answers that decide an attempt.\<close>

lemma parse_answer_ok: "parse_consume_response env a = Inr r \<Longrightarrow> cp_status a = 200"
  by (auto simp: parse_consume_response_def status_result_def Let_def body_too_large_def
      split: if_splits sum.splits option.splits)

lemma parse_answer_conflict: "parse_consume_response env a = Inl (CreditConflict m) \<Longrightarrow> cp_status a = 409"
  by (auto simp: parse_consume_response_def status_result_def Let_def body_too_large_def
      split: if_splits sum.splits option.splits)

lemma parse_answer_unavailable: "parse_consume_response env a = Inl CreditUnavailable \<Longrightarrow> cp_status a = 503"
  by (auto simp: parse_consume_response_def status_result_def Let_def body_too_large_def
      split: if_splits sum.splits option.splits)

definition decided_by :: "credit_attempt \<Rightarrow> credit_response \<Rightarrow> bool" where
  "decided_by a r \<longleftrightarrow> ct_binding a = Some (Answered r) \<or>
     ct_http a = Answered r \<and> (\<forall>b. ct_binding a \<noteq> Some (Answered b))"

text \<open>Either the service answered, or the error is one of the client's own.\<close>

lemma once_answer:
  "(\<exists>r. decided_by a r \<and> fst (consume_credits_once env client q a) = parse_consume_response env r) \<or>
   (\<exists>e. fst (consume_credits_once env client q a) = Inl e \<and> e \<noteq> CreditUnavailable \<and>
      (\<forall>m. e \<noteq> CreditConflict m))"
proof (cases "check_ids q")
  case (Inl e)
  then have "\<exists>m. e = InvalidRequest m"
    by (auto simp: check_ids_def then_check_def check_id_def split: sum.splits option.splits)
  with Inl show ?thesis by (auto simp: consume_credits_once_def)
next
  case (Inr u)
  then show ?thesis
    by (auto simp: consume_credits_once_def Let_def decided_by_def
        split: sum.splits option.splits fetch_outcome.splits)
qed

text \<open>Every request sent is signed over its time and body, and goes to one of two addresses.\<close>

definition header_of :: "string \<Rightarrow> sent_request \<Rightarrow> string option" where
  "header_of k s = map_of (sq_headers s) k"

definition well_sent :: "credit_env \<Rightarrow> credit_client \<Rightarrow> consume_request \<Rightarrow> sent_request \<Rightarrow> bool" where
  "well_sent env client q s \<longleftrightarrow>
     sq_url s \<in> {''https://credit-mgmt.internal/v1/credits/consume'', crc_base_url client @ ''/v1/credits/consume''} \<and>
     cre_serialise env (wire_body q) = Inr (sq_body s) \<and>
     (\<exists>ts. header_of ''X-Timestamp'' s = Some ts \<and>
        header_of ''X-HMAC'' s =
          Some (generate_hmac env (crc_hmac_key client) ts ''POST'' ''/v1/credits/consume'' (sq_body s))) \<and>
     header_of ''X-Entity-ID'' s = Some (cq_customer_id q)"

lemma once_sent:
  assumes "consume_credits_once env client q a = (x, sent)"
  shows "length sent \<le> 2 \<and> list_all (well_sent env client q) sent \<and> (sent \<noteq> [] \<longrightarrow> check_ids q = Inr ())"
proof (cases "check_ids q")
  case (Inl e)
  with assms show ?thesis by (auto simp: consume_credits_once_def)
next
  case (Inr u)
  with assms show ?thesis
    by (auto simp: consume_credits_once_def Let_def well_sent_def header_of_def build_headers_def consume_path_def
        split: sum.splits option.splits fetch_outcome.splits)
qed

subsection \<open>Properties\<close>

lemma consume_loop_step:
  "consume_loop env client q attempts (n # ns) b =
     (let (x, sent) = consume_credits_once env client q (attempts n) in
      if x = Inl CreditUnavailable \<and> n < CREDIT_MAX_RETRIES
      then (let (r, sent', pauses) = consume_loop env client q attempts ns (sat_mul b 2)
            in (r, sent @ sent', b # pauses))
      else (x, sent, []))"
  by (auto simp: Let_def split: prod.splits sum.splits)

declare consume_loop.simps(2) [simp del]

text \<open>A request whose identifiers are not path components is refused before anything is sent.\<close>

lemma consume_credits_refused:
  assumes "check_ids q = Inl e"
  shows "consume_credits env client q attempts = (Inl e, [], [])"
proof -
  have "e \<noteq> CreditUnavailable"
    using assms by (auto simp: check_ids_def then_check_def check_id_def split: sum.splits option.splits)
  then show ?thesis
    using assms by (simp add: consume_credits_def CREDIT_MAX_RETRIES_def upt_rec consume_loop_step consume_credits_once_def)
qed

lemma consume_credits_run:
  assumes "consume_credits env client q attempts = (r, sent, pauses)"
  shows "\<exists>n \<in> {1 .. 3}. r = fst (consume_credits_once env client q (attempts n)) \<and>
    (\<forall>i \<in> {1 ..< n}. \<exists>a. decided_by (attempts i) a \<and> cp_status a = 503) \<and>
    pauses = take (n - 1) [100, 200] \<and> length sent \<le> 2 * n \<and> list_all (well_sent env client q) sent"
proof -
  let ?once = "\<lambda>i. consume_credits_once env client q (attempts i)"
  have run: "consume_loop env client q attempts [1, 2, 3] 100 = (r, sent, pauses)"
    using assms by (simp add: consume_credits_def CREDIT_MAX_RETRIES_def INITIAL_BACKOFF_MS_def upt_rec
        numeral_2_eq_2 numeral_3_eq_3 del: consume_loop.simps)
  have twice: "sat_mul (100 :: u64) 2 = 200" by (simp add: sat_mul_def)
  have s: "length (snd (?once i)) \<le> 2" "list_all (well_sent env client q) (snd (?once i))" for i
    using once_sent[of env client q "attempts i"] by (metis prod.collapse)+
  have retry: "\<exists>a. decided_by (attempts i) a \<and> cp_status a = 503" if "fst (?once i) = Inl CreditUnavailable" for i
    using once_answer[of "attempts i" env client q] that parse_answer_unavailable by (metis Inl_inject)
  show ?thesis
  proof (cases "fst (?once 1) = Inl CreditUnavailable")
    case False
    with run s[of 1] show ?thesis
      by (intro bexI[of _ 1]) (auto simp: consume_loop_step Let_def split_beta split: if_splits)
  next
    case 1: True
    show ?thesis
    proof (cases "fst (?once 2) = Inl CreditUnavailable")
      case False
      have "\<forall>i \<in> {1 ..< 2}. \<exists>a. decided_by (attempts i) a \<and> cp_status a = 503"
        using retry[OF 1] by (simp add: atLeastLessThan_nat_numeral numeral_2_eq_2)
      with False 1 run s[of 1] s[of 2] show ?thesis
        by (intro bexI[of _ 2])
           (auto simp: consume_loop_step Let_def split_beta CREDIT_MAX_RETRIES_def twice split: if_splits)
    next
      case True
      have "\<forall>i \<in> {1 ..< 3}. \<exists>a. decided_by (attempts i) a \<and> cp_status a = 503"
        using retry[OF 1] retry[OF True] by (auto simp: atLeastLessThan_nat_numeral numeral_3_eq_3 numeral_2_eq_2 less_Suc_eq)
      with True 1 run s[of 1] s[of 2] s[of 3] show ?thesis
        by (intro bexI[of _ 3])
           (auto simp: consume_loop_step Let_def split_beta CREDIT_MAX_RETRIES_def twice split: if_splits)
    qed
  qed
qed

text \<open>A granted or already recorded consumption was answered by the service.\<close>

lemma consume_credits_granted:
  assumes "fst (consume_credits env client q attempts) = Inr x \<or>
    fst (consume_credits env client q attempts) = Inl (CreditConflict m)"
  shows "\<exists>n \<in> {1 .. 3}. \<exists>a. decided_by (attempts n) a \<and> cp_status a \<in> {200, 409}"
proof -
  obtain r sent pauses where e: "consume_credits env client q attempts = (r, sent, pauses)"
    by (metis prod_cases3)
  from consume_credits_run[OF e] obtain n where n: "n \<in> {1 .. 3}"
    "r = fst (consume_credits_once env client q (attempts n))" by blast
  then show ?thesis
    using assms e once_answer[of "attempts n" env client q] parse_answer_ok parse_answer_conflict
    by (metis Inl_inject Inr_not_Inl fst_conv insertCI)
qed

text \<open>C35 A consumption makes at most three attempts, the next one only after a 503 answer and after
  100 and then 200 ms; its result is that of its last attempt and it sends at most two requests
  per attempt, each signed over its timestamp and body for the customer billed.\<close>

theorem credit_attempts_bounded:
  assumes "consume_credits env client q attempts = (r, sent, pauses)"
  shows "\<exists>n \<in> {1 .. 3}. r = fst (consume_credits_once env client q (attempts n)) \<and>
    (\<forall>i \<in> {1 ..< n}. \<exists>a. decided_by (attempts i) a \<and> cp_status a = 503) \<and>
    pauses = take (n - 1) [100, 200] \<and> length sent \<le> 2 * n \<and> list_all (well_sent env client q) sent"
  by (rule consume_credits_run[OF assms])

definition sample_credit_env :: credit_env where
  "sample_credit_env = \<lparr>cre_hmac = (\<lambda>k m. rev m), cre_serialise = (\<lambda>b. Inr (cb_verification_id b)),
     cre_parse_ok = (\<lambda>t. Inr \<lparr>balance_after_units = None, royalty_units_credited = None\<rparr>), cre_parse_error = (\<lambda>t. None)\<rparr>"

definition sample_client :: credit_client where
  "sample_client = \<lparr>crc_base_url = ''https://credits.example'', crc_hmac_key = [1, 2], crc_key_id = ''k1''\<rparr>"

definition sample_consume :: consume_request where
  "sample_consume = \<lparr>cq_customer_id = ''org1'', cq_verification_id = ''v1'', cq_origin = ''https://rp.example'',
     cq_issuer_kid = None, cq_environment = ''production'', cq_partner_id = None\<rparr>"

text \<open>A first attempt answered 503 over the binding, the next answered 200 over HTTP.\<close>

definition sample_attempts :: "nat \<Rightarrow> credit_attempt" where
  "sample_attempts n = \<lparr>ct_now_ms = 1000, ct_nonce = ''n'', ct_header_error = None, ct_binding_request_error = None,
     ct_http_request_error = None,
     ct_binding = (if n = 1 then Some (Answered \<lparr>cp_status = 503, cp_content_type = None, cp_content_length = None,
       cp_text = Inr ''busy''\<rparr>) else Some (TimedOut ''2000'')),
     ct_http = Answered \<lparr>cp_status = 200, cp_content_type = Some ''application/json'', cp_content_length = None,
       cp_text = Inr ''{}''\<rparr>\<rparr>"

lemma sample_consume_ids: "check_ids sample_consume = Inr ()"
  by (simp add: check_ids_def check_id_def then_check_def sample_consume_def validate_path_component_def is_control_def)

lemma credit_attempts_bounded_witness:
  "\<exists>r sent. consume_credits sample_credit_env sample_client sample_consume sample_attempts =
      (Inr r, sent, [100]) \<and> length sent \<le> 4"
proof -
  have 1: "fst (consume_credits_once sample_credit_env sample_client sample_consume (sample_attempts 1)) = Inl CreditUnavailable"
    by (simp add: consume_credits_once_def sample_consume_ids sample_credit_env_def sample_attempts_def
        parse_consume_response_def status_result_def Let_def MAX_RESPONSE_BODY_BYTES_def)
  have 2: "\<exists>x. fst (consume_credits_once sample_credit_env sample_client sample_consume (sample_attempts 2)) = Inr x"
    by (simp add: consume_credits_once_def sample_consume_ids sample_credit_env_def sample_attempts_def
        parse_consume_response_def status_result_def validate_content_type_def EXPECTED_CONTENT_TYPE_def
        Let_def MAX_RESPONSE_BODY_BYTES_def)
  have "\<exists>r sent. consume_credits sample_credit_env sample_client sample_consume sample_attempts = (Inr r, sent, [100])"
    using 1 2 by (auto simp: consume_credits_def CREDIT_MAX_RETRIES_def INITIAL_BACKOFF_MS_def upt_rec
        consume_loop_step Let_def split_beta numeral_2_eq_2)
  then obtain r sent where e: "consume_credits sample_credit_env sample_client sample_consume sample_attempts =
      (Inr r, sent, [100])" by blast
  from credit_attempts_bounded[OF e] obtain n where "n \<in> {1 .. 3 :: nat}" "[100] = take (n - 1) [100, 200 :: u64]"
    "length sent \<le> 2 * n" by blast
  moreover from this have "n \<le> 2" by (cases "n = 3") auto
  ultimately show ?thesis using e by auto
qed

end
