(* ===== verification/Redeem.thy ===== *)
theory Redeem imports Store_Calls Nonce_Store Idempotency Client_Auth Fetch_Metadata Credit_Client begin

text \<open>
  \<open>src/routes/redeem.rs\<close>: the redemption of a challenge by its relying party, composed of the
  API key authentication, the idempotency cache, the challenge store, the PKCE check, the account
  quota, the nonce store and the credit client.  SHA-256, the ORIGIN_INDEX KV and its JSON are
  arguments; the calls of the audit logger are recorded in order, and the analytics counters,
  the timings and the log lines are left out.
\<close>

named_theorems step_inv \<open>what a step does, as equivalences\<close>

datatype audit_call =
    LogAuthenticationFailure string string
  | LogSuspiciousActivity string string
  | LogVerificationAttempt string string bool "string option"
  | LogReplayAttempt string string
  | LogStateWriteFailedAfterBilling string string
  | LogVerificationNoRoyalty string string bytes u64
  | LogBillingEvent string string "string option" bytes int u64

record redeem_env =
  re_environment :: string
  re_auth :: auth_env
  re_idem :: idem_env
  re_idem_store :: bool
  re_challenges :: challenge_store_env
  re_tiers :: tier_env
  re_quota_var :: "string option"
  re_rate_bound :: bool
  re_nonces :: nonce_store_env
  re_sha256 :: "bytes \<Rightarrow> bytes"
  re_origin_index :: "string \<Rightarrow> string option"
  re_metering :: "string \<Rightarrow> bool option option"
  re_credit :: credit_env
  re_credit_client :: "credit_client option"
  re_environment_var :: "string option"
  re_worker_context :: bool

record redeem_headers =
  rh_client_ip :: "string option"
  rh_idempotency_key :: header_read
  rh_fetch :: fetch_headers
  rh_origin :: "string option"
  rh_api_key :: "string option"

text \<open>What is read from the clocks, and the attempts of the credit client.\<close>

record redeem_clock =
  rt_prefetch :: "nat \<Rightarrow> u64"
  rt_idem_check :: u64
  rt_get :: "nat \<Rightarrow> u64"
  rt_now :: u64
  rt_quota :: u64
  rt_nonce :: u64
  rt_put :: "nat \<Rightarrow> u64"
  rt_put_insert :: "nat \<Rightarrow> u64"
  rt_credit :: "nat \<Rightarrow> credit_attempt"
  rt_credit_late :: "nat \<Rightarrow> credit_attempt"
  rt_idem_store :: u64

record redeem_world =
  rd_auth :: auth_world
  rd_idem :: idem_world
  rd_challenges :: challenge_world
  rd_rate :: rate_world
  rd_nonces :: nonce_world
  rd_audit :: "audit_call list"
  rd_sent :: "sent_request list"

record redeem_response =
  rs_result :: string
  rs_verified :: bool

text \<open>
  How the handler ends: with a response of its own, with an error's response, with an error that
  travels through the runtime, with the rate limiter's response, or with a cached response.
\<close>

datatype redeem_outcome =
    RedeemOk redeem_response
  | RedeemError api_error
  | RedeemPropagated api_error
  | RedeemLimited rate_rejection
  | RedeemReplayed replayed_response

type_synonym 'a redeem_step = "(redeem_world, redeem_outcome, 'a) step"

subsection \<open>Lifting the parts' operations\<close>

definition on_auth :: "(auth_world \<Rightarrow> 'a \<times> auth_world) \<Rightarrow> 'a redeem_step" where
  "on_auth f w = (let (x, a) = f (rd_auth w) in (Inr x, w\<lparr>rd_auth := a\<rparr>))"

definition on_idem :: "(idem_world \<Rightarrow> 'a \<times> idem_world) \<Rightarrow> 'a redeem_step" where
  "on_idem f w = (let (x, a) = f (rd_idem w) in (Inr x, w\<lparr>rd_idem := a\<rparr>))"

definition on_challenges :: "(challenge_world \<Rightarrow> 'a \<times> challenge_world) \<Rightarrow> 'a redeem_step" where
  "on_challenges f w = (let (x, a) = f (rd_challenges w) in (Inr x, w\<lparr>rd_challenges := a\<rparr>))"

definition on_rate :: "(rate_world \<Rightarrow> 'a \<times> rate_world) \<Rightarrow> 'a redeem_step" where
  "on_rate f w = (let (x, a) = f (rd_rate w) in (Inr x, w\<lparr>rd_rate := a\<rparr>))"

definition on_nonces :: "(nonce_world \<Rightarrow> 'a \<times> nonce_world) \<Rightarrow> 'a redeem_step" where
  "on_nonces f w = (let (x, a) = f (rd_nonces w) in (Inr x, w\<lparr>rd_nonces := a\<rparr>))"

definition audit :: "audit_call list \<Rightarrow> unit redeem_step" where
  "audit calls w = (Inr (), w\<lparr>rd_audit := rd_audit w @ calls\<rparr>)"

definition send_all :: "sent_request list \<Rightarrow> unit redeem_step" where
  "send_all sent w = (Inr (), w\<lparr>rd_sent := rd_sent w @ sent\<rparr>)"

text \<open>An error response, after the given calls of the audit logger.\<close>

definition refuse :: "audit_call list \<Rightarrow> api_error \<Rightarrow> 'a redeem_step" where
  "refuse calls e = andthen (audit calls) (\<lambda>_. stop (RedeemError e))"

subsection \<open>The phases\<close>

definition client_ip_of :: "redeem_headers \<Rightarrow> string" where
  "client_ip_of h = (case rh_client_ip h of Some ip \<Rightarrow> ip | None \<Rightarrow> ''unknown'')"

definition redeem_headers_phase :: "redeem_headers \<Rightarrow> string option redeem_step" where
  "redeem_headers_phase h =
     (case extract_idempotency_key (rh_idempotency_key h) ''POST'' ''/v1/redeem'' of
        Inl e \<Rightarrow> stop (RedeemPropagated e)
      | Inr key \<Rightarrow>
          (case validate_fetch_metadata (rh_fetch h) of
             Inl e \<Rightarrow> stop (RedeemError e)
           | Inr _ \<Rightarrow> ret key))"

text \<open>In the sandbox the challenge is read early, for the client that owns it.\<close>

definition prefetch_phase ::
    "redeem_env \<Rightarrow> redeem_clock \<Rightarrow> uuid \<Rightarrow> cached_challenge option redeem_step" where
  "prefetch_phase env t sid =
     (if re_environment env = ''sandbox''
      then andthen (on_challenges (store_get (re_challenges env) (rt_prefetch t) sid)) (\<lambda>r.
             ret (case r of Inr (Some c) \<Rightarrow> Some c | _ \<Rightarrow> None))
      else ret None)"

definition redeem_auth_options :: "cached_challenge option \<Rightarrow> auth_options" where
  "redeem_auth_options prefetched =
     \<lparr>ao_expected_owner_id = (case prefetched of Some c \<Rightarrow> cc_client_id c | None \<Rightarrow> None),
      ao_allow_mobile_flow = False, ao_stored_client_id = None\<rparr>"

definition redeem_auth_phase ::
    "redeem_env \<Rightarrow> redeem_headers \<Rightarrow> cached_challenge option \<Rightarrow> string redeem_step" where
  "redeem_auth_phase env h prefetched =
     andthen (on_auth (authenticate_api_key (re_auth env) (rh_origin h) (rh_api_key h)
       (redeem_auth_options prefetched))) (\<lambda>auth.
     case ar_client_id auth of
       Some client_id \<Rightarrow> ret client_id
     | None \<Rightarrow>
         refuse [LogAuthenticationFailure (client_ip_of h) ''redeem_auth_failed'']
           (unauthorized ''REDEEM_AUTH_FAILED''
              (''Origin + X-API-Key did not match the client that created this challenge. In sandbox the X-API-Key must match the credential returned from /v1/register-test-origin for this challenge'' @ [CHR 0x27] @ ''s owner.'')))"

definition redeem_replay_phase ::
    "redeem_env \<Rightarrow> redeem_clock \<Rightarrow> string option \<Rightarrow> string \<Rightarrow> unit redeem_step" where
  "redeem_replay_phase env t key client_id =
     (case key of
        Some k \<Rightarrow>
          (if re_idem_store env then
             andthen (on_idem (check_idempotency (re_idem env) (rt_idem_check t) k ''redeem''
               (compute_request_fingerprint (re_idem env) ''redeem'' client_id))) (\<lambda>r.
             case r of
               Inl e \<Rightarrow> stop (RedeemPropagated e)
             | Inr (Some cached_response) \<Rightarrow> stop (RedeemReplayed cached_response)
             | Inr None \<Rightarrow> ret ())
           else ret ())
      | None \<Rightarrow> ret ())"

definition redeem_load_phase ::
    "redeem_env \<Rightarrow> redeem_clock \<Rightarrow> redeem_headers \<Rightarrow> uuid \<Rightarrow> cached_challenge option \<Rightarrow>
     cached_challenge redeem_step" where
  "redeem_load_phase env t h sid prefetched =
     (case prefetched of
        Some pre \<Rightarrow> ret pre
      | None \<Rightarrow>
          andthen (on_challenges (store_get (re_challenges env) (rt_get t) sid)) (\<lambda>r.
          case r of
            Inr (Some c) \<Rightarrow> ret c
          | Inr None \<Rightarrow> stop (RedeemError NotFound)
          | Inl e \<Rightarrow>
              refuse [LogSuspiciousActivity (client_ip_of h) ''downstream_failure:challenge_store_read'']
                (Internal (display e))))"

text \<open>\<open>Vec::zeroize\<close> overwrites the bytes and clears the vector.\<close>

definition zeroize_secret :: "cached_challenge \<Rightarrow> cached_challenge" where
  "zeroize_secret c = c\<lparr>cc_submit_secret := []\<rparr>"

definition redeem_owner_phase ::
    "redeem_headers \<Rightarrow> cached_challenge \<Rightarrow> string \<Rightarrow> unit redeem_step" where
  "redeem_owner_phase h cached client_id =
     (case verify_ownership (cc_client_id cached) (Some client_id) (client_ip_of h)
             ''redeem_bola_ownership_mismatch'' of
        (Inl e, evs) \<Rightarrow> refuse (map (\<lambda>(ip, ev). LogSuspiciousActivity ip ev) evs) e
      | (Inr _, _) \<Rightarrow> ret ())"

definition challenge_expired_error :: api_error where
  "challenge_expired_error = gone ''CHALLENGE_EXPIRED''
     ''Challenge has passed its expiry timestamp; create a new one via POST /v1/challenge''"

text \<open>The error of a challenge that does not wait for redemption.\<close>

fun redeem_state_error :: "challenge_state \<Rightarrow> api_error" where
  "redeem_state_error Pending = conflict ''PROOF_NOT_SUBMITTED''
     ''The wallet has not yet submitted a proof for this challenge; redeem is only valid after proof_ok''"
| "redeem_state_error Verified = conflict ''CHALLENGE_ALREADY_REDEEMED''
     ''This challenge has already been redeemed''"
| "redeem_state_error Failed = conflict ''CHALLENGE_VERIFICATION_FAILED''
     ''Wallet proof verification failed; this challenge cannot be redeemed''"
| "redeem_state_error Expired = challenge_expired_error"
| "redeem_state_error _ = conflict ''CHALLENGE_NOT_READY'' ''Challenge is not in a redeemable state''"

definition redeem_state_phase ::
    "redeem_clock \<Rightarrow> redeem_headers \<Rightarrow> string \<Rightarrow> cached_challenge \<Rightarrow> unit redeem_step" where
  "redeem_state_phase t h sid_text cached =
     (if rt_now t > cc_expires_at cached then
        refuse [LogVerificationAttempt sid_text (client_ip_of h) False (Some ''challenge_expired'')]
          challenge_expired_error
      else if cc_state cached \<noteq> ProofOkWaitingForRedeem then
        refuse [LogVerificationAttempt sid_text (client_ip_of h) False (Some ''invalid_challenge_state'')]
          (redeem_state_error (cc_state cached))
      else ret ())"

definition redeem_pkce_phase ::
    "redeem_env \<Rightarrow> redeem_headers \<Rightarrow> string \<Rightarrow> cached_challenge \<Rightarrow> string \<Rightarrow> unit redeem_step" where
  "redeem_pkce_phase env h sid_text cached code_verifier =
     (if re_sha256 env (string_bytes code_verifier) \<noteq> cc_code_challenge_bytes cached then
        refuse [LogVerificationAttempt sid_text (client_ip_of h) False (Some ''pkce_validation_failed'')]
          (bad_request ''INVALID_PKCE_VERIFIER'' (Some ''code_verifier'')
             ''code_verifier does not match the code_challenge supplied at challenge creation'')
      else ret ())"

definition redeem_quota_phase :: "redeem_env \<Rightarrow> redeem_clock \<Rightarrow> string \<Rightarrow> unit redeem_step" where
  "redeem_quota_phase env t client_id =
     andthen (on_rate (enforce_account_quota (re_tiers env) (re_quota_var env) (re_rate_bound env)
       client_id ''redeem'' (rt_quota t))) (\<lambda>r.
     case r of Inl resp \<Rightarrow> stop (RedeemLimited resp) | Inr _ \<Rightarrow> ret ())"

definition NONCE_DEDUP_TTL :: u64 where "NONCE_DEDUP_TTL = 300"

definition redeem_nonce_phase ::
    "redeem_env \<Rightarrow> redeem_clock \<Rightarrow> redeem_headers \<Rightarrow> string \<Rightarrow> unit redeem_step" where
  "redeem_nonce_phase env t h sid_text =
     andthen (on_nonces (check_and_set (re_nonces env) (''redeem:'' @ sid_text) (rt_nonce t) NONCE_DEDUP_TTL)) (\<lambda>r.
     case r of
       Inr True \<Rightarrow> ret ()
     | Inr False \<Rightarrow>
         refuse [LogReplayAttempt sid_text (client_ip_of h)]
           (conflict ''REDEEM_REPLAY''
              ''This challenge has already been redeemed by a recent request (nonce dedup window)'')
     | Inl e \<Rightarrow> stop (RedeemError (Internal (display e))))"

subsection \<open>Billing\<close>

definition origin_is_metered :: "redeem_env \<Rightarrow> string \<Rightarrow> bool" where
  "origin_is_metered env origin =
     (case re_origin_index env origin of
        Some json_str \<Rightarrow>
          (case re_metering env json_str of Some metering_enabled \<Rightarrow> metering_enabled = Some True | None \<Rightarrow> False)
      | None \<Rightarrow> False)"

definition credit_request :: "redeem_env \<Rightarrow> string \<Rightarrow> cached_challenge \<Rightarrow> consume_request" where
  "credit_request env sid_text cached =
     \<lparr>cq_customer_id = (case cc_tenant_id cached of Some t \<Rightarrow> t | None \<Rightarrow> cc_origin cached),
      cq_verification_id = sid_text, cq_origin = cc_origin cached, cq_issuer_kid = cc_issuer_kid cached,
      cq_environment = (case re_environment_var env of Some v \<Rightarrow> v | None \<Rightarrow> ''production''),
      cq_partner_id = None\<rparr>"

definition billing_unavailable :: api_error where
  "billing_unavailable = ServiceUnavailable (Some ''Billing temporarily unavailable'')"

definition metered_phase ::
    "redeem_env \<Rightarrow> redeem_clock \<Rightarrow> redeem_headers \<Rightarrow> string \<Rightarrow> cached_challenge \<Rightarrow> unit redeem_step" where
  "metered_phase env t h sid_text cached =
     (if origin_is_metered env (cc_origin cached) then
        (case re_credit_client env of
           Some client \<Rightarrow>
             (let (r, sent, _) = consume_credits (re_credit env) client (credit_request env sid_text cached) (rt_credit t)
              in andthen (send_all sent) (\<lambda>_.
                 case r of
                   Inr _ \<Rightarrow> ret ()
                 | Inl (CreditConflict _) \<Rightarrow> ret ()
                 | Inl (InsufficientCredits _ _) \<Rightarrow>
                     refuse [LogSuspiciousActivity (client_ip_of h) ''billing:redeem_denied_insufficient'']
                       (PaymentRequired None)
                 | Inl _ \<Rightarrow>
                     refuse [LogSuspiciousActivity (client_ip_of h) ''billing:redeem_denied_credit_unavailable'']
                       billing_unavailable))
         | None \<Rightarrow> stop (RedeemError (ServiceUnavailable (Some ''Billing not configured''))))
      else ret ())"

definition redeemed_challenge :: "u64 \<Rightarrow> cached_challenge \<Rightarrow> cached_challenge" where
  "redeemed_challenge now c = c\<lparr>cc_state := Verified, cc_verified_at := Some now\<rparr>"

definition redeem_put_phase ::
    "redeem_env \<Rightarrow> redeem_clock \<Rightarrow> redeem_headers \<Rightarrow> uuid \<Rightarrow> string \<Rightarrow> cached_challenge \<Rightarrow> unit redeem_step" where
  "redeem_put_phase env t h sid sid_text cached =
     andthen (on_challenges (store_put (re_challenges env) (rt_put t) (rt_put_insert t) sid
       (redeemed_challenge (rt_now t) cached))) (\<lambda>r.
     case r of
       Inr _ \<Rightarrow> ret ()
     | Inl _ \<Rightarrow>
         refuse [LogStateWriteFailedAfterBilling sid_text (client_ip_of h)] (Internal ''State transition failed''))"

text \<open>
  The deduction of an unmetered origin: in the background, or inline without a Worker context;
  its failures are only logged.
\<close>

definition unmetered_phase ::
    "redeem_env \<Rightarrow> redeem_clock \<Rightarrow> redeem_headers \<Rightarrow> string \<Rightarrow> cached_challenge \<Rightarrow> unit redeem_step" where
  "unmetered_phase env t h sid_text cached =
     (if origin_is_metered env (cc_origin cached) then ret ()
      else case re_credit_client env of
             None \<Rightarrow> ret ()
           | Some client \<Rightarrow>
               (let (r, sent, _) = consume_credits (re_credit env) client (credit_request env sid_text cached) (rt_credit_late t)
                in andthen (send_all sent) (\<lambda>_.
                   case r of
                     Inr _ \<Rightarrow> ret ()
                   | Inl (CreditConflict _) \<Rightarrow> ret ()
                   | Inl e \<Rightarrow>
                       audit [LogSuspiciousActivity (client_ip_of h)
                         (if re_worker_context env
                          then (case e of InsufficientCredits _ _ \<Rightarrow> ''billing:background_deduction_insufficient''
                                        | _ \<Rightarrow> ''billing:background_deduction_failed'')
                          else ''billing:inline_deduction_failed'')])))"

definition issuer_vk_or_zero :: "cached_challenge \<Rightarrow> bytes" where
  "issuer_vk_or_zero c = (case cc_issuer_vk_bytes c of Some b \<Rightarrow> b | None \<Rightarrow> replicate 32 0)"

definition redeem_audit_phase ::
    "redeem_clock \<Rightarrow> redeem_headers \<Rightarrow> string \<Rightarrow> cached_challenge \<Rightarrow> unit redeem_step" where
  "redeem_audit_phase t h sid_text cached =
     audit ((case cc_issuer_kid cached of
               Some _ \<Rightarrow> []
             | None \<Rightarrow> [LogVerificationNoRoyalty sid_text (cc_origin cached) (replicate 32 0) (rt_now t)]) @
            [LogBillingEvent sid_text (cc_origin cached) (cc_issuer_kid cached) (issuer_vk_or_zero cached)
               (cc_cutoff_days cached) (rt_now t),
             LogVerificationAttempt sid_text (client_ip_of h) True None])"

definition redeem_ok :: redeem_response where
  "redeem_ok = \<lparr>rs_result = ''OK'', rs_verified = True\<rparr>"

text \<open>The serde_json text of the response.\<close>

definition redeem_ok_json :: string where
  "redeem_ok_json = [CHR 0x7B, CHR 0x22] @ ''result'' @ [CHR 0x22, CHR '':'', CHR 0x22] @ ''OK'' @
     [CHR 0x22, CHR '','', CHR 0x22] @ ''verified'' @ [CHR 0x22, CHR '':''] @ ''true'' @ [CHR 0x7D]"

definition redeem_cache_phase ::
    "redeem_env \<Rightarrow> redeem_clock \<Rightarrow> string option \<Rightarrow> string \<Rightarrow> unit redeem_step" where
  "redeem_cache_phase env t key client_id =
     (case key of
        Some k \<Rightarrow>
          (if re_idem_store env then
             andthen (on_idem (store_idempotency_response (re_idem env) (rt_idem_store t) k redeem_ok_json 200
               ''redeem'' None (compute_request_fingerprint (re_idem env) ''redeem'' client_id))) (\<lambda>_. ret ())
           else ret ())
      | None \<Rightarrow> ret ())"

subsection \<open>The handler\<close>

text \<open>The gates before the nonce is consumed.\<close>

definition redeem_gates ::
    "redeem_env \<Rightarrow> redeem_clock \<Rightarrow> redeem_headers \<Rightarrow> uuid \<Rightarrow> string \<Rightarrow>
     (string option \<times> string \<times> cached_challenge) redeem_step" where
  "redeem_gates env t h sid code_verifier =
     andthen (redeem_headers_phase h) (\<lambda>key.
     andthen (prefetch_phase env t sid) (\<lambda>prefetched.
     andthen (redeem_auth_phase env h prefetched) (\<lambda>client_id.
     andthen (redeem_replay_phase env t key client_id) (\<lambda>_.
     andthen (redeem_load_phase env t h sid prefetched) (\<lambda>loaded.
       let cached = zeroize_secret loaded; sid_text = cse_uuid_text (re_challenges env) sid in
     andthen (redeem_owner_phase h cached client_id) (\<lambda>_.
     andthen (redeem_state_phase t h sid_text cached) (\<lambda>_.
     andthen (redeem_pkce_phase env h sid_text cached code_verifier) (\<lambda>_.
     andthen (redeem_quota_phase env t client_id) (\<lambda>_.
     ret (key, client_id, cached))))))))))"

definition redeem_grant ::
    "redeem_env \<Rightarrow> redeem_clock \<Rightarrow> redeem_headers \<Rightarrow> uuid \<Rightarrow> string option \<Rightarrow> string \<Rightarrow> cached_challenge \<Rightarrow>
     redeem_outcome redeem_step" where
  "redeem_grant env t h sid key client_id cached =
     (let sid_text = cse_uuid_text (re_challenges env) sid in
      andthen (metered_phase env t h sid_text cached) (\<lambda>_.
      andthen (redeem_put_phase env t h sid sid_text cached) (\<lambda>_.
      andthen (unmetered_phase env t h sid_text cached) (\<lambda>_.
      andthen (redeem_audit_phase t h sid_text cached) (\<lambda>_.
      andthen (redeem_cache_phase env t key client_id) (\<lambda>_.
      ret (RedeemOk redeem_ok)))))))"

definition redeem_challenge ::
    "redeem_env \<Rightarrow> redeem_clock \<Rightarrow> redeem_headers \<Rightarrow> uuid \<Rightarrow> string \<Rightarrow> redeem_world \<Rightarrow>
     redeem_outcome \<times> redeem_world" where
  "redeem_challenge env t h sid code_verifier =
     finish (andthen (redeem_gates env t h sid code_verifier) (\<lambda>(key, client_id, cached).
             andthen (redeem_nonce_phase env t h (cse_uuid_text (re_challenges env) sid)) (\<lambda>_.
             redeem_grant env t h sid key client_id cached)))"

subsection \<open>Inverting the steps\<close>

lemma step_run [step_inv]:
  "andthen (on_auth f) k w = (case f (rd_auth w) of (y, a) \<Rightarrow> k y (w\<lparr>rd_auth := a\<rparr>))"
  "andthen (on_idem f') k' w = (case f' (rd_idem w) of (y, a) \<Rightarrow> k' y (w\<lparr>rd_idem := a\<rparr>))"
  "andthen (on_challenges g) l w = (case g (rd_challenges w) of (y, a) \<Rightarrow> l y (w\<lparr>rd_challenges := a\<rparr>))"
  "andthen (on_rate g') l' w = (case g' (rd_rate w) of (y, a) \<Rightarrow> l' y (w\<lparr>rd_rate := a\<rparr>))"
  "andthen (on_nonces h) m w = (case h (rd_nonces w) of (y, a) \<Rightarrow> m y (w\<lparr>rd_nonces := a\<rparr>))"
  "andthen (audit c) n w = n () (w\<lparr>rd_audit := rd_audit w @ c\<rparr>)"
  "andthen (send_all s) p w = p () (w\<lparr>rd_sent := rd_sent w @ s\<rparr>)"
  "ret x w = (Inr x, w)" "stop out w = (Inl out, w)"
  by (simp_all add: andthen_def on_auth_def on_idem_def on_challenges_def on_rate_def on_nonces_def audit_def send_all_def
      split_beta ret_def stop_def)

lemma refuse_run [step_inv]:
  "refuse calls e w = (Inl (RedeemError e), w\<lparr>rd_audit := rd_audit w @ calls\<rparr>)"
  by (simp add: refuse_def step_inv)

text \<open>What each gate has established when it lets a request through.\<close>

lemma headers_ok: "redeem_headers_phase h w = (Inr key, w') \<Longrightarrow> validate_fetch_metadata (rh_fetch h) = Inr () \<and> w' = w"
  by (auto simp: redeem_headers_phase_def split: sum.splits)

lemma prefetch_ok:
  "prefetch_phase env t sid w = (Inr p, w') \<Longrightarrow>
     (p = None \<and> w' = w \<or> (\<exists>a r. store_get (re_challenges env) (rt_prefetch t) sid (rd_challenges w) = (r, a) \<and>
        w' = w\<lparr>rd_challenges := a\<rparr> \<and> (\<forall>c. p = Some c \<longrightarrow> r = Inr (Some c))))"
  by (auto simp: prefetch_phase_def step_inv split: if_splits prod.splits sum.splits option.splits)

lemma auth_ok:
  "redeem_auth_phase env h p w = (Inr client, w') \<Longrightarrow>
     \<exists>r a. authenticate_api_key (re_auth env) (rh_origin h) (rh_api_key h) (redeem_auth_options p) (rd_auth w) = (r, a) \<and>
       ar_client_id r = Some client \<and> w' = w\<lparr>rd_auth := a\<rparr>"
  by (auto simp: redeem_auth_phase_def step_inv split: prod.splits option.splits)

lemma replay_ok: "redeem_replay_phase env t key client w = (Inr u, w') \<Longrightarrow> \<exists>a. w' = w\<lparr>rd_idem := a\<rparr>"
  by (auto simp: redeem_replay_phase_def step_inv split: prod.splits option.splits if_splits sum.splits)
     (metis redeem_world.surjective redeem_world.update_convs(2))+

lemma load_ok:
  "redeem_load_phase env t h sid p w = (Inr c, w') \<Longrightarrow>
     p = Some c \<and> w' = w \<or> p = None \<and>
     (\<exists>a. store_get (re_challenges env) (rt_get t) sid (rd_challenges w) = (Inr (Some c), a) \<and> w' = w\<lparr>rd_challenges := a\<rparr>)"
  by (auto simp: redeem_load_phase_def step_inv split: prod.splits option.splits sum.splits)

lemma owner_ok: "redeem_owner_phase h c client w = (Inr u, w') \<Longrightarrow> cc_client_id c = Some client \<and> w' = w"
  using verify_ownership_iff[of "cc_client_id c" "Some client" "client_ip_of h" "''redeem_bola_ownership_mismatch''"]
  by (auto simp: redeem_owner_phase_def step_inv split: prod.splits sum.splits)

lemma state_ok:
  "redeem_state_phase t h s c w = (Inr u, w') \<Longrightarrow>
     rt_now t \<le> cc_expires_at c \<and> cc_state c = ProofOkWaitingForRedeem \<and> w' = w"
  by (auto simp: redeem_state_phase_def step_inv split: if_splits)

lemma pkce_ok:
  "redeem_pkce_phase env h s c v w = (Inr u, w') \<Longrightarrow>
     re_sha256 env (string_bytes v) = cc_code_challenge_bytes c \<and> w' = w"
  by (auto simp: redeem_pkce_phase_def step_inv split: if_splits)

lemma quota_ok:
  "redeem_quota_phase env t client w = (Inr u, w') \<Longrightarrow>
     \<exists>a. enforce_account_quota (re_tiers env) (re_quota_var env) (re_rate_bound env) client ''redeem'' (rt_quota t) (rd_rate w) =
       (Inr (), a) \<and> w' = w\<lparr>rd_rate := a\<rparr>"
  by (auto simp: redeem_quota_phase_def step_inv split: prod.splits sum.splits)

lemma nonce_ok:
  "redeem_nonce_phase env t h s w = (Inr u, w') \<Longrightarrow>
     \<exists>a. check_and_set (re_nonces env) (''redeem:'' @ s) (rt_nonce t) NONCE_DEDUP_TTL (rd_nonces w) = (Inr True, a) \<and>
       w' = w\<lparr>rd_nonces := a\<rparr>"
  by (auto simp: redeem_nonce_phase_def step_inv split: prod.splits sum.splits bool.splits)

lemma metered_ok:
  assumes "metered_phase env t h s c w = (Inr u, w')" "origin_is_metered env (cc_origin c)"
  shows "\<exists>n \<in> {1 .. 3}. \<exists>a. decided_by (rt_credit t n) a \<and> cp_status a \<in> {200, 409}"
proof -
  from assms obtain client where "re_credit_client env = Some client"
    by (auto simp: metered_phase_def split: option.splits)
  with assms have "(\<exists>x. fst (consume_credits (re_credit env) client (credit_request env s c) (rt_credit t)) = Inr x) \<or>
      (\<exists>m. fst (consume_credits (re_credit env) client (credit_request env s c) (rt_credit t)) = Inl (CreditConflict m))"
    by (auto simp: metered_phase_def step_inv split_beta Let_def split: sum.splits credit_error.splits)
  then show ?thesis using consume_credits_granted by blast
qed

lemma put_ok:
  "redeem_put_phase env t h sid s c w = (Inr u, w') \<Longrightarrow>
     \<exists>a. store_put (re_challenges env) (rt_put t) (rt_put_insert t) sid (redeemed_challenge (rt_now t) c) (rd_challenges w) =
       (Inr (), a) \<and> w' = w\<lparr>rd_challenges := a\<rparr>"
  by (auto simp: redeem_put_phase_def step_inv split: prod.splits sum.splits)

text \<open>The challenge was read from the store, possibly after an earlier read of the sandbox.\<close>

definition was_read ::
    "challenge_store_env \<Rightarrow> uuid \<Rightarrow> challenge_world \<Rightarrow> cached_challenge \<Rightarrow> challenge_world \<Rightarrow> bool" where
  "was_read env sid cw c cw' \<longleftrightarrow>
     (\<exists>clk. store_get env clk sid cw = (Inr (Some c), cw')) \<or>
     (\<exists>clk clk'. store_get env clk sid (snd (store_get env clk' sid cw)) = (Inr (Some c), cw'))"

lemma was_readI:
  "store_get env clk sid cw = (Inr (Some c), cw') \<Longrightarrow> was_read env sid cw c cw'"
  "store_get env clk' sid cw = (r, a) \<Longrightarrow> store_get env clk sid a = (Inr (Some c), cw') \<Longrightarrow> was_read env sid cw c cw'"
  by (auto simp: was_read_def) (metis snd_conv)

text \<open>What the gates require of the request, of its caller and of the challenge.\<close>

definition redeem_allowed ::
    "redeem_env \<Rightarrow> redeem_clock \<Rightarrow> redeem_headers \<Rightarrow> string \<Rightarrow> redeem_world \<Rightarrow> string \<Rightarrow> cached_challenge \<Rightarrow> bool" where
  "redeem_allowed env t h v w client c \<longleftrightarrow>
     validate_fetch_metadata (rh_fetch h) = Inr () \<and>
     (\<exists>p. ar_client_id (fst (authenticate_api_key (re_auth env) (rh_origin h) (rh_api_key h)
            (redeem_auth_options p) (rd_auth w))) = Some client) \<and>
     cc_client_id c = Some client \<and> cc_state c = ProofOkWaitingForRedeem \<and> rt_now t \<le> cc_expires_at c \<and>
     re_sha256 env (string_bytes v) = cc_code_challenge_bytes c \<and>
     fst (enforce_account_quota (re_tiers env) (re_quota_var env) (re_rate_bound env) client ''redeem''
            (rt_quota t) (rd_rate w)) = Inr ()"

lemma gates_ok:
  assumes "redeem_gates env t h sid v w = (Inr (key, client, cached), w')"
  shows "\<exists>c. redeem_allowed env t h v w client c \<and> cached = zeroize_secret c \<and>
    was_read (re_challenges env) sid (rd_challenges w) c (rd_challenges w') \<and> rd_nonces w' = rd_nonces w"
proof -
  from assms obtain p w1 w2 w3 w4 w5 w6 w7 w8 c where s:
    "redeem_headers_phase h w = (Inr key, w1)" "prefetch_phase env t sid w1 = (Inr p, w2)"
    "redeem_auth_phase env h p w2 = (Inr client, w3)" "redeem_replay_phase env t key client w3 = (Inr (), w4)"
    "redeem_load_phase env t h sid p w4 = (Inr c, w5)" "cached = zeroize_secret c"
    "redeem_owner_phase h (zeroize_secret c) client w5 = (Inr (), w6)"
    "redeem_state_phase t h (cse_uuid_text (re_challenges env) sid) (zeroize_secret c) w6 = (Inr (), w7)"
    "redeem_pkce_phase env h (cse_uuid_text (re_challenges env) sid) (zeroize_secret c) v w7 = (Inr (), w8)"
    "redeem_quota_phase env t client w8 = (Inr (), w')"
    by (auto simp: redeem_gates_def Let_def andthen_Inr_iff)
  have w1: "w1 = w" using headers_ok[OF s(1)] by simp
  from auth_ok[OF s(3)] obtain r a where auth: "ar_client_id r = Some client" "w3 = w2\<lparr>rd_auth := a\<rparr>"
    "authenticate_api_key (re_auth env) (rh_origin h) (rh_api_key h) (redeem_auth_options p) (rd_auth w2) = (r, a)" by blast
  from replay_ok[OF s(4)] obtain i where i: "w4 = w3\<lparr>rd_idem := i\<rparr>" by blast
  have load: "was_read (re_challenges env) sid (rd_challenges w) c (rd_challenges w5) \<and>
      rd_rate w5 = rd_rate w \<and> rd_nonces w5 = rd_nonces w \<and> rd_auth w2 = rd_auth w"
    using load_ok[OF s(5)] prefetch_ok[OF s(2)] by (auto simp: w1 auth(2) i intro: was_readI)
  note rest = owner_ok[OF s(7)] state_ok[OF s(8)] pkce_ok[OF s(9)] quota_ok[OF s(10)]
  have "rd_rate w8 = rd_rate w" "rd_challenges w' = rd_challenges w5" "rd_nonces w' = rd_nonces w"
    using rest load by auto
  moreover have "redeem_allowed env t h v w client c"
    unfolding redeem_allowed_def
  proof (intro conjI exI[of _ p])
    show "ar_client_id (fst (authenticate_api_key (re_auth env) (rh_origin h) (rh_api_key h) (redeem_auth_options p) (rd_auth w))) = Some client"
      using auth load by simp
  qed (use headers_ok[OF s(1)] rest load in \<open>auto simp: zeroize_secret_def\<close>)
  ultimately show ?thesis using load s(6) by auto
qed

subsection \<open>The nonce\<close>

text \<open>Only the nonce phase touches the nonce store.\<close>

definition same_nonces :: "redeem_world \<Rightarrow> redeem_world \<Rightarrow> bool" where
  "same_nonces w w' \<longleftrightarrow> rd_nonces w' = rd_nonces w"

lemma same_nonces_rel: "reflp same_nonces" "transp same_nonces"
  by (auto simp: same_nonces_def reflp_def transp_def)

lemma same_nonces_phases:
  "keeps same_nonces (redeem_headers_phase h)" "keeps same_nonces (prefetch_phase env t sid)"
  "keeps same_nonces (redeem_auth_phase env h p)" "keeps same_nonces (redeem_replay_phase env t key client)"
  "keeps same_nonces (redeem_load_phase env t h sid p)" "keeps same_nonces (redeem_owner_phase h c client)"
  "keeps same_nonces (redeem_state_phase t h s c)" "keeps same_nonces (redeem_pkce_phase env h s c v)"
  "keeps same_nonces (redeem_quota_phase env t client)" "keeps same_nonces (metered_phase env t h s c)"
  "keeps same_nonces (redeem_put_phase env t h sid s c)" "keeps same_nonces (unmetered_phase env t h s c)"
  "keeps same_nonces (redeem_audit_phase t h s c)" "keeps same_nonces (redeem_cache_phase env t key client)"
  by (auto simp: keeps_def same_nonces_def step_inv redeem_headers_phase_def prefetch_phase_def redeem_auth_phase_def
      redeem_replay_phase_def redeem_load_phase_def redeem_owner_phase_def redeem_state_phase_def redeem_pkce_phase_def
      redeem_quota_phase_def metered_phase_def redeem_put_phase_def unmetered_phase_def redeem_audit_phase_def
      redeem_cache_phase_def audit_def Let_def
      split: prod.splits sum.splits option.splits if_splits credit_error.splits)

lemma gates_same_nonces: "keeps same_nonces (redeem_gates env t h sid v)"
  unfolding redeem_gates_def Let_def
  by (intro keeps_andthen[OF same_nonces_rel(2)] keeps_ret[OF same_nonces_rel(1)] same_nonces_phases)

lemma grant_same_nonces: "keeps same_nonces (redeem_grant env t h sid key client c)"
  unfolding redeem_grant_def Let_def
  by (intro keeps_andthen[OF same_nonces_rel(2)] keeps_ret[OF same_nonces_rel(1)] same_nonces_phases)

subsection \<open>How the handler ends\<close>

lemma fetch_metadata_error:
  "validate_fetch_metadata fh = Inl e \<Longrightarrow> (\<exists>m. e = Forbidden m \<or> e = BadRequest m)"
  by (auto simp: validate_fetch_metadata_def then_check_def validate_sec_fetch_site_def validate_sec_fetch_mode_def
      validate_sec_fetch_dest_def unreadable_def split: sum.splits header_read.splits if_splits)

lemma redeem_state_error_cases: "\<exists>m. redeem_state_error s = Conflict m \<or> redeem_state_error s = Gone m"
  by (cases s) (auto simp: conflict_def challenge_expired_error_def gone_def)

text \<open>The answers of a redemption that billing refuses: 402, and the two kinds of 503.\<close>

definition billing_refusals :: "api_error set" where
  "billing_refusals = {PaymentRequired None, billing_unavailable, ServiceUnavailable (Some ''Billing not configured'')}"

text \<open>Neither success nor a refusal by billing comes from a gate or the nonce.\<close>

definition gate_answer :: "redeem_outcome \<Rightarrow> bool" where
  "gate_answer x \<longleftrightarrow> (\<forall>r. x \<noteq> RedeemOk r) \<and> x \<notin> RedeemError ` billing_refusals"

lemma gate_answer_phases:
  "ends_in gate_answer (redeem_headers_phase h)" "ends_in gate_answer (prefetch_phase env t sid)"
  "ends_in gate_answer (redeem_auth_phase env h p)" "ends_in gate_answer (redeem_replay_phase env t key client)"
  "ends_in gate_answer (redeem_load_phase env t h sid p)" "ends_in gate_answer (redeem_owner_phase h c client)"
  "ends_in gate_answer (redeem_state_phase t h s c)" "ends_in gate_answer (redeem_pkce_phase env h s c v)"
  "ends_in gate_answer (redeem_quota_phase env t client)" "ends_in gate_answer (redeem_nonce_phase env t h s)"
  by (auto simp: ends_in_def gate_answer_def step_inv redeem_headers_phase_def prefetch_phase_def redeem_auth_phase_def
      redeem_replay_phase_def redeem_load_phase_def redeem_owner_phase_def redeem_state_phase_def redeem_pkce_phase_def
      redeem_quota_phase_def redeem_nonce_phase_def billing_refusals_def billing_unavailable_def unauthorized_def challenge_expired_error_def
      gone_def conflict_def bad_request_def verify_ownership_def
      split: prod.splits sum.splits option.splits if_splits bool.splits dest: fetch_metadata_error)
     (metis api_error.distinct redeem_state_error_cases)+

lemma gates_gate_answer: "ends_in gate_answer (redeem_gates env t h sid v)"
  unfolding redeem_gates_def Let_def
  by (intro ends_in_andthen ends_in_ret gate_answer_phases)

text \<open>A run that does not end at a gate has claimed a fresh nonce and gone on to billing.\<close>

lemma redeem_granted:
  assumes "redeem_challenge env t h sid v w = (x, w')" "\<not> gate_answer x"
  shows "\<exists>key client c w1 w2. redeem_gates env t h sid v w = (Inr (key, client, zeroize_secret c), w1) \<and>
    redeem_allowed env t h v w client c \<and> was_read (re_challenges env) sid (rd_challenges w) c (rd_challenges w1) \<and>
    check_and_set (re_nonces env) (''redeem:'' @ cse_uuid_text (re_challenges env) sid) (rt_nonce t)
      NONCE_DEDUP_TTL (rd_nonces w) = (Inr True, rd_nonces w') \<and>
    w2 = w1\<lparr>rd_nonces := rd_nonces w'\<rparr> \<and>
    (redeem_grant env t h sid key client (zeroize_secret c) w2 = (Inr x, w') \<or>
     redeem_grant env t h sid key client (zeroize_secret c) w2 = (Inl x, w'))"
proof -
  let ?k = "\<lambda>(key, client_id, cached).
             andthen (redeem_nonce_phase env t h (cse_uuid_text (re_challenges env) sid)) (\<lambda>_.
             redeem_grant env t h sid key client_id cached)"
  obtain y where run: "andthen (redeem_gates env t h sid v) ?k w = (y, w')" "y = Inl x \<or> y = Inr x"
    using assms(1) by (auto simp: redeem_challenge_def finish_def split: prod.splits sum.splits)
  have "\<nexists>u w1. redeem_gates env t h sid v w = (Inl u, w1) \<and> u = x"
    using gates_gate_answer[THEN ends_inD] assms(2) by blast
  then obtain g w1 where g: "redeem_gates env t h sid v w = (Inr g, w1)" "?k g w1 = (y, w')"
    using run by (auto simp: andthen_Inl_iff andthen_Inr_iff)
  obtain key client cached where gc: "g = (key, client, cached)" by (cases g)
  have "\<nexists>u w2. redeem_nonce_phase env t h (cse_uuid_text (re_challenges env) sid) w1 = (Inl u, w2) \<and> u = x"
    using gate_answer_phases(10)[THEN ends_inD] assms(2) by blast
  then obtain w2 where n: "redeem_nonce_phase env t h (cse_uuid_text (re_challenges env) sid) w1 = (Inr (), w2)"
    "redeem_grant env t h sid key client cached w2 = (y, w')"
    using g(2) run(2) by (auto simp: gc andthen_Inl_iff andthen_Inr_iff)
  have "rd_nonces w' = rd_nonces w2"
    using keepsD[OF grant_same_nonces n(2)] by (simp add: same_nonces_def)
  moreover from gates_ok[OF g(1)[unfolded gc]] obtain c where c: "redeem_allowed env t h v w client c" "cached = zeroize_secret c"
    "was_read (re_challenges env) sid (rd_challenges w) c (rd_challenges w1)" "rd_nonces w1 = rd_nonces w" by blast
  moreover from nonce_ok[OF n(1)] obtain a where
    "check_and_set (re_nonces env) (''redeem:'' @ cse_uuid_text (re_challenges env) sid) (rt_nonce t)
       NONCE_DEDUP_TTL (rd_nonces w1) = (Inr True, a)" "w2 = w1\<lparr>rd_nonces := a\<rparr>" by blast
  ultimately show ?thesis
    using g(1)[unfolded gc] n(2) run(2)
    by (intro exI[of _ key] exI[of _ client] exI[of _ c] exI[of _ w1] exI[of _ w2]) auto
qed

text \<open>
  What may happen to the nonce store between two redemptions: claims and cleanup alarms, up to
  the time the first claim lives, and no failing read inside the objects.
\<close>

definition nonces_meanwhile :: "redeem_env \<Rightarrow> redeem_clock \<Rightarrow> redeem_world \<Rightarrow> redeem_clock \<Rightarrow> redeem_world \<Rightarrow> bool" where
  "nonces_meanwhile env t1 w1 t2 w2 \<longleftrightarrow>
     (\<exists>es. claim_trace (check_and_set (re_nonces env)) store_ok store_alarm (rd_nonces w1) es (rd_nonces w2) \<and>
        (\<forall>e\<in>set es. now_secs (fst e) \<le> sat_add (now_secs (rt_nonce t1)) NONCE_DEDUP_TTL)) \<and>
     store_ok (rd_nonces w2) \<and> now_secs (rt_nonce t2) \<le> sat_add (now_secs (rt_nonce t1)) NONCE_DEDUP_TTL"

lemma redeem_blocks:
  assumes "store_laws (re_nonces env)" "redeem_challenge env t1 h1 sid v1 w = (x, w1)" "\<not> gate_answer x"
    and "nonces_meanwhile env t1 w1 t2 w2" "redeem_challenge env t2 h2 sid v2 w2 = (y, w3)"
  shows "gate_answer y"
proof (rule ccontr)
  assume ng: "\<not> gate_answer y"
  let ?tag = "''redeem:'' @ cse_uuid_text (re_challenges env) sid"
  from redeem_granted[OF assms(2,3)] have "check_and_set (re_nonces env) ?tag (rt_nonce t1) NONCE_DEDUP_TTL (rd_nonces w) =
      (Inr True, rd_nonces w1)" by blast
  moreover from redeem_granted[OF assms(5) ng] have "check_and_set (re_nonces env) ?tag (rt_nonce t2) NONCE_DEDUP_TTL
      (rd_nonces w2) = (Inr True, rd_nonces w3)" by blast
  ultimately show False
    using assms(4) single_use.claimed_once[OF nonce_store_single_use[OF assms(1)]] unfolding nonces_meanwhile_def by blast
qed

subsection \<open>Granting\<close>

lemma challenges_kept:
  "metered_phase env t h s c w = (x, w') \<Longrightarrow> rd_challenges w' = rd_challenges w"
  "unmetered_phase env t h s c w = (x, w') \<Longrightarrow> rd_challenges w' = rd_challenges w"
  "redeem_audit_phase t h s c w = (x, w') \<Longrightarrow> rd_challenges w' = rd_challenges w"
  "redeem_cache_phase env t key client w = (x, w') \<Longrightarrow> rd_challenges w' = rd_challenges w"
  by (auto simp: metered_phase_def unmetered_phase_def redeem_audit_phase_def redeem_cache_phase_def step_inv audit_def Let_def
      split: prod.splits sum.splits option.splits if_splits credit_error.splits)

definition not_ok :: "redeem_outcome \<Rightarrow> bool" where
  "not_ok x \<longleftrightarrow> (\<forall>r. x \<noteq> RedeemOk r)"

lemma not_ok_phases:
  "ends_in not_ok (metered_phase env t h s c)" "ends_in not_ok (redeem_put_phase env t h sid s c)"
  "ends_in not_ok (unmetered_phase env t h s c)" "ends_in not_ok (redeem_audit_phase t h s c)"
  "ends_in not_ok (redeem_cache_phase env t key client)"
  by (auto simp: ends_in_def not_ok_def metered_phase_def redeem_put_phase_def unmetered_phase_def redeem_audit_phase_def
      redeem_cache_phase_def step_inv audit_def Let_def
      split: prod.splits sum.splits option.splits if_splits credit_error.splits)

lemma grant_not_ok: "ends_in not_ok (redeem_grant env t h sid key client c)"
  unfolding redeem_grant_def Let_def
  by (intro ends_in_andthen ends_in_ret not_ok_phases)

lemma grant_ok:
  assumes "redeem_grant env t h sid key client c w = (Inr x, w')"
  shows "x = RedeemOk redeem_ok \<and>
    (origin_is_metered env (cc_origin c) \<longrightarrow> (\<exists>n\<in>{1..3}. \<exists>a. decided_by (rt_credit t n) a \<and> cp_status a \<in> {200, 409})) \<and>
    store_put (re_challenges env) (rt_put t) (rt_put_insert t) sid (redeemed_challenge (rt_now t) c) (rd_challenges w) =
      (Inr (), rd_challenges w')"
proof -
  let ?s = "cse_uuid_text (re_challenges env) sid"
  from assms obtain w1 w2 w3 w4 where s: "metered_phase env t h ?s c w = (Inr (), w1)"
    "redeem_put_phase env t h sid ?s c w1 = (Inr (), w2)" "unmetered_phase env t h ?s c w2 = (Inr (), w3)"
    "redeem_audit_phase t h ?s c w3 = (Inr (), w4)" "redeem_cache_phase env t key client w4 = (Inr (), w')"
    "x = RedeemOk redeem_ok"
    by (auto simp: redeem_grant_def Let_def andthen_Inr_iff)
  from put_ok[OF s(2)] challenges_kept(1)[OF s(1)] challenges_kept(2)[OF s(3)] challenges_kept(3)[OF s(4)]
    challenges_kept(4)[OF s(5)]
  show ?thesis using s(6) metered_ok[OF s(1)] by auto
qed

lemma redeem_ok_grant:
  assumes "redeem_challenge env t h sid v w = (RedeemOk r, w')"
  shows "\<exists>key client c w1. redeem_gates env t h sid v w = (Inr (key, client, zeroize_secret c), w1) \<and>
    redeem_allowed env t h v w client c \<and> was_read (re_challenges env) sid (rd_challenges w) c (rd_challenges w1) \<and>
    check_and_set (re_nonces env) (''redeem:'' @ cse_uuid_text (re_challenges env) sid) (rt_nonce t)
      NONCE_DEDUP_TTL (rd_nonces w) = (Inr True, rd_nonces w') \<and>
    redeem_grant env t h sid key client (zeroize_secret c) (w1\<lparr>rd_nonces := rd_nonces w'\<rparr>) = (Inr (RedeemOk r), w')"
proof -
  have "\<not> gate_answer (RedeemOk r)" by (simp add: gate_answer_def)
  from redeem_granted[OF assms this] ends_inD[OF grant_not_ok] show ?thesis
    unfolding not_ok_def by blast
qed

subsection \<open>Properties\<close>

text \<open>C6 A redemption is granted only when every gate has passed: fetch metadata, an authenticated
  client that owns the stored challenge, a proof waiting for redemption, no expiry, a code verifier
  whose SHA-256 is the code challenge, the account's quota and a nonce fresh in the store; and, for a
  metered origin, only after the credit service answered that the credits were deducted (200) or
  had been before (409); the record is then written as verified before the answer.\<close>

theorem redeem_granted_only_if:
  assumes "redeem_challenge env t h sid v w = (RedeemOk r, w')"
  shows "r = redeem_ok \<and> (\<exists>client c cw. redeem_allowed env t h v w client c \<and>
    was_read (re_challenges env) sid (rd_challenges w) c cw \<and>
    check_and_set (re_nonces env) (''redeem:'' @ cse_uuid_text (re_challenges env) sid) (rt_nonce t)
      NONCE_DEDUP_TTL (rd_nonces w) = (Inr True, rd_nonces w') \<and>
    (if origin_is_metered env (cc_origin c)
     then \<exists>n a. 1 \<le> n \<and> n \<le> 3 \<and> decided_by (rt_credit t n) a \<and> cp_status a \<in> {200, 409} else True) \<and>
    store_put (re_challenges env) (rt_put t) (rt_put_insert t) sid
      (redeemed_challenge (rt_now t) (zeroize_secret c)) cw = (Inr (), rd_challenges w'))"
proof -
  from redeem_ok_grant[OF assms] obtain key client c w1 where g:
    "redeem_allowed env t h v w client c" "was_read (re_challenges env) sid (rd_challenges w) c (rd_challenges w1)"
    "check_and_set (re_nonces env) (''redeem:'' @ cse_uuid_text (re_challenges env) sid) (rt_nonce t)
      NONCE_DEDUP_TTL (rd_nonces w) = (Inr True, rd_nonces w')"
    "redeem_grant env t h sid key client (zeroize_secret c) (w1\<lparr>rd_nonces := rd_nonces w'\<rparr>) = (Inr (RedeemOk r), w')"
    by blast
  from grant_ok[OF g(4)] g(1-3) show ?thesis
    by (intro conjI exI[of _ client] exI[of _ c] exI[of _ "rd_challenges w1"]) (auto simp: zeroize_secret_def)
qed

text \<open>C7 A challenge is redeemed at most once: after a granted redemption no other request for it is granted
  while the nonce's 300 seconds, the longest life of a challenge, last, whatever claims and cleanup alarms the
  nonce store sees meanwhile, with calls lost or repeated.  It holds as long as no storage read inside the
  nonce objects fails: an object whose read fails takes the nonce for a fresh one.\<close>

theorem redeem_at_most_once:
  assumes "store_laws (re_nonces env)" "redeem_challenge env t1 h1 sid v1 w = (RedeemOk r, w1)"
    and "nonces_meanwhile env t1 w1 t2 w2" "redeem_challenge env t2 h2 sid v2 w2 = (y, w3)"
  shows "y \<noteq> RedeemOk r'"
  using redeem_blocks[OF assms(1,2) _ assms(3,4)] by (auto simp: gate_answer_def)

text \<open>C14 A redemption that billing refuses, with the 402 of missing credits or with either 503, the one of a
  credit service that cannot be reached and the one of billing that is not configured, has already consumed
  the nonce: for 300 seconds a retry is not granted and does not reach billing again, so topping up does not
  help.  It holds as long as no storage read inside the nonce objects fails.\<close>

theorem redeem_refused_not_retryable:
  assumes "store_laws (re_nonces env)" "redeem_challenge env t1 h1 sid v1 w = (x, w1)"
    and "x \<in> RedeemError ` billing_refusals"
    and "nonces_meanwhile env t1 w1 t2 w2" "redeem_challenge env t2 h2 sid v2 w2 = (y, w3)"
  shows "y \<noteq> RedeemOk r' \<and> y \<notin> RedeemError ` billing_refusals"
  using redeem_blocks[OF assms(1,2) _ assms(4,5)] assms(3) by (auto simp: gate_answer_def)

lemma apply_update_verified_at:
  "cc_verified_at (apply_update c u) = (case cu_verified_at u of Some t \<Rightarrow> Some t | None \<Rightarrow> cc_verified_at c)"
  by (auto simp: apply_update_def Let_def split: option.splits)

lemma was_read_present:
  assumes "was_read env sid cw c cw'" "validate_challenge_id (cse_uuid_text env sid) = Inr ()"
    and "faults (cw_objects cw sid) = []"
  shows "(\<exists>d. kv (cw_objects cw' sid) (ch_key (cse_uuid_text env sid)) = Some (SChallenge d)) \<and>
    faults (cw_objects cw' sid) = []"
  using assms(1) unfolding was_read_def
proof (elim disjE exE)
  fix clk assume g: "store_get env clk sid cw = (Inr (Some c), cw')"
  from store_get_present[OF assms(2) g] store_get_quiet[OF g assms(3)] show ?thesis by blast
next
  fix clk clk' assume g: "store_get env clk sid (snd (store_get env clk' sid cw)) = (Inr (Some c), cw')"
  have "faults (cw_objects (snd (store_get env clk' sid cw)) sid) = []"
    using store_get_quiet[OF _ assms(3)] by (metis prod.collapse)
  from store_get_present[OF assms(2) g] store_get_quiet[OF g this] show ?thesis by blast
qed

text \<open>C12 A granted redemption is recorded: when the storage of the challenge's object does not fail,
  the object holds the challenge as verified at the time of the redemption, whatever requests and
  answers were lost and retried.\<close>

theorem redeem_granted_recorded:
  assumes "redeem_challenge env t h sid v w = (RedeemOk r, w')"
    and "faults (cw_objects (rd_challenges w) sid) = []"
    and "\<And>c cw. was_read (re_challenges env) sid (rd_challenges w) c cw \<Longrightarrow>
      cs_laws (re_challenges env) sid (redeemed_challenge (rt_now t) (zeroize_secret c))"
  shows "\<exists>d. kv (cw_objects (rd_challenges w') sid) (ch_key (cse_uuid_text (re_challenges env) sid)) = Some (SChallenge d) \<and>
    cc_state d = Verified \<and> cc_verified_at d = Some (rt_now t)"
proof -
  from redeem_ok_grant[OF assms(1)] obtain key client c w1 where g:
    "was_read (re_challenges env) sid (rd_challenges w) c (rd_challenges w1)"
    "redeem_grant env t h sid key client (zeroize_secret c) (w1\<lparr>rd_nonces := rd_nonces w'\<rparr>) = (Inr (RedeemOk r), w')"
    by blast
  let ?c = "redeemed_challenge (rt_now t) (zeroize_secret c)"
  note law = assms(3)[OF g(1)]
  then have id: "validate_challenge_id (cse_uuid_text (re_challenges env) sid) = Inr ()" by (simp add: cs_laws_def)
  from was_read_present[OF g(1) id assms(2)] obtain d where d: "faults (cw_objects (rd_challenges w1) sid) = []"
    "kv (cw_objects (rd_challenges w1) sid) (ch_key (cse_uuid_text (re_challenges env) sid)) = Some (SChallenge d)" by blast
  from grant_ok[OF g(2)] have "store_put (re_challenges env) (rt_put t) (rt_put_insert t) sid ?c (rd_challenges w1) =
      (Inr (), rd_challenges w')" by simp
  from update_ok_stored[OF law store_put_quiet[OF law d this]] obtain e where
    "kv (cw_objects (rd_challenges w') sid) (ch_key (cse_uuid_text (re_challenges env) sid)) =
       Some (SChallenge (apply_update e (update_of ?c)))" by blast
  then show ?thesis
    by (simp add: apply_update_verified_at) (simp add: update_of_def redeemed_challenge_def)
qed

text \<open>A metered origin whose challenges carry no tenant can never redeem: the origin is then the
  customer identifier, and its slashes make the credit client refuse the request.\<close>

theorem redeem_needs_tenant:
  assumes "\<And>c cw. was_read (re_challenges env) sid (rd_challenges w) c cw \<Longrightarrow>
      cc_tenant_id c = None \<and> CHR ''/'' \<in> set (cc_origin c) \<and> origin_is_metered env (cc_origin c)"
  shows "fst (redeem_challenge env t h sid v w) \<noteq> RedeemOk r"
proof
  assume "fst (redeem_challenge env t h sid v w) = RedeemOk r"
  then obtain w' where "redeem_challenge env t h sid v w = (RedeemOk r, w')" by (metis prod.collapse)
  from redeem_ok_grant[OF this] obtain key client c w1 where g:
    "was_read (re_challenges env) sid (rd_challenges w) c (rd_challenges w1)"
    "redeem_grant env t h sid key client (zeroize_secret c) (w1\<lparr>rd_nonces := rd_nonces w'\<rparr>) = (Inr (RedeemOk r), w')"
    by blast
  let ?w2 = "w1\<lparr>rd_nonces := rd_nonces w'\<rparr>"
  let ?q = "credit_request env (cse_uuid_text (re_challenges env) sid) (zeroize_secret c)"
  from assms[OF g(1)] have c: "origin_is_metered env (cc_origin (zeroize_secret c))" "CHR ''/'' \<in> set (cq_customer_id ?q)"
    by (simp_all add: zeroize_secret_def credit_request_def)
  obtain e where e: "check_ids ?q = Inl (InvalidRequest e)"
    using c(2) by (auto simp: check_ids_def check_id_def then_check_def validate_path_component_def)
  from g(2) obtain w3 where "metered_phase env t h (cse_uuid_text (re_challenges env) sid) (zeroize_secret c) ?w2 = (Inr (), w3)"
    by (auto simp: redeem_grant_def Let_def andthen_Inr_iff)
  with c(1) consume_credits_refused[OF e] show False
    by (auto simp: metered_phase_def step_inv split: option.splits)
qed

subsection \<open>A run\<close>

text \<open>A metered origin, its client, and a credit service that answers with the given status.\<close>

definition sample_redeem_env :: redeem_env where
  "sample_redeem_env = \<lparr>re_environment = ''production'', re_auth = sample_auth_env ''$argon2id$a'',
     re_idem = \<lparr>ie_encode = (\<lambda>s. s), ie_serialise = (\<lambda>_. []), ie_parse = (\<lambda>_. Inl []), ie_hash = (\<lambda>_. 0),
       ie_shard_count = 1, ie_sha256 = (\<lambda>b. b), ie_listing = (\<lambda>_. [])\<rparr>, re_idem_store = False,
     re_challenges = ready_env, re_tiers = \<lparr>te_nested = (\<lambda>_. None), te_flat = (\<lambda>_. None)\<rparr>, re_quota_var = None,
     re_rate_bound = False, re_nonces = sample_store_env, re_sha256 = (\<lambda>_. replicate 32 2),
     re_origin_index = (\<lambda>_. Some ''{}''), re_metering = (\<lambda>_. Some (Some True)), re_credit = sample_credit_env,
     re_credit_client = Some sample_client, re_environment_var = None, re_worker_context = True\<rparr>"

definition answering :: "nat \<Rightarrow> nat \<Rightarrow> credit_attempt" where
  "answering st n = (sample_attempts n)\<lparr>ct_binding := Some (Answered \<lparr>cp_status = st,
     cp_content_type = Some ''application/json'', cp_content_length = None, cp_text = Inr ''{}''\<rparr>)\<rparr>"

definition sample_clock :: "nat \<Rightarrow> redeem_clock" where
  "sample_clock st = \<lparr>rt_prefetch = (\<lambda>_. 1100000), rt_idem_check = 1100000, rt_get = (\<lambda>_. 1100000), rt_now = 1100,
     rt_quota = 1100, rt_nonce = 1100000, rt_put = (\<lambda>_. 1100000), rt_put_insert = (\<lambda>_. 1100000),
     rt_credit = answering st, rt_credit_late = answering st, rt_idem_store = 1100000\<rparr>"

definition sample_headers :: redeem_headers where
  "sample_headers = \<lparr>rh_client_ip = None, rh_idempotency_key = HeaderMissing,
     rh_fetch = \<lparr>fh_site = HeaderMissing, fh_mode = HeaderMissing, fh_dest = HeaderMissing\<rparr>,
     rh_origin = Some ''https://rp.example'', rh_api_key = Some ''pk_live_0''\<rparr>"

definition sample_redeem_world :: "challenge_world \<Rightarrow> redeem_world" where
  "sample_redeem_world cw = \<lparr>rd_auth = sample_auth_world,
     rd_idem = \<lparr>iw_shards = (\<lambda>_. \<lparr>kv = (\<lambda>_. None), alarm_at = None, faults = []\<rparr>), iw_net = [], iw_fail_events = []\<rparr>,
     rd_challenges = cw, rd_rate = \<lparr>rw_kv = \<lparr>rk_store = (\<lambda>_. None), rk_net = []\<rparr>, rw_tiers = []\<rparr>,
     rd_nonces = sample_nonce_world [], rd_audit = [], rd_sent = []\<rparr>"

lemma ready_undisturbed: "undisturbed ready_env cid ready_challenge (ready_world [])"
  by (simp add: undisturbed_def ready_world_def sample_id_valid)

lemma ready_valid:
  "cc_expires_at ready_challenge = 1300" "challenge_validate ready_challenge = Inr ()" "now_secs 1100000 = 1100"
  by (simp_all add: ready_challenge_def submitted_challenge_def sample_challenge_def challenge_validate_iff
      now_secs_def secs_of_millis_def)

lemma sample_read:
  "undisturbed ready_env cid ready_challenge cw \<Longrightarrow> store_get ready_env (\<lambda>_. 1100000) cid cw = (Inr (Some ready_challenge), cw)"
  by (rule undisturbed_get[where c = ready_challenge]) (simp_all add: ready_valid)

lemma sample_put:
  assumes "undisturbed ready_env (replicate 16 1) ready_challenge cw"
  shows "\<exists>cw'. store_put ready_env (\<lambda>_. 1100000) (\<lambda>_. 1100000) (replicate 16 1) done_challenge cw = (Inr (), cw')"
  using undisturbed_put[OF assms ready_laws, of "\<lambda>_. 1100000" "\<lambda>_. 1100000"]
  by (auto simp: is_nil_def MAX_CHALLENGE_BODY_SIZE_def is_terminal_state_def is_valid_transition_def)

lemma sample_gates:
  assumes "undisturbed ready_env (replicate 16 1) ready_challenge cw"
  shows "\<exists>a. redeem_gates sample_redeem_env (sample_clock st) sample_headers (replicate 16 1) v (sample_redeem_world cw) =
     (Inr (None, ''rp_a'', zeroize_secret ready_challenge), (sample_redeem_world cw)\<lparr>rd_auth := a\<rparr>)"
proof -
  let ?e = sample_redeem_env and ?t = "sample_clock st" and ?h = sample_headers and ?w = "sample_redeem_world cw"
  from sample_authenticates obtain r a where auth:
    "authenticate_api_key (sample_auth_env ''$argon2id$a'') (Some ''https://rp.example'') (Some ''pk_live_0'')
       sample_auth_opts sample_auth_world = (r, a)" "ar_client_id r = Some ''rp_a''" by blast
  let ?w1 = "?w\<lparr>rd_auth := a\<rparr>"
  have fm: "validate_fetch_metadata (rh_fetch ?h) = Inr ()"
    by (simp add: sample_headers_def validate_fetch_metadata_def validate_sec_fetch_site_def validate_sec_fetch_mode_def
        validate_sec_fetch_dest_def then_check_def)
  have 1: "redeem_headers_phase ?h ?w = (Inr None, ?w)"
    using fm by (simp add: redeem_headers_phase_def extract_idempotency_key_def sample_headers_def)
  have 2: "prefetch_phase ?e ?t (replicate 16 1) ?w = (Inr None, ?w)"
    by (simp add: prefetch_phase_def sample_redeem_env_def)
  have 3: "redeem_auth_phase ?e ?h None ?w = (Inr ''rp_a'', ?w1)"
    using auth by (simp add: redeem_auth_phase_def redeem_auth_options_def step_inv sample_auth_opts_def
        sample_redeem_env_def sample_headers_def sample_redeem_world_def)
  have 4: "redeem_replay_phase ?e ?t None ''rp_a'' ?w1 = (Inr (), ?w1)"
    by (simp add: redeem_replay_phase_def)
  have 5: "redeem_load_phase ?e ?t ?h (replicate 16 1) None ?w1 = (Inr ready_challenge, ?w1)"
    using sample_read[OF assms] by (simp add: redeem_load_phase_def step_inv sample_redeem_env_def sample_clock_def sample_redeem_world_def)
  have 6: "redeem_owner_phase ?h (zeroize_secret ready_challenge) ''rp_a'' ?w1 = (Inr (), ?w1)"
    by (simp add: redeem_owner_phase_def verify_ownership_def zeroize_secret_def ready_challenge_def)
  have 7: "redeem_state_phase ?t ?h sample_id (zeroize_secret ready_challenge) ?w1 = (Inr (), ?w1)"
    by (simp add: redeem_state_phase_def zeroize_secret_def sample_clock_def ready_challenge_def submitted_challenge_def
        sample_challenge_def)
  have 8: "redeem_pkce_phase ?e ?h sample_id (zeroize_secret ready_challenge) v ?w1 = (Inr (), ?w1)"
    by (simp add: redeem_pkce_phase_def zeroize_secret_def sample_redeem_env_def ready_challenge_def submitted_challenge_def
        sample_challenge_def)
  have 9: "redeem_quota_phase ?e ?t ''rp_a'' ?w1 = (Inr (), ?w1)"
    by (simp add: redeem_quota_phase_def step_inv enforce_account_quota_def sample_redeem_env_def)
  have id: "cse_uuid_text (re_challenges ?e) (replicate 16 1) = sample_id" by (simp add: sample_redeem_env_def)
  show ?thesis
    unfolding redeem_gates_def Let_def id
    by (intro exI[of _ a]) (simp add: andthen_def 1 2 3 4 5 6 7 8 9)
qed

lemma sample_redeem_env_simps [simp]:
  "re_credit sample_redeem_env = sample_credit_env" "re_credit_client sample_redeem_env = Some sample_client"
  "re_challenges sample_redeem_env = ready_env" "re_nonces sample_redeem_env = sample_store_env"
  "origin_is_metered sample_redeem_env o'"
  by (simp_all add: sample_redeem_env_def origin_is_metered_def)

lemma sample_nonce:
  "\<exists>ns. check_and_set sample_store_env (''redeem:'' @ sample_id) 1100000 300 (sample_nonce_world []) = (Inr True, ns) \<and> store_ok ns"
proof (rule sample_fresh_claim)
  show "validate_nonce_tag (ne_uni sample_store_env) (''redeem:'' @ sample_id) = Inr ()"
    by (simp add: validate_nonce_tag_def MAX_NONCE_TAG_LENGTH_def nonce_tag_char_def is_alphanumeric_def
        is_ascii_alphanumeric_def is_ascii_digit_def Let_def sample_id_def)
  show "check_nonce_input (''redeem:'' @ sample_id) 300 = Inr ()"
    by (simp add: check_nonce_input_def STORE_MAX_NONCE_TAG_LENGTH_def sample_id_def)
qed (simp add: next_delivery_def)

lemma sample_credit_ids: "check_ids (credit_request sample_redeem_env sample_id (zeroize_secret ready_challenge)) = Inr ()"
  by (simp add: check_ids_def check_id_def then_check_def credit_request_def zeroize_secret_def ready_challenge_def
      submitted_challenge_def sample_challenge_def sample_id_def validate_path_component_def is_control_def)

text \<open>The first attempt decides unless it is answered 503.\<close>

lemma sample_consume:
  assumes "st = 200 \<or> st = 402"
  shows "fst (consume_credits sample_credit_env sample_client
      (credit_request sample_redeem_env sample_id (zeroize_secret ready_challenge)) (answering st)) =
    (if st = 200 then Inr \<lparr>balance_after_units = None, royalty_units_credited = None\<rparr> else Inl (InsufficientCredits 1 0))"
proof -
  have "fst (consume_credits_once sample_credit_env sample_client
      (credit_request sample_redeem_env sample_id (zeroize_secret ready_challenge)) (answering st 1)) =
    (if st = 200 then Inr \<lparr>balance_after_units = None, royalty_units_credited = None\<rparr> else Inl (InsufficientCredits 1 0))"
    using assms
    by (auto simp: consume_credits_once_def sample_credit_ids sample_credit_env_def answering_def sample_attempts_def Let_def
        parse_consume_response_def status_result_def MAX_RESPONSE_BODY_BYTES_def validate_content_type_def
        EXPECTED_CONTENT_TYPE_def error_or_default_def)
  then show ?thesis
    using assms by (auto simp: consume_credits_def CREDIT_MAX_RETRIES_def upt_rec consume_loop_step Let_def split_beta)
qed

text \<open>With 402 the redemption is refused after the nonce; with 200 it is granted.\<close>

lemma sample_after_nonce:
  assumes u: "undisturbed ready_env (replicate 16 1) ready_challenge cw" and st: "st = 200 \<or> st = 402"
  shows "\<exists>w2 sent p. redeem_challenge sample_redeem_env (sample_clock st) sample_headers (replicate 16 1) v (sample_redeem_world cw) =
      finish (redeem_grant sample_redeem_env (sample_clock st) sample_headers (replicate 16 1) None ''rp_a''
        (zeroize_secret ready_challenge)) w2 \<and>
    store_ok (rd_nonces w2) \<and> rd_challenges w2 = cw \<and>
    consume_credits sample_credit_env sample_client (credit_request sample_redeem_env sample_id (zeroize_secret ready_challenge))
      (rt_credit (sample_clock st)) = (if st = 200 then Inr \<lparr>balance_after_units = None, royalty_units_credited = None\<rparr>
        else Inl (InsufficientCredits 1 0), sent, p)"
proof -
  let ?e = sample_redeem_env and ?t = "sample_clock st" and ?h = sample_headers
  from sample_gates[OF u, of st v] obtain a where g: "redeem_gates ?e ?t ?h (replicate 16 1) v (sample_redeem_world cw) =
     (Inr (None, ''rp_a'', zeroize_secret ready_challenge), (sample_redeem_world cw)\<lparr>rd_auth := a\<rparr>)" by blast
  from sample_nonce obtain ns where ns: "check_and_set sample_store_env (''redeem:'' @ sample_id) 1100000 300
      (sample_nonce_world []) = (Inr True, ns)" "store_ok ns" by blast
  let ?w2 = "(sample_redeem_world cw)\<lparr>rd_auth := a, rd_nonces := ns\<rparr>"
  have n: "redeem_nonce_phase ?e ?t ?h sample_id ((sample_redeem_world cw)\<lparr>rd_auth := a\<rparr>) = (Inr (), ?w2)"
    using ns(1) by (simp add: redeem_nonce_phase_def step_inv NONCE_DEDUP_TTL_def)
      (simp add: sample_clock_def sample_redeem_world_def)
  have "rt_credit ?t = answering st" by (simp add: sample_clock_def)
  moreover obtain x sent p where "consume_credits sample_credit_env sample_client
      (credit_request ?e sample_id (zeroize_secret ready_challenge)) (answering st) = (x, sent, p)" by (metis prod_cases3)
  moreover have "rd_challenges ?w2 = cw" by (simp add: sample_redeem_world_def)
  ultimately show ?thesis
    using sample_consume[OF st] ns(2)
    by (intro exI[of _ ?w2] exI[of _ sent] exI[of _ p])
      (simp add: redeem_challenge_def finish_def andthen_def g n)
qed

lemma sample_redeem_402:
  assumes "undisturbed ready_env (replicate 16 1) ready_challenge cw"
  shows "\<exists>w'. redeem_challenge sample_redeem_env (sample_clock 402) sample_headers (replicate 16 1) v (sample_redeem_world cw) =
     (RedeemError (PaymentRequired None), w') \<and> store_ok (rd_nonces w')"
proof -
  from sample_after_nonce[OF assms, of 402 v] obtain w2 sent p where
    r: "redeem_challenge sample_redeem_env (sample_clock 402) sample_headers (replicate 16 1) v (sample_redeem_world cw) =
      finish (redeem_grant sample_redeem_env (sample_clock 402) sample_headers (replicate 16 1) None ''rp_a''
        (zeroize_secret ready_challenge)) w2" "store_ok (rd_nonces w2)"
    and c: "consume_credits sample_credit_env sample_client (credit_request sample_redeem_env sample_id (zeroize_secret ready_challenge))
      (rt_credit (sample_clock 402)) = (Inl (InsufficientCredits 1 0), sent, p)" by auto
  have "\<exists>w3. metered_phase sample_redeem_env (sample_clock 402) sample_headers sample_id (zeroize_secret ready_challenge) w2 =
      (Inl (RedeemError (PaymentRequired None)), w3) \<and> rd_nonces w3 = rd_nonces w2"
    by (simp add: metered_phase_def c step_inv)
  then show ?thesis
    using r by (auto simp: finish_def andthen_def redeem_grant_def Let_def)
qed

lemma sample_redeem_200:
  assumes "undisturbed ready_env (replicate 16 1) ready_challenge cw"
  shows "\<exists>w'. redeem_challenge sample_redeem_env (sample_clock 200) sample_headers (replicate 16 1) v (sample_redeem_world cw) =
     (RedeemOk redeem_ok, w') \<and> store_ok (rd_nonces w')"
proof -
  let ?e = sample_redeem_env and ?t = "sample_clock 200" and ?h = sample_headers and ?c = "zeroize_secret ready_challenge"
  from sample_after_nonce[OF assms, of 200 v] obtain w2 sent p where
    r: "redeem_challenge ?e ?t ?h (replicate 16 1) v (sample_redeem_world cw) =
      finish (redeem_grant ?e ?t ?h (replicate 16 1) None ''rp_a'' ?c) w2" "store_ok (rd_nonces w2)" "rd_challenges w2 = cw"
    and c: "consume_credits sample_credit_env sample_client (credit_request ?e sample_id ?c)
      (rt_credit ?t) = (Inr \<lparr>balance_after_units = None, royalty_units_credited = None\<rparr>, sent, p)" by auto
  from sample_put[OF assms] obtain cw' where put: "store_put ready_env (\<lambda>_. 1100000) (\<lambda>_. 1100000) (replicate 16 1) done_challenge
      cw = (Inr (), cw')" by blast
  let ?w3 = "w2\<lparr>rd_sent := rd_sent w2 @ sent\<rparr>"
  let ?w4 = "?w3\<lparr>rd_challenges := cw'\<rparr>"
  have 1: "metered_phase ?e ?t ?h sample_id ?c w2 = (Inr (), ?w3)" by (simp add: metered_phase_def c step_inv)
  have d: "redeemed_challenge (rt_now ?t) ?c = done_challenge"
    by (simp add: redeemed_challenge_def zeroize_secret_def done_challenge_def sample_clock_def) (simp add: ready_challenge_def)
  have "rt_put ?t = (\<lambda>_. 1100000)" "rt_put_insert ?t = (\<lambda>_. 1100000)" by (simp_all add: sample_clock_def)
  then have 2: "redeem_put_phase ?e ?t ?h (replicate 16 1) sample_id ?c ?w3 = (Inr (), ?w4)"
    using put r(3) by (simp add: redeem_put_phase_def step_inv d)
  have 3: "unmetered_phase ?e ?t ?h sample_id ?c ?w4 = (Inr (), ?w4)" by (simp add: unmetered_phase_def)
  obtain w5 where 4: "redeem_audit_phase ?t ?h sample_id ?c ?w4 = (Inr (), w5)" "rd_nonces w5 = rd_nonces w2"
    by (simp add: redeem_audit_phase_def audit_def)
  have 5: "redeem_cache_phase ?e ?t None ''rp_a'' w5 = (Inr (), w5)" by (simp add: redeem_cache_phase_def)
  show ?thesis
    using r(2) 4(2) by (simp add: r(1) finish_def andthen_def redeem_grant_def Let_def 1 2 3 4(1) 5 ret_def)
qed

subsection \<open>The properties at this run\<close>

lemma store_get_parsed:
  assumes "store_get env clk sid cw = (Inr (Some c), cw')"
  shows "\<exists>b. de_parse_challenge env b = Inr c"
proof -
  from assms obtain resp where "accept_challenge env resp = Inr (Some c)"
    by (auto simp: store_get_def split: prod.splits sum.splits if_splits)
  then show ?thesis
    by (auto simp: accept_challenge_def split: sum.splits do_body.splits)
qed

lemma was_read_state:
  assumes "state_laws env sid" "was_read env sid cw c cw'"
  shows "state_at env sid cw = Some (cc_state c)"
  using assms(2) unfolding was_read_def
proof (elim disjE exE)
  fix clk clk' assume g: "store_get env clk sid (snd (store_get env clk' sid cw)) = (Inr (Some c), cw')"
  have "state_at env sid (snd (store_get env clk' sid cw)) = Some (cc_state c)"
    by (rule store_get_reads_state[OF assms(1) g])
  then show ?thesis
    using store_get_state[OF assms(1), of clk' cw _ _ sid] by (metis option.distinct(1) prod.collapse)
qed (rule store_get_reads_state[OF assms(1)])

lemma ready_state_laws: "state_laws ready_env cid"
proof -
  have "cc_state (stage (stage_code s)) = s" for s by (cases s) (simp_all add: stage_def pending_challenge_def)
  then show ?thesis by (simp add: state_laws_def sample_id_valid update_of_def) (simp add: ready_env_def update_of_def)
qed

lemma was_read_parsed: "was_read env sid cw c cw' \<Longrightarrow> \<exists>b. de_parse_challenge env b = Inr c"
  unfolding was_read_def using store_get_parsed by blast

lemma sample_meanwhile: "store_ok (rd_nonces w) \<Longrightarrow> nonces_meanwhile sample_redeem_env (sample_clock a) w (sample_clock b) w"
  unfolding nonces_meanwhile_def
  by (intro conjI exI[of _ "[]"] claim_trace.finished)
    (auto simp: sample_clock_def NONCE_DEDUP_TTL_def intro!: sat_add_ge)

lemma redeem_granted_only_if_witness:
  "\<exists>w' n a. redeem_challenge sample_redeem_env (sample_clock 200) sample_headers (replicate 16 1) ''v'' (sample_redeem_world (ready_world [])) =
     (RedeemOk redeem_ok, w') \<and> decided_by (answering 200 n) a \<and> cp_status a \<in> {200, 409}"
proof -
  from sample_redeem_200[OF ready_undisturbed, of "''v''"] obtain w' where w': "redeem_challenge sample_redeem_env (sample_clock 200) sample_headers
      (replicate 16 1) ''v'' (sample_redeem_world (ready_world [])) = (RedeemOk redeem_ok, w')" by blast
  have "rt_credit (sample_clock 200) = answering 200" by (simp add: sample_clock_def)
  with redeem_granted_only_if[OF w'] w' show ?thesis by auto
qed

lemma redeem_at_most_once_witness:
  "\<exists>w1 y w3. redeem_challenge sample_redeem_env (sample_clock 200) sample_headers (replicate 16 1) ''v'' (sample_redeem_world (ready_world [])) =
      (RedeemOk redeem_ok, w1) \<and>
    redeem_challenge sample_redeem_env (sample_clock 200) sample_headers (replicate 16 1) ''v'' w1 = (y, w3) \<and>
    y \<noteq> RedeemOk redeem_ok"
proof -
  from sample_redeem_200[OF ready_undisturbed, of "''v''"] obtain w1 where w1: "redeem_challenge sample_redeem_env (sample_clock 200) sample_headers
      (replicate 16 1) ''v'' (sample_redeem_world (ready_world [])) = (RedeemOk redeem_ok, w1)" "store_ok (rd_nonces w1)" by blast
  obtain y w3 where y: "redeem_challenge sample_redeem_env (sample_clock 200) sample_headers (replicate 16 1) ''v'' w1 = (y, w3)"
    by fastforce
  have "store_laws (re_nonces sample_redeem_env)" using sample_store_laws by simp
  from redeem_at_most_once[OF this w1(1) sample_meanwhile[OF w1(2)] y] w1(1) y show ?thesis by blast
qed

lemma redeem_refused_not_retryable_witness:
  "\<exists>w1 y w3. redeem_challenge sample_redeem_env (sample_clock 402) sample_headers (replicate 16 1) ''v'' (sample_redeem_world (ready_world [])) =
      (RedeemError (PaymentRequired None), w1) \<and>
    redeem_challenge sample_redeem_env (sample_clock 200) sample_headers (replicate 16 1) ''v'' w1 = (y, w3) \<and>
    y \<noteq> RedeemOk redeem_ok"
proof -
  from sample_redeem_402[OF ready_undisturbed, of "''v''"] obtain w1 where w1: "redeem_challenge sample_redeem_env (sample_clock 402) sample_headers
      (replicate 16 1) ''v'' (sample_redeem_world (ready_world [])) = (RedeemError (PaymentRequired None), w1)" "store_ok (rd_nonces w1)" by blast
  obtain y w3 where y: "redeem_challenge sample_redeem_env (sample_clock 200) sample_headers (replicate 16 1) ''v'' w1 = (y, w3)"
    by fastforce
  have "store_laws (re_nonces sample_redeem_env)" using sample_store_laws by simp
  moreover have "RedeemError (PaymentRequired None) \<in> RedeemError ` billing_refusals" by (simp add: billing_refusals_def)
  ultimately have "y \<noteq> RedeemOk redeem_ok" using redeem_refused_not_retryable[OF _ w1(1) _ sample_meanwhile[OF w1(2)] y] by blast
  with w1(1) y show ?thesis by blast
qed

lemma redeem_granted_recorded_witness:
  "\<exists>w' d. redeem_challenge sample_redeem_env (sample_clock 200) sample_headers (replicate 16 1) ''v'' (sample_redeem_world (ready_world [])) =
      (RedeemOk redeem_ok, w') \<and>
    kv (cw_objects (rd_challenges w') (replicate 16 1)) (ch_key sample_id) = Some (SChallenge d) \<and>
    cc_state d = Verified \<and> cc_verified_at d = Some 1100"
proof -
  from sample_redeem_200[OF ready_undisturbed, of "''v''"] obtain w' where w': "redeem_challenge sample_redeem_env (sample_clock 200) sample_headers
      (replicate 16 1) ''v'' (sample_redeem_world (ready_world [])) = (RedeemOk redeem_ok, w')" by blast
  have f: "faults (cw_objects (rd_challenges (sample_redeem_world (ready_world []))) (replicate 16 1)) = []"
    by (simp add: sample_redeem_world_def ready_world_def)
  have l: "cs_laws (re_challenges sample_redeem_env) (replicate 16 1)
      (redeemed_challenge (rt_now (sample_clock 200)) (zeroize_secret c))"
    if r: "was_read (re_challenges sample_redeem_env) (replicate 16 1) (rd_challenges (sample_redeem_world (ready_world []))) c cw" for c cw
  proof -
    from was_read_state[OF _ r] have "cc_state c = ProofOkWaitingForRedeem"
      by (simp add: sample_redeem_world_def ready_state_laws) (simp add: ready_world_def stored_state_def)
    then have "c = ready_challenge"
      using was_read_parsed[OF r] by (auto simp: stage_def pending_challenge_def split: if_splits)
    then have "redeemed_challenge (rt_now (sample_clock 200)) (zeroize_secret c) = done_challenge"
      by (simp add: redeemed_challenge_def zeroize_secret_def done_challenge_def sample_clock_def) (simp add: ready_challenge_def)
    with ready_laws show ?thesis by simp
  qed
  have "cse_uuid_text (re_challenges sample_redeem_env) (replicate 16 1) = sample_id" "rt_now (sample_clock 200) = 1100"
    by (simp_all add: sample_clock_def)
  with redeem_granted_recorded[OF w' f l] w' show ?thesis by auto
qed

lemma redeem_needs_tenant_witness:
  "fst (redeem_challenge (sample_redeem_env\<lparr>re_challenges := sample_cs_env\<rparr>) (sample_clock 200) sample_headers
     (replicate 16 1) ''v'' (sample_redeem_world (ready_world []))) \<noteq> RedeemOk redeem_ok \<and> cc_tenant_id submitted_challenge = None"
proof -
  have "cc_tenant_id submitted_challenge = None" "CHR ''/'' \<in> set (cc_origin submitted_challenge)"
    by (simp_all add: submitted_challenge_def sample_challenge_def)
  note s = this
  have r: "c = submitted_challenge" if "was_read sample_cs_env sid cw0 c cw" for sid cw0 c cw
    using was_read_parsed[OF that] by (auto simp: sample_cs_env_def)
  have m: "origin_is_metered (sample_redeem_env\<lparr>re_challenges := e\<rparr>) o'" for e o'
    by (simp add: origin_is_metered_def) (simp add: sample_redeem_env_def)
  have "fst (redeem_challenge (sample_redeem_env\<lparr>re_challenges := sample_cs_env\<rparr>) (sample_clock 200) sample_headers
     (replicate 16 1) ''v'' (sample_redeem_world (ready_world []))) \<noteq> RedeemOk redeem_ok"
    by (rule redeem_needs_tenant) (use r s m in \<open>auto dest!: r\<close>)
  with s(1) show ?thesis by simp
qed

end
