(* ===== verification/Secrets.thy ===== *)
theory Secrets imports Do_Runtime "HOL-Library.List_Lexorder" "HOL-Library.Char_ord" begin

text \<open>
  \<open>src/utils/retry.rs\<close>, \<open>src/security/secret_fingerprint.rs\<close> and
  \<open>src/security/secret_versions.rs\<close>: reading a secret with bounded retries, the fingerprints of
  secrets, and the line that tells which slot of a rotating secret served a request.  SHA-256 is
  an argument.
\<close>

subsection \<open>Reading a secret\<close>

datatype secret_answer = SecretError worker_error | SecretValue "string option"

definition SECRET_READ_MAX_ATTEMPTS :: nat where "SECRET_READ_MAX_ATTEMPTS = 3"
definition SECRET_READ_INITIAL_BACKOFF_MS :: u64 where "SECRET_READ_INITIAL_BACKOFF_MS = 100"

definition exhausted_error :: "string \<Rightarrow> worker_error" where
  "exhausted_error binding = RustError (''secret read for '' @ binding @ '' exhausted '' @
     show_nat SECRET_READ_MAX_ATTEMPTS @ '' attempts with no recorded error'')"

text \<open>\<open>answers\<close> gives the outcome of each attempt; the result comes with the delays that were slept.\<close>

fun secret_loop ::
    "string \<Rightarrow> (nat \<Rightarrow> secret_answer) \<Rightarrow> nat list \<Rightarrow> u64 \<Rightarrow> worker_error option \<Rightarrow>
     (worker_error + string option) \<times> u64 list" where
  "secret_loop binding answers [] backoff_ms last_err =
     (Inl (case last_err of Some e \<Rightarrow> e | None \<Rightarrow> exhausted_error binding), [])"
| "secret_loop binding answers (attempt # rest) backoff_ms last_err =
     (case answers attempt of
        SecretValue v \<Rightarrow> (Inr v, [])
      | SecretError e \<Rightarrow>
          if attempt < SECRET_READ_MAX_ATTEMPTS
          then (let (r, delays) = secret_loop binding answers rest (sat_mul backoff_ms 2) (Some e)
                in (r, backoff_ms # delays))
          else secret_loop binding answers rest backoff_ms (Some e))"

definition get_with_retry ::
    "string \<Rightarrow> (nat \<Rightarrow> secret_answer) \<Rightarrow> (worker_error + string option) \<times> u64 list" where
  "get_with_retry binding answers =
     secret_loop binding answers [1 ..< Suc SECRET_READ_MAX_ATTEMPTS] SECRET_READ_INITIAL_BACKOFF_MS None"

text \<open>A binding of the Secrets Store; a missing binding is answered at once.\<close>

datatype secret_binding = Unbound worker_error | Bound "nat \<Rightarrow> secret_answer"

definition read_secret_with_retry ::
    "string \<Rightarrow> secret_binding \<Rightarrow> (worker_error + string option) \<times> u64 list" where
  "read_secret_with_retry binding store =
     (case store of Unbound e \<Rightarrow> (Inl e, []) | Bound answers \<Rightarrow> get_with_retry binding answers)"

lemma get_with_retry_cases:
  "get_with_retry binding answers =
     (case (answers 1, answers 2, answers 3) of
        (SecretValue v, _, _) \<Rightarrow> (Inr v, [])
      | (SecretError _, SecretValue v, _) \<Rightarrow> (Inr v, [100])
      | (SecretError _, SecretError _, SecretValue v) \<Rightarrow> (Inr v, [100, 200])
      | (SecretError _, SecretError _, SecretError e) \<Rightarrow> (Inl e, [100, 200]))"
proof -
  have "[1 ..< Suc SECRET_READ_MAX_ATTEMPTS] = [1, 2, 3]" by code_simp
  moreover have "sat_mul (100 :: u64) 2 = 200" by (simp add: sat_mul_def)
  ultimately show ?thesis
    by (simp add: get_with_retry_def SECRET_READ_MAX_ATTEMPTS_def SECRET_READ_INITIAL_BACKOFF_MS_def
        split: secret_answer.split)
qed

subsection \<open>Fingerprints\<close>

definition FINGERPRINT_UNSET :: string where "FINGERPRINT_UNSET = ''000000''"
definition FINGERPRINT8_UNSET :: string where "FINGERPRINT8_UNSET = ''00000000''"

definition fingerprint6_bytes :: "(bytes \<Rightarrow> bytes) \<Rightarrow> bytes \<Rightarrow> string" where
  "fingerprint6_bytes sha256 bs =
     (if bs = [] then FINGERPRINT_UNSET
      else case sha256 bs of
             a # b # c # _ \<Rightarrow> hex_encode [a, b, c]
           | _ \<Rightarrow> FINGERPRINT_UNSET)"

definition fingerprint6_str :: "(bytes \<Rightarrow> bytes) \<Rightarrow> string option \<Rightarrow> string" where
  "fingerprint6_str sha256 v =
     (case v of
        Some s \<Rightarrow> if s \<noteq> [] then fingerprint6_bytes sha256 (string_bytes s) else FINGERPRINT_UNSET
      | None \<Rightarrow> FINGERPRINT_UNSET)"

definition fingerprint8_bytes :: "(bytes \<Rightarrow> bytes) \<Rightarrow> bytes \<Rightarrow> string" where
  "fingerprint8_bytes sha256 bs =
     (if bs = [] then FINGERPRINT8_UNSET
      else case sha256 bs of
             a # b # c # d # _ \<Rightarrow> hex_encode [a, b, c, d]
           | _ \<Rightarrow> FINGERPRINT8_UNSET)"

definition fingerprint8_str :: "(bytes \<Rightarrow> bytes) \<Rightarrow> string option \<Rightarrow> string" where
  "fingerprint8_str sha256 v =
     (case v of
        Some s \<Rightarrow> if s \<noteq> [] then fingerprint8_bytes sha256 (string_bytes s) else FINGERPRINT8_UNSET
      | None \<Rightarrow> FINGERPRINT8_UNSET)"

lemma fingerprint6_length: "length (fingerprint6_str sha256 v) = 6"
  by (auto simp: fingerprint6_str_def fingerprint6_bytes_def FINGERPRINT_UNSET_def hex_encode_def
      split: option.splits list.splits)

lemma fingerprint8_length: "length (fingerprint8_str sha256 v) = 8"
  by (auto simp: fingerprint8_str_def fingerprint8_bytes_def FINGERPRINT8_UNSET_def hex_encode_def
      split: option.splits list.splits)

subsection \<open>The slots of a rotating secret\<close>

definition role_for_env :: "string \<Rightarrow> string \<Rightarrow> string" where
  "role_for_env role environment =
     (if environment = ''sandbox'' \<or> environment = ''development'' then role @ ''_SBX'' else role @ ''_PROD'')"

definition mek_role_for_env :: "string \<Rightarrow> string" where "mek_role_for_env = role_for_env ''VERIFIER_MEK''"
definition hosted_mek_role_for_env :: "string \<Rightarrow> string" where "hosted_mek_role_for_env = role_for_env ''HOSTED_MEK''"
definition verifier_hmac_role_for_env :: "string \<Rightarrow> string" where "verifier_hmac_role_for_env = role_for_env ''VERIFIER_HMAC''"
definition session_token_role_for_env :: "string \<Rightarrow> string" where "session_token_role_for_env = role_for_env ''SESSION_TOKEN''"
definition ip_hash_salt_role_for_env :: "string \<Rightarrow> string" where "ip_hash_salt_role_for_env = role_for_env ''IP_HASH_SALT''"

datatype rotation_slot = Current | Previous

fun used_label :: "rotation_slot \<Rightarrow> string \<Rightarrow> string" where
  "used_label Current role = role"
| "used_label Previous role = role @ ''_PREVIOUS''"

text \<open>A \<open>BTreeMap<String, String>\<close> is its list of entries in the order of the keys.\<close>

fun btree_insert :: "string \<Rightarrow> string \<Rightarrow> (string \<times> string) list \<Rightarrow> (string \<times> string) list" where
  "btree_insert k v [] = [(k, v)]"
| "btree_insert k v ((k', v') # m) =
     (if k < k' then (k, v) # (k', v') # m
      else if k = k' then (k, v) # m
      else (k', v') # btree_insert k v m)"

record secret_version_line =
  sv_versions :: "(string \<times> string) list"
  sv_used :: "string option"
  sv_used_role :: "string option"

definition sv_new :: secret_version_line where
  "sv_new = \<lparr>sv_versions = [], sv_used = None, sv_used_role = None\<rparr>"

definition add_slot :: "string \<Rightarrow> string \<Rightarrow> string \<Rightarrow> secret_version_line \<Rightarrow> secret_version_line" where
  "add_slot role current_fingerprint previous_fingerprint l =
     l\<lparr>sv_versions := btree_insert (role @ ''_PREVIOUS'') previous_fingerprint
          (btree_insert role current_fingerprint (sv_versions l))\<rparr>"

definition set_used :: "string \<Rightarrow> secret_version_line \<Rightarrow> secret_version_line" where
  "set_used used_role l = l\<lparr>sv_used_role := Some used_role, sv_used := map_of (sv_versions l) used_role\<rparr>"

definition single :: "string \<Rightarrow> string \<Rightarrow> string \<Rightarrow> string option \<Rightarrow> secret_version_line" where
  "single role current_fingerprint previous_fingerprint used_role =
     (let l = add_slot role current_fingerprint previous_fingerprint sv_new
      in case used_role of Some u \<Rightarrow> set_used u l | None \<Rightarrow> l)"

definition single_for_slot :: "string \<Rightarrow> string \<Rightarrow> string \<Rightarrow> rotation_slot option \<Rightarrow> secret_version_line" where
  "single_for_slot role current_fingerprint previous_fingerprint used =
     single role current_fingerprint previous_fingerprint (map_option (\<lambda>s. used_label s role) used)"

definition add_slot_used ::
    "string \<Rightarrow> string \<Rightarrow> string \<Rightarrow> rotation_slot option \<Rightarrow> secret_version_line \<Rightarrow> secret_version_line" where
  "add_slot_used role current_fingerprint previous_fingerprint used l =
     (let l' = add_slot role current_fingerprint previous_fingerprint l
      in case used of Some slot \<Rightarrow> set_used (used_label slot role) l' | None \<Rightarrow> l')"

definition header_value :: "secret_version_line \<Rightarrow> string" where
  "header_value l = (case sv_used l of Some v \<Rightarrow> v | None \<Rightarrow> FINGERPRINT_UNSET)"

definition quoted :: "string \<Rightarrow> string" where "quoted s = [CHR 0x22] @ s @ [CHR 0x22]"

fun versions_entries :: "bool \<Rightarrow> (string \<times> string) list \<Rightarrow> string" where
  "versions_entries first [] = []"
| "versions_entries first ((k, v) # m) =
     (if first then [] else '','') @ quoted k @ '':'' @ quoted v @ versions_entries False m"

definition versions_json :: "secret_version_line \<Rightarrow> string" where
  "versions_json l = [CHR 0x7B] @ versions_entries True (sv_versions l) @ [CHR 0x7D]"

lemma map_of_btree_insert: "map_of (btree_insert k v m) = (map_of m)(k \<mapsto> v)"
  by (induction k v m rule: btree_insert.induct) (auto simp: fun_eq_iff)

lemma btree_insert_sorted: "sorted_wrt (<) (map fst m) \<Longrightarrow> sorted_wrt (<) (map fst (btree_insert k v m))"
proof (induction k v m rule: btree_insert.induct)
  case (2 k v k' v' m)
  have sub: "set (map fst (btree_insert k v m)) \<subseteq> insert k (set (map fst m))"
    by (induction k v m rule: btree_insert.induct) auto
  have "k' < x" if "k' < k" "x \<in> set (map fst (btree_insert k v m))" for x
  proof -
    from sub that(2) have "x = k \<or> x \<in> set (map fst m)" by blast
    with that(1) 2(2) show ?thesis by auto
  qed
  moreover have "k' < k" if "\<not> k < k'" "k \<noteq> k'" using that by auto
  ultimately show ?case using 2 by (auto intro: less_trans)
qed simp

text \<open>The header names the fingerprint of the slot that was used, for whatever else the line holds.\<close>

lemma header_names_slot:
  "header_value (add_slot_used role current previous (Some slot) l) =
     (case slot of Current \<Rightarrow> current | Previous \<Rightarrow> previous)"
  by (cases slot) (simp_all add: header_value_def add_slot_used_def add_slot_def set_used_def map_of_btree_insert)

lemma single_for_slot_header:
  "header_value (single_for_slot role current previous used) =
     (case used of None \<Rightarrow> FINGERPRINT_UNSET | Some Current \<Rightarrow> current | Some Previous \<Rightarrow> previous)"
  by (auto simp: header_value_def single_for_slot_def single_def add_slot_def set_used_def sv_new_def map_of_btree_insert
      split: option.split rotation_slot.split)

end
