(* ===== verification/Hosted_Crypto.thy ===== *)
theory Hosted_Crypto imports Secrets begin

text \<open>
  \<open>src/hosted/encryption.rs\<close>: encryption at rest with the hosted master key (MEK), its caches and
  the fall back to the previous key.  AES-256-GCM, base64url and UTF-8 decoding are arguments.
\<close>

datatype encryption_error =
    InvalidKey string
  | EncryptionFailed string
  | DecryptionFailed string
  | SecretsStoreFailed string
  | InvalidFormat string

fun encryption_error_display :: "encryption_error \<Rightarrow> string" where
  "encryption_error_display (InvalidKey m) = ''Invalid encryption key: '' @ m"
| "encryption_error_display (EncryptionFailed m) = ''Encryption failed: '' @ m"
| "encryption_error_display (DecryptionFailed m) = ''Decryption failed: '' @ m"
| "encryption_error_display (SecretsStoreFailed m) = ''Secrets store error: '' @ m"
| "encryption_error_display (InvalidFormat m) = ''Invalid format: '' @ m"

text \<open>
  \<open>hc_seal\<close> and \<open>hc_open\<close> take key, IV, additional data and text; \<open>hc_utf8\<close> is
  \<open>String::from_utf8\<close>, and \<open>hc_debug\<close> the debug form of a worker error.
\<close>

record hosted_crypto =
  hc_seal :: "bytes \<Rightarrow> bytes \<Rightarrow> bytes \<Rightarrow> bytes \<Rightarrow> string + bytes"
  hc_open :: "bytes \<Rightarrow> bytes \<Rightarrow> bytes \<Rightarrow> bytes \<Rightarrow> string + bytes"
  hc_encode :: "bytes \<Rightarrow> string"
  hc_decode :: "string \<Rightarrow> string + bytes"
  hc_utf8 :: "bytes \<Rightarrow> string option"
  hc_sha256 :: "bytes \<Rightarrow> bytes"
  hc_debug :: "worker_error \<Rightarrow> string"

text \<open>The two process-wide \<open>OnceLock\<close> caches.\<close>

record mek_caches =
  mk_primary :: "bytes option"
  mk_previous :: "bytes option"

definition mek_cache_populated :: "mek_caches \<Rightarrow> bool" where
  "mek_cache_populated m \<longleftrightarrow> mk_primary m \<noteq> None"

text \<open>\<open>OnceLock::set\<close>.\<close>

definition once_set :: "'a \<Rightarrow> 'a option \<Rightarrow> 'a option" where
  "once_set v c = (case c of None \<Rightarrow> Some v | Some _ \<Rightarrow> c)"

definition decode_and_cache ::
    "hosted_crypto \<Rightarrow> string \<Rightarrow> bytes option \<Rightarrow> (string \<times> bool) \<times> bytes option" where
  "decode_and_cache env raw cache =
     (let fingerprint = fingerprint6_str (hc_sha256 env) (Some raw) in
      case hc_decode env raw of
        Inl _ \<Rightarrow> ((fingerprint, False), cache)
      | Inr mek \<Rightarrow>
          if length mek \<noteq> 32 then ((fingerprint, False), cache)
          else ((fingerprint, True), once_set mek cache))"

record mek_preload =
  mp_primary_fingerprint :: string
  mp_previous_fingerprint :: string
  mp_primary_loaded :: bool

definition preload_slot ::
    "hosted_crypto \<Rightarrow> string \<Rightarrow> secret_binding \<Rightarrow> bytes option \<Rightarrow> (string \<times> bool) option \<times> bytes option" where
  "preload_slot env binding store cache =
     (case store of
        Unbound _ \<Rightarrow> (None, cache)
      | Bound answers \<Rightarrow>
          (case fst (get_with_retry binding answers) of
             Inr (Some s) \<Rightarrow>
               if s \<noteq> [] then (let (r, c) = decode_and_cache env s cache in (Some r, c)) else (None, cache)
           | _ \<Rightarrow> (None, cache)))"

definition preload_hosted_mek ::
    "hosted_crypto \<Rightarrow> secret_binding \<Rightarrow> secret_binding \<Rightarrow> mek_caches \<Rightarrow> mek_preload \<times> mek_caches" where
  "preload_hosted_mek env primary previous m =
     (let (p, c1) = preload_slot env ''HOSTED_MEK'' primary (mk_primary m);
          (q, c2) = preload_slot env ''HOSTED_MEK_PREVIOUS'' previous (mk_previous m);
          (primary_fingerprint, primary_loaded) = (case p of Some x \<Rightarrow> x | None \<Rightarrow> (FINGERPRINT_UNSET, False));
          (previous_fingerprint, _) = (case q of Some x \<Rightarrow> x | None \<Rightarrow> (FINGERPRINT_UNSET, False))
      in (\<lparr>mp_primary_fingerprint = primary_fingerprint, mp_previous_fingerprint = previous_fingerprint,
           mp_primary_loaded = primary_loaded\<rparr>, \<lparr>mk_primary = c1, mk_previous = c2\<rparr>))"

definition CODE_VERIFIER_AAD :: bytes where
  "CODE_VERIFIER_AAD = string_bytes ''provii-verifier:code_verifier:v1''"

definition mek_length_error :: "bytes \<Rightarrow> string" where
  "mek_length_error mek = ''MEK must be 32 bytes, got '' @ show_nat (length mek)"

definition get_mek_from_secrets ::
    "hosted_crypto \<Rightarrow> secret_binding \<Rightarrow> mek_caches \<Rightarrow> (encryption_error + bytes) \<times> mek_caches" where
  "get_mek_from_secrets env store m =
     (case mk_primary m of
        Some mek \<Rightarrow> (Inr mek, m)
      | None \<Rightarrow>
          (case store of
             Unbound e \<Rightarrow>
               (Inl (SecretsStoreFailed (''HOSTED_MEK binding not configured: '' @ hc_debug env e)), m)
           | Bound answers \<Rightarrow>
               (case fst (get_with_retry ''HOSTED_MEK'' answers) of
                  Inl e \<Rightarrow>
                    (Inl (SecretsStoreFailed (''Failed to get HOSTED_MEK from Secrets Store: '' @ hc_debug env e)), m)
                | Inr None \<Rightarrow> (Inl (SecretsStoreFailed ''HOSTED_MEK secret not found in Secrets Store''), m)
                | Inr (Some mek_b64) \<Rightarrow>
                    (case hc_decode env mek_b64 of
                       Inl e \<Rightarrow> (Inl (SecretsStoreFailed (''Invalid MEK encoding: '' @ e)), m)
                     | Inr mek \<Rightarrow>
                         if length mek \<noteq> 32 then (Inl (SecretsStoreFailed (mek_length_error mek)), m)
                         else (Inr mek, m\<lparr>mk_primary := once_set mek (mk_primary m)\<rparr>)))))"

definition get_mek_secondary_from_secrets ::
    "hosted_crypto \<Rightarrow> secret_binding \<Rightarrow> mek_caches \<Rightarrow> bytes option \<times> mek_caches" where
  "get_mek_secondary_from_secrets env store m =
     (case mk_previous m of
        Some mek \<Rightarrow> (Some mek, m)
      | None \<Rightarrow>
          (case store of
             Unbound _ \<Rightarrow> (None, m)
           | Bound answers \<Rightarrow>
               (case fst (get_with_retry ''HOSTED_MEK_PREVIOUS'' answers) of
                  Inr (Some mek_b64) \<Rightarrow>
                    (case hc_decode env mek_b64 of
                       Inl _ \<Rightarrow> (None, m)
                     | Inr mek \<Rightarrow>
                         if length mek \<noteq> 32 then (None, m)
                         else (Some mek, m\<lparr>mk_previous := once_set mek (mk_previous m)\<rparr>))
                | _ \<Rightarrow> (None, m))))"

text \<open>\<open>iv\<close> is what the random generator delivers, an error or 12 bytes.\<close>

definition encrypt_with_mek ::
    "hosted_crypto \<Rightarrow> string + bytes \<Rightarrow> bytes \<Rightarrow> string \<Rightarrow> bytes \<Rightarrow> encryption_error + string" where
  "encrypt_with_mek env iv mek plaintext aad =
     (if length mek \<noteq> 32 then Inl (InvalidKey (mek_length_error mek))
      else case iv of
             Inl e \<Rightarrow> Inl (EncryptionFailed (''CSPRNG IV generation failed: '' @ e))
           | Inr iv_bytes \<Rightarrow>
               (case hc_seal env mek iv_bytes aad (string_bytes plaintext) of
                  Inl e \<Rightarrow> Inl (EncryptionFailed (''AES-GCM encryption failed: '' @ e))
                | Inr ciphertext \<Rightarrow> Inr (hc_encode env (iv_bytes @ ciphertext))))"

definition decrypt_with_mek ::
    "hosted_crypto \<Rightarrow> bytes \<Rightarrow> string \<Rightarrow> bytes \<Rightarrow> encryption_error + string" where
  "decrypt_with_mek env mek encrypted_b64 aad =
     (if length mek \<noteq> 32 then Inl (InvalidKey (mek_length_error mek))
      else case hc_decode env encrypted_b64 of
             Inl e \<Rightarrow> Inl (InvalidFormat (''Invalid base64url encoding: '' @ e))
           | Inr encrypted_data \<Rightarrow>
               if length encrypted_data < 28
               then Inl (InvalidFormat (''Encrypted data too short: '' @ show_nat (length encrypted_data) @
                      '' bytes (minimum 28)''))
               else (case hc_open env mek (take 12 encrypted_data) aad (drop 12 encrypted_data) of
                       Inl e \<Rightarrow> Inl (DecryptionFailed (''AES-GCM decryption failed: '' @ e))
                     | Inr plaintext_bytes \<Rightarrow>
                         (case hc_utf8 env plaintext_bytes of
                            Some s \<Rightarrow> Inr s
                          | None \<Rightarrow> Inl (DecryptionFailed ''Invalid UTF-8 in decrypted data''))))"

text \<open>
  The decryption of \<open>get_session_kv_tracked\<close> and \<open>decrypt_code_verifier_tracked\<close>: with the
  primary key, then with the previous one.
\<close>

definition decrypt_tracked ::
    "hosted_crypto \<Rightarrow> secret_binding \<Rightarrow> bytes \<Rightarrow> string \<Rightarrow> bytes \<Rightarrow> mek_caches \<Rightarrow>
     (encryption_error + string \<times> rotation_slot) \<times> mek_caches" where
  "decrypt_tracked env previous mek encrypted_b64 aad m =
     (case decrypt_with_mek env mek encrypted_b64 aad of
        Inr plaintext \<Rightarrow> (Inr (plaintext, Current), m)
      | Inl _ \<Rightarrow>
          (case get_mek_secondary_from_secrets env previous m of
             (None, m') \<Rightarrow>
               (Inl (DecryptionFailed ''Primary decryption failed and no secondary MEK available''), m')
           | (Some secondary_mek, m') \<Rightarrow>
               (case decrypt_with_mek env secondary_mek encrypted_b64 aad of
                  Inr plaintext \<Rightarrow> (Inr (plaintext, Previous), m')
                | Inl _ \<Rightarrow> (Inl (DecryptionFailed ''Both primary and secondary MEK decryption failed''), m'))))"

definition decrypt_code_verifier_tracked ::
    "hosted_crypto \<Rightarrow> secret_binding \<Rightarrow> secret_binding \<Rightarrow> string \<Rightarrow> mek_caches \<Rightarrow>
     (encryption_error + string \<times> rotation_slot) \<times> mek_caches" where
  "decrypt_code_verifier_tracked env primary previous encrypted_b64 m =
     (case get_mek_from_secrets env primary m of
        (Inl e, m') \<Rightarrow> (Inl e, m')
      | (Inr mek, m') \<Rightarrow> decrypt_tracked env previous mek encrypted_b64 CODE_VERIFIER_AAD m')"

subsection \<open>Round trips\<close>

text \<open>What the crates document: a sealed text opens under its key, IV and additional data and is 16
  bytes longer, base64url decodes what it encodes, and a \<open>str\<close> is valid UTF-8.\<close>

definition crypto_laws :: "hosted_crypto \<Rightarrow> bool" where
  "crypto_laws env \<longleftrightarrow>
     (\<forall>k iv aad m ct. hc_seal env k iv aad m = Inr ct \<longrightarrow> hc_open env k iv aad ct = Inr m \<and> length ct = length m + 16) \<and>
     (\<forall>b. hc_decode env (hc_encode env b) = Inr b) \<and>
     (\<forall>s. hc_utf8 env (string_bytes s) = Some s)"

lemma decrypt_encrypt:
  assumes "crypto_laws env" "length iv = 12" "encrypt_with_mek env (Inr iv) mek p aad = Inr c"
  shows "decrypt_with_mek env mek c aad = Inr p \<and> length mek = 32"
proof -
  from assms(3) obtain ct where ct: "length mek = 32" "hc_seal env mek iv aad (string_bytes p) = Inr ct"
    "c = hc_encode env (iv @ ct)"
    by (auto simp: encrypt_with_mek_def split: if_splits sum.splits)
  from assms(1) ct(2) have "hc_open env mek iv aad ct = Inr (string_bytes p)" "length ct = length (string_bytes p) + 16"
    by (auto simp: crypto_laws_def)
  moreover have "hc_decode env (hc_encode env (iv @ ct)) = Inr (iv @ ct)" "hc_utf8 env (string_bytes p) = Some p"
    using assms(1) by (auto simp: crypto_laws_def)
  ultimately show ?thesis using assms(2) ct by (simp add: decrypt_with_mek_def)
qed

lemma once_set_Some [simp]: "once_set v (Some w) = Some w" "once_set v None = Some v"
  by (simp_all add: once_set_def)

text \<open>A key in a cache is never replaced.\<close>

lemma mek_caches_stable:
  "get_mek_from_secrets env st m = (r, m') \<Longrightarrow> mk_primary m = Some k \<Longrightarrow> m' = m \<and> r = Inr k"
  "get_mek_secondary_from_secrets env st m = (q, m') \<Longrightarrow> mk_previous m = Some k \<Longrightarrow> m' = m \<and> q = Some k"
  by (auto simp: get_mek_from_secrets_def get_mek_secondary_from_secrets_def)

lemma decrypt_rotated:
  assumes "crypto_laws env" "length iv = 12" "encrypt_with_mek env (Inr iv) old p aad = Inr c"
    and "\<And>q. decrypt_with_mek env new c aad \<noteq> Inr q" "mk_previous m = Some old"
  shows "decrypt_tracked env st new c aad m = (Inr (p, Previous), m)"
proof -
  have "\<exists>e. decrypt_with_mek env new c aad = Inl e" using assms(4) by (cases "decrypt_with_mek env new c aad") auto
  moreover have "decrypt_with_mek env old c aad = Inr p" using decrypt_encrypt[OF assms(1-3)] by blast
  ultimately show ?thesis
    using assms(5) by (auto simp: decrypt_tracked_def get_mek_secondary_from_secrets_def)
qed

lemma decrypt_current:
  assumes "crypto_laws env" "length iv = 12" "encrypt_with_mek env (Inr iv) mek p aad = Inr c"
  shows "decrypt_tracked env st mek c aad m = (Inr (p, Current), m)"
  using decrypt_encrypt[OF assms] by (simp add: decrypt_tracked_def)

text \<open>A code verifier survives a rotation of the master key: what was encrypted under a key decrypts
  as the current slot while that key is the primary one, and as the previous slot once it has become
  the secondary one and the new primary key cannot open it; the cached keys do not change.\<close>

theorem code_verifier_rotation:
  assumes "crypto_laws env" "length iv = 12" "encrypt_with_mek env (Inr iv) old p CODE_VERIFIER_AAD = Inr c"
    and "\<And>q. decrypt_with_mek env new c CODE_VERIFIER_AAD \<noteq> Inr q"
  shows "decrypt_code_verifier_tracked env st1 st2 c \<lparr>mk_primary = Some old, mk_previous = k\<rparr> =
      (Inr (p, Current), \<lparr>mk_primary = Some old, mk_previous = k\<rparr>) \<and>
    decrypt_code_verifier_tracked env st1 st2 c \<lparr>mk_primary = Some new, mk_previous = Some old\<rparr> =
      (Inr (p, Previous), \<lparr>mk_primary = Some new, mk_previous = Some old\<rparr>)"
  using decrypt_current[OF assms(1-3)] decrypt_rotated[OF assms]
  by (simp add: decrypt_code_verifier_tracked_def get_mek_from_secrets_def)

text \<open>A sample instance: sealing prepends the key to the text and 16 zero bytes.\<close>

definition sample_encode :: "bytes \<Rightarrow> string" where "sample_encode b = map (\<lambda>x. char_of (unat x)) b"

definition sample_decode :: "string \<Rightarrow> bytes" where "sample_decode s = string_bytes s"

lemma sample_decode_encode [simp]: "sample_decode (sample_encode b) = b"
proof -
  have "(of_nat (of_char (char_of (unat x) :: char)) :: u8) = x" for x :: u8
  proof -
    have "unat x < 256" using unsigned_less[of x] by simp
    then show ?thesis by simp
  qed
  then show ?thesis by (simp add: sample_decode_def sample_encode_def string_bytes_def map_idI)
qed

definition sample_crypto :: hosted_crypto where
  "sample_crypto = \<lparr>hc_seal = (\<lambda>k iv aad m. Inr (take 16 (k @ replicate 16 0) @ m)),
     hc_open = (\<lambda>k iv aad c. if take 16 c = take 16 (k @ replicate 16 0) then Inr (drop 16 c) else Inl ''tag''),
     hc_encode = sample_encode, hc_decode = (\<lambda>s. Inr (sample_decode s)),
     hc_utf8 = (\<lambda>b. Some (sample_encode b)), hc_sha256 = (\<lambda>b. b), hc_debug = (\<lambda>_. [])\<rparr>"

lemma sample_encode_string [simp]: "sample_encode (string_bytes s) = s"
  by (metis sample_decode_def sample_decode_encode string_bytes_inj)

lemma sample_crypto_laws: "crypto_laws sample_crypto"
  by (auto simp: crypto_laws_def sample_crypto_def)

lemma code_verifier_rotation_witness:
  "\<exists>c. encrypt_with_mek sample_crypto (Inr (replicate 12 9)) (replicate 32 1) ''verifier'' CODE_VERIFIER_AAD = Inr c \<and>
    fst (decrypt_code_verifier_tracked sample_crypto (Bound (\<lambda>_. SecretValue None)) (Bound (\<lambda>_. SecretValue None)) c
      \<lparr>mk_primary = Some (replicate 32 2), mk_previous = Some (replicate 32 1)\<rparr>) = Inr (''verifier'', Previous)"
proof -
  let ?c = "sample_encode (replicate 12 9 @ replicate 16 1 @ string_bytes ''verifier'')"
  have e: "encrypt_with_mek sample_crypto (Inr (replicate 12 9)) (replicate 32 1) ''verifier'' CODE_VERIFIER_AAD = Inr ?c"
    by (simp add: encrypt_with_mek_def sample_crypto_def)
  have "decrypt_with_mek sample_crypto (replicate 32 2) ?c CODE_VERIFIER_AAD \<noteq> Inr q" for q
    by (simp add: decrypt_with_mek_def sample_crypto_def eval_nat_numeral)
  from code_verifier_rotation[OF sample_crypto_laws _ e this] e show ?thesis by (intro exI[of _ ?c]) simp
qed

end
