(* ===== verification/Envelope.thy ===== *)
theory Envelope imports Api_Error Hosted_Crypto begin

text \<open>
  \<open>src/security/envelope_encryption.rs\<close>: the HMAC secret of a client is sealed under a data key of
  its own, and the data key under the master key of the Worker.  AES-GCM and base64url are the
  arguments of \<^typ>\<open>hosted_crypto\<close>; the error of \<open>hc_seal\<close> and \<open>hc_open\<close> is the text of whichever call
  of WebCrypto failed.
\<close>

definition ENCRYPTION_VERSION_V1 :: u8 where "ENCRYPTION_VERSION_V1 = 1"

definition AAD_HMAC_SECRET :: bytes where "AAD_HMAC_SECRET = string_bytes ''provii-hmac-secret-v1''"

definition AAD_DEK :: bytes where "AAD_DEK = string_bytes ''provii-dek-v1''"

definition AES_256_KEY_SIZE :: nat where "AES_256_KEY_SIZE = 32"

definition GCM_IV_SIZE :: nat where "GCM_IV_SIZE = 12"

definition GCM_TAG_SIZE :: nat where "GCM_TAG_SIZE = 16"

record encrypted_secret =
  es_encrypted_secret :: string
  es_encrypted_dek :: string
  es_version :: u8

definition check_aes_sizes :: "bytes \<Rightarrow> bytes \<Rightarrow> unit api_result" where
  "check_aes_sizes key iv =
     (if length key \<noteq> AES_256_KEY_SIZE then
        Inl (Internal (''Invalid key size: expected '' @ show_nat AES_256_KEY_SIZE @ '', got '' @ show_nat (length key)))
      else if length iv \<noteq> GCM_IV_SIZE then
        Inl (Internal (''Invalid IV size: expected '' @ show_nat GCM_IV_SIZE @ '', got '' @ show_nat (length iv)))
      else Inr ())"

definition aes_256_gcm_encrypt ::
    "hosted_crypto \<Rightarrow> bytes \<Rightarrow> bytes \<Rightarrow> bytes \<Rightarrow> bytes \<Rightarrow> bytes api_result" where
  "aes_256_gcm_encrypt env key iv plaintext aad =
     (case check_aes_sizes key iv of
        Inl e \<Rightarrow> Inl e
      | Inr _ \<Rightarrow>
          (case hc_seal env key iv aad plaintext of
             Inl e \<Rightarrow> Inl (Internal e)
           | Inr ciphertext \<Rightarrow> Inr ciphertext))"

definition aes_256_gcm_decrypt ::
    "hosted_crypto \<Rightarrow> bytes \<Rightarrow> bytes \<Rightarrow> bytes \<Rightarrow> bytes \<Rightarrow> bytes api_result" where
  "aes_256_gcm_decrypt env key iv ciphertext aad =
     (case check_aes_sizes key iv of
        Inl e \<Rightarrow> Inl e
      | Inr _ \<Rightarrow>
          (case hc_open env key iv aad ciphertext of
             Inl e \<Rightarrow> Inl (Internal e)
           | Inr plaintext \<Rightarrow> Inr plaintext))"

text \<open>What the random generator delivers for the data key and the two IVs, in the order of the calls.\<close>

record envelope_random =
  er_dek :: "bytes api_result"
  er_secret_iv :: "bytes api_result"
  er_dek_iv :: "bytes api_result"

definition encrypt_hmac_secret ::
    "hosted_crypto \<Rightarrow> envelope_random \<Rightarrow> bytes \<Rightarrow> bytes \<Rightarrow> encrypted_secret api_result" where
  "encrypt_hmac_secret env rnd plaintext_secret mek =
     (case er_dek rnd of
        Inl e \<Rightarrow> Inl e
      | Inr dek \<Rightarrow>
     (case er_secret_iv rnd of
        Inl e \<Rightarrow> Inl e
      | Inr secret_iv \<Rightarrow>
     (case aes_256_gcm_encrypt env dek secret_iv plaintext_secret AAD_HMAC_SECRET of
        Inl e \<Rightarrow> Inl e
      | Inr secret_ciphertext \<Rightarrow>
     (case er_dek_iv rnd of
        Inl e \<Rightarrow> Inl e
      | Inr dek_iv \<Rightarrow>
     (case aes_256_gcm_encrypt env mek dek_iv dek AAD_DEK of
        Inl e \<Rightarrow> Inl e
      | Inr dek_ciphertext \<Rightarrow>
          Inr \<lparr>es_encrypted_secret = hc_encode env (secret_iv @ secret_ciphertext),
               es_encrypted_dek = hc_encode env (dek_iv @ dek_ciphertext),
               es_version = ENCRYPTION_VERSION_V1\<rparr>)))))"

text \<open>The decoding of a stored blob into IV and ciphertext; \<open>what\<close> is how the messages name it.\<close>

definition split_blob :: "hosted_crypto \<Rightarrow> string \<Rightarrow> string \<Rightarrow> (bytes \<times> bytes) api_result" where
  "split_blob env what encoded =
     (case hc_decode env encoded of
        Inl e \<Rightarrow> Inl (Internal (''Invalid encrypted '' @ what @ '' encoding: '' @ e))
      | Inr blob \<Rightarrow>
          if length blob < GCM_IV_SIZE + GCM_TAG_SIZE then
            Inl (Internal (''Invalid encrypted '' @ what @ '' size: expected at least '' @
              show_nat (GCM_IV_SIZE + GCM_TAG_SIZE) @ '', got '' @ show_nat (length blob)))
          else Inr (take GCM_IV_SIZE blob, drop GCM_IV_SIZE blob))"

definition decrypt_dek ::
    "hosted_crypto \<Rightarrow> bytes \<Rightarrow> bytes option \<Rightarrow> bytes \<Rightarrow> bytes \<Rightarrow> (bytes \<times> rotation_slot) api_result" where
  "decrypt_dek env mek previous_mek dek_iv dek_ciphertext =
     (case aes_256_gcm_decrypt env mek dek_iv dek_ciphertext AAD_DEK of
        Inr plaintext \<Rightarrow> Inr (plaintext, Current)
      | Inl primary_err \<Rightarrow>
          (case previous_mek of
             Some prev \<Rightarrow>
               (case aes_256_gcm_decrypt env prev dek_iv dek_ciphertext AAD_DEK of
                  Inl _ \<Rightarrow> Inl primary_err
                | Inr plaintext \<Rightarrow> Inr (plaintext, Previous))
           | None \<Rightarrow> Inl primary_err))"

text \<open>The second component is what is written to \<open>slot_out\<close>.\<close>

definition decrypt_hmac_secret_with_fallback_tracked ::
    "hosted_crypto \<Rightarrow> encrypted_secret \<Rightarrow> bytes \<Rightarrow> bytes option \<Rightarrow> bytes api_result \<times> rotation_slot option" where
  "decrypt_hmac_secret_with_fallback_tracked env encrypted mek previous_mek =
     (case split_blob env ''DEK'' (es_encrypted_dek encrypted) of
        Inl e \<Rightarrow> (Inl e, None)
      | Inr (dek_iv, dek_ciphertext) \<Rightarrow>
     (case decrypt_dek env mek previous_mek dek_iv dek_ciphertext of
        Inl e \<Rightarrow> (Inl e, None)
      | Inr (dek, slot_used) \<Rightarrow>
     ((case split_blob env ''secret'' (es_encrypted_secret encrypted) of
         Inl e \<Rightarrow> Inl e
       | Inr (secret_iv, secret_ciphertext) \<Rightarrow>
           aes_256_gcm_decrypt env dek secret_iv secret_ciphertext AAD_HMAC_SECRET),
      Some slot_used)))"

definition decrypt_hmac_secret_with_fallback ::
    "hosted_crypto \<Rightarrow> encrypted_secret \<Rightarrow> bytes \<Rightarrow> bytes option \<Rightarrow> bytes api_result" where
  "decrypt_hmac_secret_with_fallback env encrypted mek previous_mek =
     fst (decrypt_hmac_secret_with_fallback_tracked env encrypted mek previous_mek)"

definition decrypt_hmac_secret :: "hosted_crypto \<Rightarrow> encrypted_secret \<Rightarrow> bytes \<Rightarrow> bytes api_result" where
  "decrypt_hmac_secret env encrypted mek = decrypt_hmac_secret_with_fallback env encrypted mek None"

subsection \<open>Round trip and rotation\<close>

lemma aes_sizes: "check_aes_sizes key iv = Inr () \<longleftrightarrow> length key = 32 \<and> length iv = 12"
  by (simp add: check_aes_sizes_def AES_256_KEY_SIZE_def GCM_IV_SIZE_def)

lemma aes_sizes_ok: "length key = 32 \<Longrightarrow> length iv = 12 \<Longrightarrow> check_aes_sizes key iv = Inr ()"
  by (simp add: aes_sizes)

lemma aes_decrypt_encrypt:
  assumes "crypto_laws env" "aes_256_gcm_encrypt env key iv plaintext aad = Inr c"
  shows "aes_256_gcm_decrypt env key iv c aad = Inr plaintext"
    and "length iv = 12" "length c = length plaintext + 16"
proof -
  from assms(2) have s: "check_aes_sizes key iv = Inr ()" "hc_seal env key iv aad plaintext = Inr c"
    by (auto simp: aes_256_gcm_encrypt_def split: sum.splits)
  from s(2) assms(1) have o: "hc_open env key iv aad c = Inr plaintext" "length c = length plaintext + 16"
    by (auto simp: crypto_laws_def)
  show "aes_256_gcm_decrypt env key iv c aad = Inr plaintext" "length iv = 12" "length c = length plaintext + 16"
    using s o by (simp_all add: aes_256_gcm_decrypt_def) (simp add: aes_sizes)
qed

lemma split_blob_encoded:
  assumes "crypto_laws env" "length iv = 12" "16 \<le> length c"
  shows "split_blob env what (hc_encode env (iv @ c)) = Inr (iv, c)"
  using assms by (simp add: split_blob_def crypto_laws_def GCM_IV_SIZE_def GCM_TAG_SIZE_def)

lemma decrypt_envelope:
  assumes "crypto_laws env" "encrypt_hmac_secret env rnd secret mek = Inr sealed"
    and "\<And>dek iv c. aes_256_gcm_encrypt env mek iv dek AAD_DEK = Inr c \<Longrightarrow>
      es_encrypted_dek sealed = hc_encode env (iv @ c) \<Longrightarrow> decrypt_dek env m p iv c = Inr (dek, slot)"
  shows "decrypt_hmac_secret_with_fallback_tracked env sealed m p = (Inr secret, Some slot)"
proof -
  from assms(2) obtain dek siv sc kiv dc where e:
    "aes_256_gcm_encrypt env dek siv secret AAD_HMAC_SECRET = Inr sc"
    "aes_256_gcm_encrypt env mek kiv dek AAD_DEK = Inr dc"
    "sealed = \<lparr>es_encrypted_secret = hc_encode env (siv @ sc), es_encrypted_dek = hc_encode env (kiv @ dc),
       es_version = ENCRYPTION_VERSION_V1\<rparr>"
    by (auto simp: encrypt_hmac_secret_def split: sum.splits)
  note ds = aes_decrypt_encrypt[OF assms(1) e(1)]
  note dd = aes_decrypt_encrypt[OF assms(1) e(2)]
  have "decrypt_dek env m p kiv dc = Inr (dek, slot)" using assms(3)[OF e(2)] e(3) by simp
  with ds dd e(3) show ?thesis
    by (simp add: decrypt_hmac_secret_with_fallback_tracked_def split_blob_encoded[OF assms(1)])
qed

text \<open>A client's HMAC secret survives a rotation of the master key: what was sealed under a master
  key decrypts, as the current slot, while that key is the primary one, and decrypts, as the previous
  slot, once it has become the previous one and the new primary key does not open the sealed data key;
  without the previous key it does not decrypt any more.\<close>

theorem hmac_secret_rotation:
  assumes "crypto_laws env" "encrypt_hmac_secret env rnd secret old = Inr sealed"
    and "\<And>iv c x. es_encrypted_dek sealed = hc_encode env (iv @ c) \<Longrightarrow> aes_256_gcm_decrypt env new iv c AAD_DEK \<noteq> Inr x"
  shows "decrypt_hmac_secret_with_fallback_tracked env sealed old previous = (Inr secret, Some Current) \<and>
    decrypt_hmac_secret_with_fallback_tracked env sealed new (Some old) = (Inr secret, Some Previous) \<and>
    (\<exists>e. decrypt_hmac_secret_with_fallback_tracked env sealed new None = (Inl e, None))"
proof (intro conjI)
  show "decrypt_hmac_secret_with_fallback_tracked env sealed old previous = (Inr secret, Some Current)"
    by (rule decrypt_envelope[OF assms(1,2)])
      (simp add: decrypt_dek_def aes_decrypt_encrypt(1)[OF assms(1)])
  have f: "\<exists>e. aes_256_gcm_decrypt env new iv c AAD_DEK = Inl e"
    if "es_encrypted_dek sealed = hc_encode env (iv @ c)" for iv c
    using assms(3)[OF that] by (cases "aes_256_gcm_decrypt env new iv c AAD_DEK") auto
  show "decrypt_hmac_secret_with_fallback_tracked env sealed new (Some old) = (Inr secret, Some Previous)"
  proof (rule decrypt_envelope[OF assms(1,2)])
    fix dek iv c
    assume "aes_256_gcm_encrypt env old iv dek AAD_DEK = Inr c" "es_encrypted_dek sealed = hc_encode env (iv @ c)"
    with f[of iv c] aes_decrypt_encrypt(1)[OF assms(1)]
    show "decrypt_dek env new (Some old) iv c = Inr (dek, Previous)" by (auto simp: decrypt_dek_def)
  qed
  from assms(2) obtain dek kiv dc where e: "aes_256_gcm_encrypt env old kiv dek AAD_DEK = Inr dc"
    "es_encrypted_dek sealed = hc_encode env (kiv @ dc)"
    by (auto simp: encrypt_hmac_secret_def split: sum.splits)
  from aes_decrypt_encrypt(2,3)[OF assms(1) e(1)] f[OF e(2)]
  show "\<exists>e. decrypt_hmac_secret_with_fallback_tracked env sealed new None = (Inl e, None)"
    by (auto simp: decrypt_hmac_secret_with_fallback_tracked_def e(2) split_blob_encoded[OF assms(1)] decrypt_dek_def)
qed

text \<open>The sample instance of AES-GCM binds a text to the first half of its key.\<close>

definition sample_random :: envelope_random where
  "sample_random = \<lparr>er_dek = Inr (replicate 32 7), er_secret_iv = Inr (replicate 12 8), er_dek_iv = Inr (replicate 12 9)\<rparr>"

definition sample_sealed :: encrypted_secret where
  "sample_sealed = \<lparr>es_encrypted_secret = sample_encode (replicate 12 8 @ replicate 16 7 @ string_bytes ''key''),
     es_encrypted_dek = sample_encode (replicate 12 9 @ replicate 16 1 @ replicate 32 7), es_version = 1\<rparr>"

lemma sample_sealing: "encrypt_hmac_secret sample_crypto sample_random (string_bytes ''key'') (replicate 32 1) = Inr sample_sealed"
  by (simp add: encrypt_hmac_secret_def sample_random_def aes_256_gcm_encrypt_def aes_sizes_ok sample_crypto_def
      sample_sealed_def ENCRYPTION_VERSION_V1_def)

lemma hmac_secret_rotation_witness:
  "decrypt_hmac_secret_with_fallback_tracked sample_crypto sample_sealed (replicate 32 2) (Some (replicate 32 1)) =
    (Inr (string_bytes ''key''), Some Previous)"
proof (rule hmac_secret_rotation[OF sample_crypto_laws sample_sealing, THEN conjunct2, THEN conjunct1])
  fix iv c x
  assume a: "es_encrypted_dek sample_sealed = hc_encode sample_crypto (iv @ c)"
  have b: "iv @ c = replicate 12 9 @ replicate 16 1 @ replicate 32 (7 :: u8)"
    using arg_cong[OF a, of sample_decode] by (simp add: sample_sealed_def sample_crypto_def)
  show "aes_256_gcm_decrypt sample_crypto (replicate 32 2) iv c AAD_DEK \<noteq> Inr x"
  proof
    assume d: "aes_256_gcm_decrypt sample_crypto (replicate 32 2) iv c AAD_DEK = Inr x"
    then have "length iv = 12" "take 16 c = replicate 16 2"
      by (auto simp: aes_256_gcm_decrypt_def aes_sizes sample_crypto_def split: sum.splits if_splits)
    moreover from this(1) b have "c = replicate 16 1 @ replicate 32 7"
      by (metis append_eq_append_conv length_replicate)
    ultimately show False by (simp add: eval_nat_numeral)
  qed
qed

text \<open>\<open>slot_out\<close> is not left untouched on every error: once the data key has been opened the slot is
  written, whatever becomes of the secret.\<close>

lemma slot_written_on_error:
  assumes "split_blob env ''DEK'' (es_encrypted_dek s) = Inr (iv, c)" "decrypt_dek env mek prev iv c = Inr (dek, slot)"
    and "hc_decode env (es_encrypted_secret s) = Inl e"
  shows "\<exists>e'. decrypt_hmac_secret_with_fallback_tracked env s mek prev = (Inl e', Some slot)"
  using assms by (simp add: decrypt_hmac_secret_with_fallback_tracked_def split_blob_def)

end
