(* ===== verification/Hmac_Auth.thy ===== *)
theory Hmac_Auth imports Handler Redeem Envelope Origin_Match begin

text \<open>
  \<open>src/security/auth.rs\<close> and the authorizer of \<open>src/types/auth.rs\<close>: the authentication of a signed
  request of a relying party, with the API key against its Argon2id hash (through the cache of the
  isolate), the nonce against the nonce store and the HMAC against the secret of the client.  Argon2id,
  SHA-256, HMAC and the decoding of hexadecimal are arguments; the JSON details of the audit records and
  the console lines are left out, and so are poisoned locks, which need a panic.
\<close>

subsection \<open>The authorizer\<close>

record authorizer =
  az_key_id :: string
  az_timestamp :: u64
  az_hmac :: string
  az_nonce :: string

definition is_ascii_graphic :: "nat \<Rightarrow> bool" where
  "is_ascii_graphic c \<longleftrightarrow> 33 \<le> c \<and> c \<le> 126"

definition authorizer_validate :: "authorizer \<Rightarrow> string + unit" where
  "authorizer_validate a =
     (if trim (az_key_id a) = [] then Inl ''keyId must not be empty''
      else if length (az_key_id a) > 128 then Inl ''keyId too long''
      else if \<not> list_all is_ascii_graphic (utf8_chars (az_key_id a)) then Inl ''keyId contains invalid characters''
      else if length (az_hmac a) \<noteq> 64 \<or> \<not> list_all is_ascii_hexdigit (utf8_chars (az_hmac a)) then
        Inl ''hmac must be a 64-character hex string''
      else if length (az_nonce a) \<noteq> 64 then Inl ''nonce must be exactly 64 hex characters (256 bits)''
      else if \<not> list_all is_ascii_hexdigit (utf8_chars (az_nonce a)) then Inl ''nonce must be a hex string''
      else Inr ())"

subsection \<open>The state\<close>

record hmac_env =
  hm_argon2 :: "string \<Rightarrow> string \<Rightarrow> bool option"
  hm_sha256 :: "bytes \<Rightarrow> bytes"
  hm_mac :: "bytes \<Rightarrow> bytes \<Rightarrow> bytes option"
  hm_unhex :: "string \<Rightarrow> bytes option"
  hm_crypto :: hosted_crypto

text \<open>The builder; \<open>au_audit_ip\<close> stands for the audit logger and the address, which are set together,
  and \<open>au_prefix_index\<close> for the KV store of key prefixes, whose read may fail.\<close>

record authenticator =
  au_policy :: origin_policy
  au_audit_ip :: "string option"
  au_nonce_store :: "nonce_store_env option"
  au_mek :: "bytes option"
  au_previous_mek :: "bytes option"
  au_prefix_index :: "(string \<Rightarrow> unit + string option) option"
  au_dummy_hash :: "string option"

definition authenticator_new :: "origin_policy \<Rightarrow> authenticator" where
  "authenticator_new p = \<lparr>au_policy = p, au_audit_ip = None, au_nonce_store = None, au_mek = None,
     au_previous_mek = None, au_prefix_index = None, au_dummy_hash = None\<rparr>"

record hmac_clock =
  hk_now :: u64
  hk_cache :: u64
  hk_nonce :: u64

record verification_cache_entry =
  vc_verified :: bool
  vc_client_id :: string
  vc_cached_at :: u64

type_synonym api_key_cache = "string \<rightharpoonup> verification_cache_entry"

datatype auth_audit =
    LogAuthFailure string string "string option"
  | LogMekFailure string string string
  | LogAuthSuccess string string string

text \<open>The hashes that were verified, decoys included, are part of the state, and so is the slot of the
  master key that the caller reads.\<close>

record hmac_world =
  hx_cache :: api_key_cache
  hx_nonces :: nonce_world
  hx_hashed :: "string list"
  hx_slot :: "rotation_slot option"
  hx_audit :: "auth_audit list"

type_synonym 'a hmac_step = "(hmac_world, api_error, 'a) step"

definition au_log :: "authenticator \<Rightarrow> (string \<Rightarrow> auth_audit) \<Rightarrow> unit hmac_step" where
  "au_log au call = append_to hx_audit_update (case au_audit_ip au of Some ip \<Rightarrow> [call ip] | None \<Rightarrow> [])"

definition au_reject :: "authenticator \<Rightarrow> (string \<Rightarrow> auth_audit) \<Rightarrow> api_error \<Rightarrow> 'a hmac_step" where
  "au_reject au call e = andthen (au_log au call) (\<lambda>_. stop e)"

definition au_dummy :: "authenticator \<Rightarrow> unit hmac_step" where
  "au_dummy au = append_to hx_hashed_update (case au_dummy_hash au of Some dummy \<Rightarrow> [dummy] | None \<Rightarrow> [])"

subsection \<open>The checks before the API key\<close>

definition au_structure_phase :: "authenticator \<Rightarrow> authorizer \<Rightarrow> unit hmac_step" where
  "au_structure_phase au a =
     (case authorizer_validate a of
        Inl e \<Rightarrow> au_reject au (\<lambda>ip. LogAuthFailure ip ''invalid_authorizer_format'' (Some (az_key_id a)))
                   (BadRequest (Some e))
      | Inr _ \<Rightarrow> ret ())"

definition timestamp_skew :: "u64 \<Rightarrow> u64 \<Rightarrow> u64" where
  "timestamp_skew server_time timestamp =
     (if server_time \<ge> timestamp then sat_sub server_time timestamp else sat_sub timestamp server_time)"

definition au_skew_phase :: "authenticator \<Rightarrow> hmac_clock \<Rightarrow> authorizer \<Rightarrow> unit hmac_step" where
  "au_skew_phase au t a =
     (if timestamp_skew (hk_now t) (az_timestamp a) > 300 then
        au_reject au (\<lambda>ip. LogAuthFailure ip ''timestamp_skew_exceeded'' (Some (az_key_id a)))
          (bad_request ''TIMESTAMP_SKEW'' (Some ''authorizer.timestamp'')
             ''Request timestamp exceeds maximum clock skew (300s)'')
      else ret ())"

definition au_present_phase :: "authenticator \<Rightarrow> string option \<Rightarrow> authorizer \<Rightarrow> string hmac_step" where
  "au_present_phase au api_key a =
     (case api_key of
        Some key \<Rightarrow> ret key
      | None \<Rightarrow> au_reject au (\<lambda>ip. LogAuthFailure ip ''missing_api_key'' (Some (az_key_id a)))
          (unauthorized ''API_KEY_MISSING'' ''X-API-Key header is required''))"

definition au_prefix_phase :: "authenticator \<Rightarrow> string \<Rightarrow> authorizer \<Rightarrow> unit hmac_step" where
  "au_prefix_phase au api_key a =
     (case au_prefix_index au of
        None \<Rightarrow> ret ()
      | Some index \<Rightarrow>
          (case index (''key_prefix:'' @ api_key_prefix api_key) of
             Inr (Some expected_client_id) \<Rightarrow>
               if expected_client_id \<noteq> az_key_id a
               then stop (unauthorized ''API_KEY_INVALID'' ''API key does not match the supplied key_id'')
               else ret ()
           | Inr None \<Rightarrow>
               andthen (au_dummy au) (\<lambda>_. stop (unauthorized ''API_KEY_INVALID'' ''API key not recognised''))
           | Inl _ \<Rightarrow> ret ()))"

definition au_client_phase :: "authenticator \<Rightarrow> authorizer \<Rightarrow> client_auth_config hmac_step" where
  "au_client_phase au a =
     (case find (\<lambda>c. ca_client_id c = az_key_id a \<and> ca_active c) (op_clients (au_policy au)) of
        Some c \<Rightarrow> ret c
      | None \<Rightarrow>
          andthen (au_log au (\<lambda>ip. LogAuthFailure ip ''unknown_or_inactive_client'' (Some (az_key_id a)))) (\<lambda>_.
          andthen (au_dummy au) (\<lambda>_.
          stop (unauthorized ''CLIENT_UNKNOWN'' ''key_id does not match an active client''))))"

subsection \<open>The API key\<close>

definition API_KEY_CACHE_TTL_MS :: u64 where "API_KEY_CACHE_TTL_MS = 30000"

definition make_cache_key :: "hmac_env \<Rightarrow> string \<Rightarrow> string \<Rightarrow> string" where
  "make_cache_key env api_key client_id =
     hex_encode (hm_sha256 env (string_bytes api_key @ string_bytes '':'' @ string_bytes client_id))"

definition au_verify_api_key :: "hmac_env \<Rightarrow> authenticator \<Rightarrow> client_auth_config \<Rightarrow> string \<Rightarrow> unit hmac_step" where
  "au_verify_api_key env au client api_key =
     andthen (append_to hx_hashed_update [ca_api_key_hash client]) (\<lambda>_.
     if verify_api_key (hm_argon2 env) api_key (ca_api_key_hash client) then ret ()
     else au_reject au (\<lambda>ip. LogAuthFailure ip ''api_key_hash_mismatch'' (Some (ca_client_id client)))
       (unauthorized ''API_KEY_INVALID'' ''API key did not match the stored hash for this client''))"

definition cached_verdict :: "api_key_cache \<Rightarrow> u64 \<Rightarrow> string \<Rightarrow> string \<Rightarrow> bool option" where
  "cached_verdict cache now cache_key client_id =
     (case cache cache_key of
        Some cached \<Rightarrow>
          if vc_client_id cached = client_id \<and> sat_sub now (vc_cached_at cached) < API_KEY_CACHE_TTL_MS
          then Some (vc_verified cached) else None
      | None \<Rightarrow> None)"

definition verify_api_key_cached ::
    "hmac_env \<Rightarrow> authenticator \<Rightarrow> u64 \<Rightarrow> client_auth_config \<Rightarrow> string \<Rightarrow> unit hmac_step" where
  "verify_api_key_cached env au now client api_key w =
     (let cache_key = make_cache_key env api_key (ca_client_id client)
      in case cached_verdict (hx_cache w) now cache_key (ca_client_id client) of
           Some verified \<Rightarrow> (if verified then Inr () else Inl Unauthorized, w)
         | None \<Rightarrow>
             let (result, w') = au_verify_api_key env au client api_key w
             in (result, w'\<lparr>hx_cache := (hx_cache w')(cache_key \<mapsto>
                   \<lparr>vc_verified = (result = Inr ()), vc_client_id = ca_client_id client, vc_cached_at = now\<rparr>)\<rparr>))"

subsection \<open>The nonce\<close>

definition auth_nonce_tag :: "string \<Rightarrow> string \<Rightarrow> string" where
  "auth_nonce_tag key_id nonce = ''auth:'' @ key_id @ '':'' @ nonce"

definition verify_nonce :: "authenticator \<Rightarrow> u64 \<Rightarrow> string \<Rightarrow> string \<Rightarrow> unit hmac_step" where
  "verify_nonce au now_ms nonce key_id =
     (case au_nonce_store au of
        None \<Rightarrow> stop (Internal ''Nonce store not configured for replay protection'')
      | Some store \<Rightarrow>
          andthen (on_part hx_nonces hx_nonces_update
            (check_and_set store (auth_nonce_tag key_id nonce) now_ms NONCE_DEDUP_TTL)) (\<lambda>r.
          case r of
            Inr True \<Rightarrow> ret ()
          | Inr False \<Rightarrow> au_reject au (\<lambda>ip. LogAuthFailure ip ''nonce_replay_attack'' (Some key_id))
              (unauthorized ''NONCE_REPLAY'' ''authorizer.nonce has already been used within the replay window (300s)'')
          | Inl e \<Rightarrow> au_reject au (\<lambda>ip. LogAuthFailure ip ''nonce_storage_error'' (Some key_id))
              (Internal (''Nonce verification failed: '' @ display e))))"

subsection \<open>The HMAC\<close>

definition client_secret :: "client_auth_config \<Rightarrow> encrypted_secret" where
  "client_secret c = \<lparr>es_encrypted_secret = ca_encrypted_hmac_secret c, es_encrypted_dek = ca_dek_encrypted c,
     es_version = ca_encryption_version c\<rparr>"

definition verify_hmac ::
    "hmac_env \<Rightarrow> authenticator \<Rightarrow> client_auth_config \<Rightarrow> string \<Rightarrow> string \<Rightarrow> unit hmac_step" where
  "verify_hmac env au client canonical supplied_hex =
     (case au_mek au of
        None \<Rightarrow> au_reject au (\<lambda>ip. LogMekFailure (ca_client_id client) ''mek_not_configured'' ip)
                  (Internal ''MEK not configured'')
      | Some mek_bytes \<Rightarrow>
     (case decrypt_hmac_secret_with_fallback_tracked (hm_crypto env) (client_secret client) mek_bytes (au_previous_mek au) of
        (Inl _, _) \<Rightarrow> au_reject au (\<lambda>ip. LogMekFailure (ca_client_id client) ''decryption_failure'' ip)
                        (Internal ''Failed to decrypt HMAC secret'')
      | (Inr secret, local_slot) \<Rightarrow>
          andthen (\<lambda>w. (Inr (), w\<lparr>hx_slot := local_slot\<rparr>)) (\<lambda>_.
          case hm_mac env secret (string_bytes canonical) of
            None \<Rightarrow> stop (Internal ''Invalid HMAC key: '')
          | Some tag \<Rightarrow>
              (case hm_unhex env supplied_hex of
                 None \<Rightarrow> stop (bad_request ''INVALID_HMAC_FORMAT'' (Some ''authorizer.hmac'') ''hmac must be a valid hex string'')
               | Some supplied_bytes \<Rightarrow>
                   if supplied_bytes \<noteq> tag then
                     au_reject au (\<lambda>ip. LogAuthFailure ip ''hmac_signature_mismatch'' (Some (ca_client_id client)))
                       (unauthorized ''INVALID_HMAC'' ''HMAC signature does not match the canonical request'')
                   else ret ()))))"

subsection \<open>Authentication\<close>

definition authenticate_tracked ::
    "hmac_env \<Rightarrow> authenticator \<Rightarrow> hmac_clock \<Rightarrow> string option \<Rightarrow> authorizer \<Rightarrow> string \<Rightarrow> client_auth_config hmac_step" where
  "authenticate_tracked env au t api_key a canonical_message =
     andthen (au_structure_phase au a) (\<lambda>_.
     andthen (au_skew_phase au t a) (\<lambda>_.
     andthen (au_present_phase au api_key a) (\<lambda>key.
     andthen (au_prefix_phase au key a) (\<lambda>_.
     andthen (au_client_phase au a) (\<lambda>client.
     andthen (verify_api_key_cached env au (hk_cache t) client key) (\<lambda>_.
     andthen (verify_nonce au (hk_nonce t) (az_nonce a) (az_key_id a)) (\<lambda>_.
     andthen (verify_hmac env au client canonical_message (az_hmac a)) (\<lambda>_.
     andthen (au_log au (\<lambda>ip. LogAuthSuccess ip (ca_client_id client) '''')) (\<lambda>_.
     ret client)))))))))"

subsection \<open>What a successful authentication passed\<close>

lemma au_reject_run [step_inv]: "au_reject au c e w = (Inr x, w') \<longleftrightarrow> False"
  by (simp add: au_reject_def au_log_def andthen_append_to)

lemma au_structure_ok [step_inv]: "au_structure_phase au a w = (Inr x, w') \<longleftrightarrow> authorizer_validate a = Inr () \<and> w' = w"
  by (auto simp: au_structure_phase_def step_inv split: sum.split)

lemma au_skew_ok [step_inv]: "au_skew_phase au t a w = (Inr x, w') \<longleftrightarrow> timestamp_skew (hk_now t) (az_timestamp a) \<le> 300 \<and> w' = w"
  by (auto simp: au_skew_phase_def step_inv)

lemma au_present_ok [step_inv]: "au_present_phase au api_key a w = (Inr x, w') \<longleftrightarrow> api_key = Some x \<and> w' = w"
  by (auto simp: au_present_phase_def step_inv split: option.split)

lemma au_prefix_ok:
  "au_prefix_phase au key a w = (Inr x, w') \<Longrightarrow> w' = w \<and>
    (\<forall>index. au_prefix_index au = Some index \<longrightarrow>
       index (''key_prefix:'' @ api_key_prefix key) \<in> {Inl (), Inr (Some (az_key_id a))})"
  by (auto simp: au_prefix_phase_def au_dummy_def andthen_append_to split: option.splits sum.splits if_splits)

lemma au_client_ok [step_inv]:
  "au_client_phase au a w = (Inr c, w') \<longleftrightarrow>
    find (\<lambda>c. ca_client_id c = az_key_id a \<and> ca_active c) (op_clients (au_policy au)) = Some c \<and> w' = w"
  by (auto simp: au_client_phase_def au_log_def au_dummy_def andthen_append_to split: option.split)

lemma au_verify_ok:
  "au_verify_api_key env au c key w = (r, w') \<Longrightarrow>
     (r = Inr () \<longleftrightarrow> verify_api_key (hm_argon2 env) key (ca_api_key_hash c)) \<and>
     hx_cache w' = hx_cache w \<and> hx_nonces w' = hx_nonces w"
  by (auto simp: au_verify_api_key_def au_reject_def au_log_def andthen_append_to split: if_splits)

text \<open>The verdict on a key: that of the cache, or that of Argon2id.\<close>

definition key_verdict :: "hmac_env \<Rightarrow> api_key_cache \<Rightarrow> u64 \<Rightarrow> client_auth_config \<Rightarrow> string \<Rightarrow> bool" where
  "key_verdict env cache now c key =
     (case cached_verdict cache now (make_cache_key env key (ca_client_id c)) (ca_client_id c) of
        Some v \<Rightarrow> v | None \<Rightarrow> verify_api_key (hm_argon2 env) key (ca_api_key_hash c))"

definition cache_after :: "hmac_env \<Rightarrow> api_key_cache \<Rightarrow> u64 \<Rightarrow> client_auth_config \<Rightarrow> string \<Rightarrow> api_key_cache" where
  "cache_after env cache now c key =
     (if cached_verdict cache now (make_cache_key env key (ca_client_id c)) (ca_client_id c) = None
      then cache(make_cache_key env key (ca_client_id c) \<mapsto>
        \<lparr>vc_verified = verify_api_key (hm_argon2 env) key (ca_api_key_hash c), vc_client_id = ca_client_id c, vc_cached_at = now\<rparr>)
      else cache)"

lemma verify_cached_ok:
  assumes "verify_api_key_cached env au now c key w = (r, w')"
  shows "(r = Inr () \<longleftrightarrow> key_verdict env (hx_cache w) now c key) \<and> hx_nonces w' = hx_nonces w \<and>
    hx_cache w' = cache_after env (hx_cache w) now c key"
proof (cases "cached_verdict (hx_cache w) now (make_cache_key env key (ca_client_id c)) (ca_client_id c)")
  case None
  obtain q w1 where v: "au_verify_api_key env au c key w = (q, w1)" by fastforce
  with assms None have "r = q" "w' = w1\<lparr>hx_cache := (hx_cache w1)(make_cache_key env key (ca_client_id c) \<mapsto>
      \<lparr>vc_verified = (q = Inr ()), vc_client_id = ca_client_id c, vc_cached_at = now\<rparr>)\<rparr>"
    by (auto simp: verify_api_key_cached_def Let_def)
  with au_verify_ok[OF v] None show ?thesis by (simp add: key_verdict_def cache_after_def)
next
  case (Some v)
  with assms show ?thesis by (auto simp: verify_api_key_cached_def key_verdict_def cache_after_def split: if_splits)
qed

lemma verify_nonce_ok:
  "verify_nonce au now_ms nonce key_id w = (Inr x, w') \<longleftrightarrow>
    (\<exists>store n. au_nonce_store au = Some store \<and> w' = w\<lparr>hx_nonces := n\<rparr> \<and>
      check_and_set store (auth_nonce_tag key_id nonce) now_ms NONCE_DEDUP_TTL (hx_nonces w) = (Inr True, n))"
  by (auto simp: verify_nonce_def andthen_on_part au_reject_run split: option.splits prod.splits sum.splits bool.splits)

definition hmac_matches :: "hmac_env \<Rightarrow> authenticator \<Rightarrow> client_auth_config \<Rightarrow> string \<Rightarrow> string \<Rightarrow> bool" where
  "hmac_matches env au c canonical supplied \<longleftrightarrow>
     (\<exists>mek secret slot tag. au_mek au = Some mek \<and>
        decrypt_hmac_secret_with_fallback_tracked (hm_crypto env) (client_secret c) mek (au_previous_mek au) = (Inr secret, slot) \<and>
        hm_mac env secret (string_bytes canonical) = Some tag \<and> hm_unhex env supplied = Some tag)"

lemma verify_hmac_ok:
  "verify_hmac env au c canonical supplied w = (Inr x, w') \<Longrightarrow>
    hmac_matches env au c canonical supplied \<and> hx_nonces w' = hx_nonces w \<and> hx_cache w' = hx_cache w"
  by (auto simp: verify_hmac_def hmac_matches_def andthen_def au_reject_run split: option.splits prod.splits sum.splits if_splits)

lemma hmac_matches_ok:
  "hmac_matches env au c canonical supplied \<Longrightarrow>
    \<exists>w'. verify_hmac env au c canonical supplied w = (Inr (), w') \<and> hx_nonces w' = hx_nonces w \<and> hx_cache w' = hx_cache w"
  by (auto simp: verify_hmac_def hmac_matches_def andthen_def)

lemma au_log_run: "\<exists>w'. au_log au c w = (Inr (), w') \<and> hx_nonces w' = hx_nonces w \<and> hx_cache w' = hx_cache w"
  by (simp add: au_log_def append_to_def)

text \<open>The authentication as one condition, on the cache and the nonce store it was made with.\<close>

lemma authenticated:
  assumes "authenticate_tracked env au t api_key a msg w = (Inr c, w')"
  shows "authorizer_validate a = Inr () \<and> timestamp_skew (hk_now t) (az_timestamp a) \<le> 300 \<and>
    find (\<lambda>c. ca_client_id c = az_key_id a \<and> ca_active c) (op_clients (au_policy au)) = Some c \<and>
    (\<exists>key. api_key = Some key \<and> key_verdict env (hx_cache w) (hk_cache t) c key \<and>
      hx_cache w' = cache_after env (hx_cache w) (hk_cache t) c key) \<and>
    (\<exists>store. au_nonce_store au = Some store \<and>
      check_and_set store (auth_nonce_tag (az_key_id a) (az_nonce a)) (hk_nonce t) NONCE_DEDUP_TTL (hx_nonces w) =
        (Inr True, hx_nonces w')) \<and>
    hmac_matches env au c msg (az_hmac a)"
proof -
  from assms obtain key u1 w1 u2 w2 u3 w3 u4 w4 u5 w5 where p:
    "authorizer_validate a = Inr ()" "timestamp_skew (hk_now t) (az_timestamp a) \<le> 300" "api_key = Some key"
    "au_prefix_phase au key a w = (Inr u1, w1)"
    "find (\<lambda>c. ca_client_id c = az_key_id a \<and> ca_active c) (op_clients (au_policy au)) = Some c"
    "verify_api_key_cached env au (hk_cache t) c key w1 = (Inr u2, w2)"
    "verify_nonce au (hk_nonce t) (az_nonce a) (az_key_id a) w2 = (Inr u3, w3)"
    "verify_hmac env au c msg (az_hmac a) w3 = (Inr u4, w4)"
    "au_log au (\<lambda>ip. LogAuthSuccess ip (ca_client_id c) '''') w4 = (Inr u5, w5)" "w' = w5"
    by (auto simp: authenticate_tracked_def andthen_Inr_iff step_inv)
  note f = au_prefix_ok[OF p(4)] verify_cached_ok[OF p(6)] verify_hmac_ok[OF p(8)]
  have "hx_nonces w5 = hx_nonces w4 \<and> hx_cache w5 = hx_cache w4"
    using au_log_run[of au _ w4] p(9) by (metis prod.inject)
  with p f show ?thesis by (auto simp: verify_nonce_ok)
qed

lemma authenticates:
  assumes "authorizer_validate a = Inr ()" "timestamp_skew (hk_now t) (az_timestamp a) \<le> 300"
    and "find (\<lambda>c. ca_client_id c = az_key_id a \<and> ca_active c) (op_clients (au_policy au)) = Some c"
    and "au_prefix_index au = None" "key_verdict env (hx_cache w) (hk_cache t) c key"
    and "au_nonce_store au = Some store"
    and "check_and_set store (auth_nonce_tag (az_key_id a) (az_nonce a)) (hk_nonce t) NONCE_DEDUP_TTL (hx_nonces w) = (Inr True, n)"
    and "hmac_matches env au c msg (az_hmac a)"
  shows "\<exists>w'. authenticate_tracked env au t (Some key) a msg w = (Inr c, w') \<and> hx_nonces w' = n \<and>
    hx_cache w' = cache_after env (hx_cache w) (hk_cache t) c key"
proof -
  have s: "au_structure_phase au a w = (Inr (), w)" by (rule au_structure_ok[THEN iffD2]) (use assms(1) in blast)
  have s2: "au_skew_phase au t a w = (Inr (), w)" by (rule au_skew_ok[THEN iffD2]) (use assms(2) in blast)
  have s3: "au_present_phase au (Some key) a w = (Inr key, w)" by (rule au_present_ok[THEN iffD2]) blast
  have s4: "au_prefix_phase au key a w = (Inr (), w)" using assms(4) by (simp add: au_prefix_phase_def)
  have s5: "au_client_phase au a w = (Inr c, w)" by (rule au_client_ok[THEN iffD2]) (use assms(3) in blast)
  obtain r w1 where v: "verify_api_key_cached env au (hk_cache t) c key w = (r, w1)" by fastforce
  with verify_cached_ok[OF v] assms(5) have 1: "r = Inr ()" "hx_nonces w1 = hx_nonces w"
    "hx_cache w1 = cache_after env (hx_cache w) (hk_cache t) c key" by simp_all
  have 2: "verify_nonce au (hk_nonce t) (az_nonce a) (az_key_id a) w1 = (Inr (), w1\<lparr>hx_nonces := n\<rparr>)"
    using assms(6,7) 1(2) by (simp add: verify_nonce_ok)
  obtain w3 where 3: "verify_hmac env au c msg (az_hmac a) (w1\<lparr>hx_nonces := n\<rparr>) = (Inr (), w3)"
    "hx_nonces w3 = n" "hx_cache w3 = hx_cache w1"
    using hmac_matches_ok[OF assms(8), of "w1\<lparr>hx_nonces := n\<rparr>"] by auto
  obtain w4 where 4: "au_log au (\<lambda>ip. LogAuthSuccess ip (ca_client_id c) '''') w3 = (Inr (), w4)"
    "hx_nonces w4 = hx_nonces w3" "hx_cache w4 = hx_cache w3" using au_log_run by blast
  have "authenticate_tracked env au t (Some key) a msg w = (Inr c, w4)"
    by (simp add: authenticate_tracked_def andthen_def s s2 s3 s4 s5 v[unfolded 1(1)] 2 3(1) 4(1) ret_def)
  moreover have "hx_nonces w4 = n" "hx_cache w4 = cache_after env (hx_cache w) (hk_cache t) c key"
    using 4(2,3) 3(2,3) 1(3) by (rule trans | simp only:)+
  ultimately show ?thesis by blast
qed

subsection \<open>Replays\<close>

lemma now_secs_room: "unat (now_secs ms) + 300 < 2 ^ 64"
proof -
  have "unat ms < 2 ^ 64" using unsigned_less[of ms] by simp
  then show ?thesis by (simp add: now_secs_def unat_secs_of_millis)
qed

lemma dedup_until: "t \<le> sat_add (now_secs ms) NONCE_DEDUP_TTL \<longleftrightarrow> unat t \<le> unat (now_secs ms) + 300"
  using now_secs_room[of ms] by (simp add: word_le_nat_alt unat_sat_add NONCE_DEDUP_TTL_def)

lemma skew_le: "timestamp_skew now ts \<le> 300 \<longleftrightarrow> unat now \<le> unat ts + 300 \<and> unat ts \<le> unat now + 300"
  by (auto simp: timestamp_skew_def word_le_nat_alt unat_sat_sub)


text \<open>C22 A request that is signed with a timestamp in the future can be replayed: it is accepted when
  it is first used, and once the 300 seconds are over for which its nonce is held it is accepted again,
  unchanged, as long as its timestamp is not 300 seconds old, with no operation between the two but the
  passing of time.\<close>

theorem early_signature_replayed:
  assumes "store_laws store" "au_nonce_store au = Some store" "au_prefix_index au = None"
    and "validate_nonce_tag (ne_uni store) (auth_nonce_tag (az_key_id a) (az_nonce a)) = Inr ()"
    and "check_nonce_input (auth_nonce_tag (az_key_id a) (az_nonce a)) NONCE_DEDUP_TTL = Inr ()"
    and "hx_nonces w = \<lparr>nw_shards = (\<lambda>_. empty_storage), nw_net = [], nw_audit = []\<rparr>"
    and "authorizer_validate a = Inr ()" "hmac_matches env au c msg (az_hmac a)"
    and "find (\<lambda>c. ca_client_id c = az_key_id a \<and> ca_active c) (op_clients (au_policy au)) = Some c"
    and "hx_cache w = Map.empty" "verify_api_key (hm_argon2 env) key (ca_api_key_hash c)"
    and "hk_now t = now_secs (hk_nonce t)" "hk_now t' = now_secs (hk_nonce t')"
    and "timestamp_skew (hk_now t) (az_timestamp a) \<le> 300" "timestamp_skew (hk_now t') (az_timestamp a) \<le> 300"
    and "unat (hk_now t) + 300 < unat (hk_now t')"
  shows "\<exists>w1 w2. authenticate_tracked env au t (Some key) a msg w = (Inr c, w1) \<and>
    authenticate_tracked env au t' (Some key) a msg w1 = (Inr c, w2)"
proof -
  let ?tag = "auth_nonce_tag (az_key_id a) (az_nonce a)"
  have q: "\<And>s. faults (nw_shards (hx_nonces w) s) = []" "next_delivery (nw_net (hx_nonces w)) = Delivered"
    "\<not> store_held store (hx_nonces w) ?tag (now_secs (hk_nonce t))"
    by (simp_all add: assms(6) empty_storage_def next_delivery_def store_held_def nonce_held_def)
  obtain n1 where n1: "check_and_set store ?tag (hk_nonce t) NONCE_DEDUP_TTL (hx_nonces w) = (Inr True, n1)"
    "\<And>s. faults (nw_shards n1 s) = []" "nw_net n1 = []"
    "\<And>x. store_held store n1 ?tag x \<longleftrightarrow> x \<le> sat_add (now_secs (hk_nonce t)) NONCE_DEDUP_TTL"
    using quiet_claim[OF assms(1,4,5) q] by (auto simp: assms(6))
  have k: "key_verdict env (hx_cache w) (hk_cache t) c key"
    by (simp add: key_verdict_def cached_verdict_def assms(10,11))
  obtain w1 where w1: "authenticate_tracked env au t (Some key) a msg w = (Inr c, w1)" "hx_nonces w1 = n1"
    "hx_cache w1 = cache_after env (hx_cache w) (hk_cache t) c key"
    using authenticates[OF assms(7,14,9,3) k assms(2) n1(1) assms(8)] by blast
  have nh: "\<not> store_held store n1 ?tag (now_secs (hk_nonce t'))"
    unfolding n1(4) dedup_until using assms(12,13,16) by simp
  have d: "next_delivery (nw_net n1) = Delivered" by (simp add: n1(3) next_delivery_def)
  obtain n2 where n2: "check_and_set store ?tag (hk_nonce t') NONCE_DEDUP_TTL (hx_nonces w1) = (Inr True, n2)"
    using quiet_claim[OF assms(1,4,5) n1(2) d nh] by (auto simp: w1(2))
  have "key_verdict env (hx_cache w1) (hk_cache t') c key"
    by (simp add: key_verdict_def cached_verdict_def w1(3) cache_after_def assms(10,11))
  from authenticates[OF assms(7,15,9,3) this assms(2) n2 assms(8)] w1(1) show ?thesis by blast
qed

subsection \<open>The cache of the verdicts on API keys\<close>

text \<open>The checks that the isolate made: the time, the client of the policy of that time, and the key.\<close>

type_synonym key_check = "u64 \<times> client_auth_config \<times> string"

fun key_run :: "hmac_env \<Rightarrow> key_check list \<Rightarrow> api_key_cache \<Rightarrow> api_key_cache" where
  "key_run env [] cache = cache"
| "key_run env ((now, c, key) # ls) cache = key_run env ls (cache_after env cache now c key)"

text \<open>The same checks as calls of \<open>verify_api_key_cached\<close>.\<close>

fun key_checks :: "hmac_env \<Rightarrow> authenticator \<Rightarrow> key_check list \<Rightarrow> hmac_world \<Rightarrow> hmac_world" where
  "key_checks env au [] w = w"
| "key_checks env au ((now, c, key) # ls) w = key_checks env au ls (snd (verify_api_key_cached env au now c key w))"

lemma key_checks_cache: "hx_cache (key_checks env au ls w) = key_run env ls (hx_cache w)"
proof (induction ls arbitrary: w)
  case (Cons x ls)
  obtain now c key where x: "x = (now, c, key)" by (cases x) auto
  obtain r w' where "verify_api_key_cached env au now c key w = (r, w')" by fastforce
  with Cons verify_cached_ok[OF this] show ?case by (simp add: x)
qed simp

abbreviation check_preimage :: "key_check \<Rightarrow> bytes" where
  "check_preimage x \<equiv> (case x of (now, c, key) \<Rightarrow> string_bytes key @ string_bytes '':'' @ string_bytes (ca_client_id c))"

abbreviation check_key :: "hmac_env \<Rightarrow> key_check \<Rightarrow> string" where
  "check_key env x \<equiv> (case x of (now, c, key) \<Rightarrow> make_cache_key env key (ca_client_id c))"

definition cache_backed :: "hmac_env \<Rightarrow> key_check set \<Rightarrow> api_key_cache \<Rightarrow> bool" where
  "cache_backed env L cache \<longleftrightarrow>
     (\<forall>k e. cache k = Some e \<longrightarrow>
        (\<exists>now c key. (now, c, key) \<in> L \<and> k = make_cache_key env key (ca_client_id c) \<and>
           e = \<lparr>vc_verified = verify_api_key (hm_argon2 env) key (ca_api_key_hash c), vc_client_id = ca_client_id c,
                vc_cached_at = now\<rparr>))"

lemma cache_backed_step:
  "cache_backed env L cache \<Longrightarrow> (now, c, key) \<in> L \<Longrightarrow> cache_backed env L (cache_after env cache now c key)"
  unfolding cache_backed_def cache_after_def by (auto split: if_splits)

lemma cache_backed_run: "cache_backed env L cache \<Longrightarrow> set ls \<subseteq> L \<Longrightarrow> cache_backed env L (key_run env ls cache)"
proof (induction ls arbitrary: cache)
  case (Cons x ls)
  obtain now c key where "x = (now, c, key)" by (cases x) auto
  with Cons show ?case by (simp add: cache_backed_step)
qed simp

lemma same_check:
  assumes "inj_on (hm_sha256 env) (check_preimage ` L)" "(t, c, key) \<in> L" "(t', c', key') \<in> L"
    and "make_cache_key env key (ca_client_id c) = make_cache_key env key' (ca_client_id c')"
    and "ca_client_id c = ca_client_id c'"
  shows "key = key'"
proof -
  from assms(4) have "hm_sha256 env (check_preimage (t, c, key)) = hm_sha256 env (check_preimage (t', c', key'))"
    by (auto simp: make_cache_key_def dest: hex_encode_inj)
  with assms(1-3) have "check_preimage (t, c, key) = check_preimage (t', c', key')"
    by (meson image_eqI inj_onD)
  with assms(5) show ?thesis by (simp add: string_bytes_inj)
qed

text \<open>C28 An API key that no longer matches is refused at the latest 30 seconds later: when every check of
  the key for the client made since the time \<open>since\<close> met a hash that it does not match, then 30 seconds
  after \<open>since\<close> the cache has no verdict that accepts it, after any checks of this and of other keys and
  clients, whose cache keys may only coincide when the hashed texts do.\<close>

theorem revoked_key_expires:
  assumes "inj_on (hm_sha256 env) (check_preimage ` insert (now, c, key) (set ls))"
    and "\<forall>(t, c', key') \<in> insert (now, c, key) (set ls).
      key' = key \<and> ca_client_id c' = ca_client_id c \<and> since \<le> t \<longrightarrow> \<not> verify_api_key (hm_argon2 env) key (ca_api_key_hash c')"
    and "unat since + 30000 \<le> unat now"
    and "hx_cache w = Map.empty"
  shows "fst (verify_api_key_cached env au now c key (key_checks env au ls w)) \<noteq> Inr ()"
proof
  let ?L = "insert (now, c, key) (set ls)"
  let ?cache = "key_run env ls Map.empty"
  assume "fst (verify_api_key_cached env au now c key (key_checks env au ls w)) = Inr ()"
  then obtain w' where "verify_api_key_cached env au now c key (key_checks env au ls w) = (Inr (), w')"
    by (metis prod.collapse)
  with verify_cached_ok[OF this] assms(4) have v: "key_verdict env ?cache now c key"
    by (simp add: key_checks_cache)
  have b: "cache_backed env ?L ?cache" by (rule cache_backed_run) (auto simp: cache_backed_def)
  have s: "since \<le> now" using assms(3) by (simp add: word_le_nat_alt)
  show False
  proof (cases "cached_verdict ?cache now (make_cache_key env key (ca_client_id c)) (ca_client_id c)")
    case None
    with v assms(2) s show ?thesis by (auto simp: key_verdict_def)
  next
    case (Some x)
    with v have "x" by (simp add: key_verdict_def)
    with Some obtain e where e: "?cache (make_cache_key env key (ca_client_id c)) = Some e" "vc_verified e"
      "vc_client_id e = ca_client_id c" "sat_sub now (vc_cached_at e) < 30000"
      by (auto simp: cached_verdict_def API_KEY_CACHE_TTL_MS_def split: option.splits if_splits)
    with b obtain t c' key' where t: "(t, c', key') \<in> ?L"
      "make_cache_key env key (ca_client_id c) = make_cache_key env key' (ca_client_id c')"
      "e = \<lparr>vc_verified = verify_api_key (hm_argon2 env) key' (ca_api_key_hash c'), vc_client_id = ca_client_id c', vc_cached_at = t\<rparr>"
      unfolding cache_backed_def by blast
    with e have "key = key'" using same_check[OF assms(1) _ t(1,2)] by auto
    moreover have "since \<le> t"
      using e(4) t(3) assms(3) by (simp add: word_less_nat_alt word_le_nat_alt unat_sat_sub)
    ultimately show ?thesis using assms(2) t e by auto
  qed
qed

text \<open>Failures are cached as well: for 30 seconds a key is refused that now matches the client's hash.\<close>

lemma failure_cached:
  assumes "cached_verdict cache t (make_cache_key env key (ca_client_id c)) (ca_client_id c) = None"
    and "\<not> verify_api_key (hm_argon2 env) key (ca_api_key_hash c)"
    and "ca_client_id c' = ca_client_id c" "sat_sub t' t < API_KEY_CACHE_TTL_MS"
  shows "\<not> key_verdict env (cache_after env cache t c key) t' c' key"
  using assms by (simp add: key_verdict_def cache_after_def cached_verdict_def)

subsection \<open>Key ids the nonce store refuses\<close>

lemma claimed_tag_valid:
  assumes "store_laws env" "check_and_set env tag now_ms ttl w = (Inr b, w')"
  shows "validate_nonce_tag (ne_uni env) tag = Inr ()"
proof (cases "validate_nonce_tag (ne_uni env) tag")
  case (Inl e)
  with assms show ?thesis
    by (auto simp: check_and_set_def nonce_fetch_request[OF assms(1)] do_call_def nonce_answer_def nonce_text_def ret_def Let_def
        split: sum.splits delivery.splits)
qed simp

lemma small_chars_ascii:
  assumes "\<And>c. P c \<Longrightarrow> c < 128" "list_all P (utf8_chars s)"
  shows "ascii_only s"
  using assms(2)
proof (induction s)
  case (Cons c s)
  show ?case
  proof (cases "(of_char c :: nat) < 128")
    case True
    with Cons show ?thesis by (simp add: ascii_only_def)
  next
    case False
    then obtain x xs where "utf8_chars (c # s) = x # xs" "128 \<le> x" using utf8_chars_nonascii[of c s] by auto
    with Cons.prems assms(1)[of x] show ?thesis by simp
  qed
qed (simp add: ascii_only_def)

text \<open>The authorizer admits any printable ASCII in a key id, but only a client whose id consists of
  letters, digits, hyphens, underscores and colons can ever authenticate: the nonce object takes no other
  tags.\<close>

theorem authenticated_key_id:
  assumes "store_laws store" "au_nonce_store au = Some store"
    and "authenticate_tracked env au t api_key a msg w = (Inr c, w')"
  shows "ca_client_id c = az_key_id a \<and> (\<forall>x\<in>set (ca_client_id c). nonce_tag_char (ne_uni store) (of_char x))"
proof -
  note s = authenticated[OF assms(3)]
  have v: "validate_nonce_tag (ne_uni store) (auth_nonce_tag (az_key_id a) (az_nonce a)) = Inr ()"
    using s assms(2) claimed_tag_valid[OF assms(1)] by auto
  have g: "list_all is_ascii_graphic (utf8_chars (az_key_id a))" "list_all is_ascii_hexdigit (utf8_chars (az_nonce a))"
    using s by (auto simp: authorizer_validate_def split: if_splits)
  have "ascii_only (az_key_id a)" by (rule small_chars_ascii[OF _ g(1)]) (simp add: is_ascii_graphic_def)
  moreover have "ascii_only (az_nonce a)" by (rule small_chars_ascii[OF _ g(2)]) (rule hexdigit_ascii)
  ultimately have "ascii_only (auth_nonce_tag (az_key_id a) (az_nonce a))"
    by (simp add: ascii_only_def auth_nonce_tag_def)
  moreover have "list_all (nonce_tag_char (ne_uni store)) (utf8_chars (auth_nonce_tag (az_key_id a) (az_nonce a)))"
    using v by (auto simp: validate_nonce_tag_def split: if_splits)
  ultimately have "\<forall>x\<in>set (auth_nonce_tag (az_key_id a) (az_nonce a)). nonce_tag_char (ne_uni store) (of_char x)"
    by (simp only: utf8_chars_ascii list_all_iff set_map ball_simps)
  then have "\<forall>x\<in>set (az_key_id a). nonce_tag_char (ne_uni store) (of_char x)"
    by (simp add: auth_nonce_tag_def)
  moreover have "ca_client_id c = az_key_id a" using s find_Some_in by fastforce
  ultimately show ?thesis by simp
qed

subsection \<open>A sample request\<close>

text \<open>The sample MAC keeps the first 32 bytes of the key.\<close>

definition sample_hmac_env :: hmac_env where
  "sample_hmac_env = \<lparr>hm_argon2 = (\<lambda>k x. Some (k = ''pk_1'' \<and> x = ''$argon2id$a'')), hm_sha256 = (\<lambda>b. b),
     hm_mac = (\<lambda>k m. Some (take 32 (k @ replicate 32 0))), hm_unhex = (\<lambda>s. Some (unhex s)), hm_crypto = sample_crypto\<rparr>"

definition sample_rp_client :: client_auth_config where
  "sample_rp_client = \<lparr>ca_client_id = ''rp_a'', ca_api_key_hash = ''$argon2id$a'', ca_api_key_prefix = None,
     ca_encrypted_hmac_secret = es_encrypted_secret sample_sealed, ca_dek_encrypted = es_encrypted_dek sample_sealed,
     ca_encryption_version = 1, ca_active = True\<rparr>"

definition sample_authenticator :: authenticator where
  "sample_authenticator = (authenticator_new (sample_policy\<lparr>op_clients := [sample_rp_client]\<rparr>))
     \<lparr>au_nonce_store := Some sample_store_env, au_mek := Some (replicate 32 1)\<rparr>"

definition sample_authorizer :: "u64 \<Rightarrow> authorizer" where
  "sample_authorizer ts = \<lparr>az_key_id = ''rp_a'', az_timestamp = ts,
     az_hmac = hex_encode (string_bytes ''key'' @ replicate 29 0), az_nonce = replicate 64 (CHR ''a'')\<rparr>"

definition sample_hmac_clock :: "u64 \<Rightarrow> hmac_clock" where
  "sample_hmac_clock ms = \<lparr>hk_now = now_secs ms, hk_cache = ms, hk_nonce = ms\<rparr>"

definition sample_hmac_world :: hmac_world where
  "sample_hmac_world = \<lparr>hx_cache = Map.empty, hx_nonces = \<lparr>nw_shards = (\<lambda>_. empty_storage), nw_net = [], nw_audit = []\<rparr>,
     hx_hashed = [], hx_slot = None, hx_audit = []\<rparr>"

lemma sample_hmac_simps [simp]:
  "au_nonce_store sample_authenticator = Some sample_store_env" "au_prefix_index sample_authenticator = None"
  "az_key_id (sample_authorizer ts) = ''rp_a''" "az_timestamp (sample_authorizer ts) = ts"
  "az_nonce (sample_authorizer ts) = replicate 64 (CHR ''a'')" "hx_cache sample_hmac_world = Map.empty"
  "hx_nonces sample_hmac_world = \<lparr>nw_shards = (\<lambda>_. empty_storage), nw_net = [], nw_audit = []\<rparr>"
  "hk_now (sample_hmac_clock ms) = now_secs ms" "hk_nonce (sample_hmac_clock ms) = ms"
  by (simp_all add: sample_authenticator_def sample_authorizer_def sample_hmac_world_def sample_hmac_clock_def
      authenticator_new_def)

lemma hex_encode_zeros: "hex_encode (bs @ replicate n 0) = hex_encode bs @ replicate (2 * n) (CHR ''0'')"
proof -
  have "hex_encode (replicate n 0) = replicate (2 * n) (CHR ''0'')"
    by (induction n) (simp_all add: hex_encode_def hex_digit_def digit_char_def char_of_def bit_0)
  then show ?thesis by (simp add: hex_encode_def)
qed

lemma sample_authorizer_valid: "authorizer_validate (sample_authorizer ts) = Inr ()"
proof -
  let ?h = "hex_encode (string_bytes ''key'' @ replicate 29 0)"
  let ?n = "replicate 64 (CHR ''a'')"
  have t: "trim ''rp_a'' = ''rp_a''" by (rule trim_visible) (simp add: visible_def)
  have h: "?h = ''6b6579'' @ replicate 58 (CHR ''0'')"
    by (simp add: hex_encode_zeros) (simp add: hex_encode_def string_bytes_def hex_digit_def digit_char_def char_of_def bit_0)
  have a: "ascii_only ?h" "ascii_only ?n" unfolding h by (simp_all add: ascii_only_def list_all_iff)
  show ?thesis
    using t by (simp add: authorizer_validate_def sample_authorizer_def utf8_chars_ascii[OF a(1)] utf8_chars_ascii[OF a(2)]
        is_ascii_graphic_def) (simp add: h list_all_iff is_ascii_hexdigit_def is_ascii_digit_def)
qed

lemma contains_str_set: "contains_str s p \<Longrightarrow> set p \<subseteq> set s"
proof (induction s)
  case (Cons c s)
  have "starts_with x q \<Longrightarrow> set q \<subseteq> set x" for x q :: string
    by (induction x q rule: starts_with.induct) auto
  with Cons show ?case by fastforce
qed simp

lemma nonce_tag_validI:
  assumes "tag \<noteq> []" "length tag \<le> MAX_NONCE_TAG_LENGTH" "\<forall>c\<in>set tag. of_char c < (128 :: nat) \<and> nonce_tag_char uni (of_char c)"
  shows "validate_nonce_tag uni tag = Inr ()"
proof -
  have "ascii_only tag" using assms(3) by (auto simp: ascii_only_def list_all_iff)
  then have "list_all (nonce_tag_char uni) (utf8_chars tag)" using assms(3) by (simp add: utf8_chars_ascii list_all_iff)
  moreover have "CHR ''.'' \<notin> set tag" "CHR 0x00 \<notin> set tag"
    using assms(3) by (force simp: nonce_tag_char_def is_alphanumeric_def is_ascii_alphanumeric_def is_ascii_digit_def)+
  ultimately show ?thesis
    using assms(1,2) contains_str_set[of tag "''../''"] contains_str_set[of tag "[CHR ''.'', CHR ''.'', CHR 0x5C]"]
    by (auto simp: validate_nonce_tag_def)
qed

lemma sample_auth_tag:
  "validate_nonce_tag (ne_uni sample_store_env) (auth_nonce_tag ''rp_a'' (replicate 64 (CHR ''a''))) = Inr ()"
  "check_nonce_input (auth_nonce_tag ''rp_a'' (replicate 64 (CHR ''a''))) NONCE_DEDUP_TTL = Inr ()"
  by (rule nonce_tag_validI; simp add: auth_nonce_tag_def MAX_NONCE_TAG_LENGTH_def nonce_tag_char_def is_alphanumeric_def
      is_ascii_alphanumeric_def is_ascii_digit_def)
    (simp add: auth_nonce_tag_def check_nonce_input_def STORE_MAX_NONCE_TAG_LENGTH_def NONCE_DEDUP_TTL_def)

lemma sample_hmac_matches: "hmac_matches sample_hmac_env sample_authenticator sample_rp_client msg (az_hmac (sample_authorizer ts))"
proof -
  have s: "client_secret sample_rp_client = sample_sealed"
    by (simp add: client_secret_def sample_rp_client_def sample_sealed_def)
  have "decrypt_hmac_secret_with_fallback_tracked sample_crypto sample_sealed (replicate 32 1) None =
      (Inr (string_bytes ''key''), Some Current)"
    by (rule decrypt_envelope[OF sample_crypto_laws sample_sealing])
      (simp add: decrypt_dek_def aes_decrypt_encrypt(1)[OF sample_crypto_laws])
  then show ?thesis
    by (simp add: hmac_matches_def s sample_hmac_env_def sample_authenticator_def authenticator_new_def
        sample_authorizer_def unhex_encode string_bytes_def)
qed

lemma sample_rp_client_found:
  "find (\<lambda>c. ca_client_id c = az_key_id (sample_authorizer ts) \<and> ca_active c) (op_clients (au_policy sample_authenticator)) =
     Some sample_rp_client"
  by (simp add: sample_authenticator_def authenticator_new_def sample_rp_client_def sample_policy_def)

lemma sample_key_verified: "verify_api_key (hm_argon2 sample_hmac_env) ''pk_1'' (ca_api_key_hash sample_rp_client)"
  by (simp add: sample_hmac_env_def sample_rp_client_def verify_api_key_def is_valid_argon2id_hash_def)

lemma early_signature_replayed_witness:
  "\<exists>w1 w2. authenticate_tracked sample_hmac_env sample_authenticator (sample_hmac_clock 5000000) (Some ''pk_1'')
      (sample_authorizer 5300) ''message'' sample_hmac_world = (Inr sample_rp_client, w1) \<and>
    authenticate_tracked sample_hmac_env sample_authenticator (sample_hmac_clock 5301000) (Some ''pk_1'')
      (sample_authorizer 5300) ''message'' w1 = (Inr sample_rp_client, w2)"
  by (rule early_signature_replayed[OF sample_store_laws])
    (simp_all add: sample_auth_tag sample_authorizer_valid sample_hmac_matches sample_rp_client_found[simplified]
      sample_key_verified now_secs_def secs_of_millis_def timestamp_skew_def sat_sub_def)

lemma sample_authenticated:
  assumes "timestamp_skew (now_secs ms) ts \<le> 300"
  shows "\<exists>w1. authenticate_tracked sample_hmac_env sample_authenticator (sample_hmac_clock ms) (Some ''pk_1'')
      (sample_authorizer ts) msg sample_hmac_world = (Inr sample_rp_client, w1) \<and> store_ok (hx_nonces w1)"
proof -
  let ?t = "auth_nonce_tag ''rp_a'' (replicate 64 (CHR ''a''))"
  let ?n = "hx_nonces sample_hmac_world"
  have q: "\<And>s. faults (nw_shards ?n s) = []" "next_delivery (nw_net ?n) = Delivered"
    "\<not> store_held sample_store_env ?n ?t (now_secs ms)"
    by (simp_all add: empty_storage_def next_delivery_def store_held_def nonce_held_def)
  obtain n1 where n1: "check_and_set sample_store_env ?t ms NONCE_DEDUP_TTL ?n = (Inr True, n1)"
    "\<And>s. faults (nw_shards n1 s) = []"
    using quiet_claim[OF sample_store_laws sample_auth_tag q] by blast
  have k: "key_verdict sample_hmac_env (hx_cache sample_hmac_world) (hk_cache (sample_hmac_clock ms)) sample_rp_client ''pk_1''"
    by (simp add: key_verdict_def cached_verdict_def sample_key_verified)
  obtain w1 where "authenticate_tracked sample_hmac_env sample_authenticator (sample_hmac_clock ms) (Some ''pk_1'')
      (sample_authorizer ts) msg sample_hmac_world = (Inr sample_rp_client, w1)" "hx_nonces w1 = n1"
    using authenticates[OF sample_authorizer_valid _ sample_rp_client_found _ k, where store = sample_store_env and n = n1]
      assms n1(1) sample_hmac_matches by fastforce
  with n1(2) show ?thesis by (auto simp: store_ok_def)
qed


lemma authenticated_key_id_witness:
  "\<exists>w1. authenticate_tracked sample_hmac_env sample_authenticator (sample_hmac_clock 5000000) (Some ''pk_1'')
      (sample_authorizer 4990) ''message'' sample_hmac_world = (Inr sample_rp_client, w1) \<and>
    (\<forall>x\<in>set (ca_client_id sample_rp_client). nonce_tag_char (ne_uni sample_store_env) (of_char x))"
proof -
  obtain w1 where w1: "authenticate_tracked sample_hmac_env sample_authenticator (sample_hmac_clock 5000000) (Some ''pk_1'')
      (sample_authorizer 4990) ''message'' sample_hmac_world = (Inr sample_rp_client, w1)"
    using sample_authenticated[of 5000000 4990 "''message''"]
    by (auto simp: now_secs_def secs_of_millis_def timestamp_skew_def sat_sub_def)
  with authenticated_key_id[OF sample_store_laws _ w1] show ?thesis by simp
qed

lemma revoked_key_expires_witness:
  "fst (verify_api_key_cached sample_hmac_env sample_authenticator 31001 (sample_rp_client\<lparr>ca_api_key_hash := ''$argon2id$b''\<rparr>) ''pk_1''
      (key_checks sample_hmac_env sample_authenticator
        [(1000, sample_rp_client, ''pk_1''), (2000, sample_rp_client\<lparr>ca_api_key_hash := ''$argon2id$b''\<rparr>, ''pk_1'')] sample_hmac_world))
    \<noteq> Inr ()"
  by (rule revoked_key_expires[where since = 1001])
    (simp_all add: sample_hmac_env_def verify_api_key_def inj_on_def)

end
