(* ===== verification/Age_Cutoff.thy ===== *)
theory Age_Cutoff imports Validation begin

text \<open>
  The age threshold as a date: \<open>calculate_exact_days_for_years\<close> of \<open>src/utils/mod.rs\<close> and the cutoff
  that \<open>src/routes/challenge.rs\<close> computes with it.  A JavaScript \<open>Date\<close> of the Worker, whose time zone
  is UTC, is given by its fields; day numbers and \<open>MakeDay\<close> are those of ECMAScript, where the 29th of
  February of a common year is the 1st of March.
\<close>

subsection \<open>JavaScript dates\<close>

record js_date =
  jd_year :: int
  jd_month :: nat
  jd_day :: nat
  jd_ms :: nat

definition leap_year :: "int \<Rightarrow> bool" where
  "leap_year y \<longleftrightarrow> 4 dvd y \<and> (\<not> 100 dvd y \<or> 400 dvd y)"

definition day_from_year :: "int \<Rightarrow> int" where
  "day_from_year y = 365 * (y - 1970) + (y - 1969) div 4 - (y - 1901) div 100 + (y - 1601) div 400"

definition days_in_month :: "bool \<Rightarrow> nat \<Rightarrow> nat" where
  "days_in_month leap m = [31, if leap then 29 else 28, 31, 30, 31, 30, 31, 31, 30, 31, 30, 31] ! m"

definition month_start :: "bool \<Rightarrow> nat \<Rightarrow> nat" where
  "month_start leap m = sum_list (map (days_in_month leap) [0..<m])"

definition make_day :: "int \<Rightarrow> nat \<Rightarrow> nat \<Rightarrow> int" where
  "make_day y m d = day_from_year y + int (month_start (leap_year y) m) + int d - 1"

definition js_day :: "js_date \<Rightarrow> int" where
  "js_day t = make_day (jd_year t) (jd_month t) (jd_day t)"

definition js_time :: "js_date \<Rightarrow> int" where
  "js_time t = js_day t * 86400000 + int (jd_ms t)"

text \<open>\<open>setFullYear\<close>: the time value it leaves.\<close>

definition set_full_year :: "int \<Rightarrow> js_date \<Rightarrow> int" where
  "set_full_year y t = make_day y (jd_month t) (jd_day t) * 86400000 + int (jd_ms t)"

definition valid_date :: "js_date \<Rightarrow> bool" where
  "valid_date t \<longleftrightarrow> 0 \<le> jd_year t \<and> jd_month t < 12 \<and> 1 \<le> jd_day t \<and>
     jd_day t \<le> days_in_month (leap_year (jd_year t)) (jd_month t) \<and> jd_ms t < 86400000"

subsection \<open>The code\<close>

text \<open>The differences of time values are exact as floating-point numbers; a cast to \<open>u32\<close> saturates.\<close>

definition u32_of_int :: "int \<Rightarrow> u32" where
  "u32_of_int x = (if x < 0 then 0 else if x > 4294967295 then 4294967295 else word_of_int x)"

definition calculate_exact_days_for_years :: "js_date \<Rightarrow> u32 \<Rightarrow> u32" where
  "calculate_exact_days_for_years now years =
     (let target_year = max 0 (jd_year now - int (unat years));
          diff_ms = js_time now - set_full_year target_year now
      in u32_of_int (diff_ms div 86400000))"

definition i32_try_from :: "u32 \<Rightarrow> int option" where
  "i32_try_from x = (if unat x \<le> 2147483647 then Some (int (unat x)) else None)"

definition i32_checked_sub :: "int \<Rightarrow> int \<Rightarrow> int option" where
  "i32_checked_sub a b = (if - 2147483648 \<le> a - b \<and> a - b \<le> 2147483647 then Some (a - b) else None)"

text \<open>The day of a Unix time, truncated to 32 bits.\<close>

definition epoch_days :: "u64 \<Rightarrow> u32" where
  "epoch_days secs = ucast (secs div 86400)"

definition compute_cutoff_days :: "u32 \<Rightarrow> u32 \<Rightarrow> int api_result" where
  "compute_cutoff_days today_epoch_days age_days =
     (case i32_try_from today_epoch_days of
        None \<Rightarrow> Inl (BadRequest (Some ''today_epoch_days out of i32 range''))
      | Some today_i32 \<Rightarrow>
     (case i32_try_from age_days of
        None \<Rightarrow> Inl (BadRequest (Some ''age_days out of i32 range''))
      | Some age_i32 \<Rightarrow>
     (case i32_checked_sub today_i32 age_i32 of
        None \<Rightarrow> Inl (BadRequest (Some ''cutoff_days overflow''))
      | Some cutoff_days_raw \<Rightarrow>
     (case cutoff_days_new cutoff_days_raw of
        Inl e \<Rightarrow> Inl (BadRequest (Some e))
      | Inr c \<Rightarrow> Inr c))))"

subsection \<open>The calendar\<close>

lemma div_step:
  assumes "0 < (k :: int)" "k dvd c"
  shows "(y - c) div k = (y - 1 - c) div k + (if k dvd y then 1 else 0)"
proof -
  let ?x = "y - 1 - c"
  have x: "?x = k * (?x div k) + ?x mod k" "0 \<le> ?x mod k" "?x mod k < k" using assms(1) by simp_all
  have d: "k dvd y \<longleftrightarrow> k dvd y - c" using assms(2) dvd_diff_left_iff by blast
  show ?thesis
  proof (cases "?x mod k + 1 = k")
    case True
    with x(1) have e: "y - c = k * (?x div k + 1) + 0" by (simp only: distrib_left)
    then have "(y - c) div k = ?x div k + 1" using assms(1) by (intro int_div_pos_eq) simp_all
    with e d show ?thesis by simp
  next
    case False
    with x(3) have r: "?x mod k + 1 < k" by simp
    have e: "y - c = k * (?x div k) + (?x mod k + 1)" using x(1) by simp
    have "(y - c) div k = ?x div k" "(y - c) mod k = ?x mod k + 1"
      using int_div_pos_eq[OF e _ r] int_mod_pos_eq[OF e _ r] x(2) by simp_all
    with d x(2) show ?thesis by (simp add: dvd_eq_mod_eq_0)
  qed
qed

lemma day_from_year_step: "day_from_year (y + 1) = day_from_year y + (if leap_year y then 366 else 365)"
proof -
  have s: "(y - 1968) div 4 = (y - 1 - 1968) div 4 + (if 4 dvd y then 1 else 0)"
    "(y - 1900) div 100 = (y - 1 - 1900) div 100 + (if 100 dvd y then 1 else 0)"
    "(y - 1600) div 400 = (y - 1 - 1600) div 400 + (if 400 dvd y then 1 else 0)"
    by (rule div_step; simp)+
  have "400 dvd y \<longrightarrow> 100 dvd y" "100 dvd y \<longrightarrow> 4 dvd y"
    using dvd_trans[of 100 400 y] dvd_trans[of 4 100 y] by auto
  moreover have "day_from_year (y + 1) = 365 * (y - 1970) + 365 + (y - 1968) div 4 - (y - 1900) div 100 + (y - 1600) div 400"
    by (simp add: day_from_year_def)
  moreover have "day_from_year y = 365 * (y - 1970) + (y - 1 - 1968) div 4 - (y - 1 - 1900) div 100 + (y - 1 - 1600) div 400"
    by (simp add: day_from_year_def)
  ultimately show ?thesis unfolding s leap_year_def
    by (cases "4 dvd y"; cases "100 dvd y"; cases "400 dvd y") simp_all
qed

lemma day_from_year_mono: "y < z \<Longrightarrow> day_from_year y + (if leap_year y then 366 else 365) \<le> day_from_year z"
proof (induction z rule: int_gr_induct)
  case base
  show ?case by (simp only: day_from_year_step)
next
  case (step z)
  then show ?case using day_from_year_step[of z] by (simp split: if_splits)
qed

lemma twelve_cases: "m < 12 \<Longrightarrow> P 0 \<Longrightarrow> P 1 \<Longrightarrow> P 2 \<Longrightarrow> P 3 \<Longrightarrow> P 4 \<Longrightarrow> P 5 \<Longrightarrow> P 6 \<Longrightarrow> P 7 \<Longrightarrow> P 8 \<Longrightarrow> P 9 \<Longrightarrow>
  P 10 \<Longrightarrow> P 11 \<Longrightarrow> P (m :: nat)"
  by (auto simp: numeral_eq_Suc less_Suc_eq)

lemma month_start_mono: "m < n \<Longrightarrow> month_start l m + days_in_month l m \<le> month_start l n"
proof -
  assume "m < n"
  then have "[0..<n] = [0..<m] @ m # [Suc m..<n]" 
    by (metis le_add_diff_inverse less_imp_le_nat upt_add_eq_append upt_conv_Cons le0)
  then show ?thesis by (simp add: month_start_def)
qed

lemma year_length: "m < 12 \<Longrightarrow> month_start l m + days_in_month l m \<le> (if l then 366 else 365)"
  by (erule twelve_cases) (simp_all add: month_start_def days_in_month_def upt_rec)

text \<open>Valid dates are ordered as their day numbers.\<close>

definition date_before :: "js_date \<Rightarrow> js_date \<Rightarrow> bool" where
  "date_before a b \<longleftrightarrow> jd_year a < jd_year b \<or> jd_year a = jd_year b \<and>
     (jd_month a < jd_month b \<or> jd_month a = jd_month b \<and> jd_day a < jd_day b)"

lemma js_day_mono:
  assumes "valid_date a" "valid_date b" "date_before a b"
  shows "js_day a < js_day b"
  using assms(3) unfolding date_before_def
proof (elim disjE conjE)
  assume y: "jd_year a < jd_year b"
  have "js_day a < day_from_year (jd_year a) + (if leap_year (jd_year a) then 366 else 365)"
    using assms(1) year_length[of "jd_month a" "leap_year (jd_year a)"]
    by (auto simp: js_day_def make_day_def valid_date_def)
  also have "\<dots> \<le> day_from_year (jd_year b)" using day_from_year_mono[OF y] .
  also have "\<dots> \<le> js_day b" using assms(2) by (simp add: js_day_def make_day_def valid_date_def)
  finally show ?thesis .
next
  assume "jd_year a = jd_year b" "jd_month a < jd_month b"
  then show ?thesis
    using assms(1,2) month_start_mono[of "jd_month a" "jd_month b" "leap_year (jd_year b)"]
    by (auto simp: js_day_def make_day_def valid_date_def)
qed (simp add: js_day_def make_day_def)

lemma js_day_le:
  assumes "valid_date a" "valid_date b"
  shows "js_day a \<le> js_day b \<longleftrightarrow> \<not> date_before b a"
proof (cases "date_before b a")
  case True
  with js_day_mono[OF assms(2,1)] show ?thesis by simp
next
  case False
  show ?thesis
  proof (cases "date_before a b")
    case True
    with js_day_mono[OF assms True] False show ?thesis by simp
  next
    case n: False
    with False have "jd_year a = jd_year b" "jd_month a = jd_month b" "jd_day a = jd_day b"
      by (auto simp: date_before_def)
    then show ?thesis using False by (simp add: js_day_def)
  qed
qed

subsection \<open>The cutoff\<close>

text \<open>The date that many years earlier: the day with the same name, or the 1st of March where there is
  no 29th of February.\<close>

definition years_before :: "js_date \<Rightarrow> nat \<Rightarrow> js_date" where
  "years_before t n =
     (if jd_month t = 1 \<and> jd_day t = 29 \<and> \<not> leap_year (jd_year t - int n)
      then t\<lparr>jd_year := jd_year t - int n, jd_month := 2, jd_day := 1\<rparr>
      else t\<lparr>jd_year := jd_year t - int n\<rparr>)"

text \<open>Whether a person with the date of birth \<open>dob\<close> has turned \<open>n\<close> on the day \<open>t\<close>, by the calendar.\<close>

definition has_turned :: "js_date \<Rightarrow> nat \<Rightarrow> js_date \<Rightarrow> bool" where
  "has_turned dob n t \<longleftrightarrow> \<not> date_before t (dob\<lparr>jd_year := jd_year dob + int n\<rparr>)"

lemma days_in_month_common: "d \<le> days_in_month l m \<Longrightarrow> m < 12 \<Longrightarrow> \<not> (m = 1 \<and> d = 29) \<Longrightarrow> d \<le> days_in_month l' m"
  by (erule rev_mp, erule rev_mp, erule twelve_cases) (auto simp: days_in_month_def)

lemma years_before_valid:
  assumes "valid_date t" "int n \<le> jd_year t"
  shows "valid_date (years_before t n)" "js_day (years_before t n) = make_day (jd_year t - int n) (jd_month t) (jd_day t)"
proof -
  have m: "month_start l 2 = month_start l 1 + days_in_month l 1" "days_in_month l 2 = 31" for l
    by (simp_all add: month_start_def days_in_month_def upt_rec)
  show "valid_date (years_before t n)"
  proof (cases "jd_month t = 1 \<and> jd_day t = 29")
    case False
    with assms show ?thesis using days_in_month_common by (auto simp: years_before_def valid_date_def)
  next
    case True
    with assms show ?thesis by (auto simp: years_before_def valid_date_def m(2) days_in_month_def)
  qed
  show "js_day (years_before t n) = make_day (jd_year t - int n) (jd_month t) (jd_day t)"
    by (auto simp: js_day_def make_day_def years_before_def m(1) days_in_month_def)
qed

lemma js_day_lower: "valid_date t \<Longrightarrow> -719528 \<le> js_day t"
proof -
  assume v: "valid_date t"
  have "-719528 = day_from_year 0" by (simp add: day_from_year_def)
  also have "\<dots> \<le> day_from_year (jd_year t)"
    using day_from_year_mono[of 0 "jd_year t"] v by (cases "jd_year t = 0") (auto simp: valid_date_def split: if_splits)
  also have "\<dots> \<le> js_day t" using v by (simp add: js_day_def make_day_def valid_date_def)
  finally show ?thesis .
qed

lemma u32_of_int_exact: "0 \<le> x \<Longrightarrow> x \<le> 4294967295 \<Longrightarrow> uint (u32_of_int x) = x"
  by (simp add: u32_of_int_def unsigned_of_int take_bit_int_eq_self)

lemma exact_days:
  assumes "valid_date t" "int (unat n) \<le> jd_year t" "js_day t \<le> 2147483647"
  shows "int (unat (calculate_exact_days_for_years t n)) = js_day t - js_day (years_before t (unat n))"
proof -
  let ?d = "js_day t - js_day (years_before t (unat n))"
  have "js_time t - set_full_year (jd_year t - int (unat n)) t = ?d * 86400000"
    by (simp add: js_time_def set_full_year_def years_before_valid(2)[OF assms(1,2)] algebra_simps)
  moreover have "0 \<le> ?d"
    using js_day_le[OF years_before_valid(1)[OF assms(1,2)] assms(1)] assms(1)
    by (auto simp: date_before_def years_before_def valid_date_def days_in_month_def)
  moreover have "?d \<le> 4294967295"
    using js_day_lower[OF years_before_valid(1)[OF assms(1,2)]] assms(3) by simp
  ultimately show ?thesis using assms(2)
    by (simp only: calculate_exact_days_for_years_def Let_def max.absorb2 diff_ge_0_iff_ge
        nonzero_mult_div_cancel_right[of "86400000 :: int"]) (simp add: u32_of_int_exact)
qed

text \<open>The code's cutoff is the day of that date.\<close>

lemma cutoff_day:
  assumes "valid_date now" "int (unat years) \<le> jd_year now" "int (unat today) = js_day now"
    and "compute_cutoff_days today (calculate_exact_days_for_years now years) = Inr c"
  shows "c = js_day (years_before now (unat years))"
proof -
  from assms(4) have "unat today \<le> 2147483647"
    "c = int (unat today) - int (unat (calculate_exact_days_for_years now years))"
    by (auto simp: compute_cutoff_days_def i32_try_from_def i32_checked_sub_def cutoff_days_new_def
        split: if_splits option.splits sum.splits)
  with exact_days[OF assms(1,2)] assms(3) show ?thesis by simp
qed

lemma march_first: "(m = 1 \<Longrightarrow> d \<le> 28) \<Longrightarrow> 1 \<le> d \<Longrightarrow>
    2 < m \<or> 2 = m \<and> 1 < d \<longleftrightarrow> (1 < m \<or> 1 = m \<and> 29 < d) \<and> \<not> (m = 2 \<and> d = (1 :: nat))" for m :: nat
  by (cases "m = 1") auto

lemma before_shifted:
  assumes "valid_date dob"
  shows "date_before (years_before t n) dob \<longleftrightarrow> date_before t (dob\<lparr>jd_year := jd_year dob + int n\<rparr>) \<and>
    \<not> (jd_month t = 1 \<and> jd_day t = 29 \<and> \<not> leap_year (jd_year t - int n) \<and>
       jd_year dob = jd_year t - int n \<and> jd_month dob = 2 \<and> jd_day dob = 1)"
proof -
  have y: "jd_year t - int n < jd_year dob \<longleftrightarrow> jd_year t < jd_year dob + int n"
    "jd_year t - int n = jd_year dob \<longleftrightarrow> jd_year t = jd_year dob + int n"
    "jd_year dob = jd_year t - int n \<longleftrightarrow> jd_year t = jd_year dob + int n" by linarith+
  show ?thesis
  proof (cases "jd_month t = 1 \<and> jd_day t = 29 \<and> \<not> leap_year (jd_year t - int n)")
    case True
    have f: "days_in_month False 1 = 28" by (simp add: days_in_month_def)
    have "jd_day dob \<le> 28" if e: "jd_year t = jd_year dob + int n" "jd_month dob = 1"
    proof -
      have "\<not> leap_year (jd_year dob)" using True e(1) by simp
      with assms e(2) f show ?thesis unfolding valid_date_def by metis
    qed
    moreover have "1 \<le> jd_day dob" using assms unfolding valid_date_def by blast
    ultimately have m: "jd_year t = jd_year dob + int n \<Longrightarrow> 2 < jd_month dob \<or> 2 = jd_month dob \<and> 1 < jd_day dob \<longleftrightarrow>
        (1 < jd_month dob \<or> 1 = jd_month dob \<and> 29 < jd_day dob) \<and> \<not> (jd_month dob = 2 \<and> jd_day dob = 1)"
      by (intro march_first) blast+
    have b: "years_before t n = t\<lparr>jd_year := jd_year t - int n, jd_month := 2, jd_day := 1\<rparr>"
      using True by (simp only: years_before_def if_True simp_thms)
    have "date_before (years_before t n) dob \<longleftrightarrow> jd_year t < jd_year dob + int n \<or> jd_year t = jd_year dob + int n \<and>
        (2 < jd_month dob \<or> 2 = jd_month dob \<and> 1 < jd_day dob)"
      by (simp add: b date_before_def y)
    moreover have "date_before t (dob\<lparr>jd_year := jd_year dob + int n\<rparr>) \<longleftrightarrow> jd_year t < jd_year dob + int n \<or>
        jd_year t = jd_year dob + int n \<and> (1 < jd_month dob \<or> 1 = jd_month dob \<and> 29 < jd_day dob)"
      using True by (simp only: date_before_def) simp
    moreover have "\<not> (jd_year t < jd_year dob + int n \<and> jd_year t = jd_year dob + int n)" by linarith
    ultimately show ?thesis using True m y(3) by blast
  next
    case False
    then have b: "years_before t n = t\<lparr>jd_year := jd_year t - int n\<rparr>" by (simp only: years_before_def if_False)
    have "date_before (years_before t n) dob \<longleftrightarrow> date_before t (dob\<lparr>jd_year := jd_year dob + int n\<rparr>)"
      by (simp add: b date_before_def y(1,2))
    with False show ?thesis by blast
  qed
qed

text \<open>C5 The cutoff of a challenge separates those who have turned the required age from those who have
  not, to the day and across leap years: a date of birth is on or before the cutoff exactly when the
  birthday of that age has come, with one exception, the 29th of February when that many years before was
  not a leap year, on which a person who turns that age only on the next day, the 1st of March, is accepted
  as well.\<close>

theorem age_cutoff_exact:
  assumes "valid_date now" "int (unat years) \<le> jd_year now" "int (unat today) = js_day now"
    and "compute_cutoff_days today (calculate_exact_days_for_years now years) = Inr c" "valid_date dob"
  shows "js_day dob \<le> c \<longleftrightarrow> has_turned dob (unat years) now \<or>
    jd_month now = 1 \<and> jd_day now = 29 \<and> \<not> leap_year (jd_year now - int (unat years)) \<and>
    jd_year dob = jd_year now - int (unat years) \<and> jd_month dob = 2 \<and> jd_day dob = 1"
proof -
  have "js_day dob \<le> c \<longleftrightarrow> \<not> date_before (years_before now (unat years)) dob"
    using js_day_le[OF assms(5) years_before_valid(1)[OF assms(1,2)]] cutoff_day[OF assms(1-4)] by simp
  moreover have "date_before (years_before now (unat years)) dob \<longleftrightarrow>
      date_before now (dob\<lparr>jd_year := jd_year dob + int (unat years)\<rparr>) \<and>
      \<not> (jd_month now = 1 \<and> jd_day now = 29 \<and> \<not> leap_year (jd_year now - int (unat years)) \<and>
         jd_year dob = jd_year now - int (unat years) \<and> jd_month dob = 2 \<and> jd_day dob = 1)"
    using assms(5) by (rule before_shifted)
  ultimately show ?thesis unfolding has_turned_def by blast
qed

definition sample_date :: js_date where
  "sample_date = \<lparr>jd_year = 2028, jd_month = 1, jd_day = 29, jd_ms = 0\<rparr>"

lemma sample_days: "js_day sample_date = 21243" "valid_date sample_date"
  "js_day \<lparr>jd_year = 2010, jd_month = 2, jd_day = 1, jd_ms = 0\<rparr> = 14669" "make_day 2010 1 29 = 14669"
  by (simp_all add: js_day_def make_day_def day_from_year_def leap_year_def month_start_def days_in_month_def upt_rec
      sample_date_def valid_date_def)

lemma sample_cutoff: "compute_cutoff_days 21243 (calculate_exact_days_for_years sample_date 18) = Inr 14669"
proof -
  have "years_before sample_date 18 = \<lparr>jd_year = 2010, jd_month = 2, jd_day = 1, jd_ms = 0\<rparr>"
    by (simp add: years_before_def leap_year_def sample_date_def)
  then have "int (unat (calculate_exact_days_for_years sample_date 18)) = 6574"
    using exact_days[OF sample_days(2), of 18] sample_days by (simp add: sample_date_def)
  then have e: "calculate_exact_days_for_years sample_date 18 = 6574" by (simp add: word_uint_eq_iff)
  show ?thesis
    unfolding e by (simp add: compute_cutoff_days_def i32_try_from_def i32_checked_sub_def cutoff_days_new_def CUTOFF_MIN_def CUTOFF_MAX_def)
qed

lemma age_cutoff_exact_witness:
  "let dob = \<lparr>jd_year = 2010, jd_month = 2, jd_day = 1, jd_ms = 0\<rparr>
   in compute_cutoff_days 21243 (calculate_exact_days_for_years sample_date 18) = Inr (js_day dob) \<and> \<not> has_turned dob 18 sample_date"
proof -
  let ?dob = "\<lparr>jd_year = 2010, jd_month = 2, jd_day = 1, jd_ms = 0\<rparr>"
  have v: "valid_date ?dob" by (simp add: valid_date_def leap_year_def days_in_month_def)
  from age_cutoff_exact[OF sample_days(2) _ _ sample_cutoff v] sample_days
  have "\<not> has_turned ?dob 18 sample_date \<or> has_turned ?dob 18 sample_date" by (simp add: sample_date_def)
  moreover have "\<not> has_turned ?dob 18 sample_date" by (simp add: has_turned_def date_before_def sample_date_def)
  ultimately show ?thesis unfolding Let_def sample_days(3) sample_cutoff by blast
qed

end
