(* ===== verification/Ban_Store.thy ===== *)
theory Ban_Store imports Origin_Policy begin

text \<open>
  \<open>src/storage/ban_store.rs\<close>: the ban list of credential nullifiers, read from KV and kept in
  memory for five minutes.  Base64 is an argument.  The code keeps the milliseconds of its clock as
  \<open>f64\<close>, exactly as long as they are below \<open>2^53\<close>; the model keeps the integers.
\<close>

record ban_entry =
  bn_is_banned :: bool
  bn_checked_at :: u64

type_synonym ban_cache = "(bytes \<times> ban_entry) list"

definition BAN_CACHE_TTL_MS :: int where "BAN_CACHE_TTL_MS = 300000"
definition BAN_CACHE_MAX_ENTRIES :: nat where "BAN_CACHE_MAX_ENTRIES = 10000"

definition ban_key :: "(bytes \<Rightarrow> string) \<Rightarrow> bytes \<Rightarrow> string" where
  "ban_key b64 nullifier = ''ban:'' @ b64 nullifier"

definition ban_age :: "u64 \<Rightarrow> u64 \<Rightarrow> int" where
  "ban_age now checked_at = int (unat now) - int (unat checked_at)"

definition ban_hit :: "u64 \<Rightarrow> bytes \<Rightarrow> ban_cache \<Rightarrow> bool option" where
  "ban_hit now nullifier cache =
     (case map_of cache nullifier of
        Some e \<Rightarrow> if ban_age now (bn_checked_at e) < BAN_CACHE_TTL_MS then Some (bn_is_banned e) else None
      | None \<Rightarrow> None)"

definition ban_insert :: "u64 \<Rightarrow> bytes \<Rightarrow> bool \<Rightarrow> ban_cache \<Rightarrow> ban_cache" where
  "ban_insert now nullifier banned cache =
     AList.update nullifier \<lparr>bn_is_banned = banned, bn_checked_at = now\<rparr>
       (if length cache \<ge> BAN_CACHE_MAX_ENTRIES then [] else cache)"

text \<open>\<open>read\<close> is what KV answers for a key; it is asked only when the cache does not decide.\<close>

definition is_banned ::
    "(bytes \<Rightarrow> string) \<Rightarrow> u64 \<Rightarrow> bytes \<Rightarrow> (string \<Rightarrow> kv_read) \<Rightarrow> ban_cache \<Rightarrow> bool api_result \<times> ban_cache" where
  "is_banned b64 now nullifier read cache =
     (case ban_hit now nullifier cache of
        Some b \<Rightarrow> (Inr b, cache)
      | None \<Rightarrow>
          (case kv_value ''ban_store KV read'' (read (ban_key b64 nullifier)) of
             Inl e \<Rightarrow> (Inl e, cache)
           | Inr v \<Rightarrow> (Inr (v \<noteq> None), ban_insert now nullifier (v \<noteq> None) cache)))"

subsection \<open>Runs\<close>

text \<open>The lookups of one isolate, in order: time, nullifier, and what KV would answer at that time.\<close>

type_synonym ban_lookup = "u64 \<times> bytes \<times> (string \<Rightarrow> kv_read)"

fun ban_run :: "(bytes \<Rightarrow> string) \<Rightarrow> ban_lookup list \<Rightarrow> ban_cache \<Rightarrow> ban_cache" where
  "ban_run b64 [] cache = cache"
| "ban_run b64 ((now, n, read) # ls) cache = ban_run b64 ls (snd (is_banned b64 now n read cache))"

text \<open>Every entry of the cache was read from KV by an earlier lookup.\<close>

definition ban_backed :: "(bytes \<Rightarrow> string) \<Rightarrow> ban_lookup set \<Rightarrow> ban_cache \<Rightarrow> bool" where
  "ban_backed b64 L cache \<longleftrightarrow>
     (\<forall>n e. map_of cache n = Some e \<longrightarrow>
        (\<exists>read v. (bn_checked_at e, n, read) \<in> L \<and> read (ban_key b64 n) = KvValue v \<and> bn_is_banned e = (v \<noteq> None)))"

lemma ban_backed_empty: "ban_backed b64 L []"
  by (simp add: ban_backed_def)

lemma ban_backed_mono: "ban_backed b64 L cache \<Longrightarrow> L \<subseteq> L' \<Longrightarrow> ban_backed b64 L' cache"
  unfolding ban_backed_def by blast

lemma kv_value_Inr: "kv_value m r = Inr v \<longleftrightarrow> r = KvValue v"
  by (cases r) (auto simp: kv_value_def)

lemma ban_backed_step:
  assumes "ban_backed b64 L cache" "(now, n, read) \<in> L" "is_banned b64 now n read cache = (r, cache')"
  shows "ban_backed b64 L cache'"
proof (cases "cache' = cache")
  case False
  with assms(3) obtain v where v: "read (ban_key b64 n) = KvValue v" "cache' = ban_insert now n (v \<noteq> None) cache"
    by (auto simp: is_banned_def kv_value_Inr split: option.splits sum.splits)
  with assms(1,2) show ?thesis
    by (auto simp: ban_backed_def ban_insert_def update_conv')
qed (use assms in simp)

lemma ban_run_backed: "ban_backed b64 L cache \<Longrightarrow> set ls \<subseteq> L \<Longrightarrow> ban_backed b64 L (ban_run b64 ls cache)"
proof (induction ls arbitrary: cache)
  case (Cons l ls)
  obtain now n read where l: "l = (now, n, read)" by (cases l) auto
  with Cons ban_backed_step[of b64 L cache now n read] show ?case
    by (cases "is_banned b64 now n read cache") auto
qed simp

lemma ban_answer_backed:
  assumes "ban_backed b64 L cache" "(now, n, read) \<in> L" "fst (is_banned b64 now n read cache) = Inr b"
  shows "\<exists>t read' v. (t, n, read') \<in> L \<and> read' (ban_key b64 n) = KvValue v \<and> b = (v \<noteq> None) \<and>
    ban_age now t < BAN_CACHE_TTL_MS"
proof (cases "ban_hit now n cache")
  case (Some b')
  with assms(3) have "b' = b" by (simp add: is_banned_def)
  with Some obtain e where "map_of cache n = Some e" "ban_age now (bn_checked_at e) < BAN_CACHE_TTL_MS" "bn_is_banned e = b"
    by (auto simp: ban_hit_def split: option.splits if_splits)
  with assms(1) show ?thesis unfolding ban_backed_def by blast
next
  case None
  with assms(3) obtain v where "read (ban_key b64 n) = KvValue v" "b = (v \<noteq> None)"
    by (auto simp: is_banned_def kv_value_Inr split: sum.splits)
  with assms(2) show ?thesis
    by (intro exI[of _ now] exI[of _ read] exI[of _ v]) (simp add: ban_age_def BAN_CACHE_TTL_MS_def)
qed

lemma ban_cache_bounded:
  "length cache \<le> BAN_CACHE_MAX_ENTRIES \<Longrightarrow> length (ban_run b64 ls cache) \<le> BAN_CACHE_MAX_ENTRIES"
proof (induction ls arbitrary: cache)
  case (Cons l ls)
  obtain now n read where l: "l = (now, n, read)" by (cases l) auto
  have "length (ban_insert now n b cache) \<le> BAN_CACHE_MAX_ENTRIES" for b
    using Cons.prems by (auto simp: ban_insert_def BAN_CACHE_MAX_ENTRIES_def intro: order_trans[OF length_update_le])
  then have "length (snd (is_banned b64 now n read cache)) \<le> BAN_CACHE_MAX_ENTRIES"
    using Cons.prems by (simp add: is_banned_def split: option.splits sum.splits)
  with Cons.IH show ?case by (simp add: l)
qed simp

subsection \<open>Properties\<close>

text \<open>C29 A ban takes effect within five minutes: when every read of the nullifier's entry since the
  time \<open>since\<close> finds it or fails, a lookup at least 300 seconds later, after any lookups of the
  isolate, answers that the credential is banned or fails; and the cache never grows beyond its bound.\<close>

theorem ban_takes_effect:
  assumes "\<And>t read. (t, n, read) \<in> set ls \<union> {(now, n, read_now)} \<Longrightarrow> since \<le> t \<Longrightarrow> read (ban_key b64 n) \<noteq> KvValue None"
    and "ban_age now since \<ge> BAN_CACHE_TTL_MS"
  shows "fst (is_banned b64 now n read_now (ban_run b64 ls [])) \<noteq> Inr False \<and>
    length (ban_run b64 ls []) \<le> BAN_CACHE_MAX_ENTRIES"
proof
  let ?L = "set ls \<union> {(now, n, read_now)}"
  have "ban_backed b64 ?L (ban_run b64 ls [])"
    by (rule ban_run_backed) (auto simp: ban_backed_empty)
  note answer = ban_answer_backed[OF this, of now n read_now]
  show "fst (is_banned b64 now n read_now (ban_run b64 ls [])) \<noteq> Inr False"
  proof
    assume "fst (is_banned b64 now n read_now (ban_run b64 ls [])) = Inr False"
    from answer[OF _ this] obtain t read where t: "(t, n, read) \<in> ?L" "read (ban_key b64 n) = KvValue None"
      "ban_age now t < BAN_CACHE_TTL_MS" by auto
    with assms(2) have "since \<le> t" by (simp add: ban_age_def word_le_def)
    from assms(1)[OF t(1) this] t(2) show False by simp
  qed
  show "length (ban_run b64 ls []) \<le> BAN_CACHE_MAX_ENTRIES"
    by (rule ban_cache_bounded) simp
qed

lemma ban_takes_effect_witness:
  "fst (is_banned (\<lambda>_. ''n'') 400000 [7] (\<lambda>_. KvValue (Some ''ban'')) (ban_run (\<lambda>_. ''n'') [(50000, [7], \<lambda>_. KvValue None)] []))
     \<noteq> Inr False"
proof -
  let ?ls = "[(50000, [7], \<lambda>_. KvValue None)] :: ban_lookup list"
  let ?now = "\<lambda>_ :: string. KvValue (Some ''ban'')"
  have "read (ban_key (\<lambda>_. ''n'') [7]) \<noteq> KvValue None"
    if "(t, [7], read) \<in> set ?ls \<union> {(400000, [7], ?now)}" "100000 \<le> t" for t read
    using that by (auto simp: word_le_nat_alt)
  moreover have "ban_age 400000 100000 \<ge> BAN_CACHE_TTL_MS" by (simp add: ban_age_def BAN_CACHE_TTL_MS_def)
  ultimately show ?thesis using ban_takes_effect[of "[7]" ?ls 400000 ?now 100000 "\<lambda>_. ''n''"] by blast
qed

text \<open>A lifted ban is still enforced: for five minutes after a lookup has found the entry every
  lookup answers that the credential is banned, whatever KV holds by then, although only negative
  answers are said to be kept.\<close>

theorem lifted_ban_kept:
  assumes "read (ban_key b64 n) = KvValue (Some v)" "ban_hit t n cache = None" "ban_age now t < BAN_CACHE_TTL_MS"
  shows "fst (is_banned b64 now n read' (snd (is_banned b64 t n read cache))) = Inr True"
proof -
  have "snd (is_banned b64 t n read cache) = ban_insert t n True cache"
    using assms(1,2) by (simp add: is_banned_def kv_value_def)
  moreover have "ban_hit now n (ban_insert t n True cache) = Some True"
    using assms(3) by (simp add: ban_hit_def ban_insert_def update_conv')
  ultimately show ?thesis by (simp add: is_banned_def)
qed

lemma lifted_ban_kept_witness:
  "fst (is_banned (\<lambda>_. ''n'') 299999 [7] (\<lambda>_. KvValue None)
     (snd (is_banned (\<lambda>_. ''n'') 0 [7] (\<lambda>_. KvValue (Some ''ban'')) []))) = Inr True"
  by (rule lifted_ban_kept) (simp_all add: ban_hit_def ban_age_def BAN_CACHE_TTL_MS_def)

end
