(* ===== verification/Issuer_Registry.thy ===== *)
theory Issuer_Registry imports Origin_Policy begin

text \<open>
  \<open>src/storage/jwks.rs\<close>: the registry of trusted issuers, read from KV into a cache that is
  served while fresh (10 minutes), served while it is refreshed in the background (16 minutes),
  and served after a failed refresh up to a hard limit of one hour; with a circuit breaker for
  KV and an epoch that discards a refresh which an invalidation overtakes.  Blake2s, base64, the
  Jubjub subgroup test and serde_json are arguments.
\<close>

definition CACHE_TTL_SECS :: u64 where "CACHE_TTL_SECS = 600"
definition STALE_CACHE_TTL_SECS :: u64 where "STALE_CACHE_TTL_SECS = 960"
definition HARD_MAX_CACHE_TTL_SECS :: u64 where "HARD_MAX_CACHE_TTL_SECS = 3600"
definition MAX_CONSECUTIVE_FAILURES :: u32 where "MAX_CONSECUTIVE_FAILURES = 3"
definition CIRCUIT_BREAKER_RESET_SECS :: u64 where "CIRCUIT_BREAKER_RESET_SECS = 300"

lemmas registry_consts = CACHE_TTL_SECS_def STALE_CACHE_TTL_SECS_def HARD_MAX_CACHE_TTL_SECS_def

record issuer_meta =
  im_kid :: string
  im_name :: string
  im_revoked :: bool
  im_vk_bytes :: bytes

record registry_entry =
  ie_issuer_kid :: string
  ie_issuer_id :: "string option"
  ie_issuer_key_hash :: string
  ie_verification_key :: string
  ie_organization_name :: string
  ie_organization_id :: "string option"
  ie_environment :: "string option"
  ie_created_at :: u64
  ie_revoked :: bool
  ie_revoked_at :: "u64 option"
  ie_revoked_reason :: "string option"

subsection \<open>The circuit breaker\<close>

record circuit_breaker =
  cb_consecutive_failures :: u32
  cb_last_failure_time :: u64
  cb_is_open :: bool

definition breaker_new :: circuit_breaker where
  "breaker_new = \<lparr>cb_consecutive_failures = 0, cb_last_failure_time = 0, cb_is_open = False\<rparr>"

definition should_attempt :: "circuit_breaker \<Rightarrow> u64 \<Rightarrow> bool" where
  "should_attempt b now \<longleftrightarrow>
     (if \<not> cb_is_open b then True else sat_sub now (cb_last_failure_time b) > CIRCUIT_BREAKER_RESET_SECS)"

definition record_success :: "circuit_breaker \<Rightarrow> circuit_breaker" where
  "record_success b = b\<lparr>cb_consecutive_failures := 0, cb_is_open := False\<rparr>"

definition record_failure :: "u64 \<Rightarrow> circuit_breaker \<Rightarrow> circuit_breaker" where
  "record_failure now b =
     (let n = sat_add (cb_consecutive_failures b) 1 in
      b\<lparr>cb_consecutive_failures := n, cb_last_failure_time := now,
        cb_is_open := (if n \<ge> MAX_CONSECUTIVE_FAILURES then True else cb_is_open b)\<rparr>)"

subsection \<open>The cache\<close>

type_synonym issuer_map = "(bytes \<times> issuer_meta) list"

record registry =
  rg_cache :: issuer_map
  rg_last_refresh :: u64
  rg_breaker :: circuit_breaker
  rg_in_progress :: bool
  rg_epoch :: u64

definition registry_new :: registry where
  "registry_new = \<lparr>rg_cache = [], rg_last_refresh = 0, rg_breaker = breaker_new, rg_in_progress = False, rg_epoch = 0\<rparr>"

record registry_env =
  ge_blake2s :: "bytes \<Rightarrow> bytes"
  ge_decode :: "string \<Rightarrow> bytes option"
  ge_subgroup_point :: "bytes \<Rightarrow> bool"
  ge_parse :: "string \<Rightarrow> string + registry_entry"

definition peek_issuer :: "bytes \<Rightarrow> registry \<Rightarrow> issuer_meta option" where
  "peek_issuer h g = map_of (rg_cache g) h"

definition is_stale :: "u64 \<Rightarrow> registry \<Rightarrow> bool" where
  "is_stale now g \<longleftrightarrow> sat_sub now (rg_last_refresh g) > CACHE_TTL_SECS"

definition is_extremely_stale :: "u64 \<Rightarrow> registry \<Rightarrow> bool" where
  "is_extremely_stale now g \<longleftrightarrow> sat_sub now (rg_last_refresh g) > STALE_CACHE_TTL_SECS"

definition is_beyond_hard_max :: "u64 \<Rightarrow> registry \<Rightarrow> bool" where
  "is_beyond_hard_max now g \<longleftrightarrow>
     rg_last_refresh g = 0 \<or> sat_sub now (rg_last_refresh g) > HARD_MAX_CACHE_TTL_SECS"

definition try_start_refresh :: "registry \<Rightarrow> bool \<times> registry" where
  "try_start_refresh g = (if rg_in_progress g then (False, g) else (True, g\<lparr>rg_in_progress := True\<rparr>))"

definition finish_refresh :: "registry \<Rightarrow> registry" where
  "finish_refresh g = g\<lparr>rg_in_progress := False\<rparr>"

definition invalidate_registry :: "registry \<Rightarrow> registry" where
  "invalidate_registry g = g\<lparr>rg_epoch := rg_epoch g + 1, rg_cache := [], rg_last_refresh := 0\<rparr>"

subsection \<open>Reading the registry from KV\<close>

text \<open>The outcome of listing the keys with prefix \<open>issuer:\<close>, with its timeout.\<close>

datatype kv_listing = KvListError string | KvListTimeout | KvList bool "string list"

definition KV_LIST_TIMEOUT_MS :: nat where "KV_LIST_TIMEOUT_MS = 1000"

record registry_read =
  gr_list :: kv_listing
  gr_get :: "string \<Rightarrow> kv_read"

text \<open>An entry that cannot be read or parsed is skipped.\<close>

definition read_entry :: "registry_env \<Rightarrow> kv_read \<Rightarrow> registry_entry option" where
  "read_entry env r =
     (case r of
        KvValue (Some v) \<Rightarrow> (case ge_parse env v of Inr e \<Rightarrow> Some e | Inl _ \<Rightarrow> None)
      | _ \<Rightarrow> None)"

definition fetch_from_kv :: "registry_env \<Rightarrow> registry_read \<Rightarrow> registry_entry list api_result" where
  "fetch_from_kv env rd =
     (case gr_list rd of
        KvListError e \<Rightarrow> Inl (Internal (''KV list failed: '' @ e))
      | KvListTimeout \<Rightarrow>
          Inl (Internal (''issuer_registry KV list timed out after '' @ show_nat KV_LIST_TIMEOUT_MS @ ''ms''))
      | KvList complete keys \<Rightarrow>
          if \<not> complete then Inl (Internal ''Issuer registry KV list truncated (list_complete=false)'')
          else Inr (List.map_filter (\<lambda>k. read_entry env (gr_get rd k)) keys))"

definition issuer_key_hash :: "registry_env \<Rightarrow> bytes \<Rightarrow> bytes" where
  "issuer_key_hash env vk = ge_blake2s env (string_bytes ''provii.issuer.vk.v0'' @ vk)"

definition entry_meta :: "registry_env \<Rightarrow> registry_entry \<Rightarrow> (bytes \<times> issuer_meta) option" where
  "entry_meta env e =
     (case ge_decode env (ie_verification_key e) of
        None \<Rightarrow> None
      | Some vk \<Rightarrow>
          if length vk = 32 then
            (if \<not> ge_subgroup_point env vk then None
             else Some (issuer_key_hash env vk,
                    \<lparr>im_kid = ie_issuer_kid e, im_name = ie_organization_name e,
                     im_revoked = ie_revoked e, im_vk_bytes = vk\<rparr>))
          else None)"

fun build_cache :: "registry_env \<Rightarrow> registry_entry list \<Rightarrow> issuer_map \<Rightarrow> issuer_map" where
  "build_cache env [] new_cache = new_cache"
| "build_cache env (e # es) new_cache =
     build_cache env es
       (case entry_meta env e of Some (h, meta) \<Rightarrow> AList.update h meta new_cache | None \<Rightarrow> new_cache)"

text \<open>The end of \<open>refresh\<close>, when KV has answered: the epoch guard and the publication at time \<open>now\<close>.\<close>

definition publish ::
    "registry_env \<Rightarrow> registry_entry list api_result \<Rightarrow> u64 \<Rightarrow> u64 \<Rightarrow> registry \<Rightarrow> unit api_result \<times> registry" where
  "publish env fetched epoch_before now g =
     (case fetched of
        Inl e \<Rightarrow> (Inl e, g)
      | Inr entries \<Rightarrow>
          if rg_epoch g \<noteq> epoch_before then (Inr (), g)
          else (Inr (), g\<lparr>rg_cache := build_cache env entries [], rg_last_refresh := now\<rparr>))"

text \<open>\<open>other\<close> is what other requests of the isolate do to the registry while KV is being read.\<close>

definition refresh ::
    "registry_env \<Rightarrow> registry_read \<Rightarrow> (registry \<Rightarrow> registry) \<Rightarrow> u64 \<Rightarrow> registry \<Rightarrow> unit api_result \<times> registry" where
  "refresh env rd other now g = publish env (fetch_from_kv env rd) (rg_epoch g) now (other g)"

text \<open>The times at which a lookup reads the clock: itself, for the breaker, and at publication.\<close>

record registry_clock =
  gc_lookup :: u64
  gc_try :: u64
  gc_publish :: u64

definition try_refresh ::
    "registry_env \<Rightarrow> registry_read \<Rightarrow> (registry \<Rightarrow> registry) \<Rightarrow> registry_clock \<Rightarrow> registry \<Rightarrow>
     unit api_result \<times> registry" where
  "try_refresh env rd other t g =
     (if \<not> should_attempt (rg_breaker g) (gc_try t)
      then (Inl (Internal ''Circuit breaker open for issuer registry''), finish_refresh g)
      else case refresh env rd other (gc_publish t) g of
             (Inr _, g') \<Rightarrow> (Inr (), finish_refresh (g'\<lparr>rg_breaker := record_success (rg_breaker g')\<rparr>))
           | (Inl e, g') \<Rightarrow>
               (Inl e, finish_refresh (g'\<lparr>rg_breaker := record_failure (gc_try t) (rg_breaker g')\<rparr>)))"

definition cached_or :: "api_error \<Rightarrow> bytes \<Rightarrow> registry \<Rightarrow> issuer_meta api_result" where
  "cached_or e h g = (case map_of (rg_cache g) h of Some m \<Rightarrow> Inr m | None \<Rightarrow> Inl e)"

text \<open>
  \<open>dispatch_background\<close> hands the refresh to the Worker's context, or gives it up when there is
  none; the answer tells whether a background refresh was started.
\<close>

definition dispatch_background :: "bool \<Rightarrow> registry \<Rightarrow> bool \<times> registry" where
  "dispatch_background context g = (if context then (True, g) else (False, finish_refresh g))"

definition background_refresh ::
    "registry_env \<Rightarrow> registry_read \<Rightarrow> (registry \<Rightarrow> registry) \<Rightarrow> registry_clock \<Rightarrow> registry \<Rightarrow> registry" where
  "background_refresh env rd other t g = finish_refresh (snd (try_refresh env rd other t g))"

definition lookup_issuer ::
    "registry_env \<Rightarrow> bool \<Rightarrow> registry_read \<Rightarrow> (registry \<Rightarrow> registry) \<Rightarrow> registry_clock \<Rightarrow> bytes \<Rightarrow> registry \<Rightarrow>
     (issuer_meta api_result \<times> bool) \<times> registry" where
  "lookup_issuer env context rd other t h g =
     (if \<not> is_stale (gc_lookup t) g then ((cached_or NotFound h g, False), g)
      else if is_extremely_stale (gc_lookup t) g then
        (case try_refresh env rd other t g of
           (Inr _, g') \<Rightarrow> ((cached_or NotFound h g', False), g')
         | (Inl _, g') \<Rightarrow>
             if is_beyond_hard_max (gc_lookup t) g'
             then ((Inl (Internal ''Issuer registry unavailable: cache expired beyond hard maximum''), False), g')
             else ((cached_or (Internal ''Issuer registry unavailable and no cached data'') h g', False), g'))
      else
        (let (started, g') = (case try_start_refresh g of
                (True, g1) \<Rightarrow> dispatch_background context g1
              | (False, g1) \<Rightarrow> (False, g1))
         in ((cached_or NotFound h g', started), g')))"

definition prewarm ::
    "registry_env \<Rightarrow> registry_read \<Rightarrow> (registry \<Rightarrow> registry) \<Rightarrow> u64 \<Rightarrow> registry \<Rightarrow> registry" where
  "prewarm env rd other now g = snd (refresh env rd other now g)"

record cache_stats =
  cs_cache_size :: nat
  cs_last_refresh_age_secs :: u64
  cs_refresh_in_progress :: bool

definition get_cache_stats :: "u64 \<Rightarrow> registry \<Rightarrow> cache_stats" where
  "get_cache_stats now g =
     \<lparr>cs_cache_size = length (rg_cache g),
      cs_last_refresh_age_secs = (if rg_last_refresh g > 0 then sat_sub now (rg_last_refresh g) else 0),
      cs_refresh_in_progress = rg_in_progress g\<rparr>"

subsection \<open>The circuit breaker\<close>

text \<open>The breaker after a sequence of refreshes, each with its time and whether it succeeded.\<close>

definition breaker_after :: "(u64 \<times> bool) list \<Rightarrow> circuit_breaker" where
  "breaker_after outcomes =
     foldl (\<lambda>b (now, success). if success then record_success b else record_failure now b) breaker_new outcomes"

text \<open>The failures since the last success, the latest first.\<close>

definition recent_failures :: "(u64 \<times> bool) list \<Rightarrow> (u64 \<times> bool) list" where
  "recent_failures outcomes = takeWhile (\<lambda>(_, success). \<not> success) (rev outcomes)"

lemma breaker_after_snoc:
  "breaker_after (os @ [(now, success)]) =
     (if success then record_success (breaker_after os) else record_failure now (breaker_after os))"
  by (simp add: breaker_after_def)

lemma breaker_after_counts:
  "unat (cb_consecutive_failures (breaker_after os)) = min (length (recent_failures os)) (2 ^ 32 - 1) \<and>
   (cb_is_open (breaker_after os) \<longleftrightarrow> 3 \<le> length (recent_failures os)) \<and>
   (recent_failures os = [] \<or> cb_last_failure_time (breaker_after os) = fst (hd (recent_failures os)))"
proof (induction os rule: rev_induct)
  case Nil
  show ?case by (simp add: breaker_after_def breaker_new_def recent_failures_def)
next
  case (snoc x os)
  obtain now success where x: "x = (now, success)" by (cases x)
  show ?case
  proof (cases success)
    case True
    then show ?thesis by (simp add: x breaker_after_snoc record_success_def recent_failures_def)
  next
    case False
    have f: "recent_failures (os @ [x]) = x # recent_failures os"
      using False by (simp add: recent_failures_def x)
    have n: "unat (sat_add (cb_consecutive_failures (breaker_after os)) 1) =
        min (Suc (length (recent_failures os))) (2 ^ 32 - 1)"
      using snoc.IH by (simp add: unat_sat_add)
    then have "MAX_CONSECUTIVE_FAILURES \<le> sat_add (cb_consecutive_failures (breaker_after os)) 1 \<longleftrightarrow>
        3 \<le> Suc (length (recent_failures os))"
      by (auto simp: word_le_nat_alt MAX_CONSECUTIVE_FAILURES_def)
    with n f snoc.IH False show ?thesis
      by (auto simp: x breaker_after_snoc record_failure_def Let_def)
  qed
qed

lemma should_attempt_after:
  "should_attempt (breaker_after outcomes) now \<longleftrightarrow>
     length (recent_failures outcomes) < 3 \<or> sat_sub now (fst (hd (recent_failures outcomes))) > 300"
  using breaker_after_counts[of outcomes]
  by (auto simp: should_attempt_def CIRCUIT_BREAKER_RESET_SECS_def)

text \<open>The circuit breaker is what it is meant to be: after any sequence of refreshes it refuses
  another attempt exactly when the last three or more of them failed and the latest failure is at
  most 300 seconds old; one success closes it.\<close>

theorem breaker_exact:
  "should_attempt (breaker_after outcomes) now \<longleftrightarrow>
     length (recent_failures outcomes) < 3 \<or> sat_sub now (fst (hd (recent_failures outcomes))) > 300"
  by (rule should_attempt_after)

subsection \<open>What the cache holds\<close>

lemma build_cache_listed:
  assumes "map_of (build_cache env es c) h = Some m"
  shows "map_of c h = Some m \<or> (\<exists>e\<in>set es. entry_meta env e = Some (h, m))"
  using assms
proof (induction es arbitrary: c)
  case (Cons e es)
  then show ?case
  proof (cases "entry_meta env e")
    case (Some hm)
    then obtain h' m' where hm: "entry_meta env e = Some (h', m')" by (cases hm) auto
    with Cons.prems Cons.IH[of "AList.update h' m' c"] show ?thesis
      by (auto simp: update_conv' split: if_splits)
  qed auto
qed simp

lemma build_cache_unlisted:
  "(\<And>e m. e \<in> set es \<Longrightarrow> entry_meta env e \<noteq> Some (h, m)) \<Longrightarrow> map_of c h = None \<Longrightarrow>
     map_of (build_cache env es c) h = None"
proof (induction es arbitrary: c)
  case (Cons e es)
  have "map_of (case entry_meta env e of Some (h, meta) \<Rightarrow> AList.update h meta c | None \<Rightarrow> c) h = None"
    using Cons.prems by (auto simp: update_conv' split: option.splits)
  with Cons show ?case by simp
qed simp

text \<open>
  What the requests of one isolate do to the registry, from the time \<open>since\<close> on: invalidations,
  publications of what was read from KV (\<open>scans\<close>, with the times of publication), and the
  breaker and the flag.
\<close>

inductive registry_step ::
    "registry_env \<Rightarrow> (u64 \<times> registry_entry list) set \<Rightarrow> u64 \<Rightarrow> registry \<Rightarrow> registry \<Rightarrow> bool"
  for env scans since where
  Invalidation: "registry_step env scans since g (invalidate_registry g)"
| Publication: "(now, entries) \<in> scans \<Longrightarrow> since \<le> now \<Longrightarrow>
    registry_step env scans since g (snd (publish env (Inr entries) epoch now g))"
| Bookkeeping: "registry_step env scans since g (g\<lparr>rg_breaker := b, rg_in_progress := f\<rparr>)"

inductive_cases registry_stepE: "registry_step env scans since g g'"

text \<open>The cache is empty or holds one scan, published at the time of the last refresh.\<close>

definition registry_inv :: "registry_env \<Rightarrow> (u64 \<times> registry_entry list) set \<Rightarrow> registry \<Rightarrow> bool" where
  "registry_inv env scans g \<longleftrightarrow>
     rg_cache g = [] \<or> (\<exists>es. (rg_last_refresh g, es) \<in> scans \<and> rg_cache g = build_cache env es [])"

lemma registry_inv_new: "registry_inv env scans registry_new"
  by (simp add: registry_inv_def registry_new_def)

lemma publish_inv:
  "registry_inv env scans g \<Longrightarrow> (\<And>es. fetched = Inr es \<Longrightarrow> (now, es) \<in> scans) \<Longrightarrow>
     registry_inv env scans (snd (publish env fetched epoch now g))"
  by (auto simp: publish_def registry_inv_def split: sum.split)

lemma registry_inv_breaker [simp]: "registry_inv env scans (g\<lparr>rg_breaker := b\<rparr>) = registry_inv env scans g"
  by (simp add: registry_inv_def)

lemma registry_inv_flag [simp]: "registry_inv env scans (g\<lparr>rg_in_progress := f\<rparr>) = registry_inv env scans g"
  by (simp add: registry_inv_def)

lemma registry_inv_invalidated [simp]: "registry_inv env scans (invalidate_registry g)"
  by (simp add: registry_inv_def invalidate_registry_def)

lemma registry_step_inv: "registry_step env scans since g g' \<Longrightarrow> registry_inv env scans g \<Longrightarrow> registry_inv env scans g'"
  by (erule registry_stepE) (auto intro!: publish_inv)

lemma registry_run_inv:
  "(registry_step env scans since)\<^sup>*\<^sup>* g g' \<Longrightarrow> registry_inv env scans g \<Longrightarrow> registry_inv env scans g'"
  by (induction rule: rtranclp_induct) (auto intro: registry_step_inv)

text \<open>After an invalidation the cache only holds what was published since.\<close>

lemma registry_run_since:
  "(registry_step env scans since)\<^sup>*\<^sup>* g g' \<Longrightarrow>
     rg_epoch g' = rg_epoch g \<or> rg_cache g' = [] \<or> since \<le> rg_last_refresh g'"
proof (induction rule: rtranclp_induct)
  case (step g1 g2)
  from step.hyps(2) step.IH show ?case
    by (elim registry_stepE) (auto simp: invalidate_registry_def publish_def)
qed simp

lemma inv_served:
  assumes "registry_inv env scans g" "map_of (rg_cache g) h = Some m"
  shows "\<exists>es e. (rg_last_refresh g, es) \<in> scans \<and> e \<in> set es \<and> entry_meta env e = Some (h, m)"
proof -
  from assms obtain es where es: "(rg_last_refresh g, es) \<in> scans" "map_of (build_cache env es []) h = Some m"
    by (auto simp: registry_inv_def)
  with build_cache_listed[OF es(2)] show ?thesis by auto
qed

lemma publish_times:
  "publish env fetched epoch now g = (Inr (), g') \<Longrightarrow> rg_epoch g = epoch \<longrightarrow> rg_last_refresh g' = now"
  "publish env fetched epoch now g = (Inr (), g') \<Longrightarrow> rg_epoch g \<noteq> epoch \<Longrightarrow> g' = g"
  "publish env fetched epoch now g = (Inl e, g') \<Longrightarrow> g' = g"
  by (auto simp: publish_def split: sum.splits if_splits)

lemma finish_refresh_same [simp]:
  "rg_cache (finish_refresh g) = rg_cache g" "rg_last_refresh (finish_refresh g) = rg_last_refresh g"
  "rg_epoch (finish_refresh g) = rg_epoch g" "rg_breaker (finish_refresh g) = rg_breaker g"
  "registry_inv env scans (finish_refresh g) = registry_inv env scans g"
  by (simp_all add: finish_refresh_def registry_inv_def)

text \<open>A refresh keeps the invariant, and a successful one leaves only what is at least as new as its start.\<close>

lemma try_refresh_cases:
  assumes "registry_inv env scans g" "(registry_step env scans since)\<^sup>*\<^sup>* g (other g)"
    and "\<And>es. fetch_from_kv env rd = Inr es \<Longrightarrow> (gc_publish t, es) \<in> scans" "since \<le> gc_publish t"
    and "try_refresh env rd other t g = (r, g')"
  shows "registry_inv env scans g' \<and> (r = Inr () \<longrightarrow> rg_cache g' = [] \<or> since \<le> rg_last_refresh g')"
proof (cases "should_attempt (rg_breaker g) (gc_try t)")
  case False
  with assms(1,5) show ?thesis by (auto simp: try_refresh_def)
next
  case True
  obtain x g1 where p: "publish env (fetch_from_kv env rd) (rg_epoch g) (gc_publish t) (other g) = (x, g1)" by fastforce
  have inv: "registry_inv env scans g1"
    using publish_inv[OF registry_run_inv[OF assms(2,1)] assms(3), of "fetch_from_kv env rd" "rg_epoch g"] p by simp
  have same: "rg_cache g' = rg_cache g1" "rg_last_refresh g' = rg_last_refresh g1" "registry_inv env scans g'" "r = x"
    using assms(5) True p inv by (auto simp: try_refresh_def refresh_def split: sum.splits)
  have "rg_cache g1 = [] \<or> since \<le> rg_last_refresh g1" if "x = Inr ()"
  proof (cases "rg_epoch (other g) = rg_epoch g")
    case True
    with publish_times(1)[OF p[unfolded that]] assms(4) show ?thesis by simp
  next
    case False
    with publish_times(2)[OF p[unfolded that] False] registry_run_since[OF assms(2)] show ?thesis by simp
  qed
  with same show ?thesis by auto
qed

lemma lookup_refreshed:
  assumes "is_extremely_stale (gc_lookup t) g" "should_attempt (rg_breaker g) (gc_try t)"
    and "fetch_from_kv env rd = Inr es" "rg_epoch (other g) = rg_epoch g"
    and "lookup_issuer env context rd other t h g = ((r, started), g')"
  shows "r = (case map_of (build_cache env es []) h of Some m \<Rightarrow> Inr m | None \<Rightarrow> Inl NotFound) \<and>
    rg_cache g' = build_cache env es [] \<and> rg_last_refresh g' = gc_publish t \<and> rg_breaker g' = record_success (rg_breaker (other g))"
proof -
  have "is_stale (gc_lookup t) g"
    using assms(1) by (auto simp: is_stale_def is_extremely_stale_def registry_consts word_less_nat_alt)
  with assms show ?thesis
    by (auto simp: lookup_issuer_def try_refresh_def refresh_def publish_def cached_or_def split: option.splits)
qed

subsection \<open>A sample registry\<close>

definition sample_entry :: registry_entry where
  "sample_entry = \<lparr>ie_issuer_kid = ''kid1'', ie_issuer_id = None, ie_issuer_key_hash = ''h'', ie_verification_key = ''k'',
     ie_organization_name = ''Issuer'', ie_organization_id = None, ie_environment = None, ie_created_at = 0,
     ie_revoked = False, ie_revoked_at = None, ie_revoked_reason = None\<rparr>"

definition sample_meta :: issuer_meta where
  "sample_meta = \<lparr>im_kid = ''kid1'', im_name = ''Issuer'', im_revoked = False, im_vk_bytes = replicate 32 7\<rparr>"

definition sample_registry_env :: registry_env where
  "sample_registry_env = \<lparr>ge_blake2s = take 32, ge_decode = (\<lambda>_. Some (replicate 32 7)), ge_subgroup_point = (\<lambda>_. True),
     ge_parse = (\<lambda>_. Inr sample_entry)\<rparr>"

definition sample_hash :: bytes where
  "sample_hash = issuer_key_hash sample_registry_env (replicate 32 7)"

definition sample_registry_read :: "kv_read \<Rightarrow> registry_read" where
  "sample_registry_read r = \<lparr>gr_list = KvList True [''issuer:1''], gr_get = (\<lambda>_. r)\<rparr>"

definition at_second :: "u64 \<Rightarrow> registry_clock" where
  "at_second n = \<lparr>gc_lookup = n, gc_try = n, gc_publish = n\<rparr>"

lemma at_second_simps [simp]: "gc_lookup (at_second n) = n" "gc_try (at_second n) = n" "gc_publish (at_second n) = n"
  by (simp_all add: at_second_def)

lemma sample_entry_meta [simp]: "entry_meta sample_registry_env sample_entry = Some (sample_hash, sample_meta)"
  by (simp add: entry_meta_def sample_registry_env_def sample_entry_def sample_meta_def sample_hash_def)

lemma sample_fetch [simp]:
  "fetch_from_kv sample_registry_env (sample_registry_read (KvValue (Some ''x''))) = Inr [sample_entry]"
  by (simp add: fetch_from_kv_def sample_registry_read_def read_entry_def sample_registry_env_def map_filter_simps)

subsection \<open>What is served\<close>

text \<open>C26 An issuer is only served as a scan of the registry lists it, with a decodable key in the
  subgroup that hashes to the requested value, and only when that scan was published at most an
  hour before, whatever requests, refreshes and invalidations run meanwhile.\<close>

theorem registry_serves_listed:
  assumes "registry_inv env scans g" "(registry_step env scans (gc_lookup t))\<^sup>*\<^sup>* g (other g)"
    and "\<And>es. fetch_from_kv env rd = Inr es \<Longrightarrow> (gc_publish t, es) \<in> scans" "gc_lookup t \<le> gc_publish t"
    and "lookup_issuer env context rd other t h g = ((Inr m, started), g')"
  shows "\<exists>published es e. (published, es) \<in> scans \<and> e \<in> set es \<and> entry_meta env e = Some (h, m) \<and>
    sat_sub (gc_lookup t) published \<le> 3600"
proof -
  let ?now = "gc_lookup t"
  have zero: "sat_sub ?now p \<le> 3600" if "?now \<le> p" for p
    using that by (simp add: word_le_nat_alt unat_sat_sub)
  have served: "\<exists>published es e. (published, es) \<in> scans \<and> e \<in> set es \<and> entry_meta env e = Some (h, m) \<and>
      sat_sub ?now published \<le> 3600"
    if "registry_inv env scans g1" "map_of (rg_cache g1) h = Some m"
      "rg_cache g1 = [] \<or> sat_sub ?now (rg_last_refresh g1) \<le> 3600" for g1
    using inv_served[OF that(1,2)] that(2,3) by auto
  consider (fresh) "\<not> is_stale ?now g" | (old) "is_extremely_stale ?now g" "is_stale ?now g"
    | (stale) "is_stale ?now g" "\<not> is_extremely_stale ?now g" by blast
  then show ?thesis
  proof cases
    case fresh
    then have "sat_sub ?now (rg_last_refresh g) \<le> 3600"
      by (simp add: is_stale_def registry_consts word_le_nat_alt not_less)
    moreover have "map_of (rg_cache g) h = Some m"
      using assms(5) fresh by (auto simp: lookup_issuer_def cached_or_def split: option.splits)
    ultimately show ?thesis using served assms(1) by blast
  next
    case stale
    then have "sat_sub ?now (rg_last_refresh g) \<le> 3600"
      by (simp add: is_extremely_stale_def registry_consts word_le_nat_alt not_less)
    moreover have "map_of (rg_cache g) h = Some m"
      using assms(5) stale
      by (auto simp: lookup_issuer_def cached_or_def try_start_refresh_def dispatch_background_def split: option.splits if_splits)
    ultimately show ?thesis using served assms(1) by blast
  next
    case old
    obtain r g1 where r: "try_refresh env rd other t g = (r, g1)" by fastforce
    from try_refresh_cases[OF assms(1,2,3,4) r] have inv: "registry_inv env scans g1"
      "r = Inr () \<longrightarrow> rg_cache g1 = [] \<or> ?now \<le> rg_last_refresh g1" by auto
    have "map_of (rg_cache g1) h = Some m \<and> (r = Inr () \<or> \<not> is_beyond_hard_max ?now g1)"
      using assms(5) old r by (auto simp: lookup_issuer_def cached_or_def split: option.splits if_splits sum.splits)
    then show ?thesis
      using served[OF inv(1)] inv(2) zero
      by (auto simp: is_beyond_hard_max_def registry_consts not_less)
  qed
qed

lemma registry_serves_listed_witness:
  "fst (fst (lookup_issuer sample_registry_env False (sample_registry_read (KvValue (Some ''x''))) (\<lambda>g. g) (at_second 5000)
       sample_hash registry_new)) = Inr sample_meta \<and>
   (\<exists>published es e. (published, es) \<in> {(5000, [sample_entry])} \<and> e \<in> set es \<and>
      entry_meta sample_registry_env e = Some (sample_hash, sample_meta) \<and> sat_sub 5000 published \<le> 3600)"
proof -
  let ?rd = "sample_registry_read (KvValue (Some ''x''))"
  obtain r s g' where l: "lookup_issuer sample_registry_env False ?rd (\<lambda>g. g) (at_second 5000) sample_hash registry_new = ((r, s), g')"
    by (metis prod.collapse)
  have "is_extremely_stale (gc_lookup (at_second 5000)) registry_new" "should_attempt (rg_breaker registry_new) (gc_try (at_second 5000))"
    by (simp_all add: is_extremely_stale_def registry_new_def registry_consts sat_sub_def should_attempt_def breaker_new_def)
  from lookup_refreshed[OF this sample_fetch _ l] have r: "r = Inr sample_meta" by simp
  from registry_serves_listed[OF registry_inv_new _ _ _ l[unfolded r], of "{(5000, [sample_entry])}"] r l show ?thesis
    by (auto simp: sat_sub_def)
qed

subsection \<open>Refreshing\<close>



text \<open>A failing read of one issuer's entry makes the issuer unknown rather than the registry
  unavailable: when the refresh cannot read it the lookup answers that there is no such issuer, and
  so does every lookup of the next ten minutes.\<close>

theorem unread_issuer_unknown:
  assumes "is_extremely_stale (gc_lookup t) g" "should_attempt (rg_breaker g) (gc_try t)"
    and "gr_list rd = KvList True keys" "rg_epoch (other g) = rg_epoch g"
    and "\<And>k e m. k \<in> set keys \<Longrightarrow> read_entry env (gr_get rd k) = Some e \<Longrightarrow> entry_meta env e \<noteq> Some (h, m)"
    and "lookup_issuer env context rd other t h g = ((r, started), g')"
    and "sat_sub (gc_lookup t2) (gc_publish t) \<le> 600"
  shows "r = Inl NotFound \<and> fst (fst (lookup_issuer env context2 rd2 other2 t2 h g')) = Inl NotFound"
proof -
  let ?es = "List.map_filter (\<lambda>k. read_entry env (gr_get rd k)) keys"
  have f: "fetch_from_kv env rd = Inr ?es" using assms(3) by (simp add: fetch_from_kv_def)
  have "map_of (build_cache env ?es []) h = None"
    using assms(5) by (intro build_cache_unlisted) (auto simp: List.map_filter_def)
  with lookup_refreshed[OF assms(1,2) f assms(4,6)] assms(7) show ?thesis
    by (auto simp: lookup_issuer_def is_stale_def registry_consts cached_or_def not_less)
qed

lemma unread_issuer_unknown_witness:
  "fst (fst (lookup_issuer sample_registry_env False (sample_registry_read KvTimeout) (\<lambda>g. g) (at_second 5000) sample_hash registry_new)) =
     Inl NotFound"
proof -
  let ?rd = "sample_registry_read KvTimeout"
  obtain r s g' where l: "lookup_issuer sample_registry_env False ?rd (\<lambda>g. g) (at_second 5000) sample_hash registry_new = ((r, s), g')"
    by (metis prod.collapse)
  have 1: "is_extremely_stale (gc_lookup (at_second 5000)) registry_new" "should_attempt (rg_breaker registry_new) (gc_try (at_second 5000))"
    by (simp_all add: is_extremely_stale_def registry_new_def registry_consts sat_sub_def should_attempt_def breaker_new_def)
  have 2: "gr_list ?rd = KvList True [''issuer:1'']" "read_entry sample_registry_env (gr_get ?rd k) = None" for k
    by (simp_all add: sample_registry_read_def read_entry_def)
  from unread_issuer_unknown[OF 1 2(1) _ _ l, of "at_second 5600"] l show ?thesis
    by (simp add: 2(2) sat_sub_def)
qed

end
