(* ===== verification/Hosted_Error.thy ===== *)
theory Hosted_Error imports Api_Error begin

text \<open>
  \<open>src/hosted/types/errors.rs\<close>: the error type of the hosted flow, its status codes and messages.
\<close>

datatype hosted_error =
    HInvalidRequest string
  | HUnauthorized string
  | HForbidden string
  | HNotFound string
  | HMethodNotAllowed "string list"
  | HConflict string
  | HGone string
  | HRateLimitExceeded u64 u32 u32
  | HInsufficientCredits string
  | HInternalError string
  | HServiceUnavailable string
  | HGatewayTimeout string

fun hosted_status_code :: "hosted_error \<Rightarrow> nat" where
  "hosted_status_code (HInvalidRequest _) = 400"
| "hosted_status_code (HUnauthorized _) = 401"
| "hosted_status_code (HForbidden _) = 403"
| "hosted_status_code (HNotFound _) = 404"
| "hosted_status_code (HMethodNotAllowed _) = 405"
| "hosted_status_code (HConflict _) = 409"
| "hosted_status_code (HGone _) = 410"
| "hosted_status_code (HRateLimitExceeded _ _ _) = 429"
| "hosted_status_code (HInsufficientCredits _) = 402"
| "hosted_status_code (HInternalError _) = 500"
| "hosted_status_code (HServiceUnavailable _) = 503"
| "hosted_status_code (HGatewayTimeout _) = 504"

text \<open>\<open>join(", ")\<close>.\<close>

fun join_comma :: "string list \<Rightarrow> string" where
  "join_comma [] = []"
| "join_comma [s] = s"
| "join_comma (s # ss) = s @ '', '' @ join_comma ss"

fun hosted_message :: "hosted_error \<Rightarrow> string" where
  "hosted_message (HInvalidRequest m) = m"
| "hosted_message (HUnauthorized m) = m"
| "hosted_message (HForbidden m) = m"
| "hosted_message (HNotFound r) = ''Resource not found: '' @ r"
| "hosted_message (HMethodNotAllowed a) = ''Method not allowed. Allowed methods: '' @ join_comma a"
| "hosted_message (HConflict m) = m"
| "hosted_message (HGone m) = m"
| "hosted_message (HRateLimitExceeded retry_after limit window) =
     ''Rate limit exceeded: '' @ show_nat (unat limit) @ '' requests per '' @ show_nat (unat window) @
     '' seconds. Retry after '' @ show_u64 retry_after @ '' seconds''"
| "hosted_message (HInsufficientCredits m) = m"
| "hosted_message (HInternalError m) = m"
| "hosted_message (HServiceUnavailable m) = m"
| "hosted_message (HGatewayTimeout s) = ''Gateway timeout when calling '' @ s"

record hosted_error_response =
  he_error :: hosted_error
  he_request_id :: string
  he_timestamp :: u64

definition hosted_error_response_new :: "u64 \<Rightarrow> hosted_error \<Rightarrow> string \<Rightarrow> hosted_error_response" where
  "hosted_error_response_new now e request_id =
     \<lparr>he_error = e, he_request_id = request_id, he_timestamp = now\<rparr>"

definition hosted_response_status :: "hosted_error_response \<Rightarrow> nat" where
  "hosted_response_status r = hosted_status_code (he_error r)"

text \<open>Every error is answered with a client or server error status, and no two kinds share one.\<close>

fun hosted_kind :: "hosted_error \<Rightarrow> nat" where
  "hosted_kind (HInvalidRequest _) = 0"
| "hosted_kind (HUnauthorized _) = 1"
| "hosted_kind (HForbidden _) = 2"
| "hosted_kind (HNotFound _) = 3"
| "hosted_kind (HMethodNotAllowed _) = 4"
| "hosted_kind (HConflict _) = 5"
| "hosted_kind (HGone _) = 6"
| "hosted_kind (HRateLimitExceeded _ _ _) = 7"
| "hosted_kind (HInsufficientCredits _) = 8"
| "hosted_kind (HInternalError _) = 9"
| "hosted_kind (HServiceUnavailable _) = 10"
| "hosted_kind (HGatewayTimeout _) = 11"

lemma hosted_status_kind: "hosted_status_code e = hosted_status_code e' \<longleftrightarrow> hosted_kind e = hosted_kind e'"
  by (cases e; cases e') simp_all

lemma hosted_status_range: "400 \<le> hosted_status_code e \<and> hosted_status_code e < 600"
  by (cases e) simp_all

end
