(* ===== verification/Hosted_Session.thy ===== *)
theory Hosted_Session imports Lifecycle Hosted_Error Hosted_Crypto begin

text \<open>
  \<open>src/hosted/types/session.rs\<close> and the session part of \<open>src/hosted/storage/kv.rs\<close>: the session of
  a hosted verification, its states, and its encrypted copy in the HOSTED_SESSIONS KV.  The JSON of a
  session is an argument; the redacting Debug and the zeroising Drop have no functional effect.
\<close>

subsection \<open>States\<close>

datatype session_state = SPending | SProofOk | SVerified | SExpired | SRevoked

fun session_state_debug :: "session_state \<Rightarrow> string" where
  "session_state_debug SPending = ''Pending''"
| "session_state_debug SProofOk = ''ProofOk''"
| "session_state_debug SVerified = ''Verified''"
| "session_state_debug SExpired = ''Expired''"
| "session_state_debug SRevoked = ''Revoked''"

definition can_check_status :: "session_state \<Rightarrow> bool" where
  "can_check_status s \<longleftrightarrow> s = SPending \<or> s = SProofOk \<or> s = SVerified"

definition can_redeem :: "session_state \<Rightarrow> bool" where
  "can_redeem s \<longleftrightarrow> s = SProofOk"

definition session_terminal :: "session_state \<Rightarrow> bool" where
  "session_terminal s \<longleftrightarrow> s = SVerified \<or> s = SExpired \<or> s = SRevoked"

definition session_transition :: "session_state \<Rightarrow> session_state \<Rightarrow> bool" where
  "session_transition s t =
     (if s = t then False
      else (s, t) \<in> {(SPending, SProofOk), (SPending, SExpired), (SPending, SRevoked),
                     (SProofOk, SVerified), (SProofOk, SExpired), (SProofOk, SRevoked)})"

fun session_rank :: "session_state \<Rightarrow> nat" where
  "session_rank SPending = 0"
| "session_rank SProofOk = 1"
| "session_rank _ = 2"

interpretation hosted: ranked_machine session_transition session_terminal session_rank 2
proof unfold_locales
  show "session_terminal s \<Longrightarrow> session_transition s t \<Longrightarrow> t = s" for s t
    by (auto simp: session_terminal_def session_transition_def split: if_splits)
  show "session_transition s t \<Longrightarrow> s \<noteq> t \<Longrightarrow> session_rank s < session_rank t" for s t
    by (auto simp: session_transition_def split: if_splits)
  show "session_rank s \<le> 2" for s by (cases s) simp_all
qed

datatype session_binding_mode = Strict | Relaxed | NoBinding

subsection \<open>Sessions\<close>

record hosted_session =
  hs_session_id :: string
  hs_public_key :: string
  hs_origin :: string
  hs_state :: session_state
  hs_code_challenge :: string
  hs_code_verifier :: string
  hs_verifier_challenge_id :: string
  hs_proof_direction :: string
  hs_nonce :: string
  hs_expires_at :: u64
  hs_created_at :: u64
  hs_last_activity_at :: u64
  hs_proof_submitted_at :: "u64 option"
  hs_verified_at :: "u64 option"
  hs_user_agent :: "string option"
  hs_client_ip_hash :: "string option"
  hs_binding_mode :: session_binding_mode
  hs_environment :: string
  hs_credential_data :: "string option"
  hs_error :: "string option"
  hs_status_check_count :: u32
  hs_redeem_attempt_count :: u32
  hs_verifying_key_id :: "u32 option"

text \<open>Every operation that reads the clock takes its reading \<open>now\<close> first.\<close>

definition session_new ::
    "u64 \<Rightarrow> string \<Rightarrow> string \<Rightarrow> string \<Rightarrow> string \<Rightarrow> string \<Rightarrow> string \<Rightarrow> string \<Rightarrow> u64 \<Rightarrow> string \<Rightarrow> hosted_session" where
  "session_new now session_id public_key origin code_challenge code_verifier verifier_challenge_id nonce expires_at environment =
     \<lparr>hs_session_id = session_id, hs_public_key = public_key, hs_origin = origin, hs_state = SPending,
      hs_code_challenge = code_challenge, hs_code_verifier = code_verifier,
      hs_verifier_challenge_id = verifier_challenge_id, hs_proof_direction = ''over_age'', hs_nonce = nonce,
      hs_expires_at = expires_at, hs_created_at = now, hs_last_activity_at = now, hs_proof_submitted_at = None,
      hs_verified_at = None, hs_user_agent = None, hs_client_ip_hash = None, hs_binding_mode = Relaxed,
      hs_environment = environment, hs_credential_data = None, hs_error = None, hs_status_check_count = 0,
      hs_redeem_attempt_count = 0, hs_verifying_key_id = None\<rparr>"

definition is_expired_with_idle_timeout :: "u64 \<Rightarrow> u64 \<Rightarrow> hosted_session \<Rightarrow> bool" where
  "is_expired_with_idle_timeout now idle_timeout_seconds s =
     (if now \<ge> hs_expires_at s then True
      else if hs_last_activity_at s > now then True
      else if sat_sub now (hs_last_activity_at s) \<ge> idle_timeout_seconds then True
      else False)"

definition session_is_expired :: "u64 \<Rightarrow> hosted_session \<Rightarrow> bool" where
  "session_is_expired now s = is_expired_with_idle_timeout now 900 s"

definition update_activity :: "u64 \<Rightarrow> hosted_session \<Rightarrow> hosted_session" where
  "update_activity now s = s\<lparr>hs_last_activity_at := now\<rparr>"

definition mark_proof_ok :: "u64 \<Rightarrow> string \<Rightarrow> hosted_session \<Rightarrow> bool \<times> hosted_session" where
  "mark_proof_ok now credential_data s =
     (if hs_state s \<noteq> SPending then (False, s)
      else (True, s\<lparr>hs_state := SProofOk, hs_proof_submitted_at := Some now,
                    hs_credential_data := Some credential_data\<rparr>))"

definition mark_verified :: "u64 \<Rightarrow> hosted_session \<Rightarrow> bool \<times> hosted_session" where
  "mark_verified now s =
     (if \<not> session_transition (hs_state s) SVerified then (False, s)
      else (True, s\<lparr>hs_state := SVerified, hs_verified_at := Some now\<rparr>))"

definition mark_expired :: "hosted_session \<Rightarrow> bool \<times> hosted_session" where
  "mark_expired s =
     (if \<not> session_transition (hs_state s) SExpired then (False, s) else (True, s\<lparr>hs_state := SExpired\<rparr>))"

definition mark_revoked :: "string \<Rightarrow> hosted_session \<Rightarrow> bool \<times> hosted_session" where
  "mark_revoked reason s =
     (if \<not> session_transition (hs_state s) SRevoked then (False, s)
      else (True, s\<lparr>hs_state := SRevoked, hs_error := Some reason\<rparr>))"

definition increment_status_checks :: "hosted_session \<Rightarrow> hosted_session" where
  "increment_status_checks s = s\<lparr>hs_status_check_count := sat_add (hs_status_check_count s) 1\<rparr>"

definition increment_redeem_attempts :: "hosted_session \<Rightarrow> hosted_session" where
  "increment_redeem_attempts s = s\<lparr>hs_redeem_attempt_count := sat_add (hs_redeem_attempt_count s) 1\<rparr>"

definition set_binding :: "string option \<Rightarrow> string option \<Rightarrow> hosted_session \<Rightarrow> hosted_session" where
  "set_binding client_ip_hash user_agent_hash s =
     s\<lparr>hs_client_ip_hash := client_ip_hash, hs_user_agent := user_agent_hash\<rparr>"

text \<open>\<open>fresh\<close> is the text of the new random UUID.\<close>

definition regenerate_id :: "u64 \<Rightarrow> string \<Rightarrow> bool \<Rightarrow> hosted_session \<Rightarrow> string \<times> hosted_session" where
  "regenerate_id now fresh extend_expiry s =
     (let new_expires_at =
            (if extend_expiry then sat_add now (sat_sub (hs_expires_at s) (hs_created_at s)) else hs_expires_at s)
      in (fresh, s\<lparr>hs_session_id := fresh, hs_expires_at := new_expires_at, hs_last_activity_at := now\<rparr>))"

subsection \<open>The KV of the sessions\<close>

text \<open>
  The outcomes of the operations to come: an operation succeeds, fails or times out; one that does
  not succeed may have taken effect all the same.
\<close>

datatype kv_outcome = KvDone | KvFails bool | KvTimesOut bool

definition takes_effect :: "kv_outcome \<Rightarrow> bool" where
  "takes_effect x = (case x of KvDone \<Rightarrow> True | KvFails b \<Rightarrow> b | KvTimesOut b \<Rightarrow> b)"

text \<open>Each value is stored with its time to live; the platform drops it when that is over.\<close>

record hosted_kv =
  hk_store :: "string \<rightharpoonup> string \<times> u64"
  hk_net :: "kv_outcome list"
  hk_meks :: mek_caches

definition next_outcome :: "hosted_kv \<Rightarrow> kv_outcome" where
  "next_outcome w = (case hk_net w of [] \<Rightarrow> KvDone | x # _ \<Rightarrow> x)"

definition kv_read_text :: "string \<Rightarrow> hosted_kv \<Rightarrow> (kv_outcome + string option) \<times> hosted_kv" where
  "kv_read_text key w =
     (case next_outcome w of
        KvDone \<Rightarrow> Inr (map_option fst (hk_store w key))
      | x \<Rightarrow> Inl x, w\<lparr>hk_net := tl (hk_net w)\<rparr>)"

definition kv_write_text :: "string \<Rightarrow> string \<Rightarrow> u64 \<Rightarrow> hosted_kv \<Rightarrow> (kv_outcome + unit) \<times> hosted_kv" where
  "kv_write_text key v ttl w =
     (let x = next_outcome w; w' = w\<lparr>hk_net := tl (hk_net w)\<rparr>
      in (if x = KvDone then Inr () else Inl x,
          if takes_effect x then w'\<lparr>hk_store := (hk_store w)(key \<mapsto> (v, ttl))\<rparr> else w'))"

record hosted_env = hosted_crypto +
  hv_bound :: bool
  hv_mek :: secret_binding
  hv_mek_previous :: secret_binding
  hv_json :: "hosted_session \<Rightarrow> string + string"
  hv_parse :: "string \<Rightarrow> string + hosted_session"

definition SESSION_AAD :: bytes where "SESSION_AAD = string_bytes ''provii-verifier:session:v1''"

definition session_key :: "string \<Rightarrow> string" where "session_key sid = ''session:'' @ sid"
definition mapping_key :: "string \<Rightarrow> string" where "mapping_key cid = ''challenge_to_session:'' @ cid"

definition write_failure :: "kv_outcome \<Rightarrow> hosted_error" where
  "write_failure x = (case x of
      KvTimesOut _ \<Rightarrow> HInternalError ''Session storage timed out''
    | _ \<Rightarrow> HInternalError ''Failed to store session'')"

definition store_session_kv ::
    "hosted_env \<Rightarrow> string + bytes \<Rightarrow> hosted_session \<Rightarrow> u64 \<Rightarrow> hosted_kv \<Rightarrow> (hosted_error + unit) \<times> hosted_kv" where
  "store_session_kv env iv session ttl_seconds w =
     (case get_mek_from_secrets (hosted_crypto.truncate env) (hv_mek env) (hk_meks w) of
        (Inl _, m) \<Rightarrow> (Inl (HServiceUnavailable ''Encryption key unavailable''), w\<lparr>hk_meks := m\<rparr>)
      | (Inr mek, m) \<Rightarrow>
          (let w1 = w\<lparr>hk_meks := m\<rparr> in
           case hv_json env session of
             Inl _ \<Rightarrow> (Inl (HInternalError ''Failed to serialize session''), w1)
           | Inr session_json \<Rightarrow>
               (case encrypt_with_mek (hosted_crypto.truncate env) iv mek session_json SESSION_AAD of
                  Inl _ \<Rightarrow> (Inl (HInternalError ''Failed to encrypt session''), w1)
                | Inr encrypted \<Rightarrow>
                    if \<not> hv_bound env then (Inl (HInternalError ''Failed to access session storage''), w1)
                    else (case kv_write_text (session_key (hs_session_id session)) encrypted ttl_seconds w1 of
                            (Inl x, w2) \<Rightarrow> (Inl (write_failure x), w2)
                          | (Inr _, w2) \<Rightarrow> (Inr (), w2)))))"

definition store_challenge_mapping_kv ::
    "hosted_env \<Rightarrow> string \<Rightarrow> string \<Rightarrow> u64 \<Rightarrow> hosted_kv \<Rightarrow> (string + unit) \<times> hosted_kv" where
  "store_challenge_mapping_kv env challenge_id session_id ttl_seconds w =
     (if \<not> hv_bound env then (Inl ''KV binding error'', w)
      else case kv_write_text (mapping_key challenge_id) session_id ttl_seconds w of
             (Inl x, w') \<Rightarrow>
               (Inl (case x of KvTimesOut _ \<Rightarrow> ''KV put timed out'' | _ \<Rightarrow> ''KV put execute error''), w')
           | (Inr _, w') \<Rightarrow> (Inr (), w'))"

definition get_session_kv_tracked ::
    "hosted_env \<Rightarrow> string \<Rightarrow> hosted_kv \<Rightarrow> (hosted_error + (hosted_session \<times> rotation_slot) option) \<times> hosted_kv" where
  "get_session_kv_tracked env session_id w =
     (if \<not> hv_bound env then (Inl (HInternalError ''Failed to access session storage''), w)
      else case kv_read_text (session_key session_id) w of
             (Inl (KvTimesOut _), w1) \<Rightarrow> (Inl (HInternalError ''Session retrieval timed out''), w1)
           | (Inl _, w1) \<Rightarrow> (Inl (HInternalError ''Failed to retrieve session''), w1)
           | (Inr None, w1) \<Rightarrow> (Inr None, w1)
           | (Inr (Some encrypted), w1) \<Rightarrow>
               (case get_mek_from_secrets (hosted_crypto.truncate env) (hv_mek env) (hk_meks w1) of
                  (Inl _, m) \<Rightarrow> (Inl (HServiceUnavailable ''Encryption key unavailable''), w1\<lparr>hk_meks := m\<rparr>)
                | (Inr mek, m) \<Rightarrow>
                    (case decrypt_tracked (hosted_crypto.truncate env) (hv_mek_previous env) mek encrypted SESSION_AAD m of
                       (Inl _, m') \<Rightarrow> (Inl (HInternalError ''Failed to decrypt session''), w1\<lparr>hk_meks := m'\<rparr>)
                     | (Inr (session_json, slot_used), m') \<Rightarrow>
                         (case hv_parse env session_json of
                            Inl _ \<Rightarrow> Inl (HInternalError ''Failed to parse session'')
                          | Inr session \<Rightarrow> Inr (Some (session, slot_used)), w1\<lparr>hk_meks := m'\<rparr>))))"

definition get_session_kv ::
    "hosted_env \<Rightarrow> string \<Rightarrow> hosted_kv \<Rightarrow> (hosted_error + hosted_session option) \<times> hosted_kv" where
  "get_session_kv env session_id w =
     (case get_session_kv_tracked env session_id w of
        (Inl e, w') \<Rightarrow> (Inl e, w') | (Inr r, w') \<Rightarrow> (Inr (map_option fst r), w'))"

definition validate_transition :: "session_state option \<Rightarrow> session_state \<Rightarrow> hosted_error + unit" where
  "validate_transition prior new =
     (case prior of
        Some prior_state \<Rightarrow>
          if prior_state \<noteq> new \<and> \<not> session_transition prior_state new
          then Inl (HInternalError (''Invalid session state transition from '' @ session_state_debug prior_state @
                 '' to '' @ session_state_debug new))
          else Inr ()
      | None \<Rightarrow> Inr ())"

definition update_session_kv_checked ::
    "hosted_env \<Rightarrow> string + bytes \<Rightarrow> u64 \<Rightarrow> hosted_session \<Rightarrow> session_state option \<Rightarrow> hosted_kv \<Rightarrow>
     (hosted_error + unit) \<times> hosted_kv" where
  "update_session_kv_checked env iv now session prior_state w =
     (case validate_transition prior_state (hs_state session) of
        Inl e \<Rightarrow> (Inl e, w)
      | Inr _ \<Rightarrow> store_session_kv env iv session (max (sat_sub (hs_expires_at session) now) 60) w)"

subsection \<open>Expiry\<close>

text \<open>A session is alive in one window of time: from its last activity on, until it expires or has been
  idle for the timeout.\<close>

lemma session_alive_window:
  "\<not> is_expired_with_idle_timeout now idle s \<longleftrightarrow>
     unat (hs_last_activity_at s) \<le> unat now \<and> unat now < unat (hs_expires_at s) \<and>
     unat now < unat (hs_last_activity_at s) + unat idle"
  by (auto simp: is_expired_with_idle_timeout_def word_le_nat_alt word_less_nat_alt unat_sat_sub not_le)

subsection \<open>Operations on sessions\<close>

inductive session_op :: "hosted_session \<Rightarrow> hosted_session \<Rightarrow> bool" where
  Activity: "session_op s (update_activity now s)"
| Proof_Ok: "session_op s (snd (mark_proof_ok now cred s))"
| Verify: "session_op s (snd (mark_verified now s))"
| Expire: "session_op s (snd (mark_expired s))"
| Revoke: "session_op s (snd (mark_revoked reason s))"
| Status_Check: "session_op s (increment_status_checks s)"
| Redeem_Attempt: "session_op s (increment_redeem_attempts s)"
| Bind: "session_op s (set_binding ip ua s)"
| Regenerate: "session_op s (snd (regenerate_id now fresh longer s))"

text \<open>What identifies the verification and never changes, whatever is done to the session.\<close>

definition session_identity :: "hosted_session \<Rightarrow> string list \<times> u64" where
  "session_identity s =
     ([hs_public_key s, hs_origin s, hs_code_challenge s, hs_code_verifier s, hs_verifier_challenge_id s,
       hs_proof_direction s, hs_nonce s, hs_environment s], hs_created_at s)"

lemmas session_op_defs = update_activity_def mark_proof_ok_def mark_verified_def mark_expired_def mark_revoked_def
  increment_status_checks_def increment_redeem_attempts_def set_binding_def regenerate_id_def

lemma session_op_moves: "session_op s s' \<Longrightarrow> hosted.moves (hs_state s) (hs_state s')"
  unfolding hosted.moves_def
  by (induction rule: session_op.induct) (auto simp: session_op_defs session_transition_def Let_def)

lemma session_op_identity: "session_op s s' \<Longrightarrow> session_identity s' = session_identity s"
  by (induction rule: session_op.induct) (auto simp: session_op_defs session_identity_def Let_def)

lemma session_run:
  "session_op\<^sup>*\<^sup>* s s' \<Longrightarrow>
     session_identity s' = session_identity s \<and> hosted.moves\<^sup>*\<^sup>* (hs_state s) (hs_state s')"
  by (induction rule: rtranclp_induct)
    (auto simp: session_op_identity dest!: session_op_moves intro: rtranclp.rtrancl_into_rtrancl)

text \<open>A hosted session only moves forward: whatever operations run on it, the relying party, origin,
  PKCE challenge, linked challenge and nonce stay what they were, a verified, expired or revoked
  session keeps its state, and a session never returns to a state it has left.\<close>

theorem hosted_session_lifecycle:
  assumes "session_op\<^sup>*\<^sup>* s s'"
  shows "session_identity s' = session_identity s \<and>
    (session_terminal (hs_state s) \<longrightarrow> hs_state s' = hs_state s) \<and>
    (session_op\<^sup>*\<^sup>* s' s'' \<and> hs_state s'' = hs_state s \<longrightarrow> hs_state s' = hs_state s)"
proof (intro conjI impI)
  note run = session_run[OF assms]
  then show "session_identity s' = session_identity s" by blast
  show "hs_state s' = hs_state s" if "session_terminal (hs_state s)"
    using run hosted.moves_terminal[OF that] by blast
  show "hs_state s' = hs_state s" if ret: "session_op\<^sup>*\<^sup>* s' s'' \<and> hs_state s'' = hs_state s"
  proof -
    from session_run[of s' s''] ret have "hosted.moves\<^sup>*\<^sup>* (hs_state s') (hs_state s)" by auto
    with run show ?thesis using hosted.no_return[of "hs_state s" "hs_state s'"] by (simp add: hosted.moves_eq)
  qed
qed

definition sample_session :: hosted_session where
  "sample_session = session_new 1000 ''s1'' ''pk_live_1'' ''https://rp.example'' ''cc'' ''cv'' ''c1'' ''n'' 1300 ''production''"

lemma hosted_session_lifecycle_witness:
  "session_op\<^sup>*\<^sup>* sample_session (snd (mark_verified 1002 (snd (mark_proof_ok 1001 ''cred'' sample_session)))) \<and>
   session_identity (snd (mark_verified 1002 (snd (mark_proof_ok 1001 ''cred'' sample_session)))) = session_identity sample_session \<and>
   hs_state (snd (mark_verified 1002 (snd (mark_proof_ok 1001 ''cred'' sample_session)))) = SVerified"
proof -
  let ?s = "snd (mark_verified 1002 (snd (mark_proof_ok 1001 ''cred'' sample_session)))"
  have r: "session_op\<^sup>*\<^sup>* sample_session ?s"
    by (meson Proof_Ok Verify rtranclp.rtrancl_into_rtrancl rtranclp.rtrancl_refl)
  have "hs_state ?s = SVerified"
    by (simp add: mark_verified_def mark_proof_ok_def session_transition_def sample_session_def session_new_def)
  with r hosted_session_lifecycle[OF r] show ?thesis by blast
qed

subsection \<open>Sessions in KV\<close>

text \<open>What serde documents, for one session; and the key that \<open>get_mek_from_secrets\<close> delivers.\<close>

definition session_json_law :: "hosted_env \<Rightarrow> hosted_session \<Rightarrow> bool" where
  "session_json_law env s \<longleftrightarrow> (\<exists>j. hv_json env s = Inr j \<and> hv_parse env j = Inr s)"

lemma kv_write_done: "kv_write_text k v ttl w = (Inr (), w') \<Longrightarrow>
    hk_store w' = (hk_store w)(k \<mapsto> (v, ttl)) \<and> hk_meks w' = hk_meks w"
  by (auto simp: kv_write_text_def takes_effect_def Let_def split: if_splits kv_outcome.splits)

lemma kv_read_done: "kv_read_text k w = (Inr v, w') \<Longrightarrow> v = map_option fst (hk_store w k)"
  by (auto simp: kv_read_text_def split: kv_outcome.splits)

lemma kv_read_meks: "kv_read_text k w = (r, w') \<Longrightarrow> hk_meks w' = hk_meks w \<and> hk_store w' = hk_store w"
  by (auto simp: kv_read_text_def)

lemma get_mek_cached: "get_mek_from_secrets env st m = (Inr mek, m') \<Longrightarrow> mk_primary m' = Some mek"
  by (auto simp: get_mek_from_secrets_def split: option.splits secret_binding.splits sum.splits if_splits)

lemma store_session_stored:
  assumes "store_session_kv env iv s ttl w = (Inr (), w')"
  shows "\<exists>mek j c. mk_primary (hk_meks w') = Some mek \<and> hv_json env s = Inr j \<and> hv_bound env \<and>
    encrypt_with_mek (hosted_crypto.truncate env) iv mek j SESSION_AAD = Inr c \<and>
    hk_store w' = (hk_store w)(session_key (hs_session_id s) \<mapsto> (c, ttl))"
proof -
  obtain r m where m: "get_mek_from_secrets (hosted_crypto.truncate env) (hv_mek env) (hk_meks w) = (r, m)" by fastforce
  from assms m obtain mek where r: "r = Inr mek" by (auto simp: store_session_kv_def split: sum.splits)
  from assms m r obtain j c where jc: "hv_json env s = Inr j"
    "encrypt_with_mek (hosted_crypto.truncate env) iv mek j SESSION_AAD = Inr c" "hv_bound env"
    "kv_write_text (session_key (hs_session_id s)) c ttl (w\<lparr>hk_meks := m\<rparr>) = (Inr (), w')"
    by (auto simp: store_session_kv_def Let_def split: sum.splits if_splits prod.splits)
  from kv_write_done[OF jc(4)] get_mek_cached[OF m[unfolded r]] jc show ?thesis
    by (intro exI[of _ mek] exI[of _ j] exI[of _ c]) simp
qed

lemma get_session_decrypted:
  assumes "hv_bound env" "hk_store w k = Some (c, ttl)" "next_outcome w = KvDone" "k = session_key sid"
    and "mk_primary (hk_meks w) = Some mek" "hv_parse env j = Inr s"
    and "decrypt_tracked (hosted_crypto.truncate env) (hv_mek_previous env) mek c SESSION_AAD (hk_meks w) = (Inr (j, slot), m)"
  shows "fst (get_session_kv_tracked env sid w) = Inr (Some (s, slot))"
proof -
  have r: "kv_read_text (session_key sid) w = (Inr (Some c), w\<lparr>hk_net := tl (hk_net w)\<rparr>)"
    using assms(2-4) by (simp add: kv_read_text_def)
  have "get_mek_from_secrets (hosted_crypto.truncate env) (hv_mek env) (hk_meks w) = (Inr mek, hk_meks w)"
    using assms(5) by (simp add: get_mek_from_secrets_def)
  with assms(1,6,7) r show ?thesis by (simp add: get_session_kv_tracked_def)
qed

text \<open>A stored session is read back as it was: after an acknowledged write, a read that reaches KV
  answers exactly the session, from the current slot as long as the master key stays the same, and
  from the previous slot after the key has been rotated.\<close>

theorem session_storage_roundtrip:
  assumes "crypto_laws (hosted_crypto.truncate env)" "session_json_law env s" "length iv = 12"
    and "store_session_kv env (Inr iv) s ttl w = (Inr (), w1)"
    and "hk_store w2 (session_key (hs_session_id s)) = hk_store w1 (session_key (hs_session_id s))" "next_outcome w2 = KvDone"
    and "mk_primary (hk_meks w1) = Some old"
    and "mk_primary (hk_meks w2) = Some old \<and> slot = Current \<or>
      mk_primary (hk_meks w2) = Some new \<and> mk_previous (hk_meks w2) = Some old \<and> slot = Previous \<and>
      (\<forall>c q. hk_store w1 (session_key (hs_session_id s)) = Some (c, ttl) \<longrightarrow>
         decrypt_with_mek (hosted_crypto.truncate env) new c SESSION_AAD \<noteq> Inr q)"
  shows "fst (get_session_kv_tracked env (hs_session_id s) w2) = Inr (Some (s, slot))"
proof -
  from store_session_stored[OF assms(4)] assms(7) obtain j c where jc: "hv_json env s = Inr j" "hv_bound env"
    "encrypt_with_mek (hosted_crypto.truncate env) (Inr iv) old j SESSION_AAD = Inr c"
    "hk_store w1 (session_key (hs_session_id s)) = Some (c, ttl)" by auto
  have p: "hv_parse env j = Inr s" using assms(2) jc(1) by (auto simp: session_json_law_def)
  from assms(8) show ?thesis
  proof
    assume "mk_primary (hk_meks w2) = Some old \<and> slot = Current"
    then show ?thesis
      using get_session_decrypted[OF jc(2) assms(5)[unfolded jc(4)] assms(6) refl _ p
          decrypt_current[OF assms(1,3) jc(3)]] by simp
  next
    assume rot: "mk_primary (hk_meks w2) = Some new \<and> mk_previous (hk_meks w2) = Some old \<and> slot = Previous \<and>
      (\<forall>c q. hk_store w1 (session_key (hs_session_id s)) = Some (c, ttl) \<longrightarrow>
         decrypt_with_mek (hosted_crypto.truncate env) new c SESSION_AAD \<noteq> Inr q)"
    then show ?thesis
      using get_session_decrypted[OF jc(2) assms(5)[unfolded jc(4)] assms(6) refl _ p
          decrypt_rotated[OF assms(1,3) jc(3), of new "hk_meks w2"]] jc(4) by auto
  qed
qed

definition sample_hosted_env :: hosted_env where
  "sample_hosted_env = hosted_crypto.extend sample_crypto
     \<lparr>hv_bound = True, hv_mek = Bound (\<lambda>_. SecretValue None), hv_mek_previous = Bound (\<lambda>_. SecretValue None),
      hv_json = (\<lambda>_. Inr ''j''), hv_parse = (\<lambda>_. Inr sample_session)\<rparr>"

lemma sample_hosted_simps [simp]:
  "hosted_crypto.truncate sample_hosted_env = sample_crypto" "hv_bound sample_hosted_env"
  "hv_json sample_hosted_env s = Inr ''j''" "hv_parse sample_hosted_env j = Inr sample_session"
  by (simp_all add: sample_hosted_env_def hosted_crypto.defs)

definition sample_hosted_kv :: "bytes \<Rightarrow> bytes option \<Rightarrow> hosted_kv" where
  "sample_hosted_kv mek previous = \<lparr>hk_store = (\<lambda>_. None), hk_net = [], hk_meks = \<lparr>mk_primary = Some mek, mk_previous = previous\<rparr>\<rparr>"

lemma sample_store_session:
  "store_session_kv sample_hosted_env (Inr (replicate 12 9)) sample_session 300 (sample_hosted_kv (replicate 32 1) None) =
     (Inr (), (sample_hosted_kv (replicate 32 1) None)\<lparr>hk_store := [session_key ''s1'' \<mapsto>
        (sample_encode (replicate 12 9 @ replicate 16 1 @ string_bytes ''j''), 300)]\<rparr>)"
  by (simp add: store_session_kv_def get_mek_from_secrets_def sample_hosted_kv_def encrypt_with_mek_def kv_write_text_def
      next_outcome_def takes_effect_def)
    (simp add: sample_crypto_def sample_session_def session_new_def kv_write_text_def next_outcome_def takes_effect_def)

lemma session_storage_roundtrip_witness:
  "fst (get_session_kv_tracked sample_hosted_env ''s1'' ((sample_hosted_kv (replicate 32 2) (Some (replicate 32 1)))\<lparr>hk_store :=
     [session_key ''s1'' \<mapsto> (sample_encode (replicate 12 9 @ replicate 16 1 @ string_bytes ''j''), 300)]\<rparr>)) =
   Inr (Some (sample_session, Previous))"
proof -
  let ?c = "sample_encode (replicate 12 9 @ replicate 16 1 @ string_bytes ''j'')"
  let ?w2 = "(sample_hosted_kv (replicate 32 2) (Some (replicate 32 1)))\<lparr>hk_store := [session_key ''s1'' \<mapsto> (?c, 300)]\<rparr>"
  have id: "hs_session_id sample_session = ''s1''" by (simp add: sample_session_def session_new_def)
  have "decrypt_with_mek sample_crypto (replicate 32 2) ?c SESSION_AAD \<noteq> Inr q" for q
    by (simp add: decrypt_with_mek_def sample_crypto_def eval_nat_numeral)
  then have rot: "mk_primary (hk_meks ?w2) = Some (replicate 32 2) \<and> mk_previous (hk_meks ?w2) = Some (replicate 32 1) \<and>
      Previous = Previous \<and>
      (\<forall>c q. hk_store ((sample_hosted_kv (replicate 32 1) None)\<lparr>hk_store := [session_key ''s1'' \<mapsto> (?c, 300)]\<rparr>)
           (session_key (hs_session_id sample_session)) = Some (c, 300) \<longrightarrow>
         decrypt_with_mek (hosted_crypto.truncate sample_hosted_env) (replicate 32 2) c SESSION_AAD \<noteq> Inr q)"
    by (simp add: sample_hosted_kv_def id)
  have "fst (get_session_kv_tracked sample_hosted_env (hs_session_id sample_session) ?w2) = Inr (Some (sample_session, Previous))"
    by (rule session_storage_roundtrip[OF _ _ _ sample_store_session _ _ _ disjI2[OF rot]])
      (simp_all add: sample_crypto_laws session_json_law_def sample_hosted_kv_def next_outcome_def id)
  then show ?thesis by (simp add: id)
qed

text \<open>An update writes one session, along a legal transition, and never for longer than it has left to
  live, a minute at least.\<close>

lemma store_session_writes:
  assumes "store_session_kv env iv s ttl w = (r, w')"
  shows "hk_store w' = hk_store w \<or> (\<exists>c. hk_store w' = (hk_store w)(session_key (hs_session_id s) \<mapsto> (c, ttl)))"
  using assms
  by (auto simp: store_session_kv_def kv_write_text_def Let_def split: sum.splits prod.splits if_splits)

lemma update_session_writes:
  assumes "update_session_kv_checked env iv now s prior w = (r, w')" "hk_store w' \<noteq> hk_store w"
  shows "(\<forall>p. prior = Some p \<longrightarrow> hosted.moves p (hs_state s)) \<and>
    (\<exists>c. hk_store w' = (hk_store w)(session_key (hs_session_id s) \<mapsto> (c, max (sat_sub (hs_expires_at s) now) 60)))"
  using assms store_session_writes[of env iv s "max (sat_sub (hs_expires_at s) now) 60" w r w']
  by (auto simp: update_session_kv_checked_def validate_transition_def hosted.moves_def split: sum.splits option.splits if_splits)

end
