(* ===== verification/Hosted_Notify.thy ===== *)
theory Hosted_Notify imports Hosted_Session begin

text \<open>
  \<open>src/hosted/durable_objects/challenge_notify_do.rs\<close> and \<open>src/hosted/endpoints/notify.rs\<close>: the
  object that pushes a status change to the browsers waiting on a session, and the notification of
  a hosted session when its challenge has been verified or has failed.
\<close>

subsection \<open>The notification object\<close>

datatype ws_message = StatusChange string bool | Pong

text \<open>The sockets the platform reports as open, what was sent to each, and the storage with the alarm.\<close>

record notify_object =
  no_open :: "nat list"
  no_sent :: "(nat \<times> ws_message) list"
  no_storage :: "unit storage"

definition SUCCESS_STATES :: "string list" where "SUCCESS_STATES = [''proof_ok_waiting_for_redeem'', ''verified'']"
definition FAILURE_STATES :: "string list" where "FAILURE_STATES = [''pending'', ''failed'', ''expired'']"
definition SESSION_TTL_MS :: u64 where "SESSION_TTL_MS = 300000"

text \<open>The body of a notification: not JSON, without a textual state, or with one.\<close>

datatype notify_body = NotifyInvalid string | NotifyNoState | NotifyState string

datatype notify_answer = Notified nat string | NotifyRefused string nat | Upgraded | AlarmHandled | NotifyNotFound

definition ensure_notify_alarm :: "u64 \<Rightarrow> (unit storage, worker_error, unit) step" where
  "ensure_notify_alarm now_ms =
     andthen st_get_alarm (\<lambda>existing. if existing = None then st_set_alarm now_ms SESSION_TTL_MS else ret ())"

text \<open>\<open>socket\<close> is the server end of the new pair.\<close>

definition handle_ws_upgrade ::
    "u64 \<Rightarrow> nat \<Rightarrow> notify_object \<Rightarrow> (worker_error + notify_answer) \<times> notify_object" where
  "handle_ws_upgrade now_ms socket ob =
     (let ob1 = ob\<lparr>no_open := no_open ob @ [socket]\<rparr>;
          (r, st) = ensure_notify_alarm now_ms (no_storage ob1)
      in (case r of Inl e \<Rightarrow> Inl e | Inr _ \<Rightarrow> Inr Upgraded, ob1\<lparr>no_storage := st\<rparr>))"

text \<open>
  A socket that is closed leaves the list of open sockets.  The runtime may still list one whose closing handshake is
  not over, so the number of sockets that a later request reports can be greater than here.
\<close>

definition handle_notify :: "notify_body \<Rightarrow> notify_object \<Rightarrow> (worker_error + notify_answer) \<times> notify_object" where
  "handle_notify body ob =
     (case body of
        NotifyInvalid e \<Rightarrow> (Inl (RustError (''Invalid notify body: '' @ e)), ob)
      | NotifyNoState \<Rightarrow>
          (Inr (NotifyRefused (''Missing required '' @ [CHR 0x27] @ ''state'' @ [CHR 0x27] @ '' field'') 400), ob)
      | NotifyState s \<Rightarrow>
          if s \<notin> set SUCCESS_STATES \<and> s \<notin> set FAILURE_STATES
          then (Inr (NotifyRefused ''Unknown state value'' 400), ob)
          else (let message = StatusChange s (s \<in> set SUCCESS_STATES) in
                if no_open ob = [] then (Inr (Notified 0 ''no_connections''), ob)
                else (Inr (Notified (length (no_open ob)) ''delivered''),
                      ob\<lparr>no_open := [], no_sent := no_sent ob @ map (\<lambda>x. (x, message)) (no_open ob)\<rparr>)))"

datatype notify_request = WsUpgrade nat | NotifyPost notify_body | OtherRequest

definition notify_fetch :: "u64 \<Rightarrow> notify_request \<Rightarrow> notify_object \<Rightarrow> (worker_error + notify_answer) \<times> notify_object" where
  "notify_fetch now_ms req ob =
     (case req of
        WsUpgrade socket \<Rightarrow> handle_ws_upgrade now_ms socket ob
      | NotifyPost body \<Rightarrow> handle_notify body ob
      | OtherRequest \<Rightarrow> (Inr NotifyNotFound, ob))"

text \<open>A message of a browser, and the alarm that closes what is still open.\<close>

definition websocket_message :: "nat \<Rightarrow> string \<Rightarrow> notify_object \<Rightarrow> notify_object" where
  "websocket_message socket txt ob = (if txt = ''ping'' then ob\<lparr>no_sent := no_sent ob @ [(socket, Pong)]\<rparr> else ob)"

definition notify_alarm :: "notify_object \<Rightarrow> notify_answer \<times> notify_object" where
  "notify_alarm ob = (AlarmHandled, ob\<lparr>no_open := []\<rparr>)"

text \<open>Runs of the object; every new socket is a new one.\<close>

inductive notify_step :: "notify_object \<Rightarrow> notify_object \<Rightarrow> bool" where
  Upgrade: "socket \<notin> set (no_open ob) \<Longrightarrow> (\<forall>m. (socket, m) \<notin> set (no_sent ob)) \<Longrightarrow>
    notify_step ob (snd (notify_fetch now_ms (WsUpgrade socket) ob))"
| Notify: "notify_step ob (snd (notify_fetch now_ms (NotifyPost body) ob))"
| Other: "notify_step ob (snd (notify_fetch now_ms OtherRequest ob))"
| Message: "notify_step ob (websocket_message socket txt ob)"
| Closed: "notify_step ob (ob\<lparr>no_open := filter P (no_open ob)\<rparr>)"
| Alarm: "notify_step ob (snd (notify_alarm ob))"

definition told :: "notify_object \<Rightarrow> (nat \<times> string \<times> bool) list" where
  "told ob = concat (map (\<lambda>(x, m). case m of StatusChange s v \<Rightarrow> [(x, s, v)] | Pong \<Rightarrow> []) (no_sent ob))"

text \<open>Open sockets are distinct and have been told nothing; each socket was told at most once, and
  that the proof is verified only with a success state.\<close>

definition notify_inv :: "notify_object \<Rightarrow> bool" where
  "notify_inv ob \<longleftrightarrow> distinct (no_open ob @ map fst (told ob)) \<and>
     (\<forall>(x, s, v) \<in> set (told ob). v = (s \<in> set SUCCESS_STATES))"

lemma told_append: "told (ob\<lparr>no_sent := no_sent ob @ ms\<rparr>) = told ob @ told (ob\<lparr>no_sent := ms\<rparr>)"
  by (simp add: told_def)

lemma told_same [simp]: "told (ob\<lparr>no_open := s\<rparr>) = told ob" "told (ob\<lparr>no_storage := st\<rparr>) = told ob"
  by (simp_all add: told_def)

lemma told_map: "told (ob\<lparr>no_sent := map (\<lambda>x. (x, StatusChange s v)) xs\<rparr>) = map (\<lambda>x. (x, s, v)) xs"
  by (induction xs) (simp_all add: told_def)

lemma told_fresh: "\<forall>m. (x, m) \<notin> set (no_sent ob) \<Longrightarrow> x \<notin> set (map fst (told ob))"
  by (auto simp: told_def split: ws_message.splits)

lemma distinct_filter_append: "distinct (xs @ ys) \<Longrightarrow> distinct (filter P xs @ ys)"
  by auto

lemma handle_notify_inv: "notify_inv ob \<Longrightarrow> notify_inv (snd (handle_notify body ob))"
proof (cases body)
  case (NotifyState s)
  assume inv: "notify_inv ob"
  let ?ms = "map (\<lambda>x. (x, StatusChange s (s \<in> set SUCCESS_STATES))) (no_open ob)"
  let ?ob = "ob\<lparr>no_open := [], no_sent := no_sent ob @ ?ms\<rparr>"
  have t: "told ?ob = told ob @ map (\<lambda>x. (x, s, s \<in> set SUCCESS_STATES)) (no_open ob)"
    using told_append[of "ob\<lparr>no_open := []\<rparr>" ?ms] told_map[where ob = "ob\<lparr>no_open := []\<rparr>"] by simp
  have "distinct (map fst (told ?ob))"
    using inv by (auto simp: t notify_inv_def comp_def)
  with inv t have "notify_inv ?ob" by (auto simp: notify_inv_def)
  with inv show ?thesis by (cases "s \<in> set SUCCESS_STATES") (simp_all add: handle_notify_def NotifyState Let_def)
qed (auto simp: handle_notify_def)

lemma notify_step_inv: "notify_step ob ob' \<Longrightarrow> notify_inv ob \<Longrightarrow> notify_inv ob'"
proof (induction rule: notify_step.induct)
  case (Upgrade socket ob now_ms)
  with told_fresh[OF Upgrade(2)] show ?case
    by (auto simp: notify_fetch_def handle_ws_upgrade_def notify_inv_def Let_def split: prod.splits)
next
  case (Notify ob now_ms body)
  then show ?case by (simp add: notify_fetch_def handle_notify_inv)
next
  case (Message ob socket m)
  then show ?case
    using told_append[of ob "[(socket, Pong)]"] by (auto simp: websocket_message_def notify_inv_def told_def)
next
  case (Closed ob P)
  then show ?case by (auto simp: notify_inv_def)
qed (auto simp: notify_fetch_def notify_alarm_def notify_inv_def)

text \<open>C31 A browser is told at most once, and the truth: after any run of the notification object each
  socket was sent at most one status change, one that announces a verified proof exactly when the
  state it carries is a success state, and what is still open has not been told anything.\<close>

theorem browser_told_once:
  assumes "notify_step\<^sup>*\<^sup>* \<lparr>no_open = [], no_sent = [], no_storage = empty_storage\<rparr> ob"
  shows "distinct (map fst (told ob)) \<and> set (no_open ob) \<inter> fst ` set (told ob) = {} \<and>
    (\<forall>(x, s, v) \<in> set (told ob). v = (s \<in> set SUCCESS_STATES))"
proof -
  have "notify_inv \<lparr>no_open = [], no_sent = [], no_storage = empty_storage\<rparr>"
    by (simp add: notify_inv_def told_def)
  with assms have "notify_inv ob"
    by (induction rule: rtranclp_induct) (auto intro: notify_step_inv)
  then show ?thesis by (auto simp: notify_inv_def)
qed

lemma browser_told_once_witness:
  "\<exists>ob. notify_step\<^sup>*\<^sup>* \<lparr>no_open = [], no_sent = [], no_storage = empty_storage\<rparr> ob \<and>
     told ob = [(5, ''expired'', False)] \<and> distinct (map fst (told ob))"
proof -
  let ?o0 = "\<lparr>no_open = [], no_sent = [], no_storage = empty_storage\<rparr> :: notify_object"
  let ?o1 = "snd (notify_fetch 0 (WsUpgrade 5) ?o0)"
  let ?o2 = "snd (notify_fetch 0 (NotifyPost (NotifyState ''expired'')) ?o1)"
  have "notify_step ?o0 ?o1" by (rule Upgrade) simp_all
  moreover have "notify_step ?o1 ?o2" by (rule Notify)
  ultimately have r: "notify_step\<^sup>*\<^sup>* ?o0 ?o2" by (meson converse_rtranclp_into_rtranclp r_into_rtranclp)
  have "no_open ?o1 = [5] \<and> no_sent ?o1 = []"
    by (simp add: notify_fetch_def handle_ws_upgrade_def split_beta)
  then have "told ?o2 = [(5, ''expired'', False)]"
    by (simp add: notify_fetch_def handle_notify_def Let_def told_def SUCCESS_STATES_def FAILURE_STATES_def)
  with browser_told_once[OF r] r show ?thesis by blast
qed

subsection \<open>Notifying a hosted session\<close>

text \<open>The sessions and the notification objects, with the outcomes of the calls of the objects to come.\<close>

record notify_world =
  ny_kv :: hosted_kv
  ny_objects :: "string \<Rightarrow> notify_object"
  ny_net :: "delivery list"

record notify_env = hosted_env +
  nv_object_bound :: bool

definition lookup_session_for_challenge ::
    "notify_env \<Rightarrow> string \<Rightarrow> notify_world \<Rightarrow> string option \<times> notify_world" where
  "lookup_session_for_challenge env challenge_id w =
     (if \<not> hv_bound env then (None, w)
      else (let (r, k) = kv_read_text (mapping_key challenge_id) (ny_kv w)
            in (case r of Inr (Some session_id) \<Rightarrow> Some session_id | _ \<Rightarrow> None, w\<lparr>ny_kv := k\<rparr>)))"

text \<open>\<open>update_session_state\<close> and \<open>update_session_state_expired\<close> differ in the state they set.\<close>

definition set_pending_session_to ::
    "session_state \<Rightarrow> notify_env \<Rightarrow> string + bytes \<Rightarrow> u64 \<Rightarrow> string \<Rightarrow> notify_world \<Rightarrow>
     (string + unit) \<times> notify_world" where
  "set_pending_session_to new_state env iv now session_id w =
     (case get_session_kv (hosted_env.truncate env) session_id (ny_kv w) of
        (Inl e, k) \<Rightarrow> (Inl (''Failed to load session: '' @ hosted_message e), w\<lparr>ny_kv := k\<rparr>)
      | (Inr None, k) \<Rightarrow> (Inl (''Session '' @ session_id @ '' not found in KV''), w\<lparr>ny_kv := k\<rparr>)
      | (Inr (Some session), k) \<Rightarrow>
          if hs_state session \<noteq> SPending then (Inr (), w\<lparr>ny_kv := k\<rparr>)
          else case update_session_kv_checked (hosted_env.truncate env) iv now (session\<lparr>hs_state := new_state\<rparr>)
                      (Some SPending) k of
                 (Inl e, k') \<Rightarrow> (Inl (''Failed to update session in KV: '' @ hosted_message e), w\<lparr>ny_kv := k'\<rparr>)
               | (Inr _, k') \<Rightarrow> (Inr (), w\<lparr>ny_kv := k'\<rparr>))"

definition update_session_state ::
    "notify_env \<Rightarrow> string + bytes \<Rightarrow> u64 \<Rightarrow> string \<Rightarrow> notify_world \<Rightarrow> (string + unit) \<times> notify_world" where
  "update_session_state = set_pending_session_to SProofOk"

definition update_session_state_expired ::
    "notify_env \<Rightarrow> string + bytes \<Rightarrow> u64 \<Rightarrow> string \<Rightarrow> notify_world \<Rightarrow> (string + unit) \<times> notify_world" where
  "update_session_state_expired = set_pending_session_to SExpired"

definition push_state ::
    "string \<Rightarrow> notify_env \<Rightarrow> u64 \<Rightarrow> string \<Rightarrow> notify_world \<Rightarrow> bool \<times> notify_world" where
  "push_state s env now_ms session_id w =
     (if \<not> nv_object_bound env then (False, w)
      else (let d = next_delivery (ny_net w);
                ob' = snd (notify_fetch now_ms (NotifyPost (NotifyState s)) (ny_objects w session_id))
            in (d = Delivered,
                w\<lparr>ny_net := tl (ny_net w),
                  ny_objects := (if d = NotDelivered then ny_objects w else (ny_objects w)(session_id := ob'))\<rparr>)))"

definition push_ws_notification :: "notify_env \<Rightarrow> u64 \<Rightarrow> string \<Rightarrow> notify_world \<Rightarrow> bool \<times> notify_world" where
  "push_ws_notification = push_state ''proof_ok_waiting_for_redeem''"

definition push_ws_notification_expired :: "notify_env \<Rightarrow> u64 \<Rightarrow> string \<Rightarrow> notify_world \<Rightarrow> bool \<times> notify_world" where
  "push_ws_notification_expired = push_state ''expired''"

text \<open>The clock as seconds and milliseconds, and the random IV of the write.\<close>

record notify_clock =
  nc_now :: u64
  nc_now_ms :: u64
  nc_iv :: "string + bytes"

definition notify_proof_verified :: "notify_env \<Rightarrow> notify_clock \<Rightarrow> string \<Rightarrow> notify_world \<Rightarrow> notify_world" where
  "notify_proof_verified env t challenge_id w =
     (case lookup_session_for_challenge env challenge_id w of
        (None, w1) \<Rightarrow> w1
      | (Some session_id, w1) \<Rightarrow>
          snd (push_ws_notification env (nc_now_ms t) session_id
                 (snd (update_session_state env (nc_iv t) (nc_now t) session_id w1))))"

definition notify_proof_failed :: "notify_env \<Rightarrow> notify_clock \<Rightarrow> string \<Rightarrow> notify_world \<Rightarrow> notify_world" where
  "notify_proof_failed env t challenge_id w =
     (case lookup_session_for_challenge env challenge_id w of
        (None, w1) \<Rightarrow> w1
      | (Some session_id, w1) \<Rightarrow>
          snd (push_ws_notification_expired env (nc_now_ms t) session_id
                 (snd (update_session_state_expired env (nc_iv t) (nc_now t) session_id w1))))"

end
