(* ===== verification/Verify.thy ===== *)
theory Verify imports Handler Redeem Ban_Store Issuer_Registry Hosted_Notify begin

text \<open>
  \<open>src/routes/verify.rs\<close>: the submission of an age proof by the wallet, from the ban list to the
  state in which the challenge waits for its redemption.  The SNARK verifier of the crate
  provii_crypto_verifier, Blake2s and base64 are arguments; the calls of the audit logger are
  recorded in order, and the analytics counters, the timings and the log lines are left out.
\<close>

subsection \<open>The request\<close>

record public_inputs =
  pi_cutoff_days :: int
  pi_rp_challenge :: bytes
  pi_issuer_value :: bytes
  pi_cred_nullifier :: bytes

record age_proof =
  ap_verifying_key_id :: u32
  ap_public :: public_inputs
  ap_proof :: bytes

record submit_proof_request =
  sp_challenge_id :: uuid
  sp_submit_secret :: bytes
  sp_proof :: age_proof

text \<open>What \<open>verify_age_snark\<close> answers; the errors the handler tells apart, and the others.\<close>

datatype snark_error = VerificationFailed | InvalidFormat | VerifierNotInitialized | OtherSnarkError

record snark_result =
  sn_cutoff_days :: int
  sn_issuer_vk_bytes :: bytes

type_synonym snark_verifier =
  "bytes \<Rightarrow> bool \<Rightarrow> int \<Rightarrow> bytes \<Rightarrow> bytes \<Rightarrow> bytes \<Rightarrow> u32 \<Rightarrow> snark_error + snark_result"

subsection \<open>The state\<close>

record verify_env =
  ve_auth :: auth_env
  ve_idem :: idem_env
  ve_idem_store :: bool
  ve_challenges :: challenge_store_env
  ve_tiers :: tier_env
  ve_quota_var :: "string option"
  ve_rate_bound :: bool
  ve_nonces :: nonce_store_env
  ve_registry :: registry_env
  ve_encode :: "bytes \<Rightarrow> string"
  ve_snark :: snark_verifier
  ve_notify :: notify_env

text \<open>What is read from the clocks and from KV, and what other requests do to the registry.\<close>

record verify_clock =
  vt_ban :: u64
  vt_ban_read :: "string \<Rightarrow> kv_read"
  vt_get :: "nat \<Rightarrow> u64"
  vt_idem_check :: u64
  vt_quota :: u64
  vt_nonce :: u64
  vt_policy :: u64
  vt_policy_read :: kv_read
  vt_now :: u64
  vt_registry :: registry_clock
  vt_registry_read :: registry_read
  vt_registry_others :: "registry \<Rightarrow> registry"
  vt_put :: "nat \<Rightarrow> u64"
  vt_put_insert :: "nat \<Rightarrow> u64"
  vt_notify :: notify_clock
  vt_idem_store :: u64

datatype verify_audit =
    Audited audit_call
  | LogOriginDisabled string string
  | LogOriginNotFound string string
  | LogExpiryInconsistency string u64 u64 string
  | LogRevocationCacheHit string string string
  | LogRoyaltyEvent string bytes string int

text \<open>The work that is handed to the Worker's context, to run after the response.\<close>

datatype background = NotifyVerified string | NotifyFailed string | RefreshIssuers

record verify_world =
  vw_bans :: ban_cache
  vw_auth :: auth_world
  vw_idem :: idem_world
  vw_challenges :: challenge_world
  vw_rate :: rate_world
  vw_nonces :: nonce_world
  vw_registry :: registry
  vw_notify :: notify_world
  vw_context :: bool
  vw_background :: "background list"
  vw_audit :: "verify_audit list"

record verify_response =
  vs_result :: string
  vs_state :: string

datatype verify_outcome =
    VerifyAnswer nat verify_response
  | VerifyError api_error
  | VerifyPropagated api_error
  | VerifyLimited rate_rejection
  | VerifyReplayed replayed_response

type_synonym 'a verify_step = "(verify_world, verify_outcome, 'a) step"

abbreviation v_audit :: "verify_audit list \<Rightarrow> unit verify_step" where
  "v_audit \<equiv> append_to vw_audit_update"

definition v_refuse :: "verify_audit list \<Rightarrow> api_error \<Rightarrow> 'a verify_step" where
  "v_refuse calls e = andthen (v_audit calls) (\<lambda>_. stop (VerifyError e))"

definition attempt :: "string \<Rightarrow> string \<Rightarrow> bool \<Rightarrow> string option \<Rightarrow> verify_audit" where
  "attempt cid ip success reason = Audited (LogVerificationAttempt cid ip success reason)"

definition suspicious :: "string \<Rightarrow> string \<Rightarrow> verify_audit" where
  "suspicious ip event = Audited (LogSuspiciousActivity ip event)"

subsection \<open>Hashes\<close>

definition compute_rp_challenge_hash :: "registry_env \<Rightarrow> bytes \<Rightarrow> bytes" where
  "compute_rp_challenge_hash env rp_challenge = ge_blake2s env rp_challenge"

definition compute_issuer_key_hash :: "registry_env \<Rightarrow> bytes \<Rightarrow> bytes" where
  "compute_issuer_key_hash env issuer_vk_bytes =
     ge_blake2s env (string_bytes ''provii.issuer.vk.v0'' @ issuer_vk_bytes)"

subsection \<open>Notification and failure\<close>

definition run_notify :: "verify_env \<Rightarrow> notify_clock \<Rightarrow> background \<Rightarrow> notify_world \<Rightarrow> notify_world" where
  "run_notify env t b n =
     (case b of
        NotifyVerified cid \<Rightarrow> notify_proof_verified (ve_notify env) t cid n
      | NotifyFailed cid \<Rightarrow> notify_proof_failed (ve_notify env) t cid n
      | RefreshIssuers \<Rightarrow> n)"

text \<open>In the Worker's context when no one has taken it, else inline.\<close>

definition notify_hosted :: "verify_env \<Rightarrow> verify_clock \<Rightarrow> background \<Rightarrow> unit verify_step" where
  "notify_hosted env t b w =
     (Inr (),
      if vw_context w then w\<lparr>vw_context := False, vw_background := vw_background w @ [b]\<rparr>
      else w\<lparr>vw_notify := run_notify env (vt_notify t) b (vw_notify w)\<rparr>)"

text \<open>The work left to the Worker's context, at its own clock and with its own reads.\<close>

definition run_background ::
    "verify_env \<Rightarrow> notify_clock \<Rightarrow> registry_read \<Rightarrow> (registry \<Rightarrow> registry) \<Rightarrow> registry_clock \<Rightarrow>
     background \<Rightarrow> verify_world \<Rightarrow> verify_world" where
  "run_background env nt rd others rt b w =
     w\<lparr>vw_notify := run_notify env nt b (vw_notify w),
       vw_registry := (if b = RefreshIssuers then background_refresh (ve_registry env) rd others rt (vw_registry w)
                       else vw_registry w)\<rparr>"

definition put_challenge :: "verify_env \<Rightarrow> verify_clock \<Rightarrow> uuid \<Rightarrow> cached_challenge \<Rightarrow> unit api_result verify_step" where
  "put_challenge env t cid c =
     on_part vw_challenges vw_challenges_update (store_put (ve_challenges env) (vt_put t) (vt_put_insert t) cid c)"

definition failed_challenge :: "cached_challenge \<Rightarrow> cached_challenge" where
  "failed_challenge c = zeroize_secret (c\<lparr>cc_state := Failed, cc_proof_submitted := True\<rparr>)"

definition fail_challenge_and_persist ::
    "verify_env \<Rightarrow> verify_clock \<Rightarrow> uuid \<Rightarrow> cached_challenge \<Rightarrow> string \<Rightarrow> string \<Rightarrow> bool \<Rightarrow> unit verify_step" where
  "fail_challenge_and_persist env t cid cached client_ip error_code notify =
     (let cid_text = cse_uuid_text (ve_challenges env) cid in
      andthen (put_challenge env t cid (failed_challenge cached)) (\<lambda>_.
      andthen (v_audit [attempt cid_text client_ip False (Some error_code)]) (\<lambda>_.
      if notify then notify_hosted env t (NotifyFailed cid_text) else ret ())))"

text \<open>The pattern of the checks of the proof: fail the challenge, then answer.\<close>

definition fail_with ::
    "verify_env \<Rightarrow> verify_clock \<Rightarrow> redeem_headers \<Rightarrow> uuid \<Rightarrow> cached_challenge \<Rightarrow> string \<Rightarrow> bool \<Rightarrow>
     verify_outcome \<Rightarrow> 'a verify_step" where
  "fail_with env t h cid cached error_code notify answer =
     andthen (fail_challenge_and_persist env t cid cached (client_ip_of h) error_code notify) (\<lambda>_. stop answer)"

subsection \<open>The phases before the nonce\<close>

definition v_headers_phase :: "redeem_headers \<Rightarrow> string option verify_step" where
  "v_headers_phase h =
     (case extract_idempotency_key (rh_idempotency_key h) ''POST'' ''/v1/verify'' of
        Inl e \<Rightarrow> stop (VerifyPropagated e)
      | Inr key \<Rightarrow>
          (case validate_fetch_metadata (rh_fetch h) of
             Inl e \<Rightarrow> stop (VerifyError e)
           | Inr _ \<Rightarrow> ret key))"

text \<open>The ban list and the challenge are read concurrently, whatever the outcome of the other.\<close>

definition v_load_phase ::
    "verify_env \<Rightarrow> verify_clock \<Rightarrow> redeem_headers \<Rightarrow> uuid \<Rightarrow> bytes \<Rightarrow> cached_challenge verify_step" where
  "v_load_phase env t h cid cred_nullifier =
     andthen (on_part vw_bans vw_bans_update (is_banned (ve_encode env) (vt_ban t) cred_nullifier (vt_ban_read t))) (\<lambda>ban_result.
     andthen (on_part vw_challenges vw_challenges_update (store_get (ve_challenges env) (vt_get t) cid)) (\<lambda>challenge_get_result.
     case ban_result of
       Inl e \<Rightarrow> stop (VerifyPropagated e)
     | Inr True \<Rightarrow>
         v_refuse [attempt (cse_uuid_text (ve_challenges env) cid) (client_ip_of h) False (Some ''banned_credential'')]
           (Forbidden (Some ''Credential is banned''))
     | Inr False \<Rightarrow>
         (case challenge_get_result of
            Inr (Some c) \<Rightarrow> ret c
          | Inr None \<Rightarrow> stop (VerifyError NotFound)
          | Inl e \<Rightarrow>
              v_refuse [suspicious (client_ip_of h) ''downstream_failure:challenge_store_read'']
                (Internal (display e)))))"

definition v_auth_options :: "cached_challenge \<Rightarrow> auth_options" where
  "v_auth_options cached =
     \<lparr>ao_expected_owner_id = cc_client_id cached, ao_allow_mobile_flow = True,
      ao_stored_client_id = cc_client_id cached\<rparr>"

definition v_auth_phase ::
    "verify_env \<Rightarrow> redeem_headers \<Rightarrow> cached_challenge \<Rightarrow> (string \<times> bool) verify_step" where
  "v_auth_phase env h cached =
     andthen (on_part vw_auth vw_auth_update (authenticate_api_key (ve_auth env) (rh_origin h) (rh_api_key h)
       (v_auth_options cached))) (\<lambda>auth.
     case ar_client_id auth of
       Some client_id \<Rightarrow> ret (client_id, ar_is_mobile_flow auth)
     | None \<Rightarrow>
         v_refuse [Audited (LogAuthenticationFailure (client_ip_of h) ''verification_auth_failed'')] Unauthorized)"

definition v_owner_phase ::
    "redeem_headers \<Rightarrow> cached_challenge \<Rightarrow> string \<Rightarrow> bool \<Rightarrow> unit verify_step" where
  "v_owner_phase h cached client_id is_mobile_flow =
     (if is_mobile_flow then ret ()
      else case verify_ownership (cc_client_id cached) (Some client_id) (client_ip_of h) ''bola_ownership_violation'' of
             (Inl e, evs) \<Rightarrow> v_refuse (map (\<lambda>(ip, ev). suspicious ip ev) evs) e
           | (Inr _, _) \<Rightarrow> ret ())"

definition v_replay_phase ::
    "verify_env \<Rightarrow> verify_clock \<Rightarrow> string option \<Rightarrow> string \<Rightarrow> unit verify_step" where
  "v_replay_phase env t key client_id =
     (case key of
        Some k \<Rightarrow>
          (if ve_idem_store env then
             andthen (on_part vw_idem vw_idem_update (check_idempotency (ve_idem env) (vt_idem_check t) k ''verify''
               (compute_request_fingerprint (ve_idem env) ''verify'' client_id))) (\<lambda>r.
             case r of
               Inl e \<Rightarrow> stop (VerifyPropagated e)
             | Inr (Some cached_response) \<Rightarrow> stop (VerifyReplayed cached_response)
             | Inr None \<Rightarrow> ret ())
           else ret ())
      | None \<Rightarrow> ret ())"

definition v_quota_phase :: "verify_env \<Rightarrow> verify_clock \<Rightarrow> string \<Rightarrow> unit verify_step" where
  "v_quota_phase env t client_id =
     andthen (on_part vw_rate vw_rate_update (enforce_account_quota (ve_tiers env) (ve_quota_var env) (ve_rate_bound env)
       client_id ''verify'' (vt_quota t))) (\<lambda>r.
     case r of Inl resp \<Rightarrow> stop (VerifyLimited resp) | Inr _ \<Rightarrow> ret ())"

definition v_nonce_phase ::
    "verify_env \<Rightarrow> verify_clock \<Rightarrow> redeem_headers \<Rightarrow> uuid \<Rightarrow> unit verify_step" where
  "v_nonce_phase env t h cid =
     (let cid_text = cse_uuid_text (ve_challenges env) cid in
      andthen (on_part vw_nonces vw_nonces_update
        (check_and_set (ve_nonces env) (''verify:'' @ cid_text) (vt_nonce t) NONCE_DEDUP_TTL)) (\<lambda>r.
      case r of
        Inr True \<Rightarrow> ret ()
      | Inr False \<Rightarrow>
          v_refuse [Audited (LogReplayAttempt cid_text (client_ip_of h))]
            (Conflict (Some ''Duplicate verification submission''))
      | Inl e \<Rightarrow> stop (VerifyError (Internal (display e)))))"

subsection \<open>The checks of the challenge\<close>

definition v_policy_phase ::
    "verify_env \<Rightarrow> verify_clock \<Rightarrow> redeem_headers \<Rightarrow> uuid \<Rightarrow> string \<Rightarrow> origin_policy verify_step" where
  "v_policy_phase env t h cid origin =
     (let cid_text = cse_uuid_text (ve_challenges env) cid; ip = client_ip_of h;
          refusal = (\<lambda>call reason. v_refuse [call, attempt cid_text ip False (Some reason)]
            (Forbidden (Some ''Origin not approved'')))
      in andthen (on_part vw_auth vw_auth_update (\<lambda>a.
           let (r, c) = get_policy_detail (ae_parse (ve_auth env)) (vt_policy t) origin (vt_policy_read t) (aw_cache a)
           in (r, a\<lparr>aw_cache := c\<rparr>))) (\<lambda>r.
         case r of
           Inl e \<Rightarrow> stop (VerifyPropagated e)
         | Inr (Found p) \<Rightarrow> ret p
         | Inr Disabled \<Rightarrow> refusal (LogOriginDisabled origin ip) ''origin_disabled''
         | Inr Policy_NotFound \<Rightarrow> refusal (LogOriginNotFound origin ip) ''origin_not_approved''))"

definition expired_challenge :: "cached_challenge \<Rightarrow> cached_challenge" where
  "expired_challenge c = zeroize_secret (c\<lparr>cc_state := Expired\<rparr>)"

definition already_consumed :: "cached_challenge \<Rightarrow> bool" where
  "already_consumed c \<longleftrightarrow>
     cc_proof_submitted c \<or> cc_state c = ProofOkWaitingForRedeem \<or> cc_state c = Verified \<or> cc_state c = Failed"

definition v_fresh_phase ::
    "verify_env \<Rightarrow> verify_clock \<Rightarrow> redeem_headers \<Rightarrow> uuid \<Rightarrow> cached_challenge \<Rightarrow> unit verify_step" where
  "v_fresh_phase env t h cid cached =
     (let cid_text = cse_uuid_text (ve_challenges env) cid; ip = client_ip_of h
      in if vt_now t > cc_expires_at cached then
           andthen (v_audit [LogExpiryInconsistency cid_text (cc_expires_at cached) (vt_now t) ip]) (\<lambda>_.
           andthen (put_challenge env t cid (expired_challenge cached)) (\<lambda>_.
           v_refuse [attempt cid_text ip False (Some ''challenge_expired'')] (Gone (Some ''Challenge expired''))))
         else if already_consumed cached then
           v_refuse [attempt cid_text ip False (Some ''challenge_already_consumed'')]
             (Gone (Some ''Challenge already consumed''))
         else ret ())"

definition corrupt :: "'a verify_step" where
  "corrupt = stop (VerifyError (Internal ''Service unavailable''))"

definition v_secret_phase ::
    "verify_env \<Rightarrow> verify_clock \<Rightarrow> redeem_headers \<Rightarrow> submit_proof_request \<Rightarrow> origin_policy \<Rightarrow> cached_challenge \<Rightarrow>
     unit verify_step" where
  "v_secret_phase env t h body policy cached =
     (let cid = sp_challenge_id body in
      if ap_verifying_key_id (sp_proof body) \<notin> set (op_allowed_vk_ids policy) then
        fail_with env t h cid cached ''invalid_vk_id_for_origin'' False
          (VerifyError (BadRequest (Some ''Invalid verifying_key_id for this origin'')))
      else if length (cc_submit_secret cached) \<noteq> 32 then corrupt
      else if sp_submit_secret body \<noteq> cc_submit_secret cached then
        fail_with env t h cid cached ''invalid_submit_secret'' False
          (VerifyError (BadRequest (Some ''Invalid submit_secret'')))
      else ret ())"

definition v_issuer_phase ::
    "verify_env \<Rightarrow> verify_clock \<Rightarrow> redeem_headers \<Rightarrow> submit_proof_request \<Rightarrow> origin_policy \<Rightarrow> cached_challenge \<Rightarrow>
     unit verify_step" where
  "v_issuer_phase env t h body policy cached =
     (let cid = sp_challenge_id body; cid_text = cse_uuid_text (ve_challenges env) cid;
          key_hash = compute_issuer_key_hash (ve_registry env) (pi_issuer_value (ap_public (sp_proof body)))
      in andthen (on_part vw_registry vw_registry_update (\<lambda>g. (peek_issuer key_hash g, g))) (\<lambda>peeked.
         if (case peeked of Some issuer \<Rightarrow> im_revoked issuer | None \<Rightarrow> False) then
           andthen (v_audit [LogRevocationCacheHit cid_text (cc_origin cached) (client_ip_of h)]) (\<lambda>_.
           fail_with env t h cid cached ''issuer_revoked'' False
             (VerifyError (Forbidden (Some ''Issuer has been revoked''))))
         else if op_allowed_issuers policy \<noteq> [] \<and> ve_encode env key_hash \<notin> set (op_allowed_issuers policy) then
           fail_with env t h cid cached ''issuer_not_allowed'' False
             (VerifyError (Forbidden (Some ''Issuer not allowed for this origin'')))
         else ret ()))"

definition v_inputs_phase ::
    "verify_env \<Rightarrow> verify_clock \<Rightarrow> redeem_headers \<Rightarrow> submit_proof_request \<Rightarrow> cached_challenge \<Rightarrow> unit verify_step" where
  "v_inputs_phase env t h body cached =
     (let cid = sp_challenge_id body; public = ap_public (sp_proof body) in
      if ap_verifying_key_id (sp_proof body) \<noteq> cc_verifying_key_id cached then
        fail_with env t h cid cached ''verifying_key_id_mismatch'' False
          (VerifyError (BadRequest (Some ''verifying_key_id mismatch'')))
      else if length (cc_rp_challenge cached) \<noteq> 32 then corrupt
      else if pi_rp_challenge public \<noteq> cc_rp_challenge cached then
        fail_with env t h cid cached ''rp_challenge_mismatch'' False
          (VerifyError (BadRequest (Some ''rp_challenge mismatch'')))
      else if pi_cutoff_days public \<noteq> cc_cutoff_days cached then
        fail_with env t h cid cached ''cutoff_days_mismatch'' False
          (VerifyError (BadRequest (Some ''cutoff_days mismatch'')))
      else ret ())"

subsection \<open>The proof\<close>

fun snark_error_code :: "snark_error \<Rightarrow> string" where
  "snark_error_code VerificationFailed = ''invalid_proof''"
| "snark_error_code InvalidFormat = ''invalid_proof_format''"
| "snark_error_code VerifierNotInitialized = ''verifier_error''"
| "snark_error_code OtherSnarkError = ''verification_failed''"

fun snark_error_msg :: "snark_error \<Rightarrow> string" where
  "snark_error_msg VerificationFailed = ''INVALID_PROOF''"
| "snark_error_msg InvalidFormat = ''INVALID_PROOF_FORMAT''"
| "snark_error_msg VerifierNotInitialized = ''VERIFIER_ERROR''"
| "snark_error_msg OtherSnarkError = ''VERIFICATION_FAILED''"

definition run_snark ::
    "verify_env \<Rightarrow> submit_proof_request \<Rightarrow> cached_challenge \<Rightarrow> snark_error + snark_result" where
  "run_snark env body cached =
     (let public = ap_public (sp_proof body) in
      ve_snark env (ap_proof (sp_proof body))
        (case cc_proof_direction cached of OverAge \<Rightarrow> True | UnderAge \<Rightarrow> False) (cc_cutoff_days cached)
        (compute_rp_challenge_hash (ve_registry env) (pi_rp_challenge public)) (pi_issuer_value public)
        (pi_cred_nullifier public) (cc_verifying_key_id cached))"

definition v_snark_phase ::
    "verify_env \<Rightarrow> verify_clock \<Rightarrow> redeem_headers \<Rightarrow> submit_proof_request \<Rightarrow> cached_challenge \<Rightarrow> snark_result verify_step" where
  "v_snark_phase env t h body cached =
     (case run_snark env body cached of
        Inr r \<Rightarrow> ret r
      | Inl e \<Rightarrow>
          fail_with env t h (sp_challenge_id body) cached (snark_error_code e) True
            (VerifyAnswer 400 \<lparr>vs_result = snark_error_msg e, vs_state = ''failed''\<rparr>))"

text \<open>The lookup of the issuer may hand a refresh of the registry to the Worker's context.\<close>

definition v_lookup :: "verify_env \<Rightarrow> verify_clock \<Rightarrow> bytes \<Rightarrow> issuer_meta api_result verify_step" where
  "v_lookup env t key_hash w =
     (let ((r, started), g) = lookup_issuer (ve_registry env) (vw_context w) (vt_registry_read t)
            (vt_registry_others t) (vt_registry t) key_hash (vw_registry w)
      in (Inr r, w\<lparr>vw_registry := g, vw_context := vw_context w \<and> \<not> started,
            vw_background := vw_background w @ (if started then [RefreshIssuers] else [])\<rparr>))"

definition issued_by :: "issuer_meta \<Rightarrow> snark_result \<Rightarrow> cached_challenge \<Rightarrow> cached_challenge" where
  "issued_by issuer r c = c\<lparr>cc_issuer_kid := Some (im_kid issuer), cc_issuer_vk_bytes := Some (sn_issuer_vk_bytes r)\<rparr>"

definition v_registry_phase ::
    "verify_env \<Rightarrow> verify_clock \<Rightarrow> redeem_headers \<Rightarrow> submit_proof_request \<Rightarrow> cached_challenge \<Rightarrow> snark_result \<Rightarrow>
     cached_challenge verify_step" where
  "v_registry_phase env t h body cached verify_result =
     (let cid = sp_challenge_id body;
          key_hash = compute_issuer_key_hash (ve_registry env) (pi_issuer_value (ap_public (sp_proof body)))
      in andthen (v_lookup env t key_hash) (\<lambda>r.
         case r of
           Inr issuer \<Rightarrow>
             if im_revoked issuer then
               fail_with env t h cid cached ''issuer_revoked_post_verify'' True
                 (VerifyError (Forbidden (Some ''Issuer revoked after proof verification'')))
             else
               andthen (v_audit [LogRoyaltyEvent (im_kid issuer) (sn_issuer_vk_bytes verify_result) (cc_origin cached)
                 (sn_cutoff_days verify_result)]) (\<lambda>_. ret (issued_by issuer verify_result cached))
         | Inl NotFound \<Rightarrow>
             andthen (v_audit [suspicious (client_ip_of h) ''unknown_issuer_rejected'']) (\<lambda>_.
             fail_with env t h cid cached ''unknown_issuer'' False (VerifyError (Forbidden (Some ''Unknown issuer''))))
         | Inl _ \<Rightarrow>
             v_refuse [suspicious (client_ip_of h) ''downstream_failure:issuer_registry_lookup'']
               (ServiceUnavailable (Some ''Issuer registry temporarily unavailable''))))"

subsection \<open>The answer\<close>

definition proven_challenge :: "u64 \<Rightarrow> cached_challenge \<Rightarrow> cached_challenge" where
  "proven_challenge now c =
     zeroize_secret (c\<lparr>cc_state := ProofOkWaitingForRedeem, cc_proof_verified_at := Some now, cc_proof_submitted := True\<rparr>)"

definition v_put_phase ::
    "verify_env \<Rightarrow> verify_clock \<Rightarrow> redeem_headers \<Rightarrow> uuid \<Rightarrow> cached_challenge \<Rightarrow> unit verify_step" where
  "v_put_phase env t h cid cached =
     andthen (put_challenge env t cid (proven_challenge (vt_now t) cached)) (\<lambda>r.
     case r of
       Inl e \<Rightarrow>
         v_refuse [suspicious (client_ip_of h) ''downstream_failure:challenge_store_write''] (Internal (display e))
     | Inr _ \<Rightarrow> ret ())"

definition verify_ok :: verify_response where
  "verify_ok = \<lparr>vs_result = ''OK'', vs_state = ''proof_ok_waiting_for_redeem''\<rparr>"

text \<open>The serde_json text of the response.\<close>

definition verify_ok_json :: string where
  "verify_ok_json = [CHR 0x7B] @ quoted ''result'' @ '':'' @ quoted ''OK'' @ '','' @ quoted ''state'' @ '':'' @
     quoted ''proof_ok_waiting_for_redeem'' @ [CHR 0x7D]"

definition v_cache_phase ::
    "verify_env \<Rightarrow> verify_clock \<Rightarrow> string option \<Rightarrow> string \<Rightarrow> unit verify_step" where
  "v_cache_phase env t key client_id =
     (case key of
        Some k \<Rightarrow>
          (if ve_idem_store env then
             andthen (on_part vw_idem vw_idem_update (store_idempotency_response (ve_idem env) (vt_idem_store t) k
               verify_ok_json 200 ''verify'' None (compute_request_fingerprint (ve_idem env) ''verify'' client_id)))
               (\<lambda>_. ret ())
           else ret ())
      | None \<Rightarrow> ret ())"

subsection \<open>The handler\<close>

definition v_gates ::
    "verify_env \<Rightarrow> verify_clock \<Rightarrow> redeem_headers \<Rightarrow> submit_proof_request \<Rightarrow>
     (string option \<times> string \<times> cached_challenge) verify_step" where
  "v_gates env t h body =
     (let cid = sp_challenge_id body in
      andthen (v_headers_phase h) (\<lambda>key.
      andthen (v_load_phase env t h cid (pi_cred_nullifier (ap_public (sp_proof body)))) (\<lambda>cached.
      andthen (v_auth_phase env h cached) (\<lambda>(client_id, is_mobile_flow).
      andthen (v_owner_phase h cached client_id is_mobile_flow) (\<lambda>_.
      andthen (v_replay_phase env t key client_id) (\<lambda>_.
      andthen (v_quota_phase env t client_id) (\<lambda>_.
      ret (key, client_id, cached))))))))"

text \<open>From the nonce to the verified proof.\<close>

definition v_proof ::
    "verify_env \<Rightarrow> verify_clock \<Rightarrow> redeem_headers \<Rightarrow> submit_proof_request \<Rightarrow> cached_challenge \<Rightarrow>
     cached_challenge verify_step" where
  "v_proof env t h body cached =
     (let cid = sp_challenge_id body in
      andthen (v_policy_phase env t h cid (cc_origin cached)) (\<lambda>policy.
      andthen (v_fresh_phase env t h cid cached) (\<lambda>_.
      andthen (v_secret_phase env t h body policy cached) (\<lambda>_.
      let cached = zeroize_secret cached in
      andthen (v_issuer_phase env t h body policy cached) (\<lambda>_.
      andthen (v_inputs_phase env t h body cached) (\<lambda>_.
      andthen (v_snark_phase env t h body cached) (\<lambda>verify_result.
      v_registry_phase env t h body cached verify_result)))))))"

definition v_answer ::
    "verify_env \<Rightarrow> verify_clock \<Rightarrow> redeem_headers \<Rightarrow> uuid \<Rightarrow> string option \<Rightarrow> string \<Rightarrow> cached_challenge \<Rightarrow>
     verify_outcome verify_step" where
  "v_answer env t h cid key client_id cached =
     (let cid_text = cse_uuid_text (ve_challenges env) cid in
      andthen (v_put_phase env t h cid cached) (\<lambda>_.
      andthen (v_audit [attempt cid_text (client_ip_of h) True None]) (\<lambda>_.
      andthen (notify_hosted env t (NotifyVerified cid_text)) (\<lambda>_.
      andthen (v_cache_phase env t key client_id) (\<lambda>_.
      ret (VerifyAnswer 200 verify_ok))))))"

definition submit_verification ::
    "verify_env \<Rightarrow> verify_clock \<Rightarrow> redeem_headers \<Rightarrow> submit_proof_request \<Rightarrow> verify_world \<Rightarrow>
     verify_outcome \<times> verify_world" where
  "submit_verification env t h body =
     finish (andthen (v_gates env t h body) (\<lambda>(key, client_id, cached).
             andthen (v_nonce_phase env t h (sp_challenge_id body)) (\<lambda>_.
             andthen (v_proof env t h body cached) (\<lambda>proven.
             v_answer env t h (sp_challenge_id body) key client_id proven))))"

end
