(* ===== verification/Verify_Correct.thy ===== *)
theory Verify_Correct imports Verify Store_Calls begin

text \<open>
  What the submission of a proof establishes (\<open>src/routes/verify.rs\<close>): an accepted proof has passed
  every check, is decided at most once per challenge, and is recorded in the challenge's object.
\<close>

subsection \<open>What each phase has established when it lets a request through\<close>

lemma v_refuse_run [run_steps]:
  "v_refuse calls e w = (Inl (VerifyError e), w\<lparr>vw_audit := vw_audit w @ calls\<rparr>)"
  by (simp add: v_refuse_def run_steps)

lemma fail_with_not_Inr [simp]: "fail_with env t h cid c code n out w \<noteq> (Inr x, w')"
  by (auto simp: fail_with_def andthen_Inr_iff)

lemma fail_with_ends: "fail_with env t h cid c code n out w = (Inl x, w') \<Longrightarrow> x = out"
  by (auto simp: fail_with_def fail_challenge_and_persist_def put_challenge_def run_steps andthen_Inl_iff notify_hosted_def Let_def
      split: if_splits prod.splits)

lemma v_headers_ok: "v_headers_phase h w = (Inr key, w') \<Longrightarrow> validate_fetch_metadata (rh_fetch h) = Inr () \<and> w' = w"
  by (auto simp: v_headers_phase_def split: sum.splits)

lemma v_load_ok:
  "v_load_phase env t h cid n w = (Inr c, w') \<Longrightarrow>
     \<exists>b cw. is_banned (ve_encode env) (vt_ban t) n (vt_ban_read t) (vw_bans w) = (Inr False, b) \<and>
       store_get (ve_challenges env) (vt_get t) cid (vw_challenges w) = (Inr (Some c), cw) \<and>
       w' = w\<lparr>vw_bans := b, vw_challenges := cw\<rparr>"
  by (auto simp: v_load_phase_def run_steps split: prod.splits sum.splits bool.splits option.splits)

lemma v_auth_ok:
  "v_auth_phase env h c w = (Inr (client, mobile), w') \<Longrightarrow>
     \<exists>r a. authenticate_api_key (ve_auth env) (rh_origin h) (rh_api_key h) (v_auth_options c) (vw_auth w) = (r, a) \<and>
       ar_client_id r = Some client \<and> ar_is_mobile_flow r = mobile \<and> w' = w\<lparr>vw_auth := a\<rparr>"
  by (auto simp: v_auth_phase_def run_steps split: prod.splits option.splits)

lemma v_owner_ok: "v_owner_phase h c client mobile w = (Inr u, w') \<Longrightarrow> (mobile \<or> cc_client_id c = Some client) \<and> w' = w"
  using verify_ownership_iff[of "cc_client_id c" "Some client" "client_ip_of h" "''bola_ownership_violation''"]
  by (auto simp: v_owner_phase_def run_steps split: prod.splits sum.splits if_splits)

lemma v_replay_ok: "v_replay_phase env t key client w = (Inr u, w') \<Longrightarrow> \<exists>a. w' = w\<lparr>vw_idem := a\<rparr>"
  by (auto simp: v_replay_phase_def run_steps split: prod.splits option.splits if_splits sum.splits)
     (metis verify_world.surjective verify_world.update_convs(3))+

lemma v_quota_ok:
  "v_quota_phase env t client w = (Inr u, w') \<Longrightarrow>
     \<exists>a. enforce_account_quota (ve_tiers env) (ve_quota_var env) (ve_rate_bound env) client ''verify'' (vt_quota t) (vw_rate w) =
       (Inr (), a) \<and> w' = w\<lparr>vw_rate := a\<rparr>"
  by (auto simp: v_quota_phase_def run_steps split: prod.splits sum.splits)

lemma v_nonce_ok:
  "v_nonce_phase env t h cid w = (Inr u, w') \<Longrightarrow>
     \<exists>a. check_and_set (ve_nonces env) (''verify:'' @ cse_uuid_text (ve_challenges env) cid) (vt_nonce t) NONCE_DEDUP_TTL
         (vw_nonces w) = (Inr True, a) \<and> w' = w\<lparr>vw_nonces := a\<rparr>"
  by (auto simp: v_nonce_phase_def run_steps Let_def split: prod.splits sum.splits bool.splits)

lemma v_policy_ok:
  "v_policy_phase env t h cid origin w = (Inr p, w') \<Longrightarrow>
     fst (get_policy_detail (ae_parse (ve_auth env)) (vt_policy t) origin (vt_policy_read t) (aw_cache (vw_auth w))) = Inr (Found p) \<and>
     vw_challenges w' = vw_challenges w \<and> vw_registry w' = vw_registry w \<and> vw_context w' = vw_context w"
  by (auto simp: v_policy_phase_def run_steps Let_def split: prod.splits sum.splits policy_lookup_result.splits)

lemma v_fresh_ok:
  "v_fresh_phase env t h cid c w = (Inr u, w') \<Longrightarrow> vt_now t \<le> cc_expires_at c \<and> \<not> already_consumed c \<and> w' = w"
  by (auto simp: v_fresh_phase_def run_steps put_challenge_def Let_def split: if_splits prod.splits)

lemma v_secret_ok:
  "v_secret_phase env t h body p c w = (Inr u, w') \<Longrightarrow>
     ap_verifying_key_id (sp_proof body) \<in> set (op_allowed_vk_ids p) \<and> length (sp_submit_secret body) = 32 \<and>
     sp_submit_secret body = cc_submit_secret c \<and> w' = w"
  by (auto simp: v_secret_phase_def Let_def corrupt_def split: if_splits)

lemma v_issuer_ok:
  assumes "v_issuer_phase env t h body p c w = (Inr u, w')"
    and "k = compute_issuer_key_hash (ve_registry env) (pi_issuer_value (ap_public (sp_proof body)))"
  shows "(op_allowed_issuers p = [] \<or> ve_encode env k \<in> set (op_allowed_issuers p)) \<and> w' = w"
  using assms
  by (auto simp: v_issuer_phase_def Let_def run_steps split: if_splits option.splits)

lemma v_inputs_ok:
  "v_inputs_phase env t h body c w = (Inr u, w') \<Longrightarrow>
     ap_verifying_key_id (sp_proof body) = cc_verifying_key_id c \<and>
     pi_rp_challenge (ap_public (sp_proof body)) = cc_rp_challenge c \<and>
     pi_cutoff_days (ap_public (sp_proof body)) = cc_cutoff_days c \<and> w' = w"
  by (auto simp: v_inputs_phase_def Let_def corrupt_def split: if_splits)

lemma v_snark_ok: "v_snark_phase env t h body c w = (Inr r, w') \<Longrightarrow> run_snark env body c = Inr r \<and> w' = w"
  by (auto simp: v_snark_phase_def split: sum.splits)

lemma v_registry_ok:
  assumes "v_registry_phase env t h body c r w = (Inr c', w')"
  shows "\<exists>issuer started g. lookup_issuer (ve_registry env) (vw_context w) (vt_registry_read t) (vt_registry_others t) (vt_registry t)
      (compute_issuer_key_hash (ve_registry env) (pi_issuer_value (ap_public (sp_proof body)))) (vw_registry w) =
        ((Inr issuer, started), g) \<and> \<not> im_revoked issuer \<and> c' = issued_by issuer r c \<and> vw_challenges w' = vw_challenges w"
  using assms
  by (auto simp: v_registry_phase_def v_lookup_def andthen_Inr_iff Let_def append_to_def run_steps
      split: prod.splits sum.splits api_error.splits if_splits)

lemma v_put_ok:
  "v_put_phase env t h cid c w = (Inr u, w') \<Longrightarrow>
     store_put (ve_challenges env) (vt_put t) (vt_put_insert t) cid (proven_challenge (vt_now t) c) (vw_challenges w) =
       (Inr (), vw_challenges w')"
  by (auto simp: v_put_phase_def put_challenge_def run_steps split: prod.splits sum.splits)

text \<open>What the gates require before the nonce, and what the checks and the proof require after it.\<close>

definition submission_allowed ::
    "verify_env \<Rightarrow> verify_clock \<Rightarrow> redeem_headers \<Rightarrow> submit_proof_request \<Rightarrow> verify_world \<Rightarrow> string \<Rightarrow> cached_challenge \<Rightarrow> bool" where
  "submission_allowed env t h body w client c \<longleftrightarrow>
     validate_fetch_metadata (rh_fetch h) = Inr () \<and>
     fst (is_banned (ve_encode env) (vt_ban t) (pi_cred_nullifier (ap_public (sp_proof body))) (vt_ban_read t) (vw_bans w)) =
       Inr False \<and>
     (\<exists>mobile. fst (authenticate_api_key (ve_auth env) (rh_origin h) (rh_api_key h) (v_auth_options c) (vw_auth w)) =
        \<lparr>ar_client_id = Some client, ar_is_mobile_flow = mobile\<rparr> \<and> (mobile \<or> cc_client_id c = Some client)) \<and>
     fst (enforce_account_quota (ve_tiers env) (ve_quota_var env) (ve_rate_bound env) client ''verify''
            (vt_quota t) (vw_rate w)) = Inr ()"

definition proof_allowed ::
    "verify_env \<Rightarrow> verify_clock \<Rightarrow> submit_proof_request \<Rightarrow> origin_policy \<Rightarrow> cached_challenge \<Rightarrow> bool" where
  "proof_allowed env t body p c \<longleftrightarrow>
     vt_now t \<le> cc_expires_at c \<and> \<not> already_consumed c \<and>
     length (sp_submit_secret body) = 32 \<and> sp_submit_secret body = cc_submit_secret c \<and>
     ap_verifying_key_id (sp_proof body) = cc_verifying_key_id c \<and> cc_verifying_key_id c \<in> set (op_allowed_vk_ids p) \<and>
     pi_rp_challenge (ap_public (sp_proof body)) = cc_rp_challenge c \<and>
     pi_cutoff_days (ap_public (sp_proof body)) = cc_cutoff_days c \<and>
     (op_allowed_issuers p = [] \<or>
      ve_encode env (compute_issuer_key_hash (ve_registry env) (pi_issuer_value (ap_public (sp_proof body)))) \<in> set (op_allowed_issuers p))"

lemma v_gates_ok:
  assumes "v_gates env t h body w = (Inr (key, client, c), w')"
  shows "submission_allowed env t h body w client c \<and>
    store_get (ve_challenges env) (vt_get t) (sp_challenge_id body) (vw_challenges w) = (Inr (Some c), vw_challenges w') \<and>
    vw_auth w' = snd (authenticate_api_key (ve_auth env) (rh_origin h) (rh_api_key h) (v_auth_options c) (vw_auth w)) \<and>
    vw_nonces w' = vw_nonces w \<and> vw_registry w' = vw_registry w \<and> vw_context w' = vw_context w"
proof -
  from assms obtain w1 w2 w3 w4 w5 mobile where s:
    "v_headers_phase h w = (Inr key, w1)"
    "v_load_phase env t h (sp_challenge_id body) (pi_cred_nullifier (ap_public (sp_proof body))) w1 = (Inr c, w2)"
    "v_auth_phase env h c w2 = (Inr (client, mobile), w3)" "v_owner_phase h c client mobile w3 = (Inr (), w4)"
    "v_replay_phase env t key client w4 = (Inr (), w5)" "v_quota_phase env t client w5 = (Inr (), w')"
    by (auto simp: v_gates_def Let_def andthen_Inr_iff)
  from v_load_ok[OF s(2)] obtain b cw where l:
    "is_banned (ve_encode env) (vt_ban t) (pi_cred_nullifier (ap_public (sp_proof body))) (vt_ban_read t) (vw_bans w1) = (Inr False, b)"
    "store_get (ve_challenges env) (vt_get t) (sp_challenge_id body) (vw_challenges w1) = (Inr (Some c), cw)"
    "w2 = w1\<lparr>vw_bans := b, vw_challenges := cw\<rparr>" by blast
  from v_auth_ok[OF s(3)] obtain r a where a:
    "authenticate_api_key (ve_auth env) (rh_origin h) (rh_api_key h) (v_auth_options c) (vw_auth w2) = (r, a)"
    "ar_client_id r = Some client" "ar_is_mobile_flow r = mobile" "w3 = w2\<lparr>vw_auth := a\<rparr>" by blast
  from v_replay_ok[OF s(5)] obtain i where i: "w5 = w4\<lparr>vw_idem := i\<rparr>" by blast
  from v_quota_ok[OF s(6)] obtain q where q: "enforce_account_quota (ve_tiers env) (ve_quota_var env) (ve_rate_bound env) client
      ''verify'' (vt_quota t) (vw_rate w5) = (Inr (), q)" "w' = w5\<lparr>vw_rate := q\<rparr>" by blast
  have "r = \<lparr>ar_client_id = Some client, ar_is_mobile_flow = mobile\<rparr>" using a by (cases r) simp
  with v_headers_ok[OF s(1)] v_owner_ok[OF s(4)] l a i q show ?thesis
    by (auto simp: submission_allowed_def)
qed

lemma v_proof_ok:
  assumes "v_proof env t h body c w = (Inr c', w')"
  shows "\<exists>p r issuer started g. proof_allowed env t body p c \<and>
    fst (get_policy_detail (ae_parse (ve_auth env)) (vt_policy t) (cc_origin c) (vt_policy_read t) (aw_cache (vw_auth w))) = Inr (Found p) \<and>
    run_snark env body c = Inr r \<and>
    lookup_issuer (ve_registry env) (vw_context w) (vt_registry_read t) (vt_registry_others t) (vt_registry t)
      (compute_issuer_key_hash (ve_registry env) (pi_issuer_value (ap_public (sp_proof body)))) (vw_registry w) =
        ((Inr issuer, started), g) \<and>
    \<not> im_revoked issuer \<and> c' = issued_by issuer r (zeroize_secret c) \<and> vw_challenges w' = vw_challenges w"
proof -
  let ?z = "zeroize_secret c"
  have z: "cc_verifying_key_id ?z = cc_verifying_key_id c" "cc_rp_challenge ?z = cc_rp_challenge c"
    "cc_cutoff_days ?z = cc_cutoff_days c" "run_snark env body ?z = run_snark env body c"
    by (simp_all add: zeroize_secret_def run_snark_def)
  from assms obtain p r w1 w2 w3 w4 w5 w6 where s:
    "v_policy_phase env t h (sp_challenge_id body) (cc_origin c) w = (Inr p, w1)"
    "v_fresh_phase env t h (sp_challenge_id body) c w1 = (Inr (), w2)" "v_secret_phase env t h body p c w2 = (Inr (), w3)"
    "v_issuer_phase env t h body p ?z w3 = (Inr (), w4)" "v_inputs_phase env t h body ?z w4 = (Inr (), w5)"
    "v_snark_phase env t h body ?z w5 = (Inr r, w6)" "v_registry_phase env t h body ?z r w6 = (Inr c', w')"
    by (auto simp: v_proof_def Let_def andthen_Inr_iff)
  note pol = v_policy_ok[OF s(1)] and pass = v_fresh_ok[OF s(2)] v_secret_ok[OF s(3)] v_issuer_ok[OF s(4) refl]
    v_inputs_ok[OF s(5)] v_snark_ok[OF s(6)]
  have w6: "w6 = w1" using pass by simp
  have "proof_allowed env t body p c" using pass by (auto simp: proof_allowed_def z)
  moreover from v_registry_ok[OF s(7)] obtain issuer started g where
    "lookup_issuer (ve_registry env) (vw_context w1) (vt_registry_read t) (vt_registry_others t) (vt_registry t)
      (compute_issuer_key_hash (ve_registry env) (pi_issuer_value (ap_public (sp_proof body)))) (vw_registry w1) =
        ((Inr issuer, started), g)" "\<not> im_revoked issuer" "c' = issued_by issuer r ?z" "vw_challenges w' = vw_challenges w1"
    unfolding w6 by blast
  moreover have "run_snark env body c = Inr r" using pass z(4) by simp
  ultimately show ?thesis using pol by (intro exI[of _ p] exI[of _ r] exI[of _ issuer] exI[of _ started] exI[of _ g]) simp
qed

subsection \<open>The nonce\<close>

text \<open>Only the nonce phase touches the nonce store.\<close>

definition v_same_nonces :: "verify_world \<Rightarrow> verify_world \<Rightarrow> bool" where
  "v_same_nonces w w' \<longleftrightarrow> vw_nonces w' = vw_nonces w"

lemma v_same_nonces_rel: "reflp v_same_nonces" "transp v_same_nonces"
  by (auto simp: v_same_nonces_def reflp_def transp_def)

lemma v_same_nonces_parts:
  "keeps v_same_nonces (v_audit calls)" "keeps v_same_nonces (v_refuse calls e)" "keeps v_same_nonces (put_challenge env t cid c)"
  "keeps v_same_nonces (notify_hosted env t b)" "keeps v_same_nonces (v_lookup env t k)"
  by (auto simp: keeps_def v_same_nonces_def append_to_def v_refuse_def andthen_def stop_def put_challenge_def on_part_def
      notify_hosted_def v_lookup_def Let_def split: prod.splits)

lemma fail_with_same_nonces: "keeps v_same_nonces (fail_with env t h cid c code n out)"
proof -
  have "keeps v_same_nonces (if n then notify_hosted env t b else ret ())" for b
    by (simp add: v_same_nonces_parts(4) keeps_ret[OF v_same_nonces_rel(1)])
  then show ?thesis
    unfolding fail_with_def fail_challenge_and_persist_def Let_def
    by (intro keeps_andthen[OF v_same_nonces_rel(2)] keeps_stop[OF v_same_nonces_rel(1)] v_same_nonces_parts)
qed

lemmas v_same_nonces_intros = keeps_andthen[OF v_same_nonces_rel(2)] keeps_ret[OF v_same_nonces_rel(1)]
  keeps_stop[OF v_same_nonces_rel(1)] v_same_nonces_parts fail_with_same_nonces

lemma proof_same_nonces: "keeps v_same_nonces (v_proof env t h body c)"
proof -
  have 1: "keeps v_same_nonces (v_policy_phase env t h cid origin)" for cid origin
    by (auto simp: keeps_def v_same_nonces_def v_policy_phase_def run_steps Let_def
        split: prod.splits sum.splits policy_lookup_result.splits)
  have 2: "keeps v_same_nonces (v_fresh_phase env t h cid d)" "keeps v_same_nonces (v_secret_phase env t h body p d)"
    "keeps v_same_nonces (v_inputs_phase env t h body d)" "keeps v_same_nonces (v_snark_phase env t h body d)" for cid d p
    unfolding v_fresh_phase_def v_secret_phase_def v_inputs_phase_def v_snark_phase_def Let_def corrupt_def
    by (auto intro!: v_same_nonces_intros split: sum.split)
  have p: "keeps v_same_nonces (on_part vw_registry vw_registry_update (\<lambda>g. (peek_issuer k g, g)))" for k
    by (auto simp: keeps_def v_same_nonces_def on_part_def)
  have 3: "keeps v_same_nonces (v_issuer_phase env t h body q d)" for q d
    unfolding v_issuer_phase_def Let_def by (auto intro!: p v_same_nonces_intros)
  have 4: "keeps v_same_nonces (v_registry_phase env t h body d r)" for d r
    unfolding v_registry_phase_def Let_def by (auto intro!: v_same_nonces_intros split: sum.split api_error.split)
  show ?thesis
    unfolding v_proof_def Let_def by (intro v_same_nonces_intros 1 2 3 4)
qed

lemma answer_same_nonces: "keeps v_same_nonces (v_answer env t h cid key client c)"
proof -
  have 1: "keeps v_same_nonces (v_put_phase env t h cid c)"
    unfolding v_put_phase_def by (auto intro!: v_same_nonces_intros split: sum.split)
  have 2: "keeps v_same_nonces (v_cache_phase env t key client)"
    by (auto simp: keeps_def v_same_nonces_def v_cache_phase_def run_steps split: option.splits prod.splits if_splits)
  show ?thesis unfolding v_answer_def Let_def by (intro v_same_nonces_intros 1 2)
qed

subsection \<open>How the handler ends\<close>

text \<open>Neither a verdict on the proof nor the registry's 503 comes from a gate or the nonce.\<close>

definition registry_unavailable :: api_error where
  "registry_unavailable = ServiceUnavailable (Some ''Issuer registry temporarily unavailable'')"

definition v_early :: "verify_outcome \<Rightarrow> bool" where
  "v_early x \<longleftrightarrow> (\<forall>s r. x \<noteq> VerifyAnswer s r) \<and> x \<noteq> VerifyError registry_unavailable"

lemma v_early_phases:
  "ends_in v_early (v_headers_phase h)" "ends_in v_early (v_load_phase env t h cid n)"
  "ends_in v_early (v_auth_phase env h c)" "ends_in v_early (v_owner_phase h c client mobile)"
  "ends_in v_early (v_replay_phase env t key client)" "ends_in v_early (v_quota_phase env t client)"
  "ends_in v_early (v_nonce_phase env t h cid)"
  by (auto simp: ends_in_def v_early_def run_steps v_refuse_run v_headers_phase_def v_load_phase_def v_auth_phase_def
      v_owner_phase_def v_replay_phase_def v_quota_phase_def v_nonce_phase_def registry_unavailable_def verify_ownership_def Let_def
      split: prod.splits sum.splits option.splits if_splits bool.splits dest: fetch_metadata_error)

lemma v_gates_early: "ends_in v_early (v_gates env t h body)"
  unfolding v_gates_def Let_def
  by (auto intro!: ends_in_andthen ends_in_ret v_early_phases split: prod.split)

lemma v_past_nonce:
  assumes "submit_verification env t h body w = (x, w')" "\<not> v_early x"
  shows "\<exists>key client c w1 w2 y. v_gates env t h body w = (Inr (key, client, c), w1) \<and>
    check_and_set (ve_nonces env) (''verify:'' @ cse_uuid_text (ve_challenges env) (sp_challenge_id body)) (vt_nonce t)
      NONCE_DEDUP_TTL (vw_nonces w) = (Inr True, vw_nonces w') \<and>
    w2 = w1\<lparr>vw_nonces := vw_nonces w'\<rparr> \<and> (y = Inl x \<or> y = Inr x) \<and>
    andthen (v_proof env t h body c) (\<lambda>proven. v_answer env t h (sp_challenge_id body) key client proven) w2 = (y, w')"
proof -
  let ?rest = "\<lambda>key client c. andthen (v_proof env t h body c) (v_answer env t h (sp_challenge_id body) key client)"
  let ?k = "\<lambda>(key, client, c). andthen (v_nonce_phase env t h (sp_challenge_id body)) (\<lambda>_. ?rest key client c)"
  obtain y where run: "andthen (v_gates env t h body) ?k w = (y, w')" "y = Inl x \<or> y = Inr x"
    using assms(1) unfolding submit_verification_def by (auto simp: finish_iff)
  from andthen_past[OF run v_gates_early assms(2)] obtain key client c w1 where g:
    "v_gates env t h body w = (Inr (key, client, c), w1)"
    "andthen (v_nonce_phase env t h (sp_challenge_id body)) (\<lambda>_. ?rest key client c) w1 = (y, w')" by auto
  from andthen_past[OF g(2) run(2) v_early_phases(7) assms(2)] obtain w2 where n:
    "v_nonce_phase env t h (sp_challenge_id body) w1 = (Inr (), w2)" "?rest key client c w2 = (y, w')" by auto
  have "keeps v_same_nonces (?rest key client c)"
    by (intro keeps_andthen[OF v_same_nonces_rel(2)] proof_same_nonces answer_same_nonces)
  with n(2) have "vw_nonces w' = vw_nonces w2" by (auto simp: keeps_def v_same_nonces_def)
  with v_nonce_ok[OF n(1)] v_gates_ok[OF g(1)] g(1) n(2) run(2) show ?thesis
    by (intro exI[of _ key] exI[of _ client] exI[of _ c] exI[of _ w1] exI[of _ w2] exI[of _ y]) auto
qed

definition not_accepted :: "verify_outcome \<Rightarrow> bool" where
  "not_accepted x \<longleftrightarrow> (\<forall>r. x \<noteq> VerifyAnswer 200 r)"

lemma not_accepted_parts:
  "ends_in not_accepted (v_audit calls)" "ends_in not_accepted (v_refuse calls e)" "ends_in not_accepted (put_challenge env t cid c)"
  "ends_in not_accepted (notify_hosted env t b)" "ends_in not_accepted (v_lookup env t k)"
  "ends_in not_accepted (on_part vw_registry vw_registry_update f)" "ends_in not_accepted corrupt"
  "ends_in not_accepted (stop (VerifyError e))"
  by (auto simp: ends_in_def not_accepted_def append_to_def v_refuse_run put_challenge_def on_part_def
      notify_hosted_def v_lookup_def corrupt_def Let_def split: prod.splits)

lemma fail_with_not_accepted: "not_accepted out \<Longrightarrow> ends_in not_accepted (fail_with env t h cid c code n out)"
  unfolding ends_in_def using fail_with_ends by blast

lemma not_accepted_simps [simp]: "not_accepted (VerifyError e)" "not_accepted (VerifyAnswer 400 r)"
  by (simp_all add: not_accepted_def)

lemmas not_accepted_intros = ends_in_andthen ends_in_ret not_accepted_parts fail_with_not_accepted

lemma proof_not_accepted: "ends_in not_accepted (v_proof env t h body c)"
proof -
  have 1: "ends_in not_accepted (v_policy_phase env t h cid origin)" for cid origin
    by (auto simp: ends_in_def not_accepted_def v_policy_phase_def run_steps v_refuse_run Let_def
        split: prod.splits sum.splits policy_lookup_result.splits)
  have 2: "ends_in not_accepted (v_fresh_phase env t h cid d)" "ends_in not_accepted (v_secret_phase env t h body p d)"
    "ends_in not_accepted (v_inputs_phase env t h body d)" "ends_in not_accepted (v_snark_phase env t h body d)" for cid d p
    unfolding v_fresh_phase_def v_secret_phase_def v_inputs_phase_def v_snark_phase_def Let_def
    by (auto intro!: not_accepted_intros split: sum.split)
  have 3: "ends_in not_accepted (v_issuer_phase env t h body q d)" for q d
    unfolding v_issuer_phase_def Let_def by (auto intro!: not_accepted_intros)
  have 4: "ends_in not_accepted (v_registry_phase env t h body d r)" for d r
    unfolding v_registry_phase_def Let_def by (auto intro!: not_accepted_intros split: sum.split api_error.split)
  show ?thesis
    unfolding v_proof_def Let_def by (intro not_accepted_intros 1 2 3 4)
qed

lemma answer_accepts:
  assumes "v_answer env t h cid key client c w = (y, w')" "y = Inl (VerifyAnswer 200 r) \<or> y = Inr (VerifyAnswer 200 r)"
  shows "r = verify_ok \<and>
    store_put (ve_challenges env) (vt_put t) (vt_put_insert t) cid (proven_challenge (vt_now t) c) (vw_challenges w) =
      (Inr (), vw_challenges w')"
proof -
  have 1: "ends_in not_accepted (v_put_phase env t h cid c)"
    unfolding v_put_phase_def by (auto intro!: not_accepted_intros split: sum.split)
  have 2: "ends_in not_accepted (v_cache_phase env t key client)"
    by (auto simp: ends_in_def not_accepted_def v_cache_phase_def run_steps split: option.splits prod.splits if_splits)
  have "ends_in not_accepted (v_answer env t h cid key client c)"
    unfolding v_answer_def Let_def by (intro not_accepted_intros 1 2)
  then have "y = Inr (VerifyAnswer 200 r)" using assms by (auto simp: not_accepted_def dest: ends_inD)
  with assms(1) obtain w1 w2 w3 where s: "v_put_phase env t h cid c w = (Inr (), w1)"
    "v_audit [attempt (cse_uuid_text (ve_challenges env) cid) (client_ip_of h) True None] w1 = (Inr (), w2)"
    "notify_hosted env t (NotifyVerified (cse_uuid_text (ve_challenges env) cid)) w2 = (Inr (), w3)"
    "v_cache_phase env t key client w3 = (Inr (), w')" "r = verify_ok"
    by (auto simp: v_answer_def Let_def andthen_Inr_iff)
  have "vw_challenges w' = vw_challenges w1"
    using s(2-4) by (auto simp: append_to_def notify_hosted_def v_cache_phase_def run_steps
        split: option.splits prod.splits if_splits)
  with v_put_ok[OF s(1)] s(5) show ?thesis by simp
qed

text \<open>The policy of the challenge's origin, as the handler finds it after the authentication.\<close>

definition policy_found ::
    "verify_env \<Rightarrow> verify_clock \<Rightarrow> redeem_headers \<Rightarrow> cached_challenge \<Rightarrow> verify_world \<Rightarrow> origin_policy \<Rightarrow> bool" where
  "policy_found env t h c w p \<longleftrightarrow>
     fst (get_policy_detail (ae_parse (ve_auth env)) (vt_policy t) (cc_origin c) (vt_policy_read t)
       (aw_cache (snd (authenticate_api_key (ve_auth env) (rh_origin h) (rh_api_key h) (v_auth_options c) (vw_auth w))))) =
     Inr (Found p)"

lemma v_accepted:
  assumes "submit_verification env t h body w = (VerifyAnswer 200 r, w')"
  shows "r = verify_ok \<and> (\<exists>client c p s issuer started g cw.
    submission_allowed env t h body w client c \<and>
    store_get (ve_challenges env) (vt_get t) (sp_challenge_id body) (vw_challenges w) = (Inr (Some c), cw) \<and>
    check_and_set (ve_nonces env) (''verify:'' @ cse_uuid_text (ve_challenges env) (sp_challenge_id body)) (vt_nonce t)
      NONCE_DEDUP_TTL (vw_nonces w) = (Inr True, vw_nonces w') \<and>
    policy_found env t h c w p \<and> op_enabled p \<and> proof_allowed env t body p c \<and> run_snark env body c = Inr s \<and>
    lookup_issuer (ve_registry env) (vw_context w) (vt_registry_read t) (vt_registry_others t) (vt_registry t)
      (compute_issuer_key_hash (ve_registry env) (pi_issuer_value (ap_public (sp_proof body)))) (vw_registry w) =
        ((Inr issuer, started), g) \<and> \<not> im_revoked issuer \<and>
    store_put (ve_challenges env) (vt_put t) (vt_put_insert t) (sp_challenge_id body)
      (proven_challenge (vt_now t) (issued_by issuer s (zeroize_secret c))) cw = (Inr (), vw_challenges w'))"
proof -
  have "\<not> v_early (VerifyAnswer 200 r)" by (simp add: v_early_def)
  from v_past_nonce[OF assms this] obtain key client c w1 w2 y where n:
    "v_gates env t h body w = (Inr (key, client, c), w1)"
    "check_and_set (ve_nonces env) (''verify:'' @ cse_uuid_text (ve_challenges env) (sp_challenge_id body)) (vt_nonce t)
      NONCE_DEDUP_TTL (vw_nonces w) = (Inr True, vw_nonces w')" "w2 = w1\<lparr>vw_nonces := vw_nonces w'\<rparr>"
    "y = Inl (VerifyAnswer 200 r) \<or> y = Inr (VerifyAnswer 200 r)"
    "andthen (v_proof env t h body c) (\<lambda>proven. v_answer env t h (sp_challenge_id body) key client proven) w2 = (y, w')" by blast
  have "\<not> not_accepted (VerifyAnswer 200 r)" by (simp add: not_accepted_def)
  from andthen_past[OF n(5,4) proof_not_accepted this] obtain c' w3 where p:
    "v_proof env t h body c w2 = (Inr c', w3)" "v_answer env t h (sp_challenge_id body) key client c' w3 = (y, w')" by blast
  note g = v_gates_ok[OF n(1)]
  from v_proof_ok[OF p(1)] obtain q s issuer started rg where v: "proof_allowed env t body q c"
    "fst (get_policy_detail (ae_parse (ve_auth env)) (vt_policy t) (cc_origin c) (vt_policy_read t) (aw_cache (vw_auth w2))) = Inr (Found q)"
    "run_snark env body c = Inr s"
    "lookup_issuer (ve_registry env) (vw_context w2) (vt_registry_read t) (vt_registry_others t) (vt_registry t)
      (compute_issuer_key_hash (ve_registry env) (pi_issuer_value (ap_public (sp_proof body)))) (vw_registry w2) =
        ((Inr issuer, started), rg)"
    "\<not> im_revoked issuer" "c' = issued_by issuer s (zeroize_secret c)" "vw_challenges w3 = vw_challenges w2" by blast
  have "op_enabled q"
    using v(2) by (auto simp: get_policy_detail_def load_policy_detail_def split: option.splits sum.splits if_splits)
  then show ?thesis
    using g n(2) v answer_accepts[OF p(2) n(4)] unfolding n(3) policy_found_def
    by (intro conjI exI[of _ client] exI[of _ c] exI[of _ q] exI[of _ s] exI[of _ issuer] exI[of _ started] exI[of _ rg]
        exI[of _ "vw_challenges w1"]) simp_all
qed

subsection \<open>Properties\<close>

text \<open>C2 A proof is accepted only when every check has passed: the credential is not banned, the client
  is the owner of the stored challenge or the wallet of the mobile flow, the account's quota and a
  fresh nonce; an enabled policy of the challenge's origin that allows the verifying key and the
  issuer; a challenge that is pending and not expired, with the submit secret, the verifying key, the
  relying party's challenge and the cutoff it was created with; the SNARK verifier's acceptance of the
  proof for these inputs; and an issuer that the registry lists and has not revoked.  The record is
  then written as waiting for its redemption before the answer.\<close>

theorem proof_accepted_only_if:
  assumes "submit_verification env t h body w = (VerifyAnswer 200 r, w')"
  shows "r = verify_ok \<and> (\<exists>client c p s issuer started g cw.
    submission_allowed env t h body w client c \<and>
    store_get (ve_challenges env) (vt_get t) (sp_challenge_id body) (vw_challenges w) = (Inr (Some c), cw) \<and>
    check_and_set (ve_nonces env) (''verify:'' @ cse_uuid_text (ve_challenges env) (sp_challenge_id body)) (vt_nonce t)
      NONCE_DEDUP_TTL (vw_nonces w) = (Inr True, vw_nonces w') \<and>
    policy_found env t h c w p \<and> op_enabled p \<and> proof_allowed env t body p c \<and> run_snark env body c = Inr s \<and>
    lookup_issuer (ve_registry env) (vw_context w) (vt_registry_read t) (vt_registry_others t) (vt_registry t)
      (compute_issuer_key_hash (ve_registry env) (pi_issuer_value (ap_public (sp_proof body)))) (vw_registry w) =
        ((Inr issuer, started), g) \<and> \<not> im_revoked issuer \<and>
    store_put (ve_challenges env) (vt_put t) (vt_put_insert t) (sp_challenge_id body)
      (proven_challenge (vt_now t) (issued_by issuer s (zeroize_secret c))) cw = (Inr (), vw_challenges w'))"
  by (rule v_accepted[OF assms])

text \<open>
  What may happen to the nonce store between two submissions: claims and cleanup alarms, up to
  the time the first claim lives, and no failing read inside the objects.
\<close>

definition v_meanwhile :: "verify_clock \<Rightarrow> verify_env \<Rightarrow> verify_world \<Rightarrow> verify_clock \<Rightarrow> verify_world \<Rightarrow> bool" where
  "v_meanwhile t1 env w1 t2 w2 \<longleftrightarrow>
     (\<exists>es. claim_trace (check_and_set (ve_nonces env)) store_ok store_alarm (vw_nonces w1) es (vw_nonces w2) \<and>
        (\<forall>e\<in>set es. now_secs (fst e) \<le> sat_add (now_secs (vt_nonce t1)) NONCE_DEDUP_TTL)) \<and>
     store_ok (vw_nonces w2) \<and> now_secs (vt_nonce t2) \<le> sat_add (now_secs (vt_nonce t1)) NONCE_DEDUP_TTL"

lemma v_blocks:
  assumes "store_laws (ve_nonces env)" "submit_verification env t1 h1 b1 w = (x, w1)" "\<not> v_early x"
    and "v_meanwhile t1 env w1 t2 w2" "submit_verification env t2 h2 b2 w2 = (y, w3)" "sp_challenge_id b2 = sp_challenge_id b1"
  shows "v_early y"
proof (rule ccontr)
  assume ne: "\<not> v_early y"
  let ?tag = "''verify:'' @ cse_uuid_text (ve_challenges env) (sp_challenge_id b1)"
  from v_past_nonce[OF assms(2,3)] have "check_and_set (ve_nonces env) ?tag (vt_nonce t1) NONCE_DEDUP_TTL (vw_nonces w) =
      (Inr True, vw_nonces w1)" by blast
  moreover from v_past_nonce[OF assms(5) ne] have "check_and_set (ve_nonces env) ?tag (vt_nonce t2) NONCE_DEDUP_TTL
      (vw_nonces w2) = (Inr True, vw_nonces w3)" unfolding assms(6) by blast
  ultimately show False
    using assms(4) single_use.claimed_once[OF nonce_store_single_use[OF assms(1)]] unfolding v_meanwhile_def by blast
qed

text \<open>C13 A challenge gets one attempt: after a submission that ended in a verdict on the proof, or in
  the 503 of an unavailable issuer registry, no submission for the same challenge gets a verdict for
  the nonce's 300 seconds, the longest life of a challenge, whatever claims and cleanup alarms the nonce
  store sees meanwhile.  It holds as long as no storage read inside the nonce objects fails: an object whose
  read fails takes the nonce for a fresh one.  So the SNARK verifier is not an oracle that can be asked
  twice; but the retry that the 503 invites is refused as well.\<close>

theorem one_attempt_per_challenge:
  assumes "store_laws (ve_nonces env)" "submit_verification env t1 h1 b1 w = (x, w1)"
    and "(\<exists>s r. x = VerifyAnswer s r) \<or> x = VerifyError registry_unavailable"
    and "v_meanwhile t1 env w1 t2 w2" "submit_verification env t2 h2 b2 w2 = (y, w3)"
    and "sp_challenge_id b2 = sp_challenge_id b1"
  shows "y \<noteq> VerifyAnswer s' r'"
proof -
  have "\<not> v_early x" using assms(3) by (auto simp: v_early_def)
  from v_blocks[OF assms(1,2) this assms(4-6)] show ?thesis by (simp add: v_early_def)
qed

subsection \<open>A run\<close>

text \<open>A wallet without Origin header, an issuer that the registry lists, a verifier that accepts.\<close>

definition sample_verify_policy :: origin_policy where
  "sample_verify_policy = sample_policy\<lparr>op_allowed_vk_ids := [1], op_allowed_issuers := []\<rparr>"

definition sample_verify_env :: verify_env where
  "sample_verify_env = \<lparr>ve_auth = (sample_auth_env ''$argon2id$a'')\<lparr>ae_parse := (\<lambda>_. Inr sample_verify_policy)\<rparr>,
     ve_idem = re_idem sample_redeem_env, ve_idem_store = False, ve_challenges = ready_env,
     ve_tiers = re_tiers sample_redeem_env, ve_quota_var = None, ve_rate_bound = False, ve_nonces = sample_store_env,
     ve_registry = sample_registry_env, ve_encode = (\<lambda>_. ''n''),
     ve_snark = (\<lambda>p d cutoff rp vk n i. Inr \<lparr>sn_cutoff_days = cutoff, sn_issuer_vk_bytes = vk\<rparr>),
     ve_notify = hosted_env.extend sample_hosted_env \<lparr>nv_object_bound = False\<rparr>\<rparr>"

definition sample_verify_clock :: verify_clock where
  "sample_verify_clock = \<lparr>vt_ban = 1100000, vt_ban_read = (\<lambda>_. KvValue None), vt_get = (\<lambda>_. 1100000),
     vt_idem_check = 1100000, vt_quota = 1100, vt_nonce = 1100000, vt_policy = 1100, vt_policy_read = KvValue (Some ''{}''),
     vt_now = 1100, vt_registry = at_second 1100, vt_registry_read = sample_registry_read (KvValue (Some ''x'')),
     vt_registry_others = (\<lambda>g. g), vt_put = (\<lambda>_. 1100000), vt_put_insert = (\<lambda>_. 1100000),
     vt_notify = \<lparr>nc_now = 1100, nc_now_ms = 1100000, nc_iv = Inr (replicate 12 9)\<rparr>, vt_idem_store = 1100000\<rparr>"

definition sample_wallet_headers :: redeem_headers where
  "sample_wallet_headers = sample_headers\<lparr>rh_origin := None, rh_api_key := None\<rparr>"

definition sample_submission :: submit_proof_request where
  "sample_submission = \<lparr>sp_challenge_id = replicate 16 1, sp_submit_secret = replicate 32 3,
     sp_proof = \<lparr>ap_verifying_key_id = 1,
       ap_public = \<lparr>pi_cutoff_days = 13514, pi_rp_challenge = replicate 32 1, pi_issuer_value = replicate 32 7,
         pi_cred_nullifier = replicate 32 0\<rparr>,
       ap_proof = replicate 192 0\<rparr>\<rparr>"

definition sample_verify_world :: "challenge_world \<Rightarrow> verify_world" where
  "sample_verify_world cw = \<lparr>vw_bans = [], vw_auth = sample_auth_world, vw_idem = rd_idem (sample_redeem_world cw),
     vw_challenges = cw, vw_rate = rd_rate (sample_redeem_world cw), vw_nonces = sample_nonce_world [],
     vw_registry = registry_new, vw_notify = \<lparr>ny_kv = sample_hosted_kv (replicate 32 1) None,
       ny_objects = (\<lambda>_. \<lparr>no_open = [], no_sent = [], no_storage = \<lparr>kv = (\<lambda>_. None), alarm_at = None, faults = []\<rparr>\<rparr>), ny_net = []\<rparr>,
     vw_context = True, vw_background = [], vw_audit = []\<rparr>"

lemma sample_verify_simps [simp]:
  "ve_challenges sample_verify_env = ready_env" "ve_nonces sample_verify_env = sample_store_env"
  "ve_registry sample_verify_env = sample_registry_env" "sp_challenge_id sample_submission = replicate 16 1"
  "vt_nonce sample_verify_clock = 1100000" "vt_now sample_verify_clock = 1100"
  "vt_put sample_verify_clock = (\<lambda>_. 1100000)" "vt_put_insert sample_verify_clock = (\<lambda>_. 1100000)"
  by (simp_all add: sample_verify_env_def sample_submission_def sample_verify_clock_def)

lemma pending_valid:
  "cc_expires_at pending_challenge = 1300" "challenge_validate pending_challenge = Inr ()"
  "cc_client_id pending_challenge = Some ''rp_a''" "cc_submit_secret pending_challenge = replicate 32 3"
  "cc_verifying_key_id pending_challenge = 1" "cc_rp_challenge pending_challenge = replicate 32 1"
  "cc_cutoff_days pending_challenge = 13514" "cc_origin pending_challenge = ''https://rp.example''"
  "\<not> already_consumed pending_challenge"
  by (simp_all add: pending_challenge_def sample_challenge_def challenge_validate_iff already_consumed_def)

lemma sample_v_gates:
  assumes u: "undisturbed ready_env (replicate 16 1) pending_challenge cw"
  shows "\<exists>b. v_gates sample_verify_env sample_verify_clock sample_wallet_headers sample_submission (sample_verify_world cw) =
    (Inr (None, ''rp_a'', pending_challenge), (sample_verify_world cw)\<lparr>vw_bans := b\<rparr>)"
proof -
  let ?e = sample_verify_env and ?t = sample_verify_clock and ?h = sample_wallet_headers and ?w = "sample_verify_world cw"
  let ?n = "pi_cred_nullifier (ap_public (sp_proof sample_submission))"
  have h: "rh_fetch ?h = rh_fetch sample_headers" "rh_idempotency_key ?h = HeaderMissing" "rh_origin ?h = None"
    by (simp_all add: sample_wallet_headers_def sample_headers_def)
  have fm: "validate_fetch_metadata (rh_fetch ?h) = Inr ()"
    by (simp add: h) (simp add: sample_headers_def validate_fetch_metadata_def validate_sec_fetch_site_def
        validate_sec_fetch_mode_def validate_sec_fetch_dest_def then_check_def)
  have 1: "v_headers_phase ?h ?w = (Inr None, ?w)"
    using fm by (simp add: v_headers_phase_def extract_idempotency_key_def h)
  obtain b where ban: "is_banned (ve_encode ?e) (vt_ban ?t) ?n (vt_ban_read ?t) [] = (Inr False, b)"
    by (simp add: is_banned_def ban_hit_def kv_value_def sample_verify_clock_def)
  have get: "store_get ready_env (vt_get ?t) (replicate 16 1) cw = (Inr (Some pending_challenge), cw)"
    by (rule undisturbed_get[OF u]) (simp_all add: pending_valid ready_valid sample_verify_clock_def)
  let ?w1 = "?w\<lparr>vw_bans := b\<rparr>"
  have 2: "v_load_phase ?e ?t ?h (replicate 16 1) ?n ?w = (Inr pending_challenge, ?w1)"
    using ban get by (simp add: v_load_phase_def run_steps) (simp add: sample_verify_world_def)
  have 3: "v_auth_phase ?e ?h pending_challenge ?w1 = (Inr (''rp_a'', True), ?w1)"
    by (simp add: v_auth_phase_def run_steps authenticate_api_key_def extract_id_def resolve_origin_def h
        v_auth_options_def pending_valid Let_def)
  have 4: "v_owner_phase ?h pending_challenge ''rp_a'' True ?w1 = (Inr (), ?w1)" by (simp add: v_owner_phase_def)
  have 5: "v_replay_phase ?e ?t None ''rp_a'' ?w1 = (Inr (), ?w1)" by (simp add: v_replay_phase_def)
  have 6: "v_quota_phase ?e ?t ''rp_a'' ?w1 = (Inr (), ?w1)"
    by (simp add: v_quota_phase_def run_steps enforce_account_quota_def sample_verify_env_def)
  show ?thesis
    by (intro exI[of _ b]) (simp add: v_gates_def Let_def andthen_def 1 2 3 4 5 6)
qed

lemma sample_v_proof:
  assumes "vw_auth w = sample_auth_world" "vw_registry w = registry_new"
  shows "\<exists>w'. v_proof sample_verify_env sample_verify_clock sample_wallet_headers sample_submission pending_challenge w =
      (Inr (issued_by sample_meta \<lparr>sn_cutoff_days = 13514, sn_issuer_vk_bytes = replicate 32 7\<rparr>
        (zeroize_secret pending_challenge)), w') \<and> vw_nonces w' = vw_nonces w \<and> vw_challenges w' = vw_challenges w"
proof -
  let ?e = sample_verify_env and ?t = sample_verify_clock and ?h = sample_wallet_headers and ?b = sample_submission
  let ?c = pending_challenge and ?z = "zeroize_secret pending_challenge" and ?p = sample_verify_policy
  let ?s = "\<lparr>sn_cutoff_days = 13514, sn_issuer_vk_bytes = replicate 32 7\<rparr>"
  have z: "cc_verifying_key_id ?z = 1" "cc_rp_challenge ?z = replicate 32 1" "cc_cutoff_days ?z = 13514"
    "cc_origin ?z = ''https://rp.example''"
    by (simp_all add: zeroize_secret_def pending_valid)
  have b: "ap_verifying_key_id (sp_proof ?b) = 1" "sp_submit_secret ?b = replicate 32 3"
    "pi_issuer_value (ap_public (sp_proof ?b)) = replicate 32 7" "pi_rp_challenge (ap_public (sp_proof ?b)) = replicate 32 1"
    "pi_cutoff_days (ap_public (sp_proof ?b)) = 13514"
    by (simp_all add: sample_submission_def)
  have p: "op_allowed_vk_ids ?p = [1]" "op_allowed_issuers ?p = []" "op_enabled ?p"
    by (simp_all add: sample_verify_policy_def sample_policy_def)
  obtain a where "get_policy_detail (ae_parse (ve_auth ?e)) (vt_policy ?t) (cc_origin ?c) (vt_policy_read ?t) (aw_cache sample_auth_world) =
      (Inr (Found ?p), a)"
    using p(3) by (simp add: get_policy_detail_def load_policy_detail_def cache_hit_def kv_value_def sample_verify_env_def
        sample_verify_clock_def sample_auth_world_def)
  then obtain w1 where 1: "v_policy_phase ?e ?t ?h (replicate 16 1) (cc_origin ?c) w = (Inr ?p, w1)"
    "vw_registry w1 = registry_new" "vw_nonces w1 = vw_nonces w" "vw_challenges w1 = vw_challenges w"
    using assms by (simp add: v_policy_phase_def run_steps Let_def)
  have 2: "v_fresh_phase ?e ?t ?h (replicate 16 1) ?c w1 = (Inr (), w1)" by (simp add: v_fresh_phase_def pending_valid Let_def)
  have 3: "v_secret_phase ?e ?t ?h ?b ?p ?c w1 = (Inr (), w1)" by (simp add: v_secret_phase_def b p pending_valid Let_def)
  have hash: "compute_issuer_key_hash sample_registry_env (replicate 32 7) = sample_hash"
    by (simp add: compute_issuer_key_hash_def sample_hash_def issuer_key_hash_def)
  have 4: "v_issuer_phase ?e ?t ?h ?b ?p ?z w1 = (Inr (), w1)"
    using 1(2) by (simp add: v_issuer_phase_def run_steps p Let_def peek_issuer_def) (simp add: registry_new_def)
  have 5: "v_inputs_phase ?e ?t ?h ?b ?z w1 = (Inr (), w1)" by (simp add: v_inputs_phase_def b z Let_def)
  have 6: "v_snark_phase ?e ?t ?h ?b ?z w1 = (Inr ?s, w1)"
    by (simp add: v_snark_phase_def run_snark_def b z Let_def) (simp add: sample_verify_env_def)
  obtain r st g where l: "lookup_issuer sample_registry_env (vw_context w1) (vt_registry_read ?t) (vt_registry_others ?t) (vt_registry ?t)
      sample_hash registry_new = ((r, st), g)" by (metis prod.collapse)
  have t: "vt_registry ?t = at_second 1100" "vt_registry_others ?t = (\<lambda>g. g)"
    "vt_registry_read ?t = sample_registry_read (KvValue (Some ''x''))" by (simp_all add: sample_verify_clock_def)
  have "is_extremely_stale (gc_lookup (vt_registry ?t)) registry_new" "should_attempt (rg_breaker registry_new) (gc_try (vt_registry ?t))"
    by (simp_all add: t is_extremely_stale_def registry_new_def registry_consts sat_sub_def should_attempt_def breaker_new_def)
  from lookup_refreshed[OF this _ _ l, of "[sample_entry]"] have r: "r = Inr sample_meta" by (simp add: t)
  have "\<not> im_revoked sample_meta" by (simp add: sample_meta_def)
  then obtain w2 where 7: "v_registry_phase ?e ?t ?h ?b ?z ?s w1 = (Inr (issued_by sample_meta ?s ?z), w2)"
    "vw_nonces w2 = vw_nonces w1" "vw_challenges w2 = vw_challenges w1"
    using l 1(2) unfolding r by (simp add: v_registry_phase_def v_lookup_def b hash andthen_def append_to_def Let_def ret_def)
  show ?thesis
    using 1(3,4) 7(2,3) by (simp add: v_proof_def Let_def andthen_def 1(1) 2 3 4 5 6 7(1))
qed

lemma sample_verify_nonce:
  "\<exists>ns. check_and_set sample_store_env (''verify:'' @ sample_id) 1100000 300 (sample_nonce_world []) = (Inr True, ns) \<and> store_ok ns"
proof (rule sample_fresh_claim)
  show "validate_nonce_tag (ne_uni sample_store_env) (''verify:'' @ sample_id) = Inr ()"
    by (simp add: validate_nonce_tag_def MAX_NONCE_TAG_LENGTH_def nonce_tag_char_def is_alphanumeric_def
        is_ascii_alphanumeric_def is_ascii_digit_def Let_def sample_id_def)
  show "check_nonce_input (''verify:'' @ sample_id) 300 = Inr ()"
    by (simp add: check_nonce_input_def STORE_MAX_NONCE_TAG_LENGTH_def sample_id_def)
qed (simp add: next_delivery_def)

lemma sample_proven:
  "proven_challenge 1100 (issued_by sample_meta \<lparr>sn_cutoff_days = 13514, sn_issuer_vk_bytes = replicate 32 7\<rparr>
     (zeroize_secret pending_challenge)) = ready_challenge"
  "apply_update pending_challenge (update_of ready_challenge) = ready_challenge"
  by (simp_all add: proven_challenge_def issued_by_def zeroize_secret_def pending_challenge_def ready_challenge_def
      submitted_challenge_def sample_challenge_def sample_meta_def apply_update_def update_of_def)

lemma ready_cs_laws: "cs_laws ready_env (replicate 16 1) ready_challenge"
  by (simp add: cs_laws_def sample_id_valid) (simp add: ready_env_def)

text \<open>The submission is accepted, and the challenge's object then holds the record with the proof.\<close>

lemma sample_submitted:
  assumes u: "undisturbed ready_env (replicate 16 1) pending_challenge cw"
  shows "\<exists>w'. submit_verification sample_verify_env sample_verify_clock sample_wallet_headers sample_submission
      (sample_verify_world cw) = (VerifyAnswer 200 verify_ok, w') \<and> store_ok (vw_nonces w') \<and>
    undisturbed ready_env (replicate 16 1) ready_challenge (vw_challenges w')"
proof -
  let ?e = sample_verify_env and ?t = sample_verify_clock and ?h = sample_wallet_headers and ?b = sample_submission
  let ?proven = "issued_by sample_meta \<lparr>sn_cutoff_days = 13514, sn_issuer_vk_bytes = replicate 32 7\<rparr> (zeroize_secret pending_challenge)"
  from sample_v_gates[OF u] obtain b where g: "v_gates ?e ?t ?h ?b (sample_verify_world cw) =
      (Inr (None, ''rp_a'', pending_challenge), (sample_verify_world cw)\<lparr>vw_bans := b\<rparr>)" by blast
  from sample_verify_nonce obtain ns where ns: "check_and_set sample_store_env (''verify:'' @ sample_id) 1100000 300
      (sample_nonce_world []) = (Inr True, ns)" "store_ok ns" by blast
  let ?w2 = "(sample_verify_world cw)\<lparr>vw_bans := b, vw_nonces := ns\<rparr>"
  have n: "v_nonce_phase ?e ?t ?h (replicate 16 1) ((sample_verify_world cw)\<lparr>vw_bans := b\<rparr>) = (Inr (), ?w2)"
    using ns(1) by (simp add: v_nonce_phase_def run_steps NONCE_DEDUP_TTL_def Let_def) (simp add: sample_verify_world_def)
  have "vw_auth ?w2 = sample_auth_world" "vw_registry ?w2 = registry_new" by (simp_all add: sample_verify_world_def)
  from sample_v_proof[OF this] obtain w3 where p: "v_proof ?e ?t ?h ?b pending_challenge ?w2 = (Inr ?proven, w3)"
    "vw_nonces w3 = ns" "vw_challenges w3 = cw" by (auto simp: sample_verify_world_def)
  from undisturbed_put[OF u ready_cs_laws, of "\<lambda>_. 1100000" "\<lambda>_. 1100000"] obtain cw' where put:
    "store_put ready_env (\<lambda>_. 1100000) (\<lambda>_. 1100000) (replicate 16 1) ready_challenge cw = (Inr (), cw')"
    "undisturbed ready_env (replicate 16 1) ready_challenge cw'"
    by (auto simp: is_nil_def MAX_CHALLENGE_BODY_SIZE_def is_valid_transition_def ready_valid pending_valid sample_proven(2))
  have v: "v_put_phase ?e ?t ?h (replicate 16 1) ?proven w3 = (Inr (), w3\<lparr>vw_challenges := cw'\<rparr>)"
    using put(1) by (simp add: v_put_phase_def put_challenge_def run_steps sample_proven(1) p(3))
  have c: "v_cache_phase ?e ?t None ''rp_a'' w4 = (Inr (), w4)" for w4 by (simp add: v_cache_phase_def)
  obtain w5 where "v_answer ?e ?t ?h (replicate 16 1) None ''rp_a'' ?proven w3 = (Inr (VerifyAnswer 200 verify_ok), w5)"
    "vw_nonces w5 = ns" "vw_challenges w5 = cw'"
    using p(2) by (simp add: v_answer_def Let_def andthen_def v append_to_def notify_hosted_def c ret_def)
  then show ?thesis
    using ns(2) put(2) by (simp add: submit_verification_def finish_def andthen_def g n p(1))
qed

lemma pending_world:
  "undisturbed ready_env (replicate 16 1) pending_challenge
     ((ready_world [])\<lparr>cw_objects := (\<lambda>_. \<lparr>kv = [ch_key sample_id \<mapsto> SChallenge pending_challenge], alarm_at = None, faults = []\<rparr>)\<rparr>)"
  by (simp add: undisturbed_def ready_world_def sample_id_valid)

abbreviation sample_pending_world :: verify_world where
  "sample_pending_world \<equiv> sample_verify_world ((ready_world [])\<lparr>cw_objects :=
     (\<lambda>_. \<lparr>kv = [ch_key sample_id \<mapsto> SChallenge pending_challenge], alarm_at = None, faults = []\<rparr>)\<rparr>)"

lemma proof_accepted_only_if_witness:
  "\<exists>w' c s. submit_verification sample_verify_env sample_verify_clock sample_wallet_headers sample_submission sample_pending_world =
      (VerifyAnswer 200 verify_ok, w') \<and> run_snark sample_verify_env sample_submission c = Inr s"
proof -
  from sample_submitted[OF pending_world] obtain w' where w': "submit_verification sample_verify_env sample_verify_clock
      sample_wallet_headers sample_submission sample_pending_world = (VerifyAnswer 200 verify_ok, w')" by blast
  with proof_accepted_only_if[OF w'] show ?thesis by blast
qed

lemma one_attempt_per_challenge_witness:
  "\<exists>w1 y w3. submit_verification sample_verify_env sample_verify_clock sample_wallet_headers sample_submission sample_pending_world =
      (VerifyAnswer 200 verify_ok, w1) \<and>
    submit_verification sample_verify_env sample_verify_clock sample_wallet_headers sample_submission w1 = (y, w3) \<and>
    y \<noteq> VerifyAnswer 200 verify_ok"
proof -
  from sample_submitted[OF pending_world] obtain w1 where w1: "submit_verification sample_verify_env sample_verify_clock
      sample_wallet_headers sample_submission sample_pending_world = (VerifyAnswer 200 verify_ok, w1)" "store_ok (vw_nonces w1)" by blast
  obtain y w3 where y: "submit_verification sample_verify_env sample_verify_clock sample_wallet_headers sample_submission w1 = (y, w3)"
    by fastforce
  have "v_meanwhile sample_verify_clock sample_verify_env w1 sample_verify_clock w1"
    unfolding v_meanwhile_def using w1(2)
    by (intro conjI exI[of _ "[]"] claim_trace.finished) (auto simp: NONCE_DEDUP_TTL_def intro!: sat_add_ge)
  from one_attempt_per_challenge[OF _ w1(1) _ this y refl] w1(1) y sample_store_laws show ?thesis by simp
qed

end
