(* ===== verification/Proof_Chain.thy ===== *)
theory Proof_Chain imports Verify_Correct begin

text \<open>
  The two ends of a verification together: the submission of the proof (\<open>src/routes/verify.rs\<close>) and
  the redemption (\<open>src/routes/redeem.rs\<close>) meet only in the challenge's Durable Object.  Every history
  of submissions, redemptions, creations and reads of challenges, with any network and storage
  failures, lets a redemption through only after the verification of a proof for that challenge.
\<close>

subsection \<open>Evidence in a challenge's object\<close>

definition evident :: "challenge_store_env \<Rightarrow> uuid \<Rightarrow> challenge_world \<Rightarrow> bool" where
  "evident env cid w \<longleftrightarrow> (\<exists>s. state_at env cid w = Some s \<and> evidence_bearing s)"

lemma evident_get:
  "state_laws env sid \<Longrightarrow> store_get env clk sid w = (r, w') \<Longrightarrow> evident env cid w' \<Longrightarrow> evident env cid w"
  using store_get_state[of env sid clk w r w' cid] by (auto simp: evident_def)

lemma evident_put:
  "state_laws env sid \<Longrightarrow> store_put env clk clk' sid c w = (r, w') \<Longrightarrow> evident env cid w' \<Longrightarrow>
     evident env cid w \<or> sid = cid \<and> evidence_bearing (cc_state c)"
  using store_put_state[of env sid clk clk' c w r w' cid] by (auto simp: evident_def)

lemma evident_insert:
  "state_laws env sid \<Longrightarrow> store_insert env clk sid c w = (r, w') \<Longrightarrow> evident env cid w' \<Longrightarrow>
     evident env cid w \<or> sid = cid \<and> evidence_bearing (cc_state c)"
  using store_insert_state[of env sid clk c w r w' cid] by (auto simp: evident_def)

subsection \<open>Submissions\<close>

definition v_no_evidence :: "uuid \<Rightarrow> verify_env \<Rightarrow> verify_world \<Rightarrow> verify_world \<Rightarrow> bool" where
  "v_no_evidence cid env w w' \<longleftrightarrow>
     (evident (ve_challenges env) cid (vw_challenges w') \<longrightarrow> evident (ve_challenges env) cid (vw_challenges w))"

lemma v_no_evidence_rel: "reflp (v_no_evidence cid env)" "transp (v_no_evidence cid env)"
  by (auto simp: v_no_evidence_def reflp_def transp_def)

lemma v_no_evidence_parts:
  "keeps (v_no_evidence cid env) (v_audit calls)" "keeps (v_no_evidence cid env) (v_refuse calls e)"
  "keeps (v_no_evidence cid env) (notify_hosted env t b)" "keeps (v_no_evidence cid env) (v_lookup env t k)"
  "keeps (v_no_evidence cid env) (on_part vw_registry vw_registry_update f)" "keeps (v_no_evidence cid env) corrupt"
  "keeps (v_no_evidence cid env) (stop x)" "keeps (v_no_evidence cid env) (ret y)"
  by (auto simp: keeps_def v_no_evidence_def append_to_def v_refuse_def andthen_def on_part_def notify_hosted_def
      v_lookup_def corrupt_def Let_def split: prod.splits)

lemma v_put_no_evidence:
  "state_laws (ve_challenges env) sid \<Longrightarrow> \<not> evidence_bearing (cc_state c) \<Longrightarrow>
     keeps (v_no_evidence cid env) (put_challenge env t sid c)"
  by (auto simp: keeps_def v_no_evidence_def put_challenge_def on_part_def dest!: evident_put split: prod.splits)

lemma failed_bears_nothing:
  "\<not> evidence_bearing (cc_state (failed_challenge c))" "\<not> evidence_bearing (cc_state (expired_challenge c))"
  by (simp_all add: failed_challenge_def expired_challenge_def zeroize_secret_def evidence_bearing_def)

lemma fail_with_no_evidence:
  assumes "state_laws (ve_challenges env) sid"
  shows "keeps (v_no_evidence cid env) (fail_with env t h sid c code n out)"
proof -
  have "keeps (v_no_evidence cid env) (if n then notify_hosted env t b else ret ())" for b
    by (simp add: v_no_evidence_parts)
  then show ?thesis
    unfolding fail_with_def fail_challenge_and_persist_def Let_def
    by (intro keeps_andthen[OF v_no_evidence_rel(2)] v_no_evidence_parts v_put_no_evidence assms failed_bears_nothing)
qed

lemmas v_no_evidence_intros = keeps_andthen[OF v_no_evidence_rel(2)] v_no_evidence_parts fail_with_no_evidence
  v_put_no_evidence failed_bears_nothing

lemma v_gates_no_evidence:
  assumes "state_laws (ve_challenges env) (sp_challenge_id body)"
  shows "keeps (v_no_evidence cid env) (v_gates env t h body)"
proof -
  have l: "keeps (v_no_evidence cid env) (v_load_phase env t h (sp_challenge_id body) n)" for n
    using evident_get[OF assms]
    by (auto simp: keeps_def v_no_evidence_def v_load_phase_def run_steps v_refuse_run
        split: prod.splits sum.splits bool.splits option.splits)
  have p: "keeps (v_no_evidence cid env) (v_headers_phase h)" "keeps (v_no_evidence cid env) (v_auth_phase env h c)"
    "keeps (v_no_evidence cid env) (v_owner_phase h c client mobile)" "keeps (v_no_evidence cid env) (v_replay_phase env t key client)"
    "keeps (v_no_evidence cid env) (v_quota_phase env t client)" for c client mobile key
    by (auto simp: keeps_def v_no_evidence_def v_headers_phase_def v_auth_phase_def v_owner_phase_def v_replay_phase_def
        v_quota_phase_def run_steps v_refuse_run split: prod.splits sum.splits option.splits if_splits)
  show ?thesis
    unfolding v_gates_def Let_def by (auto intro!: v_no_evidence_intros l p split: prod.split)
qed

lemma v_proof_no_evidence:
  assumes "state_laws (ve_challenges env) (sp_challenge_id body)"
  shows "keeps (v_no_evidence cid env) (v_proof env t h body c)"
proof -
  have 1: "keeps (v_no_evidence cid env) (v_policy_phase env t h sid origin)" for sid origin
    by (auto simp: keeps_def v_no_evidence_def v_policy_phase_def run_steps v_refuse_run Let_def
        split: prod.splits sum.splits policy_lookup_result.splits)
  have 2: "keeps (v_no_evidence cid env) (v_fresh_phase env t h (sp_challenge_id body) d)"
    "keeps (v_no_evidence cid env) (v_secret_phase env t h body p d)"
    "keeps (v_no_evidence cid env) (v_inputs_phase env t h body d)" "keeps (v_no_evidence cid env) (v_snark_phase env t h body d)" for d p
    unfolding v_fresh_phase_def v_secret_phase_def v_inputs_phase_def v_snark_phase_def Let_def
    by (auto intro!: v_no_evidence_intros assms split: sum.split)
  have 3: "keeps (v_no_evidence cid env) (v_issuer_phase env t h body q d)" for q d
    unfolding v_issuer_phase_def Let_def by (auto intro!: v_no_evidence_intros assms)
  have 4: "keeps (v_no_evidence cid env) (v_registry_phase env t h body d r)" for d r
    unfolding v_registry_phase_def Let_def by (auto intro!: v_no_evidence_intros assms split: sum.split api_error.split)
  show ?thesis unfolding v_proof_def Let_def by (intro v_no_evidence_intros 1 2 3 4)
qed

text \<open>The checks and the verifier passed in this run of the handler, whatever it answered.\<close>

definition proof_verified ::
    "verify_env \<Rightarrow> verify_clock \<Rightarrow> redeem_headers \<Rightarrow> submit_proof_request \<Rightarrow> verify_world \<Rightarrow> bool" where
  "proof_verified env t h body w \<longleftrightarrow>
     (\<exists>key client c w1 w2 w3 proven. v_gates env t h body w = (Inr (key, client, c), w1) \<and>
        v_nonce_phase env t h (sp_challenge_id body) w1 = (Inr (), w2) \<and> v_proof env t h body c w2 = (Inr proven, w3))"

lemma answer_evidence:
  assumes "state_laws (ve_challenges env) sid" "v_answer env t h sid key client c w = (y, w')"
  shows "v_no_evidence cid env w w' \<or> sid = cid"
proof (cases "sid = cid")
  case False
  have "keeps (v_no_evidence cid env) (put_challenge env t sid d)" for d
    using False
    by (auto simp: keeps_def v_no_evidence_def put_challenge_def on_part_def dest: evident_put[OF assms(1)] split: prod.splits)
  then have 1: "keeps (v_no_evidence cid env) (v_put_phase env t h sid c)"
    unfolding v_put_phase_def by (auto intro!: keeps_andthen[OF v_no_evidence_rel(2)] v_no_evidence_parts split: sum.split)
  have 2: "keeps (v_no_evidence cid env) (v_cache_phase env t key client)"
    by (auto simp: keeps_def v_no_evidence_def v_cache_phase_def run_steps split: option.splits prod.splits if_splits)
  have "keeps (v_no_evidence cid env) (v_answer env t h sid key client c)"
    unfolding v_answer_def Let_def by (intro keeps_andthen[OF v_no_evidence_rel(2)] v_no_evidence_parts 1 2)
  with assms(2) show ?thesis by (auto simp: keeps_def)
qed simp

lemma submission_evidence:
  assumes "state_laws (ve_challenges env) (sp_challenge_id body)" "submit_verification env t h body w = (x, w')"
    and "evident (ve_challenges env) cid (vw_challenges w')"
  shows "evident (ve_challenges env) cid (vw_challenges w) \<or> sp_challenge_id body = cid \<and> proof_verified env t h body w"
proof -
  let ?R = "v_no_evidence cid env" and ?sid = "sp_challenge_id body"
  have R: "evident (ve_challenges env) cid (vw_challenges w)" if "?R w w1" "?R w1 w'" for w1
    using that assms(3) by (simp add: v_no_evidence_def)
  have refl: "?R w1 w1" for w1 by (simp add: v_no_evidence_def)
  have n: "keeps ?R (v_nonce_phase env t h sid)" for sid
    by (auto simp: keeps_def v_no_evidence_def v_nonce_phase_def run_steps v_refuse_run Let_def
        split: prod.splits sum.splits bool.splits)
  let ?k2 = "\<lambda>key client c. andthen (v_proof env t h body c) (v_answer env t h ?sid key client)"
  let ?k1 = "\<lambda>(key, client, c). andthen (v_nonce_phase env t h ?sid) (\<lambda>_. ?k2 key client c)"
  obtain y where run: "andthen (v_gates env t h body) ?k1 w = (y, w')"
    using assms(2) unfolding submit_verification_def by (auto simp: finish_iff)
  from andthen_kept[OF run v_gates_no_evidence[OF assms(1)], of cid] show ?thesis
  proof (elim disjE exE conjE)
    fix g w1 assume g: "v_gates env t h body w = (Inr g, w1)" "?R w w1" "?k1 g w1 = (y, w')"
    obtain key client c where gc: "g = (key, client, c)" by (cases g)
    from andthen_kept[OF _ n] g(3) have "?R w1 w' \<or> (\<exists>w2. v_nonce_phase env t h ?sid w1 = (Inr (), w2) \<and> ?R w1 w2 \<and>
        ?k2 key client c w2 = (y, w'))" by (fastforce simp: gc)
    then show ?thesis
    proof (elim disjE exE conjE)
      fix w2 assume w2: "v_nonce_phase env t h ?sid w1 = (Inr (), w2)" "?R w1 w2" "?k2 key client c w2 = (y, w')"
      from andthen_kept[OF w2(3) v_proof_no_evidence[OF assms(1)], of cid] show ?thesis
      proof (elim disjE exE conjE)
        fix c' w3 assume p: "v_proof env t h body c w2 = (Inr c', w3)" "?R w2 w3"
          "v_answer env t h ?sid key client c' w3 = (y, w')"
        have "proof_verified env t h body w"
          using g(1) w2(1) p(1) unfolding proof_verified_def gc by blast
        moreover have "?R w3 w' \<or> ?sid = cid" using answer_evidence[OF assms(1) p(3)] by blast
        ultimately show ?thesis
          using R g(2) w2(2) p(2) by (auto simp: v_no_evidence_def dest: assms(3)[THEN rev_mp])
      qed (use R g(2) w2(2) in \<open>auto simp: v_no_evidence_def\<close>)
    qed (use R g(2) in \<open>auto simp: v_no_evidence_def\<close>)
  qed (use R refl in blast)
qed

subsection \<open>Redemptions\<close>

definition r_no_evidence :: "uuid \<Rightarrow> redeem_env \<Rightarrow> redeem_world \<Rightarrow> redeem_world \<Rightarrow> bool" where
  "r_no_evidence cid env w w' \<longleftrightarrow>
     (evident (re_challenges env) cid (rd_challenges w') \<longrightarrow> evident (re_challenges env) cid (rd_challenges w))"

lemma r_no_evidence_rel: "reflp (r_no_evidence cid env)" "transp (r_no_evidence cid env)"
  by (auto simp: r_no_evidence_def reflp_def transp_def)

lemma r_no_evidence_phases:
  assumes "state_laws (re_challenges env) sid"
  shows "keeps (r_no_evidence cid env) (redeem_headers_phase h)" "keeps (r_no_evidence cid env) (prefetch_phase env t sid)"
    "keeps (r_no_evidence cid env) (redeem_auth_phase env h p)" "keeps (r_no_evidence cid env) (redeem_replay_phase env t key client)"
    "keeps (r_no_evidence cid env) (redeem_load_phase env t h sid p)" "keeps (r_no_evidence cid env) (redeem_owner_phase h c client)"
    "keeps (r_no_evidence cid env) (redeem_state_phase t h s c)" "keeps (r_no_evidence cid env) (redeem_pkce_phase env h s c v)"
    "keeps (r_no_evidence cid env) (redeem_quota_phase env t client)" "keeps (r_no_evidence cid env) (redeem_nonce_phase env t h s)"
  by (auto simp: keeps_def r_no_evidence_def step_inv redeem_headers_phase_def prefetch_phase_def redeem_auth_phase_def
      redeem_replay_phase_def redeem_load_phase_def redeem_owner_phase_def redeem_state_phase_def redeem_pkce_phase_def
      redeem_quota_phase_def redeem_nonce_phase_def dest: evident_get[OF assms]
      split: prod.splits sum.splits option.splits if_splits bool.splits)

lemma redeem_gates_no_evidence:
  assumes "state_laws (re_challenges env) sid"
  shows "keeps (r_no_evidence cid env) (redeem_gates env t h sid v)"
  unfolding redeem_gates_def Let_def
  by (intro keeps_andthen[OF r_no_evidence_rel(2)] keeps_ret[OF r_no_evidence_rel(1)] r_no_evidence_phases[OF assms])

lemma redeem_grant_elsewhere:
  assumes "state_laws (re_challenges env) sid" "sid \<noteq> cid"
  shows "keeps (r_no_evidence cid env) (redeem_grant env t h sid key client c)"
proof -
  have p: "keeps (r_no_evidence cid env) (redeem_put_phase env t h sid s c)" for s
    using assms(2) by (auto simp: keeps_def r_no_evidence_def redeem_put_phase_def step_inv
        dest: evident_put[OF assms(1)] split: prod.splits sum.splits)
  have k: "keeps (r_no_evidence cid env) (metered_phase env t h s c)" "keeps (r_no_evidence cid env) (unmetered_phase env t h s c)"
    "keeps (r_no_evidence cid env) (redeem_audit_phase t h s c)" "keeps (r_no_evidence cid env) (redeem_cache_phase env t key client)" for s
    using challenges_kept by (auto simp: keeps_def r_no_evidence_def)
  show ?thesis
    unfolding redeem_grant_def Let_def
    by (intro keeps_andthen[OF r_no_evidence_rel(2)] keeps_ret[OF r_no_evidence_rel(1)] p k)
qed

text \<open>A redemption that gets past the gates has read a record with evidence.\<close>

lemma redeem_gates_evident:
  assumes "state_laws (re_challenges env) sid" "redeem_gates env t h sid v w = (Inr (key, client, c), w')"
  shows "evident (re_challenges env) sid (rd_challenges w)"
proof -
  from gates_ok[OF assms(2)] obtain d where "redeem_allowed env t h v w client d"
    "was_read (re_challenges env) sid (rd_challenges w) d (rd_challenges w')" by blast
  with was_read_state[OF assms(1)] show ?thesis
    by (auto simp: evident_def redeem_allowed_def evidence_bearing_def)
qed

lemma redemption_evidence:
  assumes "state_laws (re_challenges env) sid" "redeem_challenge env t h sid v w = (x, w')"
    and "evident (re_challenges env) cid (rd_challenges w')"
  shows "evident (re_challenges env) cid (rd_challenges w)"
proof (cases "sid = cid \<and> (\<exists>key client c w1. redeem_gates env t h sid v w = (Inr (key, client, c), w1))")
  case True
  then show ?thesis using redeem_gates_evident[OF assms(1)] by blast
next
  case False
  let ?k = "\<lambda>(key, client, c). andthen (redeem_nonce_phase env t h (cse_uuid_text (re_challenges env) sid)) (\<lambda>_.
      redeem_grant env t h sid key client c)"
  obtain y where run: "andthen (redeem_gates env t h sid v) ?k w = (y, w')"
    using assms(2) unfolding redeem_challenge_def by (auto simp: finish_iff)
  from andthen_kept[OF run redeem_gates_no_evidence[OF assms(1)], of cid]
  have "r_no_evidence cid env w w'"
  proof (elim disjE exE conjE)
    fix g w1 assume g: "redeem_gates env t h sid v w = (Inr g, w1)" "r_no_evidence cid env w w1" "?k g w1 = (y, w')"
    obtain key client c where gc: "g = (key, client, c)" by (cases g)
    with False g(1) have "sid \<noteq> cid" by auto
    then have "keeps (r_no_evidence cid env) (?k g)"
      unfolding gc by (auto intro!: keeps_andthen[OF r_no_evidence_rel(2)] r_no_evidence_phases(10)[OF assms(1)]
          redeem_grant_elsewhere[OF assms(1)])
    with g(2,3) show ?thesis by (auto simp: keeps_def r_no_evidence_def)
  qed
  with assms(3) show ?thesis by (simp add: r_no_evidence_def)
qed

subsection \<open>Histories\<close>

text \<open>
  What the handlers have done to the challenges, starting when the challenge \<open>cid\<close> is not stored.
  A handler's other state (caches, quotas, nonces, clocks, credentials) is arbitrary in each run, so
  a history covers any number of isolates; the submissions are collected, latest first.
\<close>

type_synonym submission = "verify_env \<times> verify_clock \<times> redeem_headers \<times> submit_proof_request \<times> verify_world"

inductive history :: "challenge_store_env \<Rightarrow> uuid \<Rightarrow> submission list \<Rightarrow> challenge_world \<Rightarrow> bool" for env cid where
  start: "state_at env cid cw = None \<Longrightarrow> history env cid [] cw"
| create: "history env cid subs cw \<Longrightarrow> cc_state c = Pending \<Longrightarrow> store_insert env clk sid c cw = (r, cw') \<Longrightarrow>
     history env cid subs cw'"
| read: "history env cid subs cw \<Longrightarrow> store_get env clk sid cw = (r', cw') \<Longrightarrow> history env cid subs cw'"
| submit: "history env cid subs (vw_challenges w) \<Longrightarrow> ve_challenges venv = env \<Longrightarrow>
     submit_verification venv t h body w = (x, w') \<Longrightarrow>
     history env cid ((venv, t, h, body, w) # subs) (vw_challenges w')"
| redeem: "history env cid subs (rd_challenges rw) \<Longrightarrow> re_challenges renv = env \<Longrightarrow>
     redeem_challenge renv rt rh sid v rw = (rx, rw') \<Longrightarrow> history env cid subs (rd_challenges rw')"

lemma history_evidence:
  assumes "\<And>sid. state_laws env sid" "history env cid subs cw" "evident env cid cw"
  shows "\<exists>(venv, t, h, body, w)\<in>set subs. sp_challenge_id body = cid \<and> proof_verified venv t h body w"
  using assms(2,3)
proof (induction rule: history.induct)
  case (start cw)
  then show ?case by (simp add: evident_def)
next
  case (create subs cw c clk sid r cw')
  from evident_insert[OF assms(1) create.hyps(3) create.prems] create.hyps(2) have "evident env cid cw"
    by (auto simp: evidence_bearing_def)
  with create.IH show ?case by simp
next
  case (read subs cw clk sid r' cw')
  with evident_get[OF assms(1)] show ?case by blast
next
  case (submit subs w venv t h body x w')
  from submission_evidence[OF _ submit.hyps(3), of cid] submit.hyps(2) submit.prems assms(1)
  have "evident env cid (vw_challenges w) \<or> sp_challenge_id body = cid \<and> proof_verified venv t h body w" by auto
  with submit.IH show ?case by auto
next
  case (redeem subs rw renv rt rh sid v rx rw')
  from redemption_evidence[OF _ redeem.hyps(3), of cid] redeem.hyps(2) redeem.prems assms(1)
  have "evident env cid (rd_challenges rw)" by auto
  with redeem.IH show ?case by simp
qed

text \<open>
  What such a submission passed, over the state the handler started from: the challenge that its
  \<open>get\<close> returned, the policy that the lookup of this challenge's origin found, and the issuer that
  the registry held for the key in the proof.
\<close>

definition submission_passed ::
    "verify_env \<Rightarrow> verify_clock \<Rightarrow> redeem_headers \<Rightarrow> submit_proof_request \<Rightarrow> verify_world \<Rightarrow> bool" where
  "submission_passed env t h body w \<longleftrightarrow> (\<exists>client c cw p s issuer started g.
     submission_allowed env t h body w client c \<and>
     store_get (ve_challenges env) (vt_get t) (sp_challenge_id body) (vw_challenges w) = (Inr (Some c), cw) \<and>
     fst (check_and_set (ve_nonces env) (''verify:'' @ cse_uuid_text (ve_challenges env) (sp_challenge_id body)) (vt_nonce t)
       NONCE_DEDUP_TTL (vw_nonces w)) = Inr True \<and>
     policy_found env t h c w p \<and> op_enabled p \<and> proof_allowed env t body p c \<and> run_snark env body c = Inr s \<and>
     lookup_issuer (ve_registry env) (vw_context w) (vt_registry_read t) (vt_registry_others t) (vt_registry t)
       (compute_issuer_key_hash (ve_registry env) (pi_issuer_value (ap_public (sp_proof body)))) (vw_registry w) =
         ((Inr issuer, started), g) \<and> \<not> im_revoked issuer)"

lemma verified_proof:
  assumes "proof_verified env t h body w"
  shows "submission_passed env t h body w"
proof -
  from assms obtain key client c w1 w2 w3 c' where s: "v_gates env t h body w = (Inr (key, client, c), w1)"
    "v_nonce_phase env t h (sp_challenge_id body) w1 = (Inr (), w2)" "v_proof env t h body c w2 = (Inr c', w3)"
    by (auto simp: proof_verified_def)
  note g = v_gates_ok[OF s(1)]
  from v_nonce_ok[OF s(2)] obtain a where n: "check_and_set (ve_nonces env)
      (''verify:'' @ cse_uuid_text (ve_challenges env) (sp_challenge_id body)) (vt_nonce t) NONCE_DEDUP_TTL (vw_nonces w1) =
      (Inr True, a)" "w2 = w1\<lparr>vw_nonces := a\<rparr>" by blast
  from v_proof_ok[OF s(3)] obtain p r issuer started rg where v: "proof_allowed env t body p c"
    "fst (get_policy_detail (ae_parse (ve_auth env)) (vt_policy t) (cc_origin c) (vt_policy_read t) (aw_cache (vw_auth w2))) = Inr (Found p)"
    "run_snark env body c = Inr r" "lookup_issuer (ve_registry env) (vw_context w2) (vt_registry_read t) (vt_registry_others t)
      (vt_registry t) (compute_issuer_key_hash (ve_registry env) (pi_issuer_value (ap_public (sp_proof body)))) (vw_registry w2) =
        ((Inr issuer, started), rg)" "\<not> im_revoked issuer" by blast
  have "op_enabled p"
    using v(2) by (auto simp: get_policy_detail_def load_policy_detail_def split: option.splits sum.splits if_splits)
  then show ?thesis
    using g v n(1) unfolding submission_passed_def n(2) policy_found_def
    by (intro exI[of _ client] exI[of _ c] exI[of _ "vw_challenges w1"] exI[of _ p] exI[of _ r] exI[of _ issuer]
        exI[of _ started] exI[of _ rg]) simp
qed

text \<open>C1 No redemption without a proof: in every history of submissions, redemptions, creations and
  reads over the challenges' objects, with lost calls, retries and storage failures, and with arbitrary
  caches, nonces and clocks in each handler run, a challenge is redeemed only after a submission for it
  that passed every check over the state its handler started from.  The challenge is the record that
  its \<open>get\<close> returned for the submitted identifier; the policy is the one that the lookup of this
  record's origin found, it is enabled and allows the record's verifying key and the proof's issuer;
  the record is pending, not expired, and holds the submitted secret, verifying key, relying party's
  challenge and cutoff; the SNARK verifier accepted the proof for them; and the registry, as the
  handler found it, lists the issuer and has not revoked it.\<close>

theorem redeem_needs_verified_proof:
  assumes "\<And>sid. state_laws env sid" "history env cid subs (rd_challenges w)" "re_challenges renv = env"
    and "redeem_challenge renv t h cid v w = (RedeemOk r, w')"
  shows "\<exists>(venv, vt, vh, body, vw)\<in>set subs. sp_challenge_id body = cid \<and>
    (\<exists>client c cw p s issuer started g.
     submission_allowed venv vt vh body vw client c \<and>
     store_get (ve_challenges venv) (vt_get vt) cid (vw_challenges vw) = (Inr (Some c), cw) \<and>
     fst (check_and_set (ve_nonces venv) (''verify:'' @ cse_uuid_text (ve_challenges venv) cid) (vt_nonce vt)
       NONCE_DEDUP_TTL (vw_nonces vw)) = Inr True \<and>
     policy_found venv vt vh c vw p \<and> op_enabled p \<and> proof_allowed venv vt body p c \<and> run_snark venv body c = Inr s \<and>
     lookup_issuer (ve_registry venv) (vw_context vw) (vt_registry_read vt) (vt_registry_others vt) (vt_registry vt)
       (compute_issuer_key_hash (ve_registry venv) (pi_issuer_value (ap_public (sp_proof body)))) (vw_registry vw) =
         ((Inr issuer, started), g) \<and> \<not> im_revoked issuer)"
proof -
  from redeem_ok_grant[OF assms(4)] obtain key client c w1 where
    "redeem_gates renv t h cid v w = (Inr (key, client, zeroize_secret c), w1)" by blast
  then have "evident env cid (rd_challenges w)"
    using redeem_gates_evident[of renv cid] assms(1,3) by simp
  from history_evidence[OF assms(1,2) this] obtain venv vt vh body vw where s:
    "(venv, vt, vh, body, vw) \<in> set subs" "sp_challenge_id body = cid" "proof_verified venv vt vh body vw" by blast
  from verified_proof[OF s(3)] s(2) show ?thesis
    unfolding submission_passed_def by (intro bexI[OF _ s(1)]) (simp only: prod.case simp_thms)
qed

lemma ready_pending_parse:
  "cs_laws ready_env (replicate 16 1) pending_challenge"
  by (simp add: cs_laws_def sample_id_valid) (simp add: ready_env_def)

definition empty_challenges :: challenge_world where
  "empty_challenges = \<lparr>cw_objects = (\<lambda>_. \<lparr>kv = (\<lambda>_. None), alarm_at = None, faults = []\<rparr>), cw_net = [], cw_budget = [], cw_audit = []\<rparr>"

lemma sample_inserted:
  "\<exists>cw. store_insert ready_env (\<lambda>_. 1100000) (replicate 16 1) pending_challenge empty_challenges = (Inr (), cw) \<and>
     undisturbed ready_env (replicate 16 1) pending_challenge cw"
  by (rule undisturbed_insert)
    (simp_all add: ready_pending_parse is_nil_def MAX_CHALLENGE_BODY_SIZE_def, simp_all add: empty_challenges_def pending_challenge_def)

text \<open>Created, proven and redeemed.\<close>

lemma redeem_needs_verified_proof_witness:
  "\<exists>w r' w'. redeem_challenge sample_redeem_env (sample_clock 200) sample_headers (replicate 16 1) ''v'' w = (RedeemOk r', w') \<and>
     state_at ready_env (replicate 16 1) (rd_challenges w) = Some ProofOkWaitingForRedeem \<and>
     (\<exists>c s. run_snark sample_verify_env sample_submission c = Inr s)"
proof -
  let ?cid = "replicate 16 1 :: uuid"
  let ?e = "empty_challenges"
  obtain cw where c: "store_insert ready_env (\<lambda>_. 1100000) ?cid pending_challenge ?e = (Inr (), cw)"
    "undisturbed ready_env ?cid pending_challenge cw"
    using sample_inserted by blast
  from sample_submitted[OF c(2)] obtain vw' where s: "submit_verification sample_verify_env sample_verify_clock sample_wallet_headers
      sample_submission (sample_verify_world cw) = (VerifyAnswer 200 verify_ok, vw')"
    "undisturbed ready_env ?cid ready_challenge (vw_challenges vw')" by blast
  from sample_redeem_200[OF s(2)] obtain w' where r: "redeem_challenge sample_redeem_env (sample_clock 200) sample_headers ?cid ''v''
      (sample_redeem_world (vw_challenges vw')) = (RedeemOk redeem_ok, w')" by blast
  have w: "vw_challenges (sample_verify_world cw) = cw" "rd_challenges (sample_redeem_world cw'') = cw''" for cw''
    by (simp_all add: sample_verify_world_def sample_redeem_world_def)
  have "history ready_env ?cid [] ?e" by (rule history.start) (simp add: empty_challenges_def stored_state_def)
  from history.create[OF this _ c(1)] have "history ready_env ?cid [] (vw_challenges (sample_verify_world cw))" by (simp add: w)
  from history.submit[OF this _ s(1)] have h: "history ready_env ?cid
      [(sample_verify_env, sample_verify_clock, sample_wallet_headers, sample_submission, sample_verify_world cw)]
      (rd_challenges (sample_redeem_world (vw_challenges vw')))" by (simp add: w)
  from redeem_needs_verified_proof[OF ready_state_laws h _ r] r s(2) show ?thesis
    by (intro exI[of _ "sample_redeem_world (vw_challenges vw')"]) (auto simp: w undisturbed_def stored_state_def)
qed

end
