(* ===== verification/Create_Challenge.thy ===== *)
theory Create_Challenge imports Hmac_Auth Age_Cutoff Proof_Chain begin

text \<open>
  \<open>src/routes/challenge.rs\<close>: the creation of a challenge by a relying party, from the headers to the
  response, with the challenge record in its Durable Object and the short code in the configuration KV.
  The deserialised body, base64url, the derivation of \<open>rp_challenge\<close>, the random values, the parsers of
  stored JSON and the text of the response are arguments; analytics, timings, console lines and the log
  of secret versions are left out (the slot of the master key is part of the answer).
\<close>

subsection \<open>The request\<close>

datatype pkce_method = S256

record create_request =
  qc_code_challenge :: bytes
  qc_method :: pkce_method
  qc_verifying_key_id :: "u32 option"
  qc_expires_in :: u64
  qc_authorizer :: authorizer

record challenge_response =
  rc_challenge_id :: uuid
  rc_short_code :: string
  rc_short_code_formatted :: string
  rc_rp_challenge :: bytes
  rc_cutoff_days :: int
  rc_verifying_key_id :: u32
  rc_submit_secret :: bytes
  rc_expires_at :: u64
  rc_proof_direction :: string
  rc_status_url :: string
  rc_verify_url :: string

text \<open>The ORIGIN_INDEX entry of an origin, as the two places parse it.\<close>

record origin_index_credit =
  ox_metering_enabled :: "bool option"
  ox_has_credits :: "bool option"

record create_env =
  nv_environment :: string
  nv_api_base_url :: string
  nv_parse :: "string \<Rightarrow> string + origin_policy"
  nv_config_bound :: bool
  nv_hmac :: hmac_env
  nv_nonces :: nonce_store_env
  nv_mek :: "bytes option"
  nv_previous_mek :: "bytes option"
  nv_dummy_hash :: string
  nv_idem :: idem_env
  nv_idem_store :: bool
  nv_tiers :: tier_env
  nv_quota_var :: "string option"
  nv_rate_bound :: bool
  nv_challenges :: challenge_store_env
  nv_encode :: "bytes \<Rightarrow> string"
  nv_credit_entry :: "string \<Rightarrow> origin_index_credit option"
  nv_organization :: "string \<Rightarrow> string option option"
  nv_rp_challenge :: "string \<Rightarrow> bytes \<Rightarrow> bytes"
  nv_json :: "challenge_response \<Rightarrow> string"

text \<open>How the write of the short code ends; a write that times out may have been made or not.\<close>

datatype code_write = CodeInvalid | CodeWritten | CodeFailed | CodeTimeout bool

text \<open>What is read from the clocks, the random generator and KV.\<close>

record create_clock =
  nt_policy :: "u64 \<times> kv_read"
  nt_lookup :: "string \<Rightarrow> kv_read"
  nt_registered :: "u64 \<times> kv_read"
  nt_hmac :: hmac_clock
  nt_idem_check :: u64
  nt_quota :: u64
  nt_origin_index :: "(string \<Rightarrow> kv_read) option"
  nt_today :: u64
  nt_date :: js_date
  nt_uuid :: uuid
  nt_nonce :: "bytes option"
  nt_secret :: "bytes api_result"
  nt_now :: u64
  nt_put :: "nat \<Rightarrow> u64"
  nt_put_insert :: "nat \<Rightarrow> u64"
  nt_code_write :: code_write
  nt_idem_store :: u64

datatype create_audit =
    LogMaliciousOrigin string string
  | LogForbiddenOrigin string string string
  | LogSandboxBypass string string string string
  | LogUnknownOrigin string string
  | LogDisabledOrigin string string
  | LogVkNotAllowed u32 string string string
  | LogCutoff string u32 int string
  | LogCreated string string string "string option"
  | LogSuspicious string string

record create_world =
  xw_policies :: policy_cache
  xw_hmac :: hmac_world
  xw_idem :: idem_world
  xw_rate :: rate_world
  xw_challenges :: challenge_world
  xw_codes :: "string \<rightharpoonup> string"
  xw_audit :: "create_audit list"

datatype create_outcome =
    Created challenge_response "rotation_slot option"
  | CreateError api_error
  | CreatePropagated api_error
  | CreateRuntime string
  | CreateLimited rate_rejection
  | CreateReplayed replayed_response

type_synonym 'a create_step = "(create_world, create_outcome, 'a) step"

abbreviation c_audit :: "create_audit list \<Rightarrow> unit create_step" where
  "c_audit \<equiv> append_to xw_audit_update"

definition c_refuse :: "create_audit list \<Rightarrow> api_error \<Rightarrow> 'a create_step" where
  "c_refuse calls e = andthen (c_audit calls) (\<lambda>_. stop (CreateError e))"

definition service_unavailable_error :: api_error where
  "service_unavailable_error = Internal ''Service unavailable''"

subsection \<open>Pure helpers\<close>

definition trim_end_slashes :: "string \<Rightarrow> string" where
  "trim_end_slashes s = rev (dropWhile (\<lambda>c. c = CHR ''/'') (rev s))"

definition build_v1_base :: "string \<Rightarrow> string" where
  "build_v1_base api_base_url =
     (let trimmed = trim_end_slashes api_base_url
      in if ends_with trimmed ''/v1'' then trimmed else trimmed @ ''/v1'')"

definition should_skip_origin_check_for_rp_sandbox :: "string \<Rightarrow> string \<Rightarrow> bool" where
  "should_skip_origin_check_for_rp_sandbox environment key_id \<longleftrightarrow>
     environment = ''sandbox'' \<and> starts_with key_id ''rp_sandbox_''"

definition apply_sandbox_bypass_overrides :: "origin_policy \<Rightarrow> origin_policy" where
  "apply_sandbox_bypass_overrides p = p\<lparr>op_tenant_id := ''sandbox_default'', op_min_age_years := 18,
     op_billing := \<lparr>bi_plan = ''sandbox'', bi_metering_enabled = False\<rparr>\<rparr>"

text \<open>The JSON text of the payload; its members stand in the order in which the code lists
  them (\<open>serde_json\<close> keeps that order here, through the \<open>preserve_order\<close> feature that \<open>schemars\<close> turns on).\<close>

definition quoted :: "string \<Rightarrow> string" where "quoted s = CHR 0x22 # s @ [CHR 0x22]"

definition pkce_method_json :: "pkce_method \<Rightarrow> string" where "pkce_method_json m = quoted ''S256''"

definition vk_json :: "u32 option \<Rightarrow> string" where
  "vk_json v = (case v of None \<Rightarrow> ''null'' | Some n \<Rightarrow> show_nat (unat n))"

definition create_payload :: "create_env \<Rightarrow> create_request \<Rightarrow> string" where
  "create_payload env body = CHR 0x7B # quoted ''code_challenge'' @ '':'' @ quoted (nv_encode env (qc_code_challenge body)) @
     '','' @ quoted ''method'' @ '':'' @ pkce_method_json (qc_method body) @
     '','' @ quoted ''verifying_key_id'' @ '':'' @ vk_json (qc_verifying_key_id body) @
     '','' @ quoted ''expires_in'' @ '':'' @ show_nat (unat (qc_expires_in body)) @ [CHR 0x7D]"

definition create_canonical_message_for_challenge ::
    "create_env \<Rightarrow> string \<Rightarrow> string \<Rightarrow> u64 \<Rightarrow> create_request \<Rightarrow> string" where
  "create_canonical_message_for_challenge env meth endpoint timestamp body =
     show_nat (unat timestamp) @ '':'' @ meth @ '':'' @ endpoint @ '':'' @ create_payload env body @ '':'' @
     az_nonce (qc_authorizer body)"

subsection \<open>The checks of the headers\<close>

definition c_origin_phase :: "redeem_headers \<Rightarrow> string create_step" where
  "c_origin_phase h =
     (case validate_fetch_metadata (rh_fetch h) of
        Inl e \<Rightarrow> stop (CreateError e)
      | Inr _ \<Rightarrow>
          (case rh_origin h of
             Some origin \<Rightarrow>
               if origin \<noteq> [] then ret origin
               else stop (CreateError (bad_request ''ORIGIN_MISSING'' (Some ''Origin'')
                      ''Origin header is required (set it to the registered relying-party origin, e.g. https://example.com)''))
           | None \<Rightarrow> stop (CreateError (bad_request ''ORIGIN_MISSING'' (Some ''Origin'')
                      ''Origin header is required (set it to the registered relying-party origin, e.g. https://example.com)''))))"

definition forbidden_scheme :: "string \<Rightarrow> bool" where
  "forbidden_scheme origin \<longleftrightarrow> contains_str origin ''javascript:'' \<or> contains_str origin ''data:'' \<or>
     contains_str origin ''vbscript:'' \<or> contains_str origin ''blob:''"

definition c_headers_phase :: "redeem_headers \<Rightarrow> string \<Rightarrow> string option create_step" where
  "c_headers_phase h origin =
     (case extract_idempotency_key (rh_idempotency_key h) ''POST'' ''/v1/challenge'' of
        Inl e \<Rightarrow> stop (CreatePropagated e)
      | Inr key \<Rightarrow>
          if length origin > 2048 then
            stop (CreateError (bad_request ''ORIGIN_TOO_LONG'' (Some ''Origin'') ''Origin header exceeds 2048 bytes''))
          else if forbidden_scheme origin then
            c_refuse [LogMaliciousOrigin origin (client_ip_of h), LogForbiddenOrigin origin (client_ip_of h) ''/v1/challenge'']
              (bad_request ''ORIGIN_MALICIOUS'' (Some ''Origin'') ''Origin contains a forbidden URI scheme'')
          else ret key)"

subsection \<open>The policy\<close>

definition lookup_detail ::
    "create_env \<Rightarrow> u64 \<times> kv_read \<Rightarrow> string \<Rightarrow> policy_lookup_result api_result create_step" where
  "lookup_detail env t origin =
     on_part xw_policies xw_policies_update
       (case t of (now, r) \<Rightarrow> get_policy_detail (nv_parse env) now origin r)"

text \<open>The arms that both branches share: the result of the lookup for the request's own origin.\<close>

definition c_own_policy ::
    "redeem_headers \<Rightarrow> string \<Rightarrow> policy_lookup_result api_result \<Rightarrow> origin_policy create_step" where
  "c_own_policy h origin detail =
     (case detail of
        Inl e \<Rightarrow> stop (CreatePropagated e)
      | Inr (Found p) \<Rightarrow> ret p
      | Inr Disabled \<Rightarrow> c_refuse [LogDisabledOrigin origin (client_ip_of h)]
          (forbidden ''ORIGIN_DISABLED'' ''The policy registered for this Origin has been disabled'')
      | Inr Policy_NotFound \<Rightarrow> c_refuse [LogUnknownOrigin origin (client_ip_of h)]
          (forbidden ''ORIGIN_NOT_ALLOWED'' ''Origin is not registered with this verifier (register a sandbox origin via /v1/register-test-origin or contact your admin)''))"

definition c_bypass_policy ::
    "create_env \<Rightarrow> create_clock \<Rightarrow> redeem_headers \<Rightarrow> string \<Rightarrow> string \<Rightarrow> string \<Rightarrow> origin_policy create_step" where
  "c_bypass_policy env t h origin key_id reg_origin =
     andthen (lookup_detail env (nt_registered t) reg_origin) (\<lambda>detail.
     case detail of
       Inl e \<Rightarrow> stop (CreatePropagated e)
     | Inr (Found p) \<Rightarrow>
         andthen (c_audit [LogSandboxBypass key_id origin reg_origin (client_ip_of h)]) (\<lambda>_.
         ret (apply_sandbox_bypass_overrides p))
     | Inr _ \<Rightarrow> c_refuse [LogUnknownOrigin origin (client_ip_of h)]
         (forbidden ''ORIGIN_NOT_ALLOWED'' ''Sandbox bypass lookup resolved to a registered origin that is no longer enabled''))"

definition c_policy_phase ::
    "create_env \<Rightarrow> create_clock \<Rightarrow> redeem_headers \<Rightarrow> string \<Rightarrow> create_request \<Rightarrow> origin_policy create_step" where
  "c_policy_phase env t h origin body =
     (let key_id = az_key_id (qc_authorizer body) in
      andthen (lookup_detail env (nt_policy t) origin) (\<lambda>detail.
      andthen
        (if should_skip_origin_check_for_rp_sandbox (nv_environment env) key_id then
           (if \<not> nv_config_bound env then stop (CreatePropagated service_unavailable_error)
            else case nt_lookup t (''client_lookup/'' @ key_id) of
                   KvTimeout \<Rightarrow> stop (CreatePropagated service_unavailable_error)
                 | KvError _ \<Rightarrow> stop (CreatePropagated service_unavailable_error)
                 | KvValue None \<Rightarrow> c_own_policy h origin detail
                 | KvValue (Some reg_origin) \<Rightarrow>
                     if reg_origin \<noteq> [] then c_bypass_policy env t h origin key_id reg_origin
                     else c_own_policy h origin detail)
         else c_own_policy h origin detail) (\<lambda>policy.
      if nv_config_bound env then ret policy else stop (CreatePropagated service_unavailable_error))))"

subsection \<open>Authentication, replay and quota\<close>

definition create_authenticator :: "create_env \<Rightarrow> redeem_headers \<Rightarrow> origin_policy \<Rightarrow> authenticator" where
  "create_authenticator env h policy =
     \<lparr>au_policy = policy, au_audit_ip = Some (client_ip_of h), au_nonce_store = Some (nv_nonces env),
      au_mek = nv_mek env, au_previous_mek = nv_previous_mek env, au_prefix_index = None,
      au_dummy_hash = Some (nv_dummy_hash env)\<rparr>"

definition c_auth_phase ::
    "create_env \<Rightarrow> create_clock \<Rightarrow> redeem_headers \<Rightarrow> create_request \<Rightarrow> origin_policy \<Rightarrow> client_auth_config create_step" where
  "c_auth_phase env t h body policy =
     andthen (on_part xw_hmac xw_hmac_update (\<lambda>w.
       authenticate_tracked (nv_hmac env) (create_authenticator env h policy) (nt_hmac t) (rh_api_key h)
         (qc_authorizer body)
         (create_canonical_message_for_challenge env ''POST'' ''/v1/challenge'' (az_timestamp (qc_authorizer body)) body)
         (w\<lparr>hx_slot := None\<rparr>))) (\<lambda>r.
     case r of Inl e \<Rightarrow> stop (CreatePropagated e) | Inr client \<Rightarrow> ret client)"

definition c_replay_phase ::
    "create_env \<Rightarrow> create_clock \<Rightarrow> string option \<Rightarrow> string \<Rightarrow> unit create_step" where
  "c_replay_phase env t key client_id =
     (case key of
        Some k \<Rightarrow>
          (if nv_idem_store env then
             andthen (on_part xw_idem xw_idem_update (check_idempotency (nv_idem env) (nt_idem_check t) k ''challenge''
               (compute_request_fingerprint (nv_idem env) ''challenge'' client_id))) (\<lambda>r.
             case r of
               Inl e \<Rightarrow> stop (CreatePropagated e)
             | Inr (Some cached_response) \<Rightarrow> stop (CreateReplayed cached_response)
             | Inr None \<Rightarrow> ret ())
           else ret ())
      | None \<Rightarrow> ret ())"

definition c_quota_phase :: "create_env \<Rightarrow> create_clock \<Rightarrow> string \<Rightarrow> unit create_step" where
  "c_quota_phase env t client_id =
     andthen (on_part xw_rate xw_rate_update (enforce_account_quota (nv_tiers env) (nv_quota_var env) (nv_rate_bound env)
       client_id ''challenge'' (nt_quota t))) (\<lambda>r.
     case r of Inl resp \<Rightarrow> stop (CreateLimited resp) | Inr _ \<Rightarrow> ret ())"

subsection \<open>Credits, age and key\<close>

definition origin_index_json :: "(string \<Rightarrow> kv_read) option \<Rightarrow> string \<Rightarrow> string option" where
  "origin_index_json binding origin =
     (case binding of
        Some read \<Rightarrow> (case read origin of KvValue v \<Rightarrow> v | _ \<Rightarrow> None)
      | None \<Rightarrow> None)"

definition credit_exhausted :: "(string \<Rightarrow> origin_index_credit option) \<Rightarrow> string option \<Rightarrow> bool" where
  "credit_exhausted parse json =
     (case json of
        Some json_str \<Rightarrow>
          (case parse json_str of
             Some entry \<Rightarrow> ox_metering_enabled entry = Some True \<and> ox_has_credits entry \<noteq> Some True
           | None \<Rightarrow> False)
      | None \<Rightarrow> False)"

definition c_credit_phase ::
    "create_env \<Rightarrow> create_clock \<Rightarrow> redeem_headers \<Rightarrow> string \<Rightarrow> unit create_step" where
  "c_credit_phase env t h origin =
     (if credit_exhausted (nv_credit_entry env) (origin_index_json (nt_origin_index t) origin)
      then c_refuse [LogSuspicious (client_ip_of h) ''challenge:early_credit_check_failed''] (PaymentRequired None)
      else ret ())"

definition c_age_phase :: "origin_policy \<Rightarrow> u32 create_step" where
  "c_age_phase policy =
     (case age_threshold policy of Inl msg \<Rightarrow> stop (CreatePropagated (BadRequest (Some msg))) | Inr y \<Rightarrow> ret y)"

definition c_vk_phase ::
    "redeem_headers \<Rightarrow> string \<Rightarrow> create_request \<Rightarrow> origin_policy \<Rightarrow> u32 create_step" where
  "c_vk_phase h origin body policy =
     (case qc_verifying_key_id body of
        Some requested_vk \<Rightarrow>
          if requested_vk \<notin> set (op_allowed_vk_ids policy) then
            c_refuse [LogVkNotAllowed requested_vk origin '''' (client_ip_of h)]
              (BadRequest (Some ''Verifying key not allowed for this origin''))
          else ret requested_vk
      | None \<Rightarrow>
          (case op_allowed_vk_ids policy of
             [] \<Rightarrow> stop (CreatePropagated service_unavailable_error)
           | first_vk # _ \<Rightarrow>
               (case vk_id_new first_vk of
                  None \<Rightarrow> stop (CreatePropagated service_unavailable_error)
                | Some v \<Rightarrow> ret v)))"

definition c_cutoff_phase ::
    "create_clock \<Rightarrow> string \<Rightarrow> origin_policy \<Rightarrow> u32 \<Rightarrow> int create_step" where
  "c_cutoff_phase t origin policy age_years =
     (case compute_cutoff_days (epoch_days (nt_today t)) (calculate_exact_days_for_years (nt_date t) age_years) of
        Inl e \<Rightarrow> stop (CreatePropagated e)
      | Inr cutoff \<Rightarrow>
          andthen (c_audit [LogCutoff origin age_years cutoff (proof_direction_as_str (effective_proof_direction policy))]) (\<lambda>_.
          ret cutoff))"

subsection \<open>The challenge\<close>

definition c_random_phase :: "create_clock \<Rightarrow> (bytes \<times> bytes) create_step" where
  "c_random_phase t =
     (case nt_nonce t of
        None \<Rightarrow> stop (CreatePropagated service_unavailable_error)
      | Some nonce \<Rightarrow>
          (case nt_secret t of
             Inl e \<Rightarrow> stop (CreateRuntime (display e))
           | Inr secret \<Rightarrow> ret (nonce, secret)))"

definition MIN_CHALLENGE_TTL :: u64 where "MIN_CHALLENGE_TTL = 60"

definition MAX_CHALLENGE_TTL :: u64 where "MAX_CHALLENGE_TTL = 300"

definition clamp_ttl :: "u64 \<Rightarrow> u64" where
  "clamp_ttl v = (if v < MIN_CHALLENGE_TTL then MIN_CHALLENGE_TTL else if v > MAX_CHALLENGE_TTL then MAX_CHALLENGE_TTL else v)"

definition challenge_ttl :: "create_request \<Rightarrow> origin_policy \<Rightarrow> u64" where
  "challenge_ttl body policy = clamp_ttl (min (qc_expires_in body) (op_max_ttl_sec policy))"

definition billing_entity ::
    "(string \<Rightarrow> string option option) \<Rightarrow> string option \<Rightarrow> origin_policy \<Rightarrow> string option" where
  "billing_entity organization json policy =
     (case (case json of
              Some json_str \<Rightarrow> (case organization json_str of Some org \<Rightarrow> org | None \<Rightarrow> None)
            | None \<Rightarrow> None) of
        Some org_id \<Rightarrow> Some org_id
      | None \<Rightarrow> if op_tenant_id policy = [] then None else Some (op_tenant_id policy))"

text \<open>\<open>Display\<close> of \<open>B64Url32\<close>, which \<open>to_string\<close> uses.\<close>

definition b64url32_display :: "bytes \<Rightarrow> string" where "b64url32_display b = ''[REDACTED]''"

definition new_challenge ::
    "create_env \<Rightarrow> create_clock \<Rightarrow> create_request \<Rightarrow> string \<Rightarrow> origin_policy \<Rightarrow> client_auth_config \<Rightarrow> u32 \<Rightarrow> int \<Rightarrow>
     bytes \<Rightarrow> bytes \<Rightarrow> cached_challenge" where
  "new_challenge env t body origin policy client vk cutoff nonce secret =
     \<lparr>cc_id = nt_uuid t, cc_short_code = generate_short_code_from_uuid (nt_uuid t),
      cc_rp_challenge = nv_rp_challenge env origin nonce, cc_cutoff_days = cutoff, cc_verifying_key_id = vk,
      cc_code_challenge = b64url32_display (qc_code_challenge body), cc_code_challenge_bytes = qc_code_challenge body,
      cc_submit_secret = secret, cc_origin = origin,
      cc_expires_at = sat_add (nt_now t) (challenge_ttl body policy), cc_created_at = nt_now t,
      cc_state = Pending, cc_proof_submitted = False, cc_verified_at = None, cc_proof_verified_at = None,
      cc_issuer_kid = None, cc_issuer_vk_bytes = None, cc_client_id = Some (ca_client_id client),
      cc_tenant_id = billing_entity (nv_organization env) (origin_index_json (nt_origin_index t) origin) policy,
      cc_proof_direction = effective_proof_direction policy\<rparr>"

definition c_put_phase ::
    "create_env \<Rightarrow> create_clock \<Rightarrow> redeem_headers \<Rightarrow> cached_challenge \<Rightarrow> unit create_step" where
  "c_put_phase env t h cached =
     andthen (on_part xw_challenges xw_challenges_update
       (store_put (nv_challenges env) (nt_put t) (nt_put_insert t) (nt_uuid t) cached)) (\<lambda>r.
     case r of
       Inr _ \<Rightarrow> ret ()
     | Inl _ \<Rightarrow> c_refuse [LogSuspicious (client_ip_of h) ''downstream_failure:challenge_store_write''] service_unavailable_error)"

definition code_map_key :: "string \<Rightarrow> string" where "code_map_key code = ''code:'' @ code"

definition write_code :: "string \<Rightarrow> string \<Rightarrow> unit create_step" where
  "write_code code uuid w = (Inr (), w\<lparr>xw_codes := (xw_codes w)(code_map_key code \<mapsto> uuid)\<rparr>)"

definition c_code_phase ::
    "create_env \<Rightarrow> create_clock \<Rightarrow> redeem_headers \<Rightarrow> cached_challenge \<Rightarrow> unit create_step" where
  "c_code_phase env t h cached =
     (let write = write_code (cc_short_code cached) (cse_uuid_text (nv_challenges env) (cc_id cached)) in
      case nt_code_write t of
        CodeInvalid \<Rightarrow> stop (CreatePropagated service_unavailable_error)
      | CodeWritten \<Rightarrow> write
      | CodeFailed \<Rightarrow> c_refuse [LogSuspicious (client_ip_of h) ''downstream_failure:kv_write''] service_unavailable_error
      | CodeTimeout written \<Rightarrow>
          andthen (if written then write else ret ()) (\<lambda>_.
          c_refuse [LogSuspicious (client_ip_of h) ''downstream_failure:kv_write_timeout''] service_unavailable_error))"

definition formatted_code :: "string \<Rightarrow> string" where
  "formatted_code code = (case short_code_new code of Inr sc \<Rightarrow> display_formatted sc | Inl _ \<Rightarrow> code)"

definition status_url :: "create_env \<Rightarrow> uuid \<Rightarrow> string" where
  "status_url env u = build_v1_base (nv_api_base_url env) @ ''/challenge/'' @ cse_uuid_text (nv_challenges env) u"

definition verify_url :: "create_env \<Rightarrow> string" where
  "verify_url env = build_v1_base (nv_api_base_url env) @ ''/verify''"

definition create_response :: "create_env \<Rightarrow> cached_challenge \<Rightarrow> challenge_response" where
  "create_response env c =
     \<lparr>rc_challenge_id = cc_id c, rc_short_code = cc_short_code c, rc_short_code_formatted = formatted_code (cc_short_code c),
      rc_rp_challenge = cc_rp_challenge c, rc_cutoff_days = cc_cutoff_days c, rc_verifying_key_id = cc_verifying_key_id c,
      rc_submit_secret = cc_submit_secret c, rc_expires_at = cc_expires_at c,
      rc_proof_direction = proof_direction_as_str (cc_proof_direction c), rc_status_url = status_url env (cc_id c),
      rc_verify_url = verify_url env\<rparr>"

definition c_cache_phase ::
    "create_env \<Rightarrow> create_clock \<Rightarrow> string option \<Rightarrow> string \<Rightarrow> u64 \<Rightarrow> challenge_response \<Rightarrow> unit create_step" where
  "c_cache_phase env t key client_id ttl response =
     (case key of
        Some k \<Rightarrow>
          (if nv_idem_store env then
             andthen (on_part xw_idem xw_idem_update (store_idempotency_response (nv_idem env) (nt_idem_store t) k
               (nv_json env response) 201 ''challenge'' (Some ttl)
               (compute_request_fingerprint (nv_idem env) ''challenge'' client_id))) (\<lambda>_. ret ())
           else ret ())
      | None \<Rightarrow> ret ())"

subsection \<open>The handler\<close>

text \<open>The gates, up to the quota, and the rest.\<close>

definition c_gates ::
    "create_env \<Rightarrow> create_clock \<Rightarrow> redeem_headers \<Rightarrow> create_request \<Rightarrow>
     (string \<times> string option \<times> origin_policy \<times> client_auth_config) create_step" where
  "c_gates env t h body =
     andthen (c_origin_phase h) (\<lambda>origin.
     andthen (c_headers_phase h origin) (\<lambda>key.
     andthen (c_policy_phase env t h origin body) (\<lambda>policy.
     andthen (c_auth_phase env t h body policy) (\<lambda>client.
     andthen (c_replay_phase env t key (ca_client_id client)) (\<lambda>_.
     andthen (c_quota_phase env t (ca_client_id client)) (\<lambda>_.
     ret (origin, key, policy, client)))))))"

definition c_issue ::
    "create_env \<Rightarrow> create_clock \<Rightarrow> redeem_headers \<Rightarrow> create_request \<Rightarrow>
     string \<times> string option \<times> origin_policy \<times> client_auth_config \<Rightarrow> create_outcome create_step" where
  "c_issue env t h body = (\<lambda>(origin, key, policy, client).
     andthen (c_credit_phase env t h origin) (\<lambda>_.
     andthen (c_age_phase policy) (\<lambda>age_years.
     andthen (c_vk_phase h origin body policy) (\<lambda>vk.
     andthen (c_cutoff_phase t origin policy age_years) (\<lambda>cutoff.
     andthen (c_random_phase t) (\<lambda>(nonce, secret).
       let cached = new_challenge env t body origin policy client vk cutoff nonce secret;
           response = create_response env cached in
     andthen (c_put_phase env t h cached) (\<lambda>_.
     andthen (c_code_phase env t h cached) (\<lambda>_.
     andthen (c_audit [LogCreated (cse_uuid_text (nv_challenges env) (nt_uuid t)) (client_ip_of h) origin (Some (ca_client_id client))]) (\<lambda>_.
     andthen (c_cache_phase env t key (ca_client_id client) (challenge_ttl body policy) response) (\<lambda>_.
     (\<lambda>w. (Inr (Created response (hx_slot (xw_hmac w))), w))))))))))))"

definition create_challenge_route ::
    "create_env \<Rightarrow> create_clock \<Rightarrow> redeem_headers \<Rightarrow> create_request \<Rightarrow> create_world \<Rightarrow> create_outcome \<times> create_world" where
  "create_challenge_route env t h body = finish (andthen (c_gates env t h body) (c_issue env t h body))"

subsection \<open>What a created challenge passed\<close>

named_theorems create_inv \<open>what a phase of the creation does when it goes on\<close>

lemma c_refuse_run [create_inv]: "c_refuse calls e w = (Inr x, w') \<longleftrightarrow> False"
  by (simp add: c_refuse_def andthen_append_to)

lemma c_audit_run [create_inv]: "c_audit calls w = (r, w') \<longleftrightarrow> r = Inr () \<and> w' = w\<lparr>xw_audit := xw_audit w @ calls\<rparr>"
  by (auto simp: append_to_def)

lemma c_origin_ok [create_inv]:
  "c_origin_phase h w = (Inr origin, w') \<longleftrightarrow>
     validate_fetch_metadata (rh_fetch h) = Inr () \<and> rh_origin h = Some origin \<and> origin \<noteq> [] \<and> w' = w"
  by (auto simp: c_origin_phase_def split: sum.split option.split)

lemma c_headers_ok [create_inv]:
  "c_headers_phase h origin w = (Inr key, w') \<longleftrightarrow>
     extract_idempotency_key (rh_idempotency_key h) ''POST'' ''/v1/challenge'' = Inr key \<and> length origin \<le> 2048 \<and>
     \<not> forbidden_scheme origin \<and> w' = w"
  by (auto simp: c_headers_phase_def create_inv split: sum.split)

lemma found_enabled: "get_policy_detail parse now origin r c = (Inr (Found p), c') \<Longrightarrow> op_enabled p"
  by (auto simp: get_policy_detail_def load_policy_detail_def split: option.splits sum.splits if_splits)

lemma lookup_detail_ok: "lookup_detail env t origin w = (r, w') \<Longrightarrow> \<exists>d c. r = Inr d \<and>
   get_policy_detail (nv_parse env) (fst t) origin (snd t) (xw_policies w) = (d, c) \<and> w' = w\<lparr>xw_policies := c\<rparr>"
  by (cases t) (auto simp: lookup_detail_def on_part_def split: prod.splits)

text \<open>
  The policy a creation goes by, over the policy cache its handler started from: the enabled policy
  that the lookup of the request's origin found; or, for a sandbox key whose client is listed with a
  registered origin, the enabled policy that the lookup of that origin found on the cache the first
  lookup left, with the sandbox values over it.
\<close>

definition bypass_origin :: "create_env \<Rightarrow> create_clock \<Rightarrow> create_request \<Rightarrow> string option" where
  "bypass_origin env t body =
     (if should_skip_origin_check_for_rp_sandbox (nv_environment env) (az_key_id (qc_authorizer body)) then
        (case nt_lookup t (''client_lookup/'' @ az_key_id (qc_authorizer body)) of
           KvValue (Some reg_origin) \<Rightarrow> if reg_origin \<noteq> [] then Some reg_origin else None
         | _ \<Rightarrow> None)
      else None)"

definition policy_of ::
    "create_env \<Rightarrow> create_clock \<Rightarrow> string \<Rightarrow> create_request \<Rightarrow> policy_cache \<Rightarrow> origin_policy \<Rightarrow> bool" where
  "policy_of env t origin body cache policy \<longleftrightarrow>
     (let own = get_policy_detail (nv_parse env) (fst (nt_policy t)) origin (snd (nt_policy t)) cache in
      case bypass_origin env t body of
        None \<Rightarrow> op_enabled policy \<and> fst own = Inr (Found policy)
      | Some reg_origin \<Rightarrow>
          (\<exists>p. op_enabled p \<and> policy = apply_sandbox_bypass_overrides p \<and>
             fst (get_policy_detail (nv_parse env) (fst (nt_registered t)) reg_origin (snd (nt_registered t)) (snd own)) =
               Inr (Found p)))"

definition policies_only :: "create_world \<Rightarrow> create_world \<Rightarrow> bool" where
  "policies_only w w' \<longleftrightarrow> xw_hmac w' = xw_hmac w \<and> xw_idem w' = xw_idem w \<and> xw_rate w' = xw_rate w \<and>
     xw_challenges w' = xw_challenges w \<and> xw_codes w' = xw_codes w"

lemma c_own_policy_ok [create_inv]: "c_own_policy h origin d w = (Inr p, w') \<longleftrightarrow> d = Inr (Found p) \<and> w' = w"
  by (auto simp: c_own_policy_def create_inv split: sum.split policy_lookup_result.split)

lemma c_bypass_policy_ok:
  assumes "c_bypass_policy env t h origin key_id reg w = (Inr policy, w')"
  shows "(\<exists>p. op_enabled p \<and> policy = apply_sandbox_bypass_overrides p \<and>
    fst (get_policy_detail (nv_parse env) (fst (nt_registered t)) reg (snd (nt_registered t)) (xw_policies w)) = Inr (Found p)) \<and>
    policies_only w w'"
proof -
  obtain d w1 where l: "lookup_detail env (nt_registered t) reg w = (Inr d, w1)"
    using assms by (auto simp: c_bypass_policy_def andthen_Inr_iff)
  with assms obtain p where "d = Inr (Found p)" "policy = apply_sandbox_bypass_overrides p"
    "w' = w1\<lparr>xw_audit := xw_audit w1 @ [LogSandboxBypass key_id origin reg (client_ip_of h)]\<rparr>"
    by (auto simp: c_bypass_policy_def andthen_def create_inv append_to_def split: sum.splits policy_lookup_result.splits)
  with lookup_detail_ok[OF l] show ?thesis by (auto simp: policies_only_def dest: found_enabled)
qed

lemma c_policy_ok:
  assumes "c_policy_phase env t h origin body w = (Inr policy, w')"
  shows "policy_of env t origin body (xw_policies w) policy \<and> policies_only w w' \<and> nv_config_bound env"
proof -
  let ?k = "''client_lookup/'' @ az_key_id (qc_authorizer body)"
  obtain d w1 where l: "lookup_detail env (nt_policy t) origin w = (Inr d, w1)" and b: "nv_config_bound env"
    and p: "(if should_skip_origin_check_for_rp_sandbox (nv_environment env) (az_key_id (qc_authorizer body)) then
           (if \<not> nv_config_bound env then stop (CreatePropagated service_unavailable_error)
            else case nt_lookup t ?k of
                   KvTimeout \<Rightarrow> stop (CreatePropagated service_unavailable_error)
                 | KvError _ \<Rightarrow> stop (CreatePropagated service_unavailable_error)
                 | KvValue None \<Rightarrow> c_own_policy h origin d
                 | KvValue (Some reg_origin) \<Rightarrow>
                     if reg_origin \<noteq> [] then c_bypass_policy env t h origin (az_key_id (qc_authorizer body)) reg_origin
                     else c_own_policy h origin d)
         else c_own_policy h origin d) w1 = (Inr policy, w')"
    using assms unfolding c_policy_phase_def Let_def andthen_Inr_iff by (auto split: if_splits)
  from lookup_detail_ok[OF l] obtain c where c: "w1 = w\<lparr>xw_policies := c\<rparr>"
    "get_policy_detail (nv_parse env) (fst (nt_policy t)) origin (snd (nt_policy t)) (xw_policies w) = (d, c)" by auto
  consider (own) "bypass_origin env t body = None" "c_own_policy h origin d w1 = (Inr policy, w')"
    | (bypass) reg where "bypass_origin env t body = Some reg"
        "c_bypass_policy env t h origin (az_key_id (qc_authorizer body)) reg w1 = (Inr policy, w')"
    using p b by (auto simp: bypass_origin_def split: kv_read.splits option.splits if_splits)
  then show ?thesis
  proof cases
    case own
    then show ?thesis using b c by (auto simp: create_inv policy_of_def policies_only_def dest: found_enabled)
  next
    case bypass
    from c_bypass_policy_ok[OF bypass(2)] bypass(1) b c show ?thesis
      by (auto simp: policy_of_def policies_only_def)
  qed
qed

lemma c_auth_ok [create_inv]:
  "c_auth_phase env t h body policy w = (Inr c, w') \<longleftrightarrow>
    (\<exists>x. authenticate_tracked (nv_hmac env) (create_authenticator env h policy) (nt_hmac t) (rh_api_key h) (qc_authorizer body)
         (create_canonical_message_for_challenge env ''POST'' ''/v1/challenge'' (az_timestamp (qc_authorizer body)) body)
         (xw_hmac w\<lparr>hx_slot := None\<rparr>) = (Inr c, x) \<and> w' = w\<lparr>xw_hmac := x\<rparr>)"
  by (auto simp: c_auth_phase_def andthen_on_part split: prod.split sum.split)

lemma c_replay_ok: "c_replay_phase env t key cid w = (Inr u, w') \<Longrightarrow> \<exists>x. w' = w\<lparr>xw_idem := x\<rparr>"
  by (cases w) (auto simp: c_replay_phase_def andthen_on_part split: option.splits if_splits prod.splits sum.splits)

lemma c_quota_ok [create_inv]: "c_quota_phase env t cid w = (Inr u, w') \<longleftrightarrow>
    (\<exists>x. enforce_account_quota (nv_tiers env) (nv_quota_var env) (nv_rate_bound env) cid ''challenge'' (nt_quota t) (xw_rate w) =
       (Inr (), x) \<and> w' = w\<lparr>xw_rate := x\<rparr>)"
  by (auto simp: c_quota_phase_def andthen_on_part split: prod.split sum.split)

lemma c_credit_ok [create_inv]: "c_credit_phase env t h origin w = (Inr u, w') \<longleftrightarrow>
    \<not> credit_exhausted (nv_credit_entry env) (origin_index_json (nt_origin_index t) origin) \<and> w' = w"
  by (auto simp: c_credit_phase_def create_inv)

lemma c_age_ok [create_inv]: "c_age_phase policy w = (Inr y, w') \<longleftrightarrow> age_threshold policy = Inr y \<and> w' = w"
  by (auto simp: c_age_phase_def split: sum.split)

lemma c_vk_ok: "c_vk_phase h origin body policy w = (Inr v, w') \<Longrightarrow> v \<in> set (op_allowed_vk_ids policy) \<and> w' = w"
  by (auto simp: c_vk_phase_def create_inv vk_id_new_def split: option.splits list.splits if_splits)

lemma c_cutoff_ok [create_inv]: "c_cutoff_phase t origin policy y w = (Inr c, w') \<longleftrightarrow>
    compute_cutoff_days (epoch_days (nt_today t)) (calculate_exact_days_for_years (nt_date t) y) = Inr c \<and>
    w' = w\<lparr>xw_audit := xw_audit w @ [LogCutoff origin y c (proof_direction_as_str (effective_proof_direction policy))]\<rparr>"
  by (auto simp: c_cutoff_phase_def andthen_append_to split: sum.split)

lemma c_random_ok [create_inv]: "c_random_phase t w = (Inr r, w') \<longleftrightarrow>
    nt_nonce t = Some (fst r) \<and> nt_secret t = Inr (snd r) \<and> w' = w"
  by (cases r) (auto simp: c_random_phase_def split: option.split sum.split)

lemma c_put_ok [create_inv]: "c_put_phase env t h c w = (Inr u, w') \<longleftrightarrow>
    (\<exists>x. store_put (nv_challenges env) (nt_put t) (nt_put_insert t) (nt_uuid t) c (xw_challenges w) = (Inr (), x) \<and>
      w' = w\<lparr>xw_challenges := x\<rparr>)"
  by (auto simp: c_put_phase_def andthen_on_part create_inv split: prod.split sum.split)

lemma c_code_ok [create_inv]: "c_code_phase env t h c w = (Inr u, w') \<longleftrightarrow> nt_code_write t = CodeWritten \<and>
    w' = w\<lparr>xw_codes := (xw_codes w)(code_map_key (cc_short_code c) \<mapsto> cse_uuid_text (nv_challenges env) (cc_id c))\<rparr>"
  by (auto simp: c_code_phase_def create_inv write_code_def Let_def andthen_def ret_def split: code_write.split)

lemma c_cache_ok: "c_cache_phase env t key cid ttl r w = (Inr u, w') \<Longrightarrow> \<exists>x. w' = w\<lparr>xw_idem := x\<rparr>"
  by (cases w) (auto simp: c_cache_phase_def andthen_on_part split: option.splits if_splits prod.splits)

text \<open>Only the end of the handler answers that a challenge was created.\<close>

definition not_created :: "create_outcome \<Rightarrow> bool" where
  "not_created out \<longleftrightarrow> (\<forall>r s. out \<noteq> Created r s)"

lemma not_created_parts:
  "ends_in not_created (c_refuse calls e)" "ends_in not_created (c_audit calls)" "ends_in not_created (on_part g u f)"
  "ends_in not_created (lookup_detail env d origin)" "ends_in not_created (write_code code uuid)"
  "ends_in not_created (stop (CreateError e))" "ends_in not_created (stop (CreatePropagated e))"
  "ends_in not_created (stop (CreateRuntime m))" "ends_in not_created (stop (CreateLimited l))"
  "ends_in not_created (stop (CreateReplayed p))"
  by (auto simp: ends_in_def not_created_def c_refuse_def andthen_append_to append_to_def on_part_def lookup_detail_def
      write_code_def split: prod.splits)

lemmas not_created_intros = ends_in_andthen ends_in_ret not_created_parts

lemma gates_not_created: "ends_in not_created (c_gates env t h body)"
proof -
  have own: "ends_in not_created (c_own_policy h origin d)" for origin d
    unfolding c_own_policy_def by (auto intro!: not_created_intros split: sum.split policy_lookup_result.split)
  have byp: "ends_in not_created (c_bypass_policy env t h origin k reg)" for origin k reg
    unfolding c_bypass_policy_def by (auto intro!: not_created_intros split: sum.split policy_lookup_result.split)
  have "ends_in not_created (c_origin_phase h)" "ends_in not_created (c_headers_phase h origin)"
    "ends_in not_created (c_policy_phase env t h origin body)" "ends_in not_created (c_auth_phase env t h body p)"
    "ends_in not_created (c_replay_phase env t key cid)" "ends_in not_created (c_quota_phase env t cid)" for origin p key cid
    unfolding c_origin_phase_def c_headers_phase_def c_policy_phase_def c_auth_phase_def c_replay_phase_def c_quota_phase_def Let_def
    by (auto intro!: not_created_intros own byp split: sum.split option.split kv_read.split)
  then show ?thesis unfolding c_gates_def by (intro ends_in_andthen ends_in_ret)
qed

lemma issue_not_created: "ends_in not_created (c_issue env t h body x)"
proof -
  obtain origin key policy client where x: "x = (origin, key, policy, client)" by (cases x) auto
  have p: "ends_in not_created (c_credit_phase env t h origin)" "ends_in not_created (c_age_phase policy)"
    "ends_in not_created (c_vk_phase h origin body policy)" "ends_in not_created (c_cutoff_phase t origin policy y)"
    "ends_in not_created (c_random_phase t)" "ends_in not_created (c_put_phase env t h c)"
    "ends_in not_created (c_code_phase env t h c)" "ends_in not_created (c_cache_phase env t key cid ttl r)" for y c cid ttl r
    unfolding c_credit_phase_def c_age_phase_def c_vk_phase_def c_cutoff_phase_def c_random_phase_def c_put_phase_def
      c_code_phase_def c_cache_phase_def Let_def
    by (auto intro!: not_created_intros split: sum.split option.split list.split code_write.split)
  have e: "ends_in not_created (\<lambda>w. (Inr (f w), w))" for f :: "create_world \<Rightarrow> create_outcome"
    by (simp add: ends_in_def)
  show ?thesis unfolding c_issue_def x prod.case Let_def
    by (intro ends_in_andthen p not_created_parts e; (clarify, intro ends_in_andthen p not_created_parts e)?)
qed

lemma created_run:
  assumes "create_challenge_route env t h body w = (Created r s, w')"
  shows "\<exists>x w1. c_gates env t h body w = (Inr x, w1) \<and> c_issue env t h body x w1 = (Inr (Created r s), w')"
proof -
  have "andthen (c_gates env t h body) (c_issue env t h body) w = (Inr (Created r s), w')"
    using assms ends_inD[OF ends_in_andthen[OF gates_not_created[of env t h body], of "c_issue env t h body", OF issue_not_created]]
    unfolding create_challenge_route_def finish_iff not_created_def by blast
  then show ?thesis unfolding andthen_Inr_iff by blast
qed

lemma gates_passed:
  assumes "c_gates env t h body w = (Inr (origin, key, policy, client), w')"
  shows "validate_fetch_metadata (rh_fetch h) = Inr () \<and> rh_origin h = Some origin \<and> length origin \<le> 2048 \<and>
    \<not> forbidden_scheme origin \<and> policy_of env t origin body (xw_policies w) policy \<and>
    (\<exists>x. authenticate_tracked (nv_hmac env) (create_authenticator env h policy) (nt_hmac t) (rh_api_key h) (qc_authorizer body)
         (create_canonical_message_for_challenge env ''POST'' ''/v1/challenge'' (az_timestamp (qc_authorizer body)) body)
         (xw_hmac w\<lparr>hx_slot := None\<rparr>) = (Inr client, x) \<and> xw_hmac w' = x) \<and>
    fst (enforce_account_quota (nv_tiers env) (nv_quota_var env) (nv_rate_bound env) (ca_client_id client) ''challenge''
       (nt_quota t) (xw_rate w)) = Inr ()"
proof -
  obtain w1 w2 w3 where p: "c_policy_phase env t h origin body w = (Inr policy, w1)"
    "c_auth_phase env t h body policy w1 = (Inr client, w2)" "c_replay_phase env t key (ca_client_id client) w2 = (Inr (), w3)"
    "c_quota_phase env t (ca_client_id client) w3 = (Inr (), w')" and
    o: "validate_fetch_metadata (rh_fetch h) = Inr ()" "rh_origin h = Some origin" "length origin \<le> 2048" "\<not> forbidden_scheme origin"
    using assms by (auto simp: c_gates_def andthen_Inr_iff c_origin_ok c_headers_ok)
  have "xw_hmac w1 = xw_hmac w" "xw_rate w1 = xw_rate w" "policy_of env t origin body (xw_policies w) policy"
    using c_policy_ok[OF p(1)] by (auto simp: policies_only_def)
  with p(2-4) o c_replay_ok[OF p(3)] show ?thesis by (auto simp: c_auth_ok c_quota_ok)
qed

lemma issued:
  assumes "c_issue env t h body (origin, key, policy, client) w = (Inr out, w')"
  shows "\<exists>y vk cutoff nonce secret c. \<not> credit_exhausted (nv_credit_entry env) (origin_index_json (nt_origin_index t) origin) \<and> age_threshold policy = Inr y \<and>
    vk \<in> set (op_allowed_vk_ids policy) \<and>
    compute_cutoff_days (epoch_days (nt_today t)) (calculate_exact_days_for_years (nt_date t) y) = Inr cutoff \<and>
    nt_nonce t = Some nonce \<and> nt_secret t = Inr secret \<and>
    c = new_challenge env t body origin policy client vk cutoff nonce secret \<and>
    store_put (nv_challenges env) (nt_put t) (nt_put_insert t) (nt_uuid t) c (xw_challenges w) = (Inr (), xw_challenges w') \<and>
    xw_codes w' = (xw_codes w)(code_map_key (cc_short_code c) \<mapsto> cse_uuid_text (nv_challenges env) (nt_uuid t)) \<and>
    xw_hmac w' = xw_hmac w \<and> out = Created (create_response env c) (hx_slot (xw_hmac w'))"
proof -
  let ?new = "\<lambda>vk cutoff r. new_challenge env t body origin policy client vk cutoff (fst r) (snd r)"
  obtain u0 w0 y w1 vk w2 cutoff w3 r w4 u1 w5 u2 w6 u3 w7 u4 w8 where p:
    "c_credit_phase env t h origin w = (Inr u0, w0)" "c_age_phase policy w0 = (Inr y, w1)"
    "c_vk_phase h origin body policy w1 = (Inr vk, w2)" "c_cutoff_phase t origin policy y w2 = (Inr cutoff, w3)"
    "c_random_phase t w3 = (Inr r, w4)" "c_put_phase env t h (?new vk cutoff r) w4 = (Inr u1, w5)"
    "c_code_phase env t h (?new vk cutoff r) w5 = (Inr u2, w6)"
    "c_audit [LogCreated (cse_uuid_text (nv_challenges env) (nt_uuid t)) (client_ip_of h) origin (Some (ca_client_id client))] w6 = (Inr u3, w7)"
    "c_cache_phase env t key (ca_client_id client) (challenge_ttl body policy) (create_response env (?new vk cutoff r)) w7 = (Inr u4, w8)"
    "(Inr (Created (create_response env (?new vk cutoff r)) (hx_slot (xw_hmac w8))), w8) = (Inr out, w')"
    using assms unfolding c_issue_def prod.case Let_def andthen_Inr_iff split_beta fst_conv snd_conv by blast
  have a: "\<not> credit_exhausted (nv_credit_entry env) (origin_index_json (nt_origin_index t) origin)" "w0 = w" "age_threshold policy = Inr y" "w1 = w0"
    "vk \<in> set (op_allowed_vk_ids policy)" "w2 = w1" "nt_nonce t = Some (fst r)" "nt_secret t = Inr (snd r)" "w4 = w3"
    "compute_cutoff_days (epoch_days (nt_today t)) (calculate_exact_days_for_years (nt_date t) y) = Inr cutoff"
    using p(1-5) c_vk_ok[OF p(3)] by (simp_all add: c_credit_ok c_age_ok c_cutoff_ok c_random_ok)
  obtain x where x: "w3 = w\<lparr>xw_audit := x\<rparr>" using p(4) a(2,4,6) by (auto simp: c_cutoff_ok)
  obtain cs where cs: "store_put (nv_challenges env) (nt_put t) (nt_put_insert t) (nt_uuid t) (?new vk cutoff r) (xw_challenges w4) =
      (Inr (), cs)" "w5 = w4\<lparr>xw_challenges := cs\<rparr>" using p(6) by (auto simp: c_put_ok)
  have w6: "w6 = w5\<lparr>xw_codes := (xw_codes w5)(code_map_key (cc_short_code (?new vk cutoff r)) \<mapsto>
      cse_uuid_text (nv_challenges env) (cc_id (?new vk cutoff r)))\<rparr>" using p(7) by (simp add: c_code_ok)
  obtain z where "w7 = w6\<lparr>xw_audit := z\<rparr>" using p(8) unfolding c_audit_run by blast
  moreover obtain i where "w8 = w7\<lparr>xw_idem := i\<rparr>" using c_cache_ok[OF p(9)] by blast
  ultimately have "xw_challenges w8 = cs" "xw_codes w8 = xw_codes w6" "xw_hmac w8 = xw_hmac w"
    by (simp_all add: w6 cs(2) a(9) x)
  then show ?thesis
    using a cs w6 x p(10)
    by (intro exI[of _ y] exI[of _ vk] exI[of _ cutoff] exI[of _ "fst r"] exI[of _ "snd r"] exI[of _ "?new vk cutoff r"])
      (simp add: new_challenge_def)
qed

subsection \<open>The canonical message\<close>

lemma sep_unique: "c \<notin> set a \<Longrightarrow> c \<notin> set b \<Longrightarrow> a @ c # x = b @ c # y \<Longrightarrow> a = b \<and> x = y"
  by (induction a arbitrary: b) (case_tac b; auto)+

lemma show_nat_no_mark: "\<not> is_ascii_digit (of_char c) \<Longrightarrow> c \<notin> set (show_nat n)"
  using show_nat_digits[of n] by (auto simp: list_all_iff)

lemma vk_json_inj: "vk_json a = vk_json b \<Longrightarrow> a = b"
proof -
  have n: "show_nat m \<noteq> ''null''" for m
    using show_nat_no_mark[of "CHR ''n''" m] by (auto simp: is_ascii_digit_def)
  show "vk_json a = vk_json b \<Longrightarrow> a = b"
    using n n[THEN not_sym] by (auto simp: vk_json_def unsigned_word_eqI split: option.splits)
qed

lemma vk_json_no_comma: "CHR '','' \<notin> set (vk_json v)"
  using show_nat_no_mark[of "CHR '',''"] by (auto simp: vk_json_def is_ascii_digit_def split: option.splits)

text \<open>C18 The signature of a client binds everything it asks for: two requests whose canonical messages are
  equal have the same timestamp, code challenge, verifying key, lifetime and nonce, when base64url is
  injective and has no quotation mark in its alphabet.\<close>

theorem canonical_message_binds:
  assumes "inj (nv_encode env)" "\<And>b. CHR 0x22 \<notin> set (nv_encode env b)"
    and "create_canonical_message_for_challenge env ''POST'' ''/v1/challenge'' ts body =
      create_canonical_message_for_challenge env ''POST'' ''/v1/challenge'' ts' body'"
  shows "ts = ts' \<and> qc_code_challenge body = qc_code_challenge body' \<and>
    qc_verifying_key_id body = qc_verifying_key_id body' \<and> qc_expires_in body = qc_expires_in body' \<and>
    az_nonce (qc_authorizer body) = az_nonce (qc_authorizer body')"
proof -
  have "\<not> is_ascii_digit (of_char (CHR '':''))" "\<not> is_ascii_digit (of_char (CHR 0x7D))" by (simp_all add: is_ascii_digit_def)
  note d = show_nat_no_mark[OF this(1)] show_nat_no_mark[OF this(2)]
  let ?p = "\<lambda>b. create_payload env b @ '':'' @ az_nonce (qc_authorizer b)"
  from assms(3) have "show_nat (unat ts) @ CHR '':'' # (''POST'' @ '':'' @ ''/v1/challenge'' @ '':'' @ ?p body) =
      show_nat (unat ts') @ CHR '':'' # (''POST'' @ '':'' @ ''/v1/challenge'' @ '':'' @ ?p body')"
    by (simp add: create_canonical_message_for_challenge_def)
  from sep_unique[OF d(1) d(1) this] have t: "ts = ts'" and p: "?p body = ?p body'"
    by (auto intro: unsigned_word_eqI)
  let ?rest = "\<lambda>b. '','' @ quoted ''method'' @ '':'' @ pkce_method_json (qc_method b) @
     '','' @ quoted ''verifying_key_id'' @ '':'' @ vk_json (qc_verifying_key_id b) @
     '','' @ quoted ''expires_in'' @ '':'' @ show_nat (unat (qc_expires_in b)) @ [CHR 0x7D] @ '':'' @ az_nonce (qc_authorizer b)"
  from p have "nv_encode env (qc_code_challenge body) @ CHR 0x22 # ?rest body =
      nv_encode env (qc_code_challenge body') @ CHR 0x22 # ?rest body'"
    by (simp add: create_payload_def quoted_def)
  from sep_unique[OF assms(2) assms(2) this] have c: "qc_code_challenge body = qc_code_challenge body'"
    and r: "?rest body = ?rest body'" using assms(1) by (auto dest: injD)
  let ?fin = "\<lambda>b. quoted ''expires_in'' @ '':'' @ show_nat (unat (qc_expires_in b)) @ [CHR 0x7D] @ '':'' @ az_nonce (qc_authorizer b)"
  from r have "vk_json (qc_verifying_key_id body) @ CHR '','' # ?fin body = vk_json (qc_verifying_key_id body') @ CHR '','' # ?fin body'"
    by (simp add: pkce_method_json_def quoted_def)
  from sep_unique[OF vk_json_no_comma vk_json_no_comma this] have v: "qc_verifying_key_id body = qc_verifying_key_id body'"
    and e: "?fin body = ?fin body'" by (auto dest: vk_json_inj)
  from e have "show_nat (unat (qc_expires_in body)) @ CHR 0x7D # ('':'' @ az_nonce (qc_authorizer body)) =
      show_nat (unat (qc_expires_in body')) @ CHR 0x7D # ('':'' @ az_nonce (qc_authorizer body'))"
    by (simp add: quoted_def)
  from sep_unique[OF d(2) d(2) this] show ?thesis using t c v by (auto intro: unsigned_word_eqI)
qed

subsection \<open>Properties\<close>

lemma challenge_ttl_bounds: "60 \<le> challenge_ttl body policy" "challenge_ttl body policy \<le> 300"
  "60 \<le> op_max_ttl_sec policy \<Longrightarrow> challenge_ttl body policy \<le> op_max_ttl_sec policy"
  by (auto simp: challenge_ttl_def clamp_ttl_def MIN_CHALLENGE_TTL_def MAX_CHALLENGE_TTL_def min_def not_less)

text \<open>A policy whose maximum is below a minute does not bound the lifetime.\<close>

lemma ttl_beyond_policy: "op_max_ttl_sec policy < 60 \<Longrightarrow> challenge_ttl body policy = 60"
proof -
  assume "op_max_ttl_sec policy < 60"
  then have "min (qc_expires_in body) (op_max_ttl_sec policy) < 60" by (simp add: min_less_iff_disj)
  then show ?thesis by (simp add: challenge_ttl_def clamp_ttl_def MIN_CHALLENGE_TTL_def)
qed

text \<open>C3 A challenge is created only for a client that authenticated: the fetch metadata and the origin
  passed their checks; the policy is the enabled one that the lookup of this origin found in the handler's
  cache or in KV, or, for a sandbox key, the one of the origin that the client is registered with, with the
  sandbox values over it; the client is active in this policy, presented an API key that the cache or
  Argon2id accepts, a timestamp within 300 seconds, a nonce that the store took as fresh, and an HMAC over
  the canonical message of this very request under its secret; its quota has room and the origin's credits
  are not known to be exhausted; and the challenge asks for a key that this policy allows and for the age
  that it demands.\<close>

theorem challenge_created_only_if:
  assumes "create_challenge_route env t h body w = (Created r slot, w')"
  shows "\<exists>origin policy c key years. validate_fetch_metadata (rh_fetch h) = Inr () \<and> rh_origin h = Some origin \<and>
    length origin \<le> 2048 \<and> \<not> forbidden_scheme origin \<and> policy_of env t origin body (xw_policies w) policy \<and>
    find (\<lambda>c. ca_client_id c = az_key_id (qc_authorizer body) \<and> ca_active c) (op_clients policy) = Some c \<and>
    rh_api_key h = Some key \<and> key_verdict (nv_hmac env) (hx_cache (xw_hmac w)) (hk_cache (nt_hmac t)) c key \<and>
    timestamp_skew (hk_now (nt_hmac t)) (az_timestamp (qc_authorizer body)) \<le> 300 \<and>
    check_and_set (nv_nonces env) (auth_nonce_tag (az_key_id (qc_authorizer body)) (az_nonce (qc_authorizer body)))
      (hk_nonce (nt_hmac t)) NONCE_DEDUP_TTL (hx_nonces (xw_hmac w)) = (Inr True, hx_nonces (xw_hmac w')) \<and>
    hmac_matches (nv_hmac env) (create_authenticator env h policy) c
      (create_canonical_message_for_challenge env ''POST'' ''/v1/challenge'' (az_timestamp (qc_authorizer body)) body)
      (az_hmac (qc_authorizer body)) \<and>
    fst (enforce_account_quota (nv_tiers env) (nv_quota_var env) (nv_rate_bound env) (ca_client_id c) ''challenge''
      (nt_quota t) (xw_rate w)) = Inr () \<and>
    \<not> credit_exhausted (nv_credit_entry env) (origin_index_json (nt_origin_index t) origin) \<and> rc_verifying_key_id r \<in> set (op_allowed_vk_ids policy) \<and>
    age_threshold policy = Inr years \<and>
    compute_cutoff_days (epoch_days (nt_today t)) (calculate_exact_days_for_years (nt_date t) years) = Inr (rc_cutoff_days r)"
proof -
  obtain origin key policy c w1 where g: "c_gates env t h body w = (Inr (origin, key, policy, c), w1)"
    and i: "c_issue env t h body (origin, key, policy, c) w1 = (Inr (Created r slot), w')"
    using created_run[OF assms] by (metis prod.exhaust)
  note g' = gates_passed[OF g] and i' = issued[OF i]
  have a: "au_policy (create_authenticator env h policy) = policy"
    "au_nonce_store (create_authenticator env h policy) = Some (nv_nonces env)"
    by (simp_all add: create_authenticator_def)
  from i' obtain years where y: "age_threshold policy = Inr years" "\<not> credit_exhausted (nv_credit_entry env) (origin_index_json (nt_origin_index t) origin)"
    "rc_verifying_key_id r \<in> set (op_allowed_vk_ids policy)" "xw_hmac w' = xw_hmac w1"
    "compute_cutoff_days (epoch_days (nt_today t)) (calculate_exact_days_for_years (nt_date t) years) = Inr (rc_cutoff_days r)"
    by (auto simp: create_response_def new_challenge_def)
  from g' obtain x where "authenticate_tracked (nv_hmac env) (create_authenticator env h policy) (nt_hmac t) (rh_api_key h) (qc_authorizer body)
         (create_canonical_message_for_challenge env ''POST'' ''/v1/challenge'' (az_timestamp (qc_authorizer body)) body)
         (xw_hmac w\<lparr>hx_slot := None\<rparr>) = (Inr c, x)" "xw_hmac w1 = x" by blast
  from authenticated[OF this(1)] this(2) g' y show ?thesis by (simp add: a) blast
qed

text \<open>C10 The answer of a creation describes what was stored: the challenge that the store acknowledged is
  pending, carries the secret, the cutoff and the expiry of the answer, the code challenge of the request
  and the authenticated client, lives between 60 and 300 seconds from its creation, and its short code maps
  to its id.\<close>

theorem created_challenge_recorded:
  assumes "create_challenge_route env t h body w = (Created r slot, w')"
  shows "\<exists>c cs ttl. store_put (nv_challenges env) (nt_put t) (nt_put_insert t) (rc_challenge_id r) c cs = (Inr (), xw_challenges w') \<and>
    r = create_response env c \<and> cc_state c = Pending \<and> cc_code_challenge_bytes c = qc_code_challenge body \<and>
    cc_client_id c = Some (az_key_id (qc_authorizer body)) \<and> rh_origin h = Some (cc_origin c) \<and>
    60 \<le> ttl \<and> ttl \<le> 300 \<and> cc_expires_at c = sat_add (cc_created_at c) ttl \<and>
    xw_codes w' (code_map_key (rc_short_code r)) = Some (cse_uuid_text (nv_challenges env) (rc_challenge_id r))"
proof -
  obtain origin key policy c w1 where g: "c_gates env t h body w = (Inr (origin, key, policy, c), w1)"
    and i: "c_issue env t h body (origin, key, policy, c) w1 = (Inr (Created r slot), w')"
    using created_run[OF assms] by (metis prod.exhaust)
  from gates_passed[OF g] obtain x y where o: "rh_origin h = Some origin"
    and a: "authenticate_tracked (nv_hmac env) (create_authenticator env h policy) (nt_hmac t) (rh_api_key h) (qc_authorizer body)
      (create_canonical_message_for_challenge env ''POST'' ''/v1/challenge'' (az_timestamp (qc_authorizer body)) body) y = (Inr c, x)"
    by blast
  have c: "ca_client_id c = az_key_id (qc_authorizer body)" using authenticated[OF a] find_Some_in by fastforce
  from issued[OF i] obtain vk cutoff nonce secret d where d: "d = new_challenge env t body origin policy c vk cutoff nonce secret"
    "store_put (nv_challenges env) (nt_put t) (nt_put_insert t) (nt_uuid t) d (xw_challenges w1) = (Inr (), xw_challenges w')"
    "xw_codes w' = (xw_codes w1)(code_map_key (cc_short_code d) \<mapsto> cse_uuid_text (nv_challenges env) (nt_uuid t))"
    "r = create_response env d" by auto
  show ?thesis
    using d c o challenge_ttl_bounds[where body = body and policy = policy]
    by (intro exI[of _ d] exI[of _ "xw_challenges w1"] exI[of _ "challenge_ttl body policy"])
      (simp add: create_response_def new_challenge_def)
qed

text \<open>The code challenge in text form is not kept: the record holds the marker of a redacted value.\<close>

lemma code_challenge_redacted:
  "cc_code_challenge (new_challenge env t body origin policy c vk cutoff nonce secret) = ''[REDACTED]''"
  by (simp add: new_challenge_def b64url32_display_def)

text \<open>In the sandbox bypass the organisation that is billed is that of the request's Origin header, which
  the bypass does not check, and not the registered origin's.\<close>

lemma bypass_bills_header_origin:
  "origin_index_json (nt_origin_index t) origin = Some json \<Longrightarrow> nv_organization env json = Some (Some org) \<Longrightarrow>
   cc_tenant_id (new_challenge env t body origin (apply_sandbox_bypass_overrides p) c vk cutoff nonce secret) = Some org"
  by (simp add: new_challenge_def billing_entity_def)

text \<open>Short codes are not unique: with the same bits flipped in two bytes half a UUID apart the code is
  the same, and the bytes of version and variant are not touched.\<close>

lemma short_codes_collide:
  assumes "length u = 16"
  shows "generate_short_code_from_uuid (u[1 := u ! 1 XOR x, 9 := u ! 9 XOR x]) = generate_short_code_from_uuid u"
proof -
  have "(a XOR x) XOR (b XOR x) = a XOR b" for a b :: "8 word"
    by (rule bit_word_eqI) (auto simp: bit_xor_iff)
  then show ?thesis using assms by (simp add: generate_short_code_from_uuid_def Let_def)
qed

subsection \<open>A sample creation\<close>

text \<open>An update of an object without a record is answered with 404, and the store goes on to create it.\<close>

lemma put_creates:
  assumes "cw_net w = []" "cw_budget w = []" "faults (cw_objects w cid) = []"
    and "kv (cw_objects w cid) (ch_key (cse_uuid_text env cid)) = None"
    and "cs_laws env cid c" "\<not> is_nil cid" "length (cse_serialise env c) \<le> MAX_CHALLENGE_BODY_SIZE"
    and "cc_short_code c = generate_short_code_from_uuid cid"
  shows "\<exists>w'. store_put env clk clk' cid c w = (Inr (), w') \<and> undisturbed env cid c w'"
proof -
  let ?st = "cw_objects w cid" and ?b = "cse_serialise env c" and ?id = "cse_uuid_text env cid"
  let ?req = "\<lparr>rq_path = challenge_path env cid ''/update'', rq_method = POST, rq_body = Some ?b\<rparr>"
  have st: "\<not> next_fails ?st" "tick_fault ?st = ?st" using assms(3) by (simp_all add: next_fails_def tick_fault_def)
  have "validate_challenge_id ?id = Inr ()" using assms(5) by (simp add: cs_laws_def)
  then have "update_challenge (do_env.truncate env) (clk 1) ?id ?req ?st = (Inr (resp_error ''Not found'' 404), ?st)"
    using assms(4,7) st
    by (simp add: update_challenge_def read_body_def MAX_DO_BODY_SIZE_def MAX_CHALLENGE_BODY_SIZE_def andthen_read)
  then have "challenge_fetch (do_env.truncate env) (clk 1) ?req ?st = (Inr (resp_error ''Not found'' 404), ?st)"
    by (simp add: fetch_update[OF assms(5)])
  then have "send_request (do_env.truncate env) clk cid POST (challenge_path env cid ''/update'') (Some ?b) w =
      (Inr (resp_error ''Not found'' 404), w)"
    using send_request_quiet[OF assms(1,2), of "do_env.truncate env" clk "challenge_path env cid ''/update''" POST "Some ?b" cid
        "resp_error ''Not found'' 404" ?st] by simp
  then have "store_update env clk cid c w = (Inl NotFound, w)"
    using assms(6,7) by (simp add: store_update_def resp_error_def)
  with undisturbed_insert[OF assms, of clk'] show ?thesis by (auto simp: store_put_def)
qed

definition sample_create_env :: "challenge_store_env \<Rightarrow> create_env" where
  "sample_create_env ce = \<lparr>nv_environment = ''production'', nv_api_base_url = ''https://verify.example/'',
     nv_parse = (\<lambda>_. Inr (sample_policy\<lparr>op_clients := [sample_rp_client]\<rparr>)), nv_config_bound = True,
     nv_hmac = sample_hmac_env, nv_nonces = sample_store_env, nv_mek = Some (replicate 32 1), nv_previous_mek = None,
     nv_dummy_hash = ''$argon2id$dummy'', nv_idem = re_idem sample_redeem_env, nv_idem_store = False,
     nv_tiers = re_tiers sample_redeem_env, nv_quota_var = None, nv_rate_bound = False, nv_challenges = ce,
     nv_encode = hex_encode, nv_credit_entry = (\<lambda>_. None), nv_organization = (\<lambda>_. None),
     nv_rp_challenge = (\<lambda>_ n. n), nv_json = (\<lambda>_. ''{}'')\<rparr>"

definition sample_create_clock :: create_clock where
  "sample_create_clock = \<lparr>nt_policy = (4990000, KvValue (Some ''{}'')), nt_lookup = (\<lambda>_. KvValue None),
     nt_registered = (4990000, KvValue None), nt_hmac = sample_hmac_clock 5000000, nt_idem_check = 5000, nt_quota = 5000,
     nt_origin_index = None, nt_today = 1835395200, nt_date = sample_date, nt_uuid = replicate 16 1,
     nt_nonce = Some (replicate 32 7), nt_secret = Inr (replicate 32 8), nt_now = 5000, nt_put = (\<lambda>_. 5000000),
     nt_put_insert = (\<lambda>_. 5000000), nt_code_write = CodeWritten, nt_idem_store = 5000\<rparr>"

definition sample_create_request :: create_request where
  "sample_create_request = \<lparr>qc_code_challenge = replicate 32 5, qc_method = S256, qc_verifying_key_id = Some 1,
     qc_expires_in = 120, qc_authorizer = sample_authorizer 4990\<rparr>"

definition sample_created :: cached_challenge where
  "sample_created = new_challenge (sample_create_env ready_env) sample_create_clock sample_create_request ''https://rp.example''
     (sample_policy\<lparr>op_clients := [sample_rp_client]\<rparr>) sample_rp_client 1 14669 (replicate 32 7) (replicate 32 8)"

definition created_env :: challenge_store_env where
  "created_env = ready_env\<lparr>de_parse_challenge := (\<lambda>_. Inr sample_created), de_parse_update := (\<lambda>_. Inr (update_of sample_created))\<rparr>"

definition sample_create_headers :: redeem_headers where
  "sample_create_headers = sample_headers\<lparr>rh_api_key := Some ''pk_1''\<rparr>"

definition sample_create_world :: create_world where
  "sample_create_world = \<lparr>xw_policies = [], xw_hmac = sample_hmac_world, xw_idem = rd_idem (sample_redeem_world empty_challenges),
     xw_rate = rd_rate (sample_redeem_world empty_challenges), xw_challenges = empty_challenges, xw_codes = Map.empty, xw_audit = []\<rparr>"

lemma sample_create_gates:
  "\<exists>w1. c_gates (sample_create_env ce) sample_create_clock sample_create_headers sample_create_request sample_create_world =
     (Inr (''https://rp.example'', None, sample_policy\<lparr>op_clients := [sample_rp_client]\<rparr>, sample_rp_client), w1) \<and>
     xw_challenges w1 = empty_challenges"
proof -
  let ?e = "sample_create_env ce" and ?t = sample_create_clock and ?h = sample_create_headers and ?b = sample_create_request
  let ?p = "sample_policy\<lparr>op_clients := [sample_rp_client]\<rparr>" and ?o = "''https://rp.example''"
  let ?w = sample_create_world
  have p1: "c_origin_phase ?h ?w = (Inr ?o, ?w)"
    by (simp add: c_origin_ok) (simp add: sample_create_headers_def sample_headers_def fetch_defs validate_fetch_metadata_def then_check_def)
  have p2: "c_headers_phase ?h ?o ?w = (Inr None, ?w)"
    by (simp add: c_headers_ok extract_idempotency_key_def sample_create_headers_def sample_headers_def forbidden_scheme_def)
  have "\<exists>c. get_policy_detail (\<lambda>_. Inr ?p) 4990000 ?o (KvValue (Some ''{}'')) [] = (Inr (Found ?p), c)"
    by (simp add: get_policy_detail_def cache_hit_def load_policy_detail_def kv_value_def sample_policy_def)
  then obtain w1 where l: "lookup_detail ?e (nt_policy ?t) ?o ?w = (Inr (Inr (Found ?p)), w1)"
    "xw_hmac w1 = sample_hmac_world" "xw_challenges w1 = empty_challenges"
    by (auto simp: lookup_detail_def on_part_def sample_create_env_def sample_create_clock_def sample_create_world_def)
  have s: "\<not> should_skip_origin_check_for_rp_sandbox (nv_environment ?e) (az_key_id (qc_authorizer ?b))" "nv_config_bound ?e"
    by (simp_all add: should_skip_origin_check_for_rp_sandbox_def sample_create_env_def)
  have p3: "c_policy_phase ?e ?t ?h ?o ?b ?w = (Inr ?p, w1)"
    by (simp add: c_policy_phase_def Let_def s andthen_def l(1) c_own_policy_def ret_def)
  let ?au = "create_authenticator ?e ?h ?p"
  have au: "au_policy ?au = au_policy sample_authenticator" "au_prefix_index ?au = None" "au_nonce_store ?au = Some sample_store_env"
    "au_mek ?au = au_mek sample_authenticator" "au_previous_mek ?au = au_previous_mek sample_authenticator"
    by (simp_all add: create_authenticator_def sample_create_env_def sample_authenticator_def authenticator_new_def)
  have sk: "timestamp_skew (now_secs 5000000) 4990 \<le> 300"
    by (simp add: now_secs_def secs_of_millis_def timestamp_skew_def sat_sub_def)
  let ?n = "hx_nonces sample_hmac_world" and ?tag = "auth_nonce_tag ''rp_a'' (replicate 64 (CHR ''a''))"
  have q: "\<And>s. faults (nw_shards ?n s) = []" "next_delivery (nw_net ?n) = Delivered"
    "\<not> store_held sample_store_env ?n ?tag (now_secs 5000000)"
    by (simp_all add: empty_storage_def next_delivery_def store_held_def nonce_held_def)
  obtain n1 where n1: "check_and_set sample_store_env ?tag 5000000 NONCE_DEDUP_TTL ?n = (Inr True, n1)"
    using quiet_claim[OF sample_store_laws sample_auth_tag q] by blast
  have k: "key_verdict sample_hmac_env (hx_cache sample_hmac_world) (hk_cache (sample_hmac_clock 5000000)) sample_rp_client ''pk_1''"
    by (simp add: key_verdict_def cached_verdict_def sample_key_verified)
  have m: "hmac_matches sample_hmac_env ?au sample_rp_client msg (az_hmac (sample_authorizer 4990))" for msg
    using sample_hmac_matches[of msg 4990] by (simp add: hmac_matches_def au)
  have "\<exists>x. authenticate_tracked sample_hmac_env ?au (sample_hmac_clock 5000000) (Some ''pk_1'') (sample_authorizer 4990) msg
      (sample_hmac_world\<lparr>hx_slot := None\<rparr>) = (Inr sample_rp_client, x)" for msg
    using authenticates[where a = "sample_authorizer 4990" and au = ?au and store = sample_store_env and n = n1 and msg = msg and
        env = sample_hmac_env and t = "sample_hmac_clock 5000000" and key = "''pk_1''" and c = sample_rp_client and
        w = "sample_hmac_world\<lparr>hx_slot := None\<rparr>"] sample_authorizer_valid sk k n1 m sample_rp_client_found[of 4990] au by auto
  then have "\<exists>w2. c_auth_phase ?e ?t ?h ?b ?p w1 = (Inr sample_rp_client, w2) \<and> xw_challenges w2 = empty_challenges"
    using l(2,3) by (simp add: c_auth_ok sample_create_clock_def sample_create_headers_def sample_create_request_def)
      (fastforce simp: sample_create_env_def)
  then obtain w2 where p4: "c_auth_phase ?e ?t ?h ?b ?p w1 = (Inr sample_rp_client, w2)" "xw_challenges w2 = empty_challenges"
    by blast
  have p5: "c_replay_phase ?e ?t None x w2 = (Inr (), w2)" for x by (simp add: c_replay_phase_def)
  have p6: "c_quota_phase ?e ?t x w2 = (Inr (), w2)" for x
    by (simp add: c_quota_ok enforce_account_quota_def sample_create_env_def)
  show ?thesis using p4(2) by (simp add: c_gates_def andthen_def p1 p2 p3 p4(1) p5 p6 ret_def)
qed

lemma created_laws: "cs_laws created_env (replicate 16 1) sample_created"
  "cc_short_code sample_created = generate_short_code_from_uuid (replicate 16 1)" "\<not> is_nil (replicate 16 1)"
  by (simp_all add: cs_laws_def created_env_def sample_id_valid ready_env_def is_nil_def
      sample_created_def new_challenge_def sample_create_clock_def)

lemma created_size: "length (cse_serialise created_env c) \<le> MAX_CHALLENGE_BODY_SIZE"
  by (cases "cc_state c") (simp_all add: created_env_def ready_env_def MAX_CHALLENGE_BODY_SIZE_def)

lemma sample_creation:
  "\<exists>r s w'. create_challenge_route (sample_create_env created_env) sample_create_clock sample_create_headers sample_create_request
     sample_create_world = (Created r s, w') \<and> undisturbed created_env (replicate 16 1) sample_created (xw_challenges w')"
proof -
  let ?e = "sample_create_env created_env" and ?t = sample_create_clock and ?h = sample_create_headers and ?b = sample_create_request
  let ?p = "sample_policy\<lparr>op_clients := [sample_rp_client]\<rparr>" and ?o = "''https://rp.example''"
  obtain w1 where g: "c_gates ?e ?t ?h ?b sample_create_world = (Inr (?o, None, ?p, sample_rp_client), w1)"
    "xw_challenges w1 = empty_challenges" using sample_create_gates by blast
  have q1: "c_credit_phase ?e ?t ?h ?o w1 = (Inr (), w1)"
    by (simp add: c_credit_ok origin_index_json_def credit_exhausted_def sample_create_clock_def)
  have q2: "c_age_phase ?p w1 = (Inr 18, w1)"
    by (simp add: c_age_ok age_threshold_def effective_proof_direction_def sample_policy_def origin_policy_default_def)
  have q3: "c_vk_phase ?h ?o ?b ?p w1 = (Inr 1, w1)"
    by (simp add: c_vk_phase_def sample_create_request_def sample_policy_def origin_policy_default_def ret_def)
  obtain x where q4: "c_cutoff_phase ?t ?o ?p 18 w1 = (Inr 14669, w1\<lparr>xw_audit := x\<rparr>)"
    using sample_cutoff by (simp add: c_cutoff_ok epoch_days_def sample_create_clock_def)
  let ?w2 = "w1\<lparr>xw_audit := x\<rparr>"
  have q5: "c_random_phase ?t ?w2 = (Inr (replicate 32 7, replicate 32 8), ?w2)"
    by (simp add: c_random_ok sample_create_clock_def)
  have n: "new_challenge ?e ?t ?b ?o ?p sample_rp_client 1 14669 (replicate 32 7) (replicate 32 8) = sample_created"
    by (simp add: sample_created_def new_challenge_def sample_create_env_def billing_entity_def split: option.split)
  obtain cs where cs: "store_put created_env (nt_put ?t) (nt_put_insert ?t) (nt_uuid ?t) sample_created empty_challenges = (Inr (), cs)"
    "undisturbed created_env (replicate 16 1) sample_created cs"
    using put_creates[OF _ _ _ _ created_laws(1,3) created_size created_laws(2), of empty_challenges "nt_put ?t" "nt_put_insert ?t"]
    by (auto simp: empty_challenges_def sample_create_clock_def)
  from cs(1) have q6: "c_put_phase ?e ?t ?h sample_created ?w2 = (Inr (), ?w2\<lparr>xw_challenges := cs\<rparr>)"
    by (simp add: c_put_ok g(2)) (simp add: sample_create_env_def)
  obtain w4 where q7: "c_code_phase ?e ?t ?h sample_created (?w2\<lparr>xw_challenges := cs\<rparr>) = (Inr (), w4)"
    "xw_challenges w4 = cs"
    by (simp add: c_code_ok sample_create_clock_def)
  obtain w5 where q8: "c_audit [LogCreated (cse_uuid_text (nv_challenges ?e) (nt_uuid ?t)) (client_ip_of ?h) ?o (Some (ca_client_id sample_rp_client))] w4 = (Inr (), w5)"
    "xw_challenges w5 = cs"
    using q7(2) by (simp add: c_audit_run)
  have q9: "c_cache_phase ?e ?t None cid ttl r w5 = (Inr (), w5)" for cid ttl r by (simp add: c_cache_phase_def ret_def)
  have "c_issue ?e ?t ?h ?b (?o, None, ?p, sample_rp_client) w1 = (Inr (Created (create_response ?e sample_created) (hx_slot (xw_hmac w5))), w5)"
    unfolding c_issue_def prod.case Let_def by (simp add: andthen_def q1 q2 q3 q4 q5 n q6 q7(1) q8(1) q9)
  with g(1) q8(2) cs(2) show ?thesis by (simp add: create_challenge_route_def finish_def andthen_def)
qed

lemma challenge_created_only_if_witness:
  "\<exists>r s w'. create_challenge_route (sample_create_env created_env) sample_create_clock sample_create_headers sample_create_request
     sample_create_world = (Created r s, w') \<and> timestamp_skew (now_secs 5000000) 4990 \<le> 300"
proof -
  obtain r s w' where c: "create_challenge_route (sample_create_env created_env) sample_create_clock sample_create_headers
     sample_create_request sample_create_world = (Created r s, w')" using sample_creation by blast
  from challenge_created_only_if[OF this] have "timestamp_skew (now_secs 5000000) 4990 \<le> 300"
    by (simp add: sample_create_clock_def sample_create_request_def) blast
  with c show ?thesis by blast
qed

lemma hex_encode_no_quote: "CHR 0x22 \<notin> set (hex_encode b)"
proof -
  have "CHR 0x22 \<noteq> hex_digit n" if n: "n < 16" for n
  proof
    assume q: "CHR 0x22 = hex_digit n"
    have "n = 0" using hex_nibble_digit[OF n] unfolding q[symmetric] by (simp add: hex_nibble_def)
    with q show False by (simp add: hex_digit_def digit_char_def char_of_def bit_0)
  qed
  moreover have "unat x div 16 < 16" for x :: "8 word" using unsigned_less[of x, where 'a = nat] by simp
  ultimately show ?thesis by (auto simp: hex_encode_def)
qed

lemma canonical_message_binds_witness:
  "qc_expires_in sample_create_request = 120 \<and>
   create_canonical_message_for_challenge (sample_create_env ready_env) ''POST'' ''/v1/challenge'' 4990 sample_create_request \<noteq>
   create_canonical_message_for_challenge (sample_create_env ready_env) ''POST'' ''/v1/challenge'' 4990
     (sample_create_request\<lparr>qc_expires_in := 300\<rparr>)"
proof
  show e: "qc_expires_in sample_create_request = 120" by (simp add: sample_create_request_def)
  have "inj (nv_encode (sample_create_env ready_env))" "\<And>b. CHR 0x22 \<notin> set (nv_encode (sample_create_env ready_env) b)"
    using hex_encode_inj hex_encode_no_quote by (auto simp: sample_create_env_def inj_def)
  from canonical_message_binds[OF this, of 4990 sample_create_request 4990 "sample_create_request\<lparr>qc_expires_in := 300\<rparr>"] e
  show "create_canonical_message_for_challenge (sample_create_env ready_env) ''POST'' ''/v1/challenge'' 4990 sample_create_request \<noteq>
   create_canonical_message_for_challenge (sample_create_env ready_env) ''POST'' ''/v1/challenge'' 4990
     (sample_create_request\<lparr>qc_expires_in := 300\<rparr>)" by auto
qed

lemma created_challenge_recorded_witness:
  "\<exists>r s w'. create_challenge_route (sample_create_env created_env) sample_create_clock sample_create_headers sample_create_request
     sample_create_world = (Created r s, w') \<and> xw_codes w' (code_map_key (rc_short_code r)) = Some sample_id"
proof -
  obtain r s w' where c: "create_challenge_route (sample_create_env created_env) sample_create_clock sample_create_headers
     sample_create_request sample_create_world = (Created r s, w')" using sample_creation by blast
  from created_challenge_recorded[OF c] have "xw_codes w' (code_map_key (rc_short_code r)) = Some sample_id"
    by (simp add: sample_create_env_def created_env_def) blast
  with c show ?thesis by blast
qed

end
