(* ===== verification/Challenge_Read.thy ===== *)
theory Challenge_Read imports Create_Challenge begin

text \<open>
  \<open>src/routes/challenge.rs\<close>: the three handlers that read a challenge, by its UUID for a wallet, by its short
  code for a wallet without a camera, and by the relying party that polls it. KV reads, clocks and the
  API-key authentication of the poll are arguments or the models of their components; console lines are
  left out.
\<close>

subsection \<open>Answers\<close>

text \<open>A short-code answer has every field of a details answer except the submit secret.\<close>

record short_code_response =
  sr_challenge_id :: uuid
  sr_short_code :: string
  sr_short_code_formatted :: string
  sr_rp_challenge :: bytes
  sr_cutoff_days :: int
  sr_verifying_key_id :: u32
  sr_expires_at :: u64
  sr_proof_direction :: string
  sr_status_url :: string
  sr_verify_url :: string

record details_response = short_code_response +
  dr_submit_secret :: bytes

record status_dto =
  sd_state :: string
  sd_status :: string
  sd_verified :: bool
  sd_proof_verified :: bool

datatype read_outcome =
    Details details_response
  | ByCode short_code_response
  | Status status_dto
  | ReadError api_error
  | ReadPropagated api_error
  | ReadRuntime string

datatype read_audit =
    ReadSuspicious string string
  | ReadLookupSuccess string string string
  | ReadAuthFailure string string
  | ReadPollSuccess string string string

record read_env =
  rv_api_base_url :: string
  rv_config_bound :: bool
  rv_challenges :: challenge_store_env
  rv_auth :: auth_env

record read_clock =
  rk_code :: "string \<Rightarrow> kv_read"
  rk_get :: "nat \<Rightarrow> u64"
  rk_now :: u64

record read_world =
  rx_challenges :: challenge_world
  rx_auth :: auth_world
  rx_audit :: "read_audit list"

type_synonym 'a read_step = "(read_world, read_outcome, 'a) step"

abbreviation g_audit :: "read_audit list \<Rightarrow> unit read_step" where
  "g_audit \<equiv> append_to rx_audit_update"

definition g_refuse :: "read_audit list \<Rightarrow> api_error \<Rightarrow> 'a read_step" where
  "g_refuse calls e = andthen (g_audit calls) (\<lambda>_. stop (ReadError e))"

subsection \<open>What the handlers share\<close>

definition g_load_phase :: "read_env \<Rightarrow> read_clock \<Rightarrow> uuid \<Rightarrow> cached_challenge read_step" where
  "g_load_phase env t sid =
     andthen (on_part rx_challenges rx_challenges_update (store_get (rv_challenges env) (rk_get t) sid)) (\<lambda>r.
     case r of
       Inr (Some c) \<Rightarrow> ret c
     | Inr None \<Rightarrow> stop (ReadError NotFound)
     | Inl e \<Rightarrow> stop (ReadError (Internal (display e))))"

definition g_unexpired_phase :: "read_clock \<Rightarrow> cached_challenge \<Rightarrow> unit read_step" where
  "g_unexpired_phase t cached = (if rk_now t > cc_expires_at cached then stop (ReadError NotFound) else ret ())"

definition g_rp_challenge_phase :: "cached_challenge \<Rightarrow> unit read_step" where
  "g_rp_challenge_phase cached =
     (if length (cc_rp_challenge cached) \<noteq> 32 then stop (ReadPropagated (Internal ''rp_challenge length mismatch'')) else ret ())"

text \<open>The fields that both answers have; the cutoff and the key are checked as they are built.\<close>

definition g_response_phase :: "read_env \<Rightarrow> cached_challenge \<Rightarrow> short_code_response read_step" where
  "g_response_phase env cached =
     (case cutoff_days_new (cc_cutoff_days cached) of
        Inl e \<Rightarrow> stop (ReadRuntime e)
      | Inr cutoff \<Rightarrow>
          (case vk_id_new (cc_verifying_key_id cached) of
             None \<Rightarrow> stop (ReadPropagated (Internal ''Invalid VK ID''))
           | Some vk \<Rightarrow> ret
               \<lparr>sr_challenge_id = cc_id cached, sr_short_code = cc_short_code cached,
                sr_short_code_formatted = formatted_code (cc_short_code cached), sr_rp_challenge = cc_rp_challenge cached,
                sr_cutoff_days = cutoff, sr_verifying_key_id = vk, sr_expires_at = cc_expires_at cached,
                sr_proof_direction = proof_direction_as_str (cc_proof_direction cached),
                sr_status_url = build_v1_base (rv_api_base_url env) @ ''/challenge/'' @ cse_uuid_text (rv_challenges env) (cc_id cached),
                sr_verify_url = build_v1_base (rv_api_base_url env) @ ''/verify''\<rparr>))"

subsection \<open>By UUID\<close>

definition g_pending_phase :: "cached_challenge \<Rightarrow> unit read_step" where
  "g_pending_phase cached = (if cc_state cached \<noteq> Pending then stop (ReadError NotFound) else ret ())"

definition g_secret_phase :: "cached_challenge \<Rightarrow> bytes read_step" where
  "g_secret_phase cached =
     (if length (cc_submit_secret cached) \<noteq> 32 then stop (ReadError service_unavailable_error) else ret (cc_submit_secret cached))"

definition get_challenge_details :: "read_env \<Rightarrow> read_clock \<Rightarrow> uuid \<Rightarrow> read_world \<Rightarrow> read_outcome \<times> read_world" where
  "get_challenge_details env t sid =
     finish (andthen (g_load_phase env t sid) (\<lambda>cached.
     andthen (g_unexpired_phase t cached) (\<lambda>_.
     andthen (g_pending_phase cached) (\<lambda>_.
     andthen (g_rp_challenge_phase cached) (\<lambda>_.
     andthen (g_secret_phase cached) (\<lambda>secret.
     andthen (g_response_phase env cached) (\<lambda>r.
     ret (Details (short_code_response.extend r (details_response.fields secret))))))))))"

subsection \<open>By short code\<close>

definition g_format_phase :: "string \<Rightarrow> string \<Rightarrow> string read_step" where
  "g_format_phase ip short_code =
     (let normalised = strip_whitespace short_code in
      if length normalised \<noteq> 12 \<or> \<not> list_all is_ascii_digit (utf8_chars normalised) then
        g_refuse [ReadSuspicious ip ''short_code_invalid_format'']
          (bad_request ''INVALID_SHORT_CODE'' (Some ''short_code'') ''Short code must be exactly 12 numeric digits'')
      else ret normalised)"

definition g_code_phase :: "read_env \<Rightarrow> read_clock \<Rightarrow> string \<Rightarrow> string \<Rightarrow> uuid read_step" where
  "g_code_phase env t ip normalised =
     (if \<not> rv_config_bound env then stop (ReadPropagated service_unavailable_error)
      else case rk_code t (code_map_key normalised) of
        KvValue (Some uuid_str) \<Rightarrow>
          (case de_parse_uuid (rv_challenges env) uuid_str of
             None \<Rightarrow> stop (ReadPropagated service_unavailable_error)
           | Some sid \<Rightarrow> ret sid)
      | KvValue None \<Rightarrow> g_refuse [ReadSuspicious ip ''short_code_not_found''] NotFound
      | KvError _ \<Rightarrow> stop (ReadError service_unavailable_error)
      | KvTimeout \<Rightarrow> stop (ReadError service_unavailable_error))"

definition get_challenge_by_short_code ::
    "read_env \<Rightarrow> read_clock \<Rightarrow> string \<Rightarrow> string \<Rightarrow> read_world \<Rightarrow> read_outcome \<times> read_world" where
  "get_challenge_by_short_code env t short_code client_ip =
     finish (andthen (g_format_phase client_ip short_code) (\<lambda>normalised.
     andthen (g_code_phase env t client_ip normalised) (\<lambda>sid.
     andthen (g_load_phase env t sid) (\<lambda>cached.
     andthen (g_unexpired_phase t cached) (\<lambda>_.
     andthen (g_rp_challenge_phase cached) (\<lambda>_.
     andthen (g_audit [ReadLookupSuccess short_code (cse_uuid_text (rv_challenges env) (cc_id cached)) client_ip]) (\<lambda>_.
     andthen (g_response_phase env cached) (\<lambda>r.
     ret (ByCode r)))))))))"

subsection \<open>The poll of the relying party\<close>

definition poll_auth_options :: "string option \<Rightarrow> auth_options" where
  "poll_auth_options owner =
     \<lparr>ao_expected_owner_id = owner, ao_allow_mobile_flow = False, ao_stored_client_id = None\<rparr>"

definition try_extract_client_id :: "read_env \<Rightarrow> redeem_headers \<Rightarrow> string option \<Rightarrow> string option read_step" where
  "try_extract_client_id env h owner =
     andthen (on_part rx_auth rx_auth_update
       (authenticate_api_key (rv_auth env) (rh_origin h) (rh_api_key h) (poll_auth_options owner))) (\<lambda>r.
     ret (ar_client_id r))"

definition g_poll_auth_phase :: "read_env \<Rightarrow> redeem_headers \<Rightarrow> cached_challenge \<Rightarrow> string read_step" where
  "g_poll_auth_phase env h entry =
     andthen (try_extract_client_id env h (cc_client_id entry)) (\<lambda>r.
     case r of
       Some client_id \<Rightarrow> ret client_id
     | None \<Rightarrow> g_refuse [ReadAuthFailure (client_ip_of h) ''poll_missing_client_id'']
         (unauthorized ''POLL_AUTH_FAILED''
           (''Origin + X-API-Key did not match the client that created this challenge. In sandbox the X-API-Key must match the credential returned from /v1/register-test-origin for this challenge'' @ [CHR 0x27] @ ''s owner.'')))"

definition g_owner_phase :: "redeem_headers \<Rightarrow> cached_challenge \<Rightarrow> string \<Rightarrow> unit read_step" where
  "g_owner_phase h entry client_id =
     (case verify_ownership (cc_client_id entry) (Some client_id) (client_ip_of h) ''poll_bola_ownership_mismatch'' of
        (Inl e, evs) \<Rightarrow> g_refuse (map (\<lambda>(ip, ev). ReadSuspicious ip ev) evs) e
      | (Inr _, _) \<Rightarrow> ret ())"

definition g_gone_phase :: "read_clock \<Rightarrow> cached_challenge \<Rightarrow> unit read_step" where
  "g_gone_phase t entry =
     (if rk_now t > cc_expires_at entry \<and> cc_state entry \<noteq> Verified
      then stop (ReadError (gone ''CHALLENGE_EXPIRED''
             ''Challenge has passed its expiry timestamp; create a new one via POST /v1/challenge''))
      else ret ())"

definition status_of :: "cached_challenge \<Rightarrow> status_dto" where
  "status_of entry =
     \<lparr>sd_state = state_as_str (cc_state entry), sd_status = state_as_str (cc_state entry),
      sd_verified = (cc_state entry = Verified),
      sd_proof_verified = (cc_state entry = ProofOkWaitingForRedeem \<or> cc_state entry = Verified)\<rparr>"

definition poll_challenge ::
    "read_env \<Rightarrow> read_clock \<Rightarrow> redeem_headers \<Rightarrow> uuid \<Rightarrow> read_world \<Rightarrow> read_outcome \<times> read_world" where
  "poll_challenge env t h sid =
     finish (andthen (g_load_phase env t sid) (\<lambda>entry.
     andthen (g_poll_auth_phase env h entry) (\<lambda>client_id.
     andthen (g_owner_phase h entry client_id) (\<lambda>_.
     andthen (g_gone_phase t entry) (\<lambda>_.
     andthen (g_audit [ReadPollSuccess (cse_uuid_text (rv_challenges env) sid) (client_ip_of h) client_id]) (\<lambda>_.
     ret (Status (status_of entry))))))))"

subsection \<open>What a served challenge passed\<close>

named_theorems read_inv \<open>what a phase of a read does when it goes on\<close>

lemma g_refuse_run [read_inv]: "g_refuse calls e w = (Inr x, w') \<longleftrightarrow> False"
  by (simp add: g_refuse_def andthen_append_to)

lemma g_audit_run [read_inv]: "g_audit calls w = (r, w') \<longleftrightarrow> r = Inr () \<and> w' = w\<lparr>rx_audit := rx_audit w @ calls\<rparr>"
  by (auto simp: append_to_def)

lemma g_load_ok [read_inv]: "g_load_phase env t sid w = (Inr c, w') \<longleftrightarrow>
    (\<exists>cw. store_get (rv_challenges env) (rk_get t) sid (rx_challenges w) = (Inr (Some c), cw) \<and> w' = w\<lparr>rx_challenges := cw\<rparr>)"
  by (auto simp: g_load_phase_def andthen_on_part split: prod.split sum.split option.split)

lemma g_checks_ok [read_inv]:
  "g_unexpired_phase t c w = (Inr u, w') \<longleftrightarrow> rk_now t \<le> cc_expires_at c \<and> w' = w"
  "g_rp_challenge_phase c w = (Inr u, w') \<longleftrightarrow> length (cc_rp_challenge c) = 32 \<and> w' = w"
  "g_pending_phase c w = (Inr u, w') \<longleftrightarrow> cc_state c = Pending \<and> w' = w"
  "g_secret_phase c w = (Inr s, w') \<longleftrightarrow> length (cc_submit_secret c) = 32 \<and> s = cc_submit_secret c \<and> w' = w"
  "g_gone_phase t c w = (Inr u, w') \<longleftrightarrow> (rk_now t \<le> cc_expires_at c \<or> cc_state c = Verified) \<and> w' = w"
  by (auto simp: g_unexpired_phase_def g_rp_challenge_phase_def g_pending_phase_def g_secret_phase_def g_gone_phase_def)

definition shown :: "read_env \<Rightarrow> cached_challenge \<Rightarrow> short_code_response" where
  "shown env c =
     \<lparr>sr_challenge_id = cc_id c, sr_short_code = cc_short_code c, sr_short_code_formatted = formatted_code (cc_short_code c),
      sr_rp_challenge = cc_rp_challenge c, sr_cutoff_days = cc_cutoff_days c, sr_verifying_key_id = cc_verifying_key_id c,
      sr_expires_at = cc_expires_at c, sr_proof_direction = proof_direction_as_str (cc_proof_direction c),
      sr_status_url = build_v1_base (rv_api_base_url env) @ ''/challenge/'' @ cse_uuid_text (rv_challenges env) (cc_id c),
      sr_verify_url = build_v1_base (rv_api_base_url env) @ ''/verify''\<rparr>"

lemma g_response_ok [read_inv]: "g_response_phase env c w = (Inr r, w') \<longleftrightarrow>
    CUTOFF_MIN \<le> cc_cutoff_days c \<and> cc_cutoff_days c \<le> CUTOFF_MAX \<and> 0 < cc_verifying_key_id c \<and> r = shown env c \<and> w' = w"
  by (auto simp: g_response_phase_def shown_def cutoff_days_new_def vk_id_new_def)

lemma g_owner_ok [read_inv]: "g_owner_phase h c cid w = (Inr u, w') \<longleftrightarrow> cc_client_id c = Some cid \<and> w' = w"
  using verify_ownership_iff[of "cc_client_id c" "Some cid" "client_ip_of h" "''poll_bola_ownership_mismatch''"]
  by (auto simp: g_owner_phase_def read_inv split: prod.split sum.split)

lemma g_poll_auth_ok [read_inv]: "g_poll_auth_phase env h c w = (Inr cid, w') \<longleftrightarrow>
    (\<exists>r a. authenticate_api_key (rv_auth env) (rh_origin h) (rh_api_key h) (poll_auth_options (cc_client_id c)) (rx_auth w) = (r, a) \<and>
      ar_client_id r = Some cid \<and> w' = w\<lparr>rx_auth := a\<rparr>)"
  by (auto simp: g_poll_auth_phase_def try_extract_client_id_def andthen_on_part andthen_def ret_def read_inv on_part_def
      split: prod.split option.split)

lemma g_format_ok [read_inv]: "g_format_phase ip code w = (Inr x, w') \<longleftrightarrow> short_code_new code = Inr x \<and> w' = w"
  by (auto simp: g_format_phase_def short_code_new_def Let_def read_inv)

lemma g_code_ok [read_inv]: "g_code_phase env t ip code w = (Inr sid, w') \<longleftrightarrow> rv_config_bound env \<and>
    (\<exists>s. rk_code t (code_map_key code) = KvValue (Some s) \<and> de_parse_uuid (rv_challenges env) s = Some sid) \<and> w' = w"
  by (auto simp: g_code_phase_def read_inv split: kv_read.split option.split)

text \<open>A phase that refuses gives none of the three answers.\<close>

definition refused :: "read_outcome \<Rightarrow> bool" where
  "refused x \<longleftrightarrow> (\<exists>e. x = ReadError e) \<or> (\<exists>e. x = ReadPropagated e) \<or> (\<exists>e. x = ReadRuntime e)"

lemma refused_phases:
  "ends_in refused (g_load_phase env t sid)" "ends_in refused (g_unexpired_phase t c)" "ends_in refused (g_rp_challenge_phase c)"
  "ends_in refused (g_pending_phase c)" "ends_in refused (g_secret_phase c)" "ends_in refused (g_response_phase env c)"
  "ends_in refused (g_format_phase ip code)" "ends_in refused (g_code_phase env t ip code)" "ends_in refused (g_audit calls)"
  "ends_in refused (g_poll_auth_phase env h c)" "ends_in refused (g_owner_phase h c cid)" "ends_in refused (g_gone_phase t c)"
  by (auto simp: ends_in_def refused_def g_load_phase_def g_unexpired_phase_def g_rp_challenge_phase_def g_pending_phase_def
      g_secret_phase_def g_response_phase_def g_format_phase_def g_code_phase_def append_to_def g_poll_auth_phase_def
      try_extract_client_id_def g_owner_phase_def g_gone_phase_def g_refuse_def andthen_def on_part_def ret_def stop_def Let_def
      split: prod.splits sum.splits option.splits if_splits kv_read.splits)

lemma served_run:
  assumes "finish (andthen m k) w = (x, w')" "\<not> refused x" "ends_in refused (andthen m k)"
  shows "andthen m k w = (Inr x, w')"
  using assms unfolding finish_iff ends_in_def by blast

lemma details_served:
  assumes "get_challenge_details env t sid w = (Details d, w')"
  shows "\<exists>c. store_get (rv_challenges env) (rk_get t) sid (rx_challenges w) = (Inr (Some c), rx_challenges w') \<and>
    cc_state c = Pending \<and> rk_now t \<le> cc_expires_at c \<and> length (cc_submit_secret c) = 32 \<and>
    d = short_code_response.extend (shown env c) (details_response.fields (cc_submit_secret c))"
proof -
  have r: "\<not> refused (Details d)" by (simp add: refused_def)
  have "andthen (g_load_phase env t sid) (\<lambda>cached. andthen (g_unexpired_phase t cached) (\<lambda>_.
     andthen (g_pending_phase cached) (\<lambda>_. andthen (g_rp_challenge_phase cached) (\<lambda>_.
     andthen (g_secret_phase cached) (\<lambda>secret. andthen (g_response_phase env cached) (\<lambda>r.
     ret (Details (short_code_response.extend r (details_response.fields secret))))))))) w = (Inr (Details d), w')"
    by (rule served_run[OF assms[unfolded get_challenge_details_def] r]) (intro ends_in_andthen refused_phases ends_in_ret)
  then show ?thesis by (auto simp: andthen_Inr_iff read_inv)
qed

text \<open>C20 A poll answers only the owner of a challenge, with the state that the store holds: the caller is
  authenticated by its Origin and API key as the client that the record names, and the challenge has not
  expired, or it is redeemed.\<close>

theorem poll_owner_only:
  assumes "poll_challenge env t h sid w = (Status dto, w')"
  shows "\<exists>c client r. store_get (rv_challenges env) (rk_get t) sid (rx_challenges w) = (Inr (Some c), rx_challenges w') \<and>
    cc_client_id c = Some client \<and>
    authenticate_api_key (rv_auth env) (rh_origin h) (rh_api_key h) (poll_auth_options (Some client)) (rx_auth w) = (r, rx_auth w') \<and>
    ar_client_id r = Some client \<and> (rk_now t \<le> cc_expires_at c \<or> cc_state c = Verified) \<and> dto = status_of c"
proof -
  have r: "\<not> refused (Status dto)" by (simp add: refused_def)
  have "andthen (g_load_phase env t sid) (\<lambda>entry. andthen (g_poll_auth_phase env h entry) (\<lambda>client_id.
     andthen (g_owner_phase h entry client_id) (\<lambda>_. andthen (g_gone_phase t entry) (\<lambda>_.
     andthen (g_audit [ReadPollSuccess (cse_uuid_text (rv_challenges env) sid) (client_ip_of h) client_id]) (\<lambda>_.
     ret (Status (status_of entry))))))) w = (Inr (Status dto), w')"
    by (rule served_run[OF assms[unfolded poll_challenge_def] r]) (intro ends_in_andthen refused_phases ends_in_ret)
  then show ?thesis by (auto simp: andthen_Inr_iff read_inv)
qed

subsection \<open>The short code and the secret\<close>

lemma details_of_undisturbed:
  assumes "undisturbed (rv_challenges env) sid c (rx_challenges w)"
    and "de_parse_challenge (rv_challenges env) (cse_serialise (rv_challenges env) c) = Inr c" "challenge_validate c = Inr ()"
    and "cc_state c = Pending" "length (cc_submit_secret c) = 32" "now_secs (rk_get t 1) < cc_expires_at c"
    and "rk_now t \<le> cc_expires_at c" "CUTOFF_MIN \<le> cc_cutoff_days c" "cc_cutoff_days c \<le> CUTOFF_MAX" "0 < cc_verifying_key_id c"
  shows "\<exists>d. get_challenge_details env t sid w = (Details d, w) \<and>
    short_code_response.truncate d = shown env c \<and> dr_submit_secret d = cc_submit_secret c"
proof -
  note g = undisturbed_get[where clk = "rk_get t", OF assms(1,6,2,3)]
  have l: "g_load_phase env t sid w = (Inr c, w)" using g by (simp add: read_inv)
  have p: "g_unexpired_phase t c w = (Inr (), w)" "g_pending_phase c w = (Inr (), w)" "g_rp_challenge_phase c w = (Inr (), w)"
    "g_secret_phase c w = (Inr (cc_submit_secret c), w)" "g_response_phase env c w = (Inr (shown env c), w)"
    using assms(3-5,7-10) by (simp_all add: read_inv challenge_validate_iff)
  show ?thesis
    by (simp add: get_challenge_details_def finish_def andthen_def l p ret_def)
      (simp add: short_code_response.defs details_response.defs)
qed

text \<open>C19 A short code is worth the submit secret: whoever types the code of a pending challenge learns its
  UUID, and the request for that UUID answers with the secret that the answer for the code left out.\<close>

theorem short_code_gives_secret:
  assumes "undisturbed (rv_challenges env) (cc_id c) c (rx_challenges w)"
    and "de_parse_challenge (rv_challenges env) (cse_serialise (rv_challenges env) c) = Inr c" "challenge_validate c = Inr ()"
    and "cc_state c = Pending" "length (cc_submit_secret c) = 32" "now_secs (rk_get t 1) < cc_expires_at c"
    and "rk_now t \<le> cc_expires_at c" "CUTOFF_MIN \<le> cc_cutoff_days c" "cc_cutoff_days c \<le> CUTOFF_MAX" "0 < cc_verifying_key_id c"
    and "rv_config_bound env" "short_code_new code = Inr (cc_short_code c)"
    and "rk_code t (code_map_key (cc_short_code c)) = KvValue (Some uuid)" "de_parse_uuid (rv_challenges env) uuid = Some (cc_id c)"
  shows "\<exists>r w1 d w2. get_challenge_by_short_code env t code ip w = (ByCode r, w1) \<and>
    get_challenge_details env t (sr_challenge_id r) w1 = (Details d, w2) \<and>
    short_code_response.truncate d = r \<and> dr_submit_secret d = cc_submit_secret c"
proof -
  note g = undisturbed_get[where clk = "rk_get t", OF assms(1,6,2,3)]
  have p: "g_format_phase ip code w = (Inr (cc_short_code c), w)" using assms(12) by (simp add: read_inv)
  have q: "g_code_phase env t ip (cc_short_code c) w = (Inr (cc_id c), w)" using assms(11,13,14) by (simp add: read_inv)
  have l: "g_load_phase env t (cc_id c) w = (Inr c, w)" using g by (simp add: read_inv)
  let ?w1 = "w\<lparr>rx_audit := rx_audit w @ [ReadLookupSuccess code (cse_uuid_text (rv_challenges env) (cc_id c)) ip]\<rparr>"
  have s: "g_unexpired_phase t c w = (Inr (), w)" "g_rp_challenge_phase c w = (Inr (), w)"
    "g_response_phase env c ?w1 = (Inr (shown env c), ?w1)"
    using assms(3,7-10) by (simp_all add: read_inv challenge_validate_iff)
  have a: "g_audit [ReadLookupSuccess code (cse_uuid_text (rv_challenges env) (cc_id c)) ip] w = (Inr (), ?w1)"
    by (simp add: g_audit_run)
  have "get_challenge_by_short_code env t code ip w = (ByCode (shown env c), ?w1)"
    by (simp add: get_challenge_by_short_code_def finish_def andthen_def p q l s a ret_def)
  moreover have "\<exists>d. get_challenge_details env t (cc_id c) ?w1 = (Details d, ?w1) \<and>
      short_code_response.truncate d = shown env c \<and> dr_submit_secret d = cc_submit_secret c"
    by (rule details_of_undisturbed) (use assms in simp_all)
  moreover have "sr_challenge_id (shown env c) = cc_id c" by (simp add: shown_def)
  ultimately show ?thesis by metis
qed

subsection \<open>Witnesses\<close>

definition sample_read_env :: "challenge_store_env \<Rightarrow> read_env" where
  "sample_read_env ce = \<lparr>rv_api_base_url = ''https://verify.example'', rv_config_bound = True, rv_challenges = ce,
     rv_auth = sample_auth_env ''$argon2id$a''\<rparr>"

definition sample_read_clock :: read_clock where
  "sample_read_clock = \<lparr>rk_code = (\<lambda>_. KvValue (Some sample_id)), rk_get = (\<lambda>_. 5001000), rk_now = 5001\<rparr>"

definition sample_read_world :: "challenge_world \<Rightarrow> read_world" where
  "sample_read_world cw = \<lparr>rx_challenges = cw, rx_auth = sample_auth_world, rx_audit = []\<rparr>"

lemma poll_options_outside_sandbox:
  "ae_environment env \<noteq> ''sandbox'' \<Longrightarrow>
     authenticate_api_key env origin key (poll_auth_options owner) = authenticate_api_key env origin key sample_auth_opts"
proof -
  assume e: "ae_environment env \<noteq> ''sandbox''"
  have "resolve_origin env origin owner w = resolve_origin env origin None w" for w
    using e by (auto simp: resolve_origin_def split: option.split prod.split sum.split)
  then show ?thesis
    by (intro ext) (simp add: authenticate_api_key_def extract_id_def poll_auth_options_def sample_auth_opts_def)
qed

lemma sample_created_facts:
  "cc_id sample_created = replicate 16 1" "cc_state sample_created = Pending" "length (cc_submit_secret sample_created) = 32"
  "challenge_validate sample_created = Inr ()" "cc_expires_at sample_created = 5120" "cc_client_id sample_created = Some ''rp_a''"
  "CUTOFF_MIN \<le> cc_cutoff_days sample_created" "cc_cutoff_days sample_created \<le> CUTOFF_MAX" "0 < cc_verifying_key_id sample_created"
  by (simp_all add: sample_created_def new_challenge_def challenge_validate_iff sample_create_clock_def sample_create_request_def
      sample_create_env_def sample_rp_client_def challenge_ttl_def clamp_ttl_def MIN_CHALLENGE_TTL_def MAX_CHALLENGE_TTL_def
      sample_policy_def origin_policy_default_def sat_add_def CUTOFF_MIN_def CUTOFF_MAX_def min_def)

lemma sample_read_simps [simp]:
  "rv_challenges (sample_read_env ce) = ce" "rv_config_bound (sample_read_env ce)" "rk_now sample_read_clock = 5001"
  "rk_code sample_read_clock k = KvValue (Some sample_id)" "now_secs (rk_get sample_read_clock n) = 5001"
  "rx_challenges (sample_read_world cw) = cw" "rx_auth (sample_read_world cw) = sample_auth_world"
  "rv_auth (sample_read_env ce) = sample_auth_env ''$argon2id$a''"
  "de_parse_challenge created_env b = Inr sample_created" "de_parse_uuid created_env s = Some (replicate 16 1)"
  by (simp_all add: sample_read_env_def sample_read_clock_def sample_read_world_def now_secs_def secs_of_millis_def created_env_def
      ready_env_def)

text \<open>Created, typed in as a short code and opened.\<close>

lemma short_code_gives_secret_witness:
  "\<exists>r s w' r' w1 d w2. create_challenge_route (sample_create_env created_env) sample_create_clock sample_create_headers
     sample_create_request sample_create_world = (Created r s, w') \<and>
   get_challenge_by_short_code (sample_read_env created_env) sample_read_clock (cc_short_code sample_created) ''192.0.2.1''
     (sample_read_world (xw_challenges w')) = (ByCode r', w1) \<and>
   get_challenge_details (sample_read_env created_env) sample_read_clock (sr_challenge_id r') w1 = (Details d, w2) \<and>
   dr_submit_secret d = replicate 32 8"
proof -
  obtain r s w' where c: "create_challenge_route (sample_create_env created_env) sample_create_clock sample_create_headers
     sample_create_request sample_create_world = (Created r s, w')"
    "undisturbed created_env (replicate 16 1) sample_created (xw_challenges w')" using sample_creation by blast
  have "cc_short_code sample_created = generate_short_code_from_uuid (replicate 16 1)" by (rule created_laws(2))
  then have n: "short_code_new (cc_short_code sample_created) = Inr (cc_short_code sample_created)"
    by (simp add: short_code_roundtrip)
  have "cc_submit_secret sample_created = replicate 32 8" by (simp add: sample_created_def new_challenge_def)
  with short_code_gives_secret[of "sample_read_env created_env" sample_created "sample_read_world (xw_challenges w')"
      sample_read_clock "cc_short_code sample_created" sample_id "''192.0.2.1''"] n c(2)
  have "\<exists>r' w1 d w2. get_challenge_by_short_code (sample_read_env created_env) sample_read_clock (cc_short_code sample_created) ''192.0.2.1''
     (sample_read_world (xw_challenges w')) = (ByCode r', w1) \<and>
   get_challenge_details (sample_read_env created_env) sample_read_clock (sr_challenge_id r') w1 = (Details d, w2) \<and>
   dr_submit_secret d = replicate 32 8"
    by (simp add: sample_created_facts) blast
  with c(1) show ?thesis by blast
qed

lemma poll_owner_only_witness:
  "\<exists>cw w'. poll_challenge (sample_read_env created_env) sample_read_clock sample_headers (replicate 16 1) (sample_read_world cw) =
     (Status (status_of sample_created), w') \<and> cc_client_id sample_created = Some ''rp_a''"
proof -
  let ?e = "sample_read_env created_env" and ?t = sample_read_clock and ?h = sample_headers
  obtain cw where u: "undisturbed created_env (replicate 16 1) sample_created cw" using sample_creation by blast
  let ?w = "sample_read_world cw"
  have l: "g_load_phase ?e ?t (replicate 16 1) ?w = (Inr sample_created, ?w)"
    using undisturbed_get[where clk = "rk_get ?t", OF u] by (simp add: read_inv sample_created_facts)
  from sample_authenticates obtain r a where "authenticate_api_key (sample_auth_env ''$argon2id$a'') (Some ''https://rp.example'')
      (Some ''pk_live_0'') sample_auth_opts sample_auth_world = (r, a)" "ar_client_id r = Some ''rp_a''" by blast
  then obtain w1 where p: "g_poll_auth_phase ?e ?h sample_created ?w = (Inr ''rp_a'', w1)"
    by (simp add: g_poll_auth_ok poll_options_outside_sandbox sample_auth_env_def[of "''$argon2id$a''"] sample_headers_def)
  have q: "g_owner_phase ?h sample_created ''rp_a'' w1 = (Inr (), w1)" "g_gone_phase ?t sample_created w1 = (Inr (), w1)"
    by (simp_all add: read_inv sample_created_facts)
  obtain w' where "poll_challenge ?e ?t ?h (replicate 16 1) ?w = (Status (status_of sample_created), w')"
    by (simp add: poll_challenge_def finish_def andthen_def l p q append_to_def ret_def)
  with poll_owner_only[OF this] show ?thesis by (simp add: sample_created_facts) blast
qed

end
