(* ===== verification/Crypto_Logic.thy ===== *)
theory Crypto_Logic imports Validation begin

text \<open>
  The pure-logic crate \<open>crates/verifier-logic\<close>: PKCE verification, the HMAC of the docs
  gateway, session binding and WebSocket tickets.  SHA-256, HMAC-SHA-256 and the hex and
  base64url codings are arguments, collected in a \<open>crypto_env\<close>.
\<close>

record crypto_env =
  ce_s256 :: "string \<Rightarrow> string"
  ce_hmac :: "bytes \<Rightarrow> bytes \<Rightarrow> bytes option"
  ce_hex :: "bytes \<Rightarrow> string"
  ce_unhex :: "string \<Rightarrow> bytes option"
  ce_b64url :: "bytes \<Rightarrow> string"

subsection \<open>Errors of the crate\<close>

datatype logic_error =
    HmacKeyRejected | InvalidHex | HmacMismatch | MissingInput | MalformedInput | SessionBindingMismatch

fun logic_error_text :: "logic_error \<Rightarrow> string" where
  "logic_error_text HmacKeyRejected = ''HMAC key rejected''"
| "logic_error_text InvalidHex = ''invalid hex encoding''"
| "logic_error_text HmacMismatch = ''HMAC tag mismatch''"
| "logic_error_text MissingInput = ''required input missing''"
| "logic_error_text MalformedInput = ''malformed input''"
| "logic_error_text SessionBindingMismatch = ''session binding mismatch''"

definition api_error_of_logic :: "logic_error \<Rightarrow> api_error" where
  "api_error_of_logic e =
     (case e of
        SessionBindingMismatch \<Rightarrow> Forbidden (Some ''Session binding mismatch'')
      | HmacKeyRejected \<Rightarrow> Internal ''HMAC key rejected''
      | other \<Rightarrow> Internal (logic_error_text other))"

subsection \<open>PKCE\<close>

datatype pkce_error =
    InvalidVerifierFormat string
  | InvalidChallengeFormat string
  | VerificationFailed
  | InvalidVerifierLength nat
  | Base64DecodingFailed string

datatype challenge_method = S256

definition verifier_char :: "nat \<Rightarrow> bool" where
  "verifier_char c \<longleftrightarrow> (65 \<le> c \<and> c \<le> 90) \<or> (97 \<le> c \<and> c \<le> 122) \<or> (48 \<le> c \<and> c \<le> 57) \<or>
     c = 45 \<or> c = 46 \<or> c = 95 \<or> c = 126"

text \<open>The text of the error quotes the offending character.\<close>

definition validate_verifier :: "string \<Rightarrow> pkce_error + unit" where
  "validate_verifier verifier =
     (if length verifier < 43 then Inl (InvalidVerifierLength (length verifier))
      else if length verifier > 128 then Inl (InvalidVerifierLength (length verifier))
      else case find (\<lambda>c. \<not> verifier_char c) (utf8_chars verifier) of
             None \<Rightarrow> Inr ()
           | Some c \<Rightarrow> Inl (InvalidVerifierFormat (''Invalid character: '' @ [CHR 0x27] @ utf8_char_bytes c @ [CHR 0x27])))"

definition generate_challenge :: "crypto_env \<Rightarrow> string \<Rightarrow> pkce_error + string" where
  "generate_challenge env verifier =
     (case validate_verifier verifier of Inl e \<Rightarrow> Inl e | Inr _ \<Rightarrow> Inr (ce_s256 env verifier))"

definition verify_challenge :: "crypto_env \<Rightarrow> string \<Rightarrow> string \<Rightarrow> challenge_method \<Rightarrow> pkce_error + unit" where
  "verify_challenge env verifier challenge m =
     (case validate_verifier verifier of
        Inl e \<Rightarrow> Inl e
      | Inr _ \<Rightarrow>
          if challenge = [] then Inl (InvalidChallengeFormat ''Challenge cannot be empty'')
          else case (case m of S256 \<Rightarrow> generate_challenge env verifier) of
                 Inl e \<Rightarrow> Inl e
               | Inr computed \<Rightarrow>
                   if computed = challenge then Inr () else Inl VerificationFailed)"

subsection \<open>The HMAC of the docs gateway\<close>

datatype docs_hmac_check = Hmac_Ok | MissingHeader | MalformedHeader | Mismatch

definition verify_or_reject_hmac_key :: "bytes option \<Rightarrow> docs_hmac_check + bytes" where
  "verify_or_reject_hmac_key cached =
     (case cached of
        Some k \<Rightarrow> if k \<noteq> [] then Inr k else Inl MissingHeader
      | None \<Rightarrow> Inl MissingHeader)"

definition verify_docs_hmac :: "crypto_env \<Rightarrow> string option \<Rightarrow> bytes \<Rightarrow> bytes \<Rightarrow> docs_hmac_check" where
  "verify_docs_hmac env header_value body key =
     (case header_value of
        None \<Rightarrow> MissingHeader
      | Some header \<Rightarrow>
          if header = [] then MissingHeader
          else case ce_unhex env header of
                 None \<Rightarrow> MalformedHeader
               | Some supplied_tag \<Rightarrow>
                   if key = [] then Mismatch
                   else case ce_hmac env key body of
                          None \<Rightarrow> Mismatch
                        | Some tag \<Rightarrow> if tag = supplied_tag then Hmac_Ok else Mismatch)"

subsection \<open>Session binding\<close>

datatype session_binding_mode = Strict | Relaxed | NoBinding
datatype binding_outcome = Binding_Ok | IpMismatchRelaxed | UaMismatchRelaxed

definition hash_with_salt :: "crypto_env \<Rightarrow> string \<Rightarrow> string \<Rightarrow> string \<Rightarrow> logic_error + string" where
  "hash_with_salt env input salt domain =
     (case ce_hmac env (string_bytes salt) (string_bytes domain @ string_bytes input) of
        None \<Rightarrow> Inl HmacKeyRejected
      | Some tag \<Rightarrow> Inr (ce_hex env tag))"

text \<open>
  One of the two comparisons: \<open>None\<close> lets the verification go on, \<open>Some r\<close> is the function's
  early return.
\<close>

definition check_hash ::
    "crypto_env \<Rightarrow> string \<Rightarrow> string \<Rightarrow> string \<Rightarrow> string \<Rightarrow> session_binding_mode \<Rightarrow> binding_outcome \<Rightarrow>
     (logic_error + binding_outcome) option" where
  "check_hash env input salt domain expected mode relaxed =
     (case hash_with_salt env input salt domain of
        Inl e \<Rightarrow> Some (Inl e)
      | Inr computed \<Rightarrow>
          if computed = expected then None
          else case mode of
                 Strict \<Rightarrow> Some (Inl SessionBindingMismatch)
               | Relaxed \<Rightarrow> Some (Inr relaxed)
               | NoBinding \<Rightarrow> None)"

definition verify_session_binding ::
    "crypto_env \<Rightarrow> string \<Rightarrow> string option \<Rightarrow> string option \<Rightarrow> string option \<Rightarrow> string \<Rightarrow>
     session_binding_mode \<Rightarrow> logic_error + binding_outcome" where
  "verify_session_binding env current_ip current_ua stored_ip_hash stored_ua_hash salt mode =
     (if mode = NoBinding then Inr Binding_Ok
      else case (case stored_ip_hash of
                   None \<Rightarrow> None
                 | Some h \<Rightarrow> check_hash env current_ip salt ''provii-ip-v0'' h mode IpMismatchRelaxed) of
             Some r \<Rightarrow> r
           | None \<Rightarrow>
               (case (case (stored_ua_hash, current_ua) of
                        (Some h, Some ua) \<Rightarrow> check_hash env ua salt ''provii-ua-v0'' h mode UaMismatchRelaxed
                      | _ \<Rightarrow> None) of
                  Some r \<Rightarrow> r
                | None \<Rightarrow> Inr Binding_Ok))"

text \<open>The wrapper of \<open>src/hosted/session_binding.rs\<close>.\<close>

definition hosted_verify_session_binding ::
    "crypto_env \<Rightarrow> string \<Rightarrow> string option \<Rightarrow> string option \<Rightarrow> string option \<Rightarrow> string \<Rightarrow>
     session_binding_mode \<Rightarrow> binding_outcome api_result" where
  "hosted_verify_session_binding env ip ua ip_hash ua_hash salt mode =
     (case verify_session_binding env ip ua ip_hash ua_hash salt mode of
        Inl e \<Rightarrow> Inl (api_error_of_logic e) | Inr r \<Rightarrow> Inr r)"

subsection \<open>WebSocket tickets\<close>

definition ws_ticket_preimage :: "string \<Rightarrow> u64 \<Rightarrow> bytes" where
  "ws_ticket_preimage session_id expires_at =
     string_bytes ''provii-ws-ticket-v1'' @ le_bytes 4 (length session_id) @
     string_bytes session_id @ string_bytes (show_u64 expires_at)"

definition generate_ws_ticket :: "crypto_env \<Rightarrow> string \<Rightarrow> u64 \<Rightarrow> string \<Rightarrow> logic_error + string" where
  "generate_ws_ticket env session_id expires_at secret =
     (case ce_hmac env (string_bytes secret) (ws_ticket_preimage session_id expires_at) of
        None \<Rightarrow> Inl HmacKeyRejected
      | Some tag \<Rightarrow> if length session_id \<ge> 2 ^ 32 then Inl MalformedInput else Inr (ce_b64url env tag))"

definition validate_ws_ticket :: "crypto_env \<Rightarrow> string \<Rightarrow> string \<Rightarrow> u64 \<Rightarrow> string \<Rightarrow> logic_error + bool" where
  "validate_ws_ticket env ticket session_id expires_at secret =
     (case generate_ws_ticket env session_id expires_at secret of
        Inl e \<Rightarrow> Inl e
      | Inr expected \<Rightarrow> Inr (expected = ticket))"

subsection \<open>PKCE: lemmas and properties\<close>

lemma find_None_list_all: "find (\<lambda>x. \<not> P x) xs = None \<longleftrightarrow> list_all P xs"
  by (induction xs) auto

lemma verifier_char_small: "verifier_char c \<Longrightarrow> c < 128"
  by (auto simp: verifier_char_def)

lemma utf8_chars_verifier:
  "list_all verifier_char (utf8_chars s) \<longleftrightarrow> list_all (\<lambda>c. verifier_char (of_char c)) s"
proof (cases "ascii_only s")
  case True
  then show ?thesis by (simp add: utf8_chars_ascii list_all_iff)
next
  case False
  have "\<not> list_all verifier_char (utf8_chars s)" using False
  proof (induction s)
    case Nil
    then show ?case by (simp add: ascii_only_def)
  next
    case (Cons c cs)
    show ?case
    proof (cases "(of_char c :: nat) < 128")
      case True
      with Cons show ?thesis by (simp add: ascii_only_def)
    next
      case False
      then obtain x xs where "utf8_chars (c # cs) = x # xs" "128 \<le> x"
        using utf8_chars_nonascii[of c cs] by auto
      then show ?thesis using verifier_char_small[of x] by (auto simp del: utf8_chars.simps)
    qed
  qed
  moreover have "\<not> list_all (\<lambda>c. verifier_char (of_char c)) s"
    using False verifier_char_small by (auto simp: ascii_only_def list_all_iff)
  ultimately show ?thesis by simp
qed

lemma validate_verifier_iff:
  "validate_verifier v = Inr () \<longleftrightarrow>
     43 \<le> length v \<and> length v \<le> 128 \<and> list_all (\<lambda>c. verifier_char (of_char c)) v"
proof -
  have "find (\<lambda>c. \<not> verifier_char c) (utf8_chars v) = None \<longleftrightarrow> list_all (\<lambda>c. verifier_char (of_char c)) v"
    by (simp add: find_None_list_all utf8_chars_verifier)
  then show ?thesis
    by (auto simp: validate_verifier_def split: option.splits)
qed

text \<open>PKCE verification accepts exactly the RFC 7636 verifiers, 43 to 128 bytes of the
  unreserved characters, whose S256 transform is the non-empty challenge.\<close>

theorem pkce_accepts_exactly:
  "verify_challenge env v c S256 = Inr () \<longleftrightarrow>
     43 \<le> length v \<and> length v \<le> 128 \<and> list_all (\<lambda>c. verifier_char (of_char c)) v \<and>
     c \<noteq> [] \<and> ce_s256 env v = c"
  using validate_verifier_iff[of v]
  by (auto simp: verify_challenge_def generate_challenge_def split: sum.splits)

subsection \<open>Session binding and tickets: lemmas and properties\<close>

text \<open>In strict mode a session is accepted exactly when every stored binding is met: the
  salted hash of the address is the stored one, and so is that of the user agent when both are
  present; a relaxed mode never answers a mismatch error, it only reports one.\<close>

theorem session_binding_enforced:
  "((\<exists>r. verify_session_binding env ip ua ip_hash ua_hash salt Strict = Inr r) \<longleftrightarrow>
     (case ip_hash of None \<Rightarrow> True | Some h \<Rightarrow> hash_with_salt env ip salt ''provii-ip-v0'' = Inr h) \<and>
     (case (ua_hash, ua) of
        (Some h, Some a) \<Rightarrow> hash_with_salt env a salt ''provii-ua-v0'' = Inr h | _ \<Rightarrow> True)) \<and>
   verify_session_binding env ip ua ip_hash ua_hash salt Relaxed \<noteq> Inl SessionBindingMismatch"
proof -
  have h: "hash_with_salt env x salt d \<noteq> Inl SessionBindingMismatch" for x d
    by (simp add: hash_with_salt_def split: option.split)
  show ?thesis
    by (auto simp: verify_session_binding_def check_hash_def h
        split: option.splits sum.splits if_splits)
qed

lemma ws_ticket_preimage_inj:
  assumes "ws_ticket_preimage s e = ws_ticket_preimage s' e'" "length s < 2 ^ 32" "length s' < 2 ^ 32"
  shows "s = s' \<and> e = e'"
proof -
  have l: "length s = length s'"
    using assms le_bytes_inj[of "length s" 4 "length s'"] by (simp add: ws_ticket_preimage_def)
  with assms(1) have "string_bytes s @ string_bytes (show_u64 e) = string_bytes s' @ string_bytes (show_u64 e')"
    by (simp add: ws_ticket_preimage_def)
  moreover have "length (string_bytes s) = length (string_bytes s')"
    using l by (simp add: string_bytes_def)
  ultimately have "s = s'" "show_u64 e = show_u64 e'"
    by (simp_all add: string_bytes_inj)
  then show ?thesis by (simp add: show_nat_inj unsigned_word_eqI)
qed

text \<open>A WebSocket ticket is bound to its session and its expiry: if a ticket generated for
  one session and expiry validates for another, then the base64url texts of the HMAC tags of two
  different messages coincide, which are the two preimages.\<close>

theorem ws_ticket_bound:
  assumes "generate_ws_ticket env s e secret = Inr ticket"
    and "validate_ws_ticket env ticket s' e' secret = Inr True" and "(s, e) \<noteq> (s', e')"
  shows "ws_ticket_preimage s e \<noteq> ws_ticket_preimage s' e' \<and>
    map_option (ce_b64url env) (ce_hmac env (string_bytes secret) (ws_ticket_preimage s e)) =
    map_option (ce_b64url env) (ce_hmac env (string_bytes secret) (ws_ticket_preimage s' e'))"
  using assms ws_ticket_preimage_inj[of s e s' e']
  by (auto simp: generate_ws_ticket_def validate_ws_ticket_def split: option.splits if_splits sum.splits)

text \<open>An HMAC that only sees the first 32 bytes of a message, for which tickets collide.\<close>

definition truncating_env :: crypto_env where
  "truncating_env = \<lparr>ce_s256 = (\<lambda>s. s), ce_hmac = (\<lambda>k m. Some (take 32 m)), ce_hex = (\<lambda>b. []),
     ce_unhex = (\<lambda>s. None), ce_b64url = map (\<lambda>x. char_of (unat x))\<rparr>"

lemma ws_ticket_bound_witness:
  "ws_ticket_preimage ''session-a'' 1000 \<noteq> ws_ticket_preimage ''session-a'' 2000 \<and>
   take 32 (ws_ticket_preimage ''session-a'' 1000) = take 32 (ws_ticket_preimage ''session-a'' 2000)"
proof -
  let ?t = "map (\<lambda>x. char_of (unat x)) (take 32 (ws_ticket_preimage ''session-a'' 1000)) :: string"
  have e: "take 32 (ws_ticket_preimage ''session-a'' 1000) = take 32 (ws_ticket_preimage ''session-a'' 2000)"
    by (simp add: ws_ticket_preimage_def string_bytes_def)
  have g: "generate_ws_ticket truncating_env ''session-a'' 1000 ''k'' = Inr ?t"
    by (simp add: generate_ws_ticket_def truncating_env_def)
  have v: "validate_ws_ticket truncating_env ?t ''session-a'' 2000 ''k'' = Inr True"
    by (simp add: validate_ws_ticket_def generate_ws_ticket_def truncating_env_def e)
  from ws_ticket_bound[OF g v] e show ?thesis by simp
qed

end
