(* ===== verification/Session_Token.thy ===== *)
theory Session_Token imports Handler Crypto_Logic Secrets begin

text \<open>
  \<open>src/hosted/cookie.rs\<close>, \<open>src/hosted/endpoints/session_check.rs\<close>, \<open>csrf.rs\<close> and \<open>logout.rs\<close>:
  the session cookie, the signed token in it, its verification under the current and the previous
  secret, and the CSRF tokens signed with the same secret.  base64url, HMAC-SHA-256 and serde_json
  are arguments, collected in a \<open>token_env\<close>.
\<close>

subsection \<open>Cookies\<close>

datatype same_site_policy = Lax | SameSiteStrict | SameSiteNone

fun same_site_text :: "same_site_policy \<Rightarrow> string" where
  "same_site_text Lax = ''Lax''"
| "same_site_text SameSiteStrict = ''Strict''"
| "same_site_text SameSiteNone = ''None''"

record cookie_config =
  ck_name :: string
  ck_domain :: "string option"
  ck_path :: string
  ck_max_age :: u64
  ck_http_only :: bool
  ck_secure :: bool
  ck_same_site :: same_site_policy

definition cookie_config_default :: cookie_config where
  "cookie_config_default =
     \<lparr>ck_name = ''__Host-session'', ck_domain = None, ck_path = ''/'', ck_max_age = 86400,
      ck_http_only = True, ck_secure = True, ck_same_site = SameSiteNone\<rparr>"

text \<open>Visible ASCII without the quote, the comma, the semicolon and the backslash.\<close>

definition cookie_byte_safe :: "nat \<Rightarrow> bool" where
  "cookie_byte_safe b \<longleftrightarrow> b = 33 \<or> (35 \<le> b \<and> b \<le> 43) \<or> (45 \<le> b \<and> b \<le> 58) \<or>
     (60 \<le> b \<and> b \<le> 91) \<or> (93 \<le> b \<and> b \<le> 126)"

definition is_cookie_value_safe :: "string \<Rightarrow> bool" where
  "is_cookie_value_safe v = list_all (\<lambda>c. cookie_byte_safe (of_char c)) v"

text \<open>What a \<open>__Host-\<close> name forces.\<close>

definition host_fixed :: "cookie_config \<Rightarrow> cookie_config" where
  "host_fixed config =
     (if starts_with (ck_name config) ''__Host-'' then
        config\<lparr>ck_domain := (case ck_domain config of Some d \<Rightarrow> if d \<noteq> [] then None else Some d | None \<Rightarrow> None),
               ck_secure := True, ck_path := ''/''\<rparr>
      else config)"

fun join_parts :: "string list \<Rightarrow> string" where
  "join_parts [] = []"
| "join_parts [p] = p"
| "join_parts (p # q # ps) = p @ ''; '' @ join_parts (q # ps)"

definition generate_session_cookie :: "string \<Rightarrow> cookie_config \<Rightarrow> string" where
  "generate_session_cookie token config =
     (if \<not> is_cookie_value_safe token then
        ck_name config @ ''=invalid; Path=/; Max-Age=0; HttpOnly; Secure; SameSite=None''
      else let c = host_fixed config in
        join_parts (
          [ck_name c @ ''='' @ token] @
          (case ck_domain c of Some d \<Rightarrow> if d \<noteq> [] then [''Domain='' @ d] else [] | None \<Rightarrow> []) @
          [''Path='' @ ck_path c, ''Max-Age='' @ show_u64 (ck_max_age c)] @
          (if ck_http_only c then [''HttpOnly''] else []) @
          (if ck_secure c then [''Secure''] else []) @
          [''SameSite='' @ same_site_text (ck_same_site c)]))"

text \<open>\<open>parse_cookie\<close> of \<open>cookie.rs\<close>.\<close>

fun first_cookie :: "string list \<Rightarrow> string \<Rightarrow> string option" where
  "first_cookie [] name = None"
| "first_cookie (part # parts) name =
     (case split_once (trim part) ''='' of
        Some (key, v) \<Rightarrow> if key = name then Some v else first_cookie parts name
      | None \<Rightarrow> first_cookie parts name)"

definition parse_cookie :: "string \<Rightarrow> string \<Rightarrow> string option" where
  "parse_cookie cookie_header name = first_cookie (split_on (CHR '';'') cookie_header) name"

text \<open>\<open>parse_cookie\<close> of \<open>session_check.rs\<close>.\<close>

fun session_first_cookie :: "string list \<Rightarrow> string \<Rightarrow> string option" where
  "session_first_cookie [] name = None"
| "session_first_cookie (pair # pairs) name =
     (case strip_prefix (trim pair) name of
        Some v \<Rightarrow>
          (case strip_prefix (trim_start v) ''='' of
             Some v' \<Rightarrow> Some (trim v')
           | None \<Rightarrow> session_first_cookie pairs name)
      | None \<Rightarrow> session_first_cookie pairs name)"

definition session_parse_cookie :: "string \<Rightarrow> string \<Rightarrow> string option" where
  "session_parse_cookie cookie_header name = session_first_cookie (split_on (CHR '';'') cookie_header) name"

subsection \<open>Signed tokens\<close>

record session_data =
  sd_session_id :: string
  sd_origin :: string
  sd_exp :: u64

text \<open>
  \<open>te_decode\<close> is the decoding of base64url text, \<open>te_hmac\<close> answers no tag for a key that
  \<open>new_from_slice\<close> rejects, and \<open>te_utf8\<close> is \<open>str::from_utf8\<close>.
\<close>

record token_env =
  te_encode :: "bytes \<Rightarrow> string"
  te_decode :: "string \<Rightarrow> bytes option"
  te_hmac :: "bytes \<Rightarrow> bytes \<Rightarrow> bytes option"
  te_json :: "session_data \<Rightarrow> string"
  te_parse :: "bytes \<Rightarrow> session_data option"
  te_utf8 :: "bytes \<Rightarrow> string option"

text \<open>The signing half, inlined in \<open>src/hosted/endpoints/redeem.rs\<close>.\<close>

definition signing_key_bytes :: "token_env \<Rightarrow> string \<Rightarrow> bytes" where
  "signing_key_bytes env secret = (case te_decode env secret of Some b \<Rightarrow> b | None \<Rightarrow> string_bytes secret)"

definition sign_token :: "token_env \<Rightarrow> string \<Rightarrow> session_data \<Rightarrow> string option" where
  "sign_token env secret d =
     (let payload_b64 = te_encode env (string_bytes (te_json env d)) in
      case te_hmac env (signing_key_bytes env secret) (string_bytes payload_b64) of
        None \<Rightarrow> None
      | Some sig \<Rightarrow> Some (payload_b64 @ ''.'' @ te_encode env sig))"

definition verify_token :: "token_env \<Rightarrow> u64 \<Rightarrow> string \<Rightarrow> string \<Rightarrow> string \<Rightarrow> session_data option" where
  "verify_token env now token origin secret =
     (case split_once token ''.'' of
        None \<Rightarrow> None
      | Some (data_b64, sig_b64) \<Rightarrow>
          if CHR ''.'' \<in> set sig_b64 then None
          else case te_decode env sig_b64 of
            None \<Rightarrow> None
          | Some provided_sig \<Rightarrow>
              (case te_decode env secret of
                 None \<Rightarrow> None
               | Some secret_bytes \<Rightarrow>
                   (case te_hmac env secret_bytes (string_bytes data_b64) of
                      None \<Rightarrow> None
                    | Some tag \<Rightarrow>
                        if tag \<noteq> provided_sig then None
                        else case te_decode env data_b64 of
                          None \<Rightarrow> None
                        | Some json_data \<Rightarrow>
                            (case te_parse env json_data of
                               None \<Rightarrow> None
                             | Some d \<Rightarrow>
                                 if now > sd_exp d then None
                                 else if sd_origin d \<noteq> origin then None
                                 else if sd_session_id d = [] then None
                                 else Some d))))"

definition verify_token_with_fallback ::
    "token_env \<Rightarrow> u64 \<Rightarrow> u64 \<Rightarrow> string \<Rightarrow> string \<Rightarrow> string \<Rightarrow> string option \<Rightarrow>
     (session_data \<times> rotation_slot) option" where
  "verify_token_with_fallback env now now' token origin primary_secret previous_secret =
     (case verify_token env now token origin primary_secret of
        Some d \<Rightarrow> Some (d, Current)
      | None \<Rightarrow>
          (case previous_secret of
             None \<Rightarrow> None
           | Some prev \<Rightarrow> map_option (\<lambda>d. (d, Previous)) (verify_token env now' token origin prev)))"

subsection \<open>The session check\<close>

record session_check_config =
  sc_secret :: string
  sc_secret_previous :: "string option"
  sc_cookie_name :: string

text \<open>The label and the fingerprints of the secret, kept in the application state.\<close>

record token_labels =
  tl_role :: string
  tl_fingerprint :: string
  tl_fingerprint_previous :: string

record session_check_response =
  cr_verified :: bool
  cr_session :: "(string \<times> u64) option"

definition check_not_verified :: session_check_response where
  "check_not_verified = \<lparr>cr_verified = False, cr_session = None\<rparr>"

definition check_verified :: "string \<Rightarrow> u64 \<Rightarrow> session_check_response" where
  "check_verified session_id expires_at =
     (if session_id = [] then check_not_verified
      else \<lparr>cr_verified = True, cr_session = Some (session_id, expires_at)\<rparr>)"

datatype token_audit =
    TokenSuspicious string string
  | TokenAuthFailure string string string
  | CsrfValidationFailed string string string string

text \<open>The response with its \<open>x-secret-version\<close> header, and the calls of the audit logger.\<close>

definition handle_hosted_session_check ::
    "token_env \<Rightarrow> token_labels \<Rightarrow> u64 \<Rightarrow> u64 \<Rightarrow> string option \<Rightarrow> string option \<Rightarrow> session_check_config \<Rightarrow> string \<Rightarrow>
     session_check_response \<times> string option \<times> token_audit list" where
  "handle_hosted_session_check env labels now now' connecting_ip cookie config origin =
     (let client_ip = (case connecting_ip of Some ip \<Rightarrow> ip | None \<Rightarrow> ''unknown'');
          line = (\<lambda>slot. header_value (single_for_slot (tl_role labels) (tl_fingerprint labels)
                            (tl_fingerprint_previous labels) slot))
      in case cookie of
           None \<Rightarrow> (check_not_verified, None, [])
         | Some cookie_header \<Rightarrow>
             (case session_parse_cookie cookie_header (sc_cookie_name config) of
                None \<Rightarrow> (check_not_verified, None, [])
              | Some session_token \<Rightarrow>
                  (case verify_token_with_fallback env now now' session_token origin (sc_secret config)
                          (sc_secret_previous config) of
                     Some (d, slot) \<Rightarrow>
                       (check_verified (sd_session_id d) (sd_exp d), Some (line (Some slot)),
                        [TokenSuspicious client_ip ''hosted_session_check:success''])
                   | None \<Rightarrow>
                       (check_not_verified, Some (line None),
                        [TokenAuthFailure client_ip ''hosted_session_check:token_invalid'' origin]))))"

text \<open>The route in \<open>src/worker_routes.rs\<close>, after its rate limit: the configuration, or a 503.\<close>

definition session_cookie_name :: "string option \<Rightarrow> string" where
  "session_cookie_name var = (case var of Some v \<Rightarrow> v | None \<Rightarrow> ''__Host-session'')"

definition session_check_config_of ::
    "string option \<Rightarrow> string option \<Rightarrow> string option \<Rightarrow> session_check_config option" where
  "session_check_config_of cookie_var secret previous =
     (case secret of
        None \<Rightarrow> None
      | Some s \<Rightarrow> Some \<lparr>sc_secret = s, sc_secret_previous = previous, sc_cookie_name = session_cookie_name cookie_var\<rparr>)"

text \<open>The logout only expires the cookie; the token in it stays valid.\<close>

record logout_response =
  lo_status :: string
  lo_message :: string
  lo_set_cookie :: string
  lo_clear_site_data :: string

definition handle_hosted_logout :: "string \<Rightarrow> logout_response" where
  "handle_hosted_logout cookie_name =
     \<lparr>lo_status = ''logged_out'', lo_message = ''Successfully logged out'',
      lo_set_cookie = generate_session_cookie [] (cookie_config_default\<lparr>ck_name := cookie_name, ck_max_age := 0\<rparr>),
      lo_clear_site_data = quoted ''cache'' @ '', '' @ quoted ''cookies'' @ '', '' @ quoted ''storage''\<rparr>"

subsection \<open>CSRF tokens\<close>

definition CSRF_HEADER_NAME :: string where "CSRF_HEADER_NAME = ''X-CSRF-Token''"
definition CSRF_TOKEN_EXPIRATION :: u64 where "CSRF_TOKEN_EXPIRATION = 3600"

datatype csrf_error = CsrfMissing | CsrfInvalidFormat | CsrfInvalidSignature | CsrfExpired | CsrfSessionMismatch

fun csrf_failure_reason :: "csrf_error \<Rightarrow> string" where
  "csrf_failure_reason CsrfMissing = ''missing_token''"
| "csrf_failure_reason CsrfInvalidFormat = ''invalid_format''"
| "csrf_failure_reason CsrfInvalidSignature = ''invalid_signature''"
| "csrf_failure_reason CsrfExpired = ''token_expired''"
| "csrf_failure_reason CsrfSessionMismatch = ''session_mismatch''"

definition csrf_key_error :: api_error where
  "csrf_key_error = Internal ''Invalid CSRF signing key length''"

definition session_hash_prefix :: "token_env \<Rightarrow> string \<Rightarrow> bytes \<Rightarrow> string api_result" where
  "session_hash_prefix env session_id signing_key =
     (case te_hmac env signing_key (string_bytes session_id) of
        None \<Rightarrow> Inl csrf_key_error
      | Some session_hash \<Rightarrow>
          Inr (te_encode env (if length session_hash < 16 then session_hash else take 16 session_hash)))"

definition generate_csrf_token ::
    "token_env \<Rightarrow> u64 \<Rightarrow> string \<Rightarrow> bytes \<Rightarrow> u64 \<Rightarrow> (string \<times> u64) api_result" where
  "generate_csrf_token env now session_id signing_key ttl =
     (case te_hmac env signing_key (string_bytes session_id) of
        None \<Rightarrow> Inl csrf_key_error
      | Some session_hash \<Rightarrow>
          (let session_hash_b64 = te_encode env (if length session_hash < 16 then session_hash else take 16 session_hash);
               payload_b64 = te_encode env (string_bytes (show_u64 now @ '':'' @ session_hash_b64))
           in case te_hmac env signing_key (string_bytes payload_b64) of
                None \<Rightarrow> Inl csrf_key_error
              | Some sig \<Rightarrow> Inr (payload_b64 @ ''.'' @ te_encode env sig, sat_add now ttl)))"

definition validate_csrf_token ::
    "token_env \<Rightarrow> u64 \<Rightarrow> string \<Rightarrow> string \<Rightarrow> bytes \<Rightarrow> u64 \<Rightarrow> csrf_error + unit" where
  "validate_csrf_token env now token expected_session_id signing_key max_age_seconds =
     (if token = [] then Inl CsrfMissing
      else case split_once token ''.'' of
        None \<Rightarrow> Inl CsrfInvalidFormat
      | Some (payload_b64, sig_b64) \<Rightarrow>
          if payload_b64 = [] \<or> sig_b64 = [] then Inl CsrfInvalidFormat
          else case te_hmac env signing_key (string_bytes payload_b64) of
            None \<Rightarrow> Inl CsrfInvalidFormat
          | Some expected_sig \<Rightarrow>
              if sig_b64 \<noteq> te_encode env expected_sig then Inl CsrfInvalidSignature
              else case te_decode env payload_b64 of
                None \<Rightarrow> Inl CsrfInvalidFormat
              | Some payload_bytes \<Rightarrow>
                  (case te_utf8 env payload_bytes of
                     None \<Rightarrow> Inl CsrfInvalidFormat
                   | Some payload_str \<Rightarrow>
                       (case split_once payload_str '':'' of
                          None \<Rightarrow> Inl CsrfInvalidFormat
                        | Some (ts_str, session_hash_from_token) \<Rightarrow>
                            (case parse_unsigned (2 ^ 64) ts_str of
                               None \<Rightarrow> Inl CsrfInvalidFormat
                             | Some ts \<Rightarrow>
                                 if sat_sub now (of_nat ts) > max_age_seconds then Inl CsrfExpired
                                 else case session_hash_prefix env expected_session_id signing_key of
                                   Inl _ \<Rightarrow> Inl CsrfInvalidFormat
                                 | Inr expected_session_hash \<Rightarrow>
                                     if session_hash_from_token \<noteq> expected_session_hash then Inl CsrfSessionMismatch
                                     else Inr ()))))"

record csrf_token_response =
  ct_token :: string
  ct_expires_at :: u64
  ct_expires_in :: u64

definition handle_csrf_token_generation ::
    "token_env \<Rightarrow> u64 \<Rightarrow> string \<Rightarrow> string \<Rightarrow> u64 \<Rightarrow> csrf_token_response api_result" where
  "handle_csrf_token_generation env now session_id signing_key ttl =
     (case te_decode env signing_key of
        None \<Rightarrow> Inl (ServiceUnavailable None)
      | Some key_bytes \<Rightarrow>
          (case generate_csrf_token env now session_id key_bytes ttl of
             Inl _ \<Rightarrow> Inl (ServiceUnavailable None)
           | Inr (token, expires_at) \<Rightarrow>
               Inr \<lparr>ct_token = token, ct_expires_at = expires_at, ct_expires_in = ttl\<rparr>))"

definition handle_anonymous_csrf_token :: "token_env \<Rightarrow> u64 \<Rightarrow> string \<Rightarrow> u64 \<Rightarrow> csrf_token_response api_result" where
  "handle_anonymous_csrf_token env now signing_key ttl =
     handle_csrf_token_generation env now ''anonymous'' signing_key ttl"

text \<open>
  \<open>enforce_hosted_csrf\<close> of \<open>src/worker_routes.rs\<close>: the response that refuses the request, and the
  call of the audit logger, in the background or inline.
\<close>

datatype csrf_rejection = CsrfForbidden api_error | CsrfUnavailable string nat

definition csrf_forbidden_error :: api_error where
  "csrf_forbidden_error = forbidden_with_field ''CSRF_INVALID'' CSRF_HEADER_NAME ''Session-bound CSRF token required''"

definition enforce_hosted_csrf ::
    "token_env \<Rightarrow> u64 \<Rightarrow> string option \<Rightarrow> string option \<Rightarrow> string option \<Rightarrow> string \<Rightarrow> string \<Rightarrow>
     (csrf_rejection + unit) \<times> token_audit list" where
  "enforce_hosted_csrf env now connecting_ip csrf_header secret expected_session_id endpoint =
     (let client_ip = (case connecting_ip of Some ip \<Rightarrow> ip | None \<Rightarrow> ''unknown'');
          failed = (\<lambda>reason. [CsrfValidationFailed client_ip endpoint expected_session_id reason]);
          unavailable = (Inl (CsrfUnavailable ''Service temporarily unavailable'' 503), failed ''signing_key_unavailable'')
      in if csrf_header = None \<or> csrf_header = Some [] then (Inl (CsrfForbidden csrf_forbidden_error), failed ''missing_token'')
         else case secret of
           None \<Rightarrow> unavailable
         | Some signing_key \<Rightarrow>
             (case te_decode env signing_key of
                None \<Rightarrow> unavailable
              | Some key_bytes \<Rightarrow>
                  (case validate_csrf_token env now (the csrf_header) expected_session_id key_bytes CSRF_TOKEN_EXPIRATION of
                     Inr _ \<Rightarrow> (Inr (), [])
                   | Inl reason \<Rightarrow>
                       (Inl (CsrfForbidden csrf_forbidden_error), failed (csrf_failure_reason reason)))))"

subsection \<open>Characters\<close>

text \<open>The characters of a cookie value, and those of base64url text.\<close>

lemma cookie_byte_facts:
  assumes "cookie_byte_safe (of_char c)"
  shows "(of_char c :: nat) < 128" "\<not> is_whitespace (of_char c)" "c \<noteq> CHR '';''"
  using assms by (auto simp: cookie_byte_safe_def is_whitespace_def)

definition url_safe_char :: "char \<Rightarrow> bool" where
  "url_safe_char c \<longleftrightarrow> is_ascii_alphanumeric (of_char c) \<or> c = CHR ''-'' \<or> c = CHR ''_''"

lemma url_safe_cookie: "url_safe_char c \<Longrightarrow> cookie_byte_safe (of_char c)"
  by (auto simp: url_safe_char_def is_ascii_alphanumeric_def is_ascii_digit_def cookie_byte_safe_def)

lemma url_safe_not:
  assumes "url_safe_char c"
  shows "c \<noteq> CHR ''.''" "c \<noteq> CHR '':''"
  using assms by (auto simp: url_safe_char_def is_ascii_alphanumeric_def is_ascii_digit_def)

text \<open>A pair of a safe name and a safe value is found, whatever precedes it.\<close>

lemma cookie_pair_trimmed:
  assumes "is_cookie_value_safe name" "is_cookie_value_safe v" "name \<noteq> []"
  shows "trim (name @ ''='' @ v) = name @ ''='' @ v" "trim ('' '' @ name @ ''='' @ v) = name @ ''='' @ v"
    "CHR '';'' \<notin> set (name @ ''='' @ v)" "trim v = v"
proof -
  obtain c r where n: "name = c # r" using assms(3) by (cases name) auto
  have safe: "list_all (\<lambda>c. cookie_byte_safe (of_char c)) (name @ ''='' @ v)"
    using assms(1,2) by (simp add: is_cookie_value_safe_def cookie_byte_safe_def)
  have asc: "ascii_only s" if "list_all (\<lambda>c. cookie_byte_safe (of_char c)) s" for s
    using that by (auto simp: ascii_only_def list_all_iff dest: cookie_byte_facts(1))
  have last: "\<not> is_whitespace (of_char (last s))" if "list_all (\<lambda>c. cookie_byte_safe (of_char c)) s" "s \<noteq> []" for s
    using that by (auto simp: list_all_iff dest: cookie_byte_facts(2))
  have st: "trim_start s = s" if "list_all (\<lambda>c. cookie_byte_safe (of_char c)) s" for s
    using that cookie_byte_facts[of "hd s"] by (cases s) (auto simp: trim_start_kept trim_start.simps[of "[]"])
  have te: "trim_end s = s" if "list_all (\<lambda>c. cookie_byte_safe (of_char c)) s" for s
    using that asc[OF that] last[OF that] by (cases "s = []") (auto simp: trim_end_kept trim_end.simps[of "[]"])
  show "trim (name @ ''='' @ v) = name @ ''='' @ v" by (simp only: trim_def st[OF safe] te[OF safe])
  show "trim ('' '' @ name @ ''='' @ v) = name @ ''='' @ v"
    using st[OF safe] te[OF safe] by (simp add: trim_def trim_start_space)
  show "CHR '';'' \<notin> set (name @ ''='' @ v)" using safe by (auto simp: list_all_iff dest: cookie_byte_facts(3))
  show "trim v = v" using assms(2) st te by (simp add: trim_def is_cookie_value_safe_def)
qed

lemma session_first_cookie_append:
  "session_first_cookie (ps @ qs) name =
     (case session_first_cookie ps name of Some v \<Rightarrow> Some v | None \<Rightarrow> session_first_cookie qs name)"
  by (induction ps) (auto split: option.splits)

lemma session_cookie_found:
  assumes "is_cookie_value_safe name" "is_cookie_value_safe v" "name \<noteq> []" "session_parse_cookie others name = None"
  shows "session_parse_cookie (others @ ''; '' @ name @ ''='' @ v) name = Some v"
proof -
  note p = cookie_pair_trimmed[OF assms(1-3)]
  have "split_on (CHR '';'') (others @ ''; '' @ name @ ''='' @ v) =
      split_on (CHR '';'') others @ ['' '' @ name @ ''='' @ v]"
    using split_on_append_any[of "CHR '';''" others "'' '' @ name @ ''='' @ v"]
      split_on_no_sep[of "CHR '';''" "'' '' @ name @ ''='' @ v"] p(3) by simp
  moreover have "trim_start (''='' @ v) = ''='' @ v" by (simp add: trim_start_kept is_whitespace_def)
  ultimately show ?thesis
    using assms(4) p(2,4) unfolding session_parse_cookie_def
    by (simp add: session_first_cookie_append strip_prefix_Some_iff strip_prefix_def starts_with_iff)
qed

text \<open>The pair of a \<open>Set-Cookie\<close> header that the browser stores and sends back.\<close>

definition cookie_pair :: "string \<Rightarrow> string" where
  "cookie_pair set_cookie = hd (split_on (CHR '';'') set_cookie)"

lemma cookie_pair_generated:
  assumes "is_cookie_value_safe (ck_name config)" "is_cookie_value_safe token" "ck_name config \<noteq> []"
  shows "cookie_pair (generate_session_cookie token config) = ck_name config @ ''='' @ token"
proof -
  have n: "ck_name (host_fixed config) = ck_name config" by (simp add: host_fixed_def)
  have *: "\<exists>r. join_parts ([p] @ xs @ [q, q'] @ ys) = p @ CHR '';'' # r" for p q q' xs ys
    by (cases xs) simp_all
  obtain r where "generate_session_cookie token config = (ck_name config @ ''='' @ token) @ CHR '';'' # r"
    using assms(2) *[of "ck_name config @ ''='' @ token"] unfolding generate_session_cookie_def Let_def n by metis
  then show ?thesis
    using split_on_append[OF cookie_pair_trimmed(3)[OF assms]] by (simp add: cookie_pair_def)
qed

subsection \<open>Issued tokens\<close>

text \<open>The laws of base64url without padding, and of the decoding of ASCII text.\<close>

definition token_laws :: "token_env \<Rightarrow> bool" where
  "token_laws env \<longleftrightarrow>
     (\<forall>b. te_decode env (te_encode env b) = Some b) \<and> (\<forall>b. list_all url_safe_char (te_encode env b)) \<and>
     (\<forall>s. ascii_only s \<longrightarrow> te_utf8 env (string_bytes s) = Some s)"

definition token_json_law :: "token_env \<Rightarrow> session_data \<Rightarrow> bool" where
  "token_json_law env d \<longleftrightarrow> te_parse env (string_bytes (te_json env d)) = Some d"

lemma token_laws_simps:
  assumes "token_laws env"
  shows "te_decode env (te_encode env b) = Some b" "CHR ''.'' \<notin> set (te_encode env b)" "CHR '':'' \<notin> set (te_encode env b)"
    "is_cookie_value_safe (te_encode env b)" "ascii_only (te_encode env b)"
  using assms
  by (auto simp: token_laws_def list_all_iff is_cookie_value_safe_def ascii_only_def
      dest: url_safe_not[THEN notE] url_safe_cookie url_safe_cookie[THEN cookie_byte_facts(1)])

lemma issued_token:
  assumes "token_laws env" "sign_token env secret d = Some token"
  obtains sig where "token = te_encode env (string_bytes (te_json env d)) @ ''.'' @ te_encode env sig"
    "te_hmac env (signing_key_bytes env secret) (string_bytes (te_encode env (string_bytes (te_json env d)))) = Some sig"
    "is_cookie_value_safe token" "token \<noteq> []"
  using assms token_laws_simps(4)[OF assms(1)]
  by (auto simp: sign_token_def Let_def is_cookie_value_safe_def cookie_byte_safe_def split: option.splits)

lemma verify_issued:
  assumes "token_laws env" "token_json_law env d" "sign_token env secret d = Some token" "te_decode env secret \<noteq> None"
  shows "verify_token env now token origin secret =
    (if now \<le> sd_exp d \<and> sd_origin d = origin \<and> sd_session_id d \<noteq> [] then Some d else None)"
proof -
  from assms(1,3) obtain sig where t: "token = te_encode env (string_bytes (te_json env d)) @ ''.'' @ te_encode env sig"
    "te_hmac env (signing_key_bytes env secret) (string_bytes (te_encode env (string_bytes (te_json env d)))) = Some sig"
    by (rule issued_token)
  from assms(4) have "te_decode env secret = Some (signing_key_bytes env secret)"
    by (auto simp: signing_key_bytes_def)
  then show ?thesis
    using assms(2) t token_laws_simps[OF assms(1)] split_once_char[of "CHR ''.''" "te_encode env (string_bytes (te_json env d))"]
    by (auto simp: verify_token_def token_json_law_def)
qed

text \<open>What an accepted token is, whoever made it.\<close>

lemma verify_token_Some:
  "verify_token env now token origin secret = Some d \<longleftrightarrow>
     (\<exists>data_b64 sig_b64 sig key json. split_once token ''.'' = Some (data_b64, sig_b64) \<and> CHR ''.'' \<notin> set sig_b64 \<and>
        te_decode env sig_b64 = Some sig \<and> te_decode env secret = Some key \<and>
        te_hmac env key (string_bytes data_b64) = Some sig \<and> te_decode env data_b64 = Some json \<and>
        te_parse env json = Some d \<and> now \<le> sd_exp d \<and> sd_origin d = origin \<and> sd_session_id d \<noteq> [])"
  by (auto simp: verify_token_def split: option.splits if_splits)

text \<open>Under any other secret an issued token is refused, or it is read as what was signed.\<close>

lemma verify_issued_other:
  assumes "token_laws env" "token_json_law env d" "sign_token env secret d = Some token" "sd_session_id d \<noteq> []"
  shows "verify_token env now token origin other = None \<or> verify_token env now token origin other =
    (if now \<le> sd_exp d \<and> origin = sd_origin d then Some d else None)"
proof -
  from assms(1,3) obtain sig where t: "token = te_encode env (string_bytes (te_json env d)) @ ''.'' @ te_encode env sig"
    by (rule issued_token)
  then show ?thesis
    using assms(2,4) token_laws_simps[OF assms(1)] split_once_char[of "CHR ''.''" "te_encode env (string_bytes (te_json env d))"]
    by (auto simp: verify_token_def token_json_law_def split: option.split)
qed

text \<open>
  The cookie with an issued token, sent back by the browser after whatever other cookies: the session check
  answers verified exactly until the token expires and for exactly its origin, under the secret that signed
  it or, after a rotation, under the previous slot.
\<close>

lemma issued_cookie_checked:
  assumes "token_laws env" "token_json_law env d" "sd_session_id d \<noteq> []"
    and "sign_token env secret d = Some token" "te_decode env secret \<noteq> None"
    and "is_cookie_value_safe (sc_cookie_name config)" "sc_cookie_name config \<noteq> []" "ck_name cookie = sc_cookie_name config"
    and "session_parse_cookie others (sc_cookie_name config) = None"
    and "slot = Current \<and> sc_secret config = secret \<and> sc_secret_previous config = None \<and> now = t \<or>
      slot = Previous \<and> sc_secret_previous config = Some secret \<and> now' = t \<and>
      verify_token env now token origin (sc_secret config) = None"
  shows "handle_hosted_session_check env labels now now' ip
      (Some (others @ ''; '' @ cookie_pair (generate_session_cookie token cookie))) config origin =
    (if t \<le> sd_exp d \<and> origin = sd_origin d
     then (\<lparr>cr_verified = True, cr_session = Some (sd_session_id d, sd_exp d)\<rparr>,
           Some (header_value (single_for_slot (tl_role labels) (tl_fingerprint labels) (tl_fingerprint_previous labels) (Some slot))),
           [TokenSuspicious (case ip of Some x \<Rightarrow> x | None \<Rightarrow> ''unknown'') ''hosted_session_check:success''])
     else (check_not_verified,
           Some (header_value (single_for_slot (tl_role labels) (tl_fingerprint labels) (tl_fingerprint_previous labels) None)),
           [TokenAuthFailure (case ip of Some x \<Rightarrow> x | None \<Rightarrow> ''unknown'') ''hosted_session_check:token_invalid'' origin]))"
proof -
  from assms(1,4) have safe: "is_cookie_value_safe token" by (rule issued_token) blast
  have found: "session_parse_cookie (others @ ''; '' @ cookie_pair (generate_session_cookie token cookie)) (sc_cookie_name config) = Some token"
    using session_cookie_found[OF assms(6) safe assms(7,9)] cookie_pair_generated[of cookie token] safe assms(6-8) by simp
  note v = verify_issued[OF assms(1,2,4,5), where origin = origin]
  have "verify_token_with_fallback env now now' token origin (sc_secret config) (sc_secret_previous config) =
      (if t \<le> sd_exp d \<and> origin = sd_origin d then Some (d, slot) else None)"
    using assms(3,10) v by (auto simp: verify_token_with_fallback_def)
  then show ?thesis
    using assms(3) by (simp add: handle_hosted_session_check_def found[simplified] check_verified_def Let_def)
qed

text \<open>
  The answer alone, with the secret in either slot and whatever the other slot holds: the two slots can only agree
  on an issued token.  Both reads of the clock give the same time, as no I/O stands between them.
\<close>

lemma issued_cookie_verified:
  assumes "token_laws env" "token_json_law env d" "sd_session_id d \<noteq> []"
    and "sign_token env secret d = Some token" "te_decode env secret \<noteq> None"
    and "is_cookie_value_safe (sc_cookie_name config)" "sc_cookie_name config \<noteq> []" "ck_name cookie = sc_cookie_name config"
    and "session_parse_cookie others (sc_cookie_name config) = None"
    and "sc_secret config = secret \<or> sc_secret_previous config = Some secret"
  shows "fst (handle_hosted_session_check env labels now now ip
      (Some (others @ ''; '' @ cookie_pair (generate_session_cookie token cookie))) config origin) =
    (if now \<le> sd_exp d \<and> origin = sd_origin d
     then \<lparr>cr_verified = True, cr_session = Some (sd_session_id d, sd_exp d)\<rparr> else check_not_verified)"
proof -
  from assms(1,4) have safe: "is_cookie_value_safe token" by (rule issued_token) blast
  have found: "session_parse_cookie (others @ ''; '' @ cookie_pair (generate_session_cookie token cookie)) (sc_cookie_name config) = Some token"
    using session_cookie_found[OF assms(6) safe assms(7,9)] cookie_pair_generated[of cookie token] safe assms(6-8) by simp
  let ?ok = "now \<le> sd_exp d \<and> origin = sd_origin d"
  have v: "verify_token env now token origin secret = (if ?ok then Some d else None)"
    using verify_issued[OF assms(1,2,4,5), where origin = origin] assms(3) by auto
  note other = verify_issued_other[OF assms(1,2,4,3), of now origin]
  have "map_option fst (verify_token_with_fallback env now now token origin (sc_secret config) (sc_secret_previous config)) =
      (if ?ok then Some d else None)"
    using assms(10) v other[of "sc_secret config"] other[of "the (sc_secret_previous config)"]
    by (auto simp: verify_token_with_fallback_def split: option.splits if_splits)
  then show ?thesis
    using assms(3) by (auto simp: handle_hosted_session_check_def found[simplified] check_verified_def Let_def split: option.splits)
qed

subsection \<open>CSRF tokens\<close>

lemma csrf_generated:
  assumes "token_laws env" "generate_csrf_token env t sid key ttl = Inr (token, expires)"
  obtains p sig where "session_hash_prefix env sid key = Inr p" "CHR '':'' \<notin> set p" "ascii_only p"
    "te_hmac env key (string_bytes (te_encode env (string_bytes (show_u64 t @ '':'' @ p)))) = Some sig"
    "token = te_encode env (string_bytes (show_u64 t @ '':'' @ p)) @ ''.'' @ te_encode env sig" "expires = sat_add t ttl"
  using assms token_laws_simps[OF assms(1)]
  by (auto simp: generate_csrf_token_def session_hash_prefix_def Let_def split: option.splits)

text \<open>base64url encodes something to something, and a tag is not empty.\<close>

definition csrf_laws :: "token_env \<Rightarrow> bool" where
  "csrf_laws env \<longleftrightarrow> (\<forall>b. b \<noteq> [] \<longrightarrow> te_encode env b \<noteq> []) \<and> (\<forall>k m tag. te_hmac env k m = Some tag \<longrightarrow> tag \<noteq> [])"

lemma show_u64_facts: "CHR '':'' \<notin> set (show_nat n)" "ascii_only (show_nat n)"
  using show_nat_digits[of n] by (auto simp: list_all_iff is_ascii_digit_def ascii_only_def)

lemma csrf_validated:
  assumes "token_laws env" "csrf_laws env" "generate_csrf_token env t sid key ttl = Inr (token, expires)"
    and "session_hash_prefix env sid' key = Inr p'"
  shows "validate_csrf_token env now token sid' key max_age =
    (if sat_sub now t > max_age then Inl CsrfExpired
     else if session_hash_prefix env sid key \<noteq> Inr p' then Inl CsrfSessionMismatch else Inr ())"
proof -
  from assms(1,3) obtain p sig where g: "session_hash_prefix env sid key = Inr p" "CHR '':'' \<notin> set p" "ascii_only p"
    "te_hmac env key (string_bytes (te_encode env (string_bytes (show_u64 t @ '':'' @ p)))) = Some sig"
    "token = te_encode env (string_bytes (show_u64 t @ '':'' @ p)) @ ''.'' @ te_encode env sig"
    by (rule csrf_generated)
  let ?pl = "show_u64 t @ '':'' @ p"
  have "ascii_only ?pl" using g(3) show_u64_facts(2) by (simp add: ascii_only_def)
  then have u: "te_utf8 env (string_bytes ?pl) = Some ?pl" using assms(1) by (simp add: token_laws_def)
  have s1: "split_once token ''.'' = Some (te_encode env (string_bytes ?pl), te_encode env sig)"
    using split_once_char[OF token_laws_simps(2)[OF assms(1)]] g(5) by simp
  have s2: "split_once ?pl '':'' = Some (show_u64 t, p)" using split_once_char[OF show_u64_facts(1)] by simp
  have ne: "te_encode env (string_bytes ?pl) \<noteq> []" "te_encode env sig \<noteq> []" "token \<noteq> []"
    using assms(2) g(4,5) by (auto simp: csrf_laws_def string_bytes_def)
  have ts: "parse_unsigned (2 ^ 64) (show_u64 t) = Some (unat t)"
    using unsigned_less[of t] by (intro parse_unsigned_show) simp
  show ?thesis
    using s1 ne g(1,4) assms(4) u s2 ts token_laws_simps(1)[OF assms(1)]
    by (simp add: validate_csrf_token_def del: split_once.simps)
qed

text \<open>A CSRF token opens exactly one door: the token that the endpoint hands out for a session at time \<open>t\<close>
  passes the check of a request on a session exactly when no more than an hour has gone by and the session's
  hash prefix under the key is that of the session it was made for; otherwise the request is refused with
  403 and the reason goes to the audit log only.  And although session tokens are signed with the same secret, a
  CSRF token is never accepted as one.\<close>

theorem csrf_token_enforced:
  assumes "token_laws env" "csrf_laws env"
    and "handle_csrf_token_generation env t sid secret CSRF_TOKEN_EXPIRATION = Inr r"
    and "te_decode env secret = Some key" "session_hash_prefix env sid' key = Inr p'"
    and "\<And>j d. te_parse env j = Some d \<Longrightarrow> j \<noteq> [] \<and> \<not> (48 \<le> unat (hd j) \<and> unat (hd j) \<le> 57)"
  shows "enforce_hosted_csrf env now (Some ip) (Some (ct_token r)) (Some secret) sid' endpoint =
      (if sat_sub now t > 3600
       then (Inl (CsrfForbidden csrf_forbidden_error), [CsrfValidationFailed ip endpoint sid' ''token_expired''])
       else if session_hash_prefix env sid key \<noteq> Inr p'
       then (Inl (CsrfForbidden csrf_forbidden_error), [CsrfValidationFailed ip endpoint sid' ''session_mismatch''])
       else (Inr (), [])) \<and>
    verify_token env now (ct_token r) origin any_secret = None"
proof -
  from assms(3,4) have gen: "generate_csrf_token env t sid key CSRF_TOKEN_EXPIRATION = Inr (ct_token r, ct_expires_at r)"
    by (auto simp: handle_csrf_token_generation_def split: sum.splits)
  from assms(1) gen obtain p sig where
    tok: "ct_token r = te_encode env (string_bytes (show_u64 t @ '':'' @ p)) @ ''.'' @ te_encode env sig"
    by (rule csrf_generated) blast
  have ne: "ct_token r \<noteq> []" using tok by simp
  have "show_u64 t \<noteq> []" "list_all (\<lambda>c. is_ascii_digit (of_char c)) (show_u64 t)" by (simp_all add: show_nat_digits)
  then obtain c cs where s: "show_u64 t = c # cs" "is_ascii_digit (of_char c)" by (cases "show_u64 t") auto
  have "te_parse env (string_bytes (show_u64 t @ '':'' @ p)) = None"
  proof (rule ccontr)
    assume "te_parse env (string_bytes (show_u64 t @ '':'' @ p)) \<noteq> None"
    then have "\<not> (48 \<le> unat (hd (string_bytes (show_u64 t @ '':'' @ p))) \<and> unat (hd (string_bytes (show_u64 t @ '':'' @ p))) \<le> 57)"
      using assms(6) by blast
    with s show False by (simp add: string_bytes_def is_ascii_digit_def unat_of_nat)
  qed
  then have "verify_token env now (ct_token r) origin any_secret = None"
    using tok token_laws_simps(1)[OF assms(1)] split_once_char[OF token_laws_simps(2)[OF assms(1)]]
    by (auto simp: verify_token_def split: option.splits)
  moreover note csrf_validated[OF assms(1,2) gen assms(5), of now CSRF_TOKEN_EXPIRATION]
  ultimately show ?thesis
    using ne assms(4) by (simp add: enforce_hosted_csrf_def CSRF_TOKEN_EXPIRATION_def Let_def)
qed

text \<open>
  Under a secret that is not base64url text the redemption signs with the bytes of the text, while the
  session check and the CSRF check refuse to use it.
\<close>

lemma undecodable_secret:
  assumes "te_decode env secret = None"
  shows "verify_token env now token origin secret = None"
    and "handle_csrf_token_generation env t sid secret ttl = Inl (ServiceUnavailable None)"
    and "signing_key_bytes env secret = string_bytes secret"
  using assms by (auto simp: verify_token_def handle_csrf_token_generation_def signing_key_bytes_def split: option.splits)

subsection \<open>Sample tokens\<close>

lemma hex_encode_safe: "list_all url_safe_char (hex_encode b)"
proof -
  have "url_safe_char (hex_digit d)" if "d < 16" for d
    using that by (auto simp: url_safe_char_def hex_digit_def digit_char_def is_ascii_alphanumeric_def is_ascii_digit_def)
  moreover have "unat x div 16 < 16" for x :: u8 using unsigned_less[of x, where 'a = nat] by simp
  ultimately show ?thesis by (auto simp: hex_encode_def list_all_iff)
qed

definition sample_data :: session_data where
  "sample_data = \<lparr>sd_session_id = ''s1'', sd_origin = ''https://a.b'', sd_exp = 1000\<rparr>"

definition sample_tokens :: token_env where
  "sample_tokens =
     \<lparr>te_encode = hex_encode, te_decode = (\<lambda>s. Some (unhex s)), te_hmac = (\<lambda>k m. Some (1 # k @ m)),
      te_json = (\<lambda>d. ''{}''), te_parse = (\<lambda>b. if b = string_bytes ''{}'' then Some sample_data else None),
      te_utf8 = (\<lambda>b. Some (map (\<lambda>x. char_of (unat x)) b))\<rparr>"

lemma sample_tokens_laws: "token_laws sample_tokens" "token_json_law sample_tokens sample_data" "csrf_laws sample_tokens"
proof -
  have "map (\<lambda>x. char_of (unat x)) (string_bytes s) = s" for s
    by (simp add: string_bytes_def map_idI unat_of_nat)
  then show "token_laws sample_tokens"
    using hex_encode_safe by (simp add: token_laws_def sample_tokens_def unhex_encode)
  show "token_json_law sample_tokens sample_data" by (simp add: token_json_law_def sample_tokens_def)
  have "hex_encode b \<noteq> []" if "b \<noteq> []" for b using that by (cases b) (simp_all add: hex_encode_def)
  then show "csrf_laws sample_tokens" by (auto simp: csrf_laws_def sample_tokens_def)
qed

lemma sample_cookie_checked:
  "handle_hosted_session_check sample_tokens \<lparr>tl_role = ''r'', tl_fingerprint = ''f'', tl_fingerprint_previous = ''g''\<rparr> 900 900
     (Some ''ip'') (Some (''a=b'' @ ''; '' @ cookie_pair (generate_session_cookie (the (sign_token sample_tokens ''00'' sample_data))
        (cookie_config_default\<lparr>ck_max_age := 100\<rparr>))))
     \<lparr>sc_secret = ''00'', sc_secret_previous = None, sc_cookie_name = ''__Host-session''\<rparr> ''https://a.b'' =
   (\<lparr>cr_verified = True, cr_session = Some (''s1'', 1000)\<rparr>, Some ''f'', [TokenSuspicious ''ip'' ''hosted_session_check:success''])"
proof -
  let ?t = "the (sign_token sample_tokens ''00'' sample_data)"
  have t: "sign_token sample_tokens ''00'' sample_data = Some ?t" by (simp add: sign_token_def sample_tokens_def Let_def)
  have n: "session_parse_cookie ''a=b'' ''__Host-session'' = None"
    by (simp add: session_parse_cookie_def trim_def trim_start.simps trim_end.simps space_bytes_def is_whitespace_def
        strip_prefix_def)
  have "is_cookie_value_safe ''__Host-session''" by (simp add: is_cookie_value_safe_def cookie_byte_safe_def)
  from issued_cookie_checked[OF sample_tokens_laws(1,2) _ t, where
      config = "\<lparr>sc_secret = ''00'', sc_secret_previous = None, sc_cookie_name = ''__Host-session''\<rparr>"
      and cookie = "cookie_config_default\<lparr>ck_max_age := 100\<rparr>" and others = "''a=b''" and slot = Current
      and now = 900 and now' = 900 and t = 900 and origin = "''https://a.b''" and ip = "Some ''ip''"
      and labels = "\<lparr>tl_role = ''r'', tl_fingerprint = ''f'', tl_fingerprint_previous = ''g''\<rparr>"] this n
  show ?thesis
    by (simp add: sample_data_def cookie_config_default_def sample_tokens_def header_value_def single_for_slot_def single_def
        set_used_def add_slot_def sv_new_def)
qed

lemma csrf_token_enforced_witness:
  "\<exists>r. handle_csrf_token_generation sample_tokens 100 ''s1'' ''00'' CSRF_TOKEN_EXPIRATION = Inr r \<and>
     enforce_hosted_csrf sample_tokens 200 (Some ''ip'') (Some (ct_token r)) (Some ''00'') ''s1'' ''hosted_redeem'' = (Inr (), []) \<and>
     enforce_hosted_csrf sample_tokens 200 (Some ''ip'') (Some (ct_token r)) (Some ''00'') ''s2'' ''hosted_redeem'' =
       (Inl (CsrfForbidden csrf_forbidden_error), [CsrfValidationFailed ''ip'' ''hosted_redeem'' ''s2'' ''session_mismatch''])"
proof -
  obtain r where r: "handle_csrf_token_generation sample_tokens 100 ''s1'' ''00'' CSRF_TOKEN_EXPIRATION = Inr r"
    by (simp add: handle_csrf_token_generation_def generate_csrf_token_def sample_tokens_def Let_def)
  have d: "te_decode sample_tokens ''00'' = Some [0]" by (simp add: sample_tokens_def hex_nibble_def)
  have p: "session_hash_prefix sample_tokens s [0] = Inr (hex_encode (take 16 (1 # 0 # string_bytes s)))" for s
    by (simp add: session_hash_prefix_def sample_tokens_def)
  have ne: "hex_encode (take 16 (1 # 0 # string_bytes ''s1'')) \<noteq> hex_encode (take 16 (1 # 0 # string_bytes ''s2''))"
    using unhex_encode[of "take 16 (1 # 0 # string_bytes ''s1'')"] unhex_encode[of "take 16 (1 # 0 # string_bytes ''s2'')"]
    by (auto simp: string_bytes_def)
  have obj: "te_parse sample_tokens j = Some d \<Longrightarrow> j \<noteq> [] \<and> \<not> (48 \<le> unat (hd j) \<and> unat (hd j) \<le> 57)" for j d
    by (auto simp: sample_tokens_def string_bytes_def split: if_splits)
  have *: "enforce_hosted_csrf sample_tokens 200 (Some ''ip'') (Some (ct_token r)) (Some ''00'') s ''hosted_redeem'' =
      (if sat_sub 200 100 > (3600 :: u64)
       then (Inl (CsrfForbidden csrf_forbidden_error), [CsrfValidationFailed ''ip'' ''hosted_redeem'' s ''token_expired''])
       else if session_hash_prefix sample_tokens ''s1'' [0] \<noteq> Inr (hex_encode (take 16 (1 # 0 # string_bytes s)))
       then (Inl (CsrfForbidden csrf_forbidden_error), [CsrfValidationFailed ''ip'' ''hosted_redeem'' s ''session_mismatch''])
       else (Inr (), []))" for s
    using csrf_token_enforced[OF sample_tokens_laws(1,3) r d p] obj by blast
  have "sat_sub 200 100 = (100 :: u64)" by (simp add: sat_sub_def)
  then show ?thesis using r *[of "''s1''"] *[of "''s2''"] p[of "''s1''"] ne by simp
qed

end
