(* ===== verification/Hosted_Redeem.thy ===== *)
theory Hosted_Redeem imports Redeem Hosted_Session Session_Token begin

text \<open>
  \<open>src/hosted/endpoints/redeem.rs\<close>: the redemption of a hosted session by the browser, with the
  PKCE code verifier.  It shares the challenge store, the nonce store, the audit logger and the credit
  client with \<open>src/routes/redeem.rs\<close>, so its state holds the state of that handler, and the phases
  that the two files spell out alike are lifted.
\<close>

subsection \<open>Requests and state\<close>

definition DEFAULT_MAX_REDEEM_ATTEMPTS :: u32 where "DEFAULT_MAX_REDEEM_ATTEMPTS = 3"

record hosted_redeem_response =
  hp_status :: string
  hp_verified_at :: u64
  hp_expires_at :: u64
  hp_set_cookie :: string
  hp_secret_version :: string

definition validate_code_verifier :: "string \<Rightarrow> unit api_result" where
  "validate_code_verifier verifier =
     (if verifier = [] then Inl (BadRequest (Some ''Code verifier cannot be empty''))
      else if length verifier < 43 \<or> length verifier > 128
      then Inl (BadRequest (Some ''Code verifier must be 43-128 characters''))
      else if \<not> list_all (\<lambda>c. is_ascii_alphanumeric c \<or> c = 45 \<or> c = 95 \<or> c = 46 \<or> c = 126) (utf8_chars verifier)
      then Inl (BadRequest (Some ''Code verifier must contain only unreserved characters [A-Za-z0-9-._~]''))
      else Inr ())"

text \<open>The headers of \<open>/v1/redeem\<close> that the handler reads too, and two of its own.\<close>

record hosted_headers = redeem_headers +
  hh_public_key :: "string option"
  hh_user_agent :: "string option"

record hosted_redeem_env =
  hr_redeem :: redeem_env
  hr_sessions :: hosted_env
  hr_binding :: crypto_env
  hr_ip_hash_salt :: string
  hr_tokens :: token_env
  hr_parse_uuid :: "string \<Rightarrow> uuid option"
  hr_token_secret :: "string option"
  hr_cookie_var :: "string option"
  hr_mek_labels :: token_labels

record hosted_redeem_clock =
  ht_redeem :: redeem_clock
  ht_session_iv :: "string + bytes"
  ht_session_update :: u64
  ht_get_again :: "nat \<Rightarrow> u64"

record hosted_redeem_world =
  hw_shared :: redeem_world
  hw_kv :: hosted_kv

datatype hosted_outcome = Redeemed hosted_redeem_response | Refused redeem_outcome

type_synonym 'a hosted_step = "(hosted_redeem_world, hosted_outcome, 'a) step"

text \<open>A step of \<open>/v1/redeem\<close> on the shared state.\<close>

definition shared :: "'a redeem_step \<Rightarrow> 'a hosted_step" where
  "shared m w =
     (case m (hw_shared w) of
        (Inl r, s) \<Rightarrow> (Inl (Refused r), w\<lparr>hw_shared := s\<rparr>)
      | (Inr x, s) \<Rightarrow> (Inr x, w\<lparr>hw_shared := s\<rparr>))"

abbreviation deny :: "audit_call list \<Rightarrow> api_error \<Rightarrow> 'a hosted_step" where
  "deny calls e \<equiv> shared (refuse calls e)"

abbreviation h_ip :: "hosted_headers \<Rightarrow> string" where
  "h_ip h \<equiv> client_ip_of (redeem_headers.truncate h)"

definition h_origin :: "hosted_headers \<Rightarrow> string" where
  "h_origin h = (case rh_origin h of Some orig \<Rightarrow> orig | None \<Rightarrow> [])"

subsection \<open>The session\<close>

definition h_request_phase :: "hosted_redeem_env \<Rightarrow> hosted_headers \<Rightarrow> string \<Rightarrow> string \<Rightarrow> unit hosted_step" where
  "h_request_phase env h session_id code_verifier =
     (if h_origin h = [] then
        deny [LogSuspiciousActivity (h_ip h) ''hosted_redeem:missing_origin''] (BadRequest (Some ''Missing Origin header''))
      else if hr_parse_uuid env session_id = None then
        deny [LogSuspiciousActivity (h_ip h) ''hosted_redeem:invalid_session_id''] (BadRequest (Some ''Invalid session_id format''))
      else case validate_code_verifier code_verifier of
             Inl e \<Rightarrow> deny [LogSuspiciousActivity (h_ip h) ''hosted_redeem:invalid_code_verifier''] e
           | Inr _ \<Rightarrow> ret ())"

definition h_session_phase :: "hosted_redeem_env \<Rightarrow> string \<Rightarrow> (hosted_session \<times> rotation_slot) hosted_step" where
  "h_session_phase env session_id =
     andthen (on_part hw_kv hw_kv_update (get_session_kv_tracked (hr_sessions env) session_id)) (\<lambda>r.
     case r of
       Inr (Some s) \<Rightarrow> ret s
     | Inr None \<Rightarrow> deny [] NotFound
     | Inl e \<Rightarrow> deny [] (Internal (hosted_message e)))"

definition h_owner_phase :: "hosted_headers \<Rightarrow> hosted_session \<Rightarrow> unit hosted_step" where
  "h_owner_phase h session =
     (if h_origin h \<noteq> hs_origin session then
        deny [LogAuthenticationFailure (h_ip h) ''hosted_redeem:origin_mismatch'']
          (Forbidden (Some ''Origin does not match session''))
      else case hh_public_key h of
             None \<Rightarrow> deny [LogAuthenticationFailure (h_ip h) ''hosted_redeem:bola_missing_public_key''] (Forbidden (Some ''Access denied''))
           | Some key \<Rightarrow>
               if key = [] then
                 deny [LogAuthenticationFailure (h_ip h) ''hosted_redeem:bola_missing_public_key''] (Forbidden (Some ''Access denied''))
               else if key \<noteq> hs_public_key session then
                 deny [LogAuthenticationFailure (h_ip h) ''hosted_redeem:bola_public_key_mismatch''] (Forbidden (Some ''Access denied''))
               else ret ())"

fun to_logic_mode :: "Hosted_Session.session_binding_mode \<Rightarrow> Crypto_Logic.session_binding_mode" where
  "to_logic_mode Hosted_Session.Strict = Crypto_Logic.Strict"
| "to_logic_mode Hosted_Session.Relaxed = Crypto_Logic.Relaxed"
| "to_logic_mode Hosted_Session.NoBinding = Crypto_Logic.NoBinding"

definition h_binding_phase :: "hosted_redeem_env \<Rightarrow> hosted_headers \<Rightarrow> hosted_session \<Rightarrow> unit hosted_step" where
  "h_binding_phase env h session =
     (case hosted_verify_session_binding (hr_binding env) (h_ip h) (hh_user_agent h) (hs_client_ip_hash session)
             (hs_user_agent session) (hr_ip_hash_salt env) (to_logic_mode (hs_binding_mode session)) of
        Inr _ \<Rightarrow> ret ()
      | Inl e \<Rightarrow> deny [LogAuthenticationFailure (h_ip h) ''hosted_redeem:session_binding_mismatch''] e)"

text \<open>The attempts are counted in KV; a write that fails is only logged.\<close>

definition h_attempts_phase ::
    "hosted_redeem_env \<Rightarrow> hosted_redeem_clock \<Rightarrow> hosted_headers \<Rightarrow> hosted_session \<Rightarrow> unit hosted_step" where
  "h_attempts_phase env t h session =
     (let session_mut = increment_redeem_attempts session in
      if hs_redeem_attempt_count session_mut > DEFAULT_MAX_REDEEM_ATTEMPTS then
        deny [LogSuspiciousActivity (h_ip h) ''hosted_redeem:session_rate_limit_exceeded'']
          (TooManyRequests (Some ''Redemption rate limit exceeded''))
      else andthen (on_part hw_kv hw_kv_update (update_session_kv_checked (hr_sessions env) (ht_session_iv t)
             (ht_session_update t) session_mut (Some (hs_state session_mut)))) (\<lambda>_. ret ()))"

definition h_challenge_id_phase :: "hosted_redeem_env \<Rightarrow> hosted_session \<Rightarrow> uuid hosted_step" where
  "h_challenge_id_phase env session =
     (case hr_parse_uuid env (hs_verifier_challenge_id session) of
        Some cid \<Rightarrow> ret cid
      | None \<Rightarrow> deny [] (Internal ''corrupt session data''))"

subsection \<open>The challenge\<close>

definition h_nonce_phase ::
    "hosted_redeem_env \<Rightarrow> hosted_redeem_clock \<Rightarrow> hosted_headers \<Rightarrow> string \<Rightarrow> unit hosted_step" where
  "h_nonce_phase env t h cid_text =
     andthen (shared (on_nonces (check_and_set (re_nonces (hr_redeem env)) (''hosted_redeem:'' @ cid_text)
       (rt_nonce (ht_redeem t)) NONCE_DEDUP_TTL))) (\<lambda>r.
     case r of
       Inr True \<Rightarrow> ret ()
     | Inr False \<Rightarrow> deny [LogReplayAttempt cid_text (h_ip h)] (Conflict (Some ''Duplicate redemption attempt''))
     | Inl e \<Rightarrow> deny [] (Internal (display e)))"

definition h_load_phase ::
    "hosted_redeem_env \<Rightarrow> hosted_redeem_clock \<Rightarrow> hosted_headers \<Rightarrow> uuid \<Rightarrow> string \<Rightarrow> cached_challenge hosted_step" where
  "h_load_phase env t h cid cid_text =
     andthen (shared (on_challenges (store_get (re_challenges (hr_redeem env)) (rt_get (ht_redeem t)) cid))) (\<lambda>r.
     case r of
       Inr (Some c) \<Rightarrow> ret (zeroize_secret c)
     | Inr None \<Rightarrow> deny [LogVerificationAttempt cid_text (h_ip h) False (Some ''hosted_redeem_not_found'')] NotFound
     | Inl e \<Rightarrow> deny [LogSuspiciousActivity (h_ip h) ''downstream_failure:challenge_store_read''] (Internal (display e)))"

definition h_fresh_phase ::
    "hosted_redeem_clock \<Rightarrow> hosted_headers \<Rightarrow> string \<Rightarrow> cached_challenge \<Rightarrow> unit hosted_step" where
  "h_fresh_phase t h cid_text cached =
     (if h_origin h \<noteq> cc_origin cached then deny [] (Internal ''origin consistency violation'')
      else if rt_now (ht_redeem t) > cc_expires_at cached \<and> cc_state cached \<noteq> Verified then
        deny [LogVerificationAttempt cid_text (h_ip h) False (Some ''hosted_redeem_expired'')] (Gone (Some ''Session has expired''))
      else ret ())"

text \<open>A pending challenge is read once more.\<close>

definition h_retry_phase ::
    "hosted_redeem_env \<Rightarrow> hosted_redeem_clock \<Rightarrow> uuid \<Rightarrow> cached_challenge \<Rightarrow> cached_challenge hosted_step" where
  "h_retry_phase env t cid cached =
     (if cc_state cached = Pending then
        andthen (shared (on_challenges (store_get (re_challenges (hr_redeem env)) (ht_get_again t) cid))) (\<lambda>r.
        ret (case r of Inr (Some refreshed) \<Rightarrow> zeroize_secret refreshed | _ \<Rightarrow> cached))
      else ret cached)"

fun hosted_state_error :: "challenge_state \<Rightarrow> api_error" where
  "hosted_state_error Pending = Conflict (Some ''Proof not submitted yet'')"
| "hosted_state_error ProofOkWaitingForRedeem = Conflict (Some ''Challenge not ready for redemption'')"
| "hosted_state_error Verified = Conflict (Some ''Session has already been redeemed'')"
| "hosted_state_error Failed = Conflict (Some ''Challenge failed verification'')"
| "hosted_state_error Expired = Gone (Some ''Session has expired'')"

definition h_state_phase :: "hosted_headers \<Rightarrow> string \<Rightarrow> cached_challenge \<Rightarrow> unit hosted_step" where
  "h_state_phase h cid_text cached =
     (if cc_state cached \<noteq> ProofOkWaitingForRedeem then
        deny [LogVerificationAttempt cid_text (h_ip h) False
                (Some (''hosted_redeem_wrong_state:'' @ state_debug (cc_state cached)))]
          (hosted_state_error (cc_state cached))
      else ret ())"

definition h_pkce_phase ::
    "hosted_redeem_env \<Rightarrow> hosted_headers \<Rightarrow> string \<Rightarrow> cached_challenge \<Rightarrow> string \<Rightarrow> unit hosted_step" where
  "h_pkce_phase env h cid_text cached code_verifier =
     (if re_sha256 (hr_redeem env) (string_bytes code_verifier) \<noteq> cc_code_challenge_bytes cached then
        deny [LogVerificationAttempt cid_text (h_ip h) False (Some ''hosted_redeem_pkce_failed'')]
          (BadRequest (Some ''Invalid code_verifier''))
      else ret ())"

definition h_secret_phase :: "hosted_redeem_env \<Rightarrow> hosted_headers \<Rightarrow> string hosted_step" where
  "h_secret_phase env h =
     (case hr_token_secret env of
        Some s \<Rightarrow> ret s
      | None \<Rightarrow> deny [LogSuspiciousActivity (h_ip h) ''hosted_redeem:session_token_secret_unavailable'']
          (ServiceUnavailable (Some ''Session signing unavailable'')))"

subsection \<open>The grant\<close>

text \<open>The three phases below bill and write as \<open>/v1/redeem\<close> does, for the origin of the request.\<close>

definition with_origin :: "hosted_headers \<Rightarrow> cached_challenge \<Rightarrow> cached_challenge" where
  "with_origin h cached = cached\<lparr>cc_origin := h_origin h\<rparr>"

definition h_metered_phase ::
    "hosted_redeem_env \<Rightarrow> hosted_redeem_clock \<Rightarrow> hosted_headers \<Rightarrow> string \<Rightarrow> cached_challenge \<Rightarrow> unit hosted_step" where
  "h_metered_phase env t h cid_text cached =
     shared (metered_phase (hr_redeem env) (ht_redeem t) (redeem_headers.truncate h) cid_text (with_origin h cached))"

definition h_put_phase ::
    "hosted_redeem_env \<Rightarrow> hosted_redeem_clock \<Rightarrow> hosted_headers \<Rightarrow> uuid \<Rightarrow> string \<Rightarrow> cached_challenge \<Rightarrow> unit hosted_step" where
  "h_put_phase env t h cid cid_text cached =
     shared (redeem_put_phase (hr_redeem env) (ht_redeem t) (redeem_headers.truncate h) cid cid_text cached)"

definition h_audit_phase ::
    "hosted_redeem_clock \<Rightarrow> hosted_headers \<Rightarrow> string \<Rightarrow> cached_challenge \<Rightarrow> unit hosted_step" where
  "h_audit_phase t h cid_text cached =
     (let now = rt_now (ht_redeem t) in
      shared (audit ([LogVerificationAttempt cid_text (h_ip h) True None] @
        (case cc_issuer_kid cached of
           Some _ \<Rightarrow> []
         | None \<Rightarrow> [LogVerificationNoRoyalty cid_text (h_origin h) (replicate 32 0) now]) @
        [LogBillingEvent cid_text (h_origin h) (cc_issuer_kid cached) (issuer_vk_or_zero cached)
           (cc_cutoff_days cached) now])))"

definition h_unmetered_phase ::
    "hosted_redeem_env \<Rightarrow> hosted_redeem_clock \<Rightarrow> hosted_headers \<Rightarrow> string \<Rightarrow> cached_challenge \<Rightarrow> unit hosted_step" where
  "h_unmetered_phase env t h cid_text cached =
     shared (unmetered_phase (hr_redeem env) (ht_redeem t) (redeem_headers.truncate h) cid_text (with_origin h cached))"

definition h_cookie_phase ::
    "hosted_redeem_env \<Rightarrow> hosted_redeem_clock \<Rightarrow> hosted_headers \<Rightarrow> string \<Rightarrow> string \<Rightarrow> cached_challenge \<Rightarrow> string hosted_step" where
  "h_cookie_phase env t h session_id secret cached =
     (case sign_token (hr_tokens env) secret
             \<lparr>sd_session_id = session_id, sd_origin = h_origin h, sd_exp = cc_expires_at cached\<rparr> of
        None \<Rightarrow> stop (Refused (RedeemPropagated (ServiceUnavailable None)))
      | Some token \<Rightarrow>
          ret (generate_session_cookie token (cookie_config_default
            \<lparr>ck_name := session_cookie_name (hr_cookie_var env),
             ck_max_age := sat_sub (cc_expires_at cached) (rt_now (ht_redeem t))\<rparr>)))"

definition secret_version_header :: "token_labels \<Rightarrow> rotation_slot option \<Rightarrow> string" where
  "secret_version_header labels slot =
     header_value (single_for_slot (tl_role labels) (tl_fingerprint labels) (tl_fingerprint_previous labels) slot)"

subsection \<open>The handler\<close>

definition h_session ::
    "hosted_redeem_env \<Rightarrow> hosted_redeem_clock \<Rightarrow> hosted_headers \<Rightarrow> string \<Rightarrow> string \<Rightarrow> (hosted_session \<times> rotation_slot \<times> uuid) hosted_step" where
  "h_session env t h session_id code_verifier =
     andthen (h_request_phase env h session_id code_verifier) (\<lambda>_.
     andthen (h_session_phase env session_id) (\<lambda>(session, slot).
     andthen (h_owner_phase h session) (\<lambda>_.
     andthen (h_binding_phase env h session) (\<lambda>_.
     andthen (h_attempts_phase env t h session) (\<lambda>_.
     andthen (h_challenge_id_phase env session) (\<lambda>cid.
     ret (session, slot, cid)))))))"

definition h_challenge ::
    "hosted_redeem_env \<Rightarrow> hosted_redeem_clock \<Rightarrow> hosted_headers \<Rightarrow> uuid \<Rightarrow> string \<Rightarrow> (cached_challenge \<times> string) hosted_step" where
  "h_challenge env t h cid code_verifier =
     (let cid_text = cse_uuid_text (re_challenges (hr_redeem env)) cid in
      andthen (h_nonce_phase env t h cid_text) (\<lambda>_.
      andthen (h_load_phase env t h cid cid_text) (\<lambda>loaded.
      andthen (h_fresh_phase t h cid_text loaded) (\<lambda>_.
      andthen (h_retry_phase env t cid loaded) (\<lambda>cached.
      andthen (h_state_phase h cid_text cached) (\<lambda>_.
      andthen (h_pkce_phase env h cid_text cached code_verifier) (\<lambda>_.
      andthen (h_secret_phase env h) (\<lambda>secret.
      ret (cached, secret)))))))))"

definition h_grant ::
    "hosted_redeem_env \<Rightarrow> hosted_redeem_clock \<Rightarrow> hosted_headers \<Rightarrow> string \<Rightarrow> rotation_slot \<Rightarrow> uuid \<Rightarrow> cached_challenge \<Rightarrow>
     string \<Rightarrow> hosted_outcome hosted_step" where
  "h_grant env t h session_id slot cid cached secret =
     (let cid_text = cse_uuid_text (re_challenges (hr_redeem env)) cid; now = rt_now (ht_redeem t) in
      andthen (h_metered_phase env t h cid_text cached) (\<lambda>_.
      andthen (h_put_phase env t h cid cid_text cached) (\<lambda>_.
      andthen (h_audit_phase t h cid_text cached) (\<lambda>_.
      andthen (h_unmetered_phase env t h cid_text cached) (\<lambda>_.
      andthen (h_cookie_phase env t h session_id secret cached) (\<lambda>set_cookie.
      ret (Redeemed \<lparr>hp_status = ''verified'', hp_verified_at = now, hp_expires_at = cc_expires_at cached,
        hp_set_cookie = set_cookie, hp_secret_version = secret_version_header (hr_mek_labels env) (Some slot)\<rparr>)))))))"

definition handle_hosted_redeem ::
    "hosted_redeem_env \<Rightarrow> hosted_redeem_clock \<Rightarrow> hosted_headers \<Rightarrow> string \<Rightarrow> string \<Rightarrow> hosted_redeem_world \<Rightarrow>
     hosted_outcome \<times> hosted_redeem_world" where
  "handle_hosted_redeem env t h session_id code_verifier =
     finish (andthen (h_session env t h session_id code_verifier) (\<lambda>(session, slot, cid).
             andthen (h_challenge env t h cid code_verifier) (\<lambda>(cached, secret).
             h_grant env t h session_id slot cid cached secret)))"

subsection \<open>Inverting the phases\<close>

lemma andthen_shared [run_steps]:
  "andthen (shared m) k w =
     (case m (hw_shared w) of
        (Inl r, s) \<Rightarrow> (Inl (Refused r), w\<lparr>hw_shared := s\<rparr>)
      | (Inr x, s) \<Rightarrow> k x (w\<lparr>hw_shared := s\<rparr>))"
  by (auto simp: andthen_def shared_def split: prod.splits sum.splits)

lemma deny_run [run_steps]:
  "deny calls e w = (Inl (Refused (RedeemError e)), w\<lparr>hw_shared := (hw_shared w)\<lparr>rd_audit := rd_audit (hw_shared w) @ calls\<rparr>\<rparr>)"
  by (simp add: shared_def refuse_run)

lemma shared_Inr: "shared m w = (Inr x, w') \<longleftrightarrow> (\<exists>s. m (hw_shared w) = (Inr x, s) \<and> w' = w\<lparr>hw_shared := s\<rparr>)"
  by (auto simp: shared_def split: prod.splits sum.splits)

lemma on_challenges_run: "on_challenges f w = (Inr (fst (f (rd_challenges w))), w\<lparr>rd_challenges := snd (f (rd_challenges w))\<rparr>)"
  by (simp add: on_challenges_def split_beta)

lemma on_nonces_run: "on_nonces f w = (Inr (fst (f (rd_nonces w))), w\<lparr>rd_nonces := snd (f (rd_nonces w))\<rparr>)"
  by (simp add: on_nonces_def split_beta)

lemma h_request_ok:
  "h_request_phase env h sid v w = (Inr u, w') \<Longrightarrow>
     h_origin h \<noteq> [] \<and> hr_parse_uuid env sid \<noteq> None \<and> validate_code_verifier v = Inr () \<and> w' = w"
  by (auto simp: h_request_phase_def run_steps split: if_splits sum.splits)

lemma h_session_ok:
  "h_session_phase env sid w = (Inr (s, slot), w') \<Longrightarrow>
     \<exists>k. get_session_kv_tracked (hr_sessions env) sid (hw_kv w) = (Inr (Some (s, slot)), k) \<and> w' = w\<lparr>hw_kv := k\<rparr>"
  by (auto simp: h_session_phase_def run_steps split: prod.splits sum.splits option.splits)

lemma h_owner_ok:
  "h_owner_phase h s w = (Inr u, w') \<Longrightarrow>
     h_origin h = hs_origin s \<and> hh_public_key h = Some (hs_public_key s) \<and> hs_public_key s \<noteq> [] \<and> w' = w"
  by (auto simp: h_owner_phase_def run_steps split: if_splits option.splits)

lemma h_binding_ok:
  "h_binding_phase env h s w = (Inr u, w') \<Longrightarrow>
     (\<exists>r. hosted_verify_session_binding (hr_binding env) (h_ip h) (hh_user_agent h) (hs_client_ip_hash s)
        (hs_user_agent s) (hr_ip_hash_salt env) (to_logic_mode (hs_binding_mode s)) = Inr r) \<and> w' = w"
  by (auto simp: h_binding_phase_def run_steps split: sum.splits)

lemma h_attempts_ok:
  "h_attempts_phase env t h s w = (Inr u, w') \<Longrightarrow>
     hs_redeem_attempt_count (increment_redeem_attempts s) \<le> 3 \<and> hw_shared w' = hw_shared w"
  by (auto simp: h_attempts_phase_def run_steps Let_def DEFAULT_MAX_REDEEM_ATTEMPTS_def split: if_splits prod.splits)

lemma h_challenge_id_ok:
  "h_challenge_id_phase env s w = (Inr cid, w') \<Longrightarrow> hr_parse_uuid env (hs_verifier_challenge_id s) = Some cid \<and> w' = w"
  by (auto simp: h_challenge_id_phase_def run_steps split: option.splits)

lemma h_nonce_ok:
  "h_nonce_phase env t h ct w = (Inr u, w') \<Longrightarrow>
     \<exists>a. check_and_set (re_nonces (hr_redeem env)) (''hosted_redeem:'' @ ct) (rt_nonce (ht_redeem t)) NONCE_DEDUP_TTL
       (rd_nonces (hw_shared w)) = (Inr True, a) \<and> w' = w\<lparr>hw_shared := (hw_shared w)\<lparr>rd_nonces := a\<rparr>\<rparr>"
  by (auto simp: h_nonce_phase_def run_steps on_nonces_run split: prod.splits sum.splits bool.splits)
    (metis prod.collapse)+

lemma h_load_ok:
  "h_load_phase env t h cid ct w = (Inr c, w') \<Longrightarrow>
     \<exists>d a. store_get (re_challenges (hr_redeem env)) (rt_get (ht_redeem t)) cid (rd_challenges (hw_shared w)) = (Inr (Some d), a) \<and>
       c = zeroize_secret d \<and> w' = w\<lparr>hw_shared := (hw_shared w)\<lparr>rd_challenges := a\<rparr>\<rparr>"
  by (auto simp: h_load_phase_def run_steps on_challenges_run split: prod.splits sum.splits option.splits)
    (metis prod.collapse)+

lemma h_fresh_ok:
  "h_fresh_phase t h ct c w = (Inr u, w') \<Longrightarrow>
     h_origin h = cc_origin c \<and> (rt_now (ht_redeem t) \<le> cc_expires_at c \<or> cc_state c = Verified) \<and> w' = w"
  by (auto simp: h_fresh_phase_def run_steps split: if_splits)

lemma h_retry_ok:
  "h_retry_phase env t cid loaded w = (Inr c, w') \<Longrightarrow>
     c = loaded \<and> (cc_state c = Pending \<or> w' = w) \<or>
     (\<exists>d. store_get (re_challenges (hr_redeem env)) (ht_get_again t) cid (rd_challenges (hw_shared w)) =
        (Inr (Some d), rd_challenges (hw_shared w')) \<and> c = zeroize_secret d)"
  by (auto simp: h_retry_phase_def run_steps on_challenges_run split: if_splits prod.splits sum.splits option.splits)
    (metis prod.collapse)+

lemma h_state_ok: "h_state_phase h ct c w = (Inr u, w') \<Longrightarrow> cc_state c = ProofOkWaitingForRedeem \<and> w' = w"
  by (auto simp: h_state_phase_def run_steps split: if_splits)

lemma h_pkce_ok:
  "h_pkce_phase env h ct c v w = (Inr u, w') \<Longrightarrow> re_sha256 (hr_redeem env) (string_bytes v) = cc_code_challenge_bytes c \<and> w' = w"
  by (auto simp: h_pkce_phase_def run_steps split: if_splits)

lemma h_secret_ok: "h_secret_phase env h w = (Inr s, w') \<Longrightarrow> hr_token_secret env = Some s \<and> w' = w"
  by (auto simp: h_secret_phase_def run_steps split: option.splits)

subsection \<open>What a redemption requires\<close>

text \<open>The session that the request names, its owner, its binding and its attempts.\<close>

definition session_allowed ::
    "hosted_redeem_env \<Rightarrow> hosted_headers \<Rightarrow> string \<Rightarrow> string \<Rightarrow> hosted_redeem_world \<Rightarrow> hosted_session \<Rightarrow> rotation_slot \<Rightarrow> uuid \<Rightarrow> bool" where
  "session_allowed env h session_id v w s slot cid \<longleftrightarrow>
     validate_code_verifier v = Inr () \<and>
     fst (get_session_kv_tracked (hr_sessions env) session_id (hw_kv w)) = Inr (Some (s, slot)) \<and>
     rh_origin h = Some (hs_origin s) \<and> hs_origin s \<noteq> [] \<and> hh_public_key h = Some (hs_public_key s) \<and> hs_public_key s \<noteq> [] \<and>
     (\<exists>r. hosted_verify_session_binding (hr_binding env) (h_ip h) (hh_user_agent h) (hs_client_ip_hash s)
        (hs_user_agent s) (hr_ip_hash_salt env) (to_logic_mode (hs_binding_mode s)) = Inr r) \<and>
     unat (hs_redeem_attempt_count s) < 3 \<and> hr_parse_uuid env (hs_verifier_challenge_id s) = Some cid"

lemma attempts_bound: "hs_redeem_attempt_count (increment_redeem_attempts s) \<le> 3 \<Longrightarrow> unat (hs_redeem_attempt_count s) < 3"
  by (simp add: increment_redeem_attempts_def word_le_nat_alt unat_sat_add)

lemma h_session_allowed:
  assumes "h_session env t h session_id v w = (Inr (s, slot, cid), w')"
  shows "session_allowed env h session_id v w s slot cid \<and> hw_shared w' = hw_shared w"
proof -
  from assms obtain w1 w2 w3 w4 w5 where s:
    "h_request_phase env h session_id v w = (Inr (), w1)" "h_session_phase env session_id w1 = (Inr (s, slot), w2)"
    "h_owner_phase h s w2 = (Inr (), w3)" "h_binding_phase env h s w3 = (Inr (), w4)"
    "h_attempts_phase env t h s w4 = (Inr (), w5)" "h_challenge_id_phase env s w5 = (Inr cid, w')"
    by (auto simp: h_session_def andthen_Inr_iff)
  note f = h_request_ok[OF s(1)] h_session_ok[OF s(2)] h_owner_ok[OF s(3)] h_binding_ok[OF s(4)] h_attempts_ok[OF s(5)]
    h_challenge_id_ok[OF s(6)]
  have "rh_origin h = Some (hs_origin s)" using f(1,3) by (auto simp: h_origin_def split: option.splits)
  with f show ?thesis by (auto simp: session_allowed_def attempts_bound)
qed

text \<open>The challenge behind the session: a proof waits for its redemption, and the verifier is the one committed to.\<close>

lemma h_challenge_allowed:
  assumes "h_challenge env t h cid v w = (Inr (cached, secret), w')"
  shows "\<exists>c a. was_read (re_challenges (hr_redeem env)) cid (rd_challenges (hw_shared w)) c (rd_challenges (hw_shared w')) \<and>
    cached = zeroize_secret c \<and> cc_state c = ProofOkWaitingForRedeem \<and>
    re_sha256 (hr_redeem env) (string_bytes v) = cc_code_challenge_bytes c \<and> hr_token_secret env = Some secret \<and>
    check_and_set (re_nonces (hr_redeem env)) (''hosted_redeem:'' @ cse_uuid_text (re_challenges (hr_redeem env)) cid)
      (rt_nonce (ht_redeem t)) NONCE_DEDUP_TTL (rd_nonces (hw_shared w)) = (Inr True, a)"
proof -
  let ?ct = "cse_uuid_text (re_challenges (hr_redeem env)) cid"
  from assms obtain w1 w2 w3 w4 w5 w6 loaded where s:
    "h_nonce_phase env t h ?ct w = (Inr (), w1)" "h_load_phase env t h cid ?ct w1 = (Inr loaded, w2)"
    "h_fresh_phase t h ?ct loaded w2 = (Inr (), w3)" "h_retry_phase env t cid loaded w3 = (Inr cached, w4)"
    "h_state_phase h ?ct cached w4 = (Inr (), w5)" "h_pkce_phase env h ?ct cached v w5 = (Inr (), w6)"
    "h_secret_phase env h w6 = (Inr secret, w')"
    by (auto simp: h_challenge_def Let_def andthen_Inr_iff)
  from h_nonce_ok[OF s(1)] obtain a where n: "check_and_set (re_nonces (hr_redeem env)) (''hosted_redeem:'' @ ?ct)
      (rt_nonce (ht_redeem t)) NONCE_DEDUP_TTL (rd_nonces (hw_shared w)) = (Inr True, a)"
    "rd_challenges (hw_shared w1) = rd_challenges (hw_shared w)" by auto
  from h_load_ok[OF s(2)] obtain d where l: "loaded = zeroize_secret d"
    "store_get (re_challenges (hr_redeem env)) (rt_get (ht_redeem t)) cid (rd_challenges (hw_shared w)) =
      (Inr (Some d), rd_challenges (hw_shared w2))" using n(2) by auto
  note st = h_state_ok[OF s(5)] h_pkce_ok[OF s(6)] h_secret_ok[OF s(7)] h_fresh_ok[OF s(3)]
  have "\<exists>c. was_read (re_challenges (hr_redeem env)) cid (rd_challenges (hw_shared w)) c (rd_challenges (hw_shared w4)) \<and>
      cached = zeroize_secret c"
    using h_retry_ok[OF s(4)] l st by (auto intro: was_readI)
  then show ?thesis
    using st n(1) by (auto simp: zeroize_secret_def)
qed

text \<open>The steps of a granted redemption.\<close>

definition redeemed_with ::
    "hosted_redeem_env \<Rightarrow> hosted_redeem_clock \<Rightarrow> hosted_headers \<Rightarrow> string \<Rightarrow> rotation_slot \<Rightarrow> cached_challenge \<Rightarrow> string \<Rightarrow>
     string \<Rightarrow> hosted_redeem_response" where
  "redeemed_with env t h session_id slot c secret token =
     \<lparr>hp_status = ''verified'', hp_verified_at = rt_now (ht_redeem t), hp_expires_at = cc_expires_at c,
      hp_set_cookie = generate_session_cookie token (cookie_config_default
        \<lparr>ck_name := session_cookie_name (hr_cookie_var env), ck_max_age := sat_sub (cc_expires_at c) (rt_now (ht_redeem t))\<rparr>),
      hp_secret_version = secret_version_header (hr_mek_labels env) (Some slot)\<rparr>"

lemma h_grant_ok:
  assumes "h_grant env t h session_id slot cid c secret w = (Inr x, w')"
  shows "\<exists>token. sign_token (hr_tokens env) secret
      \<lparr>sd_session_id = session_id, sd_origin = h_origin h, sd_exp = cc_expires_at c\<rparr> = Some token \<and>
    x = Redeemed (redeemed_with env t h session_id slot c secret token) \<and>
    (origin_is_metered (hr_redeem env) (h_origin h) \<longrightarrow>
       (\<exists>n\<in>{1..3}. \<exists>a. decided_by (rt_credit (ht_redeem t) n) a \<and> cp_status a \<in> {200, 409})) \<and>
    store_put (re_challenges (hr_redeem env)) (rt_put (ht_redeem t)) (rt_put_insert (ht_redeem t)) cid
      (redeemed_challenge (rt_now (ht_redeem t)) c) (rd_challenges (hw_shared w)) = (Inr (), rd_challenges (hw_shared w'))"
proof -
  let ?ct = "cse_uuid_text (re_challenges (hr_redeem env)) cid" and ?h = "redeem_headers.truncate h"
  from assms obtain w1 w2 w3 w4 set_cookie where s:
    "h_metered_phase env t h ?ct c w = (Inr (), w1)" "h_put_phase env t h cid ?ct c w1 = (Inr (), w2)"
    "h_audit_phase t h ?ct c w2 = (Inr (), w3)" "h_unmetered_phase env t h ?ct c w3 = (Inr (), w4)"
    "h_cookie_phase env t h session_id secret c w4 = (Inr set_cookie, w')"
    "x = Redeemed \<lparr>hp_status = ''verified'', hp_verified_at = rt_now (ht_redeem t), hp_expires_at = cc_expires_at c,
        hp_set_cookie = set_cookie, hp_secret_version = secret_version_header (hr_mek_labels env) (Some slot)\<rparr>"
    by (auto simp: h_grant_def Let_def andthen_Inr_iff)
  from s(1) obtain a where 1: "metered_phase (hr_redeem env) (ht_redeem t) ?h ?ct (with_origin h c) (hw_shared w) = (Inr (), a)"
    "hw_shared w1 = a" by (auto simp: h_metered_phase_def shared_Inr)
  from s(2) obtain b where 2: "redeem_put_phase (hr_redeem env) (ht_redeem t) ?h cid ?ct c a = (Inr (), b)" "hw_shared w2 = b"
    using 1(2) by (auto simp: h_put_phase_def shared_Inr)
  have 3: "rd_challenges (hw_shared w3) = rd_challenges b"
    using s(3) 2(2) by (auto simp: h_audit_phase_def shared_Inr audit_def Let_def)
  from s(4) have 4: "rd_challenges (hw_shared w4) = rd_challenges (hw_shared w3)"
    by (auto simp: h_unmetered_phase_def shared_Inr dest: challenges_kept(2))
  from s(5) obtain token where 5: "sign_token (hr_tokens env) secret
      \<lparr>sd_session_id = session_id, sd_origin = h_origin h, sd_exp = cc_expires_at c\<rparr> = Some token" "w' = w4"
    "set_cookie = generate_session_cookie token (cookie_config_default
        \<lparr>ck_name := session_cookie_name (hr_cookie_var env), ck_max_age := sat_sub (cc_expires_at c) (rt_now (ht_redeem t))\<rparr>)"
    by (auto simp: h_cookie_phase_def split: option.splits)
  from put_ok[OF 2(1)] challenges_kept(1)[OF 1(1)] have "store_put (re_challenges (hr_redeem env)) (rt_put (ht_redeem t))
      (rt_put_insert (ht_redeem t)) cid (redeemed_challenge (rt_now (ht_redeem t)) c) (rd_challenges (hw_shared w)) =
      (Inr (), rd_challenges b)" by auto
  then show ?thesis
    using s(6) 3 4 5 metered_ok[OF 1(1)] by (auto simp: redeemed_with_def with_origin_def)
qed

text \<open>A granted answer comes from the end of the handler only.\<close>

definition not_redeemed :: "hosted_outcome \<Rightarrow> bool" where
  "not_redeemed x \<longleftrightarrow> (\<forall>r. x \<noteq> Redeemed r)"

lemma shared_not_redeemed: "ends_in not_redeemed (shared m)"
  by (auto simp: ends_in_def not_redeemed_def shared_def split: prod.splits sum.splits)

lemma on_part_ends: "ends_in Q (on_part g u f)"
  by (simp add: ends_in_def on_part_def split_beta)

lemmas not_redeemed_steps = ends_in_andthen ends_in_ret shared_not_redeemed on_part_ends

lemma not_redeemed_phases:
  "ends_in not_redeemed (h_session env t h sid v)" "ends_in not_redeemed (h_challenge env t h cid v)"
  "ends_in not_redeemed (h_grant env t h sid slot cid c secret)"
  unfolding h_session_def h_challenge_def h_grant_def Let_def h_request_phase_def h_session_phase_def h_owner_phase_def
    h_binding_phase_def h_attempts_phase_def h_challenge_id_phase_def h_nonce_phase_def h_load_phase_def h_fresh_phase_def
    h_retry_phase_def h_state_phase_def h_pkce_phase_def h_secret_phase_def h_metered_phase_def h_put_phase_def
    h_audit_phase_def h_unmetered_phase_def h_cookie_phase_def
  by (auto intro!: not_redeemed_steps split: if_splits option.splits sum.splits prod.splits bool.splits
      simp: ends_in_def[of _ "stop _"] not_redeemed_def)

lemma hosted_redeemed_steps:
  assumes "handle_hosted_redeem env t h session_id v w = (Redeemed r, w')"
  shows "\<exists>s slot cid w1 cached secret w2. h_session env t h session_id v w = (Inr (s, slot, cid), w1) \<and>
    h_challenge env t h cid v w1 = (Inr (cached, secret), w2) \<and>
    h_grant env t h session_id slot cid cached secret w2 = (Inr (Redeemed r), w')"
proof -
  have nr: "\<not> not_redeemed (Redeemed r)" by (simp add: not_redeemed_def)
  let ?k = "\<lambda>(session, slot, cid). andthen (h_challenge env t h cid v) (\<lambda>(cached, secret).
      h_grant env t h session_id slot cid cached secret)"
  from assms obtain y where y: "andthen (h_session env t h session_id v) ?k w = (y, w')" "y = Inl (Redeemed r) \<or> y = Inr (Redeemed r)"
    by (auto simp: handle_hosted_redeem_def finish_iff)
  from andthen_past[OF y not_redeemed_phases(1) nr] obtain s slot cid w1 where
    1: "h_session env t h session_id v w = (Inr (s, slot, cid), w1)" "?k (s, slot, cid) w1 = (y, w')" by auto
  from andthen_past[OF 1(2)[unfolded prod.case] y(2) not_redeemed_phases(2) nr] obtain cached secret w2 where
    2: "h_challenge env t h cid v w1 = (Inr (cached, secret), w2)" "h_grant env t h session_id slot cid cached secret w2 = (y, w')"
    by auto
  have "y = Inr (Redeemed r)" using y(2) 2(2) ends_inD[OF not_redeemed_phases(3)] nr by blast
  with 1(1) 2 show ?thesis by blast
qed

lemma hosted_redeemed:
  assumes "handle_hosted_redeem env t h session_id v w = (Redeemed r, w')"
  obtains s slot cid c cw secret token a where
    "session_allowed env h session_id v w s slot cid"
    "was_read (re_challenges (hr_redeem env)) cid (rd_challenges (hw_shared w)) c cw"
    "cc_state c = ProofOkWaitingForRedeem" "re_sha256 (hr_redeem env) (string_bytes v) = cc_code_challenge_bytes c"
    "check_and_set (re_nonces (hr_redeem env)) (''hosted_redeem:'' @ cse_uuid_text (re_challenges (hr_redeem env)) cid)
      (rt_nonce (ht_redeem t)) NONCE_DEDUP_TTL (rd_nonces (hw_shared w)) = (Inr True, a)"
    "hr_token_secret env = Some secret"
    "sign_token (hr_tokens env) secret \<lparr>sd_session_id = session_id, sd_origin = hs_origin s, sd_exp = cc_expires_at c\<rparr> = Some token"
    "r = redeemed_with env t h session_id slot c secret token"
    "origin_is_metered (hr_redeem env) (hs_origin s) \<longrightarrow>
       (\<exists>n\<in>{1..3}. \<exists>a. decided_by (rt_credit (ht_redeem t) n) a \<and> cp_status a \<in> {200, 409})"
    "store_put (re_challenges (hr_redeem env)) (rt_put (ht_redeem t)) (rt_put_insert (ht_redeem t)) cid
      (redeemed_challenge (rt_now (ht_redeem t)) (zeroize_secret c)) cw = (Inr (), rd_challenges (hw_shared w'))"
proof -
  from hosted_redeemed_steps[OF assms] obtain s slot cid w1 cached secret w2 where
    1: "h_session env t h session_id v w = (Inr (s, slot, cid), w1)"
    and 2: "h_challenge env t h cid v w1 = (Inr (cached, secret), w2)"
    and 3: "h_grant env t h session_id slot cid cached secret w2 = (Inr (Redeemed r), w')" by blast
  from h_session_allowed[OF 1] have sa: "session_allowed env h session_id v w s slot cid" "hw_shared w1 = hw_shared w" by auto
  then have orig: "h_origin h = hs_origin s" by (simp add: session_allowed_def h_origin_def)
  from h_challenge_allowed[OF 2] obtain c a where c:
    "was_read (re_challenges (hr_redeem env)) cid (rd_challenges (hw_shared w1)) c (rd_challenges (hw_shared w2))"
    "cached = zeroize_secret c" "cc_state c = ProofOkWaitingForRedeem"
    "re_sha256 (hr_redeem env) (string_bytes v) = cc_code_challenge_bytes c" "hr_token_secret env = Some secret"
    "check_and_set (re_nonces (hr_redeem env)) (''hosted_redeem:'' @ cse_uuid_text (re_challenges (hr_redeem env)) cid)
      (rt_nonce (ht_redeem t)) NONCE_DEDUP_TTL (rd_nonces (hw_shared w1)) = (Inr True, a)" by blast
  have z: "cc_expires_at (zeroize_secret c) = cc_expires_at c" by (simp add: zeroize_secret_def)
  from h_grant_ok[OF 3] obtain token where
    "sign_token (hr_tokens env) secret \<lparr>sd_session_id = session_id, sd_origin = hs_origin s, sd_exp = cc_expires_at c\<rparr> = Some token"
    "r = redeemed_with env t h session_id slot c secret token"
    "origin_is_metered (hr_redeem env) (hs_origin s) \<longrightarrow>
       (\<exists>n\<in>{1..3}. \<exists>a. decided_by (rt_credit (ht_redeem t) n) a \<and> cp_status a \<in> {200, 409})"
    "store_put (re_challenges (hr_redeem env)) (rt_put (ht_redeem t)) (rt_put_insert (ht_redeem t)) cid
      (redeemed_challenge (rt_now (ht_redeem t)) (zeroize_secret c)) (rd_challenges (hw_shared w2)) =
      (Inr (), rd_challenges (hw_shared w'))"
    by (auto simp: c(2) z orig redeemed_with_def)
  with sa c that show thesis by simp
qed

subsection \<open>The nonce\<close>

definition h_same_nonces :: "hosted_redeem_world \<Rightarrow> hosted_redeem_world \<Rightarrow> bool" where
  "h_same_nonces w w' \<longleftrightarrow> rd_nonces (hw_shared w') = rd_nonces (hw_shared w)"

lemma h_same_nonces_rel: "reflp h_same_nonces" "transp h_same_nonces"
  by (auto simp: h_same_nonces_def reflp_def transp_def)

lemma shared_same_nonces: "keeps same_nonces m \<Longrightarrow> keeps h_same_nonces (shared m)"
  by (fastforce simp: keeps_def same_nonces_def h_same_nonces_def shared_def split: prod.splits sum.splits)

lemma on_kv_same_nonces: "keeps h_same_nonces (on_part hw_kv hw_kv_update f)"
  by (auto simp: keeps_def h_same_nonces_def on_part_def split_beta)

lemma leaf_same_nonces:
  "keeps same_nonces (refuse calls e)" "keeps same_nonces (on_challenges f)" "keeps same_nonces (audit calls)"
  by (auto simp: keeps_def same_nonces_def refuse_run on_challenges_run audit_def)

lemmas h_kept = keeps_andthen[OF h_same_nonces_rel(2)] keeps_ret[OF h_same_nonces_rel(1)] keeps_stop[OF h_same_nonces_rel(1)]
  on_kv_same_nonces shared_same_nonces leaf_same_nonces same_nonces_phases

lemma h_session_same_nonces: "keeps h_same_nonces (h_session env t h sid v)"
  unfolding h_session_def h_request_phase_def h_session_phase_def h_owner_phase_def h_binding_phase_def h_attempts_phase_def
    h_challenge_id_phase_def Let_def
  by (auto intro!: h_kept split: if_splits option.splits sum.splits prod.splits)

lemma h_grant_same_nonces: "keeps h_same_nonces (h_grant env t h sid slot cid c secret)"
  unfolding h_grant_def h_metered_phase_def h_put_phase_def h_audit_phase_def h_unmetered_phase_def h_cookie_phase_def Let_def
  by (auto intro!: h_kept split: option.splits)

lemma h_rest_same_nonces:
  "keeps h_same_nonces (h_load_phase env t h cid ct)" "keeps h_same_nonces (h_fresh_phase t h ct c)"
  "keeps h_same_nonces (h_retry_phase env t cid c)" "keeps h_same_nonces (h_state_phase h ct c)"
  "keeps h_same_nonces (h_pkce_phase env h ct c v)" "keeps h_same_nonces (h_secret_phase env h)"
  unfolding h_load_phase_def h_fresh_phase_def h_retry_phase_def h_state_phase_def h_pkce_phase_def h_secret_phase_def
  by (auto intro!: h_kept split: if_splits option.splits sum.splits)

text \<open>Answers that only a request that has claimed the nonce gets.\<close>

definition after_nonce :: "hosted_outcome \<Rightarrow> bool" where
  "after_nonce x \<longleftrightarrow> (\<exists>r. x = Redeemed r) \<or>
     x \<in> {Refused (RedeemError (Conflict (Some ''Proof not submitted yet''))),
          Refused (RedeemError (BadRequest (Some ''Invalid code_verifier''))),
          Refused (RedeemError (ServiceUnavailable (Some ''Session signing unavailable'')))} \<or>
     x \<in> (\<lambda>e. Refused (RedeemError e)) ` billing_refusals"

lemma deny_ends: "Q (Refused (RedeemError e)) \<Longrightarrow> ends_in Q (deny calls e)"
  by (auto simp: ends_in_def deny_run)

lemma before_nonce_phases:
  "ends_in (\<lambda>x. \<not> after_nonce x) (h_request_phase env h sid v)" "ends_in (\<lambda>x. \<not> after_nonce x) (h_session_phase env sid)"
  "ends_in (\<lambda>x. \<not> after_nonce x) (h_owner_phase h s)" "ends_in (\<lambda>x. \<not> after_nonce x) (h_binding_phase env h s)"
  "ends_in (\<lambda>x. \<not> after_nonce x) (h_attempts_phase env t h s)" "ends_in (\<lambda>x. \<not> after_nonce x) (h_challenge_id_phase env s)"
  "ends_in (\<lambda>x. \<not> after_nonce x) (h_nonce_phase env t h ct)"
  unfolding h_request_phase_def h_session_phase_def h_owner_phase_def h_binding_phase_def h_attempts_phase_def
    h_challenge_id_phase_def h_nonce_phase_def Let_def
  by (auto intro!: ends_in_andthen ends_in_ret on_part_ends deny_ends
      simp: after_nonce_def billing_refusals_def billing_unavailable_def validate_code_verifier_def hosted_verify_session_binding_def api_error_of_logic_def
      split: if_splits option.splits sum.splits prod.splits bool.splits logic_error.splits)
    (auto simp: ends_in_def shared_def on_nonces_run)

lemma h_session_before: "ends_in (\<lambda>x. \<not> after_nonce x) (h_session env t h sid v)"
  unfolding h_session_def by (auto intro!: ends_in_andthen ends_in_ret before_nonce_phases split: prod.splits)

text \<open>A request with such an answer has claimed the nonce of its session's challenge.\<close>

lemma hosted_claims:
  assumes "handle_hosted_redeem env t h sid v w = (x, w')" "after_nonce x"
  shows "\<exists>s slot cid. session_allowed env h sid v w s slot cid \<and>
    check_and_set (re_nonces (hr_redeem env)) (''hosted_redeem:'' @ cse_uuid_text (re_challenges (hr_redeem env)) cid)
      (rt_nonce (ht_redeem t)) NONCE_DEDUP_TTL (rd_nonces (hw_shared w)) = (Inr True, rd_nonces (hw_shared w'))"
proof -
  let ?ct = "\<lambda>cid. cse_uuid_text (re_challenges (hr_redeem env)) cid"
  define rest where "rest = (\<lambda>slot cid.
      andthen (h_load_phase env t h cid (?ct cid)) (\<lambda>loaded.
      andthen (h_fresh_phase t h (?ct cid) loaded) (\<lambda>_.
      andthen (h_retry_phase env t cid loaded) (\<lambda>cached.
      andthen (h_state_phase h (?ct cid) cached) (\<lambda>_.
      andthen (h_pkce_phase env h (?ct cid) cached v) (\<lambda>_.
      andthen (h_secret_phase env h) (\<lambda>secret. h_grant env t h sid slot cid cached secret)))))))"
  have kept: "keeps h_same_nonces (rest slot cid)" for slot cid
    unfolding rest_def by (intro h_kept h_rest_same_nonces h_grant_same_nonces)
  let ?k = "\<lambda>(session, slot, cid). andthen (h_nonce_phase env t h (?ct cid)) (\<lambda>_. rest slot cid)"
  have "handle_hosted_redeem env t h sid v = finish (andthen (h_session env t h sid v) ?k)"
    by (simp add: handle_hosted_redeem_def h_challenge_def rest_def andthen_assoc Let_def split_def)
  then obtain y where y: "andthen (h_session env t h sid v) ?k w = (y, w')" "y = Inl x \<or> y = Inr x"
    using assms(1) by (auto simp: finish_iff)
  from andthen_past[OF y h_session_before] assms(2) obtain s slot cid w1 where
    1: "h_session env t h sid v w = (Inr (s, slot, cid), w1)" "?k (s, slot, cid) w1 = (y, w')" by auto
  from andthen_past[OF 1(2)[unfolded prod.case] y(2) before_nonce_phases(7)] assms(2) obtain u w2 where
    2: "h_nonce_phase env t h (?ct cid) w1 = (Inr u, w2)" "rest slot cid w2 = (y, w')" by auto
  from h_session_allowed[OF 1(1)] h_nonce_ok[OF 2(1)] keepsD[OF kept 2(2)]
  show ?thesis by (intro exI[of _ s] exI[of _ slot] exI[of _ cid]) (auto simp: h_same_nonces_def)
qed

subsection \<open>Properties\<close>

text \<open>C8 A hosted redemption is granted only to the browser that the session belongs to: the stored session
  names the request's origin and public key, is bound to it and has attempts left; its challenge waits for
  redemption and commits to the code verifier; the nonce was fresh; a metered origin was billed (200, or 409
  when it had been before); the challenge is written as verified; and the cookie carries a token signed for
  exactly this session, origin and expiry.\<close>

theorem hosted_redeem_granted_only_if:
  assumes "handle_hosted_redeem env t h session_id v w = (Redeemed r, w')"
  shows "\<exists>s slot cid c cw secret token a. session_allowed env h session_id v w s slot cid \<and>
    was_read (re_challenges (hr_redeem env)) cid (rd_challenges (hw_shared w)) c cw \<and>
    cc_state c = ProofOkWaitingForRedeem \<and> re_sha256 (hr_redeem env) (string_bytes v) = cc_code_challenge_bytes c \<and>
    check_and_set (re_nonces (hr_redeem env)) (''hosted_redeem:'' @ cse_uuid_text (re_challenges (hr_redeem env)) cid)
      (rt_nonce (ht_redeem t)) NONCE_DEDUP_TTL (rd_nonces (hw_shared w)) = (Inr True, a) \<and>
    (if origin_is_metered (hr_redeem env) (hs_origin s)
     then \<exists>n a. 1 \<le> n \<and> n \<le> 3 \<and> decided_by (rt_credit (ht_redeem t) n) a \<and> cp_status a \<in> {200, 409} else True) \<and>
    store_put (re_challenges (hr_redeem env)) (rt_put (ht_redeem t)) (rt_put_insert (ht_redeem t)) cid
      (redeemed_challenge (rt_now (ht_redeem t)) (zeroize_secret c)) cw = (Inr (), rd_challenges (hw_shared w')) \<and>
    hr_token_secret env = Some secret \<and>
    sign_token (hr_tokens env) secret \<lparr>sd_session_id = session_id, sd_origin = hs_origin s, sd_exp = cc_expires_at c\<rparr> = Some token \<and>
    r = redeemed_with env t h session_id slot c secret token"
  by (rule hosted_redeemed[OF assms]) (fastforce simp: Bex_def)


text \<open>C15 A hosted session has one attempt, not three: when a first request is granted, or is answered because
  the proof has not arrived yet, because the code verifier is wrong, because the signing secret is missing or
  because billing refuses (the 402, and either 503), it has consumed the challenge's nonce, and for 300 seconds,
  the longest life of a challenge, no further request is granted or gets any of these answers, although the
  attempt counter would allow two more.  It holds for two requests whose session names the same challenge, and
  as long as no storage read inside the nonce objects fails.\<close>

theorem hosted_one_attempt:
  assumes "store_laws (re_nonces (hr_redeem env))"
    and "handle_hosted_redeem env t1 h1 sid v1 w = (x, w1)" "after_nonce x"
    and "\<And>s slot. fst (get_session_kv_tracked (hr_sessions env) sid (hw_kv w)) = Inr (Some (s, slot)) \<Longrightarrow>
      hr_parse_uuid env (hs_verifier_challenge_id s) = Some cid"
    and "\<And>s slot. fst (get_session_kv_tracked (hr_sessions env) sid (hw_kv w2)) = Inr (Some (s, slot)) \<Longrightarrow>
      hr_parse_uuid env (hs_verifier_challenge_id s) = Some cid"
    and "nonces_meanwhile (hr_redeem env) (ht_redeem t1) (hw_shared w1) (ht_redeem t2) (hw_shared w2)"
    and "handle_hosted_redeem env t2 h2 sid v2 w2 = (y, w3)"
  shows "\<not> after_nonce y \<and> y \<noteq> Redeemed r"
proof -
  have "\<not> after_nonce y"
  proof
    assume ny: "after_nonce y"
    let ?tag = "''hosted_redeem:'' @ cse_uuid_text (re_challenges (hr_redeem env)) cid"
    from hosted_claims[OF assms(2,3)] assms(4) have "check_and_set (re_nonces (hr_redeem env)) ?tag (rt_nonce (ht_redeem t1))
        NONCE_DEDUP_TTL (rd_nonces (hw_shared w)) = (Inr True, rd_nonces (hw_shared w1))"
      unfolding session_allowed_def by (metis option.inject)
    moreover from hosted_claims[OF assms(7) ny] assms(5) have "check_and_set (re_nonces (hr_redeem env)) ?tag
        (rt_nonce (ht_redeem t2)) NONCE_DEDUP_TTL (rd_nonces (hw_shared w2)) = (Inr True, rd_nonces (hw_shared w3))"
      unfolding session_allowed_def by (metis option.inject)
    ultimately show False
      using assms(6) single_use.claimed_once[OF nonce_store_single_use[OF assms(1)]] unfolding nonces_meanwhile_def by blast
  qed
  then show ?thesis by (auto simp: after_nonce_def)
qed

subsection \<open>A run\<close>

definition sample_hosted_redeem_env :: hosted_redeem_env where
  "sample_hosted_redeem_env = \<lparr>hr_redeem = sample_redeem_env, hr_sessions = sample_hosted_env, hr_binding = truncating_env,
     hr_ip_hash_salt = ''salt'', hr_tokens = sample_tokens\<lparr>te_parse := (\<lambda>_. Some \<lparr>sd_session_id = ''s1'',
       sd_origin = ''https://rp.example'', sd_exp = 1300\<rparr>)\<rparr>,
     hr_parse_uuid = (\<lambda>_. Some (replicate 16 1)), hr_token_secret = Some ''00'', hr_cookie_var = None,
     hr_mek_labels = \<lparr>tl_role = ''r'', tl_fingerprint = ''f'', tl_fingerprint_previous = ''g''\<rparr>\<rparr>"

definition sample_hosted_clock :: "nat \<Rightarrow> hosted_redeem_clock" where
  "sample_hosted_clock st = \<lparr>ht_redeem = sample_clock st, ht_session_iv = Inr (replicate 12 9), ht_session_update = 1100,
     ht_get_again = (\<lambda>_. 1100000)\<rparr>"

definition sample_hosted_headers :: hosted_headers where
  "sample_hosted_headers = redeem_headers.extend sample_headers \<lparr>hh_public_key = Some ''pk_live_1'', hh_user_agent = None\<rparr>"

definition sample_hosted_world :: hosted_redeem_world where
  "sample_hosted_world = \<lparr>hw_shared = sample_redeem_world (ready_world []),
     hw_kv = (sample_hosted_kv (replicate 32 1) None)\<lparr>hk_store := [session_key ''s1'' \<mapsto>
        (sample_encode (replicate 12 9 @ replicate 16 1 @ string_bytes ''j''), 300)]\<rparr>\<rparr>"

definition sample_verifier :: string where "sample_verifier = replicate 43 (CHR ''a'')"

lemma sample_hosted_redeem_simps [simp]:
  "hr_redeem sample_hosted_redeem_env = sample_redeem_env" "hr_sessions sample_hosted_redeem_env = sample_hosted_env"
  "hr_parse_uuid sample_hosted_redeem_env s = Some (replicate 16 1)" "hr_token_secret sample_hosted_redeem_env = Some ''00''"
  "ht_redeem (sample_hosted_clock st) = sample_clock st" "hw_shared sample_hosted_world = sample_redeem_world (ready_world [])"
  "redeem_headers.truncate sample_hosted_headers = sample_headers" "h_origin sample_hosted_headers = ''https://rp.example''"
  "hh_public_key sample_hosted_headers = Some ''pk_live_1''"
  by (simp_all add: sample_hosted_redeem_env_def sample_hosted_clock_def sample_hosted_world_def sample_hosted_headers_def
      redeem_headers.defs h_origin_def sample_headers_def)

lemma sample_session_simps [simp]:
  "hs_origin sample_session = ''https://rp.example''" "hs_public_key sample_session = ''pk_live_1''"
  "hs_client_ip_hash sample_session = None" "hs_user_agent sample_session = None" "hs_binding_mode sample_session = Hosted_Session.Relaxed"
  "hs_redeem_attempt_count sample_session = 0"
  by (simp_all add: sample_session_def session_new_def)

lemma sample_clock_simps: "rt_now (sample_clock st) = 1100" "rt_nonce (sample_clock st) = 1100000" "rt_get (sample_clock st) = (\<lambda>_. 1100000)"
  by (simp_all add: sample_clock_def)

lemma sample_session_read:
  "fst (get_session_kv_tracked sample_hosted_env ''s1'' (hw_kv sample_hosted_world)) = Inr (Some (sample_session, Current))"
proof -
  have e: "encrypt_with_mek (hosted_crypto.truncate sample_hosted_env) (Inr (replicate 12 9)) (replicate 32 1) ''j'' SESSION_AAD =
      Inr (sample_encode (replicate 12 9 @ replicate 16 1 @ string_bytes ''j''))"
    by (simp add: encrypt_with_mek_def) (simp add: sample_crypto_def)
  show ?thesis
    by (rule get_session_decrypted[where env = sample_hosted_env, OF _ _ _ refl _ _ decrypt_current[OF _ _ e]])
      (simp_all add: sample_hosted_world_def sample_hosted_kv_def next_outcome_def sample_crypto_laws)
qed

lemma sample_h_session:
  "\<exists>k. h_session sample_hosted_redeem_env (sample_hosted_clock st) sample_hosted_headers ''s1'' sample_verifier sample_hosted_world =
     (Inr (sample_session, Current, replicate 16 1), sample_hosted_world\<lparr>hw_kv := k\<rparr>)"
proof -
  let ?e = sample_hosted_redeem_env and ?t = "sample_hosted_clock st" and ?h = sample_hosted_headers and ?w = sample_hosted_world
  have "ascii_only sample_verifier" by (simp add: sample_verifier_def ascii_only_def list_all_iff)
  then have "utf8_chars sample_verifier = replicate 43 97"
    by (simp add: utf8_chars_ascii) (simp add: sample_verifier_def)
  then have "validate_code_verifier sample_verifier = Inr ()"
    by (simp add: validate_code_verifier_def is_ascii_alphanumeric_def is_ascii_digit_def list_all_iff) (simp add: sample_verifier_def)
  then have 1: "h_request_phase ?e ?h ''s1'' sample_verifier ?w = (Inr (), ?w)" by (simp add: h_request_phase_def)
  obtain k where k: "get_session_kv_tracked sample_hosted_env ''s1'' (hw_kv ?w) = (Inr (Some (sample_session, Current)), k)"
    using sample_session_read by (metis prod.collapse)
  have 2: "h_session_phase ?e ''s1'' ?w = (Inr (sample_session, Current), ?w\<lparr>hw_kv := k\<rparr>)"
    by (simp add: h_session_phase_def run_steps k)
  have 3: "h_owner_phase ?h sample_session w = (Inr (), w)" for w by (simp add: h_owner_phase_def)
  have 4: "h_binding_phase ?e ?h sample_session w = (Inr (), w)" for w
    by (simp add: h_binding_phase_def hosted_verify_session_binding_def verify_session_binding_def)
  have c: "hs_redeem_attempt_count (increment_redeem_attempts sample_session) = 1"
    by (simp add: increment_redeem_attempts_def sat_add_def)
  obtain k' where 5: "h_attempts_phase ?e ?t ?h sample_session (?w\<lparr>hw_kv := k\<rparr>) = (Inr (), ?w\<lparr>hw_kv := k'\<rparr>)"
    by (simp add: h_attempts_phase_def Let_def c DEFAULT_MAX_REDEEM_ATTEMPTS_def run_steps split_beta)
  have 6: "h_challenge_id_phase ?e sample_session w = (Inr (replicate 16 1), w)" for w by (simp add: h_challenge_id_phase_def)
  show ?thesis
    unfolding h_session_def by (intro exI[of _ k']) (simp add: andthen_def 1 2 3 4 5 6)
qed

lemma sample_hosted_nonce:
  "\<exists>ns. check_and_set sample_store_env (''hosted_redeem:'' @ sample_id) 1100000 300 (sample_nonce_world []) = (Inr True, ns) \<and> store_ok ns"
proof (rule sample_fresh_claim)
  show "validate_nonce_tag (ne_uni sample_store_env) (''hosted_redeem:'' @ sample_id) = Inr ()"
    by (simp add: validate_nonce_tag_def MAX_NONCE_TAG_LENGTH_def nonce_tag_char_def is_alphanumeric_def
        is_ascii_alphanumeric_def is_ascii_digit_def Let_def sample_id_def)
  show "check_nonce_input (''hosted_redeem:'' @ sample_id) 300 = Inr ()"
    by (simp add: check_nonce_input_def STORE_MAX_NONCE_TAG_LENGTH_def sample_id_def)
qed (simp add: next_delivery_def)

lemma sample_h_challenge:
  "\<exists>ns. h_challenge sample_hosted_redeem_env (sample_hosted_clock st) sample_hosted_headers (replicate 16 1) sample_verifier
      (sample_hosted_world\<lparr>hw_kv := k\<rparr>) =
    (Inr (zeroize_secret ready_challenge, ''00''), sample_hosted_world\<lparr>hw_kv := k,
       hw_shared := (sample_redeem_world (ready_world []))\<lparr>rd_nonces := ns\<rparr>\<rparr>) \<and> store_ok ns"
proof -
  let ?e = sample_hosted_redeem_env and ?t = "sample_hosted_clock st" and ?h = sample_hosted_headers and ?c = "zeroize_secret ready_challenge"
  from sample_hosted_nonce obtain ns where ns: "check_and_set sample_store_env (''hosted_redeem:'' @ sample_id) 1100000 300
      (sample_nonce_world []) = (Inr True, ns)" "store_ok ns" by blast
  let ?w = "sample_hosted_world\<lparr>hw_kv := k\<rparr>"
  let ?w1 = "sample_hosted_world\<lparr>hw_kv := k, hw_shared := (sample_redeem_world (ready_world []))\<lparr>rd_nonces := ns\<rparr>\<rparr>"
  have rw: "rd_nonces (sample_redeem_world cw) = sample_nonce_world []" "rd_challenges (sample_redeem_world cw) = cw" for cw
    by (simp_all add: sample_redeem_world_def)
  have 1: "h_nonce_phase ?e ?t ?h sample_id ?w = (Inr (), ?w1)"
    using ns(1) by (simp add: h_nonce_phase_def run_steps on_nonces_run rw NONCE_DEDUP_TTL_def sample_clock_simps)
  have 2: "h_load_phase ?e ?t ?h (replicate 16 1) sample_id ?w1 = (Inr ?c, ?w1)"
    using sample_read[OF ready_undisturbed, of "replicate 16 1"]
    by (simp add: h_load_phase_def run_steps on_challenges_run rw sample_clock_simps)
  have r: "cc_origin ?c = ''https://rp.example''" "cc_expires_at ?c = 1300" "cc_state ?c = ProofOkWaitingForRedeem"
    "cc_code_challenge_bytes ?c = replicate 32 2"
    by (simp_all add: zeroize_secret_def ready_challenge_def submitted_challenge_def sample_challenge_def)
  have 3: "h_fresh_phase ?t ?h sample_id ?c ?w1 = (Inr (), ?w1)" by (simp add: h_fresh_phase_def r sample_clock_simps)
  have 4: "h_retry_phase ?e ?t (replicate 16 1) ?c ?w1 = (Inr ?c, ?w1)" by (simp add: h_retry_phase_def r)
  have 5: "h_state_phase ?h sample_id ?c ?w1 = (Inr (), ?w1)" by (simp add: h_state_phase_def r)
  have "re_sha256 sample_redeem_env b = replicate 32 2" for b by (simp add: sample_redeem_env_def)
  then have 6: "h_pkce_phase ?e ?h sample_id ?c sample_verifier ?w1 = (Inr (), ?w1)" by (simp add: h_pkce_phase_def r)
  have 7: "h_secret_phase ?e ?h ?w1 = (Inr ''00'', ?w1)" by (simp add: h_secret_phase_def)
  have id: "cse_uuid_text (re_challenges (hr_redeem ?e)) (replicate 16 1) = sample_id" by (simp add: sample_redeem_env_def)
  show ?thesis
    unfolding h_challenge_def Let_def id using ns(2) by (intro exI[of _ ns]) (simp add: andthen_def 1 2 3 4 5 6 7)
qed

lemma sample_h_grant:
  assumes "rd_challenges s = ready_world []"
  shows "\<exists>r w'. h_grant sample_hosted_redeem_env (sample_hosted_clock 200) sample_hosted_headers ''s1'' Current (replicate 16 1)
      (zeroize_secret ready_challenge) ''00'' (sample_hosted_world\<lparr>hw_kv := k, hw_shared := s\<rparr>) = (Inr (Redeemed r), w') \<and>
    hp_expires_at r = 1300 \<and> rd_nonces (hw_shared w') = rd_nonces s"
proof -
  let ?e = sample_hosted_redeem_env and ?t = "sample_hosted_clock 200" and ?h = sample_hosted_headers and ?c = "zeroize_secret ready_challenge"
  have wo: "with_origin ?h ?c = ?c" "cc_expires_at ?c = 1300"
    by (simp_all add: with_origin_def zeroize_secret_def ready_challenge_def submitted_challenge_def sample_challenge_def)
  obtain x sent p where c: "consume_credits sample_credit_env sample_client (credit_request sample_redeem_env sample_id ?c)
      (answering 200) = (x, sent, p)" by (metis prod_cases3)
  with sample_consume[of 200] have x: "x = Inr \<lparr>balance_after_units = None, royalty_units_credited = None\<rparr>" by simp
  let ?s1 = "s\<lparr>rd_sent := rd_sent s @ sent\<rparr>"
  from sample_put[OF ready_undisturbed] obtain cw where put: "store_put ready_env (\<lambda>_. 1100000) (\<lambda>_. 1100000) (replicate 16 1)
      done_challenge (ready_world []) = (Inr (), cw)" by blast
  let ?s2 = "?s1\<lparr>rd_challenges := cw\<rparr>"
  have clk: "rt_credit (sample_clock 200) = answering 200" "rt_put (sample_clock 200) = (\<lambda>_. 1100000)"
    "rt_put_insert (sample_clock 200) = (\<lambda>_. 1100000)"
    by (simp_all add: sample_clock_def)
  have d: "redeemed_challenge 1100 ?c = done_challenge"
    by (simp add: redeemed_challenge_def zeroize_secret_def done_challenge_def) (simp add: ready_challenge_def)
  let ?w = "\<lambda>s. sample_hosted_world\<lparr>hw_kv := k, hw_shared := s\<rparr>"
  have 1: "h_metered_phase ?e ?t ?h sample_id ?c (?w s) = (Inr (), ?w ?s1)"
    by (simp add: h_metered_phase_def wo shared_def metered_phase_def clk c x step_inv)
  have 2: "h_put_phase ?e ?t ?h (replicate 16 1) sample_id ?c (?w ?s1) = (Inr (), ?w ?s2)"
    using put assms by (simp add: h_put_phase_def shared_def redeem_put_phase_def clk d step_inv sample_clock_simps)
  obtain s3 where 3: "h_audit_phase ?t ?h sample_id ?c (?w ?s2) = (Inr (), ?w s3)" "rd_nonces s3 = rd_nonces s"
    by (simp add: h_audit_phase_def shared_def audit_def Let_def)
  have 4: "h_unmetered_phase ?e ?t ?h sample_id ?c (?w s3) = (Inr (), ?w s3)"
    by (simp add: h_unmetered_phase_def shared_def unmetered_phase_def wo run_ends)
  obtain ck where 5: "h_cookie_phase ?e ?t ?h ''s1'' ''00'' ?c (?w s3) = (Inr ck, ?w s3)"
    by (simp add: h_cookie_phase_def sign_token_def Let_def)
       (simp add: sample_hosted_redeem_env_def sample_tokens_def)
  have id: "cse_uuid_text (re_challenges (hr_redeem ?e)) (replicate 16 1) = sample_id" by (simp add: sample_redeem_env_def)
  show ?thesis
    unfolding h_grant_def Let_def id using 3(2) wo(2) by (simp add: andthen_def 1 2 3(1) 4 5)
qed

lemma sample_hosted_redeem:
  "\<exists>r w'. handle_hosted_redeem sample_hosted_redeem_env (sample_hosted_clock 200) sample_hosted_headers ''s1'' sample_verifier
      sample_hosted_world = (Redeemed r, w') \<and> hp_expires_at r = 1300 \<and> store_ok (rd_nonces (hw_shared w'))"
proof -
  from sample_h_session[of 200] obtain k where s: "h_session sample_hosted_redeem_env (sample_hosted_clock 200) sample_hosted_headers
      ''s1'' sample_verifier sample_hosted_world = (Inr (sample_session, Current, replicate 16 1), sample_hosted_world\<lparr>hw_kv := k\<rparr>)" by blast
  from sample_h_challenge[of 200 k] obtain ns where c: "h_challenge sample_hosted_redeem_env (sample_hosted_clock 200)
      sample_hosted_headers (replicate 16 1) sample_verifier (sample_hosted_world\<lparr>hw_kv := k\<rparr>) =
      (Inr (zeroize_secret ready_challenge, ''00''), sample_hosted_world\<lparr>hw_kv := k,
         hw_shared := (sample_redeem_world (ready_world []))\<lparr>rd_nonces := ns\<rparr>\<rparr>)" "store_ok ns" by blast
  have "rd_challenges ((sample_redeem_world (ready_world []))\<lparr>rd_nonces := ns\<rparr>) = ready_world []"
    by (simp add: sample_redeem_world_def)
  from sample_h_grant[OF this, of k] c(2) show ?thesis
    by (auto simp: handle_hosted_redeem_def finish_def andthen_def s c(1))
qed

lemma hosted_redeem_granted_only_if_witness:
  "\<exists>r w' s slot cid. handle_hosted_redeem sample_hosted_redeem_env (sample_hosted_clock 200) sample_hosted_headers ''s1''
      sample_verifier sample_hosted_world = (Redeemed r, w') \<and>
    session_allowed sample_hosted_redeem_env sample_hosted_headers ''s1'' sample_verifier sample_hosted_world s slot cid"
proof -
  from sample_hosted_redeem obtain r w' where r: "handle_hosted_redeem sample_hosted_redeem_env (sample_hosted_clock 200)
      sample_hosted_headers ''s1'' sample_verifier sample_hosted_world = (Redeemed r, w')" by blast
  from hosted_redeem_granted_only_if[OF r] r show ?thesis by blast
qed


lemma hosted_one_attempt_witness:
  "\<exists>r w1 y w3. handle_hosted_redeem sample_hosted_redeem_env (sample_hosted_clock 200) sample_hosted_headers ''s1'' sample_verifier
      sample_hosted_world = (Redeemed r, w1) \<and>
    handle_hosted_redeem sample_hosted_redeem_env (sample_hosted_clock 200) sample_hosted_headers ''s1'' sample_verifier w1 =
      (y, w3) \<and> \<not> after_nonce y"
proof -
  from sample_hosted_redeem obtain r w1 where r: "handle_hosted_redeem sample_hosted_redeem_env (sample_hosted_clock 200)
      sample_hosted_headers ''s1'' sample_verifier sample_hosted_world = (Redeemed r, w1)" "store_ok (rd_nonces (hw_shared w1))" by blast
  obtain y w3 where y: "handle_hosted_redeem sample_hosted_redeem_env (sample_hosted_clock 200) sample_hosted_headers ''s1''
      sample_verifier w1 = (y, w3)" by fastforce
  have l: "store_laws (re_nonces (hr_redeem sample_hosted_redeem_env))" using sample_store_laws by simp
  have a: "after_nonce (Redeemed r)" by (simp add: after_nonce_def)
  have m: "nonces_meanwhile (hr_redeem sample_hosted_redeem_env) (ht_redeem (sample_hosted_clock 200)) (hw_shared w1)
      (ht_redeem (sample_hosted_clock 200)) (hw_shared w1)" using sample_meanwhile[OF r(2)] by simp
  have i: "hr_parse_uuid sample_hosted_redeem_env (hs_verifier_challenge_id s) = Some (replicate 16 1)" for s by simp
  have "\<not> after_nonce y \<and> y \<noteq> Redeemed r" by (rule hosted_one_attempt[OF l r(1) a i i m y])
  with r(1) y show ?thesis by blast
qed

end
