(* ===== verification/Hosted_Keys.thy ===== *)
theory Hosted_Keys imports Hosted_Session Origin_Match begin

text \<open>
  \<open>src/hosted/keys.rs\<close> and \<open>PublicKeyInfo\<close> of \<open>src/hosted/types/config.rs\<close>: the public keys of the
  relying parties of the hosted flow, encrypted in KV, and the origins they are good for. JSON, AES-GCM,
  the url crate's parser and random bytes are arguments; Debug and zeroisation have no functional effect.
\<close>

datatype key_type = Live | Test_Key

record key_pair =
  kp_public_key :: string
  kp_secret_key :: string
  kp_key_type :: key_type

record rate_limit_override =
  rlo_max_requests :: u32
  rlo_window_seconds :: u32

text \<open>The metadata are the text of a JSON value.\<close>

record public_key_data =
  pd_id :: string
  pd_secret_key :: string
  pd_organization_id :: "string option"
  pd_name :: "string option"
  pd_allowed_origins :: "string list"
  pd_rate_limit_override :: "rate_limit_override option"
  pd_enabled :: bool
  pd_created_at :: u64
  pd_updated_at :: u64
  pd_last_used_at :: "u64 option"
  pd_metadata :: string

record public_key_info =
  ki_public_key :: string
  ki_secret_key :: string
  ki_allowed_origins :: "string list"
  ki_active :: bool
  ki_created_at :: u64
  ki_last_used_at :: "u64 option"
  ki_metadata :: "string option"

record key_env = hosted_crypto +
  ky_bound :: bool
  ky_mek :: secret_binding
  ky_parse :: "string \<Rightarrow> string + public_key_data"
  ky_url :: url_parser

definition PUBLIC_KEY_DATA_AAD :: bytes where
  "PUBLIC_KEY_DATA_AAD = string_bytes ''provii-verifier:public_key_data:v1''"

subsection \<open>Keys\<close>

definition key_prefixes :: "key_type \<Rightarrow> string \<times> string" where
  "key_prefixes t = (case t of Live \<Rightarrow> (''pk_live_'', ''sk_live_'') | Test_Key \<Rightarrow> (''pk_test_'', ''sk_test_''))"

text \<open>The arguments are what the two calls of the random generator gave.\<close>

definition generate_key_pair :: "key_type \<Rightarrow> string + bytes \<Rightarrow> string + bytes \<Rightarrow> hosted_error + key_pair" where
  "generate_key_pair key_type public_random secret_random =
     (case public_random of
        Inl e \<Rightarrow> Inl (HInternalError (''Failed to generate random bytes: '' @ e))
      | Inr public_bytes \<Rightarrow>
          (case secret_random of
             Inl e \<Rightarrow> Inl (HInternalError (''Failed to generate random bytes: '' @ e))
           | Inr secret_bytes \<Rightarrow>
               (let (p, s) = key_prefixes key_type
                in Inr \<lparr>kp_public_key = p @ hex_encode public_bytes, kp_secret_key = s @ hex_encode secret_bytes,
                        kp_key_type = key_type\<rparr>)))"

definition validate_key_format :: "string \<Rightarrow> hosted_error + unit" where
  "validate_key_format key =
     (if \<not> starts_with key ''pk_live_'' \<and> \<not> starts_with key ''pk_test_'' then
        Inl (HUnauthorized ''Invalid key format: must start with pk_live_ or pk_test_'')
      else let hex_part = drop 8 key in
        if length hex_part \<noteq> 64 then Inl (HUnauthorized ''Invalid key format: must be 32 bytes (64 hex characters)'')
        else if \<not> list_all is_ascii_hexdigit (utf8_chars hex_part) then
          Inl (HUnauthorized ''Invalid key format: must contain only hexadecimal characters'')
        else Inr ())"

subsection \<open>Origins\<close>

definition validate_origin_pattern :: "string \<Rightarrow> hosted_error + unit" where
  "validate_origin_pattern pattern =
     (if pattern = ''*'' \<or> pattern = ''http://*'' \<or> pattern = ''https://*'' then
        Inl (HInvalidRequest ''Invalid origin pattern: wildcard-only patterns not allowed'')
      else if \<not> starts_with pattern ''http://'' \<and> \<not> starts_with pattern ''https://'' then
        Inl (HInvalidRequest ''Invalid origin pattern: must start with http:// or https://'')
      else if CHR ''*'' \<in> set pattern then
        (case split_once pattern ''*.'' of
           None \<Rightarrow> Inl (HInvalidRequest ''Invalid wildcard pattern: must be in format https://*.domain.com'')
         | Some (_, suffix) \<Rightarrow>
             if CHR ''.'' \<notin> set suffix then
               Inl (HInvalidRequest ''Invalid wildcard pattern: must have domain suffix after wildcard'')
             else Inr ())
      else Inr ())"

definition match_origin :: "url_parser \<Rightarrow> string \<Rightarrow> string \<Rightarrow> bool" where
  "match_origin = origin_matches_pattern"

fun validate_origin_list :: "url_parser \<Rightarrow> string list \<Rightarrow> string \<Rightarrow> hosted_error + unit" where
  "validate_origin_list parse [] origin = Inl (HForbidden (''Origin '' @ [CHR 0x27] @ origin @ [CHR 0x27] @ '' is not allowed for this key''))"
| "validate_origin_list parse (allowed # rest) origin =
     (if match_origin parse allowed origin then Inr () else validate_origin_list parse rest origin)"

definition validate_origin :: "url_parser \<Rightarrow> public_key_data \<Rightarrow> string \<Rightarrow> hosted_error + unit" where
  "validate_origin parse key_data origin = validate_origin_list parse (pd_allowed_origins key_data) origin"

definition is_origin_allowed :: "url_parser \<Rightarrow> public_key_info \<Rightarrow> string \<Rightarrow> bool" where
  "is_origin_allowed parse info origin = list_ex (\<lambda>allowed. origin_matches_pattern parse allowed origin) (ki_allowed_origins info)"

definition key_info_of :: "public_key_data \<Rightarrow> public_key_info" where
  "key_info_of data =
     \<lparr>ki_public_key = pd_id data, ki_secret_key = pd_secret_key data, ki_allowed_origins = pd_allowed_origins data,
      ki_active = pd_enabled data, ki_created_at = pd_created_at data, ki_last_used_at = pd_last_used_at data,
      ki_metadata = Some (pd_metadata data)\<rparr>"

subsection \<open>The stored key\<close>

text \<open>\<open>r\<close> is what the read of KV gives: the text of its error, or the value.\<close>

definition get_key ::
    "key_env \<Rightarrow> string + string option \<Rightarrow> string \<Rightarrow> mek_caches \<Rightarrow> (hosted_error + public_key_data) \<times> mek_caches" where
  "get_key env r public_key m =
     (case validate_key_format public_key of
        Inl e \<Rightarrow> (Inl e, m)
      | Inr _ \<Rightarrow>
     (case r of
        Inl e \<Rightarrow> (Inl (HInternalError (''Failed to fetch key from KV: '' @ e)), m)
      | Inr None \<Rightarrow> (Inl (HUnauthorized ''Invalid or unknown public key''), m)
      | Inr (Some encrypted_value) \<Rightarrow>
     (case get_mek_from_secrets (hosted_crypto.truncate env) (ky_mek env) m of
        (Inl _, m') \<Rightarrow> (Inl (HServiceUnavailable ''Encryption key unavailable''), m')
      | (Inr mek, m') \<Rightarrow>
          (case decrypt_with_mek (hosted_crypto.truncate env) mek encrypted_value PUBLIC_KEY_DATA_AAD of
             Inl _ \<Rightarrow> (Inl (HInternalError ''Failed to decrypt key data''), m')
           | Inr decrypted_json \<Rightarrow>
               (case ky_parse env decrypted_json of
                  Inl e \<Rightarrow> (Inl (HInternalError (''Failed to parse decrypted key data: '' @ e)), m')
                | Inr key_data \<Rightarrow> (Inr key_data, m'))))))"

subsection \<open>Lemmas\<close>

lemma hex_encode_digits: "list_all (\<lambda>c. is_ascii_hexdigit (of_char c)) (hex_encode b)" "length (hex_encode b) = 2 * length b"
proof -
  have "is_ascii_hexdigit (of_char (hex_digit d))" if "d < 16" for d
    using that by (auto simp: hex_digit_def digit_char_def is_ascii_hexdigit_def is_ascii_digit_def)
  moreover have "unat x div 16 < 16" for x :: u8 using unsigned_less[of x, where 'a = nat] by simp
  ultimately show "list_all (\<lambda>c. is_ascii_hexdigit (of_char c)) (hex_encode b)"
    by (simp add: hex_encode_def list_all_iff)
  show "length (hex_encode b) = 2 * length b" by (induction b) (simp_all add: hex_encode_def)
qed

text \<open>A generated key has the format that is asked for, and its secret half does not.\<close>

lemma generated_key_valid:
  assumes "generate_key_pair t (Inr p) (Inr s) = Inr kp" "length p = 32"
  shows "validate_key_format (kp_public_key kp) = Inr ()" "validate_key_format (kp_secret_key kp) \<noteq> Inr ()"
proof -
  have "ascii_only (hex_encode p)"
    using hex_encode_digits(1)[of p] by (auto simp: ascii_only_def list_all_iff is_ascii_hexdigit_def is_ascii_digit_def)
  then have "list_all is_ascii_hexdigit (utf8_chars (hex_encode p))"
    using hex_encode_digits(1)[of p] by (simp add: utf8_chars_ascii list_all_iff)
  with assms show "validate_key_format (kp_public_key kp) = Inr ()"
    by (cases t) (auto simp: generate_key_pair_def key_prefixes_def validate_key_format_def hex_encode_digits(2))
  show "validate_key_format (kp_secret_key kp) \<noteq> Inr ()"
    using assms by (cases t) (auto simp: generate_key_pair_def key_prefixes_def validate_key_format_def)
qed

lemma origin_listed:
  "validate_origin parse d origin = Inr () \<longleftrightarrow> (\<exists>p\<in>set (pd_allowed_origins d). origin_matches_pattern parse p origin)"
proof -
  have "validate_origin_list parse ps origin = Inr () \<longleftrightarrow> (\<exists>p\<in>set ps. origin_matches_pattern parse p origin)" for ps
    by (induction ps) (simp_all add: match_origin_def)
  then show ?thesis by (simp add: validate_origin_def)
qed

lemma info_same_origins: "is_origin_allowed parse (key_info_of d) origin \<longleftrightarrow> validate_origin parse d origin = Inr ()"
  by (simp add: origin_listed is_origin_allowed_def key_info_of_def list_ex_iff)

text \<open>The pattern that allows every origin is one that \<open>validate_origin_pattern\<close> refuses, but no read of a key
  calls it.\<close>

lemma star_allows_all:
  "''*'' \<in> set (pd_allowed_origins d) \<Longrightarrow> validate_origin parse d origin = Inr ()" "validate_origin_pattern ''*'' \<noteq> Inr ()"
  by (auto simp: origin_listed origin_matches_pattern_def validate_origin_pattern_def)

lemma get_key_ok:
  "get_key env r pk m = (Inr d, m') \<Longrightarrow> validate_key_format pk = Inr () \<and> (\<exists>mek v j. r = Inr (Some v) \<and>
     get_mek_from_secrets (hosted_crypto.truncate env) (ky_mek env) m = (Inr mek, m') \<and>
     decrypt_with_mek (hosted_crypto.truncate env) mek v PUBLIC_KEY_DATA_AAD = Inr j \<and> ky_parse env j = Inr d)"
  by (auto simp: get_key_def split: sum.splits option.splits prod.splits)

end
