(* ===== verification/Hosted_Nonce.thy ===== *)
theory Hosted_Nonce imports Single_Use Do_Runtime Audit_Event Hosted_Error Origin_Policy begin

text \<open>
  \<open>src/hosted/durable_objects/hosted_nonce_do.rs\<close> and \<open>sharding.rs\<close>, with \<open>store_nonce_do\<close> of
  \<open>src/hosted/storage/kv.rs\<close>: the objects that remember the nonces of hosted sessions. SeaHash and JSON
  are arguments; response headers and console lines are left out.
\<close>

subsection \<open>The object\<close>

record nonce_record =
  nd_nonce :: string
  nd_created_at :: u64
  nd_expires_at :: u64
  nd_used_by :: "string option"

type_synonym hosted_nonce_storage = "nonce_record storage"

record hosted_nonce_event =
  ne_event_type :: string
  ne_severity :: string
  ne_category :: string
  ne_outcome :: string
  ne_resource_id :: string
  ne_message :: string
  ne_details :: "(string \<times> json) list"

datatype hosted_nonce_body =
    NonceHealth
  | NonceNotFound
  | NonceTooLarge
  | NonceStored bool string "hosted_nonce_event list"

record hosted_nonce_response =
  nu_status :: nat
  nu_body :: hosted_nonce_body

record hosted_nonce_env =
  hn_parse :: "bytes \<Rightarrow> string + (string \<times> u64)"
  hn_body :: "string \<Rightarrow> u64 \<Rightarrow> bytes"
  hn_seahash :: "string \<Rightarrow> u64"

definition HOSTED_MAX_NONCE_BODY_SIZE :: nat where "HOSTED_MAX_NONCE_BODY_SIZE = 4096"

definition hosted_nonce_key :: "string \<Rightarrow> string" where "hosted_nonce_key nonce = ''nonce:'' @ nonce"

text \<open>\<open>let _ = \<dots>\<close>: a failure has no consequence.\<close>

definition ignoring :: "('s, 'e, 'a) step \<Rightarrow> ('s, 'r, unit) step" where
  "ignoring m = (\<lambda>st. (Inr (), snd (m st)))"

text \<open>The clock is read before the comparison (\<open>now_ms\<close>) and again for the new record (\<open>now_ms'\<close>).\<close>

definition put_nonce :: "u64 \<Rightarrow> string \<Rightarrow> u64 \<Rightarrow> (hosted_nonce_storage, worker_error, bool) step" where
  "put_nonce now_ms' nonce ttl_seconds =
     (let now = now_secs now_ms';
          record = \<lparr>nd_nonce = nonce, nd_created_at = now, nd_expires_at = sat_add now ttl_seconds, nd_used_by = None\<rparr>
      in (\<lambda>st. case st_put (hosted_nonce_key nonce) record st of
                 (Inl e, st') \<Rightarrow> (Inl (RustError ''Failed to store nonce: ''), st')
               | (Inr _, st') \<Rightarrow> (Inr True, st')))"

definition check_and_set_internal ::
    "u64 \<Rightarrow> u64 \<Rightarrow> string \<Rightarrow> u64 \<Rightarrow> (hosted_nonce_storage, worker_error, bool) step" where
  "check_and_set_internal now_ms now_ms' nonce ttl_seconds =
     (let storage_key = hosted_nonce_key nonce in
      andthen (st_get_or_none storage_key) (\<lambda>existing.
      case existing of
        Some record \<Rightarrow>
          if nd_expires_at record \<ge> now_secs now_ms then ret False
          else andthen (ignoring (st_delete storage_key)) (\<lambda>_. put_nonce now_ms' nonce ttl_seconds)
      | None \<Rightarrow> put_nonce now_ms' nonce ttl_seconds))"

definition hosted_replay_event :: "string \<Rightarrow> u64 \<Rightarrow> hosted_nonce_event" where
  "hosted_replay_event nonce ttl_seconds =
     \<lparr>ne_event_type = ''nonce_replay_detected'', ne_severity = ''critical'', ne_category = ''security_event'',
      ne_outcome = ''denied'',
      ne_resource_id = (case str_prefix nonce 16 of Some p \<Rightarrow> p | None \<Rightarrow> nonce),
      ne_message = ''Nonce replay attempt detected (already used)'',
      ne_details = [(''ttl_seconds'', jnum ttl_seconds)]\<rparr>"

definition handle_check_and_set ::
    "hosted_nonce_env \<Rightarrow> u64 \<Rightarrow> u64 \<Rightarrow> do_request \<Rightarrow> (hosted_nonce_storage, worker_error, hosted_nonce_response) step" where
  "handle_check_and_set env now_ms now_ms' req =
     andthen (read_body req) (\<lambda>body_bytes.
     if length body_bytes > HOSTED_MAX_NONCE_BODY_SIZE then ret \<lparr>nu_status = 413, nu_body = NonceTooLarge\<rparr>
     else case hn_parse env body_bytes of
            Inl e \<Rightarrow> stop (RustError (''Invalid JSON: '' @ e))
          | Inr (nonce, ttl_seconds) \<Rightarrow>
              andthen (check_and_set_internal now_ms now_ms' nonce ttl_seconds) (\<lambda>stored.
              if stored then ret \<lparr>nu_status = 200, nu_body = NonceStored True ''Nonce stored successfully'' []\<rparr>
              else ret \<lparr>nu_status = 409,
                        nu_body = NonceStored False ''Nonce already used'' [hosted_replay_event nonce ttl_seconds]\<rparr>))"

definition hosted_nonce_fetch ::
    "hosted_nonce_env \<Rightarrow> u64 \<Rightarrow> u64 \<Rightarrow> do_request \<Rightarrow> (hosted_nonce_storage, worker_error, hosted_nonce_response) step" where
  "hosted_nonce_fetch env now_ms now_ms' req =
     (if rq_method req = GET \<and> rq_path req = ''/health'' then ret \<lparr>nu_status = 200, nu_body = NonceHealth\<rparr>
      else if rq_method req = POST \<and> rq_path req = ''/check-and-set'' then handle_check_and_set env now_ms now_ms' req
      else ret \<lparr>nu_status = 404, nu_body = NonceNotFound\<rparr>)"

subsection \<open>The calls of the Worker\<close>

definition compute_shard_id :: "hosted_nonce_env \<Rightarrow> string \<Rightarrow> nat \<Rightarrow> nat" where
  "compute_shard_id env key shard_count = unat (hn_seahash env key) mod max shard_count 1"

definition get_shard_name :: "hosted_nonce_env \<Rightarrow> string \<Rightarrow> string \<Rightarrow> nat \<Rightarrow> string" where
  "get_shard_name env prefix key shard_count = prefix @ ''-shard-'' @ show_nat (compute_shard_id env key shard_count)"

text \<open>\<open>hq_lags\<close>: the milliseconds between the two clock readings of the calls to come.\<close>

record hosted_nonce_world =
  hq_shards :: "string \<Rightarrow> hosted_nonce_storage"
  hq_net :: "delivery list"
  hq_lags :: "u64 list"
  hq_audit :: "hosted_nonce_event list"

definition HOSTED_NONCE_SHARD_COUNT :: nat where "HOSTED_NONCE_SHARD_COUNT = 25"

definition nonce_shard :: "hosted_nonce_env \<Rightarrow> string \<Rightarrow> string" where
  "nonce_shard env nonce = get_shard_name env ''nonce'' nonce HOSTED_NONCE_SHARD_COUNT"

definition next_lag :: "hosted_nonce_world \<Rightarrow> u64" where
  "next_lag w = (case hq_lags w of [] \<Rightarrow> 0 | l # _ \<Rightarrow> l)"

definition nonce_events :: "hosted_nonce_response \<Rightarrow> hosted_nonce_event list" where
  "nonce_events resp = (case nu_body resp of NonceStored _ _ evs \<Rightarrow> evs | _ \<Rightarrow> [])"

definition hosted_nonce_answer :: "(worker_error + hosted_nonce_response) option \<Rightarrow> hosted_error + bool" where
  "hosted_nonce_answer r =
     (case r of
        None \<Rightarrow> Inl (HInternalError ''Nonce check timed out'')
      | Some (Inl _) \<Rightarrow> Inl (HInternalError ''Failed to check nonce'')
      | Some (Inr resp) \<Rightarrow>
          if nu_status resp = 200 then Inr True
          else if nu_status resp = 409 then Inr False
          else Inl (HInternalError ''Failed to check nonce''))"

definition dispatched_events :: "(worker_error + hosted_nonce_response) option \<Rightarrow> hosted_nonce_event list" where
  "dispatched_events r =
     (case r of Some (Inr resp) \<Rightarrow> if nu_status resp \<in> {200, 409} then nonce_events resp else [] | _ \<Rightarrow> [])"

definition store_nonce_do ::
    "hosted_nonce_env \<Rightarrow> string \<Rightarrow> u64 \<Rightarrow> u64 \<Rightarrow> hosted_nonce_world \<Rightarrow> (hosted_error + bool) \<times> hosted_nonce_world" where
  "store_nonce_do env nonce now_ms ttl_seconds w =
     (if nonce = [] then (Inl (HInvalidRequest ''Nonce cannot be empty''), w)
      else let shard = nonce_shard env nonce;
               req = \<lparr>rq_path = ''/check-and-set'', rq_method = POST, rq_body = Some (hn_body env nonce ttl_seconds)\<rparr>;
               (r, st') = do_call (next_delivery (hq_net w))
                 (hosted_nonce_fetch env now_ms (sat_add now_ms (next_lag w)) req) (hq_shards w shard)
           in (hosted_nonce_answer r,
               w\<lparr>hq_shards := (hq_shards w)(shard := st'), hq_net := tl (hq_net w), hq_lags := tl (hq_lags w),
                 hq_audit := hq_audit w @ dispatched_events r\<rparr>))"

subsection \<open>Single use\<close>

definition nonce_body_laws :: "hosted_nonce_env \<Rightarrow> bool" where
  "nonce_body_laws env \<longleftrightarrow> (\<forall>n t. hn_parse env (hn_body env n t) = Inr (n, t))"

definition record_held :: "hosted_nonce_storage \<Rightarrow> string \<Rightarrow> u64 \<Rightarrow> bool" where
  "record_held st nonce t \<longleftrightarrow> (\<exists>r. kv st (hosted_nonce_key nonce) = Some r \<and> t \<le> nd_expires_at r)"

definition hosted_nonce_held :: "hosted_nonce_env \<Rightarrow> hosted_nonce_world \<Rightarrow> string \<Rightarrow> u64 \<Rightarrow> bool" where
  "hosted_nonce_held env w nonce t \<longleftrightarrow> record_held (hq_shards w (nonce_shard env nonce)) nonce t"

definition hosted_nonces_ok :: "hosted_nonce_world \<Rightarrow> bool" where
  "hosted_nonces_ok w \<longleftrightarrow> (\<forall>s. reads_ok (hq_shards w s))"

text \<open>Any other request that an object serves, whose first read does not fail.\<close>

definition object_serves :: "hosted_nonce_env \<Rightarrow> u64 \<Rightarrow> hosted_nonce_world \<Rightarrow> hosted_nonce_world \<Rightarrow> bool" where
  "object_serves env now_ms w w' \<longleftrightarrow>
     (\<exists>s now_ms' req. reads_ok (hq_shards w s) \<and>
        w' = w\<lparr>hq_shards := (hq_shards w)(s := snd (hosted_nonce_fetch env now_ms now_ms' req (hq_shards w s)))\<rparr>)"

lemma nonce_key_inj [simp]: "hosted_nonce_key a = hosted_nonce_key b \<longleftrightarrow> a = b"
  by (simp add: hosted_nonce_key_def)

lemma put_nonce_kv:
  assumes "put_nonce now_ms' nonce ttl st = (x, st')"
  shows "(x = Inr True \<and> record_held st' nonce (sat_add (now_secs now_ms') ttl) \<and>
      (\<forall>k. k \<noteq> hosted_nonce_key nonce \<longrightarrow> kv st' k = kv st k)) \<or> (\<exists>e. x = Inl e) \<and> kv st' = kv st"
  using assms by (auto simp: put_nonce_def Let_def record_held_def split: prod.splits sum.splits dest!: st_put_cases)

lemma internal_kv:
  assumes "check_and_set_internal now_ms now_ms' nonce ttl st = (x, st')"
  shows "x = Inr False \<and> kv st' = kv st \<or>
    (next_fails st \<or> \<not> record_held st nonce (now_secs now_ms)) \<and> x \<noteq> Inr False \<and>
     (x = Inr True \<longrightarrow> record_held st' nonce (sat_add (now_secs now_ms') ttl)) \<and>
     (\<forall>k. k \<noteq> hosted_nonce_key nonce \<longrightarrow> kv st' k = kv st k)"
proof -
  have d: "kv (snd (st_delete (hosted_nonce_key nonce) s)) k = kv s k" if "k \<noteq> hosted_nonce_key nonce"
    for s :: hosted_nonce_storage and k using that by (auto simp: st_delete_def)
  show ?thesis
    using assms
    by (auto simp: check_and_set_internal_def Let_def andthen_def st_get_or_none_eq ignoring_def ret_def record_held_def d
        split: option.splits if_splits dest!: put_nonce_kv)
qed

lemma internal_keeps:
  assumes "check_and_set_internal now_ms now_ms' nonce ttl st = (x, st')" "reads_ok st" "record_held st k t" "now_secs now_ms \<le> t"
  shows "record_held st' k t"
proof (cases "k = nonce")
  case True
  then have "record_held st nonce (now_secs now_ms)" using assms(3,4) by (auto simp: record_held_def)
  with internal_kv[OF assms(1)] assms(2,3) show ?thesis by (auto simp: record_held_def)
next
  case False
  with internal_kv[OF assms(1)] assms(3) show ?thesis by (auto simp: record_held_def)
qed

lemma fetch_keeps:
  assumes "hosted_nonce_fetch env now_ms now_ms' req st = (x, st')" "reads_ok st" "record_held st k t" "now_secs now_ms \<le> t"
  shows "record_held st' k t"
  using assms
  by (auto simp: hosted_nonce_fetch_def handle_check_and_set_def read_body_def andthen_def ret_def stop_def
      split: if_splits option.splits sum.splits prod.splits dest: internal_keeps)

lemma fetch_claim:
  assumes "nonce_body_laws env" and b: "rq_body req = Some (hn_body env nonce ttl)" and p: "rq_path req = ''/check-and-set''" "rq_method req = POST"
    and f: "hosted_nonce_fetch env now_ms now_ms' req st = (Inr r, st')"
  shows "nu_status r = 200 \<Longrightarrow> (next_fails st \<or> \<not> record_held st nonce (now_secs now_ms)) \<and>
    record_held st' nonce (sat_add (now_secs now_ms') ttl)"
  using assms
  by (auto simp: hosted_nonce_fetch_def handle_check_and_set_def read_body_def andthen_def ret_def stop_def nonce_body_laws_def
      split: if_splits prod.splits sum.splits dest!: internal_kv)

lemma store_nonce_run:
  assumes "store_nonce_do env nonce now_ms ttl w = (x, w')"
  shows "w' = w \<and> (\<exists>e. x = Inl e) \<or> (\<exists>req y st'. rq_body req = Some (hn_body env nonce ttl) \<and> rq_path req = ''/check-and-set'' \<and>
    rq_method req = POST \<and>
    hosted_nonce_fetch env now_ms (sat_add now_ms (next_lag w)) req (hq_shards w (nonce_shard env nonce)) = (y, st') \<and>
    (hq_shards w' = hq_shards w \<or> hq_shards w' = (hq_shards w)(nonce_shard env nonce := st')) \<and>
    (\<forall>b. x = Inr b \<longrightarrow> hq_shards w' = (hq_shards w)(nonce_shard env nonce := st') \<and> (\<exists>r. y = Inr r \<and> (b \<longleftrightarrow> nu_status r = 200))))"
proof (cases "nonce = []")
  case True
  with assms show ?thesis by (auto simp: store_nonce_do_def)
next
  case False
  let ?req = "\<lparr>rq_path = ''/check-and-set'', rq_method = POST, rq_body = Some (hn_body env nonce ttl)\<rparr>"
  obtain y st' where f: "hosted_nonce_fetch env now_ms (sat_add now_ms (next_lag w)) ?req (hq_shards w (nonce_shard env nonce)) = (y, st')"
    by fastforce
  obtain r st'' where d: "do_call (next_delivery (hq_net w))
      (hosted_nonce_fetch env now_ms (sat_add now_ms (next_lag w)) ?req) (hq_shards w (nonce_shard env nonce)) = (r, st'')" by fastforce
  from do_call_cases[OF d] f have c: "r = None \<and> st'' = hq_shards w (nonce_shard env nonce) \<or> st'' = st' \<and> (r = None \<or> r = Some y)" by auto
  have x: "x = hosted_nonce_answer r" "hq_shards w' = (hq_shards w)(nonce_shard env nonce := st'')"
    using assms d False by (auto simp: store_nonce_do_def Let_def)
  have a: "(\<exists>q. r = Some (Inr q) \<and> (b \<longleftrightarrow> nu_status q = 200))" if "x = Inr b" for b
    using that x(1) by (auto simp: hosted_nonce_answer_def split: option.splits sum.splits if_splits)
  have "hq_shards w' = hq_shards w \<or> hq_shards w' = (hq_shards w)(nonce_shard env nonce := st')"
    using c x(2) by auto
  moreover have "hq_shards w' = (hq_shards w)(nonce_shard env nonce := st') \<and> (\<exists>r. y = Inr r \<and> (b \<longleftrightarrow> nu_status r = 200))"
    if "x = Inr b" for b using a[OF that] c x(2) by auto
  ultimately have "(hq_shards w' = hq_shards w \<or> hq_shards w' = (hq_shards w)(nonce_shard env nonce := st')) \<and>
    (\<forall>b. x = Inr b \<longrightarrow> hq_shards w' = (hq_shards w)(nonce_shard env nonce := st') \<and> (\<exists>r. y = Inr r \<and> (b \<longleftrightarrow> nu_status r = 200)))"
    by blast
  then show ?thesis
    by (intro disjI2 exI[of _ ?req] exI[of _ y] exI[of _ st']) (simp add: f)
qed

lemma stored_fresh:
  assumes "nonce_body_laws env" "store_nonce_do env nonce now_ms ttl w = (Inr True, w')"
  shows "(next_fails (hq_shards w (nonce_shard env nonce)) \<or> \<not> hosted_nonce_held env w nonce (now_secs now_ms)) \<and>
    hosted_nonce_held env w' nonce (sat_add (now_secs (sat_add now_ms (next_lag w))) ttl)"
proof -
  from store_nonce_run[OF assms(2)] obtain req st' r where q: "rq_body req = Some (hn_body env nonce ttl)"
    "rq_path req = ''/check-and-set''" "rq_method req = POST"
    "hosted_nonce_fetch env now_ms (sat_add now_ms (next_lag w)) req (hq_shards w (nonce_shard env nonce)) = (Inr r, st')"
    "hq_shards w' = (hq_shards w)(nonce_shard env nonce := st')" "nu_status r = 200" by auto
  from fetch_claim[OF assms(1) q(1-4,6)] q(5) show ?thesis by (simp add: hosted_nonce_held_def)
qed

lemma lag_later: "now_secs now_ms \<le> now_secs (sat_add now_ms l)"
  by (simp add: now_secs_def secs_of_millis_mono sat_add_ge)

lemma hosted_nonce_single_use:
  assumes "nonce_body_laws env"
  shows "single_use (store_nonce_do env) hosted_nonces_ok (object_serves env) (hosted_nonce_held env) now_secs"
proof
  show "hosted_nonce_held env w k t \<Longrightarrow> now \<le> t \<Longrightarrow> hosted_nonce_held env w k now" for w k t now
    by (auto simp: hosted_nonce_held_def record_held_def)
  show "\<not> b" if "hosted_nonces_ok w" "hosted_nonce_held env w k (now_secs now)" "store_nonce_do env k now ttl w = (Inr b, w')"
    for w k now ttl b w'
    using stored_fresh[OF assms, of k now ttl w w'] that by (cases b) (auto simp: hosted_nonces_ok_def)
  show "hosted_nonce_held env w' k (sat_add (now_secs now) ttl)" if "store_nonce_do env k now ttl w = (Inr True, w')" for k now ttl w w'
  proof -
    from stored_fresh[OF assms that]
    have "hosted_nonce_held env w' k (sat_add (now_secs (sat_add now (next_lag w))) ttl)" by blast
    moreover have "sat_add (now_secs now) ttl \<le> sat_add (now_secs (sat_add now (next_lag w))) ttl"
      by (rule sat_add_mono[OF lag_later])
    ultimately show ?thesis by (auto simp: hosted_nonce_held_def record_held_def intro: order_trans)
  qed
  show "hosted_nonce_held env w' k' t" if "hosted_nonces_ok w" "store_nonce_do env k now ttl w = (r, w')" "hosted_nonce_held env w k' t"
    "now_secs now \<le> t" for w k now ttl r w' k' t
    using store_nonce_run[OF that(2)]
  proof (elim disjE exE conjE)
    fix e assume "w' = w" with that(3) show ?thesis by simp
  next
    fix req y st' assume f: "hosted_nonce_fetch env now (sat_add now (next_lag w)) req (hq_shards w (nonce_shard env k)) = (y, st')"
      and "hq_shards w' = (hq_shards w)(nonce_shard env k := st')"
    with that fetch_keeps[OF f] show ?thesis by (auto simp: hosted_nonce_held_def hosted_nonces_ok_def)
  next
    assume "hq_shards w' = hq_shards w" with that(3) show ?thesis by (simp add: hosted_nonce_held_def)
  qed
  show "hosted_nonce_held env w' k t" if s: "object_serves env now w w'" and h: "hosted_nonce_held env w k t" and t: "now_secs now \<le> t"
    for now w w' k t
  proof -
    from s obtain sh now_ms' req where w': "reads_ok (hq_shards w sh)"
      "w' = w\<lparr>hq_shards := (hq_shards w)(sh := snd (hosted_nonce_fetch env now now_ms' req (hq_shards w sh)))\<rparr>"
      by (auto simp: object_serves_def)
    obtain x st' where f: "hosted_nonce_fetch env now now_ms' req (hq_shards w sh) = (x, st')" by fastforce
    from fetch_keeps[OF f w'(1)] h t f show ?thesis by (auto simp: w'(2) hosted_nonce_held_def)
  qed
qed

text \<open>C17 A nonce of a hosted session is stored once, as long as the read of its record that each request
  starts with does not fail: while the record lives no other attempt to store it is answered as fresh, at any
  shard count, with requests and answers lost, with failing writes, and whatever else the objects serve.  The
  condition is needed: an object whose first read fails answers as for a fresh nonce.\<close>

theorem hosted_nonce_once:
  assumes "nonce_body_laws env" "store_nonce_do env nonce now_ms ttl w = (Inr True, w1)"
    and "claim_trace (store_nonce_do env) hosted_nonces_ok (object_serves env) w1 es w2"
    and "\<forall>e\<in>set es. now_secs (fst e) \<le> sat_add (now_secs now_ms) ttl"
  shows "\<forall>e\<in>set es. snd e \<noteq> Some (nonce, Inr True)"
  by (rule single_use.single_use[OF hosted_nonce_single_use[OF assms(1)] assms(2-4)])

text \<open>The objects are emptied by nobody: there is no alarm, and a record goes only when its own nonce comes
  again after it has expired, which a random nonce does not.\<close>

lemma records_accumulate:
  assumes "hosted_nonce_fetch env now_ms now_ms' req st = (x, st')" "reads_ok st"
    and "\<forall>b nonce' ttl. rq_body req = Some b \<and> hn_parse env b = Inr (nonce', ttl) \<longrightarrow> nonce' \<noteq> nonce"
  shows "kv st' (hosted_nonce_key nonce) = kv st (hosted_nonce_key nonce)"
  using assms
  by (auto simp: hosted_nonce_fetch_def handle_check_and_set_def read_body_def andthen_def ret_def stop_def
      split: if_splits option.splits sum.splits prod.splits dest!: internal_kv)

definition sample_nonce_env :: hosted_nonce_env where
  "sample_nonce_env = \<lparr>hn_parse = (\<lambda>b. Inr (map (\<lambda>x. char_of (unat x)) (drop 8 b), of_nat (le_value (take 8 b)))),
     hn_body = (\<lambda>n t. le_bytes 8 (unat t) @ string_bytes n), hn_seahash = (\<lambda>s. of_nat (length s))\<rparr>"

lemma sample_nonce_laws: "nonce_body_laws sample_nonce_env"
proof -
  have "char_of (unat (of_nat (of_char c) :: 8 word)) = c" for c
    using nat_of_char_less_256[of c] by (simp add: unat_of_nat)
  then have "map (\<lambda>x. char_of (unat x)) (string_bytes s) = s" for s by (simp add: string_bytes_def comp_def)
  moreover have "unat t < 256 ^ 8" for t :: u64 using unsigned_less[of t] by simp
  ultimately show ?thesis by (simp add: nonce_body_laws_def sample_nonce_env_def le_value_le_bytes)
qed

definition sample_hosted_nonces :: hosted_nonce_world where
  "sample_hosted_nonces = \<lparr>hq_shards = (\<lambda>_. empty_storage), hq_net = [], hq_lags = [], hq_audit = []\<rparr>"

lemma nonce_stored:
  assumes "nonce \<noteq> []" "length (hn_body sample_nonce_env nonce ttl) \<le> HOSTED_MAX_NONCE_BODY_SIZE"
  shows "\<exists>w1. store_nonce_do sample_nonce_env nonce now_ms ttl sample_hosted_nonces = (Inr True, w1) \<and> hosted_nonces_ok w1"
proof -
  have p: "hn_parse sample_nonce_env (hn_body sample_nonce_env nonce ttl) = Inr (nonce, ttl)"
    using sample_nonce_laws by (simp add: nonce_body_laws_def)
  show ?thesis
    using assms p
    by (simp add: store_nonce_do_def sample_hosted_nonces_def do_call_def next_delivery_def hosted_nonce_fetch_def
        handle_check_and_set_def read_body_def check_and_set_internal_def st_get_or_none_eq andthen_def empty_storage_def
        put_nonce_def st_put_def ret_def hosted_nonce_answer_def hosted_nonces_ok_def next_fails_def Let_def)
qed

lemma hosted_nonce_once_witness:
  "\<exists>w1. store_nonce_do sample_nonce_env ''n1'' 5000000 300 sample_hosted_nonces = (Inr True, w1) \<and>
     fst (store_nonce_do sample_nonce_env ''n1'' 5300999 300 w1) \<noteq> Inr True"
proof -
  have "length (hn_body sample_nonce_env ''n1'' 300) \<le> HOSTED_MAX_NONCE_BODY_SIZE"
    by (simp add: sample_nonce_env_def HOSTED_MAX_NONCE_BODY_SIZE_def string_bytes_def)
  then obtain w1 where 1: "store_nonce_do sample_nonce_env ''n1'' 5000000 300 sample_hosted_nonces = (Inr True, w1)" "hosted_nonces_ok w1"
    using nonce_stored by blast
  obtain r w2 where 2: "store_nonce_do sample_nonce_env ''n1'' 5300999 300 w1 = (r, w2)" by fastforce
  have t: "claim_trace (store_nonce_do sample_nonce_env) hosted_nonces_ok (object_serves sample_nonce_env) w1 [(5300999, Some (''n1'', r))] w2"
    using 1(2) 2 by (auto intro: claim_trace.intros)
  have "now_secs 5300999 \<le> sat_add (now_secs 5000000) 300" by (simp add: now_secs_def secs_of_millis_def sat_add_def)
  with hosted_nonce_once[OF sample_nonce_laws 1(1) t] 1(1) 2 show ?thesis by auto
qed

end
