(* ===== verification/Hosted_Rate_Limit.thy ===== *)
theory Hosted_Rate_Limit imports Rate_Limit begin

text \<open>
  \<open>src/hosted/rate_limiting.rs\<close>: the quota of the hosted endpoints, whose counters are batched
  in memory between reads and writes of KV.  Times are the integral milliseconds of
  \<open>Date.now()\<close>; the timings collected for logging are left out.
\<close>

record in_memory_counter =
  mc_count :: u64
  mc_last_synced_at :: int
  mc_kv_count :: u64

record hosted_rate_world =
  hw_kv :: rate_kv
  hw_counters :: "(string \<times> in_memory_counter) list"
  hw_tiers :: tier_cache
  hw_failure_count :: u32
  hw_denied_count :: u32

definition COUNTER_CACHE_MAX_ENTRIES :: nat where "COUNTER_CACHE_MAX_ENTRIES = 5000"
definition COUNTER_SYNC_INTERVAL_MS :: int where "COUNTER_SYNC_INTERVAL_MS = 10000"
definition COUNTER_SYNC_INTERVAL_HITS :: u64 where "COUNTER_SYNC_INTERVAL_HITS = 10"

definition record_kv_success :: "hosted_rate_world \<Rightarrow> hosted_rate_world" where
  "record_kv_success w =
     (if hw_failure_count w > 0 then w\<lparr>hw_failure_count := 0, hw_denied_count := 0\<rparr>
      else w\<lparr>hw_failure_count := 0\<rparr>)"

definition record_kv_failure :: "hosted_rate_world \<Rightarrow> hosted_rate_world" where
  "record_kv_failure w =
     w\<lparr>hw_failure_count := hw_failure_count w + 1, hw_denied_count := hw_denied_count w + 1\<rparr>"

subsection \<open>The counters\<close>

definition hosted_put :: "string \<Rightarrow> u64 \<Rightarrow> u64 \<Rightarrow> hosted_rate_world \<Rightarrow> hosted_rate_world" where
  "hosted_put key n ttl_secs w = w\<lparr>hw_kv := snd (put_with_ttl key (show_u64 n) ttl_secs (hw_kv w))\<rparr>"

text \<open>The fast path: a fresh entry is incremented, and written back on every tenth increment.\<close>

definition counter_hit ::
    "string \<Rightarrow> u32 \<Rightarrow> u64 \<Rightarrow> int \<Rightarrow> in_memory_counter \<Rightarrow> hosted_rate_world \<Rightarrow>
     (bool \<times> u32 \<times> u32 \<times> bool) \<times> hosted_rate_world" where
  "counter_hit key limit ttl_secs now_ms entry w =
     (let n = sat_add (mc_count entry) 1;
          sync = sat_sub n (mc_kv_count entry) \<ge> COUNTER_SYNC_INTERVAL_HITS;
          entry' = (if sync then entry\<lparr>mc_count := n, mc_kv_count := n, mc_last_synced_at := now_ms\<rparr>
                    else entry\<lparr>mc_count := n\<rparr>);
          w1 = w\<lparr>hw_counters := AList.update key entry' (hw_counters w)\<rparr>;
          w2 = (if sync then hosted_put key n ttl_secs w1 else w1)
      in ((\<not> u32_or_max n \<ge> limit, u32_or_max n, limit, False), w2))"

text \<open>The eviction before an insertion: stale entries, then the older half.\<close>

definition evict_counters ::
    "u64 \<Rightarrow> int \<Rightarrow> (string \<times> in_memory_counter) list \<Rightarrow> (string \<times> in_memory_counter) list" where
  "evict_counters ttl_secs now_ms cache =
     (if length cache \<ge> COUNTER_CACHE_MAX_ENTRIES then
        let kept = filter (\<lambda>(_, e). mc_last_synced_at e > now_ms - int (unat ttl_secs) * 1000) cache
        in if length kept \<ge> COUNTER_CACHE_MAX_ENTRIES then
             let victims = map fst (take (length kept div 2) (sort_key (\<lambda>(_, e). mc_last_synced_at e) kept))
             in filter (\<lambda>(k, _). k \<notin> set victims) kept
           else kept
      else cache)"

definition seed_counter ::
    "string \<Rightarrow> u32 \<Rightarrow> u64 \<Rightarrow> int \<Rightarrow> hosted_rate_world \<Rightarrow> (bool \<times> u32 \<times> u32 \<times> bool) \<times> hosted_rate_world" where
  "seed_counter key limit ttl_secs now_ms w =
     (let (r, ns1) = get_text key (hw_kv w); w1 = w\<lparr>hw_kv := ns1\<rparr> in
      case r of
        Inl _ \<Rightarrow> ((False, 0, limit, True), record_kv_failure w1)
      | Inr v \<Rightarrow>
          let kv_count = (case v of
                Some s \<Rightarrow> (case parse_unsigned (2 ^ 64) s of Some n \<Rightarrow> of_nat n | None \<Rightarrow> 0) | None \<Rightarrow> 0);
              new_count = sat_add kv_count (1 :: u64);
              w2 = record_kv_success w1;
              w3 = w2\<lparr>hw_counters := AList.update key
                    \<lparr>mc_count = new_count, mc_last_synced_at = now_ms, mc_kv_count = new_count\<rparr>
                    (evict_counters ttl_secs now_ms (hw_counters w2))\<rparr>
          in if u32_or_max new_count \<ge> limit
             then ((False, u32_or_max new_count, limit, False), hosted_put key new_count ttl_secs w3)
             else ((True, u32_or_max new_count, limit, False), hosted_put key new_count ttl_secs w3))"

definition hosted_check_kv_counter ::
    "string \<Rightarrow> u32 \<Rightarrow> u64 \<Rightarrow> int \<Rightarrow> hosted_rate_world \<Rightarrow> (bool \<times> u32 \<times> u32 \<times> bool) \<times> hosted_rate_world" where
  "hosted_check_kv_counter key limit ttl_secs now_ms w =
     (case map_of (hw_counters w) key of
        Some entry \<Rightarrow>
          if now_ms - mc_last_synced_at entry < COUNTER_SYNC_INTERVAL_MS
          then counter_hit key limit ttl_secs now_ms entry w
          else seed_counter key limit ttl_secs now_ms w
      | None \<Rightarrow> seed_counter key limit ttl_secs now_ms w)"

subsection \<open>The quota\<close>

definition hosted_fetch_limit ::
    "tier_env \<Rightarrow> string \<Rightarrow> string \<Rightarrow> u32 \<Rightarrow> u64 \<Rightarrow> hosted_rate_world \<Rightarrow> u32 \<times> hosted_rate_world" where
  "hosted_fetch_limit env client_id endpoint default_limit now w =
     (case get_text (''rate_limits/clients/'' @ client_id) (hw_kv w) of
        (Inr (Some tier_id), ns1) \<Rightarrow>
          (let (r, ns2) = get_text (''rate_limits/tiers/'' @ tier_id) ns1;
               limits = (case r of Inr (Some json) \<Rightarrow> parse_tier_limits env json | _ \<Rightarrow> (\<lambda>_. None))
           in (limit_or default_limit limits endpoint,
               w\<lparr>hw_kv := ns2,
                 hw_tiers := AList.update client_id \<lparr>ti_limits = limits, ti_fetched_at = now\<rparr> (hw_tiers w)\<rparr>))
      | (_, ns1) \<Rightarrow> (default_limit, w\<lparr>hw_kv := ns1\<rparr>))"

definition hosted_customer_limit ::
    "tier_env \<Rightarrow> string \<Rightarrow> string \<Rightarrow> u32 \<Rightarrow> u64 \<Rightarrow> hosted_rate_world \<Rightarrow> u32 \<times> hosted_rate_world" where
  "hosted_customer_limit env client_id endpoint default_limit now w =
     (case map_of (hw_tiers w) client_id of
        Some entry \<Rightarrow>
          if sat_sub now (ti_fetched_at entry) < 60
          then (limit_or default_limit (ti_limits entry) endpoint, w)
          else hosted_fetch_limit env client_id endpoint default_limit now w
      | None \<Rightarrow> hosted_fetch_limit env client_id endpoint default_limit now w)"

text \<open>
  \<open>now\<close> is the time in seconds at the start, \<open>now_ms\<close> that of the counter and \<open>now'\<close> that of
  the end.  The tier is looked up with the start of the hour as its time.
\<close>

definition hosted_check_quota ::
    "tier_env \<Rightarrow> string \<Rightarrow> string \<Rightarrow> u32 \<Rightarrow> u64 \<Rightarrow> int \<Rightarrow> u64 \<Rightarrow> hosted_rate_world \<Rightarrow>
     rate_limit_result \<times> hosted_rate_world" where
  "hosted_check_quota env client_id endpoint default_limit now now_ms now' w =
     (let h = hour_ts now;
          (limit, w1) = hosted_customer_limit env client_id endpoint default_limit h w;
          ((allowed, count, limit', unavailable), w2) =
            hosted_check_kv_counter (quota_key client_id endpoint h) limit 7200 now_ms w1
      in (\<lparr>rl_allowed = allowed, rl_current_count = count, rl_limit = limit',
           rl_retry_after_secs = u32_or_max (sat_sub (sat_add h 3600) now'),
           rl_read_failed = unavailable\<rparr>, w2))"

subsection \<open>Lemmas\<close>

text \<open>The count that KV holds for a key.\<close>

definition kv_counter :: "hosted_rate_world \<Rightarrow> string \<Rightarrow> u64" where
  "kv_counter w key = (case rk_store (hw_kv w) key of
      Some s \<Rightarrow> (case parse_unsigned (2 ^ 64) s of Some n \<Rightarrow> of_nat n | None \<Rightarrow> 0) | None \<Rightarrow> 0)"

definition stale :: "int \<Rightarrow> hosted_rate_world \<Rightarrow> string \<Rightarrow> bool" where
  "stale now_ms w key \<longleftrightarrow> (case map_of (hw_counters w) key of
      None \<Rightarrow> True | Some e \<Rightarrow> mc_last_synced_at e + 10000 \<le> now_ms)"

lemma kv_counter_put:
  assumes "rk_net (hw_kv w) = []"
  shows "kv_counter (hosted_put key n t w) key = n" "rk_net (hw_kv (hosted_put key n t w)) = []"
    "hw_counters (hosted_put key n t w) = hw_counters w"
  using assms unsigned_less[of n, where 'a = nat]
  by (simp_all add: hosted_put_def put_net kv_counter_def parse_unsigned_show)

lemma count_le_iff: "Suc n < 2 ^ 32 \<Longrightarrow> (l :: u32) \<le> of_nat (Suc n) \<longleftrightarrow> \<not> Suc n < unat l"
  by (simp add: word_le_nat_alt unat_of_nat not_less del: of_nat_Suc)

lemma add_one:
  fixes c :: u64
  assumes "Suc (unat c) < 2 ^ 32"
  shows "sat_add c 1 = c + 1" "unat (c + 1) = Suc (unat c)" "u32_or_max (c + 1) = of_nat (Suc (unat c))"
proof -
  show s: "sat_add c 1 = c + 1" using assms by (simp add: sat_add_def)
  show u: "unat (c + 1) = Suc (unat c)" using assms unat_sat_add[of c 1] by (simp add: s)
  show "u32_or_max (c + 1) = of_nat (Suc (unat c))"
    using assms by (simp add: u32_or_max_def u del: of_nat_Suc)
qed

text \<open>A read of KV: the count goes up by one, in KV and in memory.\<close>

lemma seed_counter_step:
  assumes "rk_net (hw_kv w) = []" "stale now_ms w key" "Suc (unat (kv_counter w key)) < 2 ^ 32"
  shows "\<exists>n w'. hosted_check_kv_counter key limit t now_ms w =
      ((Suc (unat (kv_counter w key)) < unat limit, n, limit, False), w') \<and>
    rk_net (hw_kv w') = [] \<and> unat (kv_counter w' key) = Suc (unat (kv_counter w key)) \<and>
    map_of (hw_counters w') key = Some \<lparr>mc_count = kv_counter w key + 1, mc_last_synced_at = now_ms,
      mc_kv_count = kv_counter w key + 1\<rparr>"
proof -
  let ?c = "kv_counter w key"
  note o = add_one[OF assms(3)]
  have e: "hosted_check_kv_counter key limit t now_ms w = seed_counter key limit t now_ms w"
    using assms(2) by (auto simp: hosted_check_kv_counter_def stale_def COUNTER_SYNC_INTERVAL_MS_def
        split: option.splits)
  let ?w3 = "(record_kv_success w)\<lparr>hw_counters := AList.update key
      \<lparr>mc_count = ?c + 1, mc_last_synced_at = now_ms, mc_kv_count = ?c + 1\<rparr>
      (evict_counters t now_ms (hw_counters (record_kv_success w)))\<rparr>"
  have "seed_counter key limit t now_ms w =
      ((Suc (unat ?c) < unat limit, of_nat (Suc (unat ?c)), limit, False), hosted_put key (?c + 1) t ?w3)"
    unfolding seed_counter_def get_text_net[OF assms(1)]
    by (simp add: kv_counter_def[symmetric] o count_le_iff[OF assms(3)] Let_def del: of_nat_Suc)
  moreover have "rk_net (hw_kv ?w3) = []"
    using assms(1) by (simp add: record_kv_success_def)
  ultimately show ?thesis
    using kv_counter_put[of ?w3 key "?c + 1" t] o(2) by (simp add: e update_conv')
qed

text \<open>A fresh entry: the count goes up by one in memory, and KV is only written on a sync.\<close>

lemma counter_hit_step:
  assumes "map_of (hw_counters w) key = Some e" "now_ms - mc_last_synced_at e < 10000"
    and "Suc (unat (mc_count e)) < 2 ^ 32"
  shows "\<exists>n w' e'. hosted_check_kv_counter key limit t now_ms w =
      ((Suc (unat (mc_count e)) < unat limit, n, limit, False), w') \<and>
    map_of (hw_counters w') key = Some e' \<and> unat (mc_count e') = Suc (unat (mc_count e)) \<and>
    (mc_last_synced_at e' = mc_last_synced_at e \<or> mc_last_synced_at e' = now_ms) \<and>
    (Suc (unat (mc_count e)) - unat (mc_kv_count e) < 10 \<longrightarrow>
       hw_kv w' = hw_kv w \<and> mc_kv_count e' = mc_kv_count e \<and> mc_last_synced_at e' = mc_last_synced_at e)"
proof -
  note o = add_one[OF assms(3)]
  have sync: "COUNTER_SYNC_INTERVAL_HITS \<le> sat_sub (mc_count e + 1) (mc_kv_count e) \<longleftrightarrow>
     \<not> Suc (unat (mc_count e)) - unat (mc_kv_count e) < 10"
    by (auto simp: COUNTER_SYNC_INTERVAL_HITS_def word_le_nat_alt unat_sat_sub o)
  have eq: "hosted_check_kv_counter key limit t now_ms w = counter_hit key limit t now_ms e w"
    using assms(1,2) by (simp add: hosted_check_kv_counter_def COUNTER_SYNC_INTERVAL_MS_def)
  show ?thesis
    unfolding eq counter_hit_def o(1) Let_def sync
    by (simp add: o count_le_iff[OF assms(3)] update_conv' hosted_put_def del: of_nat_Suc)
qed

subsection \<open>Properties\<close>

text \<open>Successive requests on one key, and whether each is admitted.\<close>

fun hosted_hits :: "string \<Rightarrow> u32 \<Rightarrow> u64 \<Rightarrow> int list \<Rightarrow> hosted_rate_world \<Rightarrow> bool list \<times> hosted_rate_world" where
  "hosted_hits key limit ttl [] w = ([], w)"
| "hosted_hits key limit ttl (t # ts) w =
     (let ((a, _, _, _), w1) = hosted_check_kv_counter key limit ttl t w;
          (as, w2) = hosted_hits key limit ttl ts w1
      in (a # as, w2))"

lemma hits_fresh:
  assumes "map_of (hw_counters w) key = Some e" "\<forall>t\<in>set ts. t0 \<le> t \<and> t < t0 + 10000"
    and "t0 \<le> mc_last_synced_at e" "unat (mc_count e) + length ts < 2 ^ 32"
  shows "fst (hosted_hits key limit ttl ts w) =
    map (\<lambda>i. unat (mc_count e) + i < unat limit) [1 ..< Suc (length ts)]"
  using assms
proof (induction ts arbitrary: w e)
  case Nil
  then show ?case by simp
next
  case (Cons t ts)
  from Cons.prems have p: "t - mc_last_synced_at e < 10000" "Suc (unat (mc_count e)) < 2 ^ 32" by auto
  from counter_hit_step[OF Cons.prems(1) p] obtain n w' e' where s:
    "hosted_check_kv_counter key limit ttl t w = ((Suc (unat (mc_count e)) < unat limit, n, limit, False), w')"
    "map_of (hw_counters w') key = Some e'" "unat (mc_count e') = Suc (unat (mc_count e))"
    "t0 \<le> mc_last_synced_at e'"
    using Cons.prems by fastforce
  have "fst (hosted_hits key limit ttl ts w') =
    map (\<lambda>i. unat (mc_count e') + i < unat limit) [1 ..< Suc (length ts)]"
    using Cons.prems s by (intro Cons.IH[OF s(2)]) auto
  moreover have "map (\<lambda>i. unat (mc_count e) + i < unat limit) [1 ..< Suc (Suc (length ts))] =
     (Suc (unat (mc_count e)) < unat limit) # map (\<lambda>i. unat (mc_count e') + i < unat limit) [1 ..< Suc (length ts)]"
  proof -
    have "[1 ..< Suc (Suc (length ts))] = 1 # map Suc [1 ..< Suc (length ts)]"
      by (simp add: map_Suc_upt upt_conv_Cons del: upt_Suc)
    then show ?thesis by (simp add: s(3) del: upt_Suc)
  qed
  ultimately show ?case
    using s(1) by (simp add: split_beta Let_def del: upt_Suc)
qed

text \<open>The hosted quota admits one request less than its limit: of the requests on a key whose
  first one reads KV and whose others follow within ten seconds, the \<open>i\<close>-th is admitted exactly
  when the count before plus \<open>i\<close> stays below the limit, so a fresh bucket of limit \<open>L\<close>
  admits \<open>L - 1\<close>.\<close>

theorem hosted_quota_off_by_one:
  assumes "rk_net (hw_kv w) = []" "stale t0 w key" "\<forall>t\<in>set ts. t0 \<le> t \<and> t < t0 + 10000"
    and "unat (kv_counter w key) + Suc (length ts) < 2 ^ 32"
  shows "fst (hosted_hits key limit ttl (t0 # ts) w) =
    map (\<lambda>i. unat (kv_counter w key) + i < unat limit) [1 ..< Suc (Suc (length ts))]"
proof -
  have "Suc (unat (kv_counter w key)) < 2 ^ 32" using assms(4) by simp
  note c = add_one(2)[OF this]
  from seed_counter_step[OF assms(1,2)] assms(4) obtain n w' where s:
    "hosted_check_kv_counter key limit ttl t0 w =
       ((Suc (unat (kv_counter w key)) < unat limit, n, limit, False), w')"
    "map_of (hw_counters w') key = Some \<lparr>mc_count = kv_counter w key + 1, mc_last_synced_at = t0,
      mc_kv_count = kv_counter w key + 1\<rparr>" by fastforce
  have "fst (hosted_hits key limit ttl ts w') =
    map (\<lambda>i. Suc (unat (kv_counter w key)) + i < unat limit) [1 ..< Suc (length ts)]"
    using hits_fresh[OF s(2) assms(3)] assms(4) c by simp
  moreover have "[1 ..< Suc (Suc (length ts))] = 1 # map Suc [1 ..< Suc (length ts)]"
    by (simp add: map_Suc_upt upt_conv_Cons del: upt_Suc)
  ultimately show ?thesis
    using s(1) by (simp add: split_beta Let_def del: upt_Suc)
qed

lemma hosted_quota_off_by_one_witness:
  "\<exists>w. fst (hosted_hits ''quota:rp:challenge:0'' 3 7200 [5, 6, 7] w) = [True, True, False]"
proof
  let ?w = "\<lparr>hw_kv = \<lparr>rk_store = (\<lambda>_. None), rk_net = []\<rparr>, hw_counters = [], hw_tiers = [],
     hw_failure_count = 0, hw_denied_count = 0\<rparr>"
  show "fst (hosted_hits ''quota:rp:challenge:0'' 3 7200 [5, 6, 7] ?w) = [True, True, False]"
    using hosted_quota_off_by_one[of ?w 5 "''quota:rp:challenge:0''" "[6, 7]" 3 7200]
    by (simp add: stale_def kv_counter_def)
qed

text \<open>Requests that stay in memory: the entry is hit fewer than ten times since it was synced.\<close>

lemma hits_unsynced:
  assumes "map_of (hw_counters w) key = Some e" "mc_last_synced_at e = t"
    and "unat (mc_count e) + n < unat limit" "unat (mc_count e) + n < unat (mc_kv_count e) + 10"
    and "unat (mc_kv_count e) \<le> unat (mc_count e)"
  shows "\<exists>w' e'. hosted_hits key limit ttl (replicate n t) w = (replicate n True, w') \<and> hw_kv w' = hw_kv w \<and>
    map_of (hw_counters w') key = Some e' \<and> mc_last_synced_at e' = t"
  using assms
proof (induction n arbitrary: w e)
  case 0
  then show ?case by simp
next
  case (Suc n)
  have "unat limit < 2 ^ 32" using unsigned_less[of limit, where 'a = nat] by simp
  with Suc.prems have p: "t - mc_last_synced_at e < 10000" "Suc (unat (mc_count e)) < 2 ^ 32"
    "Suc (unat (mc_count e)) - unat (mc_kv_count e) < 10" "Suc (unat (mc_count e)) < unat limit" by auto
  from counter_hit_step[OF Suc.prems(1) p(1,2), of limit ttl] p(3,4) obtain m w' e' where s:
    "hosted_check_kv_counter key limit ttl t w = ((True, m, limit, False), w')"
    "map_of (hw_counters w') key = Some e'" "unat (mc_count e') = Suc (unat (mc_count e))"
    "mc_last_synced_at e' = t" "hw_kv w' = hw_kv w" "mc_kv_count e' = mc_kv_count e"
    using Suc.prems(2) by auto
  from Suc.IH[OF s(2,4)] Suc.prems s obtain w2 e2 where
    "hosted_hits key limit ttl (replicate n t) w' = (replicate n True, w2)" "hw_kv w2 = hw_kv w'"
    "map_of (hw_counters w2) key = Some e2" "mc_last_synced_at e2 = t" by auto
  with s show ?case by simp
qed

lemma hosted_hits_append:
  "hosted_hits key limit ttl (xs @ ys) w =
     (let (as, w1) = hosted_hits key limit ttl xs w; (bs, w2) = hosted_hits key limit ttl ys w1 in (as @ bs, w2))"
  by (induction xs arbitrary: w) (auto simp: split_beta Let_def)

text \<open>One burst: a request that reads KV and nine more at the same time.\<close>

lemma burst:
  assumes "rk_net (hw_kv w) = []" "stale t w key" "unat (kv_counter w key) + 10 < unat limit"
  shows "\<exists>w'. hosted_hits key limit ttl (replicate 10 t) w = (replicate 10 True, w') \<and>
    rk_net (hw_kv w') = [] \<and> unat (kv_counter w' key) = Suc (unat (kv_counter w key)) \<and>
    (\<forall>t'. t + 10000 \<le> t' \<longrightarrow> stale t' w' key)"
proof -
  have "Suc (unat (kv_counter w key)) < 2 ^ 32"
    using assms(3) unsigned_less[of limit, where 'a = nat] by simp
  from seed_counter_step[OF assms(1,2) this, of limit ttl] add_one(2)[OF this] assms(3) obtain n w1 where s:
    "hosted_check_kv_counter key limit ttl t w = ((True, n, limit, False), w1)" "rk_net (hw_kv w1) = []"
    "unat (kv_counter w1 key) = Suc (unat (kv_counter w key))"
    "map_of (hw_counters w1) key = Some \<lparr>mc_count = kv_counter w key + 1, mc_last_synced_at = t,
      mc_kv_count = kv_counter w key + 1\<rparr>" "unat (kv_counter w key + 1) = Suc (unat (kv_counter w key))"
    by auto
  from hits_unsynced[OF s(4), of t 9 limit ttl] s(5) assms(3) obtain w2 e2 where
    h: "hosted_hits key limit ttl (replicate 9 t) w1 = (replicate 9 True, w2)" "hw_kv w2 = hw_kv w1"
    "map_of (hw_counters w2) key = Some e2" "mc_last_synced_at e2 = t" by auto
  have "replicate 10 t = t # replicate 9 t" "replicate 10 True = True # replicate 9 True"
    by (simp_all add: numeral_eq_Suc)
  then have "hosted_hits key limit ttl (replicate 10 t) w = (replicate 10 True, w2)"
    using s(1) h(1) by simp
  with h s show ?thesis by (auto simp: stale_def kv_counter_def)
qed

text \<open>The hosted quota does not bound the admitted requests by its limit: bursts of ten
  requests at least ten seconds apart are all admitted while each burst raises the counter in KV
  by one only, since the increments kept in memory are dropped when the entry goes stale; so
  about ten times the limit is admitted before the first refusal.\<close>

theorem hosted_quota_undercounts:
  assumes "rk_net (hw_kv w) = []" "case ts of [] \<Rightarrow> True | t # _ \<Rightarrow> stale t w key"
    and "successively (\<lambda>t t'. t + 10000 \<le> t') ts"
    and "unat (kv_counter w key) + length ts + 10 \<le> unat limit"
  shows "fst (hosted_hits key limit ttl (concat (map (replicate 10) ts)) w) = replicate (10 * length ts) True \<and>
    unat (kv_counter (snd (hosted_hits key limit ttl (concat (map (replicate 10) ts)) w)) key) =
      unat (kv_counter w key) + length ts"
  using assms
proof (induction ts arbitrary: w)
  case Nil
  then show ?case by simp
next
  case (Cons t ts)
  from burst[OF Cons.prems(1), of t key limit ttl] Cons.prems obtain w' where s:
    "hosted_hits key limit ttl (replicate 10 t) w = (replicate 10 True, w')" "rk_net (hw_kv w') = []"
    "unat (kv_counter w' key) = Suc (unat (kv_counter w key))" "\<forall>t'. t + 10000 \<le> t' \<longrightarrow> stale t' w' key"
    by auto
  have n: "case ts of [] \<Rightarrow> True | t # _ \<Rightarrow> stale t w' key" "successively (\<lambda>t t'. t + 10000 \<le> t') ts"
    using Cons.prems(3) s(4) by (auto simp: successively_Cons split: list.splits)
  from Cons.IH[OF s(2) n] s(3) Cons.prems(4) show ?case
    by (simp add: hosted_hits_append s(1) split_beta Let_def replicate_add)
qed

lemma hosted_quota_undercounts_witness:
  "\<exists>w. fst (hosted_hits ''quota:rp:challenge:0'' 13 7200 (concat (map (replicate 10) [0, 10000, 20000])) w) =
     replicate 30 True"
proof
  let ?w = "\<lparr>hw_kv = \<lparr>rk_store = (\<lambda>_. None), rk_net = []\<rparr>, hw_counters = [], hw_tiers = [],
     hw_failure_count = 0, hw_denied_count = 0\<rparr>"
  show "fst (hosted_hits ''quota:rp:challenge:0'' 13 7200 (concat (map (replicate 10) [0, 10000, 20000])) ?w) =
     replicate 30 True"
    using hosted_quota_undercounts[where w = ?w and ts = "[0, 10000, 20000]" and key = "''quota:rp:challenge:0''"
        and limit = 13 and ttl = 7200]
    by (simp add: stale_def kv_counter_def)
qed

end
