(* ===== verification/Hosted_Challenge.thy ===== *)
theory Hosted_Challenge imports Create_Challenge Hosted_Redeem Hosted_Keys Hosted_Nonce Hosted_Rate_Limit begin

text \<open>
  \<open>src/hosted/endpoints/challenge.rs\<close> and the request of \<open>src/hosted/types/requests.rs\<close>: the creation of a
  hosted verification, from the body to the answer, with the nonce in its object, the challenge in its
  Durable Object, the short code in KV and the encrypted session. JSON, the lengths that serde_valid
  counts, base64url, \<open>rp_challenge\<close> and the random values are arguments; analytics, timings and console
  lines are left out.
\<close>

subsection \<open>The request\<close>

record hosted_create_request =
  zq_public_key :: string
  zq_origin :: string
  zq_code_challenge :: string
  zq_code_challenge_method :: string
  zq_environment :: string

record hosted_challenge_response =
  zr_session_id :: string
  zr_challenge_id :: string
  zr_qr_code_url :: string
  zr_challenge_code :: string
  zr_short_code :: string
  zr_short_code_formatted :: "string option"
  zr_expires_at :: u64
  zr_status :: string
  zr_rp_challenge :: string
  zr_submit_secret :: string
  zr_cutoff_days :: int
  zr_verifying_key_id :: u32
  zr_status_url :: string
  zr_verify_url :: string
  zr_proof_direction :: string
  zr_failure_mode :: "string option"
  zr_failure_mode_locked :: bool
  zr_csrf_token :: "string option"
  zr_ws_url :: "string option"

record hosted_create_env =
  zv_environment :: string
  zv_base_url :: string
  zv_session_ttl_var :: "string option"
  zv_quota_var :: "string option"
  zv_parse_body :: "bytes \<Rightarrow> hosted_create_request option"
  zv_count :: "string \<Rightarrow> nat"
  zv_invalid :: "hosted_create_request \<Rightarrow> string"
  zv_keys :: key_env
  zv_rate_bound :: bool
  zv_tiers :: tier_env
  zv_parse_policy :: "string \<Rightarrow> string + origin_policy"
  zv_credit_entry :: "string \<Rightarrow> origin_index_credit option"
  zv_organization :: "string \<Rightarrow> string option option"
  zv_rp_challenge :: "string \<Rightarrow> bytes \<Rightarrow> bytes"
  zv_encode :: "bytes \<Rightarrow> string"
  zv_decode :: "string \<Rightarrow> bytes option"
  zv_nonces :: hosted_nonce_env
  zv_challenges :: challenge_store_env
  zv_config_bound :: bool
  zv_sessions :: hosted_env
  zv_binding :: crypto_env
  zv_ip_hash_salt :: string
  zv_token_secret :: "string option"

text \<open>What is read from the clocks, the random generator and KV. \<open>zt_code_builder\<close> tells whether the write of
  the short code can be built, and \<open>zt_code_write\<close> how it ends.\<close>

record hosted_create_clock =
  zt_key_read :: "string \<Rightarrow> string + string option"
  zt_quota :: "u64 \<times> int \<times> u64"
  zt_policy :: "u64 \<times> kv_read"
  zt_today :: u64
  zt_date :: js_date
  zt_origin_index :: "(string \<Rightarrow> kv_read) option"
  zt_uuid :: uuid
  zt_nonce :: "bytes option"
  zt_secret :: "bytes api_result"
  zt_now :: u64
  zt_session_id :: string
  zt_nonce_ms :: u64
  zt_put :: "nat \<Rightarrow> u64"
  zt_put_insert :: "nat \<Rightarrow> u64"
  zt_code_builder :: bool
  zt_code_write :: kv_outcome
  zt_verifier :: "bytes option"
  zt_session_now :: u64
  zt_session_iv :: "string + bytes"

datatype hosted_create_audit =
    HSuspicious string string
  | HCreated string string string string

record hosted_create_world =
  zx_kv :: hosted_kv
  zx_rate :: hosted_rate_world
  zx_policies :: policy_cache
  zx_nonces :: hosted_nonce_world
  zx_challenges :: challenge_world
  zx_codes :: "string \<rightharpoonup> string"
  zx_audit :: "hosted_create_audit list"

datatype hosted_create_outcome =
    HostedCreated hosted_challenge_response
  | HostedError api_error
  | HostedPropagated api_error
  | HostedUnavailable u32

type_synonym 'a hcreate_step = "(hosted_create_world, hosted_create_outcome, 'a) step"

abbreviation z_audit :: "hosted_create_audit list \<Rightarrow> unit hcreate_step" where
  "z_audit \<equiv> append_to zx_audit_update"

definition z_refuse :: "hosted_headers \<Rightarrow> string \<Rightarrow> api_error \<Rightarrow> 'a hcreate_step" where
  "z_refuse h event e = andthen (z_audit [HSuspicious (h_ip h) event]) (\<lambda>_. stop (HostedError e))"

text \<open>The error of a failure that is not the caller's.\<close>

definition z_fail :: "'a hcreate_step" where "z_fail = stop (HostedPropagated (ServiceUnavailable None))"

definition body_schema_invalid :: "string \<Rightarrow> string \<Rightarrow> api_error" where
  "body_schema_invalid field detail = bad_request ''BODY_SCHEMA_INVALID'' (Some field) detail"

subsection \<open>The body\<close>

definition validate_code_challenge_method :: "string \<Rightarrow> bool" where
  "validate_code_challenge_method m \<longleftrightarrow> m = ''S256''"

definition validate_environment :: "string \<Rightarrow> bool" where
  "validate_environment e \<longleftrightarrow> e = ''production'' \<or> e = ''sandbox''"

definition hosted_request_valid :: "(string \<Rightarrow> nat) \<Rightarrow> hosted_create_request \<Rightarrow> bool" where
  "hosted_request_valid count body \<longleftrightarrow>
     count (zq_public_key body) \<le> 128 \<and> count (zq_origin body) \<le> 256 \<and> count (zq_code_challenge body) \<le> 128 \<and>
     validate_code_challenge_method (zq_code_challenge_method body) \<and> validate_environment (zq_environment body)"

definition z_body_phase :: "hosted_create_env \<Rightarrow> bytes \<Rightarrow> hosted_create_request hcreate_step" where
  "z_body_phase env body_bytes =
     (case zv_parse_body env body_bytes of
        None \<Rightarrow> stop (HostedPropagated (body_schema_invalid ''body''
                  ''Request body could not be parsed as JSON or has unknown fields''))
      | Some body \<Rightarrow>
          if \<not> hosted_request_valid (zv_count env) body then
            stop (HostedError (body_schema_invalid ''body'' (''Request validation failed: '' @ zv_invalid env body)))
          else ret body)"

text \<open>A field of the body, or else the header, when it is not empty.\<close>

definition z_field :: "hosted_headers \<Rightarrow> string \<Rightarrow> string option \<Rightarrow> string \<Rightarrow> api_error \<Rightarrow> string hcreate_step" where
  "z_field h field header event e =
     (if field \<noteq> [] then ret field
      else case header of
             Some v \<Rightarrow> if v \<noteq> [] then ret v else z_refuse h event e
           | None \<Rightarrow> z_refuse h event e)"

definition MAX_ORIGIN_LENGTH :: nat where "MAX_ORIGIN_LENGTH = 2048"

definition z_fields_phase :: "hosted_headers \<Rightarrow> hosted_create_request \<Rightarrow> (string \<times> string) hcreate_step" where
  "z_fields_phase h body =
     andthen (z_field h (zq_public_key body) (hh_public_key h) ''hosted_challenge:missing_public_key''
       (body_schema_invalid ''public_key''
         ''public key is required (set the `public_key` body field or the `X-Public-Key` header)'')) (\<lambda>public_key.
     andthen (z_field h (zq_origin body) (rh_origin h) ''hosted_challenge:missing_origin''
       (body_schema_invalid ''origin'' ''origin is required (set the `origin` body field or the `Origin` header)'')) (\<lambda>origin.
     if length origin > MAX_ORIGIN_LENGTH then
       stop (HostedError (body_schema_invalid ''origin'' ''origin exceeds the maximum allowed length (2048 bytes)''))
     else ret (public_key, origin)))"

subsection \<open>The key and the origin\<close>

definition z_key_phase ::
    "hosted_create_env \<Rightarrow> hosted_create_clock \<Rightarrow> hosted_headers \<Rightarrow> string \<Rightarrow> public_key_data hcreate_step" where
  "z_key_phase env t h public_key =
     (case validate_key_format public_key of
        Inl _ \<Rightarrow> z_refuse h ''hosted_challenge:invalid_key_format''
          (body_schema_invalid ''public_key'' ''public_key is not a valid public-key identifier'')
      | Inr _ \<Rightarrow>
          if \<not> ky_bound (zv_keys env) then z_fail
          else andthen (on_part zx_kv zx_kv_update (\<lambda>w.
                 case get_key (zv_keys env) (zt_key_read t public_key) public_key (hk_meks w) of
                   (r, m) \<Rightarrow> (r, w\<lparr>hk_meks := m\<rparr>))) (\<lambda>r.
               case r of
                 Inl _ \<Rightarrow> z_refuse h ''hosted_challenge:unknown_public_key'' Unauthorized
               | Inr key_data \<Rightarrow>
                   if \<not> pd_enabled key_data then z_refuse h ''hosted_challenge:disabled_public_key'' Unauthorized
                   else ret key_data))"

definition is_sandbox_test_key :: "hosted_create_env \<Rightarrow> string \<Rightarrow> bool" where
  "is_sandbox_test_key env public_key \<longleftrightarrow> zv_environment env = ''sandbox'' \<and> starts_with public_key ''pk_test_''"

definition z_origin_phase ::
    "hosted_create_env \<Rightarrow> hosted_headers \<Rightarrow> string \<Rightarrow> string \<Rightarrow> public_key_data \<Rightarrow> unit hcreate_step" where
  "z_origin_phase env h public_key origin key_data =
     (if is_sandbox_test_key env public_key then ret ()
      else case validate_origin (ky_url (zv_keys env)) key_data origin of
             Inl _ \<Rightarrow> z_refuse h ''hosted_challenge:origin_not_allowed'' (Forbidden (Some ''Origin not allowed for this key''))
           | Inr _ \<Rightarrow> ret ())"

definition hosted_default_quota :: "hosted_create_env \<Rightarrow> u32" where
  "hosted_default_quota env =
     (case zv_quota_var env of
        Some v \<Rightarrow> (case parse_unsigned (2 ^ 32) v of Some n \<Rightarrow> of_nat n | None \<Rightarrow> 500)
      | None \<Rightarrow> 500)"

definition hosted_session_ttl :: "hosted_create_env \<Rightarrow> u64" where
  "hosted_session_ttl env =
     (case zv_session_ttl_var env of
        Some v \<Rightarrow> (case parse_unsigned (2 ^ 64) v of Some n \<Rightarrow> of_nat n | None \<Rightarrow> 300)
      | None \<Rightarrow> 300)"

definition z_quota_phase ::
    "hosted_create_env \<Rightarrow> hosted_create_clock \<Rightarrow> hosted_headers \<Rightarrow> string \<Rightarrow> unit hcreate_step" where
  "z_quota_phase env t h public_key =
     (if \<not> zv_rate_bound env then stop (HostedUnavailable 5)
      else case zt_quota t of (now, now_ms, now') \<Rightarrow>
        andthen (on_part zx_rate zx_rate_update
          (hosted_check_quota (zv_tiers env) public_key ''challenge'' (hosted_default_quota env) now now_ms now')) (\<lambda>result.
        if rl_read_failed result then stop (HostedUnavailable 5)
        else if \<not> rl_allowed result then
          z_refuse h ''hosted_challenge:rate_limit_exceeded'' (TooManyRequests (Some ''Rate limit exceeded''))
        else ret ()))"

subsection \<open>The policy, the cutoff and the key of the circuit\<close>

text \<open>\<open>VK_ID\<close> of \<open>src/lib.rs\<close>.\<close>

definition VK_ID :: u32 where "VK_ID = 914153247"

definition sandbox_default_policy :: "u64 \<Rightarrow> origin_policy" where
  "sandbox_default_policy now = (origin_policy_default now)\<lparr>op_tenant_id := ''sandbox_default'', op_min_age_years := 18,
     op_allowed_vk_ids := [VK_ID], op_max_ttl_sec := 300,
     op_billing := \<lparr>bi_plan = ''sandbox'', bi_metering_enabled = False\<rparr>, op_enabled := True\<rparr>"

text \<open>A disabled policy is looked up like a missing one.\<close>

definition z_policy_phase ::
    "hosted_create_env \<Rightarrow> hosted_create_clock \<Rightarrow> string \<Rightarrow> string \<Rightarrow> origin_policy hcreate_step" where
  "z_policy_phase env t public_key origin =
     andthen (on_part zx_policies zx_policies_update
       (case zt_policy t of (now, r) \<Rightarrow> get_policy (zv_parse_policy env) now origin r)) (\<lambda>r.
     case r of
       Inr (Some p) \<Rightarrow> ret p
     | Inr None \<Rightarrow>
         if is_sandbox_test_key env public_key then ret (sandbox_default_policy (fst (zt_policy t)))
         else stop (HostedError (Forbidden (Some ''Origin not approved'')))
     | Inl e \<Rightarrow> stop (HostedError (Internal (display e))))"

text \<open>\<open>i32::try_from(x).unwrap_or(i32::MAX)\<close> and the saturating difference.\<close>

definition i32_or_max :: "u32 \<Rightarrow> int" where
  "i32_or_max x = (case i32_try_from x of Some i \<Rightarrow> i | None \<Rightarrow> 2 ^ 31 - 1)"

definition i32_saturating_sub :: "int \<Rightarrow> int \<Rightarrow> int" where
  "i32_saturating_sub a b = max (- (2 ^ 31)) (min (2 ^ 31 - 1) (a - b))"

definition hosted_cutoff_days :: "u64 \<Rightarrow> js_date \<Rightarrow> u32 \<Rightarrow> string + int" where
  "hosted_cutoff_days secs date age_years =
     (let days = secs div 86400;
          today_epoch_days = (if unat days < 2 ^ 32 then ucast days else - 1 :: u32);
          age_days = calculate_exact_days_for_years date age_years
      in cutoff_days_new (i32_saturating_sub (i32_or_max today_epoch_days) (i32_or_max age_days)))"

definition z_cutoff_phase :: "hosted_create_clock \<Rightarrow> origin_policy \<Rightarrow> int hcreate_step" where
  "z_cutoff_phase t policy =
     (case age_threshold policy of
        Inl _ \<Rightarrow> z_fail
      | Inr age_years \<Rightarrow>
          (case hosted_cutoff_days (zt_today t) (zt_date t) age_years of
             Inl _ \<Rightarrow> z_fail
           | Inr cutoff \<Rightarrow> ret cutoff))"

definition z_vk_phase :: "origin_policy \<Rightarrow> u32 hcreate_step" where
  "z_vk_phase policy =
     (case op_allowed_vk_ids policy of
        [] \<Rightarrow> z_fail
      | first_vk # _ \<Rightarrow> (case vk_id_new first_vk of None \<Rightarrow> z_fail | Some v \<Rightarrow> ret v))"

definition z_index :: "hosted_create_clock \<Rightarrow> string \<Rightarrow> string option" where
  "z_index t origin = origin_index_json (zt_origin_index t) origin"

definition z_credit_phase ::
    "hosted_create_env \<Rightarrow> hosted_create_clock \<Rightarrow> hosted_headers \<Rightarrow> string \<Rightarrow> unit hcreate_step" where
  "z_credit_phase env t h origin =
     (if credit_exhausted (zv_credit_entry env) (z_index t origin)
      then z_refuse h ''hosted_challenge:early_credit_check_failed'' (PaymentRequired None)
      else ret ())"

subsection \<open>The nonce and the challenge\<close>

definition z_random_phase :: "hosted_create_clock \<Rightarrow> (bytes \<times> bytes) hcreate_step" where
  "z_random_phase t =
     (case zt_nonce t of
        None \<Rightarrow> z_fail
      | Some nonce \<Rightarrow> (case zt_secret t of Inl _ \<Rightarrow> z_fail | Inr secret \<Rightarrow> ret (nonce, secret)))"

definition hosted_ttl :: "origin_policy \<Rightarrow> u64" where "hosted_ttl policy = clamp_ttl (op_max_ttl_sec policy)"

definition hosted_expires_at :: "hosted_create_clock \<Rightarrow> origin_policy \<Rightarrow> u64" where
  "hosted_expires_at t policy = sat_add (zt_now t) (hosted_ttl policy)"

definition z_nonce_phase ::
    "hosted_create_env \<Rightarrow> hosted_create_clock \<Rightarrow> hosted_headers \<Rightarrow> bytes \<Rightarrow> unit hcreate_step" where
  "z_nonce_phase env t h nonce =
     andthen (on_part zx_nonces zx_nonces_update
       (store_nonce_do (zv_nonces env) (zv_encode env nonce) (zt_nonce_ms t) NONCE_DEDUP_TTL)) (\<lambda>r.
     case r of
       Inl _ \<Rightarrow> z_fail
     | Inr nonce_ok \<Rightarrow>
         if \<not> nonce_ok then
           z_refuse h ''hosted_challenge:nonce_replay'' (Conflict (Some ''Nonce already used (replay attack detected)''))
         else ret ())"

definition code_challenge_error :: api_error where
  "code_challenge_error = body_schema_invalid ''code_challenge''
     ''code_challenge must decode to exactly 32 bytes from base64url (no padding)''"

definition z_code_challenge_phase :: "hosted_create_env \<Rightarrow> hosted_create_request \<Rightarrow> bytes hcreate_step" where
  "z_code_challenge_phase env body =
     (case zv_decode env (zq_code_challenge body) of
        None \<Rightarrow> stop (HostedPropagated code_challenge_error)
      | Some bs \<Rightarrow> if length bs \<noteq> 32 then stop (HostedError code_challenge_error) else ret bs)"

definition hosted_client_id :: string where "hosted_client_id = ''provii-verifier''"

definition hosted_new_challenge ::
    "hosted_create_env \<Rightarrow> hosted_create_clock \<Rightarrow> hosted_create_request \<Rightarrow> string \<Rightarrow> origin_policy \<Rightarrow> u32 \<Rightarrow> int \<Rightarrow>
     bytes \<Rightarrow> bytes \<Rightarrow> bytes \<Rightarrow> cached_challenge" where
  "hosted_new_challenge env t body origin policy vk cutoff nonce secret challenge_bytes =
     \<lparr>cc_id = zt_uuid t, cc_short_code = generate_short_code_from_uuid (zt_uuid t),
      cc_rp_challenge = zv_rp_challenge env origin nonce, cc_cutoff_days = cutoff, cc_verifying_key_id = vk,
      cc_code_challenge = zq_code_challenge body, cc_code_challenge_bytes = challenge_bytes,
      cc_submit_secret = secret, cc_origin = origin,
      cc_expires_at = hosted_expires_at t policy, cc_created_at = zt_now t,
      cc_state = Pending, cc_proof_submitted = False, cc_verified_at = None, cc_proof_verified_at = None,
      cc_issuer_kid = None, cc_issuer_vk_bytes = None, cc_client_id = Some hosted_client_id,
      cc_tenant_id = billing_entity (zv_organization env) (z_index t origin) policy,
      cc_proof_direction = effective_proof_direction policy\<rparr>"

text \<open>The two writes run concurrently and both to their end; the failure of the challenge's is reported first.\<close>

definition z_store_phase ::
    "hosted_create_env \<Rightarrow> hosted_create_clock \<Rightarrow> hosted_headers \<Rightarrow> cached_challenge \<Rightarrow> unit hcreate_step" where
  "z_store_phase env t h cached =
     (if \<not> zv_config_bound env \<or> \<not> zt_code_builder t then z_fail
      else andthen (on_part zx_challenges zx_challenges_update
             (store_put (zv_challenges env) (zt_put t) (zt_put_insert t) (zt_uuid t) cached)) (\<lambda>challenge_result.
           andthen (on_part zx_codes zx_codes_update (\<lambda>codes.
             ((), if takes_effect (zt_code_write t)
                  then codes(code_map_key (cc_short_code cached) \<mapsto> cse_uuid_text (zv_challenges env) (cc_id cached))
                  else codes))) (\<lambda>_.
           case challenge_result of
             Inl _ \<Rightarrow> z_refuse h ''downstream_failure:challenge_store_write'' service_unavailable_error
           | Inr _ \<Rightarrow>
               if zt_code_write t \<noteq> KvDone then z_refuse h ''downstream_failure:kv_write'' service_unavailable_error
               else ret ())))"

subsection \<open>The session\<close>

definition z_verifier_phase :: "hosted_create_env \<Rightarrow> hosted_create_clock \<Rightarrow> string hcreate_step" where
  "z_verifier_phase env t =
     (case zt_verifier t of None \<Rightarrow> z_fail | Some b \<Rightarrow> ret (zv_encode env b))"

definition hosted_new_session ::
    "hosted_create_env \<Rightarrow> hosted_create_clock \<Rightarrow> hosted_create_request \<Rightarrow> string \<Rightarrow> string \<Rightarrow> origin_policy \<Rightarrow> u32 \<Rightarrow>
     bytes \<Rightarrow> string \<Rightarrow> string option \<Rightarrow> string option \<Rightarrow> hosted_session" where
  "hosted_new_session env t body public_key origin policy vk nonce code_verifier ip_hash ua_hash =
     set_binding ip_hash ua_hash
       ((session_new (zt_session_now t) (zt_session_id t) public_key origin (zq_code_challenge body) code_verifier
           (cse_uuid_text (zv_challenges env) (zt_uuid t)) (zv_encode env nonce) (hosted_expires_at t policy)
           (zq_environment body))
        \<lparr>hs_proof_direction := proof_direction_as_str (effective_proof_direction policy),
         hs_verifying_key_id := Some vk\<rparr>)"

definition z_hash :: "hosted_create_env \<Rightarrow> string \<Rightarrow> string \<Rightarrow> string hcreate_step" where
  "z_hash env input domain =
     (case hash_with_salt (zv_binding env) input (zv_ip_hash_salt env) domain of
        Inl e \<Rightarrow> stop (HostedPropagated (api_error_of_logic e))
      | Inr x \<Rightarrow> ret x)"

definition z_binding_phase :: "hosted_create_env \<Rightarrow> hosted_headers \<Rightarrow> (string option \<times> string option) hcreate_step" where
  "z_binding_phase env h =
     andthen (z_hash env (h_ip h) ''provii-ip-v0'') (\<lambda>ip_hash.
     case hh_user_agent h of
       None \<Rightarrow> ret (Some ip_hash, None)
     | Some ua \<Rightarrow> andthen (z_hash env ua ''provii-ua-v0'') (\<lambda>ua_hash. ret (Some ip_hash, Some ua_hash)))"

text \<open>The session and the mapping of its challenge; a failure of the second is only logged.\<close>

definition z_session_phase ::
    "hosted_create_env \<Rightarrow> hosted_create_clock \<Rightarrow> hosted_headers \<Rightarrow> hosted_session \<Rightarrow> unit hcreate_step" where
  "z_session_phase env t h session =
     andthen (on_part zx_kv zx_kv_update
       (store_session_kv (zv_sessions env) (zt_session_iv t) session (hosted_session_ttl env))) (\<lambda>r.
     andthen (on_part zx_kv zx_kv_update
       (store_challenge_mapping_kv (zv_sessions env) (hs_verifier_challenge_id session) (hs_session_id session)
         (hosted_session_ttl env))) (\<lambda>_.
     case r of
       Inl _ \<Rightarrow> z_refuse h ''downstream_failure:session_kv_write'' service_unavailable_error
     | Inr _ \<Rightarrow> ret ()))"

subsection \<open>The answer\<close>

text \<open>\<open>trim_start_matches\<close> with a pattern that is not empty.\<close>

function trim_start_matches :: "string \<Rightarrow> string \<Rightarrow> string" where
  "trim_start_matches p s =
     (if p = [] then s else case strip_prefix s p of Some r \<Rightarrow> trim_start_matches p r | None \<Rightarrow> s)"
  by pat_completeness auto
termination
  by (relation "measure (length \<circ> snd)") (auto simp: strip_prefix_Some_iff)

declare trim_start_matches.simps [simp del]

definition ws_base :: "hosted_create_env \<Rightarrow> string \<Rightarrow> string" where
  "ws_base env session_id =
     ''wss://'' @ trim_start_matches ''http://'' (trim_start_matches ''https://'' (zv_base_url env)) @
     ''/v1/hosted/ws/'' @ session_id"

definition z_ticket_phase ::
    "hosted_create_env \<Rightarrow> hosted_create_clock \<Rightarrow> origin_policy \<Rightarrow> string option hcreate_step" where
  "z_ticket_phase env t policy =
     (case zv_token_secret env of
        None \<Rightarrow> ret None
      | Some secret \<Rightarrow>
          (case generate_ws_ticket (zv_binding env) (zt_session_id t) (hosted_expires_at t policy) secret of
             Inl e \<Rightarrow> stop (HostedPropagated (api_error_of_logic e))
           | Inr ticket \<Rightarrow> ret (Some (ws_base env (zt_session_id t) @ ''?ticket='' @ ticket))))"

definition format_short_code :: "string \<Rightarrow> string" where
  "format_short_code short_code =
     (let clean = from_chars (filter is_ascii_digit (utf8_chars short_code)) in
      if length clean = 12 then take 4 clean @ ''-'' @ take 4 (drop 4 clean) @ ''-'' @ drop 8 clean else clean)"

definition hosted_response ::
    "hosted_create_env \<Rightarrow> hosted_create_clock \<Rightarrow> origin_policy \<Rightarrow> cached_challenge \<Rightarrow> string option \<Rightarrow> hosted_challenge_response" where
  "hosted_response env t policy c ws_url =
     (let cid = cse_uuid_text (zv_challenges env) (cc_id c) in
      \<lparr>zr_session_id = zt_session_id t, zr_challenge_id = cid,
       zr_qr_code_url = zv_base_url env @ ''/challenge/'' @ cid, zr_challenge_code = format_short_code (cc_short_code c),
       zr_short_code = cc_short_code c, zr_short_code_formatted = Some (formatted_code (cc_short_code c)),
       zr_expires_at = cc_expires_at c, zr_status = ''pending'', zr_rp_challenge = zv_encode env (cc_rp_challenge c),
       zr_submit_secret = zv_encode env (cc_submit_secret c), zr_cutoff_days = cc_cutoff_days c,
       zr_verifying_key_id = cc_verifying_key_id c, zr_status_url = zv_base_url env @ ''/v1/hosted/status/'' @ zt_session_id t,
       zr_verify_url = zv_base_url env @ ''/v1/challenge/'' @ cid @ ''/submit'',
       zr_proof_direction = proof_direction_as_str (cc_proof_direction c), zr_failure_mode = op_failure_mode policy,
       zr_failure_mode_locked = op_failure_mode_locked policy, zr_csrf_token = None, zr_ws_url = ws_url\<rparr>)"

subsection \<open>The handler\<close>

definition z_gates ::
    "hosted_create_env \<Rightarrow> hosted_create_clock \<Rightarrow> hosted_headers \<Rightarrow> bytes \<Rightarrow>
     (hosted_create_request \<times> string \<times> string \<times> origin_policy) hcreate_step" where
  "z_gates env t h body_bytes =
     andthen (z_body_phase env body_bytes) (\<lambda>body.
     andthen (z_fields_phase h body) (\<lambda>(public_key, origin).
     andthen (z_key_phase env t h public_key) (\<lambda>key_data.
     andthen (z_origin_phase env h public_key origin key_data) (\<lambda>_.
     andthen (z_quota_phase env t h public_key) (\<lambda>_.
     andthen (z_policy_phase env t public_key origin) (\<lambda>policy.
     ret (body, public_key, origin, policy)))))))"

definition z_issue ::
    "hosted_create_env \<Rightarrow> hosted_create_clock \<Rightarrow> hosted_headers \<Rightarrow>
     hosted_create_request \<times> string \<times> string \<times> origin_policy \<Rightarrow> hosted_create_outcome hcreate_step" where
  "z_issue env t h = (\<lambda>(body, public_key, origin, policy).
     andthen (z_cutoff_phase t policy) (\<lambda>cutoff.
     andthen (z_vk_phase policy) (\<lambda>vk.
     andthen (z_credit_phase env t h origin) (\<lambda>_.
     andthen (z_random_phase t) (\<lambda>(nonce, secret).
     andthen (z_nonce_phase env t h nonce) (\<lambda>_.
     andthen (z_code_challenge_phase env body) (\<lambda>challenge_bytes.
       let cached = hosted_new_challenge env t body origin policy vk cutoff nonce secret challenge_bytes in
     andthen (z_store_phase env t h cached) (\<lambda>_.
     andthen (z_verifier_phase env t) (\<lambda>code_verifier.
     andthen (z_binding_phase env h) (\<lambda>(ip_hash, ua_hash).
     andthen (z_session_phase env t h
       (hosted_new_session env t body public_key origin policy vk nonce code_verifier ip_hash ua_hash)) (\<lambda>_.
     andthen (z_ticket_phase env t policy) (\<lambda>ws_url.
     andthen (z_audit [HCreated (cse_uuid_text (zv_challenges env) (zt_uuid t)) (h_ip h) origin hosted_client_id]) (\<lambda>_.
     ret (HostedCreated (hosted_response env t policy cached ws_url)))))))))))))))"

definition handle_hosted_challenge ::
    "hosted_create_env \<Rightarrow> hosted_create_clock \<Rightarrow> hosted_headers \<Rightarrow> bytes \<Rightarrow> hosted_create_world \<Rightarrow>
     hosted_create_outcome \<times> hosted_create_world" where
  "handle_hosted_challenge env t h body_bytes = finish (andthen (z_gates env t h body_bytes) (z_issue env t h))"

subsection \<open>What each phase established\<close>

named_theorems hcreate_inv \<open>what a phase of the hosted creation does when it goes on\<close>

lemma z_refuse_run [hcreate_inv]: "z_refuse h event e w = (Inr x, w') \<longleftrightarrow> False"
  by (simp add: z_refuse_def andthen_append_to)

lemma z_fail_run [hcreate_inv]: "z_fail w = (Inr x, w') \<longleftrightarrow> False"
  by (simp add: z_fail_def)

lemma z_audit_run [hcreate_inv]: "z_audit calls w = (r, w') \<longleftrightarrow> r = Inr () \<and> w' = w\<lparr>zx_audit := zx_audit w @ calls\<rparr>"
  by (auto simp: append_to_def)

lemma z_body_ok [hcreate_inv]: "z_body_phase env bs w = (Inr body, w') \<longleftrightarrow>
    zv_parse_body env bs = Some body \<and> hosted_request_valid (zv_count env) body \<and> w' = w"
  by (auto simp: z_body_phase_def split: option.split)

text \<open>A field of the request is the body's, or else the header's.\<close>

definition field_of :: "string \<Rightarrow> string option \<Rightarrow> string \<Rightarrow> bool" where
  "field_of field header v \<longleftrightarrow> v \<noteq> [] \<and> (v = field \<or> field = [] \<and> header = Some v)"

lemma z_field_ok [hcreate_inv]: "z_field h f header event e w = (Inr v, w') \<longleftrightarrow> field_of f header v \<and> w' = w"
  by (auto simp: z_field_def field_of_def hcreate_inv split: option.split)

lemma z_fields_ok [hcreate_inv]: "z_fields_phase h body w = (Inr (public_key, origin), w') \<longleftrightarrow>
    field_of (zq_public_key body) (hh_public_key h) public_key \<and> field_of (zq_origin body) (rh_origin h) origin \<and>
    length origin \<le> MAX_ORIGIN_LENGTH \<and> w' = w"
  by (auto simp: z_fields_phase_def andthen_def z_field_ok split: prod.splits sum.splits if_splits)
    (auto simp: z_field_def field_of_def not_less split: option.splits)

lemma z_key_ok [hcreate_inv]: "z_key_phase env t h public_key w = (Inr key_data, w') \<longleftrightarrow>
    validate_key_format public_key = Inr () \<and> ky_bound (zv_keys env) \<and> pd_enabled key_data \<and>
    (\<exists>m. get_key (zv_keys env) (zt_key_read t public_key) public_key (hk_meks (zx_kv w)) = (Inr key_data, m) \<and>
      w' = w\<lparr>zx_kv := (zx_kv w)\<lparr>hk_meks := m\<rparr>\<rparr>)"
  by (auto simp: z_key_phase_def andthen_on_part hcreate_inv split: sum.split prod.split)

text \<open>The origin is one of the key's, unless the key is a test key of the sandbox.\<close>

definition key_serves :: "hosted_create_env \<Rightarrow> string \<Rightarrow> string \<Rightarrow> public_key_data \<Rightarrow> bool" where
  "key_serves env public_key origin key_data \<longleftrightarrow>
     is_sandbox_test_key env public_key \<or> (\<exists>u. validate_origin (ky_url (zv_keys env)) key_data origin = Inr u)"

lemma z_origin_ok [hcreate_inv]: "z_origin_phase env h public_key origin key_data w = (Inr u, w') \<longleftrightarrow>
    key_serves env public_key origin key_data \<and> w' = w"
  by (auto simp: z_origin_phase_def key_serves_def hcreate_inv split: sum.split)

definition quota_granted :: "hosted_create_env \<Rightarrow> hosted_create_clock \<Rightarrow> string \<Rightarrow> hosted_rate_world \<Rightarrow> hosted_rate_world \<Rightarrow> bool" where
  "quota_granted env t public_key x x' \<longleftrightarrow>
     (\<exists>now now_ms now' r. zt_quota t = (now, now_ms, now') \<and>
       hosted_check_quota (zv_tiers env) public_key ''challenge'' (hosted_default_quota env) now now_ms now' x = (r, x') \<and>
       rl_allowed r \<and> \<not> rl_read_failed r)"

lemma z_quota_ok [hcreate_inv]: "z_quota_phase env t h public_key w = (Inr u, w') \<longleftrightarrow> zv_rate_bound env \<and>
    (\<exists>x. quota_granted env t public_key (zx_rate w) x \<and> w' = w\<lparr>zx_rate := x\<rparr>)"
  by (auto simp: z_quota_phase_def quota_granted_def andthen_on_part hcreate_inv split: prod.split)

text \<open>The policy is the origin's; in the sandbox a test key falls back to the default one.\<close>

definition hosted_policy_of :: "hosted_create_env \<Rightarrow> hosted_create_clock \<Rightarrow> string \<Rightarrow> string \<Rightarrow> policy_cache \<Rightarrow> origin_policy \<Rightarrow> bool" where
  "hosted_policy_of env t public_key origin c policy \<longleftrightarrow>
     (\<exists>found c'. get_policy (zv_parse_policy env) (fst (zt_policy t)) origin (snd (zt_policy t)) c = (Inr found, c') \<and>
       (found = Some policy \<or>
        found = None \<and> is_sandbox_test_key env public_key \<and> policy = sandbox_default_policy (fst (zt_policy t))))"

lemma z_policy_ok: "z_policy_phase env t public_key origin w = (Inr policy, w') \<Longrightarrow>
    hosted_policy_of env t public_key origin (zx_policies w) policy \<and> (\<exists>c. w' = w\<lparr>zx_policies := c\<rparr>)"
  by (cases "zt_policy t")
    (auto simp: z_policy_phase_def hosted_policy_of_def andthen_on_part split: prod.splits sum.splits option.splits if_splits)

lemma z_cutoff_ok [hcreate_inv]: "z_cutoff_phase t policy w = (Inr c, w') \<longleftrightarrow>
    (\<exists>y. age_threshold policy = Inr y \<and> hosted_cutoff_days (zt_today t) (zt_date t) y = Inr c) \<and> w' = w"
  by (auto simp: z_cutoff_phase_def hcreate_inv split: sum.split)

lemma z_vk_ok: "z_vk_phase policy w = (Inr v, w') \<Longrightarrow> v \<in> set (op_allowed_vk_ids policy) \<and> w' = w"
  by (auto simp: z_vk_phase_def hcreate_inv vk_id_new_def split: option.splits list.splits if_splits)

lemma z_credit_ok [hcreate_inv]: "z_credit_phase env t h origin w = (Inr u, w') \<longleftrightarrow>
    \<not> credit_exhausted (zv_credit_entry env) (z_index t origin) \<and> w' = w"
  by (auto simp: z_credit_phase_def hcreate_inv)

lemma z_random_ok [hcreate_inv]: "z_random_phase t w = (Inr (nonce, secret), w') \<longleftrightarrow>
    zt_nonce t = Some nonce \<and> zt_secret t = Inr secret \<and> w' = w"
  by (auto simp: z_random_phase_def hcreate_inv split: option.split sum.split)

lemma z_nonce_ok [hcreate_inv]: "z_nonce_phase env t h nonce w = (Inr u, w') \<longleftrightarrow>
    (\<exists>x. store_nonce_do (zv_nonces env) (zv_encode env nonce) (zt_nonce_ms t) NONCE_DEDUP_TTL (zx_nonces w) = (Inr True, x) \<and>
      w' = w\<lparr>zx_nonces := x\<rparr>)"
  by (auto simp: z_nonce_phase_def andthen_on_part hcreate_inv split: prod.split sum.split)

lemma z_code_challenge_ok [hcreate_inv]: "z_code_challenge_phase env body w = (Inr bs, w') \<longleftrightarrow>
    zv_decode env (zq_code_challenge body) = Some bs \<and> length bs = 32 \<and> w' = w"
  by (auto simp: z_code_challenge_phase_def split: option.split)

lemma z_store_ok [hcreate_inv]: "z_store_phase env t h c w = (Inr u, w') \<longleftrightarrow> zv_config_bound env \<and> zt_code_builder t \<and>
    zt_code_write t = KvDone \<and> (\<exists>x. store_put (zv_challenges env) (zt_put t) (zt_put_insert t) (zt_uuid t) c (zx_challenges w) = (Inr (), x) \<and>
      w' = w\<lparr>zx_challenges := x,
        zx_codes := (zx_codes w)(code_map_key (cc_short_code c) \<mapsto> cse_uuid_text (zv_challenges env) (cc_id c))\<rparr>)"
  by (auto simp: z_store_phase_def andthen_on_part takes_effect_def hcreate_inv split: prod.split sum.split)

lemma z_verifier_ok [hcreate_inv]: "z_verifier_phase env t w = (Inr v, w') \<longleftrightarrow>
    (\<exists>b. zt_verifier t = Some b \<and> v = zv_encode env b) \<and> w' = w"
  by (auto simp: z_verifier_phase_def hcreate_inv split: option.split)

lemma z_hash_ok [hcreate_inv]: "z_hash env input domain w = (Inr x, w') \<longleftrightarrow>
    hash_with_salt (zv_binding env) input (zv_ip_hash_salt env) domain = Inr x \<and> w' = w"
  by (auto simp: z_hash_def split: sum.split)

lemma z_binding_ok [hcreate_inv]: "z_binding_phase env h w = (Inr (ip, ua), w') \<longleftrightarrow> w' = w \<and>
    (\<exists>i. ip = Some i \<and> hash_with_salt (zv_binding env) (h_ip h) (zv_ip_hash_salt env) ''provii-ip-v0'' = Inr i) \<and>
    (case hh_user_agent h of None \<Rightarrow> ua = None
     | Some a \<Rightarrow> \<exists>u. ua = Some u \<and> hash_with_salt (zv_binding env) a (zv_ip_hash_salt env) ''provii-ua-v0'' = Inr u)"
  by (auto simp: z_binding_phase_def andthen_Inr_iff hcreate_inv split: option.split)

lemma z_session_ok: "z_session_phase env t h s w = (Inr u, w') \<Longrightarrow>
    \<exists>k m k'. store_session_kv (zv_sessions env) (zt_session_iv t) s (hosted_session_ttl env) (zx_kv w) = (Inr (), k) \<and>
      store_challenge_mapping_kv (zv_sessions env) (hs_verifier_challenge_id s) (hs_session_id s) (hosted_session_ttl env) k = (m, k') \<and>
      w' = w\<lparr>zx_kv := k'\<rparr>"
  by (auto simp: z_session_phase_def andthen_on_part hcreate_inv split: prod.splits sum.splits)

lemma z_ticket_ok [hcreate_inv]: "z_ticket_phase env t policy w = (Inr url, w') \<longleftrightarrow> w' = w \<and>
    (case zv_token_secret env of None \<Rightarrow> url = None
     | Some secret \<Rightarrow> \<exists>ticket. generate_ws_ticket (zv_binding env) (zt_session_id t) (hosted_expires_at t policy) secret = Inr ticket \<and>
         url = Some (ws_base env (zt_session_id t) @ ''?ticket='' @ ticket))"
  by (auto simp: z_ticket_phase_def split: option.split sum.split)

text \<open>Only the end of the handler answers that a verification was created.\<close>

definition not_hosted_created :: "hosted_create_outcome \<Rightarrow> bool" where
  "not_hosted_created out \<longleftrightarrow> (\<forall>r. out \<noteq> HostedCreated r)"

lemma not_hosted_parts:
  "ends_in not_hosted_created (z_refuse h event e)" "ends_in not_hosted_created (z_audit calls)"
  "ends_in not_hosted_created (on_part g u f)" "ends_in not_hosted_created z_fail"
  "ends_in not_hosted_created (stop (HostedError e))" "ends_in not_hosted_created (stop (HostedPropagated e))"
  "ends_in not_hosted_created (stop (HostedUnavailable n))"
  by (auto simp: ends_in_def not_hosted_created_def z_refuse_def z_fail_def andthen_append_to append_to_def on_part_def
      split: prod.splits)

lemmas not_hosted_intros = ends_in_andthen ends_in_ret not_hosted_parts

lemma hosted_gates_not_created: "ends_in not_hosted_created (z_gates env t h bs)"
proof -
  have f: "ends_in not_hosted_created (z_field h a b ev e)" for a b ev e
    unfolding z_field_def by (auto intro!: not_hosted_intros split: option.split)
  have "ends_in not_hosted_created (z_body_phase env bs)" "ends_in not_hosted_created (z_fields_phase h body)"
    "ends_in not_hosted_created (z_key_phase env t h k)" "ends_in not_hosted_created (z_origin_phase env h k origin kd)"
    "ends_in not_hosted_created (z_quota_phase env t h k)" "ends_in not_hosted_created (z_policy_phase env t k origin)"
    for body k origin kd
    unfolding z_body_phase_def z_fields_phase_def z_key_phase_def z_origin_phase_def z_quota_phase_def z_policy_phase_def
    by (auto intro!: not_hosted_intros f split: sum.split option.split prod.split)
  note p = this
  show ?thesis unfolding z_gates_def split_beta by (intro ends_in_andthen ends_in_ret p)
qed

lemma hosted_created_run:
  assumes "handle_hosted_challenge env t h bs w = (HostedCreated r, w')"
  shows "\<exists>x w1. z_gates env t h bs w = (Inr x, w1) \<and> z_issue env t h x w1 = (Inr (HostedCreated r), w')"
proof -
  have i: "ends_in not_hosted_created (z_issue env t h x)" for x
  proof -
    obtain body k origin policy where x: "x = (body, k, origin, policy)" by (cases x) auto
    have b: "ends_in not_hosted_created (z_hash env i d)" for i d
      unfolding z_hash_def by (auto intro!: not_hosted_intros split: sum.split)
    have "ends_in not_hosted_created (z_cutoff_phase t policy)" "ends_in not_hosted_created (z_vk_phase policy)"
      "ends_in not_hosted_created (z_credit_phase env t h origin)" "ends_in not_hosted_created (z_random_phase t)"
      "ends_in not_hosted_created (z_nonce_phase env t h n)" "ends_in not_hosted_created (z_code_challenge_phase env body)"
      "ends_in not_hosted_created (z_store_phase env t h c)" "ends_in not_hosted_created (z_verifier_phase env t)"
      "ends_in not_hosted_created (z_binding_phase env h)" "ends_in not_hosted_created (z_session_phase env t h s)"
      "ends_in not_hosted_created (z_ticket_phase env t policy)" for n c s
      unfolding z_cutoff_phase_def z_vk_phase_def z_credit_phase_def z_random_phase_def z_nonce_phase_def
        z_code_challenge_phase_def z_store_phase_def z_verifier_phase_def z_binding_phase_def z_session_phase_def z_ticket_phase_def
      by (auto intro!: not_hosted_intros b split: sum.split option.split list.split prod.split)
    note p = this
    show ?thesis unfolding z_issue_def x Let_def split_beta fst_conv snd_conv
      by (intro ends_in_andthen ends_in_ret p not_hosted_parts)
  qed
  have "andthen (z_gates env t h bs) (z_issue env t h) w = (Inr (HostedCreated r), w')"
    using assms ends_inD[OF ends_in_andthen[OF hosted_gates_not_created[of env t h bs], of "z_issue env t h", OF i]]
    unfolding handle_hosted_challenge_def finish_iff not_hosted_created_def by blast
  then show ?thesis unfolding andthen_Inr_iff by blast
qed

lemma hosted_gates_passed:
  assumes "z_gates env t h bs w = (Inr (body, public_key, origin, policy), w')"
  shows "zv_parse_body env bs = Some body \<and> hosted_request_valid (zv_count env) body \<and>
    field_of (zq_public_key body) (hh_public_key h) public_key \<and> field_of (zq_origin body) (rh_origin h) origin \<and>
    length origin \<le> MAX_ORIGIN_LENGTH \<and> validate_key_format public_key = Inr () \<and>
    (\<exists>key_data m x. get_key (zv_keys env) (zt_key_read t public_key) public_key (hk_meks (zx_kv w)) = (Inr key_data, m) \<and>
      pd_enabled key_data \<and> key_serves env public_key origin key_data \<and>
      quota_granted env t public_key (zx_rate w) x) \<and>
    hosted_policy_of env t public_key origin (zx_policies w) policy \<and>
    zx_nonces w' = zx_nonces w \<and> zx_challenges w' = zx_challenges w"
proof -
  obtain key_data w1 w2 where p: "zv_parse_body env bs = Some body" "hosted_request_valid (zv_count env) body"
    "z_fields_phase h body w = (Inr (public_key, origin), w)" "z_key_phase env t h public_key w = (Inr key_data, w1)"
    "key_serves env public_key origin key_data" "z_quota_phase env t h public_key w1 = (Inr (), w2)"
    and q: "z_policy_phase env t public_key origin w2 = (Inr policy, w')"
    using assms by (auto simp: z_gates_def andthen_Inr_iff z_body_ok z_origin_ok z_fields_ok split_beta)
  from p(4) obtain m where m: "get_key (zv_keys env) (zt_key_read t public_key) public_key (hk_meks (zx_kv w)) = (Inr key_data, m)"
    "pd_enabled key_data" "validate_key_format public_key = Inr ()" "w1 = w\<lparr>zx_kv := (zx_kv w)\<lparr>hk_meks := m\<rparr>\<rparr>"
    by (auto simp: z_key_ok)
  from p(6) obtain x where x: "quota_granted env t public_key (zx_rate w1) x" "w2 = w1\<lparr>zx_rate := x\<rparr>"
    by (auto simp: z_quota_ok)
  from z_policy_ok[OF q] obtain c where c: "hosted_policy_of env t public_key origin (zx_policies w2) policy"
    "w' = w2\<lparr>zx_policies := c\<rparr>" by blast
  have "zx_rate w1 = zx_rate w" "zx_policies w2 = zx_policies w" "zx_nonces w' = zx_nonces w" "zx_challenges w' = zx_challenges w"
    by (simp_all add: m(4) x(2) c(2))
  with p(1-3,5) m(1-3) x(1) c(1) show ?thesis by (auto simp: z_fields_ok)
qed

lemma hosted_issued:
  assumes "z_issue env t h (body, public_key, origin, policy) w = (Inr out, w')"
  shows "\<exists>y vk cutoff nonce secret bs c. age_threshold policy = Inr y \<and> hosted_cutoff_days (zt_today t) (zt_date t) y = Inr cutoff \<and>
    vk \<in> set (op_allowed_vk_ids policy) \<and> \<not> credit_exhausted (zv_credit_entry env) (z_index t origin) \<and>
    zt_nonce t = Some nonce \<and>
    store_nonce_do (zv_nonces env) (zv_encode env nonce) (zt_nonce_ms t) NONCE_DEDUP_TTL (zx_nonces w) = (Inr True, zx_nonces w') \<and>
    zv_decode env (zq_code_challenge body) = Some bs \<and> length bs = 32 \<and>
    c = hosted_new_challenge env t body origin policy vk cutoff nonce secret bs \<and>
    store_put (zv_challenges env) (zt_put t) (zt_put_insert t) (zt_uuid t) c (zx_challenges w) = (Inr (), zx_challenges w') \<and>
    zx_codes w' = (zx_codes w)(code_map_key (cc_short_code c) \<mapsto> cse_uuid_text (zv_challenges env) (zt_uuid t)) \<and>
    (\<exists>v ip ua s k0 k m wb. z_binding_phase env h wb = (Inr (ip, ua), wb) \<and>
       s = hosted_new_session env t body public_key origin policy vk nonce v ip ua \<and>
       store_session_kv (zv_sessions env) (zt_session_iv t) s (hosted_session_ttl env) k0 = (Inr (), k) \<and>
       store_challenge_mapping_kv (zv_sessions env) (hs_verifier_challenge_id s) (hs_session_id s) (hosted_session_ttl env) k =
         (m, zx_kv w')) \<and>
    (\<exists>url wt. z_ticket_phase env t policy wt = (Inr url, wt) \<and> out = HostedCreated (hosted_response env t policy c url))"
proof -
  let ?new = "\<lambda>vk cutoff nonce secret bs. hosted_new_challenge env t body origin policy vk cutoff nonce secret bs"
  let ?ses = "\<lambda>vk nonce v b. hosted_new_session env t body public_key origin policy vk nonce v (fst b) (snd b)"
  obtain cutoff w1 vk w2 u0 w3 r w4 u1 w5 bs w6 u2 w7 v w8 b w9 u3 w10 url w11 u4 w12 where p:
    "z_cutoff_phase t policy w = (Inr cutoff, w1)" "z_vk_phase policy w1 = (Inr vk, w2)"
    "z_credit_phase env t h origin w2 = (Inr u0, w3)" "z_random_phase t w3 = (Inr r, w4)"
    "z_nonce_phase env t h (fst r) w4 = (Inr u1, w5)" "z_code_challenge_phase env body w5 = (Inr bs, w6)"
    "z_store_phase env t h (?new vk cutoff (fst r) (snd r) bs) w6 = (Inr u2, w7)"
    "z_verifier_phase env t w7 = (Inr v, w8)" "z_binding_phase env h w8 = (Inr b, w9)"
    "z_session_phase env t h (?ses vk (fst r) v b) w9 = (Inr u3, w10)" "z_ticket_phase env t policy w10 = (Inr url, w11)"
    "z_audit [HCreated (cse_uuid_text (zv_challenges env) (zt_uuid t)) (h_ip h) origin hosted_client_id] w11 = (Inr u4, w12)"
    "(ret (HostedCreated (hosted_response env t policy (?new vk cutoff (fst r) (snd r) bs) url)) :: hosted_create_outcome hcreate_step)
       w12 = (Inr out, w')"
    using assms unfolding z_issue_def prod.case Let_def andthen_Inr_iff split_beta fst_conv snd_conv
    by (elim exE conjE) (rule that, assumption+)
  obtain nonce secret where r: "r = (nonce, secret)" by (cases r)
  obtain ip ua where b: "b = (ip, ua)" by (cases b)
  note eqs = z_cutoff_ok z_credit_ok z_random_ok z_code_challenge_ok z_verifier_ok z_binding_ok z_ticket_ok
  have f: "vk \<in> set (op_allowed_vk_ids policy)" "w1 = w" "w2 = w" "w3 = w" "w4 = w" "w6 = w5" "w8 = w7" "w9 = w7" "w11 = w10"
    using p(1-4,6,8,9,11) z_vk_ok[OF p(2)] by (simp_all add: eqs r b)
  obtain n where n: "store_nonce_do (zv_nonces env) (zv_encode env nonce) (zt_nonce_ms t) NONCE_DEDUP_TTL (zx_nonces w) = (Inr True, n)"
    "w5 = w\<lparr>zx_nonces := n\<rparr>" using p(5) by (auto simp: z_nonce_ok f r)
  let ?c = "?new vk cutoff nonce secret bs"
  obtain cs where cs: "store_put (zv_challenges env) (zt_put t) (zt_put_insert t) (zt_uuid t) ?c (zx_challenges w) = (Inr (), cs)"
    "w7 = w5\<lparr>zx_challenges := cs, zx_codes := (zx_codes w5)(code_map_key (cc_short_code ?c) \<mapsto> cse_uuid_text (zv_challenges env) (cc_id ?c))\<rparr>"
    using p(7) by (auto simp: z_store_ok f n(2) r)
  from z_session_ok[OF p(10)] obtain k m k' where k:
    "store_session_kv (zv_sessions env) (zt_session_iv t) (?ses vk nonce v b) (hosted_session_ttl env) (zx_kv w9) = (Inr (), k)"
    "store_challenge_mapping_kv (zv_sessions env) (hs_verifier_challenge_id (?ses vk nonce v b)) (hs_session_id (?ses vk nonce v b))
      (hosted_session_ttl env) k = (m, k')" "w10 = w9\<lparr>zx_kv := k'\<rparr>" by (auto simp: r)
  from p(12) have "w12 = w11\<lparr>zx_audit := zx_audit w11 @ [HCreated (cse_uuid_text (zv_challenges env) (zt_uuid t)) (h_ip h) origin hosted_client_id]\<rparr>"
    unfolding z_audit_run by blast
  with p(13) have w': "zx_nonces w' = n" "zx_challenges w' = cs" "zx_kv w' = k'"
    "zx_codes w' = (zx_codes w)(code_map_key (cc_short_code ?c) \<mapsto> cse_uuid_text (zv_challenges env) (zt_uuid t))"
    "out = HostedCreated (hosted_response env t policy ?c url)"
    by (auto simp: f k(3) cs(2) n(2) r hosted_new_challenge_def)
  let ?s = "?ses vk nonce v b"
  have s: "\<exists>v ip ua s k0 k m wb. z_binding_phase env h wb = (Inr (ip, ua), wb) \<and>
       s = hosted_new_session env t body public_key origin policy vk nonce v ip ua \<and>
       store_session_kv (zv_sessions env) (zt_session_iv t) s (hosted_session_ttl env) k0 = (Inr (), k) \<and>
       store_challenge_mapping_kv (zv_sessions env) (hs_verifier_challenge_id s) (hs_session_id s) (hosted_session_ttl env) k =
         (m, zx_kv w')"
    using p(9) k(1,2) w'(3)
    by (intro exI[of _ v] exI[of _ ip] exI[of _ ua] exI[of _ ?s] exI[of _ "zx_kv w9"] exI[of _ k] exI[of _ m] exI[of _ w7] conjI)
      (simp_all only: f b fst_conv snd_conv)
  have u: "\<exists>url wt. z_ticket_phase env t policy wt = (Inr url, wt) \<and> out = HostedCreated (hosted_response env t policy ?c url)"
    using p(11) w'(5) by (intro exI[of _ url] exI[of _ w10] conjI) (simp_all only: f)
  from p(1) obtain y where y: "age_threshold policy = Inr y" "hosted_cutoff_days (zt_today t) (zt_date t) y = Inr cutoff"
    by (auto simp: z_cutoff_ok)
  have g: "\<not> credit_exhausted (zv_credit_entry env) (z_index t origin)" "zt_nonce t = Some nonce"
    "zv_decode env (zq_code_challenge body) = Some bs" "length bs = 32"
    using p(3,4,6) by (simp_all add: z_credit_ok z_random_ok z_code_challenge_ok r)
  show ?thesis
    by (intro exI[of _ y] exI[of _ vk] exI[of _ cutoff] exI[of _ nonce] exI[of _ secret] exI[of _ bs] exI[of _ ?c] conjI)
      (rule y f(1) g n(1)[folded w'(1)] refl cs(1)[folded w'(2)] w'(4) s u)+
qed

lemma binding_passes:
  assumes "z_binding_phase env h w = (Inr (ip, ua), w)"
  shows "hosted_verify_session_binding (zv_binding env) (h_ip h) (hh_user_agent h) ip ua (zv_ip_hash_salt env) mode = Inr Binding_Ok"
  using assms by (auto simp: z_binding_ok hosted_verify_session_binding_def verify_session_binding_def check_hash_def split: option.splits)

text \<open>The mapping of the challenge leaves the session's entry alone.\<close>

lemma mapping_keeps_session:
  assumes "store_challenge_mapping_kv env cid sid ttl k = (r, k')"
  shows "hk_store k' (session_key x) = hk_store k (session_key x) \<and> hk_meks k' = hk_meks k"
  using assms by (auto simp: store_challenge_mapping_kv_def kv_write_text_def Let_def session_key_def mapping_key_def
      split: if_splits prod.splits sum.splits)

subsection \<open>Properties\<close>

text \<open>C4 A hosted verification is created only when every check of the request passed: the body is valid, the
  public key has the right format, its record was read and decrypted and is enabled, the origin is one of
  the key's (a test key of the sandbox needs none), the key's hourly quota had room and could be read, the
  policy is the origin's or the sandbox default, the origin's credits are not known to be exhausted, the
  verifying key is an allowed one, the nonce was claimed in its object, and the code challenge is 32 bytes.\<close>

theorem hosted_created_only_if:
  assumes "handle_hosted_challenge env t h bs w = (HostedCreated r, w')"
  shows "\<exists>body public_key origin key_data m rate policy years nonce challenge.
    zv_parse_body env bs = Some body \<and> hosted_request_valid (zv_count env) body \<and>
    field_of (zq_public_key body) (hh_public_key h) public_key \<and> field_of (zq_origin body) (rh_origin h) origin \<and>
    length origin \<le> MAX_ORIGIN_LENGTH \<and> validate_key_format public_key = Inr () \<and>
    get_key (zv_keys env) (zt_key_read t public_key) public_key (hk_meks (zx_kv w)) = (Inr key_data, m) \<and>
    pd_enabled key_data \<and> key_serves env public_key origin key_data \<and>
    quota_granted env t public_key (zx_rate w) rate \<and>
    hosted_policy_of env t public_key origin (zx_policies w) policy \<and>
    \<not> credit_exhausted (zv_credit_entry env) (z_index t origin) \<and>
    zr_verifying_key_id r \<in> set (op_allowed_vk_ids policy) \<and> age_threshold policy = Inr years \<and>
    hosted_cutoff_days (zt_today t) (zt_date t) years = Inr (zr_cutoff_days r) \<and>
    zt_nonce t = Some nonce \<and>
    store_nonce_do (zv_nonces env) (zv_encode env nonce) (zt_nonce_ms t) NONCE_DEDUP_TTL (zx_nonces w) = (Inr True, zx_nonces w') \<and>
    zv_decode env (zq_code_challenge body) = Some challenge \<and> length challenge = 32"
proof -
  obtain body public_key origin policy w1 where g: "z_gates env t h bs w = (Inr (body, public_key, origin, policy), w1)"
    and i: "z_issue env t h (body, public_key, origin, policy) w1 = (Inr (HostedCreated r), w')"
    using hosted_created_run[OF assms] by (metis prod.exhaust)
  note a = hosted_gates_passed[OF g]
  from hosted_issued[OF i] obtain y nonce bs' where b: "age_threshold policy = Inr y"
    "hosted_cutoff_days (zt_today t) (zt_date t) y = Inr (zr_cutoff_days r)"
    "zr_verifying_key_id r \<in> set (op_allowed_vk_ids policy)" "\<not> credit_exhausted (zv_credit_entry env) (z_index t origin)"
    "zt_nonce t = Some nonce" "zv_decode env (zq_code_challenge body) = Some bs'" "length bs' = 32"
    "store_nonce_do (zv_nonces env) (zv_encode env nonce) (zt_nonce_ms t) NONCE_DEDUP_TTL (zx_nonces w1) = (Inr True, zx_nonces w')"
    by (auto simp: hosted_response_def hosted_new_challenge_def Let_def)
  from a obtain key_data m rate where "get_key (zv_keys env) (zt_key_read t public_key) public_key (hk_meks (zx_kv w)) = (Inr key_data, m)"
    "pd_enabled key_data" "key_serves env public_key origin key_data" "quota_granted env t public_key (zx_rate w) rate" by blast
  with a b show ?thesis by (metis (no_types))
qed

text \<open>The session that a creation leaves in KV is read back as it was written.\<close>

lemma created_session_read:
  assumes "crypto_laws (hosted_crypto.truncate env)" "length iv = 12" "session_json_law env s"
    and "store_session_kv env (Inr iv) s ttl k0 = (Inr (), k)" "store_challenge_mapping_kv env cid sid ttl k = (m, k')"
  shows "fst (get_session_kv_tracked env (hs_session_id s) (k'\<lparr>hk_net := []\<rparr>)) = Inr (Some (s, Current))"
proof -
  from store_session_stored[OF assms(4)] obtain mek j c where k: "mk_primary (hk_meks k) = Some mek" "hv_json env s = Inr j"
    "hv_bound env" "encrypt_with_mek (hosted_crypto.truncate env) (Inr iv) mek j SESSION_AAD = Inr c"
    "hk_store k (session_key (hs_session_id s)) = Some (c, ttl)" by auto
  have p: "hv_parse env j = Inr s" using assms(3) k(2) by (auto simp: session_json_law_def)
  have k': "hk_store (k'\<lparr>hk_net := []\<rparr>) (session_key (hs_session_id s)) = Some (c, ttl)"
    "mk_primary (hk_meks (k'\<lparr>hk_net := []\<rparr>)) = Some mek" "next_outcome (k'\<lparr>hk_net := []\<rparr>) = KvDone"
    using mapping_keeps_session[OF assms(5), of "hs_session_id s"] k(1,5) by (simp_all add: next_outcome_def)
  show ?thesis by (rule get_session_decrypted[OF k(3) k'(1,3) refl k'(2) p decrypt_current[OF assms(1,2) k(4)]])
qed

text \<open>C11 A created hosted verification is whole: the challenge that the store acknowledged is pending and the
  hosted client's, its short code maps to it, the session that KV holds is a pending one of the same
  challenge and expiry and is read back as it was written, the binding of that session accepts the caller
  under every mode, and the WebSocket ticket of the answer is valid for it.\<close>

theorem hosted_created_recorded:
  assumes "handle_hosted_challenge env t h bs w = (HostedCreated r, w')"
    and "crypto_laws (hosted_crypto.truncate (zv_sessions env))" "zt_session_iv t = Inr iv" "length iv = 12"
  shows "\<exists>c cs s. store_put (zv_challenges env) (zt_put t) (zt_put_insert t) (zt_uuid t) c cs = (Inr (), zx_challenges w') \<and>
    cc_id c = zt_uuid t \<and> cc_state c = Pending \<and> cc_client_id c = Some hosted_client_id \<and> zr_short_code r = cc_short_code c \<and>
    zr_challenge_id r = cse_uuid_text (zv_challenges env) (cc_id c) \<and>
    zx_codes w' (code_map_key (zr_short_code r)) = Some (zr_challenge_id r) \<and>
    (session_json_law (zv_sessions env) s \<longrightarrow>
       fst (get_session_kv_tracked (zv_sessions env) (zr_session_id r) ((zx_kv w')\<lparr>hk_net := []\<rparr>)) = Inr (Some (s, Current))) \<and>
    hs_state s = SPending \<and> hs_verifier_challenge_id s = zr_challenge_id r \<and> hs_origin s = cc_origin c \<and>
    hs_expires_at s = cc_expires_at c \<and> zr_expires_at r = cc_expires_at c \<and>
    (\<forall>mode. hosted_verify_session_binding (zv_binding env) (h_ip h) (hh_user_agent h) (hs_client_ip_hash s) (hs_user_agent s)
       (zv_ip_hash_salt env) mode = Inr Binding_Ok) \<and>
    (\<forall>secret. zv_token_secret env = Some secret \<longrightarrow>
       (\<exists>ticket. zr_ws_url r = Some (ws_base env (zr_session_id r) @ ''?ticket='' @ ticket) \<and>
         validate_ws_ticket (zv_binding env) ticket (zr_session_id r) (hs_expires_at s) secret = Inr True))"
proof -
  obtain body public_key origin policy w1 where i: "z_issue env t h (body, public_key, origin, policy) w1 = (Inr (HostedCreated r), w')"
    using hosted_created_run[OF assms(1)] by (metis prod.exhaust)
  from hosted_issued[OF i] obtain vk cutoff nonce secret bs' c v ip ua s k0 k m wb url wt where
    c: "c = hosted_new_challenge env t body origin policy vk cutoff nonce secret bs'"
    "store_put (zv_challenges env) (zt_put t) (zt_put_insert t) (zt_uuid t) c (zx_challenges w1) = (Inr (), zx_challenges w')"
    "zx_codes w' = (zx_codes w1)(code_map_key (cc_short_code c) \<mapsto> cse_uuid_text (zv_challenges env) (zt_uuid t))"
    and s: "z_binding_phase env h wb = (Inr (ip, ua), wb)"
    "s = hosted_new_session env t body public_key origin policy vk nonce v ip ua"
    "store_session_kv (zv_sessions env) (zt_session_iv t) s (hosted_session_ttl env) k0 = (Inr (), k)"
    "store_challenge_mapping_kv (zv_sessions env) (hs_verifier_challenge_id s) (hs_session_id s) (hosted_session_ttl env) k = (m, zx_kv w')"
    and u: "z_ticket_phase env t policy wt = (Inr url, wt)" "HostedCreated r = HostedCreated (hosted_response env t policy c url)"
    by blast
  have se: "hs_session_id s = zt_session_id t" "hs_state s = SPending" "hs_expires_at s = hosted_expires_at t policy"
    "hs_verifier_challenge_id s = cse_uuid_text (zv_challenges env) (zt_uuid t)" "hs_origin s = origin"
    "hs_client_ip_hash s = ip" "hs_user_agent s = ua"
    by (simp_all add: s(2) hosted_new_session_def set_binding_def session_new_def)
  have ce: "cc_id c = zt_uuid t" "cc_state c = Pending" "cc_client_id c = Some hosted_client_id" "cc_origin c = origin"
    "cc_expires_at c = hosted_expires_at t policy" by (simp_all add: c(1) hosted_new_challenge_def)
  have re: "zr_short_code r = cc_short_code c" "zr_challenge_id r = cse_uuid_text (zv_challenges env) (cc_id c)"
    "zr_session_id r = zt_session_id t" "zr_expires_at r = cc_expires_at c" "zr_ws_url r = url"
    using u(2) by (simp_all add: hosted_response_def Let_def)
  have read: "session_json_law (zv_sessions env) s \<Longrightarrow>
      fst (get_session_kv_tracked (zv_sessions env) (zr_session_id r) ((zx_kv w')\<lparr>hk_net := []\<rparr>)) = Inr (Some (s, Current))"
    using created_session_read[OF assms(2,4) _ s(3)[unfolded assms(3)] s(4)] by (simp add: re se)
  have ticket: "zv_token_secret env = Some x \<Longrightarrow> \<exists>ticket. zr_ws_url r = Some (ws_base env (zr_session_id r) @ ''?ticket='' @ ticket) \<and>
      validate_ws_ticket (zv_binding env) ticket (zr_session_id r) (hs_expires_at s) x = Inr True" for x
    using u(1) by (auto simp: z_ticket_ok validate_ws_ticket_def re se)
  show ?thesis
    using c(2,3) read ticket binding_passes[OF s(1)]
    by (intro exI[of _ c] exI[of _ "zx_challenges w1"] exI[of _ s] conjI impI allI) (simp_all add: se ce re)
qed

subsection \<open>A sample creation\<close>

definition sample_rp_key :: string where "sample_rp_key = ''pk_live_'' @ hex_encode (replicate 32 1)"

definition sample_key_data :: public_key_data where
  "sample_key_data = \<lparr>pd_id = sample_rp_key, pd_secret_key = ''sk'', pd_organization_id = None, pd_name = None,
     pd_allowed_origins = [''https://rp.example''], pd_rate_limit_override = None, pd_enabled = True, pd_created_at = 0,
     pd_updated_at = 0, pd_last_used_at = None, pd_metadata = ''null''\<rparr>"

definition sample_key_text :: string where
  "sample_key_text = sample_encode (replicate 12 9 @ replicate 16 1 @ string_bytes ''j'')"

definition sample_key_env :: key_env where
  "sample_key_env = hosted_crypto.extend sample_crypto
     \<lparr>ky_bound = True, ky_mek = Bound (\<lambda>_. SecretValue None), ky_parse = (\<lambda>_. Inr sample_key_data),
      ky_url = (\<lambda>s. if s = ''https://rp.example''
        then Some \<lparr>url_scheme = ''https'', url_host = Some ''rp.example'', url_port = None, url_path = ''/''\<rparr> else None)\<rparr>"

lemma sample_key_env_simps [simp]:
  "hosted_crypto.truncate sample_key_env = sample_crypto" "ky_bound sample_key_env"
  "ky_parse sample_key_env j = Inr sample_key_data"
  by (simp_all add: sample_key_env_def hosted_crypto.defs)

definition sample_hosted_body :: hosted_create_request where
  "sample_hosted_body = \<lparr>zq_public_key = sample_rp_key, zq_origin = [], zq_code_challenge = ''cc'',
     zq_code_challenge_method = ''S256'', zq_environment = ''production''\<rparr>"

definition sample_hosted_create_env :: "challenge_store_env \<Rightarrow> hosted_create_env" where
  "sample_hosted_create_env ce = \<lparr>zv_environment = ''production'', zv_base_url = ''https://verify.example'',
     zv_session_ttl_var = None, zv_quota_var = None, zv_parse_body = (\<lambda>_. Some sample_hosted_body), zv_count = length,
     zv_invalid = (\<lambda>_. []), zv_keys = sample_key_env, zv_rate_bound = True, zv_tiers = re_tiers sample_redeem_env,
     zv_parse_policy = (\<lambda>_. Inr sample_policy), zv_credit_entry = (\<lambda>_. None), zv_organization = (\<lambda>_. None),
     zv_rp_challenge = (\<lambda>_ n. n), zv_encode = hex_encode, zv_decode = (\<lambda>_. Some (replicate 32 5)),
     zv_nonces = sample_nonce_env, zv_challenges = ce, zv_config_bound = True, zv_sessions = sample_hosted_env,
     zv_binding = truncating_env, zv_ip_hash_salt = ''salt'', zv_token_secret = Some ''secret''\<rparr>"

definition sample_hcreate_clock :: hosted_create_clock where
  "sample_hcreate_clock = \<lparr>zt_key_read = (\<lambda>_. Inr (Some sample_key_text)), zt_quota = (5000, 5000000, 5000),
     zt_policy = (4990000, KvValue (Some ''{}'')), zt_today = 1835395200, zt_date = sample_date, zt_origin_index = None,
     zt_uuid = replicate 16 1, zt_nonce = Some (replicate 32 7), zt_secret = Inr (replicate 32 8), zt_now = 5000,
     zt_session_id = ''s1'', zt_nonce_ms = 5000000, zt_put = (\<lambda>_. 5000000), zt_put_insert = (\<lambda>_. 5000000),
     zt_code_builder = True, zt_code_write = KvDone, zt_verifier = Some (replicate 32 6), zt_session_now = 5000,
     zt_session_iv = Inr (replicate 12 9)\<rparr>"

definition sample_hosted_challenge :: cached_challenge where
  "sample_hosted_challenge = hosted_new_challenge (sample_hosted_create_env ready_env) sample_hcreate_clock sample_hosted_body
     ''https://rp.example'' sample_policy 1 14669 (replicate 32 7) (replicate 32 8) (replicate 32 5)"

definition hosted_created_env :: challenge_store_env where
  "hosted_created_env = ready_env\<lparr>de_parse_challenge := (\<lambda>_. Inr sample_hosted_challenge),
     de_parse_update := (\<lambda>_. Inr (update_of sample_hosted_challenge))\<rparr>"

definition sample_hosted_create_world :: hosted_create_world where
  "sample_hosted_create_world = \<lparr>zx_kv = sample_hosted_kv (replicate 32 1) None,
     zx_rate = \<lparr>hosted_rate_world.hw_kv = \<lparr>rk_store = (\<lambda>_. None), rk_net = []\<rparr>, hw_counters = [], hw_tiers = [],
       hw_failure_count = 0, hw_denied_count = 0\<rparr>,
     zx_policies = [], zx_nonces = sample_hosted_nonces, zx_challenges = empty_challenges, zx_codes = Map.empty, zx_audit = []\<rparr>"

lemma sample_rp_key_valid: "validate_key_format sample_rp_key = Inr ()"
  by (rule generated_key_valid(1)[where t = Live and p = "replicate 32 1" and s = "replicate 32 1" and
      kp = "\<lparr>kp_public_key = sample_rp_key, kp_secret_key = ''sk_live_'' @ hex_encode (replicate 32 1), kp_key_type = Live\<rparr>", simplified])
    (simp add: generate_key_pair_def key_prefixes_def sample_rp_key_def)

lemma sample_key_read: "get_key sample_key_env (Inr (Some sample_key_text)) sample_rp_key
    \<lparr>mk_primary = Some (replicate 32 1), mk_previous = None\<rparr> =
  (Inr sample_key_data, \<lparr>mk_primary = Some (replicate 32 1), mk_previous = None\<rparr>)"
proof -
  have e: "encrypt_with_mek sample_crypto (Inr (replicate 12 9)) (replicate 32 1) ''j'' PUBLIC_KEY_DATA_AAD = Inr sample_key_text"
    by (simp add: encrypt_with_mek_def sample_crypto_def sample_key_text_def)
  have "decrypt_with_mek sample_crypto (replicate 32 1) sample_key_text PUBLIC_KEY_DATA_AAD = Inr ''j''"
    using decrypt_encrypt[OF sample_crypto_laws _ e] by simp
  then show ?thesis
    by (simp add: get_key_def sample_rp_key_valid get_mek_from_secrets_def)
qed

lemma sample_quota_granted:
  "\<exists>x. quota_granted (sample_hosted_create_env ce) sample_hcreate_clock sample_rp_key (zx_rate sample_hosted_create_world) x"
proof -
  have q: "rk_store (hosted_rate_world.hw_kv (zx_rate sample_hosted_create_world)) = (\<lambda>_. None)" "rk_net (hosted_rate_world.hw_kv (zx_rate sample_hosted_create_world)) = []"
    "hw_counters (zx_rate sample_hosted_create_world) = []" "hw_tiers (zx_rate sample_hosted_create_world) = []"
    by (simp_all add: sample_hosted_create_world_def)
  have l: "hosted_default_quota (sample_hosted_create_env ce) = 500"
    by (simp add: hosted_default_quota_def sample_hosted_create_env_def)
  show ?thesis
    by (simp add: quota_granted_def sample_hcreate_clock_def l hosted_check_quota_def hosted_customer_limit_def hosted_fetch_limit_def
        hosted_check_kv_counter_def seed_counter_def get_text_def q record_kv_success_def u32_or_max_def sat_add_def Let_def
        next_delivery_def word_le_nat_alt
        split: prod.split sum.split)
qed

text \<open>Where the direct flow computes a cutoff, the hosted flow computes the same one.\<close>

lemma hosted_cutoff_agrees:
  assumes "compute_cutoff_days (epoch_days secs) (calculate_exact_days_for_years date y) = Inr c" "unat (secs div 86400) < 2 ^ 32"
  shows "hosted_cutoff_days secs date y = Inr c"
  using assms by (auto simp: compute_cutoff_days_def hosted_cutoff_days_def epoch_days_def i32_or_max_def i32_checked_sub_def
      i32_saturating_sub_def Let_def split: option.splits sum.splits if_splits)

lemma sample_origin_matches: "origin_matches_pattern (ky_url sample_key_env) ''https://rp.example'' ''https://rp.example''"
proof -
  have "trim ''https://rp.example'' = ''https://rp.example''" by (rule trim_visible) (simp add: visible_def)
  then show ?thesis
    by (simp add: origin_matches_pattern_def Let_def split_once_none del: split_once.simps)
      (simp add: matches_exact_def sample_key_env_def hosted_crypto.defs)
qed

lemma sample_session_stores:
  "\<exists>k. store_session_kv sample_hosted_env (Inr (replicate 12 9)) s ttl (sample_hosted_kv (replicate 32 1) None) = (Inr (), k)"
  by (simp add: store_session_kv_def get_mek_from_secrets_def sample_hosted_kv_def encrypt_with_mek_def)
    (simp add: sample_crypto_def kv_write_text_def next_outcome_def takes_effect_def)

lemma sample_hosted_created:
  "\<exists>r w'. handle_hosted_challenge (sample_hosted_create_env hosted_created_env) sample_hcreate_clock sample_hosted_headers []
     sample_hosted_create_world = (HostedCreated r, w') \<and> zr_cutoff_days r = 14669 \<and> zr_challenge_id r = sample_id"
proof -
  let ?e = "sample_hosted_create_env hosted_created_env" and ?t = sample_hcreate_clock and ?h = sample_hosted_headers
  let ?b = sample_hosted_body and ?w = sample_hosted_create_world and ?o = "''https://rp.example''" and ?k = sample_rp_key
  have kn: "sample_rp_key \<noteq> []" by (simp add: sample_rp_key_def)
  have e: "zv_parse_body ?e = (\<lambda>_. Some ?b)" "zv_keys ?e = sample_key_env" "zv_rate_bound ?e" "zv_count ?e = length"
    "zv_nonces ?e = sample_nonce_env" "zv_encode ?e = hex_encode" "zv_challenges ?e = hosted_created_env" "zv_config_bound ?e"
    "zv_sessions ?e = sample_hosted_env" "zv_credit_entry ?e = (\<lambda>_. None)" "zv_decode ?e = (\<lambda>_. Some (replicate 32 5))"
    by (simp_all add: sample_hosted_create_env_def)
  have p1: "z_body_phase ?e [] ?w = (Inr ?b, ?w)"
    by (simp add: z_body_ok e) (simp add: hosted_request_valid_def sample_hosted_body_def sample_rp_key_def hex_encode_digits(2)
        validate_code_challenge_method_def validate_environment_def)
  have p2: "z_fields_phase ?h ?b ?w = (Inr (?k, ?o), ?w)"
    by (simp add: z_fields_ok field_of_def kn MAX_ORIGIN_LENGTH_def)
      (simp add: sample_hosted_body_def sample_hosted_headers_def sample_headers_def redeem_headers.defs)
  have "hk_meks (zx_kv ?w) = \<lparr>mk_primary = Some (replicate 32 1), mk_previous = None\<rparr>" "pd_enabled sample_key_data"
    "zt_key_read ?t ?k = Inr (Some sample_key_text)"
    by (simp_all add: sample_hosted_create_world_def sample_hosted_kv_def sample_key_data_def sample_hcreate_clock_def)
  then have p3: "z_key_phase ?e ?t ?h ?k ?w = (Inr sample_key_data, ?w)"
    by (simp add: z_key_ok e sample_key_read sample_rp_key_valid)
  have p4: "z_origin_phase ?e ?h ?k ?o sample_key_data ?w = (Inr (), ?w)"
    by (simp add: z_origin_ok key_serves_def origin_listed e sample_key_data_def sample_origin_matches)
  obtain x where p5: "z_quota_phase ?e ?t ?h ?k ?w = (Inr (), ?w\<lparr>zx_rate := x\<rparr>)"
    using sample_quota_granted[of hosted_created_env] by (auto simp: z_quota_ok e)
  let ?w1 = "?w\<lparr>zx_rate := x\<rparr>"
  obtain pc where pc: "get_policy (\<lambda>_. Inr sample_policy) 4990000 ?o (KvValue (Some ''{}'')) [] = (Inr (Some sample_policy), pc)"
    by (simp add: get_policy_def cache_hit_def load_policy_def kv_value_def sample_policy_def)
  then have p6: "z_policy_phase ?e ?t ?k ?o ?w1 = (Inr sample_policy, ?w1\<lparr>zx_policies := pc\<rparr>)"
    by (simp add: z_policy_phase_def andthen_on_part sample_hosted_create_env_def sample_hcreate_clock_def
        sample_hosted_create_world_def ret_def)
  let ?w2 = "?w1\<lparr>zx_policies := pc\<rparr>"
  have g: "z_gates ?e ?t ?h [] ?w = (Inr (?b, ?k, ?o, sample_policy), ?w2)"
    by (simp add: z_gates_def andthen_def p1 p2 p3 p4 p5 p6 ret_def)
  have q1: "z_cutoff_phase ?t sample_policy ?w2 = (Inr 14669, ?w2)"
    using hosted_cutoff_agrees[of "zt_today ?t" "zt_date ?t" 18 14669] sample_cutoff
    by (simp add: z_cutoff_ok age_threshold_def effective_proof_direction_def sample_policy_def origin_policy_default_def
        epoch_days_def sample_hcreate_clock_def)
  have q2: "z_vk_phase sample_policy ?w2 = (Inr 1, ?w2)"
    by (simp add: z_vk_phase_def sample_policy_def origin_policy_default_def vk_id_new_def ret_def)
  have q3: "z_credit_phase ?e ?t ?h ?o ?w2 = (Inr (), ?w2)"
    by (simp add: z_credit_ok credit_exhausted_def z_index_def origin_index_json_def sample_hcreate_clock_def)
  have q4: "z_random_phase ?t ?w2 = (Inr (replicate 32 7, replicate 32 8), ?w2)"
    by (simp add: z_random_ok sample_hcreate_clock_def)
  let ?n = "hex_encode (replicate 32 7)"
  have "?n \<noteq> []" "length (hn_body sample_nonce_env ?n NONCE_DEDUP_TTL) \<le> HOSTED_MAX_NONCE_BODY_SIZE"
    using hex_encode_digits(2)[of "replicate 32 7"]
    by (auto simp: sample_nonce_env_def string_bytes_def HOSTED_MAX_NONCE_BODY_SIZE_def)
  then obtain nw where nw: "store_nonce_do sample_nonce_env ?n 5000000 NONCE_DEDUP_TTL sample_hosted_nonces = (Inr True, nw)"
    using nonce_stored by blast
  then have q5: "z_nonce_phase ?e ?t ?h (replicate 32 7) ?w2 = (Inr (), ?w2\<lparr>zx_nonces := nw\<rparr>)"
    by (simp add: z_nonce_ok e) (simp add: sample_hcreate_clock_def sample_hosted_create_world_def)
  let ?w3 = "?w2\<lparr>zx_nonces := nw\<rparr>"
  have q6: "z_code_challenge_phase ?e ?b ?w3 = (Inr (replicate 32 5), ?w3)" by (simp add: z_code_challenge_ok e)
  let ?c = sample_hosted_challenge
  have n: "hosted_new_challenge ?e ?t ?b ?o sample_policy 1 14669 (replicate 32 7) (replicate 32 8) (replicate 32 5) = ?c"
    by (simp add: sample_hosted_challenge_def hosted_new_challenge_def sample_hosted_create_env_def)
  have laws: "cs_laws hosted_created_env (replicate 16 1) ?c" "cc_short_code ?c = generate_short_code_from_uuid (replicate 16 1)"
    by (simp_all add: cs_laws_def hosted_created_env_def sample_id_valid ready_env_def sample_hosted_challenge_def
        hosted_new_challenge_def sample_hcreate_clock_def)
  have size: "length (cse_serialise hosted_created_env ?c) \<le> MAX_CHALLENGE_BODY_SIZE"
    by (cases "cc_state ?c") (simp_all add: hosted_created_env_def ready_env_def MAX_CHALLENGE_BODY_SIZE_def)
  obtain cs where "store_put hosted_created_env (zt_put ?t) (zt_put_insert ?t) (zt_uuid ?t) ?c empty_challenges = (Inr (), cs)"
    using put_creates[OF _ _ _ _ laws(1) created_laws(3) size laws(2), of empty_challenges "zt_put ?t" "zt_put_insert ?t"]
    by (auto simp: empty_challenges_def sample_hcreate_clock_def)
  then obtain w4 where q7: "z_store_phase ?e ?t ?h ?c ?w3 = (Inr (), w4)" and w4: "zx_kv w4 = sample_hosted_kv (replicate 32 1) None"
    by (simp add: z_store_ok e) (simp add: sample_hcreate_clock_def sample_hosted_create_world_def)
  obtain v where q8: "z_verifier_phase ?e ?t w4 = (Inr v, w4)"
    by (simp add: z_verifier_ok) (simp add: sample_hcreate_clock_def)
  have "hash_with_salt (zv_binding ?e) x y d = Inr []" for x y d
    by (simp add: sample_hosted_create_env_def truncating_env_def hash_with_salt_def)
  then obtain ip ua where q9: "z_binding_phase ?e ?h w4 = (Inr (ip, ua), w4)"
    by (simp add: z_binding_ok) (simp add: sample_hosted_headers_def redeem_headers.defs)
  have iv: "zt_session_iv ?t = Inr (replicate 12 9)" by (simp add: sample_hcreate_clock_def)
  let ?s = "hosted_new_session ?e ?t ?b ?k ?o sample_policy 1 (replicate 32 7) v ip ua"
  obtain k where k: "store_session_kv sample_hosted_env (Inr (replicate 12 9)) ?s (hosted_session_ttl ?e)
      (sample_hosted_kv (replicate 32 1) None) = (Inr (), k)"
    using sample_session_stores by blast
  obtain w5 where q10: "z_session_phase ?e ?t ?h ?s w4 = (Inr (), w5)"
    using k iv by (simp add: z_session_phase_def andthen_on_part w4 e ret_def split_beta)
  obtain url where q11: "z_ticket_phase ?e ?t sample_policy w5 = (Inr url, w5)"
    by (simp add: z_ticket_ok) (simp add: sample_hosted_create_env_def generate_ws_ticket_def truncating_env_def sample_hcreate_clock_def)
  have q12: "z_audit x w5 = (Inr (), w5\<lparr>zx_audit := zx_audit w5 @ x\<rparr>)" for x by (simp add: append_to_def)
  obtain w6 where "z_issue ?e ?t ?h (?b, ?k, ?o, sample_policy) ?w2 = (Inr (HostedCreated (hosted_response ?e ?t sample_policy ?c url)), w6)"
    unfolding z_issue_def prod.case Let_def by (simp add: andthen_def q1 q2 q3 q4 q5 q6 n q7 q8 q9 q10 q11 q12 ret_def)
  then have "handle_hosted_challenge ?e ?t ?h [] ?w = (HostedCreated (hosted_response ?e ?t sample_policy ?c url), w6)"
    by (simp add: handle_hosted_challenge_def finish_def andthen_def g)
  moreover have "zr_cutoff_days (hosted_response ?e ?t sample_policy ?c url) = 14669"
    "zr_challenge_id (hosted_response ?e ?t sample_policy ?c url) = sample_id"
    by (simp_all add: hosted_response_def Let_def e) (simp_all add: sample_hosted_challenge_def hosted_new_challenge_def
        hosted_created_env_def ready_env_def)
  ultimately show ?thesis by blast
qed

lemma hosted_created_only_if_witness:
  "\<exists>r w'. handle_hosted_challenge (sample_hosted_create_env hosted_created_env) sample_hcreate_clock sample_hosted_headers []
     sample_hosted_create_world = (HostedCreated r, w') \<and>
     hosted_cutoff_days (zt_today sample_hcreate_clock) (zt_date sample_hcreate_clock) 18 = Inr 14669 \<and> zr_verifying_key_id r \<in> {1, 2, 3}"
proof -
  obtain r w' where c: "handle_hosted_challenge (sample_hosted_create_env hosted_created_env) sample_hcreate_clock sample_hosted_headers []
     sample_hosted_create_world = (HostedCreated r, w')" "zr_cutoff_days r = 14669" using sample_hosted_created by blast
  have f: "get_policy (zv_parse_policy (sample_hosted_create_env hosted_created_env)) x y z [] = (Inr (Some p), q) \<Longrightarrow> p = sample_policy" for x y z p q
    by (auto simp: sample_hosted_create_env_def get_policy_def cache_hit_def load_policy_def split: sum.splits option.splits if_splits)
  have n: "\<not> is_sandbox_test_key (sample_hosted_create_env hosted_created_env) k" for k
    by (simp add: is_sandbox_test_key_def sample_hosted_create_env_def)
  have z: "zx_policies sample_hosted_create_world = []" by (simp add: sample_hosted_create_world_def)
  from hosted_created_only_if[OF c(1)] obtain policy years where p: "policy = sample_policy" "zr_verifying_key_id r \<in> set (op_allowed_vk_ids policy)"
    "age_threshold policy = Inr years"
    "hosted_cutoff_days (zt_today sample_hcreate_clock) (zt_date sample_hcreate_clock) years = Inr (zr_cutoff_days r)"
    unfolding hosted_policy_of_def z by (auto simp: n dest: f)
  then have "years = 18" "zr_verifying_key_id r \<in> {1, 2, 3}"
    by (auto simp: sample_policy_def origin_policy_default_def age_threshold_def effective_proof_direction_def)
  with c p(4) show ?thesis by auto
qed

lemma hosted_created_recorded_witness:
  "\<exists>r w'. handle_hosted_challenge (sample_hosted_create_env hosted_created_env) sample_hcreate_clock sample_hosted_headers []
     sample_hosted_create_world = (HostedCreated r, w') \<and> zx_codes w' (code_map_key (zr_short_code r)) = Some sample_id"
proof -
  obtain r w' where c: "handle_hosted_challenge (sample_hosted_create_env hosted_created_env) sample_hcreate_clock sample_hosted_headers []
     sample_hosted_create_world = (HostedCreated r, w')" "zr_challenge_id r = sample_id" using sample_hosted_created by blast
  have "hosted_crypto.truncate (zv_sessions (sample_hosted_create_env hosted_created_env)) = sample_crypto"
    by (simp add: sample_hosted_create_env_def)
  moreover have "zt_session_iv sample_hcreate_clock = Inr (replicate 12 9)" by (simp add: sample_hcreate_clock_def)
  ultimately have "zx_codes w' (code_map_key (zr_short_code r)) = Some (zr_challenge_id r)"
    using hosted_created_recorded[OF c(1)] sample_crypto_laws by simp blast
  with c show ?thesis by auto
qed

end
