(* ===== verification/Hosted_Status.thy ===== *)
theory Hosted_Status imports Hosted_Redeem begin

text \<open>
  \<open>src/hosted/endpoints/status.rs\<close>: the poll of a hosted session by the browser, from the request checks to the
  answer, with the count of the polls in the encrypted session. Analytics, timings and console lines are left out.
\<close>

subsection \<open>States and the answer\<close>

datatype hosted_session_state = Status_Pending | Status_ProofOk | Status_Verified | Status_Expired

fun from_challenge_state :: "challenge_state \<Rightarrow> hosted_session_state" where
  "from_challenge_state Pending = Status_Pending"
| "from_challenge_state ProofOkWaitingForRedeem = Status_ProofOk"
| "from_challenge_state Verified = Status_Verified"
| "from_challenge_state Failed = Status_Expired"
| "from_challenge_state Expired = Status_Expired"

record hosted_status_response =
  hz_session_id :: string
  hz_state :: hosted_session_state
  hz_created_at :: u64
  hz_expires_at :: u64
  hz_proof_verified :: bool
  hz_complete :: "bool option"
  hz_error :: "string option"
  hz_poll_after :: "u64 option"
  hz_remaining_checks :: "u32 option"

definition DEFAULT_MAX_STATUS_CHECKS :: u32 where "DEFAULT_MAX_STATUS_CHECKS = 120"

record hosted_status_env =
  he_sessions :: hosted_env
  he_binding :: crypto_env
  he_ip_hash_salt :: string
  he_parse_uuid :: "string \<Rightarrow> uuid option"
  he_challenges :: challenge_store_env

record hosted_status_clock =
  hl_session_iv :: "string + bytes"
  hl_session_update :: u64
  hl_get :: "nat \<Rightarrow> u64"
  hl_now :: u64

record hosted_status_world =
  hy_kv :: hosted_kv
  hy_challenges :: challenge_world
  hy_audit :: "audit_call list"

datatype hosted_status_outcome = StatusServed hosted_status_response | StatusError api_error

type_synonym 'a status_step = "(hosted_status_world, hosted_status_outcome, 'a) step"

definition s_refuse :: "audit_call list \<Rightarrow> api_error \<Rightarrow> 'a status_step" where
  "s_refuse calls e = andthen (append_to hy_audit_update calls) (\<lambda>_. stop (StatusError e))"

subsection \<open>The request and the session\<close>

definition s_request_phase :: "hosted_status_env \<Rightarrow> hosted_headers \<Rightarrow> string \<Rightarrow> string status_step" where
  "s_request_phase env h session_id =
     (if he_parse_uuid env session_id = None then
        s_refuse [LogSuspiciousActivity (h_ip h) ''hosted_status:invalid_session_id''] (BadRequest (Some ''Invalid session_id format''))
      else if h_origin h = [] then
        s_refuse [LogSuspiciousActivity (h_ip h) ''hosted_status:missing_origin''] (BadRequest (Some ''Missing Origin header''))
      else let provided = (case hh_public_key h of Some k \<Rightarrow> k | None \<Rightarrow> []) in
        if provided = [] then
          s_refuse [LogAuthenticationFailure (h_ip h) ''hosted_status:bola_missing_public_key''] (Forbidden (Some ''Access denied''))
        else ret provided)"

definition s_session_phase :: "hosted_status_env \<Rightarrow> string \<Rightarrow> hosted_session status_step" where
  "s_session_phase env session_id =
     andthen (on_part hy_kv hy_kv_update (get_session_kv (he_sessions env) session_id)) (\<lambda>r.
     case r of
       Inr (Some s) \<Rightarrow> ret s
     | Inr None \<Rightarrow> s_refuse [] NotFound
     | Inl e \<Rightarrow> s_refuse [] (Internal (hosted_message e)))"

definition s_owner_phase :: "hosted_headers \<Rightarrow> string \<Rightarrow> hosted_session \<Rightarrow> unit status_step" where
  "s_owner_phase h provided session =
     (if provided \<noteq> hs_public_key session then
        s_refuse [LogAuthenticationFailure (h_ip h) ''hosted_status:bola_public_key_mismatch''] (Forbidden (Some ''Access denied''))
      else if h_origin h \<noteq> hs_origin session then
        s_refuse [LogAuthenticationFailure (h_ip h) ''hosted_status:origin_mismatch'']
          (Forbidden (Some ''Origin does not match session origin''))
      else ret ())"

definition s_binding_phase :: "hosted_status_env \<Rightarrow> hosted_headers \<Rightarrow> hosted_session \<Rightarrow> unit status_step" where
  "s_binding_phase env h session =
     (case hosted_verify_session_binding (he_binding env) (h_ip h) (hh_user_agent h) (hs_client_ip_hash session)
             (hs_user_agent session) (he_ip_hash_salt env) (to_logic_mode (hs_binding_mode session)) of
        Inr _ \<Rightarrow> ret ()
      | Inl e \<Rightarrow> s_refuse [LogAuthenticationFailure (h_ip h) ''hosted_status:session_binding_mismatch''] e)"

text \<open>The count is written back with the whole session that was read; a write that fails is only logged.\<close>

definition s_count_phase ::
    "hosted_status_env \<Rightarrow> hosted_status_clock \<Rightarrow> hosted_headers \<Rightarrow> hosted_session \<Rightarrow> hosted_session status_step" where
  "s_count_phase env t h session0 =
     (let session = increment_status_checks session0 in
      if hs_status_check_count session > DEFAULT_MAX_STATUS_CHECKS then
        s_refuse [LogSuspiciousActivity (h_ip h) ''hosted_status:session_rate_limit_exceeded'']
          (TooManyRequests (Some ''Status check rate limit exceeded''))
      else andthen (on_part hy_kv hy_kv_update (update_session_kv_checked (he_sessions env) (hl_session_iv t)
             (hl_session_update t) session (Some (hs_state session)))) (\<lambda>_. ret session))"

subsection \<open>The challenge and the answer\<close>

definition s_challenge_phase ::
    "hosted_status_env \<Rightarrow> hosted_status_clock \<Rightarrow> hosted_session \<Rightarrow> cached_challenge status_step" where
  "s_challenge_phase env t session =
     (case he_parse_uuid env (hs_verifier_challenge_id session) of
        None \<Rightarrow> s_refuse [] (Internal ''corrupt session data'')
      | Some cid \<Rightarrow>
          andthen (on_part hy_challenges hy_challenges_update (store_get (he_challenges env) (hl_get t) cid)) (\<lambda>r.
          case r of
            Inr (Some c) \<Rightarrow> ret c
          | Inr None \<Rightarrow> s_refuse [] NotFound
          | Inl e \<Rightarrow> s_refuse [] (Internal (display e))))"

definition effective_state :: "u64 \<Rightarrow> cached_challenge \<Rightarrow> hosted_session_state" where
  "effective_state now entry =
     (if now > cc_expires_at entry \<and> cc_state entry \<noteq> Verified then Status_Expired
      else from_challenge_state (cc_state entry))"

definition status_response :: "u64 \<Rightarrow> string \<Rightarrow> hosted_session \<Rightarrow> cached_challenge \<Rightarrow> hosted_status_response" where
  "status_response now session_id session entry =
     (let st = effective_state now entry in
      \<lparr>hz_session_id = session_id, hz_state = st, hz_created_at = cc_created_at entry, hz_expires_at = cc_expires_at entry,
       hz_proof_verified = (cc_state entry = ProofOkWaitingForRedeem \<or> cc_state entry = Verified),
       hz_complete = Some (st \<noteq> Status_Pending),
       hz_error = (if st = Status_Expired then Some ''Session expired'' else None),
       hz_poll_after = (if st = Status_Pending then Some (sat_add now 2) else None),
       hz_remaining_checks = Some (sat_sub DEFAULT_MAX_STATUS_CHECKS (hs_status_check_count session))\<rparr>)"

definition s_handler ::
    "hosted_status_env \<Rightarrow> hosted_status_clock \<Rightarrow> hosted_headers \<Rightarrow> string \<Rightarrow> hosted_status_outcome status_step" where
  "s_handler env t h session_id =
     andthen (s_request_phase env h session_id) (\<lambda>provided.
     andthen (s_session_phase env session_id) (\<lambda>session.
     andthen (s_owner_phase h provided session) (\<lambda>_.
     andthen (s_binding_phase env h session) (\<lambda>_.
     andthen (s_count_phase env t h session) (\<lambda>counted.
     andthen (s_challenge_phase env t counted) (\<lambda>entry.
     ret (StatusServed (status_response (hl_now t) session_id counted entry))))))))"

definition handle_hosted_status ::
    "hosted_status_env \<Rightarrow> hosted_status_clock \<Rightarrow> hosted_headers \<Rightarrow> string \<Rightarrow> hosted_status_world \<Rightarrow>
     hosted_status_outcome \<times> hosted_status_world" where
  "handle_hosted_status env t h session_id = finish (s_handler env t h session_id)"

subsection \<open>What each phase established\<close>

named_theorems status_inv \<open>what a phase of the poll does when it goes on\<close>

lemma s_refuse_run [status_inv]: "s_refuse calls e w = (Inr x, w') \<longleftrightarrow> False"
  by (simp add: s_refuse_def andthen_append_to)

lemma s_request_ok [status_inv]: "s_request_phase env h sid w = (Inr provided, w') \<longleftrightarrow>
    he_parse_uuid env sid \<noteq> None \<and> h_origin h \<noteq> [] \<and> hh_public_key h = Some provided \<and> provided \<noteq> [] \<and> w' = w"
  by (auto simp: s_request_phase_def Let_def status_inv split: option.split)

lemma s_session_ok [status_inv]: "s_session_phase env sid w = (Inr s, w') \<longleftrightarrow>
    (\<exists>k. get_session_kv (he_sessions env) sid (hy_kv w) = (Inr (Some s), k) \<and> w' = w\<lparr>hy_kv := k\<rparr>)"
  by (auto simp: s_session_phase_def andthen_on_part status_inv split: prod.split sum.split option.split)

lemma s_owner_ok [status_inv]: "s_owner_phase h provided s w = (Inr u, w') \<longleftrightarrow>
    provided = hs_public_key s \<and> h_origin h = hs_origin s \<and> w' = w"
  by (auto simp: s_owner_phase_def status_inv)

definition binding_accepts :: "hosted_status_env \<Rightarrow> hosted_headers \<Rightarrow> hosted_session \<Rightarrow> bool" where
  "binding_accepts env h s \<longleftrightarrow> (\<exists>r. hosted_verify_session_binding (he_binding env) (h_ip h) (hh_user_agent h)
     (hs_client_ip_hash s) (hs_user_agent s) (he_ip_hash_salt env) (to_logic_mode (hs_binding_mode s)) = Inr r)"

lemma s_binding_ok [status_inv]: "s_binding_phase env h s w = (Inr u, w') \<longleftrightarrow> binding_accepts env h s \<and> w' = w"
  by (auto simp: s_binding_phase_def binding_accepts_def status_inv split: sum.split)

lemma s_count_ok [status_inv]: "s_count_phase env t h s w = (Inr c, w') \<longleftrightarrow> c = increment_status_checks s \<and>
    hs_status_check_count c \<le> DEFAULT_MAX_STATUS_CHECKS \<and>
    (\<exists>r k. update_session_kv_checked (he_sessions env) (hl_session_iv t) (hl_session_update t) c (Some (hs_state c)) (hy_kv w) = (r, k) \<and>
      w' = w\<lparr>hy_kv := k\<rparr>)"
  by (auto simp: s_count_phase_def Let_def andthen_on_part status_inv split: prod.split)

lemma s_challenge_ok [status_inv]: "s_challenge_phase env t s w = (Inr c, w') \<longleftrightarrow>
    (\<exists>cid x. he_parse_uuid env (hs_verifier_challenge_id s) = Some cid \<and>
      store_get (he_challenges env) (hl_get t) cid (hy_challenges w) = (Inr (Some c), x) \<and> w' = w\<lparr>hy_challenges := x\<rparr>)"
  by (auto simp: s_challenge_phase_def andthen_on_part status_inv split: prod.split sum.split option.split)

definition not_served :: "hosted_status_outcome \<Rightarrow> bool" where "not_served out \<longleftrightarrow> (\<forall>r. out \<noteq> StatusServed r)"

lemma status_served_run:
  assumes "handle_hosted_status env t h sid w = (StatusServed r, w')"
  shows "s_handler env t h sid w = (Inr (StatusServed r), w')"
proof -
  have p: "ends_in not_served (s_refuse calls e)" "ends_in not_served (on_part g u f)" for calls e g u f
    by (auto simp: ends_in_def not_served_def s_refuse_def andthen_append_to on_part_def split: prod.splits)
  have "ends_in not_served (s_request_phase env h sid)" "ends_in not_served (s_session_phase env sid)"
    "ends_in not_served (s_owner_phase h k s)" "ends_in not_served (s_binding_phase env h s)"
    "ends_in not_served (s_count_phase env t h s)" "ends_in not_served (s_challenge_phase env t s)" for k s
    unfolding s_request_phase_def s_session_phase_def s_owner_phase_def s_binding_phase_def s_count_phase_def
      s_challenge_phase_def Let_def
    by (auto intro!: ends_in_andthen ends_in_ret p split: sum.split option.split)
  then have "ends_in not_served (s_handler env t h sid)"
    unfolding s_handler_def by (intro ends_in_andthen ends_in_ret)
  with assms show ?thesis unfolding handle_hosted_status_def finish_iff not_served_def by (auto dest: ends_inD)
qed

subsection \<open>Properties\<close>

text \<open>The status of a hosted session is told only to its owner: the caller shows the public key and the origin
  of the session that KV holds and passes its binding, the session had been polled fewer than 120 times, and the answer
  is that of the stored challenge: verified exactly when the challenge is, waiting for redemption exactly when
  it is and has not expired, with the number of polls that are left.\<close>

theorem hosted_status_served:
  assumes "handle_hosted_status env t h sid w = (StatusServed r, w')"
  shows "\<exists>s k cid c. get_session_kv (he_sessions env) sid (hy_kv w) = (Inr (Some s), k) \<and>
    hh_public_key h = Some (hs_public_key s) \<and> h_origin h = hs_origin s \<and> binding_accepts env h s \<and>
    hs_status_check_count s < 120 \<and> hz_remaining_checks r = Some (119 - hs_status_check_count s) \<and>
    he_parse_uuid env (hs_verifier_challenge_id s) = Some cid \<and>
    store_get (he_challenges env) (hl_get t) cid (hy_challenges w) = (Inr (Some c), hy_challenges w') \<and>
    (hz_state r = Status_Verified \<longleftrightarrow> cc_state c = Verified) \<and>
    (hz_state r = Status_ProofOk \<longleftrightarrow> cc_state c = ProofOkWaitingForRedeem \<and> hl_now t \<le> cc_expires_at c)"
proof -
  from status_served_run[OF assms] obtain provided s k r' k' c cid x where p:
    "hh_public_key h = Some (hs_public_key s)" "h_origin h = hs_origin s" "binding_accepts env h s"
    "get_session_kv (he_sessions env) sid (hy_kv w) = (Inr (Some s), k)"
    "hs_status_check_count (increment_status_checks s) \<le> DEFAULT_MAX_STATUS_CHECKS"
    "he_parse_uuid env (hs_verifier_challenge_id (increment_status_checks s)) = Some cid"
    "store_get (he_challenges env) (hl_get t) cid (hy_challenges w) = (Inr (Some c), hy_challenges w')"
    "r = status_response (hl_now t) sid (increment_status_checks s) c"
    by (auto simp: s_handler_def andthen_Inr_iff status_inv)
  have i: "sat_add (hs_status_check_count s) 1 \<le> 120"
    using p(5) by (simp add: increment_status_checks_def DEFAULT_MAX_STATUS_CHECKS_def)
  then have n: "unat (hs_status_check_count s) < 120" by (simp add: word_le_nat_alt unat_sat_add)
  then have "sat_sub 120 (sat_add (hs_status_check_count s) 1) = 119 - hs_status_check_count s"
    by (intro unsigned_word_eqI[where 'a = nat]) (simp add: unat_sat_sub unat_sat_add unat_sub_if')
  then have "hz_remaining_checks r = Some (119 - hs_status_check_count s)"
    by (simp add: p(8) status_response_def Let_def DEFAULT_MAX_STATUS_CHECKS_def increment_status_checks_def)
  moreover have "hz_state r = effective_state (hl_now t) c" by (simp add: p(8) status_response_def Let_def)
  then have "hz_state r = Status_Verified \<longleftrightarrow> cc_state c = Verified"
    "hz_state r = Status_ProofOk \<longleftrightarrow> cc_state c = ProofOkWaitingForRedeem \<and> hl_now t \<le> cc_expires_at c"
    by (cases "cc_state c"; auto simp: effective_state_def not_less)+
  moreover have "hs_status_check_count s < 120" using n by (simp add: word_less_nat_alt)
  moreover have "he_parse_uuid env (hs_verifier_challenge_id s) = Some cid" using p(6) by (simp add: increment_status_checks_def)
  ultimately show ?thesis using p(1-4,7) by blast
qed

text \<open>A poll can undo an attempt of a redemption: both write the whole session back, so when the attempt is
  counted between the read and the write of the poll, KV ends with the number of attempts of before, as well as with the
  state of before.\<close>

theorem poll_undoes_attempt:
  assumes "h_attempts_phase renv rt rh s v = (Inr (), v')" "hw_kv v' = hy_kv w"
    and "update_session_kv_checked (he_sessions env) (Inr iv) (hl_session_update t) (increment_status_checks s)
      (Some (hs_state s)) (hy_kv w) = (Inr (), k)"
    and "crypto_laws (hosted_crypto.truncate (he_sessions env))" "length iv = 12"
    and "session_json_law (he_sessions env) (increment_status_checks s)"
  shows "\<exists>c. fst (get_session_kv_tracked (he_sessions env) (hs_session_id s) (k\<lparr>hk_net := []\<rparr>)) = Inr (Some (c, Current)) \<and>
    hs_redeem_attempt_count c = hs_redeem_attempt_count s \<and> hs_state c = hs_state s"
proof -
  let ?c = "increment_status_checks s"
  have id: "hs_session_id ?c = hs_session_id s" "hs_redeem_attempt_count ?c = hs_redeem_attempt_count s" "hs_state ?c = hs_state s"
    by (simp_all add: increment_status_checks_def)
  from assms(3) obtain ttl where st: "store_session_kv (he_sessions env) (Inr iv) ?c ttl (hy_kv w) = (Inr (), k)"
    by (auto simp: update_session_kv_checked_def split: sum.splits)
  from store_session_stored[OF st] obtain mek j x where k: "mk_primary (hk_meks k) = Some mek" "hv_json (he_sessions env) ?c = Inr j"
    "hv_bound (he_sessions env)" "encrypt_with_mek (hosted_crypto.truncate (he_sessions env)) (Inr iv) mek j SESSION_AAD = Inr x"
    "hk_store k (session_key (hs_session_id ?c)) = Some (x, ttl)" by auto
  have j: "hv_parse (he_sessions env) j = Inr ?c" using assms(6) k(2) by (auto simp: session_json_law_def)
  have "fst (get_session_kv_tracked (he_sessions env) (hs_session_id ?c) (k\<lparr>hk_net := []\<rparr>)) = Inr (Some (?c, Current))"
    using k by (intro get_session_decrypted[OF k(3) _ _ refl _ j decrypt_current[OF assms(4,5) k(4)]]) (simp_all add: next_outcome_def)
  with id show ?thesis by auto
qed

subsection \<open>Sample runs\<close>

definition sample_status_env :: hosted_status_env where
  "sample_status_env = \<lparr>he_sessions = sample_hosted_env, he_binding = truncating_env, he_ip_hash_salt = ''salt'',
     he_parse_uuid = (\<lambda>_. Some (replicate 16 1)), he_challenges = ready_env\<rparr>"

definition sample_status_clock :: hosted_status_clock where
  "sample_status_clock = \<lparr>hl_session_iv = Inr (replicate 12 9), hl_session_update = 1100, hl_get = (\<lambda>_. 1100000), hl_now = 1100\<rparr>"

definition sample_status_world :: hosted_status_world where
  "sample_status_world = \<lparr>hy_kv = hw_kv sample_hosted_world, hy_challenges = ready_world [], hy_audit = []\<rparr>"

lemma hosted_status_served_witness:
  "\<exists>r w'. handle_hosted_status sample_status_env sample_status_clock sample_hosted_headers ''s1'' sample_status_world =
     (StatusServed r, w') \<and> hz_state r = Status_ProofOk \<and> hz_remaining_checks r = Some 119"
proof -
  let ?e = sample_status_env and ?t = sample_status_clock and ?h = sample_hosted_headers and ?w = sample_status_world
  let ?c = "increment_status_checks sample_session"
  obtain k slot where "get_session_kv_tracked sample_hosted_env ''s1'' (hw_kv sample_hosted_world) = (Inr (Some (sample_session, slot)), k)"
    using sample_session_read by (metis prod.collapse)
  then have k: "get_session_kv sample_hosted_env ''s1'' (hw_kv sample_hosted_world) = (Inr (Some sample_session), k)"
    by (simp add: get_session_kv_def)
  have e: "he_sessions ?e = sample_hosted_env" "\<And>s. he_parse_uuid ?e s = Some (replicate 16 1)" "he_challenges ?e = ready_env"
    "hl_get ?t = (\<lambda>_. 1100000)" "hl_now ?t = 1100" "hy_kv ?w = hw_kv sample_hosted_world" "hy_challenges ?w = ready_world []"
    by (simp_all add: sample_status_env_def sample_status_clock_def sample_status_world_def)
  have 1: "s_request_phase ?e ?h ''s1'' ?w = (Inr ''pk_live_1'', ?w)" by (simp add: s_request_ok e)
  have 2: "s_session_phase ?e ''s1'' ?w = (Inr sample_session, ?w\<lparr>hy_kv := k\<rparr>)" using k by (simp add: s_session_ok e)
  have 3: "s_owner_phase ?h ''pk_live_1'' sample_session v = (Inr (), v)" for v by (simp add: s_owner_ok)
  have 4: "s_binding_phase ?e ?h sample_session v = (Inr (), v)" for v
    by (simp add: s_binding_ok binding_accepts_def hosted_verify_session_binding_def verify_session_binding_def)
  have n: "hs_status_check_count sample_session = 0" by (simp add: sample_session_def session_new_def)
  then have "\<not> DEFAULT_MAX_STATUS_CHECKS < hs_status_check_count ?c"
    by (simp add: increment_status_checks_def DEFAULT_MAX_STATUS_CHECKS_def sat_add_def)
  then obtain k' where 5: "s_count_phase ?e ?t ?h sample_session (?w\<lparr>hy_kv := k\<rparr>) = (Inr ?c, ?w\<lparr>hy_kv := k'\<rparr>)"
    by (simp add: s_count_phase_def Let_def andthen_on_part split_beta ret_def)
  have 6: "s_challenge_phase ?e ?t ?c (?w\<lparr>hy_kv := k'\<rparr>) = (Inr ready_challenge, ?w\<lparr>hy_kv := k'\<rparr>)"
    using sample_read[OF ready_undisturbed, of "replicate 16 1"] by (simp add: s_challenge_ok e)
  have "handle_hosted_status ?e ?t ?h ''s1'' ?w = (StatusServed (status_response 1100 ''s1'' ?c ready_challenge), ?w\<lparr>hy_kv := k'\<rparr>)"
    by (simp add: handle_hosted_status_def finish_def s_handler_def andthen_def 1 2 3 4 5 6 e(5) ret_def)
  moreover from hosted_status_served[OF this] have
    "hz_state (status_response 1100 ''s1'' ?c ready_challenge) = Status_ProofOk"
    "hz_remaining_checks (status_response 1100 ''s1'' ?c ready_challenge) = Some 119"
    using k sample_read[OF ready_undisturbed, of "replicate 16 1"] by (auto simp: e ready_valid(1) n)
  ultimately show ?thesis by blast
qed

lemma quiet_store:
  assumes "hosted_crypto.truncate env = sample_crypto" "hv_bound env" "hv_json env s = Inr ''j''"
    and "hk_net w = []" "mk_primary (hk_meks w) = Some (replicate 32 1)"
  shows "\<exists>k. update_session_kv_checked env (Inr (replicate 12 9)) now s (Some (hs_state s)) w = (Inr (), k) \<and>
    hk_net k = [] \<and> mk_primary (hk_meks k) = Some (replicate 32 1)"
  using assms
  by (simp add: update_session_kv_checked_def validate_transition_def store_session_kv_def get_mek_from_secrets_def
      encrypt_with_mek_def)
    (simp add: sample_crypto_def kv_write_text_def next_outcome_def takes_effect_def)

lemma poll_undoes_attempt_witness:
  "\<exists>v' k c. h_attempts_phase sample_hosted_redeem_env (sample_hosted_clock 200) sample_hosted_headers sample_session sample_hosted_world =
      (Inr (), v') \<and>
    fst (get_session_kv_tracked (sample_hosted_env\<lparr>hv_parse := (\<lambda>_. Inr (increment_status_checks sample_session))\<rparr>) ''s1'' k) =
      Inr (Some (c, Current)) \<and> hs_redeem_attempt_count c = 0"
proof -
  let ?e = "sample_status_env\<lparr>he_sessions := sample_hosted_env\<lparr>hv_parse := (\<lambda>_. Inr (increment_status_checks sample_session))\<rparr>\<rparr>"
  let ?s = "he_sessions ?e" and ?c = "increment_status_checks sample_session"
  have a: "hs_redeem_attempt_count (increment_redeem_attempts sample_session) = 1"
    by (simp add: increment_redeem_attempts_def sat_add_def)
  let ?w = "sample_hosted_world"
  have t: "hosted_crypto.truncate ?s = sample_crypto" "hv_json ?s = (\<lambda>_. Inr ''j'')" "hv_bound ?s" "hv_parse ?s = (\<lambda>_. Inr ?c)"
    by (simp_all add: hosted_crypto.defs) (simp_all add: sample_hosted_env_def hosted_crypto.defs)
  have k0: "hk_net (hw_kv ?w) = []" "mk_primary (hk_meks (hw_kv ?w)) = Some (replicate 32 1)"
    by (simp_all add: sample_hosted_world_def sample_hosted_kv_def)
  obtain k1 where k1: "update_session_kv_checked sample_hosted_env (Inr (replicate 12 9)) 1100 (increment_redeem_attempts sample_session)
      (Some (hs_state (increment_redeem_attempts sample_session))) (hw_kv ?w) = (Inr (), k1)"
    "hk_net k1 = []" "mk_primary (hk_meks k1) = Some (replicate 32 1)"
    using quiet_store[OF _ _ _ k0, of sample_hosted_env "increment_redeem_attempts sample_session" 1100] by auto
  have c: "ht_session_iv (sample_hosted_clock 200) = Inr (replicate 12 9)" "ht_session_update (sample_hosted_clock 200) = 1100"
    by (simp_all add: sample_hosted_clock_def)
  have v: "h_attempts_phase sample_hosted_redeem_env (sample_hosted_clock 200) sample_hosted_headers sample_session ?w =
      (Inr (), ?w\<lparr>hw_kv := k1\<rparr>)"
    using k1(1) by (simp add: h_attempts_phase_def Let_def a DEFAULT_MAX_REDEEM_ATTEMPTS_def run_steps c)
  let ?u = "sample_status_world\<lparr>hy_kv := k1\<rparr>"
  have st: "hs_state ?c = hs_state sample_session" by (simp add: increment_status_checks_def)
  obtain k2 where k2: "update_session_kv_checked ?s (Inr (replicate 12 9)) (hl_session_update sample_status_clock) ?c
      (Some (hs_state sample_session)) k1 = (Inr (), k2)"
    using quiet_store[OF t(1,3) _ k1(2,3), of ?c "hl_session_update sample_status_clock"] t(2) st by auto
  have j: "session_json_law ?s ?c" using t(2,4) by (simp add: session_json_law_def)
  have id: "hs_session_id sample_session = ''s1''" "hs_redeem_attempt_count sample_session = 0"
    by (simp_all add: sample_session_def session_new_def)
  have s: "?s = sample_hosted_env\<lparr>hv_parse := (\<lambda>_. Inr ?c)\<rparr>" by simp
  from poll_undoes_attempt[OF v, of ?u ?e "replicate 12 9" sample_status_clock k2] k2 t(1) j sample_crypto_laws id v
  show ?thesis unfolding s by (auto intro!: exI[of _ "?w\<lparr>hw_kv := k1\<rparr>"] exI[of _ "k2\<lparr>hk_net := []\<rparr>"])
qed

end
