(* ===== verification/Prefix_Rejection.thy ===== *)
theory Prefix_Rejection imports Prelude begin

text \<open>
  \<open>src/security/prefix_rejection.rs\<close>: the screen in front of the production Worker that refuses requests which
  carry an identifier of the sandbox, in a path segment, in the query or in a header. The url crate is the
  argument that gives path and query; console lines are left out.
\<close>

subsection \<open>Prefixes\<close>

definition SANDBOX_PREFIXES :: "string list" where "SANDBOX_PREFIXES = [''docs-sbx-'', ''mwallet-sbx-'']"

fun begins_with_any_prefix :: "string list \<Rightarrow> string \<Rightarrow> bool" where
  "begins_with_any_prefix [] candidate = False"
| "begins_with_any_prefix (p # ps) candidate = (if starts_with candidate p then True else begins_with_any_prefix ps candidate)"

definition matches_sandbox_prefix :: "string \<Rightarrow> bool" where
  "matches_sandbox_prefix v =
     (if v = [] then False
      else if begins_with_any_prefix SANDBOX_PREFIXES v then True
      else case split_once v '' '' of
             Some (scheme, rest) \<Rightarrow>
               length scheme \<le> 15 \<and> scheme \<noteq> [] \<and> begins_with_any_prefix SANDBOX_PREFIXES (trim_start rest)
           | None \<Rightarrow> False)"

subsection \<open>Percent decoding\<close>

text \<open>The function of this module that reads a hexadecimal digit.\<close>

definition hex_digit_value :: "char \<Rightarrow> nat option" where
  "hex_digit_value c =
     (let b = of_char c in
      if 48 \<le> b \<and> b \<le> 57 then Some (b - 48)
      else if 97 \<le> b \<and> b \<le> 102 then Some (b - 97 + 10)
      else if 65 \<le> b \<and> b \<le> 70 then Some (b - 65 + 10)
      else None)"

text \<open>The loop: a malformed sequence is kept, and what follows it is decoded on its own.\<close>

function decode_loop :: "string \<Rightarrow> string" where
  "decode_loop [] = []"
| "decode_loop (b # r) =
     (if b = CHR ''%'' then
        case r of
          [] \<Rightarrow> [b]
        | c1 # r1 \<Rightarrow>
            (case hex_digit_value c1 of
               None \<Rightarrow> b # decode_loop r
             | Some h \<Rightarrow>
                 (case r1 of
                    [] \<Rightarrow> [b, c1]
                  | c2 # r2 \<Rightarrow>
                      (case hex_digit_value c2 of
                         Some l \<Rightarrow> char_of (h * 16 + l) # decode_loop r2
                       | None \<Rightarrow> b # c1 # decode_loop r1)))
      else b # decode_loop r)"
  by pat_completeness auto
termination by (relation "measure length") auto

text \<open>\<open>String::from_utf8\<close>: which byte sequences are UTF-8. A continuation byte is in 128..191; the second byte of
  the shortest and of the highest forms is restricted, as is that of the surrogates.\<close>

definition cont_byte :: "char \<Rightarrow> bool" where "cont_byte c \<longleftrightarrow> 128 \<le> (of_char c :: nat) \<and> (of_char c :: nat) < 192"

definition second_of_three :: "nat \<Rightarrow> char \<Rightarrow> bool" where
  "second_of_three b c \<longleftrightarrow> cont_byte c \<and> (b = 224 \<longrightarrow> 160 \<le> (of_char c :: nat)) \<and> (b = 237 \<longrightarrow> (of_char c :: nat) < 160)"

definition second_of_four :: "nat \<Rightarrow> char \<Rightarrow> bool" where
  "second_of_four b c \<longleftrightarrow> cont_byte c \<and> (b = 240 \<longrightarrow> 144 \<le> (of_char c :: nat)) \<and> (b = 244 \<longrightarrow> (of_char c :: nat) < 144)"

fun valid_utf8 :: "string \<Rightarrow> bool" where
  "valid_utf8 [] = True"
| "valid_utf8 (b # r) =
     (let n = (of_char b :: nat) in
      if n < 128 then valid_utf8 r
      else if 194 \<le> n \<and> n < 224 then (case r of c1 # r1 \<Rightarrow> cont_byte c1 \<and> valid_utf8 r1 | [] \<Rightarrow> False)
      else if 224 \<le> n \<and> n < 240 then
        (case r of c1 # c2 # r2 \<Rightarrow> second_of_three n c1 \<and> cont_byte c2 \<and> valid_utf8 r2 | _ \<Rightarrow> False)
      else if 240 \<le> n \<and> n < 245 then
        (case r of c1 # c2 # c3 # r3 \<Rightarrow> second_of_four n c1 \<and> cont_byte c2 \<and> cont_byte c3 \<and> valid_utf8 r3 | _ \<Rightarrow> False)
      else False)"

definition percent_decode :: "string \<Rightarrow> string" where
  "percent_decode input =
     (if CHR ''%'' \<notin> set input then input
      else let out = decode_loop input in if valid_utf8 out then out else input)"

subsection \<open>The scan\<close>

datatype prefix_check = Allow | Reject string

fun scan_path :: "string list \<Rightarrow> prefix_check" where
  "scan_path [] = Allow"
| "scan_path (segment # rest) =
     (if segment = [] then scan_path rest
      else if matches_sandbox_prefix (percent_decode segment) then Reject ''path''
      else scan_path rest)"

definition key_value :: "string \<Rightarrow> string \<times> string" where
  "key_value pair = (case split_once pair ''='' of Some r \<Rightarrow> r | None \<Rightarrow> (pair, []))"

fun scan_query :: "string list \<Rightarrow> prefix_check" where
  "scan_query [] = Allow"
| "scan_query (pair # rest) =
     (if pair = [] then scan_query rest
      else let (key, value) = key_value pair in
        if matches_sandbox_prefix (percent_decode key) then Reject ''query''
        else if value \<noteq> [] \<and> matches_sandbox_prefix (percent_decode value) then Reject ''query''
        else scan_query rest)"

definition INSPECTED :: "string list" where "INSPECTED = [''x-client-id'', ''x-api-key'', ''authorization'']"

fun scan_headers :: "(string \<times> string) list \<Rightarrow> prefix_check" where
  "scan_headers [] = Allow"
| "scan_headers ((name, value) # rest) =
     (if to_ascii_lowercase name \<in> set INSPECTED \<and> matches_sandbox_prefix value then Reject ''header''
      else scan_headers rest)"

definition check_request_inputs :: "string \<Rightarrow> string \<Rightarrow> (string \<times> string) list \<Rightarrow> prefix_check" where
  "check_request_inputs p query headers =
     (case scan_path (split_on (CHR ''/'') p) of
        Reject s \<Rightarrow> Reject s
      | Allow \<Rightarrow>
          (case scan_query (split_on (CHR ''&'') query) of
             Reject s \<Rightarrow> Reject s
           | Allow \<Rightarrow> scan_headers headers))"

text \<open>\<open>url\<close> gives path and query, or nothing when the URL does not parse; a header that cannot be read is
  skipped like one that is missing.\<close>

definition collect_header_pairs :: "(string \<Rightarrow> string option) \<Rightarrow> (string \<times> string) list" where
  "collect_header_pairs get =
     concat (map (\<lambda>name. case get name of Some value \<Rightarrow> [(name, value)] | None \<Rightarrow> []) INSPECTED)"

record rejection =
  rj_status :: nat
  rj_body :: string
  rj_headers :: "(string \<times> string) list"

definition REJECTION_BODY :: string where
  "REJECTION_BODY = [CHR ''{'', CHR 0x22] @ ''error'' @ [CHR 0x22, CHR '':'', CHR 0x22] @ ''Access denied'' @
     [CHR 0x22, CHR '','', CHR 0x22] @ ''code'' @ [CHR 0x22, CHR '':'', CHR 0x22] @ ''prefix_not_permitted'' @ [CHR 0x22, CHR ''}'']"

definition rejection_response :: rejection where
  "rejection_response = \<lparr>rj_status = 401, rj_body = REJECTION_BODY,
     rj_headers = [(''Content-Type'', ''application/json; charset=utf-8''), (''Cache-Control'', ''no-store'')]\<rparr>"

definition check_request ::
    "string option \<Rightarrow> (string \<times> string option) option \<Rightarrow> (string \<Rightarrow> string option) \<Rightarrow> rejection option" where
  "check_request environment url get =
     (if (case environment of Some e \<Rightarrow> e | None \<Rightarrow> []) = ''sandbox'' then None
      else case url of
             None \<Rightarrow> None
           | Some (p, query) \<Rightarrow>
               (case check_request_inputs p (case query of Some q \<Rightarrow> q | None \<Rightarrow> []) (collect_header_pairs get) of
                  Allow \<Rightarrow> None
                | Reject _ \<Rightarrow> Some rejection_response))"

subsection \<open>Decoding undoes encoding\<close>

text \<open>The percent encodings of a string: every byte but the percent sign may stand for itself, and every byte may
  be written as two digits, of either case.\<close>

inductive encodes :: "string \<Rightarrow> string \<Rightarrow> bool" where
  Empty: "encodes [] []"
| Raw: "encodes e s \<Longrightarrow> c \<noteq> CHR ''%'' \<Longrightarrow> encodes (c # e) (c # s)"
| Escaped: "encodes e s \<Longrightarrow> hex_digit_value a = Some h \<Longrightarrow> hex_digit_value b = Some l \<Longrightarrow>
    encodes (CHR ''%'' # a # b # e) (char_of (h * 16 + l) # s)"

lemma decode_encoded: "encodes e s \<Longrightarrow> decode_loop e = s"
  by (induction rule: encodes.induct) simp_all

lemma encodes_plain: "encodes e s \<Longrightarrow> CHR ''%'' \<notin> set e \<Longrightarrow> e = s"
  by (induction rule: encodes.induct) auto

lemma percent_decode_roundtrip_core: "encodes e s \<Longrightarrow> valid_utf8 s \<Longrightarrow> percent_decode e = s"
  using decode_encoded encodes_plain by (auto simp: percent_decode_def)

text \<open>A percent encoding of a string is decoded to it, however many of its bytes are escaped and in whatever case,
  when the string is UTF-8.\<close>

theorem percent_decode_roundtrip:
  assumes "encodes e s" "valid_utf8 s"
  shows "percent_decode e = s"
  by (rule percent_decode_roundtrip_core[OF assms])

lemma begins_iff: "begins_with_any_prefix ps s \<longleftrightarrow> (\<exists>p\<in>set ps. starts_with s p)"
  by (induction ps) simp_all

lemma matches_prefixed: "starts_with s ''docs-sbx-'' \<or> starts_with s ''mwallet-sbx-'' \<Longrightarrow> matches_sandbox_prefix s"
  by (auto simp: matches_sandbox_prefix_def begins_iff SANDBOX_PREFIXES_def)

lemma scan_path_allow: "scan_path xs = Allow \<longleftrightarrow> (\<forall>s\<in>set xs. s \<noteq> [] \<longrightarrow> \<not> matches_sandbox_prefix (percent_decode s))"
  by (induction xs) simp_all

lemma no_match_empty: "\<not> matches_sandbox_prefix []" by (simp add: matches_sandbox_prefix_def)

lemma percent_decode_empty: "percent_decode [] = []" by (simp add: percent_decode_def)

lemma scan_query_allow: "scan_query xs = Allow \<longleftrightarrow> (\<forall>p\<in>set xs. p \<noteq> [] \<longrightarrow>
    \<not> matches_sandbox_prefix (percent_decode (fst (key_value p))) \<and> \<not> matches_sandbox_prefix (percent_decode (snd (key_value p))))"
  by (induction xs) (auto simp: no_match_empty percent_decode_empty split_beta)

lemma scan_headers_allow: "scan_headers hs = Allow \<longleftrightarrow>
    (\<forall>(name, value)\<in>set hs. to_ascii_lowercase name \<in> set INSPECTED \<longrightarrow> \<not> matches_sandbox_prefix value)"
  by (induction hs rule: scan_headers.induct) auto

lemma check_allow: "check_request_inputs p q hs = Allow \<longleftrightarrow>
    scan_path (split_on (CHR ''/'') p) = Allow \<and> scan_query (split_on (CHR ''&'') q) = Allow \<and> scan_headers hs = Allow"
  by (auto simp: check_request_inputs_def split: prefix_check.split)

subsection \<open>What is refused\<close>

definition sandbox_identifier :: "string \<Rightarrow> bool" where
  "sandbox_identifier s \<longleftrightarrow> (\<exists>p\<in>set SANDBOX_PREFIXES. starts_with s p)"

lemma identifier_matches: "sandbox_identifier s \<Longrightarrow> matches_sandbox_prefix s"
  by (auto simp: sandbox_identifier_def matches_sandbox_prefix_def begins_iff SANDBOX_PREFIXES_def)

lemma identifier_trimmed: "sandbox_identifier s \<Longrightarrow> trim_start s = s"
  by (cases s) (auto simp: sandbox_identifier_def SANDBOX_PREFIXES_def is_whitespace_def intro!: trim_start_kept)

lemma scheme_matches:
  assumes "sandbox_identifier s" "scheme \<noteq> []" "length scheme \<le> 15" "CHR '' '' \<notin> set scheme"
  shows "matches_sandbox_prefix (scheme @ CHR '' '' # s)"
  using assms identifier_trimmed[OF assms(1)]
  by (simp add: matches_sandbox_prefix_def split_once_char) (simp add: begins_iff sandbox_identifier_def)

lemma encoded_identifier:
  assumes "sandbox_identifier s" "valid_utf8 s" "encodes e s"
  shows "e \<noteq> []" "matches_sandbox_prefix (percent_decode e)"
proof -
  show "e \<noteq> []" using assms(1,3) by (auto simp: sandbox_identifier_def SANDBOX_PREFIXES_def elim: encodes.cases)
  show "matches_sandbox_prefix (percent_decode e)"
    using identifier_matches[OF assms(1)] percent_decode_roundtrip_core[OF assms(3,2)] by simp
qed

text \<open>A deployment that is not a sandbox refuses every request that carries an identifier of the sandbox: in a
  path segment, or in a key or a value of the query, under any percent encoding, or in one of the three inspected
  headers, bare or after a short scheme.\<close>

theorem sandbox_identifier_rejected:
  assumes "environment \<noteq> Some ''sandbox''" "sandbox_identifier s" "valid_utf8 s"
    and "(\<exists>e\<in>set (split_on (CHR ''/'') p). encodes e s) \<or>
      (\<exists>e\<in>set (split_on (CHR ''&'') q). encodes (fst (key_value e)) s \<or> encodes (snd (key_value e)) s) \<or>
      (\<exists>name\<in>set INSPECTED. get name = Some s \<or>
        (\<exists>scheme. get name = Some (scheme @ CHR '' '' # s) \<and> scheme \<noteq> [] \<and> length scheme \<le> 15 \<and> CHR '' '' \<notin> set scheme))"
  shows "check_request environment (Some (p, Some q)) get = Some rejection_response"
proof -
  note enc = encoded_identifier[OF assms(2,3)]
  have header: "check_request_inputs p q (collect_header_pairs get) \<noteq> Allow"
    if n: "name \<in> set INSPECTED" and v: "get name = Some v" "matches_sandbox_prefix v" for name v
  proof -
    have "(name, v) \<in> set (collect_header_pairs get)" using n v(1) by (auto simp: collect_header_pairs_def)
    moreover have "to_ascii_lowercase name = name" using n by (auto simp: INSPECTED_def to_ascii_lowercase_def char_lower_def)
    ultimately show ?thesis using n v(2) by (auto simp: check_allow scan_headers_allow intro!: bexI[of _ "(name, v)"])
  qed
  have query: "check_request_inputs p q (collect_header_pairs get) \<noteq> Allow"
    if "e \<in> set (split_on (CHR ''&'') q)" "x = fst (key_value e) \<or> x = snd (key_value e)" "encodes x s" for e x
  proof -
    have "e \<noteq> []" using enc(1)[OF that(3)] that(2) by (auto simp: key_value_def)
    with that show ?thesis using enc(2)[OF that(3)] by (auto simp: check_allow scan_query_allow)
  qed
  have "check_request_inputs p q (collect_header_pairs get) \<noteq> Allow"
    if "e \<in> set (split_on (CHR ''/'') p)" "encodes e s" for e
    using that enc[of e] by (auto simp: check_allow scan_path_allow)
  then have "check_request_inputs p q (collect_header_pairs get) \<noteq> Allow"
    using assms(4) query header identifier_matches[OF assms(2)] scheme_matches[OF assms(2)] by blast
  then show ?thesis using assms(1) by (cases environment) (auto simp: check_request_def split: prefix_check.split)
qed

text \<open>One byte that is not UTF-8 anywhere in a segment hides an encoded identifier: the segment is then taken as it
  was sent.\<close>

lemma invalid_byte_hides_prefix:
  "sandbox_identifier (decode_loop ''%64ocs-sbx-a%FF'')" "check_request None (Some (''/%64ocs-sbx-a%FF'', None)) (\<lambda>_. None) = None"
  by code_simp+

subsection \<open>Samples\<close>

lemma percent_decode_roundtrip_witness:
  "percent_decode ''docs-sbx-%66%6Fo'' = ''docs-sbx-foo'' \<and> percent_decode ''%C3%a9'' = [CHR 0xC3, CHR 0xA9]"
proof -
  have d: "hex_digit_value (CHR ''6'') = Some 6" "hex_digit_value (CHR ''F'') = Some 15" "hex_digit_value (CHR ''C'') = Some 12"
    "hex_digit_value (CHR ''3'') = Some 3" "hex_digit_value (CHR ''a'') = Some 10" "hex_digit_value (CHR ''9'') = Some 9"
    by code_simp+
  have c: "CHR ''f'' = char_of (6 * 16 + 6 :: nat)" "CHR ''o'' = char_of (6 * 16 + 15 :: nat)"
    "CHR 0xC3 = char_of (12 * 16 + 3 :: nat)" "CHR 0xA9 = char_of (10 * 16 + 9 :: nat)" by code_simp+
  have "encodes (CHR ''%'' # CHR ''6'' # CHR ''6'' # CHR ''%'' # CHR ''6'' # CHR ''F'' # ''o'') (CHR ''f'' # CHR ''o'' # ''o'')"
    unfolding c(1) by (subst (1) c(2), intro Escaped Raw Empty d) simp
  then have "encodes ''docs-sbx-%66%6Fo'' ''docs-sbx-foo''" by (auto intro!: Raw)
  moreover have "encodes ''%C3%a9'' [CHR 0xC3, CHR 0xA9]" unfolding c(3,4) by (intro Escaped Empty d)
  moreover have "valid_utf8 ''docs-sbx-foo''" "valid_utf8 [CHR 0xC3, CHR 0xA9]" by code_simp+
  ultimately show ?thesis using percent_decode_roundtrip by blast
qed

lemma sandbox_identifier_rejected_witness:
  "check_request (Some ''production'') (Some (''/v1/x'', Some ''a=docs-sbx-1'')) (\<lambda>_. None) = Some rejection_response"
proof (rule sandbox_identifier_rejected[where s = "''docs-sbx-1''"])
  have "encodes ''docs-sbx-1'' ''docs-sbx-1''" by (auto intro!: encodes.intros)
  moreover have "split_on (CHR ''&'') ''a=docs-sbx-1'' = [''a=docs-sbx-1'']" "snd (key_value ''a=docs-sbx-1'') = ''docs-sbx-1''"
    by code_simp+
  ultimately show "(\<exists>e\<in>set (split_on (CHR ''/'') ''/v1/x''). encodes e ''docs-sbx-1'') \<or>
      (\<exists>e\<in>set (split_on (CHR ''&'') ''a=docs-sbx-1''). encodes (fst (key_value e)) ''docs-sbx-1'' \<or> encodes (snd (key_value e)) ''docs-sbx-1'') \<or>
      (\<exists>name\<in>set INSPECTED. None = Some ''docs-sbx-1'' \<or>
        (\<exists>scheme. None = Some (scheme @ CHR '' '' # ''docs-sbx-1'') \<and> scheme \<noteq> [] \<and> length scheme \<le> 15 \<and> CHR '' '' \<notin> set scheme))"
    by simp
qed (code_simp+)

end
