(* ===== verification/Input_Validation.thy ===== *)
theory Input_Validation imports Hosted_Redeem begin

text \<open>
  \<open>src/security/validation.rs\<close>, the validator in front of the routes, and the size checks of \<open>src/worker_routes.rs\<close>.
  The regular expressions are spelled out on bytes, as their classes are ASCII; NFC normalisation, the base64url
  decoder and the parser of UUIDs are arguments.
\<close>

record field_size_limit =
  fl_cred_id :: nat
  fl_dob_commitment :: nat
  fl_bulletproof :: nat
  fl_cred_sig :: nat
  fl_wallet_sig :: nat
  fl_user_pub_key :: nat
  fl_nonce :: nat
  fl_code_challenge :: nat
  fl_code_verifier :: nat
  fl_origin :: nat
  fl_sid :: nat
  fl_general_string :: nat

definition field_size_default :: field_size_limit where
  "field_size_default = \<lparr>fl_cred_id = 64, fl_dob_commitment = 64, fl_bulletproof = 10240, fl_cred_sig = 1024, fl_wallet_sig = 1024,
     fl_user_pub_key = 64, fl_nonce = 64, fl_code_challenge = 128, fl_code_verifier = 128, fl_origin = 255, fl_sid = 36,
     fl_general_string = 1024\<rparr>"

record validation_rules =
  vr_size_limits :: field_size_limit
  vr_allow_null_bytes :: bool
  vr_strip_whitespace :: bool
  vr_normalize_unicode :: bool

definition rules_default :: validation_rules where
  "rules_default = \<lparr>vr_size_limits = field_size_default, vr_allow_null_bytes = False, vr_strip_whitespace = True,
     vr_normalize_unicode = True\<rparr>"

text \<open>\<open>iv_patterns\<close>: whether the patterns compiled; when they did not, the map of patterns is empty.\<close>

record input_validator =
  iv_rules :: validation_rules
  iv_patterns :: bool
  iv_nfc :: "string \<Rightarrow> string"
  iv_base64url :: "string \<Rightarrow> bytes option"
  iv_parse_uuid :: "string \<Rightarrow> uuid option"

subsection \<open>The patterns\<close>

definition lower_hex :: "char \<Rightarrow> bool" where
  "lower_hex c \<longleftrightarrow> is_ascii_digit (of_char c) \<or> 97 \<le> (of_char c :: nat) \<and> (of_char c :: nat) \<le> 102"

definition uuid_pattern :: "string \<Rightarrow> bool" where
  "uuid_pattern s =
     (case split_on (CHR ''-'') s of
        [a, b, c, d, e] \<Rightarrow> map length [a, b, c, d, e] = [8, 4, 4, 4, 12] \<and> list_all (list_all lower_hex) [a, b, c, d, e]
      | _ \<Rightarrow> False)"

definition alnum :: "char \<Rightarrow> bool" where "alnum c \<longleftrightarrow> is_ascii_alphanumeric (of_char c)"

definition base64url_pattern :: "string \<Rightarrow> bool" where
  "base64url_pattern s \<longleftrightarrow> s \<noteq> [] \<and> list_all (\<lambda>c. alnum c \<or> c \<in> {CHR ''_'', CHR ''-''}) s"

definition pkce_char :: "char \<Rightarrow> bool" where
  "pkce_char c \<longleftrightarrow> alnum c \<or> c \<in> {CHR ''-'', CHR ''.'', CHR ''_'', CHR ''~''}"

definition pkce_pattern :: "string \<Rightarrow> bool" where
  "pkce_pattern s \<longleftrightarrow> 43 \<le> length s \<and> length s \<le> 128 \<and> list_all pkce_char s"

definition origin_pattern :: "string \<Rightarrow> bool" where
  "origin_pattern s =
     (case (case strip_prefix s ''https://'' of Some r \<Rightarrow> Some r | None \<Rightarrow> strip_prefix s ''http://'') of
        None \<Rightarrow> False
      | Some r \<Rightarrow>
          let host = takeWhile (\<lambda>c. c \<noteq> CHR '':'') r; rest = dropWhile (\<lambda>c. c \<noteq> CHR '':'') r
          in host \<noteq> [] \<and> list_all (\<lambda>c. alnum c \<or> c = CHR ''-'' \<or> c = CHR ''.'') host \<and>
             (case rest of [] \<Rightarrow> True
              | _ # port \<Rightarrow> port \<noteq> [] \<and> list_all (\<lambda>c. is_ascii_digit (of_char c)) port))"

subsection \<open>The validators\<close>

definition bad_input :: "string \<Rightarrow> 'a api_result" where "bad_input msg = Inl (BadRequest (Some msg))"

definition validate_string :: "input_validator \<Rightarrow> string \<Rightarrow> string \<Rightarrow> nat \<Rightarrow> string api_result" where
  "validate_string v value field max_size =
     (if \<not> vr_allow_null_bytes (iv_rules v) \<and> CHR 0x00 \<in> set value then bad_input (field @ '' contains null bytes'')
      else let value' = (if vr_strip_whitespace (iv_rules v) then trim value else value) in
        if length value' > max_size
        then bad_input (field @ '' exceeds maximum size of '' @ show_nat max_size @ '' bytes'')
        else Inr (if vr_normalize_unicode (iv_rules v) then iv_nfc v value' else value'))"

definition validate_base64url :: "input_validator \<Rightarrow> string \<Rightarrow> string \<Rightarrow> nat \<Rightarrow> bytes api_result" where
  "validate_base64url v value field max_decoded_size =
     (if CHR ''='' \<in> set value \<or> CHR ''+'' \<in> set value \<or> CHR ''/'' \<in> set value
      then bad_input (field @ '' must be base64url without padding'')
      else if \<not> iv_patterns v then Inl (Internal ''missing base64url pattern'')
      else if \<not> base64url_pattern value then bad_input (field @ '' contains invalid base64url characters'')
      else case iv_base64url v value of
             None \<Rightarrow> bad_input (''Invalid '' @ field @ '' format'')
           | Some bs \<Rightarrow>
               if length bs > max_decoded_size
               then bad_input (field @ '' decoded size '' @ show_nat (length bs) @ '' exceeds maximum '' @ show_nat max_decoded_size)
               else Inr bs)"

definition validate_base64url_fixed :: "input_validator \<Rightarrow> string \<Rightarrow> string \<Rightarrow> nat \<Rightarrow> bytes api_result" where
  "validate_base64url_fixed v value field expected_size =
     (case validate_base64url v value field expected_size of
        Inl e \<Rightarrow> Inl e
      | Inr bs \<Rightarrow>
          if length bs \<noteq> expected_size then bad_input (field @ '' must be exactly '' @ show_nat expected_size @ '' bytes'')
          else Inr bs)"

definition validate_uuid :: "input_validator \<Rightarrow> string \<Rightarrow> string \<Rightarrow> uuid api_result" where
  "validate_uuid v value field =
     (case validate_string v value field (fl_sid (vr_size_limits (iv_rules v))) of
        Inl e \<Rightarrow> Inl e
      | Inr sanitized \<Rightarrow>
          if \<not> iv_patterns v then Inl (Internal ''missing uuid pattern'')
          else if \<not> uuid_pattern (to_lowercase sanitized) then bad_input (field @ '' is not a valid UUID'')
          else case iv_parse_uuid v sanitized of None \<Rightarrow> bad_input (''Invalid '' @ field) | Some u \<Rightarrow> Inr u)"

definition validator_origin :: "input_validator \<Rightarrow> string \<Rightarrow> string api_result" where
  "validator_origin v origin =
     (case validate_string v origin ''origin'' (fl_origin (vr_size_limits (iv_rules v))) of
        Inl e \<Rightarrow> Inl e
      | Inr sanitized \<Rightarrow>
          if contains_str sanitized ''javascript:'' \<or> contains_str sanitized ''data:'' \<or> contains_str sanitized ''vbscript:''
          then bad_input ''Malicious origin''
          else if \<not> iv_patterns v then Inl (Internal ''missing origin pattern'')
          else if \<not> origin_pattern sanitized then bad_input ''Invalid origin format''
          else Inr sanitized)"

definition validator_code_verifier :: "input_validator \<Rightarrow> string \<Rightarrow> string api_result" where
  "validator_code_verifier v value =
     (if length value < 43 \<or> length value > 128 then bad_input ''code_verifier must be 43-128 characters''
      else if \<not> iv_patterns v then Inl (Internal ''missing pkce pattern'')
      else if \<not> pkce_pattern value then bad_input ''code_verifier contains invalid characters''
      else Inr value)"

definition validator_code_challenge :: "input_validator \<Rightarrow> string \<Rightarrow> bytes api_result" where
  "validator_code_challenge v value = validate_base64url_fixed v value ''code_challenge'' 32"

subsection \<open>Logging\<close>

text \<open>The walk back to a character boundary, and the two replacements, the second of which drops the control
  characters, those of two bytes too.\<close>

fun boundary_below :: "string \<Rightarrow> nat \<Rightarrow> nat" where
  "boundary_below s 0 = 0"
| "boundary_below s (Suc n) = (if is_char_boundary s (Suc n) then Suc n else boundary_below s n)"

definition newlines_to_spaces :: "string \<Rightarrow> string" where
  "newlines_to_spaces = map (\<lambda>c. if (of_char c :: nat) = 10 \<or> (of_char c :: nat) = 13 then CHR '' '' else c)"

fun drop_controls :: "string \<Rightarrow> string" where
  "drop_controls [] = []"
| "drop_controls (c # r) =
     (if (of_char c :: nat) < 32 \<or> (of_char c :: nat) = 127 then drop_controls r
      else if (of_char c :: nat) = 194 then
        (case r of
           d # r' \<Rightarrow> if 128 \<le> (of_char d :: nat) \<and> (of_char d :: nat) < 160 then drop_controls r' else c # drop_controls r
         | [] \<Rightarrow> [c])
      else c # drop_controls r)"

definition sanitize_for_logging :: "string \<Rightarrow> nat \<Rightarrow> string" where
  "sanitize_for_logging value max_len =
     (let truncated =
        (if length value > max_len then
           case str_prefix value max_len of Some s \<Rightarrow> s | None \<Rightarrow> take (boundary_below value max_len) value
         else value)
      in drop_controls (newlines_to_spaces truncated))"

subsection \<open>Sizes\<close>

definition endpoint_limit :: "string \<Rightarrow> nat" where
  "endpoint_limit endpoint =
     (if endpoint = ''/v1/challenge'' \<or> endpoint = ''/v1/challenge/raw'' then 64 * 1024
      else if endpoint = ''/v1/verify'' then 128 * 1024
      else if endpoint = ''/v1/challenge/*/redeem'' then 8 * 1024
      else 32 * 1024)"

definition validate_request_size :: "nat \<Rightarrow> string \<Rightarrow> unit api_result" where
  "validate_request_size n endpoint =
     (if n > endpoint_limit endpoint then
        Inl (PayloadTooLarge (Some (''Request size '' @ show_nat n @ '' exceeds maximum '' @ show_nat (endpoint_limit endpoint) @ '' bytes'')))
      else Inr ())"

text \<open>\<open>usize\<close> has 32 bits on the Worker. The header that cannot be read is like a missing one.\<close>

definition check_content_length :: "header_read \<Rightarrow> string \<Rightarrow> unit api_result" where
  "check_content_length cl endpoint =
     (case cl of
        HeaderValue s \<Rightarrow> (case parse_unsigned (2 ^ 32) s of Some n \<Rightarrow> validate_request_size n endpoint | None \<Rightarrow> Inr ())
      | _ \<Rightarrow> Inr ())"

definition too_large :: worker_error where "too_large = RustError ''Request entity too large''"

definition read_limited_body :: "header_read \<Rightarrow> worker_error + bytes \<Rightarrow> nat \<Rightarrow> worker_error + bytes" where
  "read_limited_body cl body max_len =
     (let checked = (case body of Inl e \<Rightarrow> Inl e | Inr bs \<Rightarrow> if length bs > max_len then Inl too_large else Inr bs) in
      case cl of
        HeaderValue s \<Rightarrow>
          (case parse_unsigned (2 ^ 32) s of Some n \<Rightarrow> if n > max_len then Inl too_large else checked | None \<Rightarrow> checked)
      | _ \<Rightarrow> checked)"

subsection \<open>Lemmas and properties\<close>

text \<open>A code verifier of RFC 7636, section 4.1: 43 to 128 of the unreserved characters of RFC 3986, written out.\<close>

definition unreserved_characters :: string where
  "unreserved_characters = ''ABCDEFGHIJKLMNOPQRSTUVWXYZabcdefghijklmnopqrstuvwxyz0123456789-._~''"

definition rfc7636_verifier :: "string \<Rightarrow> bool" where
  "rfc7636_verifier s \<longleftrightarrow> 43 \<le> length s \<and> length s \<le> 128 \<and> set s \<subseteq> set unreserved_characters"

lemma char_code: "(of_char c :: nat) \<in> N \<longleftrightarrow> c \<in> char_of ` N" if "N \<subseteq> {..<256}" for N :: "nat set"
proof
  assume "(of_char c :: nat) \<in> N"
  then have "char_of (of_char c :: nat) \<in> char_of ` N" by (rule imageI)
  then show "c \<in> char_of ` N" by simp
next
  assume "c \<in> char_of ` N"
  then obtain n where "n \<in> N" "c = char_of n" by blast
  with that show "(of_char c :: nat) \<in> N" by (auto simp: of_char_of)
qed

lemma unreserved_codes:
  "map char_of ([65..<91] @ [97..<123] @ [48..<58] @ [45, 46, 95, 126 :: nat]) = unreserved_characters"
  by (simp add: unreserved_characters_def upt_rec) (simp add: char_of_def bit_iff_odd)

lemma unreserved_iff: "verifier_char (of_char c) \<longleftrightarrow> c \<in> set unreserved_characters"
proof -
  let ?N = "{65..<91} \<union> ({97..<123} \<union> ({48..<58} \<union> {45, 46, 95, 126 :: nat}))"
  have n: "?N = set ([65..<91] @ [97..<123] @ [48..<58] @ [45, 46, 95, 126])"
    by (simp only: set_append set_upt list.set)
  have "verifier_char (of_char c) \<longleftrightarrow> (of_char c :: nat) \<in> ?N" by (auto simp: verifier_char_def)
  also have "\<dots> \<longleftrightarrow> c \<in> char_of ` ?N" by (rule char_code) auto
  finally show ?thesis by (simp only: n unreserved_codes[symmetric] set_map)
qed

lemma pkce_char_verifier: "pkce_char c \<longleftrightarrow> verifier_char (of_char c)"
proof -
  have e: "c = char_of n \<longleftrightarrow> (of_char c :: nat) = n" if "n < 256" for n
    using that by (metis char_of_char of_char_of mod_less)
  have p: "CHR ''-'' = char_of (45 :: nat)" "CHR ''.'' = char_of (46 :: nat)" "CHR ''_'' = char_of (95 :: nat)"
    "CHR ''~'' = char_of (126 :: nat)" by (simp_all add: char_of_def bit_iff_odd)
  have "c \<in> {CHR ''-'', CHR ''.'', CHR ''_'', CHR ''~''} \<longleftrightarrow> (of_char c :: nat) \<in> {45, 46, 95, 126}"
    unfolding p insert_iff empty_iff by (simp only: e[of 45] e[of 46] e[of 95] e[of 126])
  then show ?thesis
    unfolding pkce_char_def alnum_def is_ascii_alphanumeric_def is_ascii_digit_def verifier_char_def by blast
qed

lemma hosted_char_verifier:
  "is_ascii_alphanumeric c \<or> c = 45 \<or> c = 95 \<or> c = 46 \<or> c = 126 \<longleftrightarrow> verifier_char c"
  by (auto simp: is_ascii_alphanumeric_def is_ascii_digit_def verifier_char_def)

text \<open>C38 The three validators of a PKCE code verifier, written at three places of the code with three different
  character tests (the logic crate's, which \<open>/v1/redeem\<close> uses, that of the hosted redemption and the regular
  expression of the input validator), agree on every byte string, and each accepts exactly the verifiers of
  RFC 7636: 43 to 128 of the 66 unreserved characters, written out.  The third needs its patterns compiled.\<close>

theorem pkce_validators_agree:
  assumes "iv_patterns v"
  shows "(validate_verifier s = Inr () \<longleftrightarrow> rfc7636_verifier s) \<and>
    (Hosted_Redeem.validate_code_verifier s = Inr () \<longleftrightarrow> rfc7636_verifier s) \<and>
    (validator_code_verifier v s = Inr s \<longleftrightarrow> rfc7636_verifier s)"
proof -
  have rfc: "rfc7636_verifier s \<longleftrightarrow> 43 \<le> length s \<and> length s \<le> 128 \<and> list_all (\<lambda>c. verifier_char (of_char c)) s"
    by (auto simp: rfc7636_verifier_def unreserved_iff list_all_iff)
  have "Hosted_Redeem.validate_code_verifier s = Inr () \<longleftrightarrow> rfc7636_verifier s"
    unfolding rfc validate_code_verifier_def hosted_char_verifier utf8_chars_verifier by auto
  moreover have "pkce_pattern s \<longleftrightarrow> rfc7636_verifier s"
    by (simp add: rfc pkce_pattern_def pkce_char_verifier list_all_iff)
  moreover have "validator_code_verifier v s = Inr s \<longleftrightarrow> pkce_pattern s"
    using assms by (auto simp: validator_code_verifier_def bad_input_def pkce_pattern_def)
  ultimately show ?thesis by (simp add: rfc validate_verifier_iff)
qed

definition sample_validator :: input_validator where
  "sample_validator = \<lparr>iv_rules = rules_default, iv_patterns = True, iv_nfc = (\<lambda>s. s), iv_base64url = (\<lambda>_. None),
     iv_parse_uuid = (\<lambda>_. None)\<rparr>"

lemma pkce_validators_agree_witness:
  "validate_verifier (replicate 43 (CHR ''~'')) = Inr () \<and>
   Hosted_Redeem.validate_code_verifier (replicate 43 (CHR ''~'')) = Inr () \<and>
   validator_code_verifier sample_validator (replicate 43 (CHR ''~'')) = Inr (replicate 43 (CHR ''~'')) \<and>
   validate_verifier (replicate 43 (CHR '':'')) \<noteq> Inr ()"
proof -
  have "iv_patterns sample_validator" by (simp add: sample_validator_def)
  from pkce_validators_agree[OF this, of "replicate 43 (CHR ''~'')"]
    pkce_validators_agree[OF this, of "replicate 43 (CHR '':'')"] show ?thesis
    by (simp add: rfc7636_verifier_def unreserved_characters_def)
qed

lemma boundary_below_le: "boundary_below s n \<le> n"
  by (induction n) auto

lemma drop_controls_cases:
  "drop_controls (c # r) = drop_controls r \<or> (\<exists>d r'. r = d # r' \<and> drop_controls (c # r) = drop_controls r') \<or>
   \<not> ((of_char c :: nat) < 32 \<or> (of_char c :: nat) = 127) \<and> drop_controls (c # r) = c # drop_controls r"
  by (cases r) (simp_all del: drop_controls.simps(2) add: drop_controls.simps(2)[of c])

lemma drop_controls_facts:
  "length (drop_controls s) \<le> length s \<and> (\<forall>c\<in>set (drop_controls s). 32 \<le> (of_char c :: nat) \<and> (of_char c :: nat) \<noteq> 127)"
proof (induction "length s" arbitrary: s rule: less_induct)
  case less
  show ?case
  proof (cases s)
    case (Cons c r)
    have r: "length (drop_controls r) \<le> length r \<and> (\<forall>c\<in>set (drop_controls r). 32 \<le> (of_char c :: nat) \<and> (of_char c :: nat) \<noteq> 127)"
      using less[of r] Cons by simp
    consider "drop_controls s = drop_controls r" | d r' where "r = d # r'" "drop_controls s = drop_controls r'"
      | "\<not> ((of_char c :: nat) < 32 \<or> (of_char c :: nat) = 127)" "drop_controls s = c # drop_controls r"
      using drop_controls_cases[of c r] Cons by blast
    then show ?thesis
    proof cases
      case 2
      then show ?thesis using less[of r'] Cons by (simp add: le_SucI)
    qed (use r Cons in \<open>auto simp del: drop_controls.simps simp: le_SucI not_less\<close>)
  qed simp
qed

lemma drop_controls_clean: "c \<in> set (drop_controls s) \<Longrightarrow> 32 \<le> (of_char c :: nat) \<and> (of_char c :: nat) \<noteq> 127"
  using drop_controls_facts[of s] by blast

lemma drop_controls_length: "length (drop_controls s) \<le> length s"
  using drop_controls_facts[of s] by blast

lemma drop_controls_id: "list_all (\<lambda>c. 32 \<le> (of_char c :: nat) \<and> (of_char c :: nat) < 127) s \<Longrightarrow> drop_controls s = s"
  by (induction s) simp_all

text \<open>A text that is logged is one bounded line: at most the given number of bytes, none of them a control character;
  and a text of printable ASCII that fits is logged as it is.\<close>

theorem sanitized_one_line:
  "length (sanitize_for_logging msg n) \<le> n \<and>
   (\<forall>c. c \<in> set (sanitize_for_logging msg n) \<longrightarrow> 32 \<le> (of_char c :: nat) \<and> (of_char c :: nat) \<noteq> 127) \<and>
   (list_all (\<lambda>c. 32 \<le> (of_char c :: nat) \<and> (of_char c :: nat) < 127) msg \<and> length msg \<le> n \<longrightarrow> sanitize_for_logging msg n = msg)"
proof -
  let ?t = "if length msg > n then case str_prefix msg n of Some s \<Rightarrow> s | None \<Rightarrow> take (boundary_below msg n) msg else msg"
  have t: "length ?t \<le> n" "length msg \<le> n \<longrightarrow> ?t = msg"
    using boundary_below_le[of msg n] by (auto simp: str_prefix_def split: option.split)
  have s: "sanitize_for_logging msg n = drop_controls (newlines_to_spaces ?t)"
    by (simp add: sanitize_for_logging_def Let_def)
  have "length (newlines_to_spaces ?t) \<le> n" using t(1) by (simp add: newlines_to_spaces_def)
  with drop_controls_length[of "newlines_to_spaces ?t"] have "length (sanitize_for_logging msg n) \<le> n" unfolding s by linarith
  moreover have "sanitize_for_logging msg n = msg"
    if m: "list_all (\<lambda>c. 32 \<le> (of_char c :: nat) \<and> (of_char c :: nat) < 127) msg" "length msg \<le> n"
  proof -
    have "newlines_to_spaces msg = msg"
      using m(1) by (auto simp: newlines_to_spaces_def list_all_iff intro!: map_idI)
    with t(2) m(2) have "sanitize_for_logging msg n = drop_controls msg" unfolding s by simp
    with drop_controls_id[OF m(1)] show ?thesis by simp
  qed
  ultimately show ?thesis unfolding s using drop_controls_clean by blast
qed

text \<open>The length is checked before the normalisation: a text that passes can come out longer than the maximum.\<close>

lemma length_checked_before_nfc:
  assumes "CHR 0x00 \<notin> set s" "length (trim s) \<le> n" "iv_rules v = rules_default"
  shows "validate_string v s field n = Inr (iv_nfc v (trim s))"
  using assms by (simp add: validate_string_def rules_default_def)

text \<open>A host that ends in \<open>data\<close> cannot have a port.\<close>

lemma data_port_refused:
  assumes "iv_rules v = rules_default" "\<And>s. ascii_only s \<Longrightarrow> iv_nfc v s = s"
  shows "validator_origin v ''https://opendata:8443'' = bad_input ''Malicious origin''"
proof -
  have "visible ''https://opendata:8443''" "ascii_only ''https://opendata:8443''" by (simp_all add: visible_def ascii_only_def)
  then have "trim ''https://opendata:8443'' = ''https://opendata:8443''" "iv_nfc v ''https://opendata:8443'' = ''https://opendata:8443''"
    using assms(2) by (simp_all add: trim_visible)
  moreover have "contains_str ''https://opendata:8443'' ''data:''" by code_simp
  ultimately show ?thesis using assms(1) by (simp add: validator_origin_def validate_string_def rules_default_def field_size_default_def)
qed

end
