(* ===== verification/Spec2Isabelle.thy ===== *)
theory Spec2Isabelle imports Challenge_Read Hosted_Challenge Hosted_Status Prefix_Rejection Input_Validation begin

text \<open>
  A verification library of provii-verifier, a Cloudflare Worker (Rust, compiled to WebAssembly) that issues
  age-verification challenges, verifies zero-knowledge proofs against them and lets the relying party redeem the
  outcome once. This theory is the root: it holds the description of the library and no definition of its own.

  \<^bold>\<open>The program.\<close> A relying party creates a challenge (\<open>POST /v1/challenge\<close>, signed with HMAC, or
  \<open>POST /v1/hosted/challenge\<close> with a public key). A wallet reads it by UUID or by short code, and submits a proof
  (\<open>POST /v1/verify\<close>). The relying party polls it, and redeems it with the PKCE verifier (\<open>POST /v1/redeem\<close>); in
  the hosted flow the browser redeems its session (\<open>POST /v1/hosted/redeem\<close>). The Worker itself keeps only caches;
  the state is in Durable Objects (one object per challenge, sharded objects for nonces and idempotency keys, one
  notification object per hosted challenge) and in KV (policies, issuers, bans, counters, short codes, sessions).
  A Durable Object serves one request at a time over a transactional storage; a call of it can be lost on either way.

  \<^bold>\<open>How effects are modelled.\<close>
  \<^item> A fallible function returns a sum with the error on the left; \<open>?\<close> and the early returns of a handler are the
    branches of \<open>andthen\<close> (Prelude). A handler is a list of phases, one per block of the source, each with its guards,
    its audit events and its answer; \<open>finish\<close> forgets whether the answer came early.
  \<^item> Storage operations of an object fail as its list \<open>faults\<close> says (Do_Runtime); a call from the Worker to an object or
    to KV is delivered, lost before it took effect, or lost after it (\<open>delivery\<close>, \<open>kv_outcome\<close>). The properties
    hold for all such lists. An empty list means that everything succeeds.
  \<^item> Every clock reading, random value and read of KV is an argument, in the record \<open>*_clock\<close> of a handler.
    No relation between the readings is assumed unless a property says so.
  \<^item> Code that is not in the repository or not code of this program (SHA-256, HMAC, AES-GCM, Argon2id, Blake2s, the SNARK
    verifier, serde_json, base64, the url crate) is a field of the record \<open>*_env\<close>. What a property needs of it is
    a named predicate (\<open>crypto_laws\<close>, \<open>cs_laws\<close>, \<open>nonce_body_laws\<close>, \<open>session_json_law\<close> and the like), which the
    witnesses establish for a concrete instance.
  \<^item> Integers are words of the width of the source, with the saturating and checked operations written out; strings are
    byte strings, decoded to characters (\<open>utf8_chars\<close>) where the source works on characters.

  \<^bold>\<open>The theories, from the bottom up.\<close>

  Foundations. Prelude: integers, string functions of the Rust library, decimal numbers, sequencing. Do_Runtime: storage,
  requests and alarms of a Durable Object (the worker crate). Handler: calls of a component on its part of a handler's
  state, and how such a run is taken apart. Lifecycle: the contract of a state machine whose terminal states have no way out
  and along which a rank grows; its consequences are proved once and interpreted for challenge and session states.
  Single_Use: the contract of a single-use store, with the theorem that a tag is claimed once while it is held;
  interpreted for the nonce object and proved of the two sharded stores. Api_Error: \<open>src/error.rs\<close>. Validation:
  \<open>src/utils/validation.rs\<close>, \<open>src/types/strict.rs\<close>. Crypto_Logic: \<open>crates/verifier-logic\<close> (PKCE, docs HMAC, session
  binding, WebSocket tickets). Origin_Match: \<open>origin.rs\<close> of the same crate. Secrets: \<open>src/utils/retry.rs\<close>,
  \<open>src/security/secret_fingerprint.rs\<close>, \<open>secret_versions.rs\<close>. Audit_Event: the events an object embeds in its answers.

  Challenges. Challenge_State: the record and the states of \<open>src/cache.rs\<close>. Challenge_DO: \<open>src/durable_objects/challenge_do.rs\<close>,
  every handler of the object. Challenge_DO_Correct: the retried write, lineage of a record, what survives any sequence
  of requests. Challenge_Store: \<open>src/storage/do_challenge_store.rs\<close>, the Worker's side with retries and time budget, and its
  refinement to an update of the object. Store_Calls: runs of the store as a handler sees them.

  Nonces and idempotency. Nonce_DO, Nonce_Store: \<open>src/durable_objects/nonce_do.rs\<close>, \<open>src/storage/durable_object_store.rs\<close>.
  Idempotency_DO, Idempotency: \<open>src/durable_objects/idempotency_do.rs\<close>, \<open>src/storage/idempotency_store.rs\<close> and
  \<open>src/security/idempotency.rs\<close>.

  Gates. Fetch_Metadata, Ssrf, Client_Auth, Origin_Policy, Rate_Limit: \<open>src/security/fetch_metadata.rs\<close>,
  \<open>src/utils/ssrf_protection.rs\<close>, \<open>src/routes/api_key_auth.rs\<close> and \<open>ownership.rs\<close>, \<open>src/storage/origin_policy.rs\<close> with
  \<open>src/security/hash.rs\<close>, \<open>src/rate_limiting.rs\<close> with \<open>src/rate_limit_kv.rs\<close>. Envelope and Hmac_Auth:
  \<open>src/security/envelope_encryption.rs\<close> and \<open>src/security/auth.rs\<close>, the authentication of a signed request. Ban_Store and
  Issuer_Registry: \<open>src/storage/ban_store.rs\<close>, \<open>src/storage/jwks.rs\<close>. Credit_Client:
  \<open>src/clients/credit_management.rs\<close>. Age_Cutoff: \<open>src/utils/mod.rs\<close>, the age as a date. Prefix_Rejection:
  \<open>src/security/prefix_rejection.rs\<close>, the refusal of sandbox identifiers. Input_Validation:
  \<open>src/security/validation.rs\<close> with the size checks of \<open>src/worker_routes.rs\<close>.

  Handlers. Create_Challenge and Challenge_Read: \<open>src/routes/challenge.rs\<close>. Verify, Verify_Correct: \<open>src/routes/verify.rs\<close>.
  Redeem: \<open>src/routes/redeem.rs\<close>. Proof_Chain puts a submission and a redemption together.

  The hosted flow. Hosted_Error, Hosted_Crypto, Hosted_Session, Session_Token, Hosted_Notify, Hosted_Rate_Limit, Hosted_Nonce,
  Hosted_Keys: \<open>src/hosted/types/errors.rs\<close>, \<open>encryption.rs\<close>, \<open>types/session.rs\<close> with \<open>storage/kv.rs\<close>, \<open>cookie.rs\<close> with
  the session, CSRF and logout endpoints, the notification object with \<open>endpoints/notify.rs\<close>, \<open>rate_limiting.rs\<close>,
  the nonce object with its sharding, \<open>keys.rs\<close>. Hosted_Challenge, Hosted_Redeem and Hosted_Status: the handlers of
  \<open>endpoints/challenge.rs\<close>, \<open>redeem.rs\<close> and \<open>status.rs\<close>.

  \<^bold>\<open>What the properties show.\<close>
  \<^item> Issuing: a challenge exists only for an authenticated request (\<open>challenge_created_only_if\<close>,
    \<open>hosted_created_only_if\<close>), the answer describes what is stored (\<open>created_challenge_recorded\<close>,
    \<open>hosted_created_recorded\<close>), the signature covers what is asked for (\<open>canonical_message_binds\<close>), and the cutoff
    is the exact birthday (\<open>age_cutoff_exact\<close>).
  \<^item> Proving and redeeming: a redemption is granted only after a proof of a listed issuer was verified
    (\<open>redeem_needs_verified_proof\<close>, \<open>proof_accepted_only_if\<close>, \<open>redeem_granted_only_if\<close>), at most once
    (\<open>redeem_at_most_once\<close>), and the other sides of it: one attempt per challenge, refusals that cannot be retried,
    what the stored record says afterwards.
  \<^item> Stores: single use of a nonce in an object, in the sharded store and in the hosted objects; lineage and survival
    of challenge records under faults; the refinement of the store's update; bans, issuers, their revocation and
    the recovery of the registry.
  \<^item> The hosted session: what a redemption needs, that the session it establishes is the one that is checked, and that
    the browser is told once.
  \<^item> Inputs: addresses and hosts that are never fetched, exact origin matching, PKCE, fetch metadata, quotas, bounded
    retries of the credit client, and error responses.

  Each property has a witness that runs the code's model on a concrete input where the property's hypotheses hold. Lemmas
  of the form \<open>*_ok\<close> invert a phase, \<open>keeps\<close> and \<open>ends_in\<close> facts say what a phase leaves alone and how it can
  answer, and \<open>sample_*\<close> are the concrete inputs.

  \<^bold>\<open>Conditions that recur.\<close> The single-use properties (of nonces, and the at-most-once properties that rest on
  them) hold as long as no storage read inside the nonce objects fails (\<open>reads_ok\<close>, \<open>store_ok\<close>,
  \<open>hosted_nonces_ok\<close>, and \<open>nonces_meanwhile\<close>, which says it of the time between two requests): the objects fail
  open, as \<open>nonce_replay_on_failed_read\<close> shows. Writes may fail and calls may be lost. A check of a KV counter is one
  step of the model: KV has no compare-and-swap, and what checks that overlap do is stated apart
  (\<open>overlapping_checks_admitted\<close>). The notification object answers with the number of sockets it told; closing a
  socket is modelled as its removal, though a socket that is still closing can be counted by a later request. The age of
  a ban entry is an integer difference where the source subtracts floating-point milliseconds, exact below \<open>2 ^ 53\<close>.

  \<^bold>\<open>Bounds.\<close> No fuel is used. The loops of the source are bounded: retries run over the literal list of their attempts or
  delays, scans over the list they scan, \<open>trim\<close> and its relatives and the chunking of deletions by their length, which
  \<open>termination\<close> proofs establish.

  \<^bold>\<open>Not modelled.\<close> The router and the bindings (\<open>src/lib.rs\<close>, \<open>worker_routes.rs\<close> but for its
  size checks, \<open>worker_bindings.rs\<close>, \<open>config.rs\<close>): platform glue. \<open>routes/openapi.rs\<close>, \<open>schema_inference.rs\<close>, \<open>health.rs\<close>, \<open>csp_report.rs\<close> and the
  internal administration routes: documents and operations that touch no verification. \<open>security/audit.rs\<close> but for
  the events of the objects, \<open>log_sanitizer.rs\<close>, \<open>analytics.rs\<close>: output only. \<open>security/headers.rs\<close>, \<open>sri.rs\<close> and the
  hosted header middleware: constants. \<open>security/status_auth.rs\<close>, \<open>status_token_cache.rs\<close>, \<open>secret_expiry.rs\<close>,
  the hosted WebSocket and simulation endpoints and the hosted idempotency object: not reached by this library. Log
  lines, timings, zeroisation of memory and constant-time comparison have no functional effect and are left out
  everywhere, as are tests, benches, fuzz targets and tools.
\<close>

end
